(* ===== verification/Prelude.thy ===== *)
theory Prelude
  imports
    Main
    "HOL-Library.Word"
    "HOL-Library.Sublist"
    "HOL-Library.Char_ord"
    "HOL-Library.List_Lexorder"
    "HOL-Library.Finite_Map"
begin

text \<open>
  The shared vocabulary of the development: how the Go code's results, slices, maps and
  strings appear in the models, the lemma collections that carry the component proofs, and the
  generic facts on lists and maps that more than one component needs.

  \<^item> A Go \<^verbatim>\<open>error\<close> that is the only result is \<open>'e option\<close>, \<open>None\<close> for \<^verbatim>\<open>nil\<close>.
  \<^item> A value with an error is \<open>'e + 'a\<close>, \<open>Inl\<close> for a non-nil error.
  \<^item> Code whose run-time panics matter (slicing, indexing, channel creation) returns
    \<open>('e, 'a) go\<close>, where a panic is a value of its own.
  \<^item> A slice or a map that the code compares with \<^verbatim>\<open>reflect.DeepEqual\<close> is an option, \<open>None\<close> for
    \<^verbatim>\<open>nil\<close>, because \<^verbatim>\<open>DeepEqual\<close> tells a nil slice from an empty one.
  \<^item> A range over a Go map, whose order is not determined, takes the order as an argument.
\<close>

section \<open>Lemma collections\<close>

named_theorems frp_inv \<open>introduction rules: an operation keeps its component's invariant\<close>
named_theorems frp_frame \<open>rewrite rules: what an operation leaves unchanged\<close>
named_theorems frp_str \<open>rewrite rules on the string functions of the Go library\<close>

section \<open>Results\<close>

datatype ('e, 'a) go = Ok 'a | Fail 'e | Panic

text \<open>Sequencing: an error or a panic ends the function.\<close>

fun go_then :: "('e, 'a) go \<Rightarrow> ('a \<Rightarrow> ('e, 'b) go) \<Rightarrow> ('e, 'b) go" where
  "go_then (Ok x) k = k x"
| "go_then (Fail e) k = Fail e"
| "go_then Panic k = Panic"

lemma go_then_not_Panic:
  "m \<noteq> Panic \<Longrightarrow> (\<And>x. m = Ok x \<Longrightarrow> k x \<noteq> Panic) \<Longrightarrow> go_then m k \<noteq> Panic"
  by (cases m) auto

lemma go_then_eq_Ok: "go_then m k = Ok y \<longleftrightarrow> (\<exists>x. m = Ok x \<and> k x = Ok y)"
  by (cases m) auto

text \<open>An error-returning call followed by more code: \<^verbatim>\<open>if err := f(); err != nil { return err }\<close>.\<close>

fun err_then :: "'e option \<Rightarrow> 'e option \<Rightarrow> 'e option" where
  "err_then (Some e) k = Some e"
| "err_then None k = k"

lemma err_then_None [simp]: "err_then m k = None \<longleftrightarrow> m = None \<and> k = None"
  by (cases m) auto

section \<open>Slices and maps that may be nil\<close>

type_synonym 'a slice = "'a list option"
type_synonym str_map = "(string, string) fmap option"

fun elems :: "'a slice \<Rightarrow> 'a list" where
  "elems None = []"
| "elems (Some xs) = xs"

text \<open>Go's slicing \<^verbatim>\<open>xs[i:]\<close>, \<^verbatim>\<open>xs[:i]\<close> and indexing \<^verbatim>\<open>xs[i]\<close>, which panic out of range.\<close>

definition slice_from :: "nat \<Rightarrow> 'a list \<Rightarrow> ('e, 'a list) go" where
  "slice_from i xs = (if i \<le> length xs then Ok (drop i xs) else Panic)"

definition slice_to :: "nat \<Rightarrow> 'a list \<Rightarrow> ('e, 'a list) go" where
  "slice_to i xs = (if i \<le> length xs then Ok (take i xs) else Panic)"

definition go_index :: "'a list \<Rightarrow> nat \<Rightarrow> ('e, 'a) go" where
  "go_index xs i = (if i < length xs then Ok (xs ! i) else Panic)"

lemma slice_from_Ok [simp]: "i \<le> length xs \<Longrightarrow> slice_from i xs = Ok (drop i xs)"
  by (simp add: slice_from_def)

lemma slice_to_Ok [simp]: "i \<le> length xs \<Longrightarrow> slice_to i xs = Ok (take i xs)"
  by (simp add: slice_to_def)

lemma go_index_Ok [simp]: "i < length xs \<Longrightarrow> go_index xs i = Ok (xs ! i)"
  by (simp add: go_index_def)

section \<open>Ranges over maps\<close>

text \<open>
  \<open>range_of m ks\<close>: \<open>ks\<close> is a possible iteration order of a Go range over the map \<open>m\<close>.
\<close>

definition range_of :: "('k \<rightharpoonup> 'v) \<Rightarrow> 'k list \<Rightarrow> bool" where
  "range_of m ks \<longleftrightarrow> distinct ks \<and> set ks = dom m"

lemma range_of_empty [simp]: "range_of Map.empty ks \<longleftrightarrow> ks = []"
  by (auto simp: range_of_def)

lemma range_of_mem: "range_of m ks \<Longrightarrow> k \<in> set ks \<longleftrightarrow> (\<exists>v. m k = Some v)"
  by (auto simp: range_of_def)

section \<open>Removing the first occurrence from a list\<close>

text \<open>The idiom \<^verbatim>\<open>append(xs[:i], xs[i+1:]...)\<close> at the first match is \<open>remove1\<close>.\<close>

lemma remove1_distinct_notin: "distinct xs \<Longrightarrow> x \<notin> set (remove1 x xs)"
  by simp

lemma remove1_eq_Nil: "remove1 x xs = [] \<longleftrightarrow> xs = [] \<or> xs = [x]"
  by (cases xs) auto

section \<open>Folds that stop at the first error\<close>

text \<open>
  \<open>fold_err f xs s\<close> runs \<open>f x\<close> for each element in order, threading the state, and stops at the
  first error: the shape of the code's loops with an early \<^verbatim>\<open>return err\<close>.
\<close>

fun fold_err :: "('a \<Rightarrow> 's \<Rightarrow> 'e + 's) \<Rightarrow> 'a list \<Rightarrow> 's \<Rightarrow> 'e + 's" where
  "fold_err f [] s = Inr s"
| "fold_err f (x # xs) s = (case f x s of Inl e \<Rightarrow> Inl e | Inr s' \<Rightarrow> fold_err f xs s')"

lemma fold_err_append:
  "fold_err f (xs @ ys) s = (case fold_err f xs s of Inl e \<Rightarrow> Inl e | Inr s' \<Rightarrow> fold_err f ys s')"
  by (induction xs arbitrary: s) (auto split: sum.splits)

lemma fold_err_invariant:
  assumes "\<And>x s s'. x \<in> set xs \<Longrightarrow> P s \<Longrightarrow> f x s = Inr s' \<Longrightarrow> P s'"
    and "P s" and "fold_err f xs s = Inr s'"
  shows "P s'"
  using assms
proof (induction xs arbitrary: s)
  case Nil
  then show ?case by simp
next
  case (Cons x xs)
  from Cons.prems(3) obtain t where t: "f x s = Inr t" and rest: "fold_err f xs t = Inr s'"
    by (auto split: sum.splits)
  from Cons.prems(1) [OF _ Cons.prems(2) t] have "P t" by simp
  then show ?case using Cons.prems(1) rest by (intro Cons.IH) auto
qed

section \<open>Machine integers\<close>

lemma sint_of_small: "unat (w :: 64 word) < 2 ^ 63 \<Longrightarrow> sint w = int (unat w)"
proof -
  assume "unat w < 2 ^ 63"
  then have "int (unat w) < int (2 ^ 63)" by (simp only: of_nat_less_iff)
  then have "int (unat w) < 2 ^ 63" by simp
  then have "uint w < 2 ^ 63" by (simp only: uint_nat)
  then have "signed_take_bit 63 (uint w) = uint w"
    by (intro signed_take_bit_int_eq_self order_trans [OF _ uint_ge_0]) simp_all
  moreover have "sint w = signed_take_bit 63 (uint w)" by (simp add: sint_uint)
  ultimately show ?thesis by (simp only: uint_nat)
qed

lemma sint_of_nat_64: "n < 2 ^ 63 \<Longrightarrow> sint (of_nat n :: 64 word) = int n"
proof -
  assume n: "n < 2 ^ 63"
  have "n mod 2 ^ 64 = n" by (rule mod_less) (use n in simp)
  then have u: "unat (of_nat n :: 64 word) = n" by (simp add: unat_of_nat)
  show ?thesis using sint_of_small [of "of_nat n"] n by (simp only: u)
qed

end
