(* ===== verification/Go_Strings.thy ===== *)
theory Go_Strings
  imports Prelude
begin

text \<open>
  The functions of Go's \<^verbatim>\<open>strings\<close>, \<^verbatim>\<open>strconv\<close> and \<^verbatim>\<open>fmt\<close> packages that frp calls, on byte strings
  (\<open>string\<close> is a list of bytes here as it is in Go). Prefixes, suffixes and substrings are
  \<open>prefix\<close>, \<open>suffix\<close> and \<open>sublist\<close> of HOL-Library.Sublist; comparison of strings is the
  lexicographic order on bytes of HOL-Library.List\_Lexorder. \<open>trim_space\<close> and \<open>to_lower\<close> treat
  the ASCII characters, as Go does on the ASCII strings frp passes them.
\<close>

section \<open>Splitting and joining on one separator byte\<close>

fun split_on :: "char \<Rightarrow> string \<Rightarrow> string list" where
  "split_on c [] = [[]]"
| "split_on c (x # xs) =
     (if x = c then [] # split_on c xs
      else (case split_on c xs of [] \<Rightarrow> [[x]] | w # ws \<Rightarrow> (x # w) # ws))"

fun join :: "string \<Rightarrow> string list \<Rightarrow> string" where
  "join sep [] = []"
| "join sep [w] = w"
| "join sep (w # ws) = w @ sep @ join sep ws"

lemma split_on_not_Nil [simp]: "split_on c s \<noteq> []"
  by (induction s) (auto split: list.splits)

lemma split_on_Cons_other:
  "x \<noteq> c \<Longrightarrow> split_on c (x # xs) = (x # hd (split_on c xs)) # tl (split_on c xs)"
  by (cases "split_on c xs") auto

lemma split_on_no_sep [frp_str]: "c \<notin> set w \<Longrightarrow> split_on c w = [w]"
  by (induction w) auto

lemma split_on_append_sep [frp_str]:
  "split_on c (a @ c # b) = split_on c a @ split_on c b"
proof (induction a)
  case Nil
  then show ?case by simp
next
  case (Cons x a)
  show ?case
  proof (cases "x = c")
    case True
    with Cons show ?thesis by simp
  next
    case False
    with Cons show ?thesis by (simp split: list.splits)
  qed
qed

lemma join_Cons: "ws \<noteq> [] \<Longrightarrow> join sep (w # ws) = w @ sep @ join sep ws"
  by (cases ws) auto

lemma join_split_on [frp_str]: "join [c] (split_on c s) = s"
proof (induction s)
  case Nil
  then show ?case by simp
next
  case (Cons x s)
  obtain w ws where w: "split_on c s = w # ws"
    by (cases "split_on c s") auto
  with Cons show ?case by (cases ws) auto
qed

lemma split_on_join [frp_str]:
  "ws \<noteq> [] \<Longrightarrow> \<forall>w \<in> set ws. c \<notin> set w \<Longrightarrow> split_on c (join [c] ws) = ws"
proof (induction ws)
  case Nil
  then show ?case by simp
next
  case (Cons w ws)
  show ?case
  proof (cases "ws = []")
    case True
    with Cons.prems show ?thesis by (simp add: split_on_no_sep)
  next
    case False
    with Cons show ?thesis by (simp add: join_Cons split_on_append_sep split_on_no_sep)
  qed
qed

lemma split_on_pieces: "w \<in> set (split_on c s) \<Longrightarrow> c \<notin> set w"
proof (induction s arbitrary: w)
  case Nil
  then show ?case by simp
next
  case (Cons x s)
  show ?case
  proof (cases "x = c")
    case True
    with Cons show ?thesis by auto
  next
    case False
    obtain v vs where v: "split_on c s = v # vs"
      by (cases "split_on c s") auto
    with Cons.IH have "c \<notin> set v" and "\<And>u. u \<in> set vs \<Longrightarrow> c \<notin> set u"
      by auto
    with False v Cons.prems show ?thesis by auto
  qed
qed

lemma length_split_on: "length (split_on c s) = Suc (count_list s c)"
  by (induction s) (auto split: list.splits)

lemma split_on_inj: "split_on c s = split_on c t \<Longrightarrow> s = t"
  by (metis join_split_on)

section \<open>Prefixes and suffixes\<close>

definition trim_prefix :: "string \<Rightarrow> string \<Rightarrow> string" where
  "trim_prefix p s = (if prefix p s then drop (length p) s else s)"

definition trim_suffix :: "string \<Rightarrow> string \<Rightarrow> string" where
  "trim_suffix p s = (if suffix p s then take (length s - length p) s else s)"

lemma trim_prefix_append [simp]: "trim_prefix p (p @ s) = s"
  by (simp add: trim_prefix_def)

lemma trim_suffix_append [simp]: "trim_suffix p (s @ p) = s"
  by (simp add: trim_suffix_def suffix_def)

section \<open>White space and case\<close>

definition is_space :: "char \<Rightarrow> bool" where
  "is_space c \<longleftrightarrow> c \<in> {CHR 0x09, CHR 0x0A, CHR 0x0B, CHR 0x0C, CHR 0x0D, CHR 0x20}"

definition trim_space :: "string \<Rightarrow> string" where
  "trim_space s = rev (dropWhile is_space (rev (dropWhile is_space s)))"

lemma trim_space_id [frp_str]:
  assumes "\<forall>c \<in> set s. \<not> is_space c"
  shows "trim_space s = s"
proof -
  have "dropWhile is_space xs = xs" if "\<forall>c \<in> set xs. \<not> is_space c" for xs
    using that by (cases xs) auto
  from this [of s] this [of "rev s"] assms show ?thesis by (simp add: trim_space_def)
qed

lemma trim_space_Nil [simp]: "trim_space [] = []"
  by (simp add: trim_space_def)

lemma trim_space_idem [simp]: "trim_space (trim_space s) = trim_space s"
proof -
  define t where "t = dropWhile is_space s"
  define u where "u = dropWhile is_space (rev t)"
  have ts: "trim_space s = rev u" by (simp add: trim_space_def t_def u_def)
  have u_head: "u = [] \<or> \<not> is_space (hd u)"
    using hd_dropWhile[of is_space "rev t"] by (auto simp: u_def)
  have suf: "suffix u (rev t)" by (auto simp: u_def suffix_dropWhile)
  then have pre: "prefix (rev u) t" by (simp add: suffix_to_prefix)
  have t_head: "t = [] \<or> \<not> is_space (hd t)"
    using hd_dropWhile[of is_space s] by (auto simp: t_def)
  have "dropWhile is_space (rev u) = rev u"
  proof (cases "rev u")
    case Nil
    then show ?thesis by simp
  next
    case (Cons c cs)
    with pre have "t \<noteq> []" and "hd t = c" by (auto simp: prefix_def)
    with t_head Cons show ?thesis by simp
  qed
  moreover have "dropWhile is_space u = u"
    using u_head by (cases u) auto
  ultimately show ?thesis by (simp add: ts) (simp add: trim_space_def)
qed

definition to_lower_char :: "char \<Rightarrow> char" where
  "to_lower_char c =
     (if 65 \<le> (of_char c :: nat) \<and> (of_char c :: nat) \<le> 90 then char_of ((of_char c :: nat) + 32) else c)"

definition to_lower :: "string \<Rightarrow> string" where
  "to_lower s = map to_lower_char s"

lemma to_lower_char_idem [simp]: "to_lower_char (to_lower_char c) = to_lower_char c"
  by (simp add: to_lower_char_def of_char_of take_bit_nat_eq_self)

lemma to_lower_idem [simp]: "to_lower (to_lower s) = to_lower s"
  by (simp add: to_lower_def)

section \<open>Decimal numbers\<close>

text \<open>\<open>nat_str\<close> and \<open>int_str\<close> are the \<^verbatim>\<open>%d\<close> of \<^verbatim>\<open>fmt.Sprintf\<close>.\<close>

definition digit_char :: "nat \<Rightarrow> char" where
  "digit_char d = char_of (48 + d)"

lemma digit_char_eval [simp]:
  "digit_char 0 = CHR ''0''"
  "digit_char (Suc 0) = CHR ''1''"
  "digit_char 2 = CHR ''2''"
  "digit_char 3 = CHR ''3''"
  "digit_char 4 = CHR ''4''"
  "digit_char 5 = CHR ''5''"
  "digit_char 6 = CHR ''6''"
  "digit_char 7 = CHR ''7''"
  "digit_char 8 = CHR ''8''"
  "digit_char 9 = CHR ''9''"
  by (simp_all add: digit_char_def char_of_def bit_Suc_0_iff)

fun nat_str :: "nat \<Rightarrow> string" where
  "nat_str n = (if n < 10 then [digit_char n] else nat_str (n div 10) @ [digit_char (n mod 10)])"

declare nat_str.simps [simp del]

definition int_str :: "int \<Rightarrow> string" where
  "int_str i = (if i < 0 then CHR ''-'' # nat_str (nat (- i)) else nat_str (nat i))"

definition digit_val :: "char \<Rightarrow> nat option" where
  "digit_val c = (let v = of_char c in if 48 \<le> v \<and> v \<le> 57 then Some (v - 48) else None)"

datatype num_error = SyntaxErr | RangeErr

text \<open>
  \<^verbatim>\<open>strconv.ParseUint(s, 10, 64)\<close> (the loop, given the value so far) and
  \<^verbatim>\<open>strconv.ParseInt(s, 10, 64)\<close>, which returns a value together with its error: 0 with a
  syntax error, the nearest representable value with a range error.
\<close>

fun parse_uint :: "nat \<Rightarrow> string \<Rightarrow> num_error + nat" where
  "parse_uint n [] = Inr n"
| "parse_uint n (c # cs) =
     (case digit_val c of
        None \<Rightarrow> Inl SyntaxErr
      | Some d \<Rightarrow> if n * 10 + d \<ge> 2 ^ 64 then Inl RangeErr else parse_uint (n * 10 + d) cs)"

definition parse_signed :: "bool \<Rightarrow> string \<Rightarrow> int \<times> num_error option" where
  "parse_signed neg cs =
     (if cs = [] then (0, Some SyntaxErr)
      else case parse_uint 0 cs of
        Inl SyntaxErr \<Rightarrow> (0, Some SyntaxErr)
      | Inl RangeErr \<Rightarrow> (if neg then - (2 ^ 63) else 2 ^ 63 - 1, Some RangeErr)
      | Inr n \<Rightarrow>
          if \<not> neg \<and> n \<ge> 2 ^ 63 then (2 ^ 63 - 1, Some RangeErr)
          else if neg \<and> n > 2 ^ 63 then (- (2 ^ 63), Some RangeErr)
          else (if neg then - int n else int n, None))"

definition parse_int :: "string \<Rightarrow> int \<times> num_error option" where
  "parse_int s =
     (case s of
        [] \<Rightarrow> (0, Some SyntaxErr)
      | c # cs \<Rightarrow>
          if c = CHR ''+'' then parse_signed False cs
          else if c = CHR ''-'' then parse_signed True cs
          else parse_signed False s)"

lemma digit_val_digit_char [simp]: "d < 10 \<Longrightarrow> digit_val (digit_char d) = Some d"
  by (simp add: digit_val_def digit_char_def Let_def)

lemma digit_char_range: "d < 10 \<Longrightarrow> 48 \<le> (of_char (digit_char d) :: nat) \<and> (of_char (digit_char d) :: nat) \<le> 57"
  by (simp add: digit_char_def)

lemma nat_str_digits: "c \<in> set (nat_str n) \<Longrightarrow> \<exists>d < 10. c = digit_char d"
proof (induction n rule: nat_str.induct)
  case (1 n)
  show ?case
  proof (cases "n < 10")
    case True
    with 1 show ?thesis by (auto simp: nat_str.simps [of n])
  next
    case False
    then have "n mod 10 < 10" and "nat_str n = nat_str (n div 10) @ [digit_char (n mod 10)]"
      by (simp_all add: nat_str.simps [of n])
    with 1 False have "(\<exists>d < 10. c = digit_char d) \<or> c = digit_char (n mod 10)"
      by auto
    with \<open>n mod 10 < 10\<close> show ?thesis by blast
  qed
qed

lemma nat_str_not_Nil [simp]: "nat_str n \<noteq> []"
  by (subst nat_str.simps) simp

lemma parse_uint_snoc:
  "parse_uint k (cs @ [c]) = (case parse_uint k cs of Inl e \<Rightarrow> Inl e | Inr m \<Rightarrow> parse_uint m [c])"
proof (induction cs arbitrary: k)
  case Nil
  show ?case by (simp only: append_Nil parse_uint.simps(1) sum.case)
next
  case (Cons x cs)
  show ?case
  proof (cases "digit_val x")
    case None
    then show ?thesis by (simp only: append_Cons parse_uint.simps(2) option.case sum.case)
  next
    case (Some d)
    then show ?thesis
      by (cases "k * 10 + d \<ge> 2 ^ 64")
        (simp_all only: append_Cons parse_uint.simps(2) [of _ x] option.case sum.case if_True if_False Cons.IH)
  qed
qed

lemma parse_uint_nat_str: "n < 2 ^ 64 \<Longrightarrow> parse_uint 0 (nat_str n) = Inr n"
proof (induction n rule: nat_str.induct)
  case (1 n)
  show ?case
  proof (cases "n < 10")
    case True
    then show ?thesis by (simp add: nat_str.simps [of n])
  next
    case False
    with 1 have "parse_uint 0 (nat_str (n div 10)) = Inr (n div 10)" by simp
    with False 1 show ?thesis
      by (simp add: nat_str.simps [of n] parse_uint_snoc)
  qed
qed

lemma digit_char_neq:
  assumes "d < 10" and "of_char c < (48::nat) \<or> of_char c > (57::nat)"
  shows "digit_char d \<noteq> c"
  using digit_char_range [OF assms(1)] assms(2) by auto

lemma nat_str_free:
  "of_char c < (48::nat) \<or> of_char c > (57::nat) \<Longrightarrow> c \<notin> set (nat_str n)"
  using nat_str_digits digit_char_neq by blast

lemma parse_int_nat_str [frp_str]: "n < 2 ^ 63 \<Longrightarrow> parse_int (nat_str n) = (int n, None)"
proof -
  assume n: "n < 2 ^ 63"
  obtain c cs where c: "nat_str n = c # cs" by (cases "nat_str n") auto
  have "c \<noteq> CHR ''+''" and "c \<noteq> CHR ''-''"
    using c nat_str_free [of "CHR ''+''" n] nat_str_free [of "CHR ''-''" n] by auto
  moreover have "parse_uint 0 (c # cs) = Inr n"
    using parse_uint_nat_str [of n] n by (simp add: c)
  ultimately show ?thesis using n
    by (simp add: parse_int_def c parse_signed_def del: parse_uint.simps)
qed

lemma parse_int_int_str [frp_str]:
  assumes "- (2 ^ 63) \<le> i" and "i < 2 ^ 63"
  shows "parse_int (int_str i) = (i, None)"
proof (cases "i < 0")
  case True
  then have "parse_uint 0 (nat_str (nat (- i))) = Inr (nat (- i))"
    using assms by (intro parse_uint_nat_str) simp
  with True assms show ?thesis by (simp add: int_str_def parse_int_def parse_signed_def nat_less_iff)
next
  case False
  with assms parse_int_nat_str [of "nat i"] show ?thesis by (simp add: int_str_def nat_less_iff)
qed

text \<open>A text without a sign parses, when it parses, to a natural number below the limit.\<close>

lemma parse_signed_False_range:
  "parse_signed False cs = (i, None) \<Longrightarrow> 0 \<le> i \<and> i < 2 ^ 63"
  by (auto simp: parse_signed_def split: if_splits sum.splits num_error.splits)

lemma parse_int_no_minus:
  "CHR ''-'' \<notin> set s \<Longrightarrow> parse_int s = (i, None) \<Longrightarrow> 0 \<le> i \<and> i < 2 ^ 63"
  by (auto simp: parse_int_def split: list.splits if_splits dest: parse_signed_False_range)

lemma parse_int_range: "parse_int s = (i, e) \<Longrightarrow> - (2 ^ 63) \<le> i \<and> i < 2 ^ 63"
  by (auto simp: parse_int_def parse_signed_def split: list.splits if_splits sum.splits num_error.splits)

lemma trim_space_subset: "set (trim_space s) \<subseteq> set s"
proof -
  have "set (dropWhile is_space xs) \<subseteq> set xs" for xs by (auto dest: set_dropWhileD)
  from this [of "rev (dropWhile is_space s)"] this [of s] show ?thesis
    by (auto simp: trim_space_def)
qed

lemma nat_str_no_space [frp_str]: "trim_space (nat_str n) = nat_str n"
proof (rule trim_space_id, rule ballI)
  fix c
  assume "c \<in> set (nat_str n)"
  then obtain d where "d < 10" and "c = digit_char d" using nat_str_digits by blast
  moreover have "(48::nat) \<le> of_char c" using calculation digit_char_range by blast
  ultimately show "\<not> is_space c" by (auto simp: is_space_def)
qed


lemma digit_char_inj: "a < 10 \<Longrightarrow> b < 10 \<Longrightarrow> digit_char a = digit_char b \<Longrightarrow> a = b"
  by (metis digit_val_digit_char option.inject)

lemma nat_str_small: "n < 10 \<Longrightarrow> nat_str n = [digit_char n]"
  by (simp only: nat_str.simps [of n] if_True)

lemma nat_str_large: "\<not> n < 10 \<Longrightarrow> nat_str n = nat_str (n div 10) @ [digit_char (n mod 10)]"
  by (simp only: nat_str.simps [of n] if_False)

lemma nat_str_small_large:
  assumes "m < 10" and "\<not> n < 10"
  shows "nat_str m \<noteq> nat_str n"
proof
  assume "nat_str m = nat_str n"
  then have "[digit_char m] = nat_str (n div 10) @ [digit_char (n mod 10)]"
    by (simp only: nat_str_small [OF assms(1)] nat_str_large [OF assms(2)])
  then have "nat_str (n div 10) = []"
    by (metis append_Nil append_same_eq butlast_snoc)
  then show False by (simp only: nat_str_not_Nil)
qed

lemma nat_str_inj: "nat_str m = nat_str n \<Longrightarrow> m = n"
proof (induction m arbitrary: n rule: nat_str.induct)
  case (1 m)
  show ?case
  proof (cases "m < 10")
    case True
    with "1.prems" have n: "n < 10" using nat_str_small_large by metis
    from "1.prems" have "[digit_char m] = [digit_char n]"
      by (simp only: nat_str_small [OF True] nat_str_small [OF n])
    then have "digit_char m = digit_char n" by (simp only: list.inject)
    with True n show ?thesis by (rule digit_char_inj [of m n])
  next
    case False
    with "1.prems" have n: "\<not> n < 10" using nat_str_small_large by metis
    from "1.prems" have e: "nat_str (m div 10) = nat_str (n div 10) \<and> digit_char (m mod 10) = digit_char (n mod 10)"
      by (simp only: nat_str_large [OF False] nat_str_large [OF n] append1_eq_conv)
    have "m mod 10 < 10" "n mod 10 < 10" by simp_all
    with e have "m mod 10 = n mod 10" using digit_char_inj by blast
    moreover have "m div 10 = n div 10" using "1.IH" [OF False] e by blast
    ultimately show ?thesis by (metis div_mult_mod_eq)
  qed
qed

end
