(* ===== verification/Util.thy ===== *)
theory Util
  imports Go_Strings
begin

text \<open>
  \<^verbatim>\<open>frp/pkg/util/util/util.go\<close>, \<^verbatim>\<open>frp/pkg/util/util/http.go\<close>, \<^verbatim>\<open>frp/pkg/util/version/version.go\<close>
  and \<^verbatim>\<open>frp/pkg/consts/consts.go\<close>: authentication keys, canonical addresses, the port range
  syntax of the configuration files and the version order of the login handshake.
  The md5 digest of \<^verbatim>\<open>GetAuthKey\<close> is a parameter.
\<close>

section \<open>Constants\<close>

definition TCPProxy :: string where "TCPProxy = ''tcp''"
definition UDPProxy :: string where "UDPProxy = ''udp''"
definition TCPMuxProxy :: string where "TCPMuxProxy = ''tcpmux''"
definition HTTPProxy :: string where "HTTPProxy = ''http''"
definition HTTPSProxy :: string where "HTTPSProxy = ''https''"
definition STCPProxy :: string where "STCPProxy = ''stcp''"
definition XTCPProxy :: string where "XTCPProxy = ''xtcp''"
definition SUDPProxy :: string where "SUDPProxy = ''sudp''"
definition TokenAuthMethod :: string where "TokenAuthMethod = ''token''"
definition OidcAuthMethod :: string where "OidcAuthMethod = ''oidc''"
definition HTTPConnectTCPMultiplexer :: string where "HTTPConnectTCPMultiplexer = ''httpconnect''"

lemmas proxy_type_defs = TCPProxy_def UDPProxy_def TCPMuxProxy_def HTTPProxy_def HTTPSProxy_def
  STCPProxy_def XTCPProxy_def SUDPProxy_def

section \<open>util.go\<close>

text \<open>
  \<^verbatim>\<open>RandIDWithLen\<close>: \<open>random\<close> gives the random bytes, or fails; a negative length panics. \<^verbatim>\<open>%x\<close> prints two
  digits for a byte.
\<close>

definition hex_digit :: "nat \<Rightarrow> char" where
  "hex_digit n = ''0123456789abcdef'' ! n"

definition hex_string :: "8 word list \<Rightarrow> string" where
  "hex_string bs = concat (map (\<lambda>b. [hex_digit (unat b div 16), hex_digit (unat b mod 16)]) bs)"

definition rand_id_with_len :: "(nat \<Rightarrow> 8 word list option) \<Rightarrow> int \<Rightarrow> (unit, string) go" where
  "rand_id_with_len random idLen =
     (if idLen < 0 then Panic
      else case random (nat idLen) of None \<Rightarrow> Fail () | Some b \<Rightarrow> Ok (hex_string b))"

definition rand_id :: "(nat \<Rightarrow> 8 word list option) \<Rightarrow> (unit, string) go" where
  "rand_id random = rand_id_with_len random 8"

lemma hex_digit_inj: "i < 16 \<Longrightarrow> j < 16 \<Longrightarrow> hex_digit i = hex_digit j \<Longrightarrow> i = j"
  unfolding hex_digit_def by (subst (asm) nth_eq_iff_index_eq) auto

lemma unat_byte_div: "unat (b :: 8 word) div 16 < 16"
proof -
  have "unat b < 2 ^ LENGTH(8)" by (rule unsigned_less)
  then show ?thesis by simp
qed

lemma hex_string_inj: "hex_string as = hex_string bs \<Longrightarrow> as = bs"
proof (induction as arbitrary: bs)
  case Nil
  then show ?case by (cases bs) (simp_all add: hex_string_def)
next
  case (Cons a as)
  then obtain b bs' where bs: "bs = b # bs'" by (cases bs) (simp_all add: hex_string_def)
  with Cons.prems have "hex_digit (unat a div 16) = hex_digit (unat b div 16)"
    "hex_digit (unat a mod 16) = hex_digit (unat b mod 16)" and rest: "hex_string as = hex_string bs'"
    by (simp_all add: hex_string_def)
  then have "unat a div 16 = unat b div 16" "unat a mod 16 = unat b mod 16"
    by (auto intro: hex_digit_inj simp: unat_byte_div)
  then have "unat a = unat b" by (metis div_mult_mod_eq)
  with Cons.IH [OF rest] bs show ?case by (simp add: word_unat_eq_iff)
qed

text \<open>Run ids have sixteen characters, and two of them are equal only when the random bytes were.\<close>

lemma rand_id_unique:
  assumes "rand_id r1 = Ok id1" and "rand_id r2 = Ok id2" and "id1 = id2"
  shows "r1 8 = r2 8"
  using assms hex_string_inj
  by (auto simp: rand_id_def rand_id_with_len_def split: option.split_asm)

lemma rand_id_length:
  assumes "rand_id random = Ok runID" and "\<And>n b. random n = Some b \<Longrightarrow> length b = n"
  shows "length runID = 16"
proof -
  have "length (hex_string b) = 2 * length b" for b by (induction b) (simp_all add: hex_string_def)
  with assms show ?thesis by (auto simp: rand_id_def rand_id_with_len_def split: option.split_asm)
qed

definition get_auth_key :: "(string \<Rightarrow> string) \<Rightarrow> string \<Rightarrow> int \<Rightarrow> string" where
  "get_auth_key md5hex token timestamp = md5hex (token @ int_str timestamp)"

definition canonical_addr :: "string \<Rightarrow> int \<Rightarrow> string" where
  "canonical_addr host port =
     (if port = 80 \<or> port = 443 then host else host @ '':'' @ int_str port)"

definition generate_response_error_string :: "string \<Rightarrow> string \<Rightarrow> bool \<Rightarrow> string" where
  "generate_response_error_string summary err detailed = (if detailed then err else summary)"

subsection \<open>ParseRangeNumbers\<close>

datatype range_error = RangeParse num_error | RangeInvalid

text \<open>
  \<^verbatim>\<open>for i := min; i <= max; i++\<close> over \<^verbatim>\<open>int64\<close>. The counter wraps around, so the loop does not
  end when \<^verbatim>\<open>max\<close> is the largest \<^verbatim>\<open>int64\<close>: \<open>None\<close> is a loop that never returns.
\<close>

partial_function (option) range_loop :: "64 word \<Rightarrow> 64 word \<Rightarrow> int list \<Rightarrow> int list option" where
  "range_loop i mx acc =
     (if i \<le>s mx then range_loop (i + 1) mx (acc @ [sint i]) else Some acc)"

text \<open>One comma-separated item: \<^verbatim>\<open>1000-2000\<close> or \<^verbatim>\<open>2001\<close>.\<close>

definition parse_range_item :: "string \<Rightarrow> int list \<Rightarrow> (range_error + int list) option" where
  "parse_range_item numRangeStr numbers =
     (let numArray = split_on (CHR ''-'') numRangeStr; rangeType = length numArray in
      if rangeType = 1 then
        (case parse_int (trim_space (numArray ! 0)) of
           (singleNum, Some e) \<Rightarrow> Some (Inl (RangeParse e))
         | (singleNum, None) \<Rightarrow> Some (Inr (numbers @ [singleNum])))
      else if rangeType = 2 then
        (case parse_int (trim_space (numArray ! 0)) of
           (mn, Some e) \<Rightarrow> Some (Inl (RangeParse e))
         | (mn, None) \<Rightarrow>
             (case parse_int (trim_space (numArray ! 1)) of
                (mx, Some e) \<Rightarrow> Some (Inl (RangeParse e))
              | (mx, None) \<Rightarrow>
                  if mx < mn then Some (Inl RangeInvalid)
                  else map_option Inr (range_loop (word_of_int mn) (word_of_int mx) numbers)))
      else Some (Inl RangeInvalid))"

fun parse_range_items :: "string list \<Rightarrow> int list \<Rightarrow> (range_error + int list) option" where
  "parse_range_items [] numbers = Some (Inr numbers)"
| "parse_range_items (w # ws) numbers =
     (case parse_range_item w numbers of
        None \<Rightarrow> None
      | Some (Inl e) \<Rightarrow> Some (Inl e)
      | Some (Inr numbers') \<Rightarrow> parse_range_items ws numbers')"

definition parse_range_numbers :: "string \<Rightarrow> (range_error + int list) option" where
  "parse_range_numbers rangeStr = parse_range_items (split_on (CHR '','') (trim_space rangeStr)) []"

text \<open>The loop computes the interval when it can end.\<close>

lemma sint_word_of_int_64:
  "- (2 ^ 63) \<le> i \<Longrightarrow> i < 2 ^ 63 \<Longrightarrow> sint (word_of_int i :: 64 word) = i"
  by (simp add: sint_sbintrunc' signed_take_bit_int_eq_self)

lemma range_loop_interval:
  assumes "- (2 ^ 63) \<le> lo" and "- (2 ^ 63) \<le> hi" and "hi < 2 ^ 63 - 1" and "lo \<le> hi + 1"
  shows "range_loop (word_of_int lo) (word_of_int hi) acc = Some (acc @ [lo..hi])"
  using assms
proof (induction "nat (hi + 1 - lo)" arbitrary: lo acc)
  case 0
  then have "lo = hi + 1" by simp
  moreover have "\<not> (word_of_int lo :: 64 word) \<le>s word_of_int hi"
    using 0 by (simp add: word_sle_eq sint_word_of_int_64)
  ultimately show ?case by (simp add: range_loop.simps)
next
  case (Suc n)
  then have le: "lo \<le> hi" by simp
  have step: "range_loop (word_of_int (lo + 1)) (word_of_int hi) (acc @ [lo]) =
      Some ((acc @ [lo]) @ [lo + 1..hi])"
    using Suc.hyps(2) Suc.prems le by (intro Suc.hyps(1)) auto
  have "(word_of_int lo :: 64 word) \<le>s word_of_int hi"
    using Suc.prems le by (simp add: word_sle_eq sint_word_of_int_64)
  moreover have "(word_of_int lo :: 64 word) + 1 = word_of_int (lo + 1)"
    by simp
  moreover have "[lo..hi] = lo # [lo + 1..hi]"
    using le by (simp add: upto_rec1)
  ultimately show ?case
    using step Suc.prems le
    by (subst range_loop.simps) (simp add: sint_word_of_int_64)
qed

lemma range_loop_max_diverges: "range_loop i (word_of_int (2 ^ 63 - 1)) acc = None"
proof (rule ccontr)
  assume "range_loop i (word_of_int (2 ^ 63 - 1)) acc \<noteq> None"
  then obtain r where r: "range_loop i (word_of_int (2 ^ 63 - 1)) acc = Some r" by auto
  have top: "(j :: 64 word) \<le>s word_of_int (2 ^ 63 - 1)" for j
    using sint_lt [of j] by (simp add: word_sle_eq)
  have "(word_of_int (2 ^ 63 - 1) :: 64 word) \<noteq> word_of_int (2 ^ 63 - 1)"
  proof (rule range_loop.raw_induct
      [where P = "\<lambda>i mx acc r. mx \<noteq> word_of_int (2 ^ 63 - 1)", OF _ r])
    fix f :: "64 word \<Rightarrow> 64 word \<Rightarrow> int list \<Rightarrow> int list option"
      and i mx :: "64 word" and acc r
    assume IH: "\<And>i mx acc r. f i mx acc = Some r \<Longrightarrow> mx \<noteq> word_of_int (2 ^ 63 - 1)"
      and eq: "(if i \<le>s mx then f (i + 1) mx (acc @ [sint i]) else Some acc) = Some r"
    show "mx \<noteq> word_of_int (2 ^ 63 - 1)"
    proof
      assume "mx = word_of_int (2 ^ 63 - 1)"
      with top [of i] eq have "f (i + 1) mx (acc @ [sint i]) = Some r" by simp
      from IH [OF this] \<open>mx = _\<close> show False by simp
    qed
  qed
  then show False by simp
qed

text \<open>Rendering a list of ranges in the syntax of the configuration file.\<close>

fun render_range :: "nat \<times> nat \<Rightarrow> string" where
  "render_range (a, b) = (if a = b then nat_str a else nat_str a @ ''-'' @ nat_str b)"

definition render_ranges :: "(nat \<times> nat) list \<Rightarrow> string" where
  "render_ranges rs = join '','' (map render_range rs)"

definition range_numbers :: "(nat \<times> nat) list \<Rightarrow> int list" where
  "range_numbers rs = concat (map (\<lambda>(a, b). [int a..int b]) rs)"

lemma nat_str_no_dash [simp]: "CHR ''-'' \<notin> set (nat_str n)"
  by (rule nat_str_free) simp

lemma nat_str_no_comma [simp]: "CHR '','' \<notin> set (nat_str n)"
  by (rule nat_str_free) simp

lemma parse_range_item_render:
  assumes "a \<le> b" and "b < 2 ^ 63 - 1"
  shows "parse_range_item (render_range (a, b)) acc = Some (Inr (acc @ [int a..int b]))"
proof (cases "a = b")
  case True
  with assms have "parse_int (nat_str a) = (int a, None)"
    by (intro parse_int_nat_str) simp
  with True show ?thesis
    by (simp add: parse_range_item_def split_on_no_sep nat_str_no_space)
next
  case False
  with assms have "parse_int (nat_str a) = (int a, None)" "parse_int (nat_str b) = (int b, None)"
    by (auto intro: parse_int_nat_str)
  moreover have "split_on (CHR ''-'') (nat_str a @ ''-'' @ nat_str b) = [nat_str a, nat_str b]"
    by (simp add: split_on_append_sep split_on_no_sep)
  moreover have "range_loop (word_of_int (int a)) (word_of_int (int b)) acc = Some (acc @ [int a..int b])"
    using assms by (intro range_loop_interval) auto
  ultimately show ?thesis
    using False assms
    by (simp add: parse_range_item_def nat_str_no_space)
qed

lemma parse_range_items_render:
  assumes "\<forall>(a, b) \<in> set rs. a \<le> b \<and> b < 2 ^ 63 - 1"
  shows "parse_range_items (map render_range rs) acc = Some (Inr (acc @ range_numbers rs))"
  using assms
proof (induction rs arbitrary: acc)
  case Nil
  then show ?case by (simp add: range_numbers_def)
next
  case (Cons r rs)
  obtain a b where r: "r = (a, b)" by (cases r)
  with Cons.prems have "parse_range_item (render_range (a, b)) acc = Some (Inr (acc @ [int a..int b]))"
    by (intro parse_range_item_render) auto
  with Cons r show ?case by (simp add: range_numbers_def)
qed

lemma render_range_chars: "c \<in> set (render_range r) \<Longrightarrow> c = CHR ''-'' \<or> (\<exists>d < 10. c = digit_char d)"
  by (cases r) (auto split: if_splits dest: nat_str_digits)

lemma join_chars: "c \<in> set (join sep ws) \<Longrightarrow> c \<in> set sep \<or> (\<exists>w \<in> set ws. c \<in> set w)"
  by (induction sep ws rule: join.induct) auto

lemma render_ranges_no_space: "trim_space (render_ranges rs) = render_ranges rs"
proof -
  have digit: "\<not> is_space (digit_char d)" if "d < 10" for d
    using digit_char_range [OF that] by (auto simp: is_space_def)
  have piece: "\<not> is_space c" if "c \<in> set (render_range r)" for c r
    using render_range_chars [OF that] digit by (auto simp: is_space_def)
  have "\<not> is_space c" if "c \<in> set (render_ranges rs)" for c
  proof -
    from that join_chars [of c "'',''" "map render_range rs"]
    have "c = CHR '','' \<or> (\<exists>r. c \<in> set (render_range r))"
      by (auto simp: render_ranges_def simp del: render_range.simps)
    then show ?thesis by (elim disjE exE) (simp add: is_space_def, rule piece)
  qed
  then show ?thesis by (intro trim_space_id) blast
qed

lemma render_range_no_comma: "CHR '','' \<notin> set (render_range r)"
  by (cases r) auto

lemma parse_render_ranges:
  assumes "rs \<noteq> []" and "\<forall>(a, b) \<in> set rs. a \<le> b \<and> b < 2 ^ 63 - 1"
  shows "parse_range_numbers (render_ranges rs) = Some (Inr (range_numbers rs))"
proof -
  have "split_on (CHR '','') (render_ranges rs) = map render_range rs"
    unfolding render_ranges_def
    by (rule split_on_join) (use assms(1) render_range_no_comma in auto)
  with parse_range_items_render [OF assms(2), of "[]"] show ?thesis
    by (simp add: parse_range_numbers_def render_ranges_no_space)
qed

text \<open>Every number that is parsed is a natural number: a minus sign is always the range separator.\<close>

lemma parse_range_item_nonneg:
  assumes item: "parse_range_item w acc = Some (Inr ns)" and acc: "\<forall>n \<in> set acc. 0 \<le> n"
  shows "\<forall>n \<in> set ns. 0 \<le> n"
proof -
  have piece: "0 \<le> i \<and> i < 2 ^ 63"
    if "v \<in> set (split_on (CHR ''-'') w)" and "parse_int (trim_space v) = (i, None)" for v i
  proof -
    have "CHR ''-'' \<notin> set (trim_space v)"
      using split_on_pieces [OF that(1)] trim_space_subset [of v] by blast
    from parse_int_no_minus [OF this that(2)] show ?thesis .
  qed
  consider (one) v where "split_on (CHR ''-'') w = [v]"
    | (two) u v where "split_on (CHR ''-'') w = [u, v]"
    | (other) "length (split_on (CHR ''-'') w) \<noteq> 1" "length (split_on (CHR ''-'') w) \<noteq> 2"
    by (cases "split_on (CHR ''-'') w" rule: list.exhaust [case_names Nil Cons])
      (auto simp: length_Suc_conv numeral_2_eq_2)
  then show ?thesis
  proof cases
    case one
    with item acc piece [of v] show ?thesis
      by (auto simp: parse_range_item_def split: prod.splits option.splits)
  next
    case two
    with item obtain mn mx where mn: "parse_int (trim_space u) = (mn, None)"
      and mx: "parse_int (trim_space v) = (mx, None)" and le: "mn \<le> mx"
      and loop: "range_loop (word_of_int mn) (word_of_int mx) acc = Some ns"
      by (auto simp: parse_range_item_def split: prod.splits option.splits if_splits)
    from mn mx two have r: "0 \<le> mn" "0 \<le> mx" "mx < 2 ^ 63"
      using piece [of u mn] piece [of v mx] by auto
    have "mx \<noteq> 2 ^ 63 - 1"
      using loop range_loop_max_diverges by auto
    with r le have "range_loop (word_of_int mn) (word_of_int mx) acc = Some (acc @ [mn..mx])"
      by (intro range_loop_interval) auto
    with loop r acc show ?thesis by auto
  next
    case other
    with item show ?thesis by (simp add: parse_range_item_def Let_def)
  qed
qed

lemma parse_range_items_nonneg:
  "parse_range_items ws acc = Some (Inr ns) \<Longrightarrow> \<forall>n \<in> set acc. 0 \<le> n \<Longrightarrow> \<forall>n \<in> set ns. 0 \<le> n"
proof (induction ws arbitrary: acc)
  case Nil
  then show ?case by simp
next
  case (Cons w ws)
  from Cons.prems(1) obtain acc' where w: "parse_range_item w acc = Some (Inr acc')"
    and rest: "parse_range_items ws acc' = Some (Inr ns)"
    by (auto split: option.splits sum.splits)
  show ?case
    by (rule Cons.IH [OF rest parse_range_item_nonneg [OF w Cons.prems(2)]])
qed

lemma parse_range_items_append:
  "parse_range_items (ws @ vs) acc =
     (case parse_range_items ws acc of
        Some (Inr acc') \<Rightarrow> parse_range_items vs acc' | r \<Rightarrow> r)"
  by (induction ws arbitrary: acc) (auto split: option.splits sum.splits)

section \<open>http.go\<close>

definition get_host_from_addr :: "string \<Rightarrow> string" where
  "get_host_from_addr addr =
     (let strs = split_on (CHR '':'') addr in
      if length strs > 1 then strs ! 0 else addr)"

lemma get_host_from_addr_no_port [simp]:
  "CHR '':'' \<notin> set h \<Longrightarrow> get_host_from_addr h = h"
  by (simp add: get_host_from_addr_def split_on_no_sep)

lemma get_host_from_addr_port [simp]:
  "CHR '':'' \<notin> set h \<Longrightarrow> get_host_from_addr (h @ CHR '':'' # p) = h"
  by (simp add: get_host_from_addr_def split_on_append_sep split_on_no_sep)

lemma get_host_from_addr_no_colon: "CHR '':'' \<notin> set (get_host_from_addr a)"
proof (cases "length (split_on (CHR '':'') a) > 1")
  case True
  then have "split_on (CHR '':'') a ! 0 \<in> set (split_on (CHR '':'') a)"
    by (intro nth_mem) simp
  then have "CHR '':'' \<notin> set (split_on (CHR '':'') a ! 0)" by (rule split_on_pieces)
  with True show ?thesis by (simp add: get_host_from_addr_def)
next
  case False
  then show ?thesis
    by (simp add: get_host_from_addr_def length_split_on count_list_0_iff)
qed

section \<open>version.go\<close>

definition get_sub_version :: "string \<Rightarrow> nat \<Rightarrow> int" where
  "get_sub_version v position =
     (let arr = split_on (CHR ''.'') v in
      if length arr < 3 then 0 else fst (parse_int (arr ! position)))"

definition version_proto :: "string \<Rightarrow> int" where
  "version_proto v = get_sub_version v 0"

definition version_major :: "string \<Rightarrow> int" where
  "version_major v = get_sub_version v 1"

definition version_minor :: "string \<Rightarrow> int" where
  "version_minor v = get_sub_version v 2"

definition less_than :: "string \<Rightarrow> string \<Rightarrow> bool" where
  "less_than client server =
     (if version_proto client > version_proto server then False
      else if version_proto client < version_proto server then True
      else if version_major client > version_major server then False
      else if version_major client < version_major server then True
      else if version_minor client > version_minor server then False
      else if version_minor client < version_minor server then True
      else False)"

definition version_full :: string where "version_full = ''0.35.1''"

definition compat :: "string \<Rightarrow> bool \<times> string" where
  "compat client =
     (if less_than client ''0.18.0''
      then (False, ''Please upgrade your frpc version to at least 0.18.0'')
      else (True, []))"

text \<open>
  The numbers a version string stands for, ordered lexicographically: the specification of
  \<open>less_than\<close>.
\<close>

datatype version_num = VersionNum (ver_proto: int) (ver_major: int) (ver_minor: int)

instantiation version_num :: linorder
begin

definition less_version_num :: "version_num \<Rightarrow> version_num \<Rightarrow> bool" where
  "less_version_num a b \<longleftrightarrow>
     ver_proto a < ver_proto b \<or>
     ver_proto a = ver_proto b \<and>
       (ver_major a < ver_major b \<or> ver_major a = ver_major b \<and> ver_minor a < ver_minor b)"

definition less_eq_version_num :: "version_num \<Rightarrow> version_num \<Rightarrow> bool" where
  "less_eq_version_num a b \<longleftrightarrow> a < b \<or> a = b"

instance
  by intro_classes
    (auto simp: less_version_num_def less_eq_version_num_def intro: version_num.expand)

end

definition version_num :: "string \<Rightarrow> version_num" where
  "version_num v = VersionNum (version_proto v) (version_major v) (version_minor v)"

definition version_str :: "version_num \<Rightarrow> string" where
  "version_str n = join ''.'' [int_str (ver_proto n), int_str (ver_major n), int_str (ver_minor n)]"

lemma less_than_version_num: "less_than a b \<longleftrightarrow> version_num a < version_num b"
  by (auto simp: less_than_def version_num_def less_version_num_def)

lemma int_str_no_dot [simp]: "CHR ''.'' \<notin> set (int_str i)"
  by (simp add: int_str_def nat_str_free)

definition int64_range :: "int \<Rightarrow> bool" where
  "int64_range i \<longleftrightarrow> - (2 ^ 63) \<le> i \<and> i < 2 ^ 63"

lemma version_num_version_str:
  assumes "int64_range (ver_proto n)" and "int64_range (ver_major n)" and "int64_range (ver_minor n)"
  shows "version_num (version_str n) = n"
proof -
  have "split_on (CHR ''.'') (version_str n) =
      [int_str (ver_proto n), int_str (ver_major n), int_str (ver_minor n)]"
    unfolding version_str_def by (rule split_on_join) auto
  with assms show ?thesis
    by (cases n)
      (simp add: version_num_def version_proto_def version_major_def version_minor_def
        get_sub_version_def parse_int_int_str int64_range_def)
qed

lemma compat_iff: "fst (compat v) \<longleftrightarrow> VersionNum 0 18 0 \<le> version_num v"
proof -
  have "version_str (VersionNum 0 18 0) = ''0.18.0''"
    by (simp add: version_str_def int_str_def nat_str.simps)
  with version_num_version_str [of "VersionNum 0 18 0"] have "version_num ''0.18.0'' = VersionNum 0 18 0"
    by (simp add: int64_range_def)
  then show ?thesis by (auto simp: compat_def less_than_version_num linorder_not_less [symmetric])
qed


lemma render_ranges_not_Nil: "rs \<noteq> [] \<Longrightarrow> render_ranges rs \<noteq> []"
proof
  assume ne: "rs \<noteq> []" and "render_ranges rs = []"
  then have "split_on (CHR '','') (join '','' (map render_range rs)) = [[]]"
    by (simp add: render_ranges_def)
  moreover have "split_on (CHR '','') (join '','' (map render_range rs)) = map render_range rs"
    by (rule split_on_join) (use ne render_range_no_comma in auto)
  ultimately have "map render_range rs = [[]]" by simp
  then obtain a b where "render_range (a, b) = []" by auto
  then show False by (simp split: if_split_asm)
qed

lemma range_numbers_not_Nil:
  assumes "rs \<noteq> []" and "\<forall>(a, b) \<in> set rs. a \<le> b \<and> b < 2 ^ 63 - 1"
  shows "length (range_numbers rs) \<noteq> 0"
  using assms by (cases rs) (auto simp: range_numbers_def)

end
