(* ===== verification/Messages.thy ===== *)
theory Messages
  imports Util
begin

text \<open>
  \<^verbatim>\<open>frp/pkg/msg/msg.go\<close>: the messages frpc and frps exchange and the byte that tags each of
  them on the wire. The JSON encoding and the framing are in the golib package and are not
  modelled; UDP addresses are an abstract type.
\<close>

record login_msg =
  lg_version :: string
  lg_hostname :: string
  lg_os :: string
  lg_arch :: string
  lg_user :: string
  lg_privilege_key :: string
  lg_timestamp :: int
  lg_run_id :: string
  lg_metas :: str_map
  lg_pool_count :: int

record login_resp_msg =
  lr_version :: string
  lr_run_id :: string
  lr_server_udp_port :: int
  lr_error :: string

record new_proxy_msg =
  np_proxy_name :: string
  np_proxy_type :: string
  np_use_encryption :: bool
  np_use_compression :: bool
  np_group :: string
  np_group_key :: string
  np_metas :: str_map
  np_remote_port :: int
  np_custom_domains :: "string slice"
  np_subdomain :: string
  np_locations :: "string slice"
  np_http_user :: string
  np_http_pwd :: string
  np_host_header_rewrite :: string
  np_headers :: str_map
  np_sk :: string
  np_multiplexer :: string

text \<open>\<open>empty_new_proxy\<close> is the zero value of \<^verbatim>\<open>msg.NewProxy\<close>.\<close>

definition empty_new_proxy :: new_proxy_msg where
  "empty_new_proxy =
     \<lparr>np_proxy_name = [], np_proxy_type = [], np_use_encryption = False, np_use_compression = False,
      np_group = [], np_group_key = [], np_metas = None, np_remote_port = 0,
      np_custom_domains = None, np_subdomain = [], np_locations = None, np_http_user = [],
      np_http_pwd = [], np_host_header_rewrite = [], np_headers = None, np_sk = [],
      np_multiplexer = []\<rparr>"

record new_proxy_resp_msg =
  nr_proxy_name :: string
  nr_remote_addr :: string
  nr_error :: string

record close_proxy_msg =
  cp_proxy_name :: string

record new_work_conn_msg =
  nw_run_id :: string
  nw_privilege_key :: string
  nw_timestamp :: int

record start_work_conn_msg =
  sw_proxy_name :: string
  sw_src_addr :: string
  sw_dst_addr :: string
  sw_src_port :: "16 word"
  sw_dst_port :: "16 word"
  sw_error :: string

record new_visitor_conn_msg =
  nv_proxy_name :: string
  nv_sign_key :: string
  nv_timestamp :: int
  nv_use_encryption :: bool
  nv_use_compression :: bool

record new_visitor_conn_resp_msg =
  vr_proxy_name :: string
  vr_error :: string

record ping_msg =
  pg_privilege_key :: string
  pg_timestamp :: int

record pong_msg =
  po_error :: string

record 'addr udp_packet_msg =
  up_content :: string
  up_local_addr :: "'addr option"
  up_remote_addr :: "'addr option"

record nat_hole_visitor_msg =
  hv_proxy_name :: string
  hv_sign_key :: string
  hv_timestamp :: int

record nat_hole_client_msg =
  hc_proxy_name :: string
  hc_sid :: string

record nat_hole_resp_msg =
  hr_sid :: string
  hr_visitor_addr :: string
  hr_client_addr :: string
  hr_error :: string

record nat_hole_sid_msg =
  hs_sid :: string

datatype 'addr message =
    MLogin login_msg
  | MLoginResp login_resp_msg
  | MNewProxy new_proxy_msg
  | MNewProxyResp new_proxy_resp_msg
  | MCloseProxy close_proxy_msg
  | MNewWorkConn new_work_conn_msg
  | MReqWorkConn
  | MStartWorkConn start_work_conn_msg
  | MNewVisitorConn new_visitor_conn_msg
  | MNewVisitorConnResp new_visitor_conn_resp_msg
  | MPing ping_msg
  | MPong pong_msg
  | MUDPPacket "'addr udp_packet_msg"
  | MNatHoleVisitor nat_hole_visitor_msg
  | MNatHoleClient nat_hole_client_msg
  | MNatHoleResp nat_hole_resp_msg
  | MNatHoleClientDetectOK
  | MNatHoleSid nat_hole_sid_msg

text \<open>The tag of each message, and the inverse table \<^verbatim>\<open>msgTypeMap\<close> as the kind it selects.\<close>

datatype msg_kind =
    KLogin | KLoginResp | KNewProxy | KNewProxyResp | KCloseProxy | KNewWorkConn | KReqWorkConn
  | KStartWorkConn | KNewVisitorConn | KNewVisitorConnResp | KPing | KPong | KUDPPacket
  | KNatHoleVisitor | KNatHoleClient | KNatHoleResp | KNatHoleClientDetectOK | KNatHoleSid

fun msg_kind_of :: "'addr message \<Rightarrow> msg_kind" where
  "msg_kind_of (MLogin _) = KLogin"
| "msg_kind_of (MLoginResp _) = KLoginResp"
| "msg_kind_of (MNewProxy _) = KNewProxy"
| "msg_kind_of (MNewProxyResp _) = KNewProxyResp"
| "msg_kind_of (MCloseProxy _) = KCloseProxy"
| "msg_kind_of (MNewWorkConn _) = KNewWorkConn"
| "msg_kind_of MReqWorkConn = KReqWorkConn"
| "msg_kind_of (MStartWorkConn _) = KStartWorkConn"
| "msg_kind_of (MNewVisitorConn _) = KNewVisitorConn"
| "msg_kind_of (MNewVisitorConnResp _) = KNewVisitorConnResp"
| "msg_kind_of (MPing _) = KPing"
| "msg_kind_of (MPong _) = KPong"
| "msg_kind_of (MUDPPacket _) = KUDPPacket"
| "msg_kind_of (MNatHoleVisitor _) = KNatHoleVisitor"
| "msg_kind_of (MNatHoleClient _) = KNatHoleClient"
| "msg_kind_of (MNatHoleResp _) = KNatHoleResp"
| "msg_kind_of MNatHoleClientDetectOK = KNatHoleClientDetectOK"
| "msg_kind_of (MNatHoleSid _) = KNatHoleSid"

fun msg_type_byte :: "msg_kind \<Rightarrow> char" where
  "msg_type_byte KLogin = CHR ''o''"
| "msg_type_byte KLoginResp = CHR ''1''"
| "msg_type_byte KNewProxy = CHR ''p''"
| "msg_type_byte KNewProxyResp = CHR ''2''"
| "msg_type_byte KCloseProxy = CHR ''c''"
| "msg_type_byte KNewWorkConn = CHR ''w''"
| "msg_type_byte KReqWorkConn = CHR ''r''"
| "msg_type_byte KStartWorkConn = CHR ''s''"
| "msg_type_byte KNewVisitorConn = CHR ''v''"
| "msg_type_byte KNewVisitorConnResp = CHR ''3''"
| "msg_type_byte KPing = CHR ''h''"
| "msg_type_byte KPong = CHR ''4''"
| "msg_type_byte KUDPPacket = CHR ''u''"
| "msg_type_byte KNatHoleVisitor = CHR ''i''"
| "msg_type_byte KNatHoleClient = CHR ''n''"
| "msg_type_byte KNatHoleResp = CHR ''m''"
| "msg_type_byte KNatHoleClientDetectOK = CHR ''d''"
| "msg_type_byte KNatHoleSid = CHR ''5''"

definition msg_type_map :: "(char \<times> msg_kind) list" where
  "msg_type_map = map (\<lambda>k. (msg_type_byte k, k))
     [KLogin, KLoginResp, KNewProxy, KNewProxyResp, KCloseProxy, KNewWorkConn, KReqWorkConn,
      KStartWorkConn, KNewVisitorConn, KNewVisitorConnResp, KPing, KPong, KUDPPacket,
      KNatHoleVisitor, KNatHoleClient, KNatHoleResp, KNatHoleClientDetectOK, KNatHoleSid]"

lemma msg_type_byte_inj: "msg_type_byte k = msg_type_byte k' \<Longrightarrow> k = k'"
  by (cases k; cases k') simp_all

lemma msg_type_map_lookup: "map_of msg_type_map (msg_type_byte k) = Some k"
  by (cases k) (simp_all add: msg_type_map_def)

end
