(* ===== verification/Config_Base.thy ===== *)
theory Config_Base
  imports Messages
begin

text \<open>
  \<^verbatim>\<open>frp/pkg/config/types.go\<close> and \<^verbatim>\<open>frp/pkg/config/utils.go\<close>, and the interface of the ini
  library (gopkg.in/ini.v1) that the loaders of the configuration use. The library is a
  parameter: \<open>ini_api\<close> collects the calls the code makes on a section of abstract type \<open>'s\<close>.
  Floating-point numbers of \<^verbatim>\<open>strconv.ParseFloat\<close> are of abstract type \<open>'f\<close> as well.
\<close>

section \<open>Bandwidth quantities\<close>

datatype bandwidth_error = UnitNotSupport | BadFloat string | BadJSON string

record bandwidth =
  bw_s :: string
  bw_i :: int

definition empty_bandwidth :: bandwidth where
  "empty_bandwidth = \<lparr>bw_s = [], bw_i = 0\<rparr>"

text \<open>
  \<^verbatim>\<open>strconv.ParseFloat(s, 64)\<close> and \<^verbatim>\<open>int64(f * float64(base))\<close>.
\<close>

record 'f float_api =
  fl_parse :: "string \<Rightarrow> string + 'f"
  fl_scale :: "'f \<Rightarrow> int \<Rightarrow> int"

definition MB :: int where "MB = 1024 * 1024"
definition KB :: int where "KB = 1024"

text \<open>\<^verbatim>\<open>UnmarshalString\<close>: the receiver \<open>q\<close> is left unchanged on an error and on a blank string.\<close>

definition bw_unmarshal_string ::
    "'f float_api \<Rightarrow> bandwidth \<Rightarrow> string \<Rightarrow> bandwidth_error + bandwidth" where
  "bw_unmarshal_string fl q s0 =
     (let s = trim_space s0 in
      if s = [] then Inr q
      else if suffix ''MB'' s then
        (case fl_parse fl (trim_suffix ''MB'' s) of
           Inl e \<Rightarrow> Inl (BadFloat e)
         | Inr f \<Rightarrow> Inr (q\<lparr>bw_s := s, bw_i := fl_scale fl f MB\<rparr>))
      else if suffix ''KB'' s then
        (case fl_parse fl (trim_suffix ''KB'' s) of
           Inl e \<Rightarrow> Inl (BadFloat e)
         | Inr f \<Rightarrow> Inr (q\<lparr>bw_s := s, bw_i := fl_scale fl f KB\<rparr>))
      else Inl UnitNotSupport)"

definition new_bandwidth :: "'f float_api \<Rightarrow> string \<Rightarrow> bandwidth_error + bandwidth" where
  "new_bandwidth fl s = bw_unmarshal_string fl empty_bandwidth s"

definition must_bandwidth :: "'f float_api \<Rightarrow> string \<Rightarrow> (bandwidth_error, bandwidth) go" where
  "must_bandwidth fl s =
     (case bw_unmarshal_string fl empty_bandwidth s of Inl e \<Rightarrow> Panic | Inr q \<Rightarrow> Ok q)"

text \<open>\<^verbatim>\<open>Equal\<close> on two pointers compares the byte counts only.\<close>

fun bw_equal :: "bandwidth option \<Rightarrow> bandwidth option \<Rightarrow> bool" where
  "bw_equal None None = True"
| "bw_equal (Some q) (Some u) = (bw_i q = bw_i u)"
| "bw_equal q u = False"

definition bw_string :: "bandwidth \<Rightarrow> string" where
  "bw_string q = bw_s q"

definition bw_bytes :: "bandwidth \<Rightarrow> int" where
  "bw_bytes q = bw_i q"

lemma new_bandwidth_string:
  assumes "new_bandwidth fl s = Inr q"
  shows "new_bandwidth fl (bw_string q) = Inr q"
proof -
  have "bw_s q = trim_space s"
    using assms
    by (auto simp: new_bandwidth_def bw_unmarshal_string_def Let_def empty_bandwidth_def
        split: if_splits sum.splits)
  with assms show ?thesis
    by (simp add: new_bandwidth_def bw_string_def bw_unmarshal_string_def)
qed

text \<open>The JSON methods; \<open>json_string\<close> decodes a JSON string.\<close>

definition bw_unmarshal_json ::
    "(string \<Rightarrow> string + string) \<Rightarrow> 'f float_api \<Rightarrow> bandwidth \<Rightarrow> string \<Rightarrow> bandwidth_error + bandwidth" where
  "bw_unmarshal_json json_string fl q b =
     (if b = ''null'' then Inr q
      else case json_string b of Inl e \<Rightarrow> Inl (BadJSON e) | Inr str \<Rightarrow> bw_unmarshal_string fl q str)"

definition bw_marshal_json :: "bandwidth \<Rightarrow> string" where
  "bw_marshal_json q = CHR 0x22 # bw_s q @ [CHR 0x22]"

lemma bw_json_roundtrip:
  assumes "new_bandwidth fl s = Inr q" and "json_string (bw_marshal_json q) = Inr (bw_s q)"
  shows "bw_unmarshal_json json_string fl empty_bandwidth (bw_marshal_json q) = Inr q"
proof -
  have "bw_marshal_json q \<noteq> ''null''" by (simp add: bw_marshal_json_def)
  with assms(2) new_bandwidth_string [OF assms(1)] show ?thesis
    by (simp add: bw_unmarshal_json_def new_bandwidth_def bw_string_def)
qed

section \<open>Maps of keys with a prefix\<close>

definition get_map_without_prefix :: "(string, string) fmap \<Rightarrow> string \<Rightarrow> str_map" where
  "get_map_without_prefix m p =
     (let r = fmap_of_list (map (\<lambda>(k, v). (trim_prefix p k, v))
                (filter (\<lambda>(k, v). prefix p k) (sorted_list_of_fmap m)))
      in if r = fmempty then None else Some r)"

definition get_map_by_prefix :: "(string, string) fmap \<Rightarrow> string \<Rightarrow> str_map" where
  "get_map_by_prefix m p =
     (let r = fmfilter (\<lambda>k. prefix p k) m in if r = fmempty then None else Some r)"

fun map_lookup :: "str_map \<Rightarrow> string \<Rightarrow> string option" where
  "map_lookup None k = None"
| "map_lookup (Some m) k = fmlookup m k"

lemma map_lookup_get_map_by_prefix:
  "map_lookup (get_map_by_prefix m p) k = (if prefix p k then fmlookup m k else None)"
proof -
  have l: "fmlookup (fmfilter (\<lambda>k. prefix p k) m) k = (if prefix p k then fmlookup m k else None)"
    by simp
  show ?thesis
  proof (cases "fmfilter (\<lambda>k. prefix p k) m = fmempty")
    case True
    from l have "None = (if prefix p k then fmlookup m k else None)"
      by (simp only: True fmempty_lookup)
    with True show ?thesis by (simp add: get_map_by_prefix_def)
  next
    case False
    with l show ?thesis by (simp add: get_map_by_prefix_def)
  qed
qed

lemma map_lookup_get_map_without_prefix:
  "map_lookup (get_map_without_prefix m p) k = fmlookup m (p @ k)"
proof -
  let ?l = "map (\<lambda>(k, v). (trim_prefix p k, v)) (filter (\<lambda>(k, v). prefix p k) (sorted_list_of_fmap m))"
  have aux: "map_of (map (\<lambda>(k, v). (trim_prefix p k, v)) (filter (\<lambda>(k, v). prefix p k) xs)) k =
      map_of xs (p @ k)" for xs :: "(string \<times> string) list"
  proof (induction xs)
    case Nil
    then show ?case by simp
  next
    case (Cons x xs)
    obtain a b where x: "x = (a, b)" by (cases x)
    show ?case
    proof (cases "prefix p a")
      case True
      then obtain r where "a = p @ r" by (auto simp: prefix_def)
      with Cons x show ?thesis by auto
    next
      case False
      then have "a \<noteq> p @ k" by auto
      with False Cons x show ?thesis by auto
    qed
  qed
  have l: "fmlookup (fmap_of_list ?l) k = fmlookup m (p @ k)"
    by (simp only: fmlookup_of_list aux map_of_sorted_list)
  show ?thesis
  proof (cases "fmap_of_list ?l = fmempty")
    case True
    with l show ?thesis by (simp add: get_map_without_prefix_def)
  next
    case False
    with l show ?thesis by (simp add: get_map_without_prefix_def Let_def)
  qed
qed

section \<open>The ini library\<close>

text \<open>
  \<^item> \<open>ini_name\<close> is \<^verbatim>\<open>section.Name()\<close>, \<open>ini_key\<close> is \<^verbatim>\<open>section.Key(k).String()\<close> (empty for a key that
    does not exist), \<open>ini_get_key\<close> is \<^verbatim>\<open>section.GetKey(k)\<close> with its text (\<open>None\<close> for its error) and
    \<open>ini_keys_hash\<close> is \<^verbatim>\<open>section.KeysHash()\<close>;
  \<^item> mapping a section onto a struct of type \<open>'c\<close> (\<^verbatim>\<open>section.MapTo\<close>) is a function of its own type,
    passed where it is used.
\<close>

record 's ini_api =
  ini_name :: "'s \<Rightarrow> string"
  ini_key :: "'s \<Rightarrow> string \<Rightarrow> string"
  ini_get_key :: "'s \<Rightarrow> string \<Rightarrow> string option"
  ini_keys_hash :: "'s \<Rightarrow> (string, string) fmap"

end
