(* ===== verification/Auth.thy ===== *)
theory Auth
  imports Messages
begin

text \<open>
  \<^verbatim>\<open>frp/pkg/auth\<close>: the token and the OIDC method (\<^verbatim>\<open>token.go\<close>, \<^verbatim>\<open>oidc.go\<close>), selected by
  \<^verbatim>\<open>NewAuthSetter\<close> and \<^verbatim>\<open>NewAuthVerifier\<close> (\<^verbatim>\<open>auth.go\<close>). The md5 digest, the clock and the OIDC
  provider (token generation, token verification) are parameters.
\<close>

section \<open>Configuration\<close>

record auth_base_config =
  ab_authentication_method :: string
  ab_authenticate_heart_beats :: bool
  ab_authenticate_new_work_conns :: bool

record token_config =
  tk_token :: string

record oidc_client_config =
  oc_client_id :: string
  oc_client_secret :: string
  oc_audience :: string
  oc_token_endpoint_url :: string

record oidc_server_config =
  os_issuer :: string
  os_audience :: string
  os_skip_expiry_check :: bool
  os_skip_issuer_check :: bool

record auth_client_config =
  ac_base :: auth_base_config
  ac_oidc :: oidc_client_config
  ac_token :: token_config

record auth_server_config =
  as_base :: auth_base_config
  as_oidc :: oidc_server_config
  as_token :: token_config

definition default_auth_base_conf :: auth_base_config where
  "default_auth_base_conf =
     \<lparr>ab_authentication_method = ''token'', ab_authenticate_heart_beats = False,
      ab_authenticate_new_work_conns = False\<rparr>"

definition default_token_conf :: token_config where
  "default_token_conf = \<lparr>tk_token = []\<rparr>"

definition default_oidc_client_conf :: oidc_client_config where
  "default_oidc_client_conf =
     \<lparr>oc_client_id = [], oc_client_secret = [], oc_audience = [], oc_token_endpoint_url = []\<rparr>"

definition default_oidc_server_conf :: oidc_server_config where
  "default_oidc_server_conf =
     \<lparr>os_issuer = [], os_audience = [], os_skip_expiry_check = False, os_skip_issuer_check = False\<rparr>"

definition default_auth_client_conf :: auth_client_config where
  "default_auth_client_conf =
     \<lparr>ac_base = default_auth_base_conf, ac_oidc = default_oidc_client_conf,
      ac_token = default_token_conf\<rparr>"

definition default_auth_server_conf :: auth_server_config where
  "default_auth_server_conf =
     \<lparr>as_base = default_auth_base_conf, as_oidc = default_oidc_server_conf,
      as_token = default_token_conf\<rparr>"

section \<open>The environment\<close>

text \<open>
  \<open>en_oidc_token\<close> is the outcome of \<^verbatim>\<open>tokenGenerator.Token\<close> (the access token or the text of its
  error), \<open>en_oidc_verify\<close> that of \<^verbatim>\<open>verifier.Verify\<close> (the subject of the token or an error),
  \<open>en_now\<close> is \<^verbatim>\<open>time.Now().Unix()\<close>.
\<close>

record auth_env =
  en_md5 :: "string \<Rightarrow> string"
  en_now :: int
  en_oidc_token :: "string + string"
  en_oidc_verify :: "string \<Rightarrow> string + string"

datatype auth_error =
    LoginTokenMismatch
  | HeartbeatTokenMismatch
  | NewWorkConnTokenMismatch
  | OidcGenerate string
  | OidcInvalidLogin string
  | OidcInvalidPing string
  | OidcDifferentSubject string string

section \<open>token.go\<close>

record token_auth =
  ta_base :: auth_base_config
  ta_token :: string

definition new_token_auth :: "auth_base_config \<Rightarrow> token_config \<Rightarrow> token_auth" where
  "new_token_auth baseCfg cfg = \<lparr>ta_base = baseCfg, ta_token = tk_token cfg\<rparr>"

definition token_set_login :: "auth_env \<Rightarrow> token_auth \<Rightarrow> login_msg \<Rightarrow> login_msg" where
  "token_set_login env a m =
     m\<lparr>lg_privilege_key := get_auth_key (en_md5 env) (ta_token a) (lg_timestamp m)\<rparr>"

definition token_set_ping :: "auth_env \<Rightarrow> token_auth \<Rightarrow> ping_msg \<Rightarrow> ping_msg" where
  "token_set_ping env a m =
     (if \<not> ab_authenticate_heart_beats (ta_base a) then m
      else m\<lparr>pg_timestamp := en_now env,
             pg_privilege_key := get_auth_key (en_md5 env) (ta_token a) (en_now env)\<rparr>)"

definition token_set_new_work_conn ::
    "auth_env \<Rightarrow> token_auth \<Rightarrow> new_work_conn_msg \<Rightarrow> new_work_conn_msg" where
  "token_set_new_work_conn env a m =
     (if \<not> ab_authenticate_new_work_conns (ta_base a) then m
      else m\<lparr>nw_timestamp := en_now env,
             nw_privilege_key := get_auth_key (en_md5 env) (ta_token a) (en_now env)\<rparr>)"

definition token_verify_login :: "auth_env \<Rightarrow> token_auth \<Rightarrow> login_msg \<Rightarrow> auth_error option" where
  "token_verify_login env a m =
     (if get_auth_key (en_md5 env) (ta_token a) (lg_timestamp m) \<noteq> lg_privilege_key m
      then Some LoginTokenMismatch else None)"

definition token_verify_ping :: "auth_env \<Rightarrow> token_auth \<Rightarrow> ping_msg \<Rightarrow> auth_error option" where
  "token_verify_ping env a m =
     (if \<not> ab_authenticate_heart_beats (ta_base a) then None
      else if get_auth_key (en_md5 env) (ta_token a) (pg_timestamp m) \<noteq> pg_privilege_key m
      then Some HeartbeatTokenMismatch else None)"

definition token_verify_new_work_conn ::
    "auth_env \<Rightarrow> token_auth \<Rightarrow> new_work_conn_msg \<Rightarrow> auth_error option" where
  "token_verify_new_work_conn env a m =
     (if \<not> ab_authenticate_new_work_conns (ta_base a) then None
      else if get_auth_key (en_md5 env) (ta_token a) (nw_timestamp m) \<noteq> nw_privilege_key m
      then Some NewWorkConnTokenMismatch else None)"

section \<open>oidc.go\<close>

text \<open>\<^verbatim>\<open>OidcAuthProvider\<close> (client) and \<^verbatim>\<open>OidcAuthConsumer\<close> (server, which remembers the subject).\<close>

record oidc_provider =
  op_base :: auth_base_config

record oidc_consumer =
  ov_base :: auth_base_config
  ov_subject_from_login :: string

definition generate_access_token :: "auth_env \<Rightarrow> auth_error + string" where
  "generate_access_token env =
     (case en_oidc_token env of Inl e \<Rightarrow> Inl (OidcGenerate e) | Inr t \<Rightarrow> Inr t)"

text \<open>On an error the code stores the empty token it was given and returns the error.\<close>

definition oidc_set_login :: "auth_env \<Rightarrow> oidc_provider \<Rightarrow> login_msg \<Rightarrow> login_msg \<times> auth_error option" where
  "oidc_set_login env a m =
     (case generate_access_token env of
        Inl e \<Rightarrow> (m\<lparr>lg_privilege_key := []\<rparr>, Some e)
      | Inr t \<Rightarrow> (m\<lparr>lg_privilege_key := t\<rparr>, None))"

definition oidc_set_ping :: "auth_env \<Rightarrow> oidc_provider \<Rightarrow> ping_msg \<Rightarrow> ping_msg \<times> auth_error option" where
  "oidc_set_ping env a m =
     (if \<not> ab_authenticate_heart_beats (op_base a) then (m, None)
      else case generate_access_token env of
        Inl e \<Rightarrow> (m\<lparr>pg_privilege_key := []\<rparr>, Some e)
      | Inr t \<Rightarrow> (m\<lparr>pg_privilege_key := t\<rparr>, None))"

definition oidc_set_new_work_conn ::
    "auth_env \<Rightarrow> oidc_provider \<Rightarrow> new_work_conn_msg \<Rightarrow> new_work_conn_msg \<times> auth_error option" where
  "oidc_set_new_work_conn env a m =
     (if \<not> ab_authenticate_new_work_conns (op_base a) then (m, None)
      else case generate_access_token env of
        Inl e \<Rightarrow> (m\<lparr>nw_privilege_key := []\<rparr>, Some e)
      | Inr t \<Rightarrow> (m\<lparr>nw_privilege_key := t\<rparr>, None))"

definition oidc_verify_login ::
    "auth_env \<Rightarrow> oidc_consumer \<Rightarrow> login_msg \<Rightarrow> oidc_consumer \<times> auth_error option" where
  "oidc_verify_login env a m =
     (case en_oidc_verify env (lg_privilege_key m) of
        Inl e \<Rightarrow> (a, Some (OidcInvalidLogin e))
      | Inr subject \<Rightarrow> (a\<lparr>ov_subject_from_login := subject\<rparr>, None))"

definition oidc_verify_post_login_token ::
    "auth_env \<Rightarrow> oidc_consumer \<Rightarrow> string \<Rightarrow> auth_error option" where
  "oidc_verify_post_login_token env a privilegeKey =
     (case en_oidc_verify env privilegeKey of
        Inl e \<Rightarrow> Some (OidcInvalidPing e)
      | Inr subject \<Rightarrow>
          if subject \<noteq> ov_subject_from_login a
          then Some (OidcDifferentSubject (ov_subject_from_login a) subject) else None)"

definition oidc_verify_ping :: "auth_env \<Rightarrow> oidc_consumer \<Rightarrow> ping_msg \<Rightarrow> auth_error option" where
  "oidc_verify_ping env a m =
     (if \<not> ab_authenticate_heart_beats (ov_base a) then None
      else oidc_verify_post_login_token env a (pg_privilege_key m))"

definition oidc_verify_new_work_conn ::
    "auth_env \<Rightarrow> oidc_consumer \<Rightarrow> new_work_conn_msg \<Rightarrow> auth_error option" where
  "oidc_verify_new_work_conn env a m =
     (if \<not> ab_authenticate_new_work_conns (ov_base a) then None
      else oidc_verify_post_login_token env a (nw_privilege_key m))"

section \<open>auth.go: the method selected by the configuration\<close>

datatype auth_setter = TokenSetter token_auth | OidcSetter oidc_provider
datatype auth_verifier = TokenVerifier token_auth | OidcVerifier oidc_consumer

text \<open>\<^verbatim>\<open>NewAuthSetter\<close> panics on an unknown method.\<close>

definition new_auth_setter :: "auth_client_config \<Rightarrow> (unit, auth_setter) go" where
  "new_auth_setter cfg =
     (let m = ab_authentication_method (ac_base cfg) in
      if m = TokenAuthMethod then Ok (TokenSetter (new_token_auth (ac_base cfg) (ac_token cfg)))
      else if m = OidcAuthMethod then Ok (OidcSetter \<lparr>op_base = ac_base cfg\<rparr>)
      else Panic)"

text \<open>
  \<^verbatim>\<open>NewAuthVerifier\<close> returns a nil interface (\<open>None\<close>) on an unknown method. The OIDC branch
  panics when the provider cannot be reached; \<open>reachable\<close> is that outcome.
\<close>

definition new_auth_verifier :: "bool \<Rightarrow> auth_server_config \<Rightarrow> (unit, auth_verifier option) go" where
  "new_auth_verifier reachable cfg =
     (let m = ab_authentication_method (as_base cfg) in
      if m = TokenAuthMethod then Ok (Some (TokenVerifier (new_token_auth (as_base cfg) (as_token cfg))))
      else if m = OidcAuthMethod then
        (if reachable
         then Ok (Some (OidcVerifier \<lparr>ov_base = as_base cfg, ov_subject_from_login = []\<rparr>))
         else Panic)
      else Ok None)"

fun set_login :: "auth_env \<Rightarrow> auth_setter \<Rightarrow> login_msg \<Rightarrow> login_msg \<times> auth_error option" where
  "set_login env (TokenSetter a) m = (token_set_login env a m, None)"
| "set_login env (OidcSetter a) m = oidc_set_login env a m"

fun set_ping :: "auth_env \<Rightarrow> auth_setter \<Rightarrow> ping_msg \<Rightarrow> ping_msg \<times> auth_error option" where
  "set_ping env (TokenSetter a) m = (token_set_ping env a m, None)"
| "set_ping env (OidcSetter a) m = oidc_set_ping env a m"

fun set_new_work_conn ::
    "auth_env \<Rightarrow> auth_setter \<Rightarrow> new_work_conn_msg \<Rightarrow> new_work_conn_msg \<times> auth_error option" where
  "set_new_work_conn env (TokenSetter a) m = (token_set_new_work_conn env a m, None)"
| "set_new_work_conn env (OidcSetter a) m = oidc_set_new_work_conn env a m"

fun verify_login :: "auth_env \<Rightarrow> auth_verifier \<Rightarrow> login_msg \<Rightarrow> auth_verifier \<times> auth_error option" where
  "verify_login env (TokenVerifier a) m = (TokenVerifier a, token_verify_login env a m)"
| "verify_login env (OidcVerifier a) m =
     (case oidc_verify_login env a m of (a', e) \<Rightarrow> (OidcVerifier a', e))"

fun verify_ping :: "auth_env \<Rightarrow> auth_verifier \<Rightarrow> ping_msg \<Rightarrow> auth_error option" where
  "verify_ping env (TokenVerifier a) m = token_verify_ping env a m"
| "verify_ping env (OidcVerifier a) m = oidc_verify_ping env a m"

fun verify_new_work_conn ::
    "auth_env \<Rightarrow> auth_verifier \<Rightarrow> new_work_conn_msg \<Rightarrow> auth_error option" where
  "verify_new_work_conn env (TokenVerifier a) m = token_verify_new_work_conn env a m"
| "verify_new_work_conn env (OidcVerifier a) m = oidc_verify_new_work_conn env a m"


section \<open>Shape of the verdicts\<close>

lemma token_verify_login_iff:
  "token_verify_login env a m = None \<longleftrightarrow>
     lg_privilege_key m = en_md5 env (ta_token a @ int_str (lg_timestamp m))"
  by (auto simp: token_verify_login_def get_auth_key_def)

lemma token_verify_ping_iff:
  "token_verify_ping env a m = None \<longleftrightarrow>
     (ab_authenticate_heart_beats (ta_base a) \<longrightarrow>
        pg_privilege_key m = en_md5 env (ta_token a @ int_str (pg_timestamp m)))"
  by (auto simp: token_verify_ping_def get_auth_key_def)

lemma token_verify_new_work_conn_iff:
  "token_verify_new_work_conn env a m = None \<longleftrightarrow>
     (ab_authenticate_new_work_conns (ta_base a) \<longrightarrow>
        nw_privilege_key m = en_md5 env (ta_token a @ int_str (nw_timestamp m)))"
  by (auto simp: token_verify_new_work_conn_def get_auth_key_def)

lemma oidc_verify_post_login_token_iff:
  "oidc_verify_post_login_token env a k = None \<longleftrightarrow>
     en_oidc_verify env k = Inr (ov_subject_from_login a)"
  by (auto simp: oidc_verify_post_login_token_def split: sum.splits)

lemmas verify_iffs =
  token_verify_login_iff token_verify_ping_iff token_verify_new_work_conn_iff
  oidc_verify_post_login_token_iff

section \<open>The contract of a setter and a verifier\<close>

text \<open>
  frpc authenticates its messages with the setter, frps checks them with the verifier.
  \<open>link u ce se\<close> says that the environments of the two sides fit for the user \<open>u\<close>, \<open>paired\<close> that
  the configurations do, \<open>logged u\<close> that the verifier has accepted a login of \<open>u\<close>.
\<close>

locale auth_pair =
  fixes setl :: "'e \<Rightarrow> 's \<Rightarrow> login_msg \<Rightarrow> login_msg \<times> auth_error option"
    and setp :: "'e \<Rightarrow> 's \<Rightarrow> ping_msg \<Rightarrow> ping_msg \<times> auth_error option"
    and setw :: "'e \<Rightarrow> 's \<Rightarrow> new_work_conn_msg \<Rightarrow> new_work_conn_msg \<times> auth_error option"
    and verl :: "'e \<Rightarrow> 'v \<Rightarrow> login_msg \<Rightarrow> 'v \<times> auth_error option"
    and verp :: "'e \<Rightarrow> 'v \<Rightarrow> ping_msg \<Rightarrow> auth_error option"
    and verw :: "'e \<Rightarrow> 'v \<Rightarrow> new_work_conn_msg \<Rightarrow> auth_error option"
    and link :: "'u \<Rightarrow> 'e \<Rightarrow> 'e \<Rightarrow> bool"
    and paired :: "'s \<Rightarrow> 'v \<Rightarrow> bool"
    and logged :: "'u \<Rightarrow> 'v \<Rightarrow> bool"
  assumes login_accepted:
      "paired s v \<Longrightarrow> link u ce se \<Longrightarrow> setl ce s m = (m', None) \<Longrightarrow>
       \<exists>v'. verl se v m' = (v', None) \<and> paired s v' \<and> logged u v'"
    and ping_accepted:
      "paired s v \<Longrightarrow> logged u v \<Longrightarrow> link u ce se \<Longrightarrow> setp ce s m1 = (m1', None) \<Longrightarrow>
       verp se v m1' = None"
    and work_conn_accepted:
      "paired s v \<Longrightarrow> logged u v \<Longrightarrow> link u ce se \<Longrightarrow> setw ce s m2 = (m2', None) \<Longrightarrow>
       verw se v m2' = None"
begin

text \<open>After the login, every later message of the session is accepted, at any later time.\<close>

lemma session_accepted:
  assumes "paired s v" and "link u ce se" and "setl ce s m = (m', None)"
  shows "\<exists>v'. verl se v m' = (v', None) \<and>
    (\<forall>ce' se' p p'. link u ce' se' \<longrightarrow> setp ce' s p = (p', None) \<longrightarrow> verp se' v' p' = None) \<and>
    (\<forall>ce' se' w w'. link u ce' se' \<longrightarrow> setw ce' s w = (w', None) \<longrightarrow> verw se' v' w' = None)"
proof -
  from login_accepted [OF assms] obtain v' where
    v: "verl se v m' = (v', None)" "paired s v'" "logged u v'" by blast
  then show ?thesis by (blast intro: ping_accepted work_conn_accepted)
qed

end

text \<open>
  The instance: the same digest on both sides and, for OIDC, a provider whose tokens verify as
  the subject \<open>u\<close>; the same method, flags and token in the two configurations.
\<close>

definition auth_link :: "string \<Rightarrow> auth_env \<Rightarrow> auth_env \<Rightarrow> bool" where
  "auth_link u ce se \<longleftrightarrow> en_md5 ce = en_md5 se \<and>
     (case en_oidc_token ce of Inl _ \<Rightarrow> True | Inr t \<Rightarrow> en_oidc_verify se t = Inr u)"

fun auth_paired :: "auth_setter \<Rightarrow> auth_verifier \<Rightarrow> bool" where
  "auth_paired (TokenSetter a) (TokenVerifier b) = (a = b)"
| "auth_paired (OidcSetter a) (OidcVerifier b) = (op_base a = ov_base b)"
| "auth_paired _ _ = False"

fun auth_logged :: "string \<Rightarrow> auth_verifier \<Rightarrow> bool" where
  "auth_logged u (TokenVerifier b) = True"
| "auth_logged u (OidcVerifier b) = (ov_subject_from_login b = u)"

lemmas auth_step_defs =
  token_set_login_def token_set_ping_def token_set_new_work_conn_def
  oidc_set_login_def oidc_set_ping_def oidc_set_new_work_conn_def
  oidc_verify_login_def oidc_verify_ping_def oidc_verify_new_work_conn_def
  generate_access_token_def get_auth_key_def auth_link_def

interpretation au: auth_pair set_login set_ping set_new_work_conn verify_login verify_ping
    verify_new_work_conn auth_link auth_paired auth_logged
proof
  fix s v u ce se m m'
  assume "auth_paired s v" "auth_link u ce se" "set_login ce s m = (m', None)"
  then show "\<exists>v'. verify_login se v m' = (v', None) \<and> auth_paired s v' \<and> auth_logged u v'"
    by (cases s; cases v) (auto simp: auth_step_defs verify_iffs split: sum.splits)
next
  fix s v u ce se m1 m1'
  assume "auth_paired s v" "auth_logged u v" "auth_link u ce se" "set_ping ce s m1 = (m1', None)"
  then show "verify_ping se v m1' = None"
    by (cases s; cases v) (auto simp: auth_step_defs verify_iffs split: sum.splits if_splits)
next
  fix s v u ce se m2 m2'
  assume "auth_paired s v" "auth_logged u v" "auth_link u ce se" "set_new_work_conn ce s m2 = (m2', None)"
  then show "verify_new_work_conn se v m2' = None"
    by (cases s; cases v) (auto simp: auth_step_defs verify_iffs split: sum.splits if_splits)
qed

section \<open>Configurations that agree\<close>

definition configs_agree :: "auth_client_config \<Rightarrow> auth_server_config \<Rightarrow> bool" where
  "configs_agree c s \<longleftrightarrow> ac_base c = as_base s \<and> ac_token c = as_token s"

lemma new_auth_paired:
  assumes "configs_agree c s" and "new_auth_setter c = Ok st" and "new_auth_verifier r s = Ok (Some v)"
  shows "auth_paired st v"
  using assms
  by (auto simp: configs_agree_def new_auth_setter_def new_auth_verifier_def Let_def
      TokenAuthMethod_def OidcAuthMethod_def split: if_splits)


section \<open>Properties\<close>


definition sample_auth_env :: auth_env where
  "sample_auth_env = \<lparr>en_md5 = (\<lambda>s. ''h'' @ s), en_now = 7, en_oidc_token = Inr ''tok'',
     en_oidc_verify = (\<lambda>t. if t = ''tok'' then Inr ''alice'' else Inl ''invalid'')\<rparr>"

definition sample_login :: login_msg where
  "sample_login = \<lparr>lg_version = ''0.35.1'', lg_hostname = [], lg_os = [], lg_arch = [], lg_user = ''bob'',
     lg_privilege_key = [], lg_timestamp = 5, lg_run_id = [], lg_metas = None, lg_pool_count = 1\<rparr>"


text \<open>Once a login has been accepted by the OIDC consumer, a ping or a work connection whose
  token verifies as another subject, or does not verify, is refused when its check is
  configured; an unsigned one is let through only when the configuration says so.\<close>

theorem oidc_other_subject_refused:
  assumes "verify_login se (OidcVerifier a) m = (v', None)"
  shows "\<exists>u. en_oidc_verify se (lg_privilege_key m) = Inr u \<and>
    (\<forall>se' p. verify_ping se' v' p = None \<longleftrightarrow>
       \<not> ab_authenticate_heart_beats (ov_base a) \<or> en_oidc_verify se' (pg_privilege_key p) = Inr u) \<and>
    (\<forall>se' w. verify_new_work_conn se' v' w = None \<longleftrightarrow>
       \<not> ab_authenticate_new_work_conns (ov_base a) \<or> en_oidc_verify se' (nw_privilege_key w) = Inr u)"
  using assms
  by (auto simp: auth_step_defs verify_iffs split: sum.splits prod.splits)

lemma oidc_other_subject_refused_witness:
  "verify_ping sample_auth_env
     (OidcVerifier \<lparr>ov_base = default_auth_base_conf\<lparr>ab_authenticate_heart_beats := True\<rparr>,
        ov_subject_from_login = ''alice''\<rparr>)
     \<lparr>pg_privilege_key = ''forged'', pg_timestamp = 0\<rparr> \<noteq> None"
proof -
  let ?a = "\<lparr>ov_base = default_auth_base_conf\<lparr>ab_authenticate_heart_beats := True\<rparr>,
    ov_subject_from_login = []\<rparr>"
  have "verify_login sample_auth_env (OidcVerifier ?a) (sample_login\<lparr>lg_privilege_key := ''tok''\<rparr>) =
      (OidcVerifier (?a\<lparr>ov_subject_from_login := ''alice''\<rparr>), None)"
    by (simp add: auth_step_defs sample_auth_env_def)
  from oidc_other_subject_refused [OF this] show ?thesis
    by (auto simp: sample_auth_env_def)
qed

end
