(* ===== verification/Server_Conf.thy ===== *)
theory Server_Conf
  imports Auth Config_Base
begin

text \<open>
  \<^verbatim>\<open>frp/pkg/config/server.go\<close>: the server's configuration and its loader, with the options of the
  HTTP plugins (\<^verbatim>\<open>frp/pkg/plugin/server/http.go\<close>). The ini library is a parameter: \<open>ini_file_api\<close>
  collects the calls on a file of abstract type \<open>'f\<close>. A pointer to a section is the section's
  name, dereferenced with \<open>fi_section\<close> at each use, because sections are changed while pointers to
  them are held.
\<close>

section \<open>The file level of the ini library\<close>

text \<open>
  \<^item> \<open>fi_load\<close> is \<^verbatim>\<open>ini.LoadSources\<close>, \<open>fi_get_section\<close> is \<^verbatim>\<open>GetSection\<close>, \<open>fi_sections\<close> the names in
    the order of \<^verbatim>\<open>Sections()\<close>;
  \<^item> \<open>fi_new_section\<close> and \<open>fi_new_key\<close> are \<^verbatim>\<open>NewSection\<close> and \<^verbatim>\<open>NewKey\<close>; \<open>fi_range\<close> is the order of a
    range over \<^verbatim>\<open>KeysHash()\<close>.
\<close>

record ('src, 'f, 's) ini_file_api =
  fi_load :: "'src \<Rightarrow> string + 'f"
  fi_get_section :: "'f \<Rightarrow> string \<Rightarrow> string + 's"
  fi_sections :: "'f \<Rightarrow> string list"
  fi_section :: "'f \<Rightarrow> string \<Rightarrow> 's"
  fi_new_section :: "'f \<Rightarrow> string \<Rightarrow> string + 'f"
  fi_new_key :: "'f \<Rightarrow> string \<Rightarrow> string \<Rightarrow> string \<Rightarrow> 'f"
  fi_range :: "(string, string) fmap \<Rightarrow> (string \<times> string) list"

section \<open>Errors of the configuration\<close>

datatype conf_error =
    IniError string
  | NoCommonSection
  | AllowPorts range_error
  | InvalidHeartbeatInterval
  | InvalidHeartbeatTimeout
  | RangeSection string conf_error
  | RangePortsEmpty
  | RangePorts range_error
  | RangePortsNumber
  | RangePortsNecessary
  | ParseSection string conf_error
  | BadRole string
  | ProxyTypeError string string
  | BandwidthError bandwidth_error
  | NoSupportProxyProtocol string
  | LocalIPRequired
  | LocalPortError
  | UnsupportHealthCheckType
  | HealthCheckURLRequired
  | DomainRequired
  | DomainOfSubDomainHost string string
  | SubDomainNotEnabled
  | SubDomainBadChar
  | DomainCheck string conf_error
  | IncorrectMultiplexer string
  | TCPMuxPortRequired string
  | VhostHTTPPortRequired
  | VhostHTTPSPortRequired
  | RoleShouldBeServer
  | VisitorTypeError string string
  | InvalidRole
  | BindAddrEmpty
  | BindPortRequired

section \<open>Options of an HTTP plugin\<close>

record http_plugin_options =
  ho_name :: string
  ho_addr :: string
  ho_path :: string
  ho_ops :: "string slice"
  ho_tls_verify :: bool

definition empty_plugin_options :: http_plugin_options where
  "empty_plugin_options =
     \<lparr>ho_name = [], ho_addr = [], ho_path = [], ho_ops = None, ho_tls_verify = False\<rparr>"

section \<open>The configuration\<close>

record server_common_conf =
  sc_auth :: auth_server_config
  sc_bind_addr :: string
  sc_bind_port :: int
  sc_bind_udp_port :: int
  sc_kcp_bind_port :: int
  sc_proxy_bind_addr :: string
  sc_vhost_http_port :: int
  sc_vhost_https_port :: int
  sc_tcpmux_httpconnect_port :: int
  sc_vhost_http_timeout :: int
  sc_dashboard_addr :: string
  sc_dashboard_port :: int
  sc_dashboard_user :: string
  sc_dashboard_pwd :: string
  sc_enable_prometheus :: bool
  sc_assets_dir :: string
  sc_log_file :: string
  sc_log_way :: string
  sc_log_level :: string
  sc_log_max_days :: int
  sc_disable_log_color :: bool
  sc_detailed_errors_to_client :: bool
  sc_sub_domain_host :: string
  sc_tcp_mux :: bool
  sc_custom_404_page :: string
  sc_allow_ports :: "int set"
  sc_max_pool_count :: int
  sc_max_ports_per_client :: int
  sc_tls_only :: bool
  sc_tls_cert_file :: string
  sc_tls_key_file :: string
  sc_tls_trusted_ca_file :: string
  sc_heartbeat_timeout :: int
  sc_user_conn_timeout :: int
  sc_http_plugins :: "string \<rightharpoonup> http_plugin_options"
  sc_udp_packet_size :: int

definition get_default_server_conf :: server_common_conf where
  "get_default_server_conf =
     \<lparr>sc_auth = default_auth_server_conf, sc_bind_addr = ''0.0.0.0'', sc_bind_port = 7000,
      sc_bind_udp_port = 0, sc_kcp_bind_port = 0, sc_proxy_bind_addr = ''0.0.0.0'',
      sc_vhost_http_port = 0, sc_vhost_https_port = 0, sc_tcpmux_httpconnect_port = 0,
      sc_vhost_http_timeout = 60, sc_dashboard_addr = ''0.0.0.0'', sc_dashboard_port = 0,
      sc_dashboard_user = ''admin'', sc_dashboard_pwd = ''admin'', sc_enable_prometheus = False,
      sc_assets_dir = [], sc_log_file = ''console'', sc_log_way = ''console'',
      sc_log_level = ''info'', sc_log_max_days = 3, sc_disable_log_color = False,
      sc_detailed_errors_to_client = True, sc_sub_domain_host = [], sc_tcp_mux = True,
      sc_custom_404_page = [], sc_allow_ports = {}, sc_max_pool_count = 5,
      sc_max_ports_per_client = 0, sc_tls_only = False, sc_tls_cert_file = [],
      sc_tls_key_file = [], sc_tls_trusted_ca_file = [], sc_heartbeat_timeout = 90,
      sc_user_conn_timeout = 10, sc_http_plugins = Map.empty, sc_udp_packet_size = 1500\<rparr>"

definition server_conf_check :: "server_common_conf \<Rightarrow> conf_error option" where
  "server_conf_check cfg = None"

section \<open>The loader\<close>

definition load_http_plugin_opt ::
    "'s ini_api \<Rightarrow> ('s \<Rightarrow> http_plugin_options \<Rightarrow> string + http_plugin_options) \<Rightarrow> 's \<Rightarrow>
     conf_error + http_plugin_options" where
  "load_http_plugin_opt ini mapto s =
     (let name = trim_space (trim_prefix ''plugin.'' (ini_name ini s)) in
      case mapto s empty_plugin_options of
        Inl e \<Rightarrow> Inl (IniError e)
      | Inr opt \<Rightarrow> Inr (opt\<lparr>ho_name := name\<rparr>))"

fun load_http_plugin_opts ::
    "'s ini_api \<Rightarrow> ('s \<Rightarrow> http_plugin_options \<Rightarrow> string + http_plugin_options) \<Rightarrow> 's list \<Rightarrow>
     (string \<rightharpoonup> http_plugin_options) \<Rightarrow> conf_error + (string \<rightharpoonup> http_plugin_options)" where
  "load_http_plugin_opts ini mapto [] opts = Inr opts"
| "load_http_plugin_opts ini mapto (s # ss) opts =
     (if \<not> prefix ''plugin.'' (ini_name ini s) then load_http_plugin_opts ini mapto ss opts
      else case load_http_plugin_opt ini mapto s of
        Inl e \<Rightarrow> Inl e
      | Inr opt \<Rightarrow> load_http_plugin_opts ini mapto ss (opts(ho_name opt \<mapsto> opt)))"

definition load_allow_ports :: "string \<Rightarrow> server_common_conf \<Rightarrow> (conf_error + server_common_conf) option" where
  "load_allow_ports allowPortStr common =
     (if allowPortStr = [] then Some (Inr common)
      else case parse_range_numbers allowPortStr of
        None \<Rightarrow> None
      | Some (Inl e) \<Rightarrow> Some (Inl (AllowPorts e))
      | Some (Inr ports) \<Rightarrow>
          Some (Inr (common\<lparr>sc_allow_ports := sc_allow_ports common \<union> set ports\<rparr>)))"

text \<open>\<open>None\<close> is a loader that does not return (see \<open>range_loop_max_diverges\<close>).\<close>

definition unmarshal_server_conf_from_ini ::
    "('src, 'f, 's) ini_file_api \<Rightarrow> 's ini_api \<Rightarrow>
     ('s \<Rightarrow> server_common_conf \<Rightarrow> string + server_common_conf) \<Rightarrow>
     ('s \<Rightarrow> http_plugin_options \<Rightarrow> string + http_plugin_options) \<Rightarrow> 'src \<Rightarrow>
     (conf_error + server_common_conf) option" where
  "unmarshal_server_conf_from_ini fi ini mapto mapto_plugin source =
     (case fi_load fi source of
        Inl e \<Rightarrow> Some (Inl (IniError e))
      | Inr f \<Rightarrow>
     (case fi_get_section fi f ''common'' of
        Inl e \<Rightarrow> Some (Inl (IniError e))
      | Inr s \<Rightarrow>
     (case mapto s get_default_server_conf of
        Inl e \<Rightarrow> Some (Inl (IniError e))
      | Inr common \<Rightarrow>
     (case load_allow_ports (ini_key ini s ''allow_ports'') common of
        None \<Rightarrow> None
      | Some (Inl e) \<Rightarrow> Some (Inl e)
      | Some (Inr common') \<Rightarrow>
     (case load_http_plugin_opts ini mapto_plugin (map (fi_section fi f) (fi_sections fi f)) Map.empty of
        Inl e \<Rightarrow> Some (Inl e)
      | Inr opts \<Rightarrow> Some (Inr (common'\<lparr>sc_http_plugins := opts\<rparr>)))))))"

section \<open>What the loader keeps\<close>

lemma load_http_plugin_opt_name:
  "load_http_plugin_opt ini mapto s = Inr opt \<Longrightarrow>
   ho_name opt = trim_space (trim_prefix ''plugin.'' (ini_name ini s))"
  by (auto simp: load_http_plugin_opt_def Let_def split: sum.split_asm)

lemma load_http_plugin_opts_Cons_plugin:
  assumes "prefix ''plugin.'' (ini_name ini s)"
    and "load_http_plugin_opts ini mapto (s # ss) opts = Inr opts'"
  obtains opt where "ho_name opt = trim_space (trim_prefix ''plugin.'' (ini_name ini s))"
    and "load_http_plugin_opts ini mapto ss (opts(ho_name opt \<mapsto> opt)) = Inr opts'"
  using assms load_http_plugin_opt_name [of ini mapto s] by (auto split: sum.split_asm)

definition plugins_named :: "(string \<rightharpoonup> http_plugin_options) \<Rightarrow> bool" where
  "plugins_named opts \<longleftrightarrow> (\<forall>n v. opts n = Some v \<longrightarrow> ho_name v = n)"

lemma plugins_named_upd: "plugins_named opts \<Longrightarrow> plugins_named (opts(ho_name opt \<mapsto> opt))"
  unfolding plugins_named_def by auto

lemma load_http_plugin_opts_named:
  "load_http_plugin_opts ini mapto ss opts = Inr opts' \<Longrightarrow> plugins_named opts \<Longrightarrow> plugins_named opts'"
proof (induction ss arbitrary: opts)
  case Nil
  then show ?case by simp
next
  case (Cons s ss)
  show ?case
  proof (cases "prefix ''plugin.'' (ini_name ini s)")
    case False
    with Cons show ?thesis by simp
  next
    case True
    from load_http_plugin_opts_Cons_plugin [OF True Cons.prems(1)] obtain opt where
      "load_http_plugin_opts ini mapto ss (opts(ho_name opt \<mapsto> opt)) = Inr opts'" by metis
    then show ?thesis using plugins_named_upd [OF Cons.prems(2)] by (rule Cons.IH)
  qed
qed

definition plugin_section_names :: "'s ini_api \<Rightarrow> 's list \<Rightarrow> string set" where
  "plugin_section_names ini ss =
     (\<lambda>s. trim_space (trim_prefix ''plugin.'' (ini_name ini s))) `
       {s \<in> set ss. prefix ''plugin.'' (ini_name ini s)}"

lemma load_http_plugin_opts_dom:
  "load_http_plugin_opts ini mapto ss opts = Inr opts' \<Longrightarrow>
   dom opts' = dom opts \<union> plugin_section_names ini ss"
proof (induction ss arbitrary: opts)
  case Nil
  then show ?case by (simp add: plugin_section_names_def)
next
  case (Cons s ss)
  show ?case
  proof (cases "prefix ''plugin.'' (ini_name ini s)")
    case False
    then have "{x \<in> set (s # ss). prefix ''plugin.'' (ini_name ini x)} =
        {x \<in> set ss. prefix ''plugin.'' (ini_name ini x)}" by auto
    with False Cons show ?thesis by (simp add: plugin_section_names_def)
  next
    case True
    then have "{x \<in> set (s # ss). prefix ''plugin.'' (ini_name ini x)} =
        insert s {x \<in> set ss. prefix ''plugin.'' (ini_name ini x)}" by auto
    then have names: "plugin_section_names ini (s # ss) =
        insert (trim_space (trim_prefix ''plugin.'' (ini_name ini s))) (plugin_section_names ini ss)"
      by (simp add: plugin_section_names_def)
    from load_http_plugin_opts_Cons_plugin [OF True Cons.prems] obtain opt where
      n: "ho_name opt = trim_space (trim_prefix ''plugin.'' (ini_name ini s))"
      and r: "load_http_plugin_opts ini mapto ss (opts(ho_name opt \<mapsto> opt)) = Inr opts'" by metis
    from Cons.IH [OF r] n show ?thesis by (simp only: names dom_fun_upd) auto
  qed
qed

lemma load_allow_ports_OkD:
  "load_allow_ports str common = Some (Inr c) \<Longrightarrow>
   (str = [] \<and> c = common) \<or>
   (\<exists>ports. parse_range_numbers str = Some (Inr ports) \<and>
      c = common\<lparr>sc_allow_ports := sc_allow_ports common \<union> set ports\<rparr>)"
  by (auto simp: load_allow_ports_def split: option.splits sum.splits if_splits)

lemma unmarshal_server_conf_OkD:
  assumes "unmarshal_server_conf_from_ini fi ini mapto mp src = Some (Inr cfg)"
  obtains f s common common' opts where "fi_load fi src = Inr f"
    and "fi_get_section fi f ''common'' = Inr s"
    and "mapto s get_default_server_conf = Inr common"
    and "load_allow_ports (ini_key ini s ''allow_ports'') common = Some (Inr common')"
    and "load_http_plugin_opts ini mp (map (fi_section fi f) (fi_sections fi f)) Map.empty = Inr opts"
    and "cfg = common'\<lparr>sc_http_plugins := opts\<rparr>"
  using assms
  by (auto simp: unmarshal_server_conf_from_ini_def split: sum.split_asm option.split_asm)


section \<open>Properties\<close>

text \<open>A server configuration that loads allows, when \<^verbatim>\<open>allow_ports\<close> lists ranges, exactly the
  ports of those ranges (the empty default comes from \<^verbatim>\<open>GetDefaultServerConf\<close>, and mapping the
  section onto the struct leaves the unmapped field alone), and holds one plugin per
  \<^verbatim>\<open>plugin.\<close> section, each under its own name.\<close>

theorem server_conf_loaded:
  assumes "unmarshal_server_conf_from_ini fi ini mapto mp src = Some (Inr cfg)"
    and "fi_load fi src = Inr f" and "fi_get_section fi f ''common'' = Inr s"
    and "\<And>c. mapto s get_default_server_conf = Inr c \<Longrightarrow> sc_allow_ports c = sc_allow_ports get_default_server_conf"
    and "ini_key ini s ''allow_ports'' = render_ranges rs"
    and "\<forall>(a, b) \<in> set rs. a \<le> b \<and> b < 2 ^ 63 - 1"
  shows "sc_allow_ports cfg = set (range_numbers rs) \<and>
    dom (sc_http_plugins cfg) = plugin_section_names ini (map (fi_section fi f) (fi_sections fi f)) \<and>
    (\<forall>n v. sc_http_plugins cfg n = Some v \<longrightarrow> ho_name v = n)"
proof -
  from assms(1) obtain f' s' common common' opts where l: "fi_load fi src = Inr f'"
    "fi_get_section fi f' ''common'' = Inr s'" "mapto s' get_default_server_conf = Inr common"
    "load_allow_ports (ini_key ini s' ''allow_ports'') common = Some (Inr common')"
    "load_http_plugin_opts ini mp (map (fi_section fi f') (fi_sections fi f')) Map.empty = Inr opts"
    "cfg = common'\<lparr>sc_http_plugins := opts\<rparr>"
    by (rule unmarshal_server_conf_OkD)
  with assms(2,3) have e: "f' = f" "s' = s" by simp_all
  have empty: "sc_allow_ports common = {}"
    using assms(4) l(3) e by (simp add: get_default_server_conf_def)
  have "sc_allow_ports common' = set (range_numbers rs)"
  proof (cases "rs = []")
    case True
    with l(4) assms(5) e empty show ?thesis
      by (simp add: render_ranges_def range_numbers_def load_allow_ports_def)
  next
    case False
    with load_allow_ports_OkD [OF l(4)] assms(5) e empty parse_render_ranges [OF False assms(6)]
    show ?thesis
      by (auto simp: render_ranges_not_Nil)
  qed
  moreover have "plugins_named opts"
    by (rule load_http_plugin_opts_named [OF l(5)]) (simp add: plugins_named_def)
  ultimately show ?thesis
    using load_http_plugin_opts_dom [OF l(5)] l(6) e by (simp add: plugins_named_def)
qed

definition sample_server_file_api :: "(unit, unit, bool) ini_file_api" where
  "sample_server_file_api =
     \<lparr>fi_load = (\<lambda>_. Inr ()), fi_get_section = (\<lambda>_ _. Inr True), fi_sections = (\<lambda>_. [''common'', ''plugin.user'']),
      fi_section = (\<lambda>_ n. n = ''common''), fi_new_section = (\<lambda>_ _. Inr ()), fi_new_key = (\<lambda>_ _ _ _. ()),
      fi_range = (\<lambda>_. [])\<rparr>"

definition sample_server_section_api :: "bool ini_api" where
  "sample_server_section_api =
     \<lparr>ini_name = (\<lambda>b. if b then ''common'' else ''plugin.user''),
      ini_key = (\<lambda>b k. if b \<and> k = ''allow_ports'' then render_ranges [(2000, 2001), (3000, 3000)] else []),
      ini_get_key = (\<lambda>_ _. None), ini_keys_hash = (\<lambda>_. fmempty)\<rparr>"

lemma server_conf_loaded_witness:
  "\<exists>cfg. unmarshal_server_conf_from_ini sample_server_file_api sample_server_section_api
      (\<lambda>_ c. Inr c) (\<lambda>_ o'. Inr o') () = Some (Inr cfg) \<and> sc_allow_ports cfg = {2000, 2001, 3000}"
proof -
  let ?rs = "[(2000, 2001), (3000, 3000)] :: (nat \<times> nat) list"
  have v: "\<forall>(a, b) \<in> set ?rs. a \<le> b \<and> b < 2 ^ 63 - 1" by simp
  have p: "parse_range_numbers (render_ranges ?rs) = Some (Inr (range_numbers ?rs))"
    by (rule parse_render_ranges) (simp_all add: v del: render_range.simps)
  have "\<exists>cfg. unmarshal_server_conf_from_ini sample_server_file_api sample_server_section_api
      (\<lambda>_ c. Inr c) (\<lambda>_ o'. Inr o') () = Some (Inr cfg)"
    by (simp add: unmarshal_server_conf_from_ini_def sample_server_file_api_def sample_server_section_api_def
        load_allow_ports_def p load_http_plugin_opt_def Let_def render_ranges_not_Nil del: render_range.simps)
  then obtain cfg where c: "unmarshal_server_conf_from_ini sample_server_file_api sample_server_section_api
      (\<lambda>_ c. Inr c) (\<lambda>_ o'. Inr o') () = Some (Inr cfg)" by blast
  have "sc_allow_ports cfg = set (range_numbers ?rs)"
    by (rule server_conf_loaded [OF c, of "()" True ?rs, THEN conjunct1])
      (use v in \<open>simp_all add: sample_server_file_api_def sample_server_section_api_def del: render_range.simps\<close>)
  also have "\<dots> = {2000, 2001, 3000}"
    by (simp add: range_numbers_def upto_rec1 insert_commute)
  finally show ?thesis using c by blast
qed

end
