(* ===== verification/Proxy_Conf.thy ===== *)
theory Proxy_Conf
  imports Server_Conf
begin

text \<open>
  \<^verbatim>\<open>frp/pkg/config/proxy.go\<close>: the configurations of the eight proxy types. Each Go struct is a
  record, \<^verbatim>\<open>ProxyConf\<close> is the datatype \<open>proxy_conf\<close>, and each method of the interface is one function
  per type and a dispatcher. \<^verbatim>\<open>section.MapTo\<close> on the eight structs is a parameter (\<open>map_to_api\<close>).
\<close>

section \<open>Data\<close>

record local_svr_conf =
  ls_local_ip :: string
  ls_local_port :: int
  ls_plugin :: string
  ls_plugin_params :: str_map

record health_check_conf =
  hk_type :: string
  hk_timeout_s :: int
  hk_max_failed :: int
  hk_interval_s :: int
  hk_url :: string
  hk_addr :: string

record base_proxy_conf =
  bp_proxy_name :: string
  bp_proxy_type :: string
  bp_use_encryption :: bool
  bp_use_compression :: bool
  bp_group :: string
  bp_group_key :: string
  bp_proxy_protocol_version :: string
  bp_bandwidth_limit :: bandwidth
  bp_metas :: str_map
  bp_local_svr :: local_svr_conf
  bp_health_check :: health_check_conf

record domain_conf =
  dc_custom_domains :: "string slice"
  dc_subdomain :: string

record http_proxy_conf =
  ht_base :: base_proxy_conf
  ht_domain :: domain_conf
  ht_locations :: "string slice"
  ht_http_user :: string
  ht_http_pwd :: string
  ht_host_header_rewrite :: string
  ht_headers :: str_map

record https_proxy_conf =
  hs_base :: base_proxy_conf
  hs_domain :: domain_conf

record tcp_proxy_conf =
  tc_base :: base_proxy_conf
  tc_remote_port :: int

record tcpmux_proxy_conf =
  mx_base :: base_proxy_conf
  mx_domain :: domain_conf
  mx_multiplexer :: string

record stcp_proxy_conf =
  st_base :: base_proxy_conf
  st_role :: string
  st_sk :: string

record xtcp_proxy_conf =
  xt_base :: base_proxy_conf
  xt_role :: string
  xt_sk :: string

record udp_proxy_conf =
  ud_base :: base_proxy_conf
  ud_remote_port :: int

record sudp_proxy_conf =
  su_base :: base_proxy_conf
  su_role :: string
  su_sk :: string

datatype proxy_conf =
    TCPConf tcp_proxy_conf
  | TCPMuxConf tcpmux_proxy_conf
  | UDPConf udp_proxy_conf
  | HTTPConf http_proxy_conf
  | HTTPSConf https_proxy_conf
  | STCPConf stcp_proxy_conf
  | XTCPConf xtcp_proxy_conf
  | SUDPConf sudp_proxy_conf

section \<open>Zero values, \<^verbatim>\<open>NewConfByType\<close> and \<^verbatim>\<open>DefaultProxyConf\<close>\<close>

definition zero_health_check :: health_check_conf where
  "zero_health_check =
     \<lparr>hk_type = [], hk_timeout_s = 0, hk_max_failed = 0, hk_interval_s = 0, hk_url = [], hk_addr = []\<rparr>"

definition zero_local_svr :: local_svr_conf where
  "zero_local_svr = \<lparr>ls_local_ip = [], ls_local_port = 0, ls_plugin = [], ls_plugin_params = None\<rparr>"

definition zero_base_proxy_conf :: base_proxy_conf where
  "zero_base_proxy_conf =
     \<lparr>bp_proxy_name = [], bp_proxy_type = [], bp_use_encryption = False, bp_use_compression = False,
      bp_group = [], bp_group_key = [], bp_proxy_protocol_version = [],
      bp_bandwidth_limit = empty_bandwidth, bp_metas = None, bp_local_svr = zero_local_svr,
      bp_health_check = zero_health_check\<rparr>"

definition zero_domain_conf :: domain_conf where
  "zero_domain_conf = \<lparr>dc_custom_domains = None, dc_subdomain = []\<rparr>"

definition default_base_proxy_conf :: "string \<Rightarrow> base_proxy_conf" where
  "default_base_proxy_conf proxyType =
     zero_base_proxy_conf\<lparr>bp_proxy_type := proxyType,
       bp_local_svr := zero_local_svr\<lparr>ls_local_ip := ''127.0.0.1''\<rparr>\<rparr>"

text \<open>\<open>conf_of_type t base role\<close> is the configuration of type \<open>t\<close> whose other fields are zero.\<close>

definition conf_of_type :: "string \<Rightarrow> base_proxy_conf \<Rightarrow> string \<Rightarrow> proxy_conf option" where
  "conf_of_type t base role =
     (if t = TCPProxy then Some (TCPConf \<lparr>tc_base = base, tc_remote_port = 0\<rparr>)
      else if t = TCPMuxProxy then
        Some (TCPMuxConf \<lparr>mx_base = base, mx_domain = zero_domain_conf, mx_multiplexer = []\<rparr>)
      else if t = UDPProxy then Some (UDPConf \<lparr>ud_base = base, ud_remote_port = 0\<rparr>)
      else if t = HTTPProxy then
        Some (HTTPConf \<lparr>ht_base = base, ht_domain = zero_domain_conf, ht_locations = None,
          ht_http_user = [], ht_http_pwd = [], ht_host_header_rewrite = [], ht_headers = None\<rparr>)
      else if t = HTTPSProxy then Some (HTTPSConf \<lparr>hs_base = base, hs_domain = zero_domain_conf\<rparr>)
      else if t = STCPProxy then Some (STCPConf \<lparr>st_base = base, st_role = role, st_sk = []\<rparr>)
      else if t = XTCPProxy then Some (XTCPConf \<lparr>xt_base = base, xt_role = role, xt_sk = []\<rparr>)
      else if t = SUDPProxy then Some (SUDPConf \<lparr>su_base = base, su_role = role, su_sk = []\<rparr>)
      else None)"

definition new_conf_by_type :: "string \<Rightarrow> proxy_conf option" where
  "new_conf_by_type t = conf_of_type t zero_base_proxy_conf []"

definition default_proxy_conf :: "string \<Rightarrow> proxy_conf option" where
  "default_proxy_conf t = conf_of_type t (default_base_proxy_conf t) ''server''"

fun get_base_info :: "proxy_conf \<Rightarrow> base_proxy_conf" where
  "get_base_info (TCPConf c) = tc_base c"
| "get_base_info (TCPMuxConf c) = mx_base c"
| "get_base_info (UDPConf c) = ud_base c"
| "get_base_info (HTTPConf c) = ht_base c"
| "get_base_info (HTTPSConf c) = hs_base c"
| "get_base_info (STCPConf c) = st_base c"
| "get_base_info (XTCPConf c) = xt_base c"
| "get_base_info (SUDPConf c) = su_base c"

section \<open>\<^verbatim>\<open>BaseProxyConf\<close>\<close>

definition base_compare :: "base_proxy_conf \<Rightarrow> base_proxy_conf \<Rightarrow> bool" where
  "base_compare cfg cmp =
     (if bp_proxy_name cfg \<noteq> bp_proxy_name cmp \<or>
         bp_proxy_type cfg \<noteq> bp_proxy_type cmp \<or>
         bp_use_encryption cfg \<noteq> bp_use_encryption cmp \<or>
         bp_use_compression cfg \<noteq> bp_use_compression cmp \<or>
         bp_group cfg \<noteq> bp_group cmp \<or>
         bp_group_key cfg \<noteq> bp_group_key cmp \<or>
         bp_proxy_protocol_version cfg \<noteq> bp_proxy_protocol_version cmp \<or>
         \<not> bw_equal (Some (bp_bandwidth_limit cfg)) (Some (bp_bandwidth_limit cmp)) \<or>
         bp_metas cfg \<noteq> bp_metas cmp then False
      else if bp_local_svr cfg \<noteq> bp_local_svr cmp then False
      else if bp_health_check cfg \<noteq> bp_health_check cmp then False
      else True)"

definition decorate_health_check :: "local_svr_conf \<Rightarrow> health_check_conf \<Rightarrow> health_check_conf" where
  "decorate_health_check ls hk0 =
     (let hk1 = (if hk_type hk0 = ''tcp'' \<and> ls_plugin ls = []
                 then hk0\<lparr>hk_addr := ls_local_ip ls @ '':'' @ int_str (ls_local_port ls)\<rparr> else hk0)
      in if hk_type hk1 = ''http'' \<and> ls_plugin ls = [] \<and> hk_url hk1 \<noteq> [] then
           let s = ''http://'' @ ls_local_ip ls @ '':'' @ int_str (ls_local_port ls);
               s' = (if \<not> prefix ''/'' (hk_url hk1) then s @ ''/'' else s)
           in hk1\<lparr>hk_url := s' @ hk_url hk1\<rparr>
         else hk1)"

definition base_decorate ::
    "'f float_api \<Rightarrow> 's ini_api \<Rightarrow> string \<Rightarrow> string \<Rightarrow> 's \<Rightarrow> base_proxy_conf \<Rightarrow>
     conf_error + base_proxy_conf" where
  "base_decorate fl ini pre name s cfg0 =
     (let cfg1 = cfg0\<lparr>bp_proxy_name := pre @ name,
                      bp_metas := get_map_without_prefix (ini_keys_hash ini s) ''meta_''\<rparr>;
          r = (case ini_get_key ini s ''bandwidth_limit'' of
                 None \<Rightarrow> Inr cfg1
               | Some v \<Rightarrow>
                  (case new_bandwidth fl v of
                     Inl e \<Rightarrow> Inl (BandwidthError e)
                   | Inr q \<Rightarrow> Inr (cfg1\<lparr>bp_bandwidth_limit := q\<rparr>)))
      in case r of
           Inl e \<Rightarrow> Inl e
         | Inr cfg2 \<Rightarrow>
             let ls = (bp_local_svr cfg2)\<lparr>ls_plugin_params :=
                         get_map_by_prefix (ini_keys_hash ini s) ''plugin_''\<rparr>
             in Inr (cfg2\<lparr>bp_local_svr := ls,
                          bp_health_check := decorate_health_check ls (bp_health_check cfg2)\<rparr>))"

definition base_marshal_to_msg :: "base_proxy_conf \<Rightarrow> new_proxy_msg \<Rightarrow> new_proxy_msg" where
  "base_marshal_to_msg cfg pMsg =
     pMsg\<lparr>np_proxy_name := bp_proxy_name cfg, np_proxy_type := bp_proxy_type cfg,
          np_use_encryption := bp_use_encryption cfg, np_use_compression := bp_use_compression cfg,
          np_group := bp_group cfg, np_group_key := bp_group_key cfg, np_metas := bp_metas cfg\<rparr>"

definition base_unmarshal_from_msg :: "new_proxy_msg \<Rightarrow> base_proxy_conf \<Rightarrow> base_proxy_conf" where
  "base_unmarshal_from_msg pMsg cfg =
     cfg\<lparr>bp_proxy_name := np_proxy_name pMsg, bp_proxy_type := np_proxy_type pMsg,
         bp_use_encryption := np_use_encryption pMsg, bp_use_compression := np_use_compression pMsg,
         bp_group := np_group pMsg, bp_group_key := np_group_key pMsg, bp_metas := np_metas pMsg\<rparr>"

definition local_svr_check_for_cli :: "local_svr_conf \<Rightarrow> conf_error option" where
  "local_svr_check_for_cli cfg =
     (if ls_plugin cfg = [] then
        (if ls_local_ip cfg = [] then Some LocalIPRequired
         else if ls_local_port cfg \<le> 0 then Some LocalPortError else None)
      else None)"

definition health_check_check_for_cli :: "health_check_conf \<Rightarrow> conf_error option" where
  "health_check_check_for_cli cfg =
     (if hk_type cfg \<noteq> [] \<and> hk_type cfg \<noteq> ''tcp'' \<and> hk_type cfg \<noteq> ''http''
      then Some UnsupportHealthCheckType
      else if hk_type cfg \<noteq> [] \<and> hk_type cfg = ''http'' \<and> hk_url cfg = []
      then Some HealthCheckURLRequired else None)"

definition base_check_for_cli :: "base_proxy_conf \<Rightarrow> conf_error option" where
  "base_check_for_cli cfg =
     (if bp_proxy_protocol_version cfg \<noteq> [] \<and> bp_proxy_protocol_version cfg \<noteq> ''v1'' \<and>
         bp_proxy_protocol_version cfg \<noteq> ''v2''
      then Some (NoSupportProxyProtocol (bp_proxy_protocol_version cfg))
      else err_then (local_svr_check_for_cli (bp_local_svr cfg))
             (health_check_check_for_cli (bp_health_check cfg)))"

section \<open>\<^verbatim>\<open>DomainConf\<close>\<close>

definition domain_check :: "domain_conf \<Rightarrow> conf_error option" where
  "domain_check cfg =
     (if elems (dc_custom_domains cfg) = [] \<and> dc_subdomain cfg = [] then Some DomainRequired else None)"

definition domain_check_for_cli :: "domain_conf \<Rightarrow> conf_error option" where
  "domain_check_for_cli cfg = domain_check cfg"

fun check_custom_domains :: "string \<Rightarrow> string list \<Rightarrow> conf_error option" where
  "check_custom_domains h [] = None"
| "check_custom_domains h (domain # ds) =
     (if h \<noteq> [] \<and> length (split_on (CHR ''.'') h) < length (split_on (CHR ''.'') domain) \<and>
         sublist h domain
      then Some (DomainOfSubDomainHost domain h)
      else check_custom_domains h ds)"

definition domain_check_for_svr :: "server_common_conf \<Rightarrow> domain_conf \<Rightarrow> conf_error option" where
  "domain_check_for_svr serverCfg cfg =
     err_then (domain_check cfg)
    (err_then (check_custom_domains (sc_sub_domain_host serverCfg) (elems (dc_custom_domains cfg)))
      (if dc_subdomain cfg \<noteq> [] then
         (if sc_sub_domain_host serverCfg = [] then Some SubDomainNotEnabled
          else if CHR ''.'' \<in> set (dc_subdomain cfg) \<or> CHR ''*'' \<in> set (dc_subdomain cfg)
          then Some SubDomainBadChar else None)
       else None))"

section \<open>The parameter \<^verbatim>\<open>MapTo\<close>\<close>

record 's map_to_api =
  mt_tcp :: "'s \<Rightarrow> tcp_proxy_conf \<Rightarrow> string + tcp_proxy_conf"
  mt_tcpmux :: "'s \<Rightarrow> tcpmux_proxy_conf \<Rightarrow> string + tcpmux_proxy_conf"
  mt_udp :: "'s \<Rightarrow> udp_proxy_conf \<Rightarrow> string + udp_proxy_conf"
  mt_http :: "'s \<Rightarrow> http_proxy_conf \<Rightarrow> string + http_proxy_conf"
  mt_https :: "'s \<Rightarrow> https_proxy_conf \<Rightarrow> string + https_proxy_conf"
  mt_stcp :: "'s \<Rightarrow> stcp_proxy_conf \<Rightarrow> string + stcp_proxy_conf"
  mt_xtcp :: "'s \<Rightarrow> xtcp_proxy_conf \<Rightarrow> string + xtcp_proxy_conf"
  mt_sudp :: "'s \<Rightarrow> sudp_proxy_conf \<Rightarrow> string + sudp_proxy_conf"

text \<open>\<^verbatim>\<open>preUnmarshalFromIni\<close>, over the struct's accessors of the embedded base.\<close>

definition pre_unmarshal_from_ini ::
    "'f float_api \<Rightarrow> 's ini_api \<Rightarrow> ('s \<Rightarrow> 'c \<Rightarrow> string + 'c) \<Rightarrow> ('c \<Rightarrow> base_proxy_conf) \<Rightarrow>
     (base_proxy_conf \<Rightarrow> 'c \<Rightarrow> 'c) \<Rightarrow> string \<Rightarrow> string \<Rightarrow> 's \<Rightarrow> 'c \<Rightarrow> conf_error + 'c" where
  "pre_unmarshal_from_ini fl ini mapto getb setb pre name s cfg =
     (case mapto s cfg of
        Inl e \<Rightarrow> Inl (IniError e)
      | Inr cfg' \<Rightarrow>
          (case base_decorate fl ini pre name s (getb cfg') of
             Inl e \<Rightarrow> Inl e
           | Inr b \<Rightarrow> Inr (setb b cfg')))"

section \<open>\<^verbatim>\<open>TCPProxyConf\<close>\<close>

definition tcp_compare :: "tcp_proxy_conf \<Rightarrow> proxy_conf \<Rightarrow> bool" where
  "tcp_compare cfg cmp = (case cmp of TCPConf cmpConf \<Rightarrow>
     (if \<not> base_compare (tc_base cfg) (tc_base cmpConf) then False
      else if tc_remote_port cfg \<noteq> tc_remote_port cmpConf then False
      else True)
   | _ \<Rightarrow> False)"

definition tcp_unmarshal_from_msg :: "new_proxy_msg \<Rightarrow> tcp_proxy_conf \<Rightarrow> tcp_proxy_conf" where
  "tcp_unmarshal_from_msg pMsg cfg =
     cfg\<lparr>tc_base := base_unmarshal_from_msg pMsg (tc_base cfg),
          tc_remote_port := np_remote_port pMsg\<rparr>"

definition tcp_unmarshal_from_ini ::
    "'f float_api \<Rightarrow> 's ini_api \<Rightarrow> 's map_to_api \<Rightarrow> string \<Rightarrow> string \<Rightarrow> 's \<Rightarrow> tcp_proxy_conf \<Rightarrow>
     conf_error + tcp_proxy_conf" where
  "tcp_unmarshal_from_ini fl ini mt pre name s cfg =
     pre_unmarshal_from_ini fl ini (mt_tcp mt) tc_base (\<lambda>b c. c\<lparr>tc_base := b\<rparr>) pre name s cfg"

definition tcp_marshal_to_msg :: "tcp_proxy_conf \<Rightarrow> new_proxy_msg \<Rightarrow> new_proxy_msg" where
  "tcp_marshal_to_msg cfg pMsg =
     (base_marshal_to_msg (tc_base cfg) pMsg)
       \<lparr>np_remote_port := tc_remote_port cfg\<rparr>"

definition tcp_check_for_cli :: "tcp_proxy_conf \<Rightarrow> conf_error option" where
  "tcp_check_for_cli cfg =
     base_check_for_cli (tc_base cfg)"

definition tcp_check_for_svr :: "server_common_conf \<Rightarrow> tcp_proxy_conf \<Rightarrow> conf_error option" where
  "tcp_check_for_svr serverCfg cfg =
     None"

section \<open>\<^verbatim>\<open>TCPMuxProxyConf\<close>\<close>

definition tcpmux_compare :: "tcpmux_proxy_conf \<Rightarrow> proxy_conf \<Rightarrow> bool" where
  "tcpmux_compare cfg cmp = (case cmp of TCPMuxConf cmpConf \<Rightarrow>
     (if \<not> base_compare (mx_base cfg) (mx_base cmpConf) then False
      else if mx_domain cfg \<noteq> mx_domain cmpConf then False
      else if mx_multiplexer cfg \<noteq> mx_multiplexer cmpConf then False
      else True)
   | _ \<Rightarrow> False)"

definition tcpmux_unmarshal_from_msg :: "new_proxy_msg \<Rightarrow> tcpmux_proxy_conf \<Rightarrow> tcpmux_proxy_conf" where
  "tcpmux_unmarshal_from_msg pMsg cfg =
     cfg\<lparr>mx_base := base_unmarshal_from_msg pMsg (mx_base cfg),
          mx_domain := \<lparr>dc_custom_domains = np_custom_domains pMsg, dc_subdomain = np_subdomain pMsg\<rparr>,
          mx_multiplexer := np_multiplexer pMsg\<rparr>"

definition tcpmux_unmarshal_from_ini ::
    "'f float_api \<Rightarrow> 's ini_api \<Rightarrow> 's map_to_api \<Rightarrow> string \<Rightarrow> string \<Rightarrow> 's \<Rightarrow> tcpmux_proxy_conf \<Rightarrow>
     conf_error + tcpmux_proxy_conf" where
  "tcpmux_unmarshal_from_ini fl ini mt pre name s cfg =
     pre_unmarshal_from_ini fl ini (mt_tcpmux mt) mx_base (\<lambda>b c. c\<lparr>mx_base := b\<rparr>) pre name s cfg"

definition tcpmux_marshal_to_msg :: "tcpmux_proxy_conf \<Rightarrow> new_proxy_msg \<Rightarrow> new_proxy_msg" where
  "tcpmux_marshal_to_msg cfg pMsg =
     (base_marshal_to_msg (mx_base cfg) pMsg)
       \<lparr>np_custom_domains := dc_custom_domains (mx_domain cfg),
        np_subdomain := dc_subdomain (mx_domain cfg),
        np_multiplexer := mx_multiplexer cfg\<rparr>"

definition tcpmux_check_for_cli :: "tcpmux_proxy_conf \<Rightarrow> conf_error option" where
  "tcpmux_check_for_cli cfg =
     err_then (base_check_for_cli (mx_base cfg))
    (err_then (domain_check_for_cli (mx_domain cfg))
      (if mx_multiplexer cfg \<noteq> HTTPConnectTCPMultiplexer
       then Some (IncorrectMultiplexer (mx_multiplexer cfg)) else None))"

definition tcpmux_check_for_svr :: "server_common_conf \<Rightarrow> tcpmux_proxy_conf \<Rightarrow> conf_error option" where
  "tcpmux_check_for_svr serverCfg cfg =
     (if mx_multiplexer cfg \<noteq> HTTPConnectTCPMultiplexer
      then Some (IncorrectMultiplexer (mx_multiplexer cfg))
      else if mx_multiplexer cfg = HTTPConnectTCPMultiplexer \<and> sc_tcpmux_httpconnect_port serverCfg = 0
      then Some (TCPMuxPortRequired (bp_proxy_name (mx_base cfg)))
      else (case domain_check_for_svr serverCfg (mx_domain cfg) of
              Some e \<Rightarrow> Some (DomainCheck (bp_proxy_name (mx_base cfg)) e)
            | None \<Rightarrow> None))"

section \<open>\<^verbatim>\<open>UDPProxyConf\<close>\<close>

definition udp_compare :: "udp_proxy_conf \<Rightarrow> proxy_conf \<Rightarrow> bool" where
  "udp_compare cfg cmp = (case cmp of UDPConf cmpConf \<Rightarrow>
     (if \<not> base_compare (ud_base cfg) (ud_base cmpConf) then False
      else if ud_remote_port cfg \<noteq> ud_remote_port cmpConf then False
      else True)
   | _ \<Rightarrow> False)"

definition udp_unmarshal_from_msg :: "new_proxy_msg \<Rightarrow> udp_proxy_conf \<Rightarrow> udp_proxy_conf" where
  "udp_unmarshal_from_msg pMsg cfg =
     cfg\<lparr>ud_base := base_unmarshal_from_msg pMsg (ud_base cfg),
          ud_remote_port := np_remote_port pMsg\<rparr>"

definition udp_unmarshal_from_ini ::
    "'f float_api \<Rightarrow> 's ini_api \<Rightarrow> 's map_to_api \<Rightarrow> string \<Rightarrow> string \<Rightarrow> 's \<Rightarrow> udp_proxy_conf \<Rightarrow>
     conf_error + udp_proxy_conf" where
  "udp_unmarshal_from_ini fl ini mt pre name s cfg =
     pre_unmarshal_from_ini fl ini (mt_udp mt) ud_base (\<lambda>b c. c\<lparr>ud_base := b\<rparr>) pre name s cfg"

definition udp_marshal_to_msg :: "udp_proxy_conf \<Rightarrow> new_proxy_msg \<Rightarrow> new_proxy_msg" where
  "udp_marshal_to_msg cfg pMsg =
     (base_marshal_to_msg (ud_base cfg) pMsg)
       \<lparr>np_remote_port := ud_remote_port cfg\<rparr>"

definition udp_check_for_cli :: "udp_proxy_conf \<Rightarrow> conf_error option" where
  "udp_check_for_cli cfg =
     base_check_for_cli (ud_base cfg)"

definition udp_check_for_svr :: "server_common_conf \<Rightarrow> udp_proxy_conf \<Rightarrow> conf_error option" where
  "udp_check_for_svr serverCfg cfg =
     None"

section \<open>\<^verbatim>\<open>HTTPProxyConf\<close>\<close>

definition http_compare :: "http_proxy_conf \<Rightarrow> proxy_conf \<Rightarrow> bool" where
  "http_compare cfg cmp = (case cmp of HTTPConf cmpConf \<Rightarrow>
     (if \<not> base_compare (ht_base cfg) (ht_base cmpConf) then False
      else if ht_domain cfg \<noteq> ht_domain cmpConf then False
      else if ht_locations cfg \<noteq> ht_locations cmpConf \<or>
         ht_http_user cfg \<noteq> ht_http_user cmpConf \<or>
         ht_http_pwd cfg \<noteq> ht_http_pwd cmpConf \<or>
         ht_host_header_rewrite cfg \<noteq> ht_host_header_rewrite cmpConf \<or>
         ht_headers cfg \<noteq> ht_headers cmpConf then False
      else True)
   | _ \<Rightarrow> False)"

definition http_unmarshal_from_msg :: "new_proxy_msg \<Rightarrow> http_proxy_conf \<Rightarrow> http_proxy_conf" where
  "http_unmarshal_from_msg pMsg cfg =
     cfg\<lparr>ht_base := base_unmarshal_from_msg pMsg (ht_base cfg),
          ht_domain := \<lparr>dc_custom_domains = np_custom_domains pMsg, dc_subdomain = np_subdomain pMsg\<rparr>,
          ht_locations := np_locations pMsg, ht_host_header_rewrite := np_host_header_rewrite pMsg,
          ht_http_user := np_http_user pMsg, ht_http_pwd := np_http_pwd pMsg,
          ht_headers := np_headers pMsg\<rparr>"

definition http_unmarshal_from_ini ::
    "'f float_api \<Rightarrow> 's ini_api \<Rightarrow> 's map_to_api \<Rightarrow> string \<Rightarrow> string \<Rightarrow> 's \<Rightarrow> http_proxy_conf \<Rightarrow>
     conf_error + http_proxy_conf" where
  "http_unmarshal_from_ini fl ini mt pre name s cfg =
     (case pre_unmarshal_from_ini fl ini (mt_http mt) ht_base (\<lambda>b c. c\<lparr>ht_base := b\<rparr>) pre name s cfg of
      Inl e \<Rightarrow> Inl e
    | Inr c \<Rightarrow> Inr (c\<lparr>ht_headers := get_map_without_prefix (ini_keys_hash ini s) ''header_''\<rparr>))"

definition http_marshal_to_msg :: "http_proxy_conf \<Rightarrow> new_proxy_msg \<Rightarrow> new_proxy_msg" where
  "http_marshal_to_msg cfg pMsg =
     (base_marshal_to_msg (ht_base cfg) pMsg)
       \<lparr>np_custom_domains := dc_custom_domains (ht_domain cfg),
        np_subdomain := dc_subdomain (ht_domain cfg),
        np_locations := ht_locations cfg, np_host_header_rewrite := ht_host_header_rewrite cfg,
        np_http_user := ht_http_user cfg, np_http_pwd := ht_http_pwd cfg,
        np_headers := ht_headers cfg\<rparr>"

definition http_check_for_cli :: "http_proxy_conf \<Rightarrow> conf_error option" where
  "http_check_for_cli cfg =
     err_then (base_check_for_cli (ht_base cfg)) (domain_check_for_cli (ht_domain cfg))"

definition http_check_for_svr :: "server_common_conf \<Rightarrow> http_proxy_conf \<Rightarrow> conf_error option" where
  "http_check_for_svr serverCfg cfg =
     (if sc_vhost_http_port serverCfg = 0 then Some VhostHTTPPortRequired
      else (case domain_check_for_svr serverCfg (ht_domain cfg) of
              Some e \<Rightarrow> Some (DomainCheck (bp_proxy_name (ht_base cfg)) e)
            | None \<Rightarrow> None))"

section \<open>\<^verbatim>\<open>HTTPSProxyConf\<close>\<close>

definition https_compare :: "https_proxy_conf \<Rightarrow> proxy_conf \<Rightarrow> bool" where
  "https_compare cfg cmp = (case cmp of HTTPSConf cmpConf \<Rightarrow>
     (if \<not> base_compare (hs_base cfg) (hs_base cmpConf) then False
      else if hs_domain cfg \<noteq> hs_domain cmpConf then False
      else True)
   | _ \<Rightarrow> False)"

definition https_unmarshal_from_msg :: "new_proxy_msg \<Rightarrow> https_proxy_conf \<Rightarrow> https_proxy_conf" where
  "https_unmarshal_from_msg pMsg cfg =
     cfg\<lparr>hs_base := base_unmarshal_from_msg pMsg (hs_base cfg),
          hs_domain := \<lparr>dc_custom_domains = np_custom_domains pMsg, dc_subdomain = np_subdomain pMsg\<rparr>\<rparr>"

definition https_unmarshal_from_ini ::
    "'f float_api \<Rightarrow> 's ini_api \<Rightarrow> 's map_to_api \<Rightarrow> string \<Rightarrow> string \<Rightarrow> 's \<Rightarrow> https_proxy_conf \<Rightarrow>
     conf_error + https_proxy_conf" where
  "https_unmarshal_from_ini fl ini mt pre name s cfg =
     pre_unmarshal_from_ini fl ini (mt_https mt) hs_base (\<lambda>b c. c\<lparr>hs_base := b\<rparr>) pre name s cfg"

definition https_marshal_to_msg :: "https_proxy_conf \<Rightarrow> new_proxy_msg \<Rightarrow> new_proxy_msg" where
  "https_marshal_to_msg cfg pMsg =
     (base_marshal_to_msg (hs_base cfg) pMsg)
       \<lparr>np_custom_domains := dc_custom_domains (hs_domain cfg),
        np_subdomain := dc_subdomain (hs_domain cfg)\<rparr>"

definition https_check_for_cli :: "https_proxy_conf \<Rightarrow> conf_error option" where
  "https_check_for_cli cfg =
     err_then (base_check_for_cli (hs_base cfg)) (domain_check_for_cli (hs_domain cfg))"

definition https_check_for_svr :: "server_common_conf \<Rightarrow> https_proxy_conf \<Rightarrow> conf_error option" where
  "https_check_for_svr serverCfg cfg =
     (if sc_vhost_https_port serverCfg = 0 then Some VhostHTTPSPortRequired
      else (case domain_check_for_svr serverCfg (hs_domain cfg) of
              Some e \<Rightarrow> Some (DomainCheck (bp_proxy_name (hs_base cfg)) e)
            | None \<Rightarrow> None))"

section \<open>\<^verbatim>\<open>SUDPProxyConf\<close>\<close>

definition sudp_compare :: "sudp_proxy_conf \<Rightarrow> proxy_conf \<Rightarrow> bool" where
  "sudp_compare cfg cmp = (case cmp of SUDPConf cmpConf \<Rightarrow>
     (if \<not> base_compare (su_base cfg) (su_base cmpConf) then False
      else if su_role cfg \<noteq> su_role cmpConf \<or> su_sk cfg \<noteq> su_sk cmpConf then False
      else True)
   | _ \<Rightarrow> False)"

definition sudp_unmarshal_from_msg :: "new_proxy_msg \<Rightarrow> sudp_proxy_conf \<Rightarrow> sudp_proxy_conf" where
  "sudp_unmarshal_from_msg pMsg cfg =
     cfg\<lparr>su_base := base_unmarshal_from_msg pMsg (su_base cfg),
          su_sk := np_sk pMsg\<rparr>"

definition sudp_unmarshal_from_ini ::
    "'f float_api \<Rightarrow> 's ini_api \<Rightarrow> 's map_to_api \<Rightarrow> string \<Rightarrow> string \<Rightarrow> 's \<Rightarrow> sudp_proxy_conf \<Rightarrow>
     conf_error + sudp_proxy_conf" where
  "sudp_unmarshal_from_ini fl ini mt pre name s cfg =
     pre_unmarshal_from_ini fl ini (mt_sudp mt) su_base (\<lambda>b c. c\<lparr>su_base := b\<rparr>) pre name s cfg"

definition sudp_marshal_to_msg :: "sudp_proxy_conf \<Rightarrow> new_proxy_msg \<Rightarrow> new_proxy_msg" where
  "sudp_marshal_to_msg cfg pMsg =
     (base_marshal_to_msg (su_base cfg) pMsg)
       \<lparr>np_sk := su_sk cfg\<rparr>"

definition sudp_check_for_cli :: "sudp_proxy_conf \<Rightarrow> conf_error option" where
  "sudp_check_for_cli cfg =
     err_then (base_check_for_cli (su_base cfg))
      (if su_role cfg \<noteq> ''server'' then Some RoleShouldBeServer else None)"

definition sudp_check_for_svr :: "server_common_conf \<Rightarrow> sudp_proxy_conf \<Rightarrow> conf_error option" where
  "sudp_check_for_svr serverCfg cfg =
     None"

section \<open>\<^verbatim>\<open>STCPProxyConf\<close>\<close>

definition stcp_compare :: "stcp_proxy_conf \<Rightarrow> proxy_conf \<Rightarrow> bool" where
  "stcp_compare cfg cmp = (case cmp of STCPConf cmpConf \<Rightarrow>
     (if \<not> base_compare (st_base cfg) (st_base cmpConf) then False
      else if st_role cfg \<noteq> st_role cmpConf \<or> st_sk cfg \<noteq> st_sk cmpConf then False
      else True)
   | _ \<Rightarrow> False)"

definition stcp_unmarshal_from_msg :: "new_proxy_msg \<Rightarrow> stcp_proxy_conf \<Rightarrow> stcp_proxy_conf" where
  "stcp_unmarshal_from_msg pMsg cfg =
     cfg\<lparr>st_base := base_unmarshal_from_msg pMsg (st_base cfg),
          st_sk := np_sk pMsg\<rparr>"

definition stcp_unmarshal_from_ini ::
    "'f float_api \<Rightarrow> 's ini_api \<Rightarrow> 's map_to_api \<Rightarrow> string \<Rightarrow> string \<Rightarrow> 's \<Rightarrow> stcp_proxy_conf \<Rightarrow>
     conf_error + stcp_proxy_conf" where
  "stcp_unmarshal_from_ini fl ini mt pre name s cfg =
     (case pre_unmarshal_from_ini fl ini (mt_stcp mt) st_base (\<lambda>b c. c\<lparr>st_base := b\<rparr>) pre name s cfg of
      Inl e \<Rightarrow> Inl e
    | Inr c \<Rightarrow> Inr (if st_role c = [] then c\<lparr>st_role := ''server''\<rparr> else c))"

definition stcp_marshal_to_msg :: "stcp_proxy_conf \<Rightarrow> new_proxy_msg \<Rightarrow> new_proxy_msg" where
  "stcp_marshal_to_msg cfg pMsg =
     (base_marshal_to_msg (st_base cfg) pMsg)
       \<lparr>np_sk := st_sk cfg\<rparr>"

definition stcp_check_for_cli :: "stcp_proxy_conf \<Rightarrow> conf_error option" where
  "stcp_check_for_cli cfg =
     err_then (base_check_for_cli (st_base cfg))
      (if st_role cfg \<noteq> ''server'' then Some RoleShouldBeServer else None)"

definition stcp_check_for_svr :: "server_common_conf \<Rightarrow> stcp_proxy_conf \<Rightarrow> conf_error option" where
  "stcp_check_for_svr serverCfg cfg =
     None"

section \<open>\<^verbatim>\<open>XTCPProxyConf\<close>\<close>

definition xtcp_compare :: "xtcp_proxy_conf \<Rightarrow> proxy_conf \<Rightarrow> bool" where
  "xtcp_compare cfg cmp = (case cmp of XTCPConf cmpConf \<Rightarrow>
     (if \<not> base_compare (xt_base cfg) (xt_base cmpConf) then False
      else if xt_role cfg \<noteq> xt_role cmpConf \<or> xt_sk cfg \<noteq> xt_sk cmpConf then False
      else True)
   | _ \<Rightarrow> False)"

definition xtcp_unmarshal_from_msg :: "new_proxy_msg \<Rightarrow> xtcp_proxy_conf \<Rightarrow> xtcp_proxy_conf" where
  "xtcp_unmarshal_from_msg pMsg cfg =
     cfg\<lparr>xt_base := base_unmarshal_from_msg pMsg (xt_base cfg),
          xt_sk := np_sk pMsg\<rparr>"

definition xtcp_unmarshal_from_ini ::
    "'f float_api \<Rightarrow> 's ini_api \<Rightarrow> 's map_to_api \<Rightarrow> string \<Rightarrow> string \<Rightarrow> 's \<Rightarrow> xtcp_proxy_conf \<Rightarrow>
     conf_error + xtcp_proxy_conf" where
  "xtcp_unmarshal_from_ini fl ini mt pre name s cfg =
     (case pre_unmarshal_from_ini fl ini (mt_xtcp mt) xt_base (\<lambda>b c. c\<lparr>xt_base := b\<rparr>) pre name s cfg of
      Inl e \<Rightarrow> Inl e
    | Inr c \<Rightarrow> Inr (if xt_role c = [] then c\<lparr>xt_role := ''server''\<rparr> else c))"

definition xtcp_marshal_to_msg :: "xtcp_proxy_conf \<Rightarrow> new_proxy_msg \<Rightarrow> new_proxy_msg" where
  "xtcp_marshal_to_msg cfg pMsg =
     (base_marshal_to_msg (xt_base cfg) pMsg)
       \<lparr>np_sk := xt_sk cfg\<rparr>"

definition xtcp_check_for_cli :: "xtcp_proxy_conf \<Rightarrow> conf_error option" where
  "xtcp_check_for_cli cfg =
     err_then (base_check_for_cli (xt_base cfg))
      (if xt_role cfg \<noteq> ''server'' then Some RoleShouldBeServer else None)"

definition xtcp_check_for_svr :: "server_common_conf \<Rightarrow> xtcp_proxy_conf \<Rightarrow> conf_error option" where
  "xtcp_check_for_svr serverCfg cfg =
     None"

section \<open>The interface \<^verbatim>\<open>ProxyConf\<close>\<close>

fun compare :: "proxy_conf \<Rightarrow> proxy_conf \<Rightarrow> bool" where
  "compare (TCPConf c) cmp = tcp_compare c cmp"
| "compare (TCPMuxConf c) cmp = tcpmux_compare c cmp"
| "compare (UDPConf c) cmp = udp_compare c cmp"
| "compare (HTTPConf c) cmp = http_compare c cmp"
| "compare (HTTPSConf c) cmp = https_compare c cmp"
| "compare (SUDPConf c) cmp = sudp_compare c cmp"
| "compare (STCPConf c) cmp = stcp_compare c cmp"
| "compare (XTCPConf c) cmp = xtcp_compare c cmp"

fun unmarshal_from_msg :: "new_proxy_msg \<Rightarrow> proxy_conf \<Rightarrow> proxy_conf" where
  "unmarshal_from_msg m (TCPConf c) = TCPConf (tcp_unmarshal_from_msg m c)"
| "unmarshal_from_msg m (TCPMuxConf c) = TCPMuxConf (tcpmux_unmarshal_from_msg m c)"
| "unmarshal_from_msg m (UDPConf c) = UDPConf (udp_unmarshal_from_msg m c)"
| "unmarshal_from_msg m (HTTPConf c) = HTTPConf (http_unmarshal_from_msg m c)"
| "unmarshal_from_msg m (HTTPSConf c) = HTTPSConf (https_unmarshal_from_msg m c)"
| "unmarshal_from_msg m (SUDPConf c) = SUDPConf (sudp_unmarshal_from_msg m c)"
| "unmarshal_from_msg m (STCPConf c) = STCPConf (stcp_unmarshal_from_msg m c)"
| "unmarshal_from_msg m (XTCPConf c) = XTCPConf (xtcp_unmarshal_from_msg m c)"

fun unmarshal_from_ini :: "'f float_api \<Rightarrow> 's ini_api \<Rightarrow> 's map_to_api \<Rightarrow> string \<Rightarrow> string \<Rightarrow> 's \<Rightarrow>
    proxy_conf \<Rightarrow> conf_error + proxy_conf" where
  "unmarshal_from_ini fl ini mt pre name s (TCPConf c) =
     map_sum id TCPConf (tcp_unmarshal_from_ini fl ini mt pre name s c)"
| "unmarshal_from_ini fl ini mt pre name s (TCPMuxConf c) =
     map_sum id TCPMuxConf (tcpmux_unmarshal_from_ini fl ini mt pre name s c)"
| "unmarshal_from_ini fl ini mt pre name s (UDPConf c) =
     map_sum id UDPConf (udp_unmarshal_from_ini fl ini mt pre name s c)"
| "unmarshal_from_ini fl ini mt pre name s (HTTPConf c) =
     map_sum id HTTPConf (http_unmarshal_from_ini fl ini mt pre name s c)"
| "unmarshal_from_ini fl ini mt pre name s (HTTPSConf c) =
     map_sum id HTTPSConf (https_unmarshal_from_ini fl ini mt pre name s c)"
| "unmarshal_from_ini fl ini mt pre name s (SUDPConf c) =
     map_sum id SUDPConf (sudp_unmarshal_from_ini fl ini mt pre name s c)"
| "unmarshal_from_ini fl ini mt pre name s (STCPConf c) =
     map_sum id STCPConf (stcp_unmarshal_from_ini fl ini mt pre name s c)"
| "unmarshal_from_ini fl ini mt pre name s (XTCPConf c) =
     map_sum id XTCPConf (xtcp_unmarshal_from_ini fl ini mt pre name s c)"

fun marshal_to_msg :: "proxy_conf \<Rightarrow> new_proxy_msg \<Rightarrow> new_proxy_msg" where
  "marshal_to_msg (TCPConf c) m = tcp_marshal_to_msg c m"
| "marshal_to_msg (TCPMuxConf c) m = tcpmux_marshal_to_msg c m"
| "marshal_to_msg (UDPConf c) m = udp_marshal_to_msg c m"
| "marshal_to_msg (HTTPConf c) m = http_marshal_to_msg c m"
| "marshal_to_msg (HTTPSConf c) m = https_marshal_to_msg c m"
| "marshal_to_msg (SUDPConf c) m = sudp_marshal_to_msg c m"
| "marshal_to_msg (STCPConf c) m = stcp_marshal_to_msg c m"
| "marshal_to_msg (XTCPConf c) m = xtcp_marshal_to_msg c m"

fun check_for_cli :: "proxy_conf \<Rightarrow> conf_error option" where
  "check_for_cli (TCPConf c) = tcp_check_for_cli c"
| "check_for_cli (TCPMuxConf c) = tcpmux_check_for_cli c"
| "check_for_cli (UDPConf c) = udp_check_for_cli c"
| "check_for_cli (HTTPConf c) = http_check_for_cli c"
| "check_for_cli (HTTPSConf c) = https_check_for_cli c"
| "check_for_cli (SUDPConf c) = sudp_check_for_cli c"
| "check_for_cli (STCPConf c) = stcp_check_for_cli c"
| "check_for_cli (XTCPConf c) = xtcp_check_for_cli c"

fun check_for_svr :: "server_common_conf \<Rightarrow> proxy_conf \<Rightarrow> conf_error option" where
  "check_for_svr sc (TCPConf c) = tcp_check_for_svr sc c"
| "check_for_svr sc (TCPMuxConf c) = tcpmux_check_for_svr sc c"
| "check_for_svr sc (UDPConf c) = udp_check_for_svr sc c"
| "check_for_svr sc (HTTPConf c) = http_check_for_svr sc c"
| "check_for_svr sc (HTTPSConf c) = https_check_for_svr sc c"
| "check_for_svr sc (SUDPConf c) = sudp_check_for_svr sc c"
| "check_for_svr sc (STCPConf c) = stcp_check_for_svr sc c"
| "check_for_svr sc (XTCPConf c) = xtcp_check_for_svr sc c"

section \<open>The loaders\<close>

definition new_proxy_conf_from_ini ::
    "'f float_api \<Rightarrow> 's ini_api \<Rightarrow> 's map_to_api \<Rightarrow> string \<Rightarrow> string \<Rightarrow> 's \<Rightarrow> conf_error + proxy_conf" where
  "new_proxy_conf_from_ini fl ini mt pre name s =
     (let proxyType = (if ini_key ini s ''type'' = [] then TCPProxy else ini_key ini s ''type'') in
      case default_proxy_conf proxyType of
        None \<Rightarrow> Inl (ProxyTypeError name proxyType)
      | Some conf0 \<Rightarrow>
          (case unmarshal_from_ini fl ini mt pre name s conf0 of
             Inl e \<Rightarrow> Inl e
           | Inr conf \<Rightarrow>
               (case check_for_cli conf of Some e \<Rightarrow> Inl e | None \<Rightarrow> Inr conf)))"

text \<open>The message is changed in place when its type is empty; it is returned with the result.\<close>

definition new_proxy_conf_from_msg ::
    "new_proxy_msg \<Rightarrow> server_common_conf \<Rightarrow> new_proxy_msg \<times> (conf_error + proxy_conf)" where
  "new_proxy_conf_from_msg pMsg0 serverCfg =
     (let pMsg = (if np_proxy_type pMsg0 = [] then pMsg0\<lparr>np_proxy_type := TCPProxy\<rparr> else pMsg0) in
      (pMsg,
       case default_proxy_conf (np_proxy_type pMsg) of
         None \<Rightarrow> Inl (ProxyTypeError (np_proxy_name pMsg) (np_proxy_type pMsg))
       | Some conf0 \<Rightarrow>
           let conf = unmarshal_from_msg pMsg conf0 in
           (case check_for_svr serverCfg conf of Some e \<Rightarrow> Inl e | None \<Rightarrow> Inr conf)))"

end
