(* ===== verification/Comparable.thy ===== *)
theory Comparable
  imports Prelude
begin

text \<open>
  The contract of a \<^verbatim>\<open>Compare\<close> method: it decides equality of what the configuration means, given by
  a function \<open>norm\<close> that drops what does not count. The reload of the client relies on it.
\<close>

locale comparable =
  fixes cmp :: "'c \<Rightarrow> 'c \<Rightarrow> bool" and norm :: "'c \<Rightarrow> 'n"
  assumes cmp_iff: "cmp a b \<longleftrightarrow> norm a = norm b"
begin

lemma cmp_refl: "cmp a a"
  by (simp add: cmp_iff)

lemma cmp_sym: "cmp a b \<Longrightarrow> cmp b a"
  by (simp add: cmp_iff)

lemma cmp_trans: "cmp a b \<Longrightarrow> cmp b c \<Longrightarrow> cmp a c"
  by (simp add: cmp_iff)

lemma cmp_determined:
  assumes "\<And>a b. norm a = norm b \<Longrightarrow> f a = f b" and "cmp a b"
  shows "f a = f b"
  using assms(1) [of a b] assms(2) cmp_iff by blast

end

end
