(* ===== verification/Proxy_Conf_Laws.thy ===== *)
theory Proxy_Conf_Laws
  imports Proxy_Conf Comparable
begin

text \<open>
  What the methods of \<^verbatim>\<open>ProxyConf\<close> promise: \<open>compare\<close> decides equality up to the text of the
  bandwidth limit, the message carries the server's view of a configuration, and the server's
  check keeps custom domains out of the subdomain host.
\<close>

section \<open>Maps over the embedded base\<close>

fun map_base :: "(base_proxy_conf \<Rightarrow> base_proxy_conf) \<Rightarrow> proxy_conf \<Rightarrow> proxy_conf" where
  "map_base f (TCPConf c) = TCPConf (c\<lparr>tc_base := f (tc_base c)\<rparr>)"
| "map_base f (TCPMuxConf c) = TCPMuxConf (c\<lparr>mx_base := f (mx_base c)\<rparr>)"
| "map_base f (UDPConf c) = UDPConf (c\<lparr>ud_base := f (ud_base c)\<rparr>)"
| "map_base f (HTTPConf c) = HTTPConf (c\<lparr>ht_base := f (ht_base c)\<rparr>)"
| "map_base f (HTTPSConf c) = HTTPSConf (c\<lparr>hs_base := f (hs_base c)\<rparr>)"
| "map_base f (STCPConf c) = STCPConf (c\<lparr>st_base := f (st_base c)\<rparr>)"
| "map_base f (XTCPConf c) = XTCPConf (c\<lparr>xt_base := f (xt_base c)\<rparr>)"
| "map_base f (SUDPConf c) = SUDPConf (c\<lparr>su_base := f (su_base c)\<rparr>)"

lemma get_base_info_map_base [simp]: "get_base_info (map_base f c) = f (get_base_info c)"
  by (cases c) auto

section \<open>\<^verbatim>\<open>Compare\<close>\<close>

definition forget_bandwidth_text :: "base_proxy_conf \<Rightarrow> base_proxy_conf" where
  "forget_bandwidth_text b = b\<lparr>bp_bandwidth_limit := (bp_bandwidth_limit b)\<lparr>bw_s := []\<rparr>\<rparr>"

definition proxy_conf_norm :: "proxy_conf \<Rightarrow> proxy_conf" where
  "proxy_conf_norm = map_base forget_bandwidth_text"

lemma base_compare_iff: "base_compare a b \<longleftrightarrow> forget_bandwidth_text a = forget_bandwidth_text b"
proof -
  obtain a1 a2 a3 a4 a5 a6 a7 a8 s i a9 a10 where
    a: "a = \<lparr>bp_proxy_name = a1, bp_proxy_type = a2, bp_use_encryption = a3, bp_use_compression = a4,
      bp_group = a5, bp_group_key = a6, bp_proxy_protocol_version = a7,
      bp_bandwidth_limit = \<lparr>bw_s = s, bw_i = i\<rparr>, bp_metas = a8, bp_local_svr = a9, bp_health_check = a10\<rparr>"
    by (metis base_proxy_conf.surjective bandwidth.surjective old.unit.exhaust)
  obtain b1 b2 b3 b4 b5 b6 b7 b8 t j b9 b10 where
    b: "b = \<lparr>bp_proxy_name = b1, bp_proxy_type = b2, bp_use_encryption = b3, bp_use_compression = b4,
      bp_group = b5, bp_group_key = b6, bp_proxy_protocol_version = b7,
      bp_bandwidth_limit = \<lparr>bw_s = t, bw_i = j\<rparr>, bp_metas = b8, bp_local_svr = b9, bp_health_check = b10\<rparr>"
    by (metis base_proxy_conf.surjective bandwidth.surjective old.unit.exhaust)
  show ?thesis by (simp add: a b base_compare_def forget_bandwidth_text_def) blast
qed

lemmas compare_defs = tcp_compare_def tcpmux_compare_def udp_compare_def http_compare_def
  https_compare_def sudp_compare_def stcp_compare_def xtcp_compare_def

text \<open>Equality of configurations whose base was replaced.\<close>

lemma tc_base_upd_eq:
  fixes c d :: tcp_proxy_conf
  shows "c\<lparr>tc_base := a\<rparr> = d\<lparr>tc_base := b\<rparr> \<longleftrightarrow> a = b \<and> tc_remote_port c = tc_remote_port d"
  by (cases c; cases d) auto

lemma mx_base_upd_eq:
  fixes c d :: tcpmux_proxy_conf
  shows "c\<lparr>mx_base := a\<rparr> = d\<lparr>mx_base := b\<rparr> \<longleftrightarrow> a = b \<and> mx_domain c = mx_domain d \<and>
     mx_multiplexer c = mx_multiplexer d"
  by (cases c; cases d) auto

lemma ud_base_upd_eq:
  fixes c d :: udp_proxy_conf
  shows "c\<lparr>ud_base := a\<rparr> = d\<lparr>ud_base := b\<rparr> \<longleftrightarrow> a = b \<and> ud_remote_port c = ud_remote_port d"
  by (cases c; cases d) auto

lemma ht_base_upd_eq:
  fixes c d :: http_proxy_conf
  shows "c\<lparr>ht_base := a\<rparr> = d\<lparr>ht_base := b\<rparr> \<longleftrightarrow> a = b \<and> ht_domain c = ht_domain d \<and>
     ht_locations c = ht_locations d \<and>
     ht_http_user c = ht_http_user d \<and>
     ht_http_pwd c = ht_http_pwd d \<and>
     ht_host_header_rewrite c = ht_host_header_rewrite d \<and>
     ht_headers c = ht_headers d"
  by (cases c; cases d) auto

lemma hs_base_upd_eq:
  fixes c d :: https_proxy_conf
  shows "c\<lparr>hs_base := a\<rparr> = d\<lparr>hs_base := b\<rparr> \<longleftrightarrow> a = b \<and> hs_domain c = hs_domain d"
  by (cases c; cases d) auto

lemma su_base_upd_eq:
  fixes c d :: sudp_proxy_conf
  shows "c\<lparr>su_base := a\<rparr> = d\<lparr>su_base := b\<rparr> \<longleftrightarrow> a = b \<and> su_role c = su_role d \<and>
     su_sk c = su_sk d"
  by (cases c; cases d) auto

lemma st_base_upd_eq:
  fixes c d :: stcp_proxy_conf
  shows "c\<lparr>st_base := a\<rparr> = d\<lparr>st_base := b\<rparr> \<longleftrightarrow> a = b \<and> st_role c = st_role d \<and>
     st_sk c = st_sk d"
  by (cases c; cases d) auto

lemma xt_base_upd_eq:
  fixes c d :: xtcp_proxy_conf
  shows "c\<lparr>xt_base := a\<rparr> = d\<lparr>xt_base := b\<rparr> \<longleftrightarrow> a = b \<and> xt_role c = xt_role d \<and>
     xt_sk c = xt_sk d"
  by (cases c; cases d) auto

lemmas base_upd_eqs = tc_base_upd_eq mx_base_upd_eq ud_base_upd_eq ht_base_upd_eq hs_base_upd_eq su_base_upd_eq st_base_upd_eq xt_base_upd_eq

lemma compare_iff: "compare a b \<longleftrightarrow> proxy_conf_norm a = proxy_conf_norm b"
  by (cases a; cases b)
    (simp_all add: compare_defs proxy_conf_norm_def base_compare_iff base_upd_eqs)

interpretation pcmp: comparable compare proxy_conf_norm
  by unfold_locales (rule compare_iff)


section \<open>What the message carries\<close>

fun conf_kind :: "proxy_conf \<Rightarrow> string" where
  "conf_kind (TCPConf c) = TCPProxy"
| "conf_kind (TCPMuxConf c) = TCPMuxProxy"
| "conf_kind (UDPConf c) = UDPProxy"
| "conf_kind (HTTPConf c) = HTTPProxy"
| "conf_kind (HTTPSConf c) = HTTPSProxy"
| "conf_kind (STCPConf c) = STCPProxy"
| "conf_kind (XTCPConf c) = XTCPProxy"
| "conf_kind (SUDPConf c) = SUDPProxy"

definition well_typed :: "proxy_conf \<Rightarrow> bool" where
  "well_typed c \<longleftrightarrow> bp_proxy_type (get_base_info c) = conf_kind c"

text \<open>
  \<open>server_view c\<close>: the client's own settings (where the service is, health check, bandwidth,
  proxy protocol) take their defaults, the rest is kept.
\<close>

definition server_base :: "base_proxy_conf \<Rightarrow> base_proxy_conf" where
  "server_base b =
     b\<lparr>bp_proxy_protocol_version := [], bp_bandwidth_limit := empty_bandwidth,
       bp_local_svr := zero_local_svr\<lparr>ls_local_ip := ''127.0.0.1''\<rparr>,
       bp_health_check := zero_health_check\<rparr>"

fun server_role :: "proxy_conf \<Rightarrow> proxy_conf" where
  "server_role (STCPConf c) = STCPConf (c\<lparr>st_role := ''server''\<rparr>)"
| "server_role (XTCPConf c) = XTCPConf (c\<lparr>xt_role := ''server''\<rparr>)"
| "server_role (SUDPConf c) = SUDPConf (c\<lparr>su_role := ''server''\<rparr>)"
| "server_role c = c"

definition server_view :: "proxy_conf \<Rightarrow> proxy_conf" where
  "server_view c = server_role (map_base server_base c)"

lemma conf_kind_defaults:
  "default_proxy_conf (conf_kind c) \<noteq> None" "conf_kind c \<noteq> []"
  by (cases c; simp add: default_proxy_conf_def conf_of_type_def proxy_type_defs)+

lemmas marshal_defs = tcp_marshal_to_msg_def tcpmux_marshal_to_msg_def udp_marshal_to_msg_def
  http_marshal_to_msg_def https_marshal_to_msg_def sudp_marshal_to_msg_def
  stcp_marshal_to_msg_def xtcp_marshal_to_msg_def base_marshal_to_msg_def

lemmas unmarshal_defs = tcp_unmarshal_from_msg_def tcpmux_unmarshal_from_msg_def
  udp_unmarshal_from_msg_def http_unmarshal_from_msg_def https_unmarshal_from_msg_def
  sudp_unmarshal_from_msg_def stcp_unmarshal_from_msg_def xtcp_unmarshal_from_msg_def
  base_unmarshal_from_msg_def

lemmas check_svr_defs = tcp_check_for_svr_def tcpmux_check_for_svr_def udp_check_for_svr_def
  http_check_for_svr_def https_check_for_svr_def sudp_check_for_svr_def
  stcp_check_for_svr_def xtcp_check_for_svr_def

lemmas check_cli_defs = tcp_check_for_cli_def tcpmux_check_for_cli_def udp_check_for_cli_def
  http_check_for_cli_def https_check_for_cli_def sudp_check_for_cli_def
  stcp_check_for_cli_def xtcp_check_for_cli_def

lemma np_proxy_type_marshal: "np_proxy_type (marshal_to_msg c m) = bp_proxy_type (get_base_info c)"
  by (cases c) (simp_all add: marshal_defs)

lemma base_marshal_round:
  "base_unmarshal_from_msg (base_marshal_to_msg b m) (default_base_proxy_conf (bp_proxy_type b)) = server_base b"
  by (cases b) (simp add: base_unmarshal_from_msg_def base_marshal_to_msg_def default_base_proxy_conf_def
      server_base_def zero_base_proxy_conf_def)

lemma domain_eta: "\<lparr>dc_custom_domains = dc_custom_domains d, dc_subdomain = dc_subdomain d\<rparr> = d"
  by (cases d) simp

lemma base_unmarshal_cong:
  "base_unmarshal_from_msg (m\<lparr>np_remote_port := p\<rparr>) b = base_unmarshal_from_msg m b"
  "base_unmarshal_from_msg (m\<lparr>np_custom_domains := cd, np_subdomain := sd\<rparr>) b = base_unmarshal_from_msg m b"
  "base_unmarshal_from_msg (m\<lparr>np_custom_domains := cd, np_subdomain := sd, np_multiplexer := x\<rparr>) b =
     base_unmarshal_from_msg m b"
  "base_unmarshal_from_msg (m\<lparr>np_custom_domains := cd, np_subdomain := sd, np_locations := l,
     np_host_header_rewrite := h, np_http_user := u, np_http_pwd := w, np_headers := hs\<rparr>) b =
     base_unmarshal_from_msg m b"
  "base_unmarshal_from_msg (m\<lparr>np_sk := k\<rparr>) b = base_unmarshal_from_msg m b"
  by (simp_all add: base_unmarshal_from_msg_def)

lemma unmarshal_marshal:
  assumes "well_typed c" and "default_proxy_conf (conf_kind c) = Some d"
  shows "unmarshal_from_msg (marshal_to_msg c m) d = server_view c"
proof (cases c)
  case (TCPConf x)
  with assms base_marshal_round [of "tc_base x" m] show ?thesis
    by (cases x) (auto simp: well_typed_def default_proxy_conf_def conf_of_type_def proxy_type_defs
        tcp_marshal_to_msg_def tcp_unmarshal_from_msg_def server_view_def base_unmarshal_cong)
next
  case (TCPMuxConf x)
  with assms base_marshal_round [of "mx_base x" m] show ?thesis
    by (cases x) (auto simp: well_typed_def default_proxy_conf_def conf_of_type_def proxy_type_defs
        tcpmux_marshal_to_msg_def tcpmux_unmarshal_from_msg_def server_view_def base_unmarshal_cong domain_eta)
next
  case (UDPConf x)
  with assms base_marshal_round [of "ud_base x" m] show ?thesis
    by (cases x) (auto simp: well_typed_def default_proxy_conf_def conf_of_type_def proxy_type_defs
        udp_marshal_to_msg_def udp_unmarshal_from_msg_def server_view_def base_unmarshal_cong)
next
  case (HTTPConf x)
  with assms base_marshal_round [of "ht_base x" m] show ?thesis
    by (cases x) (auto simp: well_typed_def default_proxy_conf_def conf_of_type_def proxy_type_defs
        http_marshal_to_msg_def http_unmarshal_from_msg_def server_view_def base_unmarshal_cong domain_eta)
next
  case (HTTPSConf x)
  with assms base_marshal_round [of "hs_base x" m] show ?thesis
    by (cases x) (auto simp: well_typed_def default_proxy_conf_def conf_of_type_def proxy_type_defs
        https_marshal_to_msg_def https_unmarshal_from_msg_def server_view_def base_unmarshal_cong domain_eta)
next
  case (STCPConf x)
  with assms base_marshal_round [of "st_base x" m] show ?thesis
    by (cases x) (auto simp: well_typed_def default_proxy_conf_def conf_of_type_def proxy_type_defs
        stcp_marshal_to_msg_def stcp_unmarshal_from_msg_def server_view_def base_unmarshal_cong)
next
  case (XTCPConf x)
  with assms base_marshal_round [of "xt_base x" m] show ?thesis
    by (cases x) (auto simp: well_typed_def default_proxy_conf_def conf_of_type_def proxy_type_defs
        xtcp_marshal_to_msg_def xtcp_unmarshal_from_msg_def server_view_def base_unmarshal_cong)
next
  case (SUDPConf x)
  with assms base_marshal_round [of "su_base x" m] show ?thesis
    by (cases x) (auto simp: well_typed_def default_proxy_conf_def conf_of_type_def proxy_type_defs
        sudp_marshal_to_msg_def sudp_unmarshal_from_msg_def server_view_def base_unmarshal_cong)
qed

lemma check_for_svr_server_view: "check_for_svr sc (server_view c) = check_for_svr sc c"
  by (cases c) (simp_all add: server_view_def check_svr_defs server_base_def split: option.splits)

section \<open>Domains\<close>

fun conf_domain :: "proxy_conf \<Rightarrow> domain_conf option" where
  "conf_domain (TCPMuxConf c) = Some (mx_domain c)"
| "conf_domain (HTTPConf c) = Some (ht_domain c)"
| "conf_domain (HTTPSConf c) = Some (hs_domain c)"
| "conf_domain c = None"

lemma check_for_svr_domain:
  "check_for_svr sc c = None \<Longrightarrow> conf_domain c = Some d \<Longrightarrow> domain_check_for_svr sc d = None"
  by (cases c) (auto simp: check_svr_defs split: option.splits if_splits)

lemma check_custom_domains_iff:
  "check_custom_domains h ds = None \<longleftrightarrow>
     (\<forall>d \<in> set ds. \<not> (h \<noteq> [] \<and> length (split_on (CHR ''.'') h) < length (split_on (CHR ''.'') d) \<and> sublist h d))"
  by (induction ds) auto

lemma more_labels_below:
  "length (split_on (CHR ''.'') h) < length (split_on (CHR ''.'') (l @ ''.'' @ h))"
  by (simp add: length_split_on)

lemma check_custom_domains_below:
  assumes "check_custom_domains h ds = None" and "h \<noteq> []"
  shows "l @ ''.'' @ h \<notin> set ds"
proof
  assume "l @ ''.'' @ h \<in> set ds"
  moreover have "sublist h (l @ ''.'' @ h)"
    unfolding sublist_def by (rule exI [of _ "l @ ''.''"]) simp
  ultimately show False
    using assms more_labels_below by (auto simp: check_custom_domains_iff)
qed


section \<open>Properties\<close>

text \<open>C21: \<^verbatim>\<open>Compare\<close> answers true exactly when two configurations have the same type and agree
  in every field, nil and empty maps and slices told apart, but for the text in which the
  bandwidth limit was written. So two configurations that compare equal register the same
  message with the server, and one passes the client's check when the other does.\<close>

theorem compare_exact:
  "(compare a b \<longleftrightarrow> map_base forget_bandwidth_text a = map_base forget_bandwidth_text b) \<and>
   (compare a b \<longrightarrow> marshal_to_msg a m = marshal_to_msg b m \<and> check_for_cli a = check_for_cli b)"
proof -
  have marshal: "marshal_to_msg (map_base forget_bandwidth_text c) m = marshal_to_msg c m" for c
    by (cases c) (simp_all add: marshal_defs forget_bandwidth_text_def)
  have check: "check_for_cli (map_base forget_bandwidth_text c) = check_for_cli c" for c
    by (cases c) (simp_all add: check_cli_defs base_check_for_cli_def forget_bandwidth_text_def)
  from marshal check show ?thesis
    by (metis compare_iff proxy_conf_norm_def)
qed

lemma compare_exact_witness:
  "marshal_to_msg (UDPConf \<lparr>ud_base = default_base_proxy_conf ''udp'', ud_remote_port = 9\<rparr>) empty_new_proxy =
   marshal_to_msg (UDPConf \<lparr>ud_base = (default_base_proxy_conf ''udp'')\<lparr>bp_bandwidth_limit := \<lparr>bw_s = ''0KB'', bw_i = 0\<rparr>\<rparr>,
     ud_remote_port = 9\<rparr>) empty_new_proxy"
proof -
  let ?a = "UDPConf \<lparr>ud_base = default_base_proxy_conf ''udp'', ud_remote_port = 9\<rparr>"
  let ?b = "UDPConf \<lparr>ud_base = (default_base_proxy_conf ''udp'')\<lparr>bp_bandwidth_limit := \<lparr>bw_s = ''0KB'', bw_i = 0\<rparr>\<rparr>,
     ud_remote_port = 9\<rparr>"
  have "compare ?a ?b"
    by (simp add: udp_compare_def base_compare_def default_base_proxy_conf_def zero_base_proxy_conf_def
        empty_bandwidth_def)
  with compare_exact [of ?a ?b empty_new_proxy] show ?thesis by blast
qed

text \<open>C20: The server reads from the message of a client's configuration the server's view of it:
  every field the server uses as the client set it, the client's own fields at their defaults,
  the role of a secret proxy \<^verbatim>\<open>server\<close>. It accepts it exactly when its check of the client's
  configuration passes, and leaves the message as it is.\<close>

theorem conf_msg_roundtrip:
  assumes "well_typed c"
  shows "new_proxy_conf_from_msg (marshal_to_msg c empty_new_proxy) sc =
    (marshal_to_msg c empty_new_proxy,
     case check_for_svr sc c of Some e \<Rightarrow> Inl e | None \<Rightarrow> Inr (server_view c))"
proof -
  have t: "np_proxy_type (marshal_to_msg c empty_new_proxy) = conf_kind c"
    using assms by (simp add: np_proxy_type_marshal well_typed_def)
  obtain d where d: "default_proxy_conf (conf_kind c) = Some d"
    using conf_kind_defaults(1) [of c] by blast
  show ?thesis
    using conf_kind_defaults(2) [of c] unmarshal_marshal [OF assms d, of empty_new_proxy]
    by (simp add: new_proxy_conf_from_msg_def t d Let_def check_for_svr_server_view split: option.split)
qed

lemma conf_msg_roundtrip_witness:
  "new_proxy_conf_from_msg
     (marshal_to_msg (STCPConf \<lparr>st_base = default_base_proxy_conf ''stcp'', st_role = ''server'', st_sk = ''abc''\<rparr>)
        empty_new_proxy) get_default_server_conf =
   (marshal_to_msg (STCPConf \<lparr>st_base = default_base_proxy_conf ''stcp'', st_role = ''server'', st_sk = ''abc''\<rparr>)
        empty_new_proxy,
    Inr (STCPConf \<lparr>st_base = default_base_proxy_conf ''stcp'', st_role = ''server'', st_sk = ''abc''\<rparr>))"
proof -
  let ?c = "STCPConf \<lparr>st_base = default_base_proxy_conf ''stcp'', st_role = ''server'', st_sk = ''abc''\<rparr>"
  have "well_typed ?c"
    by (simp add: well_typed_def default_base_proxy_conf_def proxy_type_defs)
  from conf_msg_roundtrip [OF this, of get_default_server_conf] show ?thesis
    by (simp add: stcp_check_for_svr_def server_view_def server_base_def default_base_proxy_conf_def
        zero_base_proxy_conf_def)
qed

text \<open>A proxy that the server accepts cannot take another client's subdomain: none of its
  custom domains is a name below the subdomain host, whatever the label, its own subdomain is a
  single label without wildcard, and it has one only when the server offers a subdomain host.\<close>

theorem custom_domain_outside_subdomain_host:
  assumes "check_for_svr sc c = None" and "conf_domain c = Some d"
  shows "(sc_sub_domain_host sc \<noteq> [] \<longrightarrow>
      (\<forall>label. label @ ''.'' @ sc_sub_domain_host sc \<notin> set (elems (dc_custom_domains d)))) \<and>
    CHR ''.'' \<notin> set (dc_subdomain d) \<and> CHR ''*'' \<notin> set (dc_subdomain d) \<and>
    (dc_subdomain d \<noteq> [] \<longrightarrow> sc_sub_domain_host sc \<noteq> []) \<and>
    (elems (dc_custom_domains d) \<noteq> [] \<or> dc_subdomain d \<noteq> [])"
proof -
  have "domain_check_for_svr sc d = None"
    by (rule check_for_svr_domain [OF assms])
  then have c: "check_custom_domains (sc_sub_domain_host sc) (elems (dc_custom_domains d)) = None"
    and rest: "elems (dc_custom_domains d) \<noteq> [] \<or> dc_subdomain d \<noteq> []"
      "dc_subdomain d \<noteq> [] \<longrightarrow> sc_sub_domain_host sc \<noteq> [] \<and>
        CHR ''.'' \<notin> set (dc_subdomain d) \<and> CHR ''*'' \<notin> set (dc_subdomain d)"
    by (auto simp: domain_check_for_svr_def domain_check_def split: if_splits)
  have "CHR ''.'' \<notin> set (dc_subdomain d) \<and> CHR ''*'' \<notin> set (dc_subdomain d)"
    using rest(2) by (cases "dc_subdomain d = []") simp_all
  with rest check_custom_domains_below [OF c] show ?thesis by blast
qed

lemma custom_domain_outside_subdomain_host_witness:
  "''test.frps.com'' \<notin> set (elems (Some [''www.example.org'']))"
proof -
  let ?sc = "get_default_server_conf\<lparr>sc_sub_domain_host := ''frps.com'', sc_vhost_https_port := 443\<rparr>"
  let ?d = "\<lparr>dc_custom_domains = Some [''www.example.org''], dc_subdomain = ''web''\<rparr>"
  let ?c = "HTTPSConf \<lparr>hs_base = default_base_proxy_conf ''https'', hs_domain = ?d\<rparr>"
  have "check_for_svr ?sc ?c = None"
    by (simp add: https_check_for_svr_def domain_check_for_svr_def domain_check_def sublist_code)
  from custom_domain_outside_subdomain_host [OF this, of ?d] show ?thesis
    by (auto dest: spec [of _ "''test''"])
qed

end
