(* ===== verification/Visitor_Conf.thy ===== *)
theory Visitor_Conf
  imports Server_Conf Comparable
begin

text \<open>
  \<^verbatim>\<open>frp/pkg/config/visitor.go\<close>: the configurations of the three visitor types. The Go structs
  embed \<^verbatim>\<open>BaseVisitorConf\<close> and add nothing, so each constructor holds a base.
\<close>

record base_visitor_conf =
  bv_proxy_name :: string
  bv_proxy_type :: string
  bv_use_encryption :: bool
  bv_use_compression :: bool
  bv_role :: string
  bv_sk :: string
  bv_server_name :: string
  bv_bind_addr :: string
  bv_bind_port :: int

datatype visitor_conf =
    SUDPVisitor base_visitor_conf
  | STCPVisitor base_visitor_conf
  | XTCPVisitor base_visitor_conf

definition zero_base_visitor_conf :: base_visitor_conf where
  "zero_base_visitor_conf =
     \<lparr>bv_proxy_name = [], bv_proxy_type = [], bv_use_encryption = False, bv_use_compression = False,
      bv_role = [], bv_sk = [], bv_server_name = [], bv_bind_addr = [], bv_bind_port = 0\<rparr>"

definition default_visitor_conf :: "string \<Rightarrow> visitor_conf option" where
  "default_visitor_conf visitorType =
     (if visitorType = STCPProxy then Some (STCPVisitor zero_base_visitor_conf)
      else if visitorType = XTCPProxy then Some (XTCPVisitor zero_base_visitor_conf)
      else if visitorType = SUDPProxy then Some (SUDPVisitor zero_base_visitor_conf)
      else None)"

fun visitor_base_info :: "visitor_conf \<Rightarrow> base_visitor_conf" where
  "visitor_base_info (SUDPVisitor c) = c"
| "visitor_base_info (STCPVisitor c) = c"
| "visitor_base_info (XTCPVisitor c) = c"

section \<open>\<^verbatim>\<open>BaseVisitorConf\<close>\<close>

definition base_visitor_compare :: "base_visitor_conf \<Rightarrow> base_visitor_conf \<Rightarrow> bool" where
  "base_visitor_compare cfg cmp =
     (if bv_proxy_name cfg \<noteq> bv_proxy_name cmp \<or>
         bv_proxy_type cfg \<noteq> bv_proxy_type cmp \<or>
         bv_use_encryption cfg \<noteq> bv_use_encryption cmp \<or>
         bv_use_compression cfg \<noteq> bv_use_compression cmp \<or>
         bv_role cfg \<noteq> bv_role cmp \<or>
         bv_sk cfg \<noteq> bv_sk cmp \<or>
         bv_server_name cfg \<noteq> bv_server_name cmp \<or>
         bv_bind_addr cfg \<noteq> bv_bind_addr cmp \<or>
         bv_bind_port cfg \<noteq> bv_bind_port cmp then False else True)"

definition base_visitor_check :: "base_visitor_conf \<Rightarrow> conf_error option" where
  "base_visitor_check cfg =
     (if bv_role cfg \<noteq> ''visitor'' then Some InvalidRole
      else if bv_bind_addr cfg = [] then Some BindAddrEmpty
      else if bv_bind_port cfg \<le> 0 then Some BindPortRequired
      else None)"

definition base_visitor_unmarshal_from_ini ::
    "string \<Rightarrow> string \<Rightarrow> base_visitor_conf \<Rightarrow> base_visitor_conf" where
  "base_visitor_unmarshal_from_ini pre name cfg =
     (let cfg1 = cfg\<lparr>bv_proxy_name := pre @ name, bv_server_name := pre @ bv_server_name cfg\<rparr>
      in if bv_bind_addr cfg1 = [] then cfg1\<lparr>bv_bind_addr := ''127.0.0.1''\<rparr> else cfg1)"

definition pre_visitor_unmarshal_from_ini ::
    "('s \<Rightarrow> base_visitor_conf \<Rightarrow> string + base_visitor_conf) \<Rightarrow> string \<Rightarrow> string \<Rightarrow> 's \<Rightarrow>
     base_visitor_conf \<Rightarrow> conf_error + base_visitor_conf" where
  "pre_visitor_unmarshal_from_ini mapto pre name s cfg =
     (case mapto s cfg of
        Inl e \<Rightarrow> Inl (IniError e)
      | Inr cfg' \<Rightarrow> Inr (base_visitor_unmarshal_from_ini pre name cfg'))"

section \<open>\<^verbatim>\<open>SUDPVisitorConf\<close>\<close>

definition sudp_visitor_compare :: "base_visitor_conf \<Rightarrow> visitor_conf \<Rightarrow> bool" where
  "sudp_visitor_compare cfg cmp = (case cmp of SUDPVisitor cmpConf \<Rightarrow>
     (if \<not> base_visitor_compare cfg cmpConf then False else True) | _ \<Rightarrow> False)"

definition sudp_visitor_unmarshal_from_ini ::
    "('s \<Rightarrow> base_visitor_conf \<Rightarrow> string + base_visitor_conf) \<Rightarrow> string \<Rightarrow> string \<Rightarrow> 's \<Rightarrow>
     base_visitor_conf \<Rightarrow> conf_error + base_visitor_conf" where
  "sudp_visitor_unmarshal_from_ini mapto pre name s cfg = pre_visitor_unmarshal_from_ini mapto pre name s cfg"

definition sudp_visitor_check :: "base_visitor_conf \<Rightarrow> conf_error option" where
  "sudp_visitor_check cfg = base_visitor_check cfg"

section \<open>\<^verbatim>\<open>STCPVisitorConf\<close>\<close>

definition stcp_visitor_compare :: "base_visitor_conf \<Rightarrow> visitor_conf \<Rightarrow> bool" where
  "stcp_visitor_compare cfg cmp = (case cmp of STCPVisitor cmpConf \<Rightarrow>
     (if \<not> base_visitor_compare cfg cmpConf then False else True) | _ \<Rightarrow> False)"

definition stcp_visitor_unmarshal_from_ini ::
    "('s \<Rightarrow> base_visitor_conf \<Rightarrow> string + base_visitor_conf) \<Rightarrow> string \<Rightarrow> string \<Rightarrow> 's \<Rightarrow>
     base_visitor_conf \<Rightarrow> conf_error + base_visitor_conf" where
  "stcp_visitor_unmarshal_from_ini mapto pre name s cfg = pre_visitor_unmarshal_from_ini mapto pre name s cfg"

definition stcp_visitor_check :: "base_visitor_conf \<Rightarrow> conf_error option" where
  "stcp_visitor_check cfg = base_visitor_check cfg"

section \<open>\<^verbatim>\<open>XTCPVisitorConf\<close>\<close>

definition xtcp_visitor_compare :: "base_visitor_conf \<Rightarrow> visitor_conf \<Rightarrow> bool" where
  "xtcp_visitor_compare cfg cmp = (case cmp of XTCPVisitor cmpConf \<Rightarrow>
     (if \<not> base_visitor_compare cfg cmpConf then False else True) | _ \<Rightarrow> False)"

definition xtcp_visitor_unmarshal_from_ini ::
    "('s \<Rightarrow> base_visitor_conf \<Rightarrow> string + base_visitor_conf) \<Rightarrow> string \<Rightarrow> string \<Rightarrow> 's \<Rightarrow>
     base_visitor_conf \<Rightarrow> conf_error + base_visitor_conf" where
  "xtcp_visitor_unmarshal_from_ini mapto pre name s cfg = pre_visitor_unmarshal_from_ini mapto pre name s cfg"

definition xtcp_visitor_check :: "base_visitor_conf \<Rightarrow> conf_error option" where
  "xtcp_visitor_check cfg = base_visitor_check cfg"

section \<open>The interface \<^verbatim>\<open>VisitorConf\<close>\<close>

fun visitor_compare :: "visitor_conf \<Rightarrow> visitor_conf \<Rightarrow> bool" where
  "visitor_compare (SUDPVisitor c) cmp = sudp_visitor_compare c cmp"
| "visitor_compare (STCPVisitor c) cmp = stcp_visitor_compare c cmp"
| "visitor_compare (XTCPVisitor c) cmp = xtcp_visitor_compare c cmp"

fun visitor_unmarshal_from_ini :: "('s \<Rightarrow> base_visitor_conf \<Rightarrow> string + base_visitor_conf) \<Rightarrow> string \<Rightarrow> string \<Rightarrow> 's \<Rightarrow>
    visitor_conf \<Rightarrow> conf_error + visitor_conf" where
  "visitor_unmarshal_from_ini mapto pre name s (SUDPVisitor c) =
     map_sum id SUDPVisitor (sudp_visitor_unmarshal_from_ini mapto pre name s c)"
| "visitor_unmarshal_from_ini mapto pre name s (STCPVisitor c) =
     map_sum id STCPVisitor (stcp_visitor_unmarshal_from_ini mapto pre name s c)"
| "visitor_unmarshal_from_ini mapto pre name s (XTCPVisitor c) =
     map_sum id XTCPVisitor (xtcp_visitor_unmarshal_from_ini mapto pre name s c)"

fun visitor_check :: "visitor_conf \<Rightarrow> conf_error option" where
  "visitor_check (SUDPVisitor c) = sudp_visitor_check c"
| "visitor_check (STCPVisitor c) = stcp_visitor_check c"
| "visitor_check (XTCPVisitor c) = xtcp_visitor_check c"

text \<open>Every error of \<^verbatim>\<open>UnmarshalFromIni\<close> is reported as an error of the type.\<close>

definition new_visitor_conf_from_ini ::
    "'s ini_api \<Rightarrow> ('s \<Rightarrow> base_visitor_conf \<Rightarrow> string + base_visitor_conf) \<Rightarrow> string \<Rightarrow> string \<Rightarrow> 's \<Rightarrow>
     conf_error + visitor_conf" where
  "new_visitor_conf_from_ini ini mapto pre name s =
     (let visitorType = ini_key ini s ''type'' in
      if visitorType = [] then Inl (VisitorTypeError name [])
      else case default_visitor_conf visitorType of
        None \<Rightarrow> Inl (VisitorTypeError name visitorType)
      | Some conf0 \<Rightarrow>
          (case visitor_unmarshal_from_ini mapto pre name s conf0 of
             Inl e \<Rightarrow> Inl (VisitorTypeError name visitorType)
           | Inr conf \<Rightarrow> (case visitor_check conf of Some e \<Rightarrow> Inl e | None \<Rightarrow> Inr conf)))"

section \<open>Laws\<close>

lemmas visitor_compare_defs =
  sudp_visitor_compare_def stcp_visitor_compare_def xtcp_visitor_compare_def

lemmas visitor_unmarshal_defs = sudp_visitor_unmarshal_from_ini_def stcp_visitor_unmarshal_from_ini_def
  xtcp_visitor_unmarshal_from_ini_def pre_visitor_unmarshal_from_ini_def

lemmas visitor_check_defs = sudp_visitor_check_def stcp_visitor_check_def xtcp_visitor_check_def

lemma base_visitor_compare_iff: "base_visitor_compare a b \<longleftrightarrow> a = b"
  by (cases a; cases b) (auto simp: base_visitor_compare_def)

lemma visitor_compare_iff: "visitor_compare a b \<longleftrightarrow> a = b"
  by (cases a; cases b) (simp_all add: visitor_compare_defs base_visitor_compare_iff)

interpretation vcmp: comparable visitor_compare "\<lambda>c. c"
  by unfold_locales (rule visitor_compare_iff)

section \<open>Properties\<close>

text \<open>A visitor that is loaded from a section listens on a positive port and a non-empty
  address (the loopback address when none is set), has the role visitor, and carries its own name
  with the user's prefix; the name of the server proxy gets the same prefix, so the two ends of a
  user's secret proxy meet. Two loaded visitors compare equal exactly when they are equal.\<close>

theorem visitor_loaded:
  assumes "new_visitor_conf_from_ini ini mapto pre name s = Inr c"
  shows "bv_role (visitor_base_info c) = ''visitor'' \<and> bv_bind_port (visitor_base_info c) > 0 \<and>
    bv_proxy_name (visitor_base_info c) = pre @ name \<and>
    (\<exists>raw. mapto s zero_base_visitor_conf = Inr raw \<and>
       bv_server_name (visitor_base_info c) = pre @ bv_server_name raw \<and>
       bv_bind_addr (visitor_base_info c) =
         (if bv_bind_addr raw = [] then ''127.0.0.1'' else bv_bind_addr raw)) \<and>
    (\<forall>c'. visitor_compare c c' \<longleftrightarrow> c' = c)"
proof -
  obtain c0 where d: "default_visitor_conf (ini_key ini s ''type'') = Some c0"
    and u: "visitor_unmarshal_from_ini mapto pre name s c0 = Inr c" and k: "visitor_check c = None"
    using assms by (auto simp: new_visitor_conf_from_ini_def Let_def
        split: if_split_asm option.split_asm sum.split_asm)
  obtain raw where r: "mapto s zero_base_visitor_conf = Inr raw"
    and b: "visitor_base_info c = base_visitor_unmarshal_from_ini pre name raw"
    using d u by (auto simp: default_visitor_conf_def visitor_unmarshal_defs
        split: if_split_asm sum.split_asm)
  have "base_visitor_check (visitor_base_info c) = None"
    using k by (cases c) (simp_all add: visitor_check_defs)
  with r b show ?thesis
    by (auto simp: base_visitor_check_def base_visitor_unmarshal_from_ini_def Let_def
        visitor_compare_iff split: if_split_asm)
qed

definition sample_ini :: "unit ini_api" where
  "sample_ini = \<lparr>ini_name = (\<lambda>_. ''ssh_visitor''), ini_key = (\<lambda>_ k. if k = ''type'' then ''stcp'' else []),
     ini_get_key = (\<lambda>_ _. None), ini_keys_hash = (\<lambda>_. fmempty)\<rparr>"

lemma visitor_loaded_witness:
  "bv_bind_port (visitor_base_info (STCPVisitor (zero_base_visitor_conf\<lparr>bv_role := ''visitor'',
     bv_server_name := ''u.ssh'', bv_proxy_name := ''u.v'', bv_bind_addr := ''127.0.0.1'',
     bv_bind_port := 6000\<rparr>))) > 0"
proof -
  let ?raw = "zero_base_visitor_conf\<lparr>bv_role := ''visitor'', bv_server_name := ''ssh'', bv_bind_port := 6000\<rparr>"
  have "new_visitor_conf_from_ini sample_ini (\<lambda>_ _. Inr ?raw) ''u.'' ''v'' () =
      Inr (STCPVisitor (zero_base_visitor_conf\<lparr>bv_role := ''visitor'', bv_server_name := ''u.ssh'',
        bv_proxy_name := ''u.v'', bv_bind_addr := ''127.0.0.1'', bv_bind_port := 6000\<rparr>))"
    by (simp add: new_visitor_conf_from_ini_def sample_ini_def default_visitor_conf_def proxy_type_defs
        visitor_unmarshal_defs visitor_check_defs base_visitor_check_def
        base_visitor_unmarshal_from_ini_def zero_base_visitor_conf_def)
  from visitor_loaded [OF this] show ?thesis by blast
qed

end
