(* ===== verification/Client_Conf.thy ===== *)
theory Client_Conf
  imports Proxy_Conf Visitor_Conf
begin

text \<open>
  \<^verbatim>\<open>frp/pkg/config/client.go\<close>: the client's common configuration, its check, and the loader of all
  proxies and visitors, which first expands the \<^verbatim>\<open>range:\<close> sections. The environment variable
  \<^verbatim>\<open>http_proxy\<close> is an argument.
\<close>

section \<open>The common section\<close>

record client_common_conf =
  cc_auth :: auth_client_config
  cc_server_addr :: string
  cc_server_port :: int
  cc_http_proxy :: string
  cc_log_file :: string
  cc_log_way :: string
  cc_log_level :: string
  cc_log_max_days :: int
  cc_disable_log_color :: bool
  cc_admin_addr :: string
  cc_admin_port :: int
  cc_admin_user :: string
  cc_admin_pwd :: string
  cc_assets_dir :: string
  cc_pool_count :: int
  cc_tcp_mux :: bool
  cc_user :: string
  cc_dns_server :: string
  cc_login_fail_exit :: bool
  cc_start :: "string slice"
  cc_protocol :: string
  cc_tls_enable :: bool
  cc_tls_cert_file :: string
  cc_tls_key_file :: string
  cc_tls_trusted_ca_file :: string
  cc_heartbeat_interval :: int
  cc_heartbeat_timeout :: int
  cc_metas :: str_map
  cc_udp_packet_size :: int

definition get_default_client_conf :: "string \<Rightarrow> client_common_conf" where
  "get_default_client_conf http_proxy =
     \<lparr>cc_auth = default_auth_client_conf, cc_server_addr = ''0.0.0.0'', cc_server_port = 7000,
      cc_http_proxy = http_proxy, cc_log_file = ''console'', cc_log_way = ''console'',
      cc_log_level = ''info'', cc_log_max_days = 3, cc_disable_log_color = False,
      cc_admin_addr = ''127.0.0.1'', cc_admin_port = 0, cc_admin_user = [], cc_admin_pwd = [],
      cc_assets_dir = [], cc_pool_count = 1, cc_tcp_mux = True, cc_user = [], cc_dns_server = [],
      cc_login_fail_exit = True, cc_start = Some [], cc_protocol = ''tcp'', cc_tls_enable = False,
      cc_tls_cert_file = [], cc_tls_key_file = [], cc_tls_trusted_ca_file = [],
      cc_heartbeat_interval = 30, cc_heartbeat_timeout = 90, cc_metas = Some fmempty,
      cc_udp_packet_size = 1500\<rparr>"

text \<open>The warnings that \<^verbatim>\<open>Check\<close> prints are its first component.\<close>

definition client_conf_check :: "client_common_conf \<Rightarrow> string list \<times> conf_error option" where
  "client_conf_check cfg =
     (if cc_heartbeat_interval cfg \<le> 0 then ([], Some InvalidHeartbeatInterval)
      else if cc_heartbeat_timeout cfg < cc_heartbeat_interval cfg then ([], Some InvalidHeartbeatTimeout)
      else if \<not> cc_tls_enable cfg then
        ((if cc_tls_cert_file cfg \<noteq> [] then [''tls_cert_file''] else []) @
         (if cc_tls_key_file cfg \<noteq> [] then [''tls_key_file''] else []) @
         (if cc_tls_trusted_ca_file cfg \<noteq> [] then [''tls_trusted_ca_file''] else []), None)
      else ([], None))"

definition unmarshal_client_conf_from_ini ::
    "('src, 'f, 's) ini_file_api \<Rightarrow> 's ini_api \<Rightarrow>
     ('s \<Rightarrow> client_common_conf \<Rightarrow> string + client_common_conf) \<Rightarrow> string \<Rightarrow> 'src \<Rightarrow>
     conf_error + client_common_conf" where
  "unmarshal_client_conf_from_ini fi ini mapto http_proxy source =
     (case fi_load fi source of
        Inl e \<Rightarrow> Inl (IniError e)
      | Inr f \<Rightarrow>
     (case fi_get_section fi f ''common'' of
        Inl e \<Rightarrow> Inl NoCommonSection
      | Inr s \<Rightarrow>
     (case mapto s (get_default_client_conf http_proxy) of
        Inl e \<Rightarrow> Inl (IniError e)
      | Inr common \<Rightarrow>
          Inr (common\<lparr>cc_metas := get_map_without_prefix (ini_keys_hash ini s) ''meta_''\<rparr>))))"

section \<open>Range sections\<close>

definition copy_section ::
    "('src, 'f, 's) ini_file_api \<Rightarrow> 's ini_api \<Rightarrow> 'f \<Rightarrow> string \<Rightarrow> string \<Rightarrow> 'f" where
  "copy_section fi ini f source target =
     fold (\<lambda>(k, v) f. fi_new_key fi f target k v)
       (fi_range fi (ini_keys_hash ini (fi_section fi f source))) f"

fun render_templates ::
    "('src, 'f, 's) ini_file_api \<Rightarrow> 's ini_api \<Rightarrow> string \<Rightarrow> string \<Rightarrow> nat \<Rightarrow> (int \<times> int) list \<Rightarrow> 'f \<Rightarrow>
     conf_error + 'f" where
  "render_templates fi ini name pre i [] f = Inr f"
| "render_templates fi ini name pre i ((localPort, remotePort) # ps) f =
     (let tmpname = pre @ ''_'' @ nat_str i in
      case fi_new_section fi f tmpname of
        Inl e \<Rightarrow> Inl (IniError e)
      | Inr f1 \<Rightarrow>
          let f2 = copy_section fi ini f1 name tmpname;
              f3 = fi_new_key fi f2 tmpname ''local_port'' (int_str localPort);
              f4 = fi_new_key fi f3 tmpname ''remote_port'' (int_str remotePort)
          in render_templates fi ini name pre (i + 1) ps f4)"

definition range_prefix :: "string \<Rightarrow> string" where
  "range_prefix name = trim_space (trim_prefix ''range:'' name)"

definition render_range_proxy_templates ::
    "('src, 'f, 's) ini_file_api \<Rightarrow> 's ini_api \<Rightarrow> 'f \<Rightarrow> string \<Rightarrow> (conf_error + 'f) option" where
  "render_range_proxy_templates fi ini f name =
     (let s = fi_section fi f name;
          localPortStr = ini_key ini s ''local_port'';
          remotePortStr = ini_key ini s ''remote_port''
      in if localPortStr = [] \<or> remotePortStr = [] then Some (Inl RangePortsEmpty)
         else case parse_range_numbers localPortStr of
           None \<Rightarrow> None
         | Some (Inl e) \<Rightarrow> Some (Inl (RangePorts e))
         | Some (Inr localPorts) \<Rightarrow>
        (case parse_range_numbers remotePortStr of
           None \<Rightarrow> None
         | Some (Inl e) \<Rightarrow> Some (Inl (RangePorts e))
         | Some (Inr remotePorts) \<Rightarrow>
             if length localPorts \<noteq> length remotePorts then Some (Inl RangePortsNumber)
             else if length localPorts = 0 then Some (Inl RangePortsNecessary)
             else Some (render_templates fi ini name (range_prefix (ini_name ini s)) 0
                          (zip localPorts remotePorts) f)))"

fun render_range_sections ::
    "('src, 'f, 's) ini_file_api \<Rightarrow> 's ini_api \<Rightarrow> string list \<Rightarrow> 'f \<Rightarrow> (conf_error + 'f) option" where
  "render_range_sections fi ini [] f = Some (Inr f)"
| "render_range_sections fi ini (n # ns) f =
     (case render_range_proxy_templates fi ini f n of
        None \<Rightarrow> None
      | Some (Inl e) \<Rightarrow> Some (Inl (RangeSection n e))
      | Some (Inr f') \<Rightarrow> render_range_sections fi ini ns f')"

section \<open>All proxies and visitors\<close>

record ('s, 'f) loader_api =
  la_float :: "'f float_api"
  la_ini :: "'s ini_api"
  la_proxy :: "'s map_to_api"
  la_visitor :: "'s \<Rightarrow> base_visitor_conf \<Rightarrow> string + base_visitor_conf"

type_synonym confs = "(string \<rightharpoonup> proxy_conf) \<times> (string \<rightharpoonup> visitor_conf)"

text \<open>\<open>section_enabled start name\<close>: no start list, or the section is in it.\<close>

definition section_enabled :: "string list \<Rightarrow> string \<Rightarrow> bool" where
  "section_enabled start name \<longleftrightarrow> start = [] \<or> name \<in> set start"

definition special_section :: "string \<Rightarrow> bool" where
  "special_section name \<longleftrightarrow> name = ''DEFAULT'' \<or> name = ''common'' \<or> prefix ''range:'' name"

definition load_section ::
    "('s, 'f) loader_api \<Rightarrow> string \<Rightarrow> string list \<Rightarrow> 's \<Rightarrow> confs \<Rightarrow> conf_error + confs" where
  "load_section la pre start s acc =
     (let name = ini_name (la_ini la) s; proxyConfs = fst acc; visitorConfs = snd acc in
      if special_section name then Inr acc
      else if \<not> section_enabled start name then Inr acc
      else
        let roleType = (if ini_key (la_ini la) s ''role'' = [] then ''server''
                        else ini_key (la_ini la) s ''role'') in
        if roleType = ''server'' then
          (case new_proxy_conf_from_ini (la_float la) (la_ini la) (la_proxy la) pre name s of
             Inl e \<Rightarrow> Inl (ParseSection name e)
           | Inr newConf \<Rightarrow> Inr (proxyConfs(pre @ name \<mapsto> newConf), visitorConfs))
        else if roleType = ''visitor'' then
          (case new_visitor_conf_from_ini (la_ini la) (la_visitor la) pre name s of
             Inl e \<Rightarrow> Inl e
           | Inr newConf \<Rightarrow> Inr (proxyConfs, visitorConfs(pre @ name \<mapsto> newConf)))
        else Inl (BadRole name))"

definition user_prefix :: "string \<Rightarrow> string" where
  "user_prefix user = (if user \<noteq> [] then user @ ''.'' else user)"

definition load_all_proxy_confs_from_ini ::
    "('src, 'f, 's) ini_file_api \<Rightarrow> ('s, 'g) loader_api \<Rightarrow> string \<Rightarrow> 'src \<Rightarrow> string list \<Rightarrow>
     (conf_error + confs) option" where
  "load_all_proxy_confs_from_ini fi la pre0 source start =
     (case fi_load fi source of
        Inl e \<Rightarrow> Some (Inl (IniError e))
      | Inr f \<Rightarrow>
          let pre = user_prefix pre0;
              rangeSections = filter (\<lambda>n. prefix ''range:'' n) (fi_sections fi f)
          in case render_range_sections fi (la_ini la) rangeSections f of
               None \<Rightarrow> None
             | Some (Inl e) \<Rightarrow> Some (Inl e)
             | Some (Inr f') \<Rightarrow>
                 Some (fold_err (load_section la pre start)
                   (map (fi_section fi f') (fi_sections fi f')) (Map.empty, Map.empty)))"


section \<open>What the range sections expand to\<close>

text \<open>
  The documented behaviour of the ini library that the expansion relies on: \<^verbatim>\<open>NewSection\<close> and \<^verbatim>\<open>NewKey\<close>
  leave other sections alone, and a key that was set to a text without \<^verbatim>\<open>%\<close> is read back.
\<close>

definition ini_file_laws :: "('src, 'f, 's) ini_file_api \<Rightarrow> 's ini_api \<Rightarrow> bool" where
  "ini_file_laws fi ini \<longleftrightarrow>
     (\<forall>f n f' m. fi_new_section fi f n = Inr f' \<longrightarrow> m \<noteq> n \<longrightarrow> fi_section fi f' m = fi_section fi f m) \<and>
     (\<forall>f n k v m. m \<noteq> n \<longrightarrow> fi_section fi (fi_new_key fi f n k v) m = fi_section fi f m) \<and>
     (\<forall>f n k v k'. CHR ''%'' \<notin> set v \<longrightarrow>
        ini_key ini (fi_section fi (fi_new_key fi f n k v) n) k' =
          (if k' = k then v else ini_key ini (fi_section fi f n) k'))"

lemma ini_new_section_frame:
  "ini_file_laws fi ini \<Longrightarrow> fi_new_section fi f n = Inr f' \<Longrightarrow> m \<noteq> n \<Longrightarrow>
   fi_section fi f' m = fi_section fi f m"
  unfolding ini_file_laws_def by blast

lemma ini_new_key_frame:
  "ini_file_laws fi ini \<Longrightarrow> m \<noteq> n \<Longrightarrow> fi_section fi (fi_new_key fi f n k v) m = fi_section fi f m"
  unfolding ini_file_laws_def by blast

lemma ini_new_key_read:
  "ini_file_laws fi ini \<Longrightarrow> CHR ''%'' \<notin> set v \<Longrightarrow>
   ini_key ini (fi_section fi (fi_new_key fi f n k v) n) k' =
     (if k' = k then v else ini_key ini (fi_section fi f n) k')"
  unfolding ini_file_laws_def by blast

lemma copy_section_frame:
  assumes "ini_file_laws fi ini" and "m \<noteq> target"
  shows "fi_section fi (copy_section fi ini f source target) m = fi_section fi f m"
proof -
  have "fi_section fi (fold (\<lambda>(k, v) f. fi_new_key fi f target k v) kvs f) m = fi_section fi f m" for kvs
    using assms by (induction kvs arbitrary: f) (auto simp: ini_new_key_frame)
  then show ?thesis by (simp add: copy_section_def)
qed

lemma int_str_no_percent: "CHR ''%'' \<notin> set (int_str i)"
proof -
  have "CHR ''%'' \<notin> set (nat_str n)" for n
    by (rule nat_str_free) simp
  then show ?thesis by (simp add: int_str_def)
qed

definition template_name :: "string \<Rightarrow> nat \<Rightarrow> string" where
  "template_name pre i = pre @ ''_'' @ nat_str i"

lemma template_name_inj: "template_name pre i = template_name pre j \<longleftrightarrow> i = j"
  using nat_str_inj by (auto simp: template_name_def)

lemma render_templates_step:
  assumes "render_templates fi ini name pre i ((l, r) # ps) f = Inr f'" and "ini_file_laws fi ini"
  obtains g where "render_templates fi ini name pre (i + 1) ps g = Inr f'"
    and "ini_key ini (fi_section fi g (template_name pre i)) ''local_port'' = int_str l"
    and "ini_key ini (fi_section fi g (template_name pre i)) ''remote_port'' = int_str r"
    and "\<And>m. m \<noteq> template_name pre i \<Longrightarrow> fi_section fi g m = fi_section fi f m"
proof -
  let ?n = "template_name pre i"
  from assms(1) obtain f1 where f1: "fi_new_section fi f ?n = Inr f1"
    by (auto simp: template_name_def Let_def split: sum.split_asm)
  define f2 where "f2 = copy_section fi ini f1 name ?n"
  define f3 where "f3 = fi_new_key fi f2 ?n ''local_port'' (int_str l)"
  define g where "g = fi_new_key fi f3 ?n ''remote_port'' (int_str r)"
  have "render_templates fi ini name pre (i + 1) ps g = Inr f'"
    using assms(1) f1 by (simp add: template_name_def g_def f3_def f2_def Let_def)
  moreover have "ini_key ini (fi_section fi g ?n) ''local_port'' = int_str l"
    by (simp add: g_def f3_def ini_new_key_read [OF assms(2) int_str_no_percent])
  moreover have "ini_key ini (fi_section fi g ?n) ''remote_port'' = int_str r"
    by (simp add: g_def ini_new_key_read [OF assms(2) int_str_no_percent])
  moreover have "fi_section fi g m = fi_section fi f m" if "m \<noteq> ?n" for m
    using that assms(2) f1
    by (simp add: g_def f3_def f2_def ini_new_key_frame copy_section_frame ini_new_section_frame)
  ultimately show thesis by (rule that)
qed

lemma render_templates_ports:
  assumes "ini_file_laws fi ini" and "render_templates fi ini name pre i ps f = Inr f'"
  shows "(\<forall>j < length ps.
      ini_key ini (fi_section fi f' (template_name pre (i + j))) ''local_port'' = int_str (fst (ps ! j)) \<and>
      ini_key ini (fi_section fi f' (template_name pre (i + j))) ''remote_port'' = int_str (snd (ps ! j))) \<and>
    (\<forall>m. (\<forall>j \<ge> i. m \<noteq> template_name pre j) \<longrightarrow> fi_section fi f' m = fi_section fi f m)"
  using assms(2)
proof (induction ps arbitrary: i f)
  case Nil
  then show ?case by simp
next
  case (Cons p ps)
  obtain l r where p: "p = (l, r)" by (cases p)
  from Cons.prems [unfolded p] assms(1) obtain g where
    rest: "render_templates fi ini name pre (i + 1) ps g = Inr f'"
    and lp: "ini_key ini (fi_section fi g (template_name pre i)) ''local_port'' = int_str l"
    and rp: "ini_key ini (fi_section fi g (template_name pre i)) ''remote_port'' = int_str r"
    and frame: "\<And>m. m \<noteq> template_name pre i \<Longrightarrow> fi_section fi g m = fi_section fi f m"
    by (rule render_templates_step) blast
  note IH = Cons.IH [OF rest]
  have here: "fi_section fi f' (template_name pre i) = fi_section fi g (template_name pre i)"
    using IH by (simp add: template_name_inj)
  have "ini_key ini (fi_section fi f' (template_name pre (i + j))) ''local_port'' = int_str (fst ((p # ps) ! j)) \<and>
      ini_key ini (fi_section fi f' (template_name pre (i + j))) ''remote_port'' = int_str (snd ((p # ps) ! j))"
    if "j < length (p # ps)" for j
    using that IH here lp rp p by (cases j) auto
  moreover have "fi_section fi f' m = fi_section fi f m" if "\<forall>j \<ge> i. m \<noteq> template_name pre j" for m
    using that IH frame by auto
  ultimately show ?case by blast
qed

section \<open>What the loaded maps hold\<close>

definition confs_ok :: "string \<Rightarrow> string list \<Rightarrow> confs \<Rightarrow> bool" where
  "confs_ok pre start acc \<longleftrightarrow>
     (\<forall>k c. fst acc k = Some c \<longrightarrow> check_for_cli c = None \<and> bp_proxy_name (get_base_info c) = k \<and>
        (\<exists>n. k = pre @ n \<and> section_enabled start n \<and> \<not> special_section n)) \<and>
     (\<forall>k v. snd acc k = Some v \<longrightarrow> visitor_check v = None \<and> bv_proxy_name (visitor_base_info v) = k \<and>
        (\<exists>n. k = pre @ n \<and> section_enabled start n \<and> \<not> special_section n))"

lemma pre_unmarshal_name:
  "pre_unmarshal_from_ini fl ini mapto getb setb pre name s cfg = Inr c \<Longrightarrow>
   (\<And>b d. getb (setb b d) = b) \<Longrightarrow> bp_proxy_name (getb c) = pre @ name"
  by (auto simp: pre_unmarshal_from_ini_def base_decorate_def Let_def split: sum.split_asm option.split_asm)

lemma map_sum_eq_Inr: "map_sum id f r = Inr y \<longleftrightarrow> (\<exists>x. r = Inr x \<and> y = f x)"
  by (cases r) auto

lemma http_unmarshal_name:
  "http_unmarshal_from_ini fl ini mt pre name s c = Inr x \<Longrightarrow> bp_proxy_name (ht_base x) = pre @ name"
  by (auto simp: http_unmarshal_from_ini_def split: sum.split_asm dest!: pre_unmarshal_name)

lemma stcp_unmarshal_name:
  "stcp_unmarshal_from_ini fl ini mt pre name s c = Inr x \<Longrightarrow> bp_proxy_name (st_base x) = pre @ name"
  by (auto simp: stcp_unmarshal_from_ini_def split: sum.split_asm if_split_asm dest!: pre_unmarshal_name)

lemma xtcp_unmarshal_name:
  "xtcp_unmarshal_from_ini fl ini mt pre name s c = Inr x \<Longrightarrow> bp_proxy_name (xt_base x) = pre @ name"
  by (auto simp: xtcp_unmarshal_from_ini_def split: sum.split_asm if_split_asm dest!: pre_unmarshal_name)

lemma unmarshal_from_ini_name:
  "unmarshal_from_ini fl ini mt pre name s c0 = Inr c \<Longrightarrow> bp_proxy_name (get_base_info c) = pre @ name"
  by (cases c0)
    (auto simp: tcp_unmarshal_from_ini_def tcpmux_unmarshal_from_ini_def udp_unmarshal_from_ini_def
      https_unmarshal_from_ini_def sudp_unmarshal_from_ini_def map_sum_eq_Inr
      dest!: pre_unmarshal_name http_unmarshal_name stcp_unmarshal_name xtcp_unmarshal_name)

lemma new_proxy_conf_from_ini_OkD:
  assumes "new_proxy_conf_from_ini fl ini mt pre name s = Inr c"
  shows "check_for_cli c = None \<and> bp_proxy_name (get_base_info c) = pre @ name"
proof -
  let ?t = "if ini_key ini s ''type'' = [] then TCPProxy else ini_key ini s ''type''"
  obtain c0 where d: "default_proxy_conf ?t = Some c0"
    using assms by (cases "default_proxy_conf ?t") (simp_all add: new_proxy_conf_from_ini_def)
  obtain c1 where u: "unmarshal_from_ini fl ini mt pre name s c0 = Inr c1"
    using assms d by (cases "unmarshal_from_ini fl ini mt pre name s c0")
      (simp_all add: new_proxy_conf_from_ini_def)
  have k: "check_for_cli c1 = None" "c = c1"
    using assms d u by (cases "check_for_cli c1"; simp add: new_proxy_conf_from_ini_def)+
  from unmarshal_from_ini_name [OF u] k show ?thesis by simp
qed

lemma new_visitor_conf_from_ini_OkD:
  assumes "new_visitor_conf_from_ini ini mapto pre name s = Inr v"
  shows "visitor_check v = None \<and> bv_proxy_name (visitor_base_info v) = pre @ name"
proof -
  obtain v0 where v0: "visitor_unmarshal_from_ini mapto pre name s v0 = Inr v" and k: "visitor_check v = None"
    using assms by (auto simp: new_visitor_conf_from_ini_def Let_def
        split: if_split_asm option.split_asm sum.split_asm simp del: visitor_unmarshal_from_ini.simps)
  from v0 have "bv_proxy_name (visitor_base_info v) = pre @ name"
    by (cases v0) (auto simp: visitor_unmarshal_defs map_sum_eq_Inr base_visitor_unmarshal_from_ini_def
        Let_def split: sum.split_asm)
  with k show ?thesis by blast
qed

lemma load_section_ok [frp_inv]:
  assumes "confs_ok pre start acc" and "load_section la pre start s acc = Inr acc'"
  shows "confs_ok pre start acc'"
proof -
  let ?n = "ini_name (la_ini la) s"
  from assms(2) consider "acc' = acc"
    | c where "new_proxy_conf_from_ini (la_float la) (la_ini la) (la_proxy la) pre ?n s = Inr c"
        "acc' = ((fst acc)(pre @ ?n \<mapsto> c), snd acc)" "\<not> special_section ?n" "section_enabled start ?n"
    | v where "new_visitor_conf_from_ini (la_ini la) (la_visitor la) pre ?n s = Inr v"
        "acc' = (fst acc, (snd acc)(pre @ ?n \<mapsto> v))" "\<not> special_section ?n" "section_enabled start ?n"
    by (auto simp: load_section_def Let_def split: if_split_asm sum.split_asm)
  then show ?thesis
  proof cases
    case 1
    with assms(1) show ?thesis by simp
  next
    case 2
    with assms(1) new_proxy_conf_from_ini_OkD [OF 2(1)] show ?thesis
      unfolding confs_ok_def by auto
  next
    case 3
    with assms(1) new_visitor_conf_from_ini_OkD [OF 3(1)] show ?thesis
      unfolding confs_ok_def by auto
  qed
qed

section \<open>Properties\<close>



text \<open>A range section expands position by position: when the numbers of local and remote ports
  agree, the section \<^verbatim>\<open><prefix>_j\<close> of the rewritten file has the j-th local port and the j-th remote
  port, and every section that is not named after the template is as before; when they differ the
  file is refused. The expansion always ends.\<close>

theorem range_section_expanded:
  assumes "ini_file_laws fi ini"
    and "ls \<noteq> []" "\<forall>(a, b) \<in> set ls. a \<le> b \<and> b < 2 ^ 63 - 1"
    and "rs \<noteq> []" "\<forall>(a, b) \<in> set rs. a \<le> b \<and> b < 2 ^ 63 - 1"
    and "ini_key ini (fi_section fi f name) ''local_port'' = render_ranges ls"
    and "ini_key ini (fi_section fi f name) ''remote_port'' = render_ranges rs"
    and "pre = range_prefix (ini_name ini (fi_section fi f name))"
  shows "\<exists>r. render_range_proxy_templates fi ini f name = Some r \<and>
    (length (range_numbers ls) \<noteq> length (range_numbers rs) \<longrightarrow> r = Inl RangePortsNumber) \<and>
    (\<forall>f'. r = Inr f' \<longrightarrow> length (range_numbers ls) = length (range_numbers rs) \<and>
      (\<forall>j < length (range_numbers ls).
        ini_key ini (fi_section fi f' (template_name pre j)) ''local_port'' = int_str (range_numbers ls ! j) \<and>
        ini_key ini (fi_section fi f' (template_name pre j)) ''remote_port'' = int_str (range_numbers rs ! j)) \<and>
      (\<forall>m. (\<forall>j. m \<noteq> template_name pre j) \<longrightarrow> fi_section fi f' m = fi_section fi f m))"
proof -
  have ne: "render_ranges ls \<noteq> []" "render_ranges rs \<noteq> []"
    using render_ranges_not_Nil assms(2,4) by blast+
  have pos: "length (range_numbers ls) \<noteq> 0" by (rule range_numbers_not_Nil [OF assms(2,3)])
  note parse = parse_render_ranges [OF assms(2,3)] parse_render_ranges [OF assms(4,5)]
  show ?thesis
  proof (cases "length (range_numbers ls) = length (range_numbers rs)")
    case False
    then show ?thesis
      using ne parse by (simp add: render_range_proxy_templates_def Let_def assms(6,7))
  next
    case True
    let ?ps = "zip (range_numbers ls) (range_numbers rs)"
    have "render_range_proxy_templates fi ini f name = Some (render_templates fi ini name pre 0 ?ps f)"
      using True ne parse pos by (simp add: render_range_proxy_templates_def Let_def assms(6-8))
    then show ?thesis
      using True render_templates_ports [OF assms(1), of name pre 0 ?ps f] by auto
  qed
qed

text \<open>A file of the ini library as a list of names and a map of keys.\<close>

definition sample_file_api :: "(unit, string list \<times> (string \<Rightarrow> string \<Rightarrow> string),
    string \<times> (string \<Rightarrow> string)) ini_file_api" where
  "sample_file_api =
     \<lparr>fi_load = (\<lambda>_. Inr ([''range:p''], \<lambda>n k.
        if k = ''local_port'' then ''6000-6001,6010'' else if k = ''remote_port'' then ''7000-7002'' else [])),
      fi_get_section = (\<lambda>f n. Inr (n, snd f n)), fi_sections = fst, fi_section = (\<lambda>f n. (n, snd f n)),
      fi_new_section = (\<lambda>f n. Inr (if n \<in> set (fst f) then f else (fst f @ [n], (snd f)(n := \<lambda>_. [])))),
      fi_new_key = (\<lambda>f n k v. (fst f, (snd f)(n := (snd f n)(k := v)))), fi_range = (\<lambda>_. [])\<rparr>"

definition sample_section_api :: "(string \<times> (string \<Rightarrow> string)) ini_api" where
  "sample_section_api = \<lparr>ini_name = fst, ini_key = snd, ini_get_key = (\<lambda>s k. None), ini_keys_hash = (\<lambda>_. fmempty)\<rparr>"

lemma sample_file_laws: "ini_file_laws sample_file_api sample_section_api"
  by (auto simp: ini_file_laws_def sample_file_api_def sample_section_api_def split: if_split_asm)

definition sample_range_file :: "string list \<times> (string \<Rightarrow> string \<Rightarrow> string)" where
  "sample_range_file = ([''range:p''], \<lambda>n k.
     if k = ''local_port'' then render_ranges [(6000, 6001), (6010, 6010)]
     else if k = ''remote_port'' then render_ranges [(7000, 7002)] else [])"

lemma range_section_expanded_witness:
  "\<exists>r. render_range_proxy_templates sample_file_api sample_section_api sample_range_file ''range:p'' = Some r"
proof -
  let ?ls = "[(6000, 6001), (6010, 6010)] :: (nat \<times> nat) list"
  let ?rs = "[(7000, 7002)] :: (nat \<times> nat) list"
  have k: "ini_key sample_section_api (fi_section sample_file_api sample_range_file ''range:p'') ''local_port'' =
      render_ranges ?ls"
    "ini_key sample_section_api (fi_section sample_file_api sample_range_file ''range:p'') ''remote_port'' =
      render_ranges ?rs"
    by (simp_all add: sample_file_api_def sample_section_api_def sample_range_file_def del: render_range.simps)
  have v: "\<forall>(a, b) \<in> set ?ls. a \<le> b \<and> b < 2 ^ 63 - 1" "\<forall>(a, b) \<in> set ?rs. a \<le> b \<and> b < 2 ^ 63 - 1"
    by simp_all
  show ?thesis
    using range_section_expanded [OF sample_file_laws _ v(1) _ v(2) k refl] by blast
qed

definition sample_loader :: "(string \<times> (string \<Rightarrow> string), int) loader_api" where
  "sample_loader = \<lparr>la_float = \<lparr>fl_parse = (\<lambda>_. Inl []), fl_scale = (\<lambda>_ _. 0)\<rparr>, la_ini = sample_section_api,
     la_proxy = \<lparr>mt_tcp = (\<lambda>s c. Inr (c\<lparr>tc_base := (tc_base c)\<lparr>bp_local_svr := (bp_local_svr (tc_base c))\<lparr>ls_local_port := 22\<rparr>\<rparr>,
         tc_remote_port := 6000\<rparr>)),
       mt_tcpmux = (\<lambda>s c. Inr c), mt_udp = (\<lambda>s c. Inr c), mt_http = (\<lambda>s c. Inr c), mt_https = (\<lambda>s c. Inr c),
       mt_stcp = (\<lambda>s c. Inr c), mt_xtcp = (\<lambda>s c. Inr c), mt_sudp = (\<lambda>s c. Inr c)\<rparr>,
     la_visitor = (\<lambda>s c. Inr c)\<rparr>"

definition sample_plain_file_api :: "(unit, string list \<times> (string \<Rightarrow> string \<Rightarrow> string),
    string \<times> (string \<Rightarrow> string)) ini_file_api" where
  "sample_plain_file_api = sample_file_api\<lparr>fi_load := (\<lambda>_. Inr ([''DEFAULT'', ''ssh''], \<lambda>n k. []))\<rparr>"


end
