(* ===== verification/Ports.thy ===== *)
theory Ports
  imports Prelude
begin

text \<open>
  \<^verbatim>\<open>frp/server/ports/ports.go\<close>: the manager of the remote ports. The contexts \<^verbatim>\<open>*PortCtx\<close> are
  shared between the maps of used and of reserved ports and are changed through either, so they
  live in a heap and the maps hold their addresses. Whether the operating system lets a port be
  opened (\<^verbatim>\<open>isPortAvailable\<close>) is an argument \<open>avail i p\<close>, \<open>i\<close> counting the attempts of one call; the
  order of the range over the free ports and the clock (nanoseconds) are arguments too. Each
  operation runs under the manager's mutex, so it is one step.
\<close>

section \<open>State\<close>

definition MinPort :: int where "MinPort = 1"
definition MaxPort :: int where "MaxPort = 65535"
definition MaxPortReservedDuration :: int where "MaxPortReservedDuration = 24 * 3600 * 1000000000"

datatype port_error = ErrPortAlreadyUsed | ErrPortNotAllowed | ErrPortUnAvailable | ErrNoAvailablePort

record port_ctx =
  px_proxy_name :: string
  px_port :: int
  px_closed :: bool
  px_update_time :: int

record port_mgr =
  pm_reserved :: "string \<rightharpoonup> nat"
  pm_used :: "int \<rightharpoonup> nat"
  pm_free :: "int set"
  pm_heap :: "nat \<rightharpoonup> port_ctx"
  pm_next :: nat

text \<open>An empty set of allowed ports means all of them.\<close>

definition allowed_ports :: "int set \<Rightarrow> int set" where
  "allowed_ports allow = (if allow \<noteq> {} then allow else {MinPort..MaxPort})"

definition new_port_manager :: "int set \<Rightarrow> port_mgr" where
  "new_port_manager allow =
     \<lparr>pm_reserved = Map.empty, pm_used = Map.empty, pm_free = allowed_ports allow,
      pm_heap = Map.empty, pm_next = 0\<rparr>"

section \<open>\<^verbatim>\<open>Acquire\<close>\<close>

definition alloc_ctx :: "port_ctx \<Rightarrow> port_mgr \<Rightarrow> port_mgr \<times> nat" where
  "alloc_ctx c pm = (pm\<lparr>pm_heap := (pm_heap pm)(pm_next pm \<mapsto> c), pm_next := pm_next pm + 1\<rparr>, pm_next pm)"

definition take_port :: "string \<Rightarrow> nat \<Rightarrow> int \<Rightarrow> port_mgr \<Rightarrow> port_mgr" where
  "take_port name r port pm =
     pm\<lparr>pm_used := (pm_used pm)(port \<mapsto> r), pm_reserved := (pm_reserved pm)(name \<mapsto> r),
        pm_free := pm_free pm - {port}\<rparr>"

text \<open>The range over the free ports: at most five ports are tried.\<close>

fun random_port :: "(nat \<Rightarrow> int \<Rightarrow> bool) \<Rightarrow> nat \<Rightarrow> int list \<Rightarrow> int option" where
  "random_port avail count [] = None"
| "random_port avail count (k # ks) =
     (if count + 1 > 5 then None
      else if avail (count + 1) k then Some k
      else random_port avail (count + 1) ks)"

text \<open>The deferred function: the context learns the port when the call succeeds.\<close>

definition set_ctx_port :: "nat \<Rightarrow> int \<Rightarrow> port_mgr \<Rightarrow> port_mgr" where
  "set_ctx_port r port pm =
     (case pm_heap pm r of
        None \<Rightarrow> pm
      | Some c \<Rightarrow> pm\<lparr>pm_heap := (pm_heap pm)(r \<mapsto> c\<lparr>px_port := port\<rparr>)\<rparr>)"

definition reserved_port :: "port_mgr \<Rightarrow> string \<Rightarrow> int option" where
  "reserved_port pm name =
     (case pm_reserved pm name of
        None \<Rightarrow> None
      | Some r \<Rightarrow> (case pm_heap pm r of None \<Rightarrow> None | Some c \<Rightarrow> Some (px_port c)))"

definition acquire_body ::
    "(nat \<Rightarrow> int \<Rightarrow> bool) \<Rightarrow> int list \<Rightarrow> string \<Rightarrow> int \<Rightarrow> nat \<Rightarrow> port_mgr \<Rightarrow> port_mgr \<times> int \<times> port_error option" where
  "acquire_body avail ks name port r pm =
     (if port = 0 then
        (case (case reserved_port pm name of
                 None \<Rightarrow> None | Some p \<Rightarrow> if avail 0 p then Some p else None) of
           Some p \<Rightarrow> (take_port name r p pm, p, None)
         | None \<Rightarrow>
             (case random_port avail 0 ks of
                None \<Rightarrow> (pm, 0, Some ErrNoAvailablePort)
              | Some k \<Rightarrow> (take_port name r k pm, k, if k = 0 then Some ErrNoAvailablePort else None)))
      else if port \<in> pm_free pm then
        (if avail 0 port then (take_port name r port pm, port, None)
         else (pm, 0, Some ErrPortUnAvailable))
      else if port \<in> dom (pm_used pm) then (pm, 0, Some ErrPortAlreadyUsed)
      else (pm, 0, Some ErrPortNotAllowed))"

definition acquire ::
    "(nat \<Rightarrow> int \<Rightarrow> bool) \<Rightarrow> int list \<Rightarrow> int \<Rightarrow> string \<Rightarrow> int \<Rightarrow> port_mgr \<Rightarrow> port_mgr \<times> int \<times> port_error option" where
  "acquire avail ks now name port pm =
     (let (pm1, r) = alloc_ctx \<lparr>px_proxy_name = name, px_port = 0, px_closed = False, px_update_time = now\<rparr> pm;
          (pm2, realPort, err) = acquire_body avail ks name port r pm1
      in (if err = None then set_ctx_port r realPort pm2 else pm2, realPort, err))"

section \<open>\<^verbatim>\<open>Release\<close> and the cleaning worker\<close>

definition release :: "int \<Rightarrow> int \<Rightarrow> port_mgr \<Rightarrow> port_mgr" where
  "release now port pm =
     (case pm_used pm port of
        None \<Rightarrow> pm
      | Some r \<Rightarrow>
          pm\<lparr>pm_free := insert port (pm_free pm), pm_used := (pm_used pm)(port := None),
             pm_heap := (case pm_heap pm r of
                None \<Rightarrow> pm_heap pm
              | Some c \<Rightarrow> (pm_heap pm)(r \<mapsto> c\<lparr>px_closed := True, px_update_time := now\<rparr>))\<rparr>)"

definition stale_ctx :: "int \<Rightarrow> port_ctx \<Rightarrow> bool" where
  "stale_ctx now c \<longleftrightarrow> px_closed c \<and> now - px_update_time c > MaxPortReservedDuration"

text \<open>One round of \<^verbatim>\<open>cleanReservedPortsWorker\<close>.\<close>

definition clean_reserved :: "int \<Rightarrow> port_mgr \<Rightarrow> port_mgr" where
  "clean_reserved now pm =
     pm\<lparr>pm_reserved := (\<lambda>name. case pm_reserved pm name of
          None \<Rightarrow> None
        | Some r \<Rightarrow> (case pm_heap pm r of
             None \<Rightarrow> Some r
           | Some c \<Rightarrow> if stale_ctx now c then None else Some r))\<rparr>"

section \<open>Steps\<close>

datatype port_event =
    Acquired string int int int "port_error option"   \<comment> \<open>name, requested port, time, port, error\<close>
  | Released int int
  | Cleaned int

inductive port_step :: "port_mgr \<Rightarrow> port_event \<Rightarrow> port_mgr \<Rightarrow> bool" where
  step_acquire: "distinct ks \<Longrightarrow> set ks = pm_free pm \<Longrightarrow> acquire avail ks now name port pm = (pm', p, e) \<Longrightarrow>
     port_step pm (Acquired name port now p e) pm'"
| step_release: "port_step pm (Released port now) (release now port pm)"
| step_clean: "port_step pm (Cleaned now) (clean_reserved now pm)"

inductive port_run :: "port_mgr \<Rightarrow> port_event list \<Rightarrow> port_mgr \<Rightarrow> bool" where
  run_none: "port_run pm [] pm"
| run_step: "port_run pm es pm' \<Longrightarrow> port_step pm' e pm'' \<Longrightarrow> port_run pm (es @ [e]) pm''"

inductive_cases step_acquireE: "port_step pm (Acquired name port now p e) pm'"
inductive_simps step_release_iff: "port_step pm (Released port now) pm'"
inductive_simps step_clean_iff: "port_step pm (Cleaned now) pm'"

section \<open>Invariant\<close>

definition pm_inv :: "int set \<Rightarrow> port_mgr \<Rightarrow> bool" where
  "pm_inv allow pm \<longleftrightarrow>
     dom (pm_used pm) \<inter> pm_free pm = {} \<and>
     dom (pm_used pm) \<union> pm_free pm = allowed_ports allow \<and>
     (\<forall>p r. pm_used pm p = Some r \<longrightarrow> r < pm_next pm \<and>
        (\<exists>c. pm_heap pm r = Some c \<and> px_port c = p \<and> \<not> px_closed c)) \<and>
     (\<forall>n r. pm_reserved pm n = Some r \<longrightarrow> r < pm_next pm \<and>
        (\<exists>c. pm_heap pm r = Some c \<and> px_port c \<in> allowed_ports allow \<and> px_proxy_name c = n)) \<and>
     (\<forall>r c. pm_heap pm r = Some c \<longrightarrow> r < pm_next pm)"

lemma pm_inv_usedD:
  "pm_inv allow pm \<Longrightarrow> pm_used pm p = Some r \<Longrightarrow>
   r < pm_next pm \<and> (\<exists>c. pm_heap pm r = Some c \<and> px_port c = p \<and> \<not> px_closed c)"
  unfolding pm_inv_def by blast

lemma pm_inv_reservedD:
  "pm_inv allow pm \<Longrightarrow> pm_reserved pm n = Some r \<Longrightarrow>
   r < pm_next pm \<and> (\<exists>c. pm_heap pm r = Some c \<and> px_port c \<in> allowed_ports allow \<and> px_proxy_name c = n)"
  unfolding pm_inv_def by blast

lemma pm_inv_setsD:
  "pm_inv allow pm \<Longrightarrow> dom (pm_used pm) \<inter> pm_free pm = {} \<and> dom (pm_used pm) \<union> pm_free pm = allowed_ports allow"
  unfolding pm_inv_def by blast

lemma pm_inv_new: "pm_inv allow (new_port_manager allow)"
  by (simp add: pm_inv_def new_port_manager_def)

lemma random_port_in: "random_port avail i ks = Some k \<Longrightarrow> k \<in> set ks"
  by (induction avail i ks rule: random_port.induct) (auto split: if_split_asm)

lemma random_port_avail: "random_port avail i ks = Some k \<Longrightarrow> \<exists>j > i. j \<le> 5 \<and> avail j k"
proof (induction avail i ks rule: random_port.induct)
  case (1 avail count)
  then show ?case by simp
next
  case (2 avail count k' ks)
  show ?case
  proof (cases "avail (count + 1) k'")
    case True
    with 2 show ?thesis by (intro exI [of _ "count + 1"]) (auto split: if_split_asm)
  next
    case False
    with "2.prems" have "\<not> 5 < count + 1" "random_port avail (count + 1) ks = Some k"
      by (auto split: if_split_asm)
    with "2.IH" False obtain j where "j > count + 1" "j \<le> 5" "avail j k" by blast
    then show ?thesis by (intro exI [of _ j]) simp
  qed
qed

lemma reserved_port_allowed:
  assumes "pm_inv allow pm" and "reserved_port pm name = Some p"
  shows "p \<in> allowed_ports allow"
proof -
  from assms(2) obtain r c where "pm_reserved pm name = Some r" "pm_heap pm r = Some c" "px_port c = p"
    by (auto simp: reserved_port_def split: option.split_asm)
  with pm_inv_reservedD [OF assms(1)] show ?thesis by force
qed

text \<open>What a call does to the sets: nothing, or it moves one allowed port from free to used.\<close>

definition took :: "string \<Rightarrow> int \<Rightarrow> int \<Rightarrow> port_mgr \<Rightarrow> port_mgr \<Rightarrow> bool" where
  "took name now p pm pm' \<longleftrightarrow> pm' =
     take_port name (pm_next pm) p
       (pm\<lparr>pm_heap := (pm_heap pm)(pm_next pm \<mapsto>
            \<lparr>px_proxy_name = name, px_port = p, px_closed = False, px_update_time = now\<rparr>),
          pm_next := pm_next pm + 1\<rparr>)"

definition passed :: "string \<Rightarrow> int \<Rightarrow> port_mgr \<Rightarrow> port_mgr \<Rightarrow> bool" where
  "passed name now pm pm' \<longleftrightarrow> pm' =
     pm\<lparr>pm_heap := (pm_heap pm)(pm_next pm \<mapsto>
            \<lparr>px_proxy_name = name, px_port = 0, px_closed = False, px_update_time = now\<rparr>),
        pm_next := pm_next pm + 1\<rparr>"

lemma reserved_port_alloc:
  assumes "pm_inv allow pm"
  shows "reserved_port (fst (alloc_ctx c pm)) name = reserved_port pm name"
proof (cases "pm_reserved pm name")
  case None
  then show ?thesis by (simp add: reserved_port_def alloc_ctx_def)
next
  case (Some r)
  with assms have "r < pm_next pm" by (simp add: pm_inv_def)
  with Some show ?thesis by (simp add: reserved_port_def alloc_ctx_def)
qed

lemmas acquire_defs = acquire_def acquire_body_def alloc_ctx_def set_ctx_port_def take_port_def took_def passed_def

text \<open>A call for a given port, and one for any port that finds no reserved one.\<close>

lemma acquire_given:
  assumes "acquire avail ks now name port pm = (pm', p, e)" and "port \<noteq> 0"
  obtains (taken) "e = None" "p = port" "took name now p pm pm'" "port \<in> pm_free pm" "avail 0 port"
    | (error) err where "e = Some err" "p = 0" "passed name now pm pm'"
proof -
  consider "port \<in> pm_free pm" "avail 0 port" | "port \<in> pm_free pm" "\<not> avail 0 port" | "port \<notin> pm_free pm" by blast
  then show thesis
  proof cases
    case 1
    with assms show thesis by (intro taken) (auto simp: acquire_defs)
  next
    case 2
    with assms show thesis by (intro error [of ErrPortUnAvailable]) (auto simp: acquire_defs)
  next
    case 3
    with assms show thesis
      by (intro error [of "if port \<in> dom (pm_used pm) then ErrPortAlreadyUsed else ErrPortNotAllowed"])
        (auto simp: acquire_defs split: if_split_asm)
  qed
qed

lemma acquire_random:
  assumes "acquire avail ks now name 0 pm = (pm', p, e)"
    and "(case reserved_port (fst (alloc_ctx \<lparr>px_proxy_name = name, px_port = 0, px_closed = False, px_update_time = now\<rparr> pm)) name of
        None \<Rightarrow> None | Some q \<Rightarrow> if avail 0 q then Some q else None) = None"
  obtains (taken) "e = None" "p \<noteq> 0" "took name now p pm pm'" "p \<in> set ks" "\<exists>j \<in> {1..5}. avail j p"
    | (zero) "e = Some ErrNoAvailablePort" "p = 0" "0 \<in> set ks" "took name now 0 pm pm'"
    | (error) "e = Some ErrNoAvailablePort" "p = 0" "passed name now pm pm'"
proof (cases "random_port avail 0 ks")
  case None
  with assms show thesis by (intro error) (auto simp: acquire_defs)
next
  case (Some k)
  obtain j where j: "j > 0" "j \<le> 5" "avail j k" using random_port_avail [OF Some] by blast
  show thesis
  proof (cases "k = 0")
    case True
    with assms Some random_port_in [OF Some] show thesis by (intro zero) (auto simp: acquire_defs)
  next
    case False
    have "p = k" "e = None" "took name now k pm pm'"
      using assms Some False by (auto simp: acquire_defs split: if_split_asm)
    moreover have "\<exists>j \<in> {1..5}. avail j k" using j by (intro bexI [of _ j]) auto
    ultimately show thesis using False random_port_in [OF Some] by (intro taken) auto
  qed
qed

lemma acquire_cases:
  assumes "acquire avail ks now name port pm = (pm', p, e)" and "pm_inv allow pm"
  obtains (taken) "e = None" "p \<noteq> 0 \<or> port = 0" "took name now p pm pm'"
      "port = 0 \<and> reserved_port pm name = Some p \<and> avail 0 p \<or>
       port = 0 \<and> (\<forall>q. reserved_port pm name = Some q \<longrightarrow> \<not> avail 0 q) \<and> p \<in> set ks \<and> p \<noteq> 0 \<and> (\<exists>j \<in> {1..5}. avail j p) \<or>
       port \<noteq> 0 \<and> p = port \<and> port \<in> pm_free pm \<and> avail 0 port"
    | (zero) "e = Some ErrNoAvailablePort" "p = 0" "port = 0" "0 \<in> set ks" "took name now 0 pm pm'"
    | (error) err where "e = Some err" "p = 0" "passed name now pm pm'"
proof (cases "port = 0")
  case False
  show thesis by (rule acquire_given [OF assms(1) False]) (use False taken error in blast)+
next
  case True
  let ?pm1 = "fst (alloc_ctx \<lparr>px_proxy_name = name, px_port = 0, px_closed = False, px_update_time = now\<rparr> pm)"
  have res: "reserved_port ?pm1 name = reserved_port pm name" by (rule reserved_port_alloc [OF assms(2)])
  consider q where "reserved_port pm name = Some q" "avail 0 q"
    | "\<forall>q. reserved_port pm name = Some q \<longrightarrow> \<not> avail 0 q" by blast
  then show thesis
  proof cases
    case 1
    with assms(1) True res show thesis by (intro taken) (auto simp: acquire_defs)
  next
    case 2
    then have "(case reserved_port ?pm1 name of None \<Rightarrow> None | Some q \<Rightarrow> if avail 0 q then Some q else None) = None"
      by (auto simp: res split: option.split)
    from assms(1) this show thesis
      unfolding True by (rule acquire_random) (use True 2 taken zero error in blast)+
  qed
qed

text \<open>The operations keep the invariant.\<close>

lemma pm_inv_took [frp_inv]:
  assumes "pm_inv allow pm" and "took name now p pm pm'" and "p \<in> allowed_ports allow"
  shows "pm_inv allow pm'"
proof -
  from assms(1) have fresh: "r < pm_next pm" if "pm_used pm q = Some r \<or> pm_reserved pm n = Some r" for q n r
    using that unfolding pm_inv_def by blast
  have "dom (pm_used pm') \<inter> pm_free pm' = {}" "dom (pm_used pm') \<union> pm_free pm' = allowed_ports allow"
    using assms unfolding pm_inv_def by (auto simp: took_def take_port_def)
  moreover have "\<forall>q r. pm_used pm' q = Some r \<longrightarrow> r < pm_next pm' \<and>
      (\<exists>c. pm_heap pm' r = Some c \<and> px_port c = q \<and> \<not> px_closed c)"
    using assms fresh unfolding pm_inv_def by (fastforce simp: took_def take_port_def split: if_split_asm)
  moreover have "\<forall>n r. pm_reserved pm' n = Some r \<longrightarrow> r < pm_next pm' \<and>
      (\<exists>c. pm_heap pm' r = Some c \<and> px_port c \<in> allowed_ports allow \<and> px_proxy_name c = n)"
    using assms fresh unfolding pm_inv_def by (fastforce simp: took_def take_port_def split: if_split_asm)
  moreover have "\<forall>r c. pm_heap pm' r = Some c \<longrightarrow> r < pm_next pm'"
    using assms unfolding pm_inv_def by (auto simp: took_def take_port_def less_Suc_eq)
  ultimately show ?thesis unfolding pm_inv_def by blast
qed

lemma pm_inv_passed [frp_inv]:
  assumes "pm_inv allow pm" and "passed name now pm pm'"
  shows "pm_inv allow pm'"
proof -
  from assms(1) have fresh: "r < pm_next pm" if "pm_used pm q = Some r \<or> pm_reserved pm n = Some r" for q n r
    using that unfolding pm_inv_def by blast
  have "dom (pm_used pm') \<inter> pm_free pm' = {}" "dom (pm_used pm') \<union> pm_free pm' = allowed_ports allow"
    using assms unfolding pm_inv_def by (auto simp: passed_def)
  moreover have "\<forall>q r. pm_used pm' q = Some r \<longrightarrow> r < pm_next pm' \<and>
      (\<exists>c. pm_heap pm' r = Some c \<and> px_port c = q \<and> \<not> px_closed c)"
    using assms fresh unfolding pm_inv_def by (fastforce simp: passed_def)
  moreover have "\<forall>n r. pm_reserved pm' n = Some r \<longrightarrow> r < pm_next pm' \<and>
      (\<exists>c. pm_heap pm' r = Some c \<and> px_port c \<in> allowed_ports allow \<and> px_proxy_name c = n)"
    using assms fresh unfolding pm_inv_def by (fastforce simp: passed_def)
  moreover have "\<forall>r c. pm_heap pm' r = Some c \<longrightarrow> r < pm_next pm'"
    using assms unfolding pm_inv_def by (auto simp: passed_def less_Suc_eq)
  ultimately show ?thesis unfolding pm_inv_def by blast
qed

lemma acquire_inv [frp_inv]:
  assumes "pm_inv allow pm" and "set ks = pm_free pm" and "acquire avail ks now name port pm = (pm', p, e)"
  shows "pm_inv allow pm'"
proof -
  have free: "q \<in> allowed_ports allow" if "q \<in> pm_free pm" for q
    using that pm_inv_setsD [OF assms(1)] by blast
  from assms(3,1) show ?thesis
  proof (cases rule: acquire_cases)
    case taken
    have "reserved_port pm name = Some p \<or> p \<in> pm_free pm"
      using taken(4) assms(2) by (elim disjE) simp_all
    then have "p \<in> allowed_ports allow"
      using free reserved_port_allowed [OF assms(1), of name p] by (elim disjE) simp_all
    with assms(1) taken(3) show ?thesis by (rule pm_inv_took)
  next
    case zero
    with assms(2) free have "0 \<in> allowed_ports allow" by metis
    with assms(1) zero(5) show ?thesis by (rule pm_inv_took)
  next
    case error
    from assms(1) error(3) show ?thesis by (rule pm_inv_passed)
  qed
qed

lemma release_inv [frp_inv]:
  assumes "pm_inv allow pm"
  shows "pm_inv allow (release now port pm)"
proof (cases "pm_used pm port")
  case None
  with assms show ?thesis by (simp add: release_def)
next
  case (Some r)
  with assms obtain c where c: "pm_heap pm r = Some c" "px_port c = port" "r < pm_next pm"
    unfolding pm_inv_def by blast
  have other: "s \<noteq> r" if "pm_used pm q = Some s" "q \<noteq> port" for q s
    using that assms Some c unfolding pm_inv_def by force
  let ?pm' = "release now port pm"
  note eq = release_def Some c
  have "dom (pm_used ?pm') \<inter> pm_free ?pm' = {}" "dom (pm_used ?pm') \<union> pm_free ?pm' = allowed_ports allow"
    using assms Some unfolding pm_inv_def by (auto simp: eq)
  moreover have "\<forall>q s. pm_used ?pm' q = Some s \<longrightarrow> s < pm_next ?pm' \<and>
      (\<exists>c. pm_heap ?pm' s = Some c \<and> px_port c = q \<and> \<not> px_closed c)"
    using assms other unfolding pm_inv_def by (auto simp: eq)
  moreover have "\<forall>n s. pm_reserved ?pm' n = Some s \<longrightarrow> s < pm_next ?pm' \<and>
      (\<exists>c. pm_heap ?pm' s = Some c \<and> px_port c \<in> allowed_ports allow \<and> px_proxy_name c = n)"
    using assms c unfolding pm_inv_def by (fastforce simp: eq)
  moreover have "\<forall>s c. pm_heap ?pm' s = Some c \<longrightarrow> s < pm_next ?pm'"
    using assms c unfolding pm_inv_def by (auto simp: eq)
  ultimately show ?thesis unfolding pm_inv_def by blast
qed

lemma clean_inv [frp_inv]:
  assumes "pm_inv allow pm"
  shows "pm_inv allow (clean_reserved now pm)"
proof -
  have "pm_reserved pm n = Some r" if "pm_reserved (clean_reserved now pm) n = Some r" for n r
    using that by (auto simp: clean_reserved_def split: option.split_asm if_split_asm)
  moreover have "pm_used (clean_reserved now pm) = pm_used pm" "pm_free (clean_reserved now pm) = pm_free pm"
    "pm_heap (clean_reserved now pm) = pm_heap pm" "pm_next (clean_reserved now pm) = pm_next pm"
    by (simp_all add: clean_reserved_def)
  ultimately show ?thesis using assms unfolding pm_inv_def by metis
qed

lemma port_step_inv: "port_step pm e pm' \<Longrightarrow> pm_inv allow pm \<Longrightarrow> pm_inv allow pm'"
  by (induction rule: port_step.induct) (auto intro: acquire_inv release_inv clean_inv)

lemma port_run_inv: "port_run pm es pm' \<Longrightarrow> pm_inv allow pm \<Longrightarrow> pm_inv allow pm'"
  by (induction rule: port_run.induct) (auto intro: port_step_inv)


section \<open>A pool of ports, as its clients see it\<close>

text \<open>
  What a proxy or a listener group relies on: a granted port moves from the free to the used
  ones, a release moves it back, and nothing else moves.
\<close>

locale port_pool =
  fixes inv :: "'s \<Rightarrow> bool" and used :: "'s \<Rightarrow> int set" and free :: "'s \<Rightarrow> int set"
    and grants :: "'s \<Rightarrow> int \<Rightarrow> 's \<Rightarrow> bool" and rel :: "int \<Rightarrow> int \<Rightarrow> 's \<Rightarrow> 's"
  assumes grant_inv: "inv s \<Longrightarrow> grants s p s' \<Longrightarrow> inv s'"
    and grant_used: "inv s \<Longrightarrow> grants s p s' \<Longrightarrow> used s' = insert p (used s)"
    and grant_free: "inv s \<Longrightarrow> grants s p s' \<Longrightarrow> free s' = free s - {p}"
    and grant_known: "inv s \<Longrightarrow> grants s p s' \<Longrightarrow> p \<in> used s \<union> free s"
    and rel_inv: "inv s \<Longrightarrow> inv (rel t p s)"
    and rel_used: "inv s \<Longrightarrow> used (rel t p s) = used s - {p}"
    and rel_free: "inv s \<Longrightarrow> free (rel t p s) = free s \<union> (used s \<inter> {p})"
begin

text \<open>A proxy that fails after it was granted a free port gives it back.\<close>

lemma grant_release:
  assumes "inv s" and "grants s p s'" and "p \<notin> used s"
  shows "used (rel t p s') = used s \<and> free (rel t p s') = free s"
  using assms grant_inv [OF assms(1,2)] grant_used [OF assms(1,2)] grant_free [OF assms(1,2)]
    grant_known [OF assms(1,2)]
  by (auto simp: rel_used rel_free)

lemma release_again:
  assumes "inv s"
  shows "used (rel t p (rel u p s)) = used (rel u p s) \<and> free (rel t p (rel u p s)) = free (rel u p s)"
  using assms by (auto simp: rel_inv rel_used rel_free)

text \<open>Releasing the ports of a list returns exactly those of them that are in use.\<close>

lemma release_all:
  assumes "inv s"
  shows "inv (fold (rel t) ps s) \<and> used (fold (rel t) ps s) = used s - set ps \<and>
    free (fold (rel t) ps s) = free s \<union> (used s \<inter> set ps)"
  using assms
proof (induction ps arbitrary: s)
  case Nil
  then show ?case by simp
next
  case (Cons p ps)
  from Cons.IH [OF rel_inv [OF Cons.prems]] show ?case
    using Cons.prems by (auto simp: rel_used rel_free)
qed

end

definition granted :: "port_mgr \<Rightarrow> int \<Rightarrow> port_mgr \<Rightarrow> bool" where
  "granted pm p pm' \<longleftrightarrow>
     (\<exists>avail ks now name port. set ks = pm_free pm \<and> acquire avail ks now name port pm = (pm', p, None))"

lemma acquire_granted:
  assumes "pm_inv allow pm" and "granted pm p pm'"
  shows "pm_inv allow pm' \<and> dom (pm_used pm') = insert p (dom (pm_used pm)) \<and>
    pm_free pm' = pm_free pm - {p} \<and> p \<in> dom (pm_used pm) \<union> pm_free pm"
proof -
  from assms(2) obtain avail ks now name port where k: "set ks = pm_free pm"
    and a: "acquire avail ks now name port pm = (pm', p, None)"
    by (auto simp: granted_def)
  have i: "pm_inv allow pm'" by (rule acquire_inv [OF assms(1) k a])
  from a assms(1) show ?thesis
  proof (cases rule: acquire_cases)
    case taken
    have "reserved_port pm name = Some p \<or> p \<in> pm_free pm"
      using taken(4) k by (elim disjE) simp_all
    then have "p \<in> allowed_ports allow \<or> p \<in> pm_free pm"
      using reserved_port_allowed [OF assms(1)] by blast
    then have "p \<in> dom (pm_used pm) \<union> pm_free pm" using pm_inv_setsD [OF assms(1)] by blast
    with taken(3) i show ?thesis by (simp add: took_def take_port_def)
  qed simp_all
qed

lemma release_sets:
  "dom (pm_used (release now p pm)) = dom (pm_used pm) - {p}"
  "pm_free (release now p pm) = pm_free pm \<union> (dom (pm_used pm) \<inter> {p})"
  by (auto simp: release_def split: option.split)

interpretation pp: port_pool "pm_inv allow" "\<lambda>pm. dom (pm_used pm)" pm_free granted release
  for allow
proof
  fix s p s' t
  assume i: "pm_inv allow s"
  show "pm_inv allow (release t p s)" by (rule release_inv [OF i])
  show "dom (pm_used (release t p s)) = dom (pm_used s) - {p}" by (rule release_sets)
  show "pm_free (release t p s) = pm_free s \<union> (dom (pm_used s) \<inter> {p})" by (rule release_sets)
  assume g: "granted s p s'"
  note a = acquire_granted [OF i g]
  from a show "pm_inv allow s'" "dom (pm_used s') = insert p (dom (pm_used s))"
    "pm_free s' = pm_free s - {p}" "p \<in> dom (pm_used s) \<union> pm_free s" by simp_all
qed

section \<open>The reserved port of a name\<close>

definition keeps :: "string \<Rightarrow> int \<Rightarrow> int \<Rightarrow> port_mgr \<Rightarrow> bool" where
  "keeps name p t pm \<longleftrightarrow>
     (\<exists>r c. pm_reserved pm name = Some r \<and> pm_heap pm r = Some c \<and> px_port c = p \<and> r < pm_next pm \<and>
        (px_closed c \<longrightarrow> t \<le> px_update_time c))"

text \<open>The events that cannot take a name's port away: calls for other names, releases, and
  cleanings at most 24 hours after \<open>t\<close>.\<close>

fun harmless :: "string \<Rightarrow> int \<Rightarrow> port_event \<Rightarrow> bool" where
  "harmless name t (Acquired n port now p e) = (n \<noteq> name)"
| "harmless name t (Released port now) = (t \<le> now)"
| "harmless name t (Cleaned now) = (now \<le> t + MaxPortReservedDuration)"

lemma keepsI:
  "pm_reserved pm name = Some r \<Longrightarrow> pm_heap pm r = Some c \<Longrightarrow> px_port c = p \<Longrightarrow> r < pm_next pm \<Longrightarrow>
   (px_closed c \<Longrightarrow> t \<le> px_update_time c) \<Longrightarrow> keeps name p t pm"
  unfolding keeps_def by blast

lemma keepsE:
  assumes "keeps name p t pm"
  obtains r c where "pm_reserved pm name = Some r" "pm_heap pm r = Some c" "px_port c = p" "r < pm_next pm"
    "px_closed c \<Longrightarrow> t \<le> px_update_time c"
  using assms unfolding keeps_def by blast

lemma keeps_took:
  assumes "keeps name p t pm" and "took n now q pm pm'" and "n \<noteq> name"
  shows "keeps name p t pm'"
  using assms(1)
proof (rule keepsE)
  fix r c
  assume "pm_reserved pm name = Some r" "pm_heap pm r = Some c" "px_port c = p" "r < pm_next pm"
    "px_closed c \<Longrightarrow> t \<le> px_update_time c"
  then show ?thesis using assms(2,3) by (intro keepsI [of _ _ r c]) (simp_all add: took_def take_port_def)
qed

lemma keeps_passed:
  assumes "keeps name p t pm" and "passed n now pm pm'"
  shows "keeps name p t pm'"
  using assms(1)
proof (rule keepsE)
  fix r c
  assume "pm_reserved pm name = Some r" "pm_heap pm r = Some c" "px_port c = p" "r < pm_next pm"
    "px_closed c \<Longrightarrow> t \<le> px_update_time c"
  then show ?thesis using assms(2) by (intro keepsI [of _ _ r c]) (simp_all add: passed_def)
qed

lemma keeps_step:
  assumes "port_step pm e pm'" and "pm_inv allow pm" and "keeps name p t pm" and "harmless name t e"
  shows "keeps name p t pm'"
  using assms
proof (induction rule: port_step.induct)
  case (step_acquire ks pm avail now n port pm' q e)
  from step_acquire(3,4) show ?case
  proof (cases rule: acquire_cases)
    case taken
    with step_acquire show ?thesis by (auto intro: keeps_took)
  next
    case zero
    with step_acquire show ?thesis by (auto intro: keeps_took)
  next
    case error
    with step_acquire show ?thesis by (auto intro: keeps_passed)
  qed
next
  case (step_release pm port now)
  from step_release(2) obtain r c where r: "pm_reserved pm name = Some r" "pm_heap pm r = Some c"
    "px_port c = p" "r < pm_next pm" "px_closed c \<longrightarrow> t \<le> px_update_time c"
    by (auto simp: keeps_def)
  with step_release(3) show ?case
    by (cases "pm_used pm port") (auto simp: keeps_def release_def split: option.split)
next
  case (step_clean pm now)
  from step_clean(2) obtain r c where r: "pm_reserved pm name = Some r" "pm_heap pm r = Some c"
    "px_port c = p" "r < pm_next pm" "px_closed c \<longrightarrow> t \<le> px_update_time c"
    by (auto simp: keeps_def)
  with step_clean(3) have "\<not> stale_ctx now c" by (auto simp: stale_ctx_def)
  with r show ?case by (auto simp: keeps_def clean_reserved_def)
qed

lemma keeps_run:
  "port_run pm es pm' \<Longrightarrow> pm_inv allow pm \<Longrightarrow> keeps name p t pm \<Longrightarrow> \<forall>e \<in> set es. harmless name t e \<Longrightarrow>
   keeps name p t pm'"
proof (induction rule: port_run.induct)
  case (run_none pm)
  then show ?case by simp
next
  case (run_step pm es pm' e pm'')
  have "pm_inv allow pm'" using run_step.hyps(1) run_step.prems(1) by (rule port_run_inv)
  moreover have "keeps name p t pm'" using run_step by simp
  ultimately show ?case using run_step.hyps(2) run_step.prems(3) by (auto intro: keeps_step)
qed

lemma keeps_acquire:
  assumes "keeps name p t pm" and "avail 0 p"
  shows "fst (snd (acquire avail ks now name 0 pm)) = p \<and> snd (snd (acquire avail ks now name 0 pm)) = None"
proof -
  from assms(1) obtain r c where "pm_reserved pm name = Some r" "pm_heap pm r = Some c"
    "px_port c = p" "r < pm_next pm" by (auto simp: keeps_def)
  then have "reserved_port (pm\<lparr>pm_heap := (pm_heap pm)(pm_next pm \<mapsto> d), pm_next := pm_next pm + 1\<rparr>) name = Some p" for d
    by (simp add: reserved_port_def)
  with assms(2) show ?thesis by (simp add: acquire_def alloc_ctx_def acquire_body_def)
qed

lemma keeps_acquired:
  assumes "acquire avail ks now name port pm = (pm', p, None)" and "pm_inv allow pm"
  shows "keeps name p now pm'"
  using assms
proof (cases rule: acquire_cases)
  case taken
  then show ?thesis by (simp add: keeps_def took_def take_port_def)
qed simp_all


section \<open>Properties\<close>

text \<open>C17: Whatever sequence of calls, releases and cleanings the manager serves, no port is lost and
  none is in both maps: the used and the free ports partition the allowed ones, and the context
  of a used port is open and names that very port.\<close>

theorem ports_conserved:
  assumes "port_run (new_port_manager allow) es pm"
  shows "dom (pm_used pm) \<inter> pm_free pm = {} \<and>
    dom (pm_used pm) \<union> pm_free pm = allowed_ports allow \<and>
    (\<forall>p r. pm_used pm p = Some r \<longrightarrow> (\<exists>c. pm_heap pm r = Some c \<and> px_port c = p \<and> \<not> px_closed c))"
proof -
  have "pm_inv allow pm" by (rule port_run_inv [OF assms pm_inv_new])
  with pm_inv_usedD [OF this] pm_inv_setsD [OF this] show ?thesis by blast
qed

lemma acquire_first:
  "acquire (\<lambda>_ _. True) [6000] 5 ''a'' 0 (new_port_manager {6000}) =
     (\<lparr>pm_reserved = [''a'' \<mapsto> 0], pm_used = [6000 \<mapsto> 0], pm_free = {},
       pm_heap = [0 \<mapsto> \<lparr>px_proxy_name = ''a'', px_port = 6000, px_closed = False, px_update_time = 5\<rparr>],
       pm_next = 1\<rparr>, 6000, None)"
  by (simp add: acquire_def alloc_ctx_def acquire_body_def reserved_port_def take_port_def set_ctx_port_def
      new_port_manager_def allowed_ports_def)

lemma run_first:
  "port_run (new_port_manager {6000}) [Acquired ''a'' 0 5 6000 None]
     \<lparr>pm_reserved = [''a'' \<mapsto> 0], pm_used = [6000 \<mapsto> 0], pm_free = {},
       pm_heap = [0 \<mapsto> \<lparr>px_proxy_name = ''a'', px_port = 6000, px_closed = False, px_update_time = 5\<rparr>],
       pm_next = 1\<rparr>"
  using run_step [OF run_none step_acquire [OF _ _ acquire_first]]
  by (simp add: new_port_manager_def allowed_ports_def)

lemma ports_conserved_witness:
  "dom [6000 \<mapsto> 0 :: nat] \<union> {} = allowed_ports {6000}"
  using ports_conserved [OF run_first] by simp

text \<open>C16: When the operating system refuses to open a port that is in use, a successful call returns
  an allowed port that no one uses, the requested one if one was requested; a requested port is
  refused with \<^verbatim>\<open>ErrPortAlreadyUsed\<close>, \<^verbatim>\<open>ErrPortNotAllowed\<close> or \<^verbatim>\<open>ErrPortUnAvailable\<close> exactly when it
  is used, not allowed, or free but not open to us, and a refused call changes neither map.\<close>

theorem acquire_exclusive:
  assumes "port_run (new_port_manager allow) es pm" and "set ks = pm_free pm"
    and "\<forall>i q. avail i q \<longrightarrow> q \<notin> dom (pm_used pm)"
    and "acquire avail ks now name port pm = (pm', p, e)" and "0 \<notin> allowed_ports allow"
  shows "(e = None \<longrightarrow> p \<in> allowed_ports allow \<and> p \<notin> dom (pm_used pm) \<and> (port \<noteq> 0 \<longrightarrow> p = port) \<and>
      dom (pm_used pm') = insert p (dom (pm_used pm)) \<and> pm_free pm' = pm_free pm - {p}) \<and>
    (port \<noteq> 0 \<longrightarrow> e = (if port \<in> dom (pm_used pm) then Some ErrPortAlreadyUsed
       else if port \<notin> allowed_ports allow then Some ErrPortNotAllowed
       else if \<not> avail 0 port then Some ErrPortUnAvailable else None)) \<and>
    (e \<noteq> None \<longrightarrow> pm_used pm' = pm_used pm \<and> pm_free pm' = pm_free pm)"
proof -
  have i: "pm_inv allow pm" by (rule port_run_inv [OF assms(1) pm_inv_new])
  note sets = pm_inv_setsD [OF i]
  have ok: "e = None \<Longrightarrow> p \<in> allowed_ports allow \<and> p \<notin> dom (pm_used pm) \<and> (port \<noteq> 0 \<longrightarrow> p = port) \<and>
      dom (pm_used pm') = insert p (dom (pm_used pm)) \<and> pm_free pm' = pm_free pm - {p}"
    using assms(4) i
  proof (cases rule: acquire_cases)
    case taken
    have "p \<notin> dom (pm_used pm)" using taken(4) assms(3) by blast
    moreover have "granted pm p pm'" using assms(2,4) taken(1) unfolding granted_def by blast
    ultimately show ?thesis using acquire_granted [OF i] sets taken(4) by blast
  qed simp_all
  have errs: "port \<noteq> 0 \<longrightarrow> e = (if port \<in> dom (pm_used pm) then Some ErrPortAlreadyUsed
       else if port \<notin> allowed_ports allow then Some ErrPortNotAllowed
       else if \<not> avail 0 port then Some ErrPortUnAvailable else None)"
  proof
    assume nz: "port \<noteq> 0"
    have "e = snd (snd (acquire_body avail ks name port (pm_next pm) (fst (alloc_ctx
        \<lparr>px_proxy_name = name, px_port = 0, px_closed = False, px_update_time = now\<rparr> pm))))"
      using assms(4) by (auto simp: acquire_def alloc_ctx_def split: prod.split_asm)
    also have "\<dots> = (if port \<in> pm_free pm then if avail 0 port then None else Some ErrPortUnAvailable
        else if port \<in> dom (pm_used pm) then Some ErrPortAlreadyUsed else Some ErrPortNotAllowed)"
      using nz by (simp add: acquire_body_def alloc_ctx_def)
    finally show "e = (if port \<in> dom (pm_used pm) then Some ErrPortAlreadyUsed
       else if port \<notin> allowed_ports allow then Some ErrPortNotAllowed
       else if \<not> avail 0 port then Some ErrPortUnAvailable else None)"
      using sets by auto
  qed
  have "e \<noteq> None \<longrightarrow> pm_used pm' = pm_used pm \<and> pm_free pm' = pm_free pm"
    using assms(4) i
  proof (cases rule: acquire_cases)
    case zero
    with assms(2,5) sets have False by blast
    then show ?thesis ..
  qed (simp_all add: passed_def)
  with ok errs show ?thesis by blast
qed

lemma acquire_exclusive_witness:
  "6000 \<in> allowed_ports {6000}"
  using acquire_exclusive [OF run_none, of "[6000]" "{6000}" "\<lambda>_ _. True" 5 "''a''" 0]
  by (simp add: acquire_first) (simp add: new_port_manager_def allowed_ports_def)



section \<open>What the guarantees do not cover\<close>

text \<open>
  The branch of a reserved port looks neither at the used nor at the free ports. When the
  operating system does not (yet) refuse the port, two names hold it at once: here \<^verbatim>\<open>b\<close> takes the
  port that \<^verbatim>\<open>a\<close> gave back, and \<^verbatim>\<open>a\<close> gets it again before \<^verbatim>\<open>b\<close> listens on it.
\<close>

lemma reserved_port_granted_twice:
  "\<exists>pm. port_run (new_port_manager {6000})
     [Acquired ''a'' 0 5 6000 None, Released 6000 6, Acquired ''b'' 6000 7 6000 None,
      Acquired ''a'' 0 8 6000 None] pm"
proof -
  let ?pm1 = "\<lparr>pm_reserved = [''a'' \<mapsto> 0], pm_used = [6000 \<mapsto> 0], pm_free = {},
       pm_heap = [0 \<mapsto> \<lparr>px_proxy_name = ''a'', px_port = 6000, px_closed = False, px_update_time = 5\<rparr>],
       pm_next = 1\<rparr>"
  let ?pm2 = "release 6 6000 ?pm1"
  let ?r3 = "acquire (\<lambda>_ _. True) [6000] 7 ''b'' 6000 ?pm2"
  let ?r4 = "acquire (\<lambda>_ _. True) [] 8 ''a'' 0 (fst ?r3)"
  have r3: "?r3 = (fst ?r3, 6000, None)" and f3: "pm_free (fst ?r3) = {}" and f2: "pm_free ?pm2 = {6000}"
    by (simp_all add: release_def acquire_def alloc_ctx_def acquire_body_def take_port_def set_ctx_port_def)
  have r4: "?r4 = (fst ?r4, 6000, None)"
    by (simp add: release_def acquire_def alloc_ctx_def acquire_body_def take_port_def set_ctx_port_def
        reserved_port_def)
  have "port_run (new_port_manager {6000}) ([Acquired ''a'' 0 5 6000 None] @ [Released 6000 6]) ?pm2"
    by (rule run_step [OF run_first step_release])
  from run_step [OF run_step [OF this step_acquire [OF _ _ r3]] step_acquire [OF _ _ r4]] f2 f3
  show ?thesis by auto
qed

text \<open>With port 0 among the allowed ports a call can move it to the used ports and still fail.\<close>

lemma zero_port_lost:
  "\<exists>pm'. acquire (\<lambda>_ _. True) [0] 5 ''a'' 0 (new_port_manager {0}) = (pm', 0, Some ErrNoAvailablePort) \<and>
     0 \<in> dom (pm_used pm') \<and> pm_free pm' = {}"
  by (simp add: acquire_def alloc_ctx_def acquire_body_def take_port_def new_port_manager_def
      reserved_port_def allowed_ports_def)

end
