(* ===== verification/Vhost_Router.thy ===== *)
theory Vhost_Router
  imports Go_Strings
begin

text \<open>
  \<^verbatim>\<open>frp/pkg/util/vhost/router.go\<close>: the routing table of the virtual hosts, per domain a slice of
  routers sorted by location in reverse order. \<open>route_table\<close> is the contract that the HTTP
  reverse proxy and the multiplexers rely on: a table of (domain, location) entries, where a
  lookup takes the entry with the longest location that is a prefix of the path.
\<close>

section \<open>Data and operations\<close>

record 'p router =
  rt_domain :: string
  rt_location :: string
  rt_payload :: 'p

type_synonym 'p routers = "string \<rightharpoonup> 'p router list"

definition new_routers :: "'p routers" where
  "new_routers = Map.empty"

text \<open>\<^verbatim>\<open>sort.Sort(sort.Reverse(ByLocation(vrs)))\<close>; strings are compared bytewise.\<close>

definition sort_routers :: "'p router list \<Rightarrow> 'p router list" where
  "sort_routers vrs = rev (sort_key rt_location vrs)"

fun find_location :: "string \<Rightarrow> 'p router list \<Rightarrow> 'p router option" where
  "find_location path [] = None"
| "find_location path (vr # vrs) = (if path = rt_location vr then Some vr else find_location path vrs)"

definition exist :: "'p routers \<Rightarrow> string \<Rightarrow> string \<Rightarrow> 'p router option" where
  "exist r host path = (case r host of None \<Rightarrow> None | Some vrs \<Rightarrow> find_location path vrs)"

text \<open>\<open>None\<close> is \<^verbatim>\<open>ErrRouterConfigConflict\<close>.\<close>

definition routers_add :: "string \<Rightarrow> string \<Rightarrow> 'p \<Rightarrow> 'p routers \<Rightarrow> 'p routers option" where
  "routers_add domain location payload r =
     (case exist r domain location of
        Some _ \<Rightarrow> None
      | None \<Rightarrow>
          let vrs = (case r domain of None \<Rightarrow> [] | Some vrs \<Rightarrow> vrs);
              vr = \<lparr>rt_domain = domain, rt_location = location, rt_payload = payload\<rparr>
          in Some (r(domain \<mapsto> sort_routers (vrs @ [vr]))))"

definition routers_del :: "string \<Rightarrow> string \<Rightarrow> 'p routers \<Rightarrow> 'p routers" where
  "routers_del domain location r =
     (case r domain of
        None \<Rightarrow> r
      | Some vrs \<Rightarrow> r(domain \<mapsto> filter (\<lambda>vr. rt_location vr \<noteq> location) vrs))"

fun find_prefix :: "string \<Rightarrow> 'p router list \<Rightarrow> 'p router option" where
  "find_prefix path [] = None"
| "find_prefix path (vr # vrs) = (if prefix (rt_location vr) path then Some vr else find_prefix path vrs)"

definition routers_get :: "'p routers \<Rightarrow> string \<Rightarrow> string \<Rightarrow> 'p router option" where
  "routers_get r host path = (case r host of None \<Rightarrow> None | Some vrs \<Rightarrow> find_prefix path vrs)"

section \<open>The table that a slice of routers stands for\<close>

definition routers_ok :: "'p routers \<Rightarrow> bool" where
  "routers_ok r \<longleftrightarrow> (\<forall>d vrs. r d = Some vrs \<longrightarrow>
     sorted_wrt (\<lambda>a b. rt_location b < rt_location a) vrs \<and> (\<forall>vr \<in> set vrs. rt_domain vr = d))"

definition table_of :: "'p routers \<Rightarrow> string \<times> string \<Rightarrow> 'p option" where
  "table_of r dl = map_option rt_payload (exist r (fst dl) (snd dl))"

lemma find_location_iff:
  assumes "distinct (map rt_location vrs)"
  shows "find_location l vrs = Some vr \<longleftrightarrow> vr \<in> set vrs \<and> rt_location vr = l"
  using assms by (induction vrs) (auto, metis image_eqI)

lemma find_location_None: "find_location l vrs = None \<longleftrightarrow> l \<notin> rt_location ` set vrs"
  by (induction vrs) auto

lemma sorted_wrt_distinct:
  "sorted_wrt (\<lambda>a b. rt_location b < rt_location a) vrs \<Longrightarrow> distinct (map rt_location vrs)"
  by (induction vrs) auto

lemma prefix_less_eq: "prefix (a :: string) b \<Longrightarrow> a \<le> b"
proof (induction a arbitrary: b)
  case (Cons x a)
  then show ?case by (cases b) auto
qed simp

lemma find_prefix_longest:
  assumes "sorted_wrt (\<lambda>a b. rt_location b < rt_location a) vrs"
  shows "find_prefix path vrs = Some vr \<longleftrightarrow>
    vr \<in> set vrs \<and> prefix (rt_location vr) path \<and>
    (\<forall>v \<in> set vrs. prefix (rt_location v) path \<longrightarrow> prefix (rt_location v) (rt_location vr))"
  using assms
proof (induction vrs)
  case Nil
  then show ?case by simp
next
  case (Cons v vs)
  show ?case
  proof (cases "prefix (rt_location v) path")
    case True
    have top: "prefix (rt_location w) (rt_location v)" if "w \<in> set vs" "prefix (rt_location w) path" for w
    proof -
      from Cons.prems that(1) have "rt_location w < rt_location v" by simp
      then have "\<not> prefix (rt_location v) (rt_location w)" using prefix_less_eq leD by blast
      with True that(2) show ?thesis by (meson prefix_same_cases)
    qed
    have uniq: "w = v" if "w \<in> set vs" "prefix (rt_location v) (rt_location w)" for w
    proof -
      from Cons.prems that(1) have "rt_location w < rt_location v" by simp
      with prefix_less_eq [OF that(2)] show ?thesis by simp
    qed
    from True top uniq show ?thesis by auto
  next
    case False
    with Cons show ?thesis by auto
  qed
qed

lemma sort_routers_sorted:
  assumes "distinct (map rt_location vrs)"
  shows "sorted_wrt (\<lambda>a b. rt_location b < rt_location a) (sort_routers vrs)"
proof -
  have d: "distinct (map rt_location (sort_key rt_location vrs))"
    using assms by (simp add: distinct_map)
  have "sorted (map rt_location (sort_key rt_location vrs))" by simp
  with d have "sorted_wrt (<) (map rt_location (sort_key rt_location vrs))"
    by (simp add: strict_sorted_iff)
  then show ?thesis by (simp add: sort_routers_def sorted_wrt_rev sorted_wrt_map)
qed

lemma set_sort_routers [simp]: "set (sort_routers vrs) = set vrs"
  by (simp add: sort_routers_def)

lemma routers_ok_new: "routers_ok new_routers"
  by (simp add: routers_ok_def new_routers_def)

lemma table_of_new: "table_of new_routers dl = None"
  by (simp add: table_of_def new_routers_def exist_def)

lemma routers_ok_slice:
  "routers_ok r \<Longrightarrow> r d = Some vrs \<Longrightarrow>
   sorted_wrt (\<lambda>a b. rt_location b < rt_location a) vrs \<and> distinct (map rt_location vrs) \<and>
   (\<forall>vr \<in> set vrs. rt_domain vr = d)"
  unfolding routers_ok_def by (blast intro: sorted_wrt_distinct)

lemma table_of_iff:
  assumes "routers_ok r"
  shows "table_of r (d, l) = Some x \<longleftrightarrow>
    (\<exists>vrs. r d = Some vrs \<and> \<lparr>rt_domain = d, rt_location = l, rt_payload = x\<rparr> \<in> set vrs)"
proof (cases "r d")
  case None
  then show ?thesis by (simp add: table_of_def exist_def)
next
  case (Some vrs)
  note s = routers_ok_slice [OF assms Some]
  have "table_of r (d, l) = Some x \<longleftrightarrow> (\<exists>vr. vr \<in> set vrs \<and> rt_location vr = l \<and> rt_payload vr = x)"
    using Some s by (auto simp: table_of_def exist_def find_location_iff)
  also have "\<dots> \<longleftrightarrow> \<lparr>rt_domain = d, rt_location = l, rt_payload = x\<rparr> \<in> set vrs"
    using s by (metis (full_types) router.surjective old.unit.exhaust router.select_convs)
  finally show ?thesis using Some by simp
qed

lemma routers_add_table:
  assumes "routers_ok r"
  shows "routers_add d l x r = (if table_of r (d, l) = None then Some (the (routers_add d l x r)) else None)"
    and "routers_add d l x r = Some r' \<Longrightarrow> routers_ok r' \<and> table_of r' = (table_of r)((d, l) \<mapsto> x)"
proof -
  show "routers_add d l x r = (if table_of r (d, l) = None then Some (the (routers_add d l x r)) else None)"
    by (auto simp: routers_add_def table_of_def Let_def split: option.split)
next
  assume a: "routers_add d l x r = Some r'"
  let ?vrs = "case r d of None \<Rightarrow> [] | Some vrs \<Rightarrow> vrs"
  let ?vr = "\<lparr>rt_domain = d, rt_location = l, rt_payload = x\<rparr>"
  have none: "exist r d l = None" and r': "r' = r(d \<mapsto> sort_routers (?vrs @ [?vr]))"
    using a by (auto simp: routers_add_def Let_def split: option.split_asm)
  have dom: "\<forall>v \<in> set ?vrs. rt_domain v = d" and dist: "distinct (map rt_location ?vrs)"
    using routers_ok_slice [OF assms, of d] by (cases "r d"; simp)+
  have new: "l \<notin> rt_location ` set ?vrs"
    using none by (auto simp: exist_def find_location_None split: option.split_asm)
  have ok: "routers_ok r'"
    using assms dom dist new sort_routers_sorted [of "?vrs @ [?vr]"]
    by (auto simp: r' routers_ok_def)
  have "table_of r' dl = ((table_of r)((d, l) \<mapsto> x)) dl" for dl
  proof (cases dl)
    case (Pair d' l')
    show ?thesis
    proof (cases "d' = d")
      case False
      with Pair show ?thesis by (simp add: table_of_def exist_def r')
    next
      case True
      have "table_of r' (d, l') = Some y \<longleftrightarrow> ((table_of r)((d, l) \<mapsto> x)) (d, l') = Some y" for y
      proof (cases "l' = l")
        case True
        then show ?thesis using table_of_iff [OF ok, of d l y] new by (force simp: r' split: option.split)
      next
        case False
        then show ?thesis
          using table_of_iff [OF ok, of d l' y] table_of_iff [OF assms, of d l' y]
          by (auto simp: r' split: option.split_asm)
      qed
      then show ?thesis using Pair True by (metis not_Some_eq)
    qed
  qed
  with ok show "routers_ok r' \<and> table_of r' = (table_of r)((d, l) \<mapsto> x)" by blast
qed

lemma routers_del_table:
  assumes "routers_ok r"
  shows "routers_ok (routers_del d l r) \<and> table_of (routers_del d l r) = (table_of r)((d, l) := None)"
proof -
  have ok: "routers_ok (routers_del d l r)"
    using assms by (auto simp: routers_ok_def routers_del_def sorted_wrt_filter split: option.split)
  have "table_of (routers_del d l r) (d', l') = ((table_of r)((d, l) := None)) (d', l')" for d' l'
  proof -
    have "table_of (routers_del d l r) (d', l') = Some y \<longleftrightarrow> ((table_of r)((d, l) := None)) (d', l') = Some y" for y
      using table_of_iff [OF ok, of d' l' y] table_of_iff [OF assms, of d' l' y]
      by (auto simp: routers_del_def split: option.split)
    then show ?thesis by (metis not_Some_eq)
  qed
  with ok show ?thesis by auto
qed

lemma routers_get_table:
  assumes "routers_ok r"
  shows "routers_get r h path = Some vr \<longleftrightarrow>
    rt_domain vr = h \<and> prefix (rt_location vr) path \<and> table_of r (h, rt_location vr) = Some (rt_payload vr) \<and>
    (\<forall>l x. prefix l path \<longrightarrow> table_of r (h, l) = Some x \<longrightarrow> prefix l (rt_location vr))"
proof (cases "r h")
  case None
  then show ?thesis by (simp add: routers_get_def table_of_def exist_def)
next
  case (Some vrs)
  note s = routers_ok_slice [OF assms Some]
  have t: "table_of r (h, l) = Some x \<longleftrightarrow> \<lparr>rt_domain = h, rt_location = l, rt_payload = x\<rparr> \<in> set vrs" for l x
    using table_of_iff [OF assms, of h l x] Some by simp
  have mem: "vr \<in> set vrs \<longleftrightarrow> rt_domain vr = h \<and> table_of r (h, rt_location vr) = Some (rt_payload vr)"
    using s by (cases vr) (auto simp: t)
  have "(\<forall>v \<in> set vrs. prefix (rt_location v) path \<longrightarrow> prefix (rt_location v) (rt_location vr)) \<longleftrightarrow>
      (\<forall>l x. prefix l path \<longrightarrow> table_of r (h, l) = Some x \<longrightarrow> prefix l (rt_location vr))"
    (is "?A \<longleftrightarrow> ?B")
  proof
    assume ?A
    then show ?B by (force simp: t)
  next
    assume b: ?B
    show ?A
    proof
      fix v assume v: "v \<in> set vrs"
      with s have "\<lparr>rt_domain = h, rt_location = rt_location v, rt_payload = rt_payload v\<rparr> = v"
        by (cases v) auto
      with v have "table_of r (h, rt_location v) = Some (rt_payload v)" by (simp add: t)
      with b show "prefix (rt_location v) path \<longrightarrow> prefix (rt_location v) (rt_location vr)" by blast
    qed
  qed
  with find_prefix_longest [of vrs path vr] s mem show ?thesis
    using Some by (auto simp: routers_get_def)
qed


section \<open>The contract of a routing table\<close>

text \<open>The names under which a host is looked up: its own, then its wildcards, the longest first.\<close>

function wildcard_names :: "string list \<Rightarrow> string list" where
  "wildcard_names ds =
     (if length ds < 3 then [] else join ''.'' (''*'' # tl ds) # wildcard_names (tl ds))"
  by auto
termination by (relation "measure length") auto

declare wildcard_names.simps [simp del]

definition lookup_names :: "string \<Rightarrow> string list" where
  "lookup_names domain = domain # wildcard_names (split_on (CHR ''.'') domain)"

fun first_route :: "(string \<Rightarrow> 'x option) \<Rightarrow> string list \<Rightarrow> 'x option" where
  "first_route f [] = None"
| "first_route f (n # ns) = (case f n of Some x \<Rightarrow> Some x | None \<Rightarrow> first_route f ns)"

lemma first_route_cong: "(\<And>n. n \<in> set ns \<Longrightarrow> f n = g n) \<Longrightarrow> first_route f ns = first_route g ns"
  by (induction ns) (auto split: option.split)

lemma first_route_SomeD: "first_route f ns = Some x \<Longrightarrow> \<exists>n \<in> set ns. f n = Some x"
  by (induction ns) (auto split: option.split_asm)

locale route_table =
  fixes inv :: "'t \<Rightarrow> bool" and tbl :: "'t \<Rightarrow> string \<times> string \<Rightarrow> 'p option"
    and get :: "'t \<Rightarrow> string \<Rightarrow> string \<Rightarrow> (string \<times> 'p) option"
    and add :: "string \<Rightarrow> string \<Rightarrow> 'p \<Rightarrow> 't \<Rightarrow> 't option"
    and del :: "string \<Rightarrow> string \<Rightarrow> 't \<Rightarrow> 't"
  assumes get_iff: "inv t \<Longrightarrow> get t h path = Some (l, x) \<longleftrightarrow> prefix l path \<and> tbl t (h, l) = Some x \<and>
      (\<forall>l' y. prefix l' path \<longrightarrow> tbl t (h, l') = Some y \<longrightarrow> prefix l' l)"
    and add_None: "inv t \<Longrightarrow> add h l x t = None \<longleftrightarrow> tbl t (h, l) \<noteq> None"
    and add_Some: "inv t \<Longrightarrow> add h l x t = Some t' \<Longrightarrow> inv t' \<and> tbl t' = (tbl t)((h, l) \<mapsto> x)"
    and del_tbl: "inv t \<Longrightarrow> inv (del h l t) \<and> tbl (del h l t) = (tbl t)((h, l) := None)"
begin

lemma get_cong:
  assumes "inv s" and "inv t" and "\<And>l. tbl s (h, l) = tbl t (h, l)"
  shows "get s h path = get t h path"
proof -
  have "get s h path = Some (l, x) \<longleftrightarrow> get t h path = Some (l, x)" for l x
    by (simp add: get_iff [OF assms(1)] get_iff [OF assms(2)] assms(3))
  then show ?thesis by (metis not_Some_eq surj_pair)
qed

lemma get_hits:
  assumes "inv t" and "tbl t (h, l) = Some x" and "prefix l path" and "finite {l. tbl t (h, l) \<noteq> None}"
  shows "\<exists>l' y. get t h path = Some (l', y) \<and> prefix l l'"
proof -
  let ?L = "{l'. prefix l' path \<and> tbl t (h, l') \<noteq> None}"
  have fin: "finite ?L" by (rule finite_subset [OF _ assms(4)]) auto
  have ne: "l \<in> ?L" using assms by simp
  obtain m where m: "m \<in> ?L" and max: "\<forall>l' \<in> ?L. length l' \<le> length m"
  proof -
    let ?M = "Max (length ` ?L)"
    have "?M \<in> length ` ?L" using fin ne by (intro Max_in) auto
    then obtain m where "m \<in> ?L" "length m = ?M" by (elim imageE) simp
    moreover have "\<forall>l' \<in> ?L. length l' \<le> ?M" using fin by (intro ballI Max_ge) auto
    ultimately show thesis by (intro that) auto
  qed
  then obtain y where y: "tbl t (h, m) = Some y" "prefix m path" by auto
  have up: "prefix l' m" if "prefix l' path" "tbl t (h, l') = Some z" for l' z
  proof -
    have "l' \<in> ?L" using that by simp
    with max have "length l' \<le> length m" by blast
    with that(1) y(2) show ?thesis by (rule prefix_length_prefix)
  qed
  then have "get t h path = Some (m, y)" using y by (auto simp: get_iff [OF assms(1)])
  moreover have "prefix l m" using up assms(2,3) by blast
  ultimately show ?thesis by blast
qed

text \<open>A lookup through the wildcards returns an entry of the table, under one of the host's names.\<close>

lemma lookup_sound:
  assumes "inv t" and "first_route (\<lambda>n. map_option (Pair n) (get t n path)) ns = Some (n, l, x)"
  shows "n \<in> set ns \<and> tbl t (n, l) = Some x \<and> prefix l path"
  using first_route_SomeD [OF assms(2)] by (auto simp: get_iff [OF assms(1)])

lemma lookup_unaffected:
  assumes "inv t" and "add h l x t = Some t'" and "h \<notin> set ns"
  shows "first_route (\<lambda>n. get t' n path) ns = first_route (\<lambda>n. get t n path) ns"
proof (rule first_route_cong)
  fix n assume "n \<in> set ns"
  with assms(3) have "n \<noteq> h" by blast
  with add_Some [OF assms(1,2)] assms(1) show "get t' n path = get t n path"
    by (intro get_cong) auto
qed

text \<open>Registering and removing a route leaves every lookup as it was.\<close>

lemma lookup_restored:
  assumes "inv t" and "add h l x t = Some t'"
  shows "get (del h l t') n path = get t n path"
proof -
  have none: "tbl t (h, l) = None"
    using assms add_None by (metis option.discI)
  have "inv t'" "tbl t' = (tbl t)((h, l) \<mapsto> x)" using add_Some [OF assms] by simp_all
  with none have "tbl (del h l t') = tbl t" using del_tbl [of t' h l] by auto
  then show ?thesis using assms(1) del_tbl [OF \<open>inv t'\<close>] by (intro get_cong) auto
qed

text \<open>Removing the entries of a list removes exactly those, and registering new ones and removing them
  all gives the table back.\<close>

lemma del_all:
  "inv t \<Longrightarrow> inv (fold (\<lambda>dl. del (fst dl) (snd dl)) ks t) \<and>
     tbl (fold (\<lambda>dl. del (fst dl) (snd dl)) ks t) = tbl t |` (- set ks)"
proof (induction ks arbitrary: t)
  case Nil
  then show ?case by (simp add: restrict_map_def)
next
  case (Cons k ks)
  from del_tbl [OF Cons.prems, of "fst k" "snd k"] Cons.IH show ?case
    by (auto simp: restrict_map_def fun_eq_iff)
qed

lemma del_all_restores:
  assumes "inv t'" and "tbl t' = tbl t ++ m" and "dom m = set ks" and "dom m \<inter> dom (tbl t) = {}"
  shows "tbl (fold (\<lambda>dl. del (fst dl) (snd dl)) ks t') = tbl t"
proof
  fix k
  have "tbl t k = None" if "k \<in> set ks" using assms(3,4) that by auto
  moreover have "m k = None" if "k \<notin> set ks" using assms(3) that by auto
  ultimately show "tbl (fold (\<lambda>dl. del (fst dl) (snd dl)) ks t') k = tbl t k"
    using assms(2) by (cases "k \<in> set ks") (simp_all add: del_all [OF assms(1)] restrict_map_def map_add_def)
qed

end

interpretation rt: route_table routers_ok table_of
    "\<lambda>r h path. map_option (\<lambda>vr. (rt_location vr, rt_payload vr)) (routers_get r h path)"
    routers_add routers_del
proof
  fix t :: "'p routers" and h path l x t'
  assume ok: "routers_ok t"
  show "map_option (\<lambda>vr. (rt_location vr, rt_payload vr)) (routers_get t h path) = Some (l, x) \<longleftrightarrow>
      prefix l path \<and> table_of t (h, l) = Some x \<and>
      (\<forall>l' y. prefix l' path \<longrightarrow> table_of t (h, l') = Some y \<longrightarrow> prefix l' l)"
    (is "?A \<longleftrightarrow> ?B")
  proof
    assume ?A
    then obtain vr where "routers_get t h path = Some vr" "rt_location vr = l" "rt_payload vr = x" by auto
    with routers_get_table [OF ok, of h path vr] show ?B by blast
  next
    assume ?B
    with routers_get_table [OF ok, of h path "\<lparr>rt_domain = h, rt_location = l, rt_payload = x\<rparr>"]
    show ?A by simp
  qed
  show "routers_add h l x t = None \<longleftrightarrow> table_of t (h, l) \<noteq> None"
    using routers_add_table(1) [OF ok, of h l x] by (metis option.discI)
  show "routers_add h l x t = Some t' \<Longrightarrow> routers_ok t' \<and> table_of t' = (table_of t)((h, l) \<mapsto> x)"
    by (rule routers_add_table(2) [OF ok])
  show "routers_ok (routers_del h l t) \<and> table_of (routers_del h l t) = (table_of t)((h, l) := None)"
    by (rule routers_del_table [OF ok])
qed

text \<open>The table of a slice is finite for each domain.\<close>

lemma table_of_finite: "finite {l. table_of r (h, l) \<noteq> None}"
proof (cases "r h")
  case None
  then show ?thesis by (simp add: table_of_def exist_def)
next
  case (Some vrs)
  have "{l. table_of r (h, l) \<noteq> None} \<subseteq> rt_location ` set vrs"
  proof
    fix l assume "l \<in> {l. table_of r (h, l) \<noteq> None}"
    then have "find_location l vrs \<noteq> None" using Some by (simp add: table_of_def exist_def)
    then show "l \<in> rt_location ` set vrs" using find_location_None [of l vrs] by simp
  qed
  then show ?thesis by (rule finite_subset) simp
qed

section \<open>Histories of a table\<close>

inductive routers_reachable :: "'p routers \<Rightarrow> bool" where
  reach_new: "routers_reachable new_routers"
| reach_add: "routers_reachable r \<Longrightarrow> routers_add d l x r = Some r' \<Longrightarrow> routers_reachable r'"
| reach_del: "routers_reachable r \<Longrightarrow> routers_reachable (routers_del d l r)"

lemma routers_reachable_ok: "routers_reachable r \<Longrightarrow> routers_ok r"
  by (induction rule: routers_reachable.induct)
    (auto intro: routers_ok_new dest: rt.add_Some rt.del_tbl)

section \<open>Properties\<close>

text \<open>C27: A lookup returns the most specific route: after any registrations and removals, \<^verbatim>\<open>Get\<close>
  answers with a route of that very domain whose location is a prefix of the path and extends
  every other registered location that is one, and it finds a route whenever one matches.\<close>

theorem routers_get_longest:
  assumes "routers_reachable r"
  shows "(\<forall>vr. routers_get r host path = Some vr \<longleftrightarrow>
      rt_domain vr = host \<and> prefix (rt_location vr) path \<and>
      table_of r (host, rt_location vr) = Some (rt_payload vr) \<and>
      (\<forall>l x. prefix l path \<longrightarrow> table_of r (host, l) = Some x \<longrightarrow> prefix l (rt_location vr))) \<and>
    (routers_get r host path = None \<longleftrightarrow> (\<forall>l. prefix l path \<longrightarrow> table_of r (host, l) = None))"
proof -
  note ok = routers_reachable_ok [OF assms]
  have "routers_get r host path = None \<longleftrightarrow> (\<forall>l. prefix l path \<longrightarrow> table_of r (host, l) = None)"
  proof
    assume "routers_get r host path = None"
    then show "\<forall>l. prefix l path \<longrightarrow> table_of r (host, l) = None"
      using rt.get_hits [OF ok _ _ table_of_finite] by fastforce
  next
    assume "\<forall>l. prefix l path \<longrightarrow> table_of r (host, l) = None"
    with routers_get_table [OF ok, of host path] show "routers_get r host path = None"
      by (metis option.discI not_Some_eq)
  qed
  then show ?thesis using routers_get_table [OF ok] by blast
qed

definition sample_routers :: "nat routers" where
  "sample_routers = the (routers_add ''a.com'' ''/x'' 2 (the (routers_add ''a.com'' '''' 1 new_routers)))"

lemma sample_routers_eq:
  "sample_routers = [''a.com'' \<mapsto> [\<lparr>rt_domain = ''a.com'', rt_location = ''/x'', rt_payload = 2\<rparr>,
     \<lparr>rt_domain = ''a.com'', rt_location = '''', rt_payload = 1\<rparr>]]"
  by (simp add: sample_routers_def new_routers_def routers_add_def exist_def sort_routers_def)

lemma sample_routers_reachable: "routers_reachable sample_routers"
proof -
  obtain r1 :: "nat routers" where r1: "routers_add ''a.com'' '''' 1 new_routers = Some r1"
    by (simp add: new_routers_def routers_add_def exist_def)
  obtain r2 where r2: "routers_add ''a.com'' ''/x'' 2 r1 = Some r2"
    using r1 by (auto simp: new_routers_def routers_add_def exist_def sort_routers_def)
  have "routers_reachable r2" by (rule reach_add [OF reach_add [OF reach_new r1] r2])
  then show ?thesis by (simp only: sample_routers_def r1 r2 option.sel)
qed

lemma routers_get_longest_witness:
  "map_option rt_payload (routers_get sample_routers ''a.com'' ''/x/y'') = Some 2"
proof -
  have "routers_get sample_routers ''a.com'' ''/x/y'' \<noteq> None"
    using routers_get_longest [OF sample_routers_reachable, of "''a.com''" "''/x/y''"]
    by (auto simp: sample_routers_eq table_of_def exist_def intro!: exI [of _ "''/x''"])
  then show ?thesis by (simp add: sample_routers_eq routers_get_def)
qed

text \<open>C26: The table of routes behaves as a map from (domain, location): a registration succeeds
  exactly when the pair is free and then only that pair changes, a removal frees exactly its
  pair, and registering then removing a route gives back every lookup.\<close>

theorem routers_table_map:
  assumes "routers_reachable r"
  shows "(routers_add d l x r = None \<longleftrightarrow> table_of r (d, l) \<noteq> None) \<and>
    table_of (routers_del d l r) = (table_of r)((d, l) := None) \<and>
    (\<forall>r'. routers_add d l x r = Some r' \<longrightarrow> table_of r' = (table_of r)((d, l) \<mapsto> x) \<and>
       (\<forall>h path. map_option rt_payload (routers_get (routers_del d l r') h path) =
                 map_option rt_payload (routers_get r h path)))"
proof -
  note ok = routers_reachable_ok [OF assms]
  have "map_option rt_payload (routers_get (routers_del d l r') h path) =
      map_option rt_payload (routers_get r h path)" if "routers_add d l x r = Some r'" for r' h path
    using arg_cong [OF rt.lookup_restored [OF ok that, of h path], of "map_option snd"]
    by (simp add: option.map_comp comp_def)
  then show ?thesis using rt.add_None [OF ok] rt.add_Some [OF ok] rt.del_tbl [OF ok] by blast
qed

lemma routers_table_map_witness:
  "routers_add ''a.com'' ''/x'' 3 sample_routers = None"
  using routers_table_map [OF sample_routers_reachable, of "''a.com''" "''/x''" 3]
  by (simp add: sample_routers_eq table_of_def exist_def)

end
