(* ===== verification/Vhost.thy ===== *)
theory Vhost
  imports Vhost_Router Util
begin

text \<open>
  The two clients of the routing table: \<^verbatim>\<open>HTTPReverseProxy\<close> (\<^verbatim>\<open>frp/pkg/util/vhost/http.go\<close>) and \<^verbatim>\<open>Muxer\<close>
  (\<^verbatim>\<open>vhost.go\<close>) with the CONNECT multiplexer (\<^verbatim>\<open>frp/pkg/util/tcpmux/httpconnect.go\<close>). A
  \<^verbatim>\<open>CreateConnFunc\<close> is an opaque handle, \<open>None\<close> for nil. HTTP parsing, base64 and the canonical form
  of header keys are parameters; the reverse proxy of the standard library is the pair of the
  director and the dial it makes.
\<close>

section \<open>\<^verbatim>\<open>HTTPReverseProxy\<close>\<close>

record 'h route_config =
  rc_domain :: string
  rc_location :: string
  rc_rewrite_host :: string
  rc_username :: string
  rc_password :: string
  rc_headers :: str_map
  rc_create_conn :: "'h option"

type_synonym 'h http_routers = "'h route_config routers"

definition http_register :: "'h route_config \<Rightarrow> 'h http_routers \<Rightarrow> 'h http_routers option" where
  "http_register routeCfg r = routers_add (rc_domain routeCfg) (rc_location routeCfg) routeCfg r"

definition http_unregister :: "string \<Rightarrow> string \<Rightarrow> 'h http_routers \<Rightarrow> 'h http_routers" where
  "http_unregister domain location r = routers_del domain location r"

function get_vhost_loop :: "'p routers \<Rightarrow> string \<Rightarrow> string list \<Rightarrow> 'p router option" where
  "get_vhost_loop r location domainSplit =
     (if length domainSplit < 3 then None
      else
        let domain = join ''.'' (domainSplit[0 := ''*'']) in
        case routers_get r domain location of
          Some vr \<Rightarrow> Some vr
        | None \<Rightarrow> get_vhost_loop r location (tl (domainSplit[0 := ''*''])))"
  by auto
termination by (relation "measure (\<lambda>(r, l, ds). length ds)") auto

declare get_vhost_loop.simps [simp del]

definition get_vhost :: "'p routers \<Rightarrow> string \<Rightarrow> string \<Rightarrow> 'p router option" where
  "get_vhost r domain location =
     (case routers_get r domain location of
        Some vr \<Rightarrow> Some vr
      | None \<Rightarrow>
          let domainSplit = split_on (CHR ''.'') domain in
          if length domainSplit < 3 then None else get_vhost_loop r location domainSplit)"

definition get_route_config :: "'h http_routers \<Rightarrow> string \<Rightarrow> string \<Rightarrow> 'h route_config option" where
  "get_route_config r domain location = map_option rt_payload (get_vhost r domain location)"

definition get_real_host :: "'h http_routers \<Rightarrow> string \<Rightarrow> string \<Rightarrow> string" where
  "get_real_host r domain location =
     (case get_vhost r domain location of None \<Rightarrow> [] | Some vr \<Rightarrow> rc_rewrite_host (rt_payload vr))"

definition get_headers :: "'h http_routers \<Rightarrow> string \<Rightarrow> string \<Rightarrow> str_map" where
  "get_headers r domain location =
     (case get_vhost r domain location of None \<Rightarrow> None | Some vr \<Rightarrow> rc_headers (rt_payload vr))"

text \<open>\<^verbatim>\<open>CreateConnection\<close>: the function that is called, \<open>None\<close> for the error \<^verbatim>\<open>no such domain\<close>.\<close>

definition create_connection :: "'h http_routers \<Rightarrow> string \<Rightarrow> string \<Rightarrow> 'h option" where
  "create_connection r domain location =
     (case get_vhost r domain location of
        None \<Rightarrow> None
      | Some vr \<Rightarrow> rc_create_conn (rt_payload vr))"

definition check_auth :: "'h http_routers \<Rightarrow> string \<Rightarrow> string \<Rightarrow> string \<Rightarrow> string \<Rightarrow> bool" where
  "check_auth r domain location user passwd =
     (case get_vhost r domain location of
        None \<Rightarrow> True
      | Some vr \<Rightarrow>
          let checkUser = rc_username (rt_payload vr); checkPasswd = rc_password (rt_payload vr) in
          \<not> ((checkUser \<noteq> [] \<or> checkPasswd \<noteq> []) \<and> (checkUser \<noteq> user \<or> checkPasswd \<noteq> passwd)))"

text \<open>A request, as far as the proxy looks at it; \<open>rq_basic_auth\<close> is the decoded basic authorization.\<close>

record http_request =
  rq_host :: string
  rq_url_scheme :: string
  rq_url_host :: string
  rq_url_path :: string
  rq_headers :: "string \<rightharpoonup> string list"
  rq_remote_addr :: string
  rq_basic_auth :: "string \<times> string"

text \<open>
  The library's parts: base64, the canonical form of a header key, and the order of a range over
  the configured headers.
\<close>

record http_env =
  he_base64 :: "string \<Rightarrow> string"
  he_canonical_key :: "string \<Rightarrow> string"
  he_range :: "str_map \<Rightarrow> (string \<times> string) list"

definition director :: "http_env \<Rightarrow> 'h http_routers \<Rightarrow> http_request \<Rightarrow> http_request" where
  "director env r req0 =
     (let req = req0\<lparr>rq_url_scheme := ''http''\<rparr>;
          url = rq_url_path req0;
          oldHost = get_host_from_addr (rq_host req0)
      in case get_route_config r oldHost url of
           None \<Rightarrow> req\<lparr>rq_url_host := rq_host req\<rparr>
         | Some rc \<Rightarrow>
             let req1 = (if rc_rewrite_host rc \<noteq> [] then req\<lparr>rq_host := rc_rewrite_host rc\<rparr> else req);
                 req2 = req1\<lparr>rq_url_host := rc_domain rc @ ''.'' @ he_base64 env (rc_location rc)\<rparr>
             in req2\<lparr>rq_headers := fold (\<lambda>(k, v) h. h(he_canonical_key env k \<mapsto> [v]))
                        (he_range env (rc_headers rc)) (rq_headers req2)\<rparr>)"

text \<open>
  \<^verbatim>\<open>ServeHTTP\<close>: refused, or rewritten and sent over the connection that the dialer creates for the
  host and path of the original request. A dial without a route ends in the page not found.
\<close>

datatype 'h http_outcome = Unauthorized | NotFoundPage | Forwarded http_request 'h

definition serve_http :: "http_env \<Rightarrow> 'h http_routers \<Rightarrow> http_request \<Rightarrow> 'h http_outcome" where
  "serve_http env r req =
     (let domain = get_host_from_addr (rq_host req); location = rq_url_path req in
      if \<not> check_auth r domain location (fst (rq_basic_auth req)) (snd (rq_basic_auth req)) then Unauthorized
      else case create_connection r domain location of
             None \<Rightarrow> NotFoundPage
           | Some h \<Rightarrow> Forwarded (director env r req) h)"

section \<open>\<^verbatim>\<open>Muxer\<close>\<close>

record vhost_listener =
  ln_id :: nat
  ln_name :: string
  ln_location :: string
  ln_rewrite_host :: string
  ln_user_name :: string
  ln_pass_word :: string

record muxer =
  mx_router :: "vhost_listener routers"
  mx_closed :: "nat set"
  mx_next :: nat

definition new_muxer :: muxer where
  "new_muxer = \<lparr>mx_router = new_routers, mx_closed = {}, mx_next = 0\<rparr>"

definition mux_listen :: "'h route_config \<Rightarrow> muxer \<Rightarrow> muxer \<times> vhost_listener option" where
  "mux_listen cfg v =
     (let l = \<lparr>ln_id = mx_next v, ln_name = rc_domain cfg, ln_location = rc_location cfg,
               ln_rewrite_host = rc_rewrite_host cfg, ln_user_name = rc_username cfg,
               ln_pass_word = rc_password cfg\<rparr>;
          v' = v\<lparr>mx_next := mx_next v + 1\<rparr>
      in case routers_add (rc_domain cfg) (rc_location cfg) l (mx_router v) of
           None \<Rightarrow> (v', None)
         | Some r \<Rightarrow> (v'\<lparr>mx_router := r\<rparr>, Some l))"

text \<open>\<^verbatim>\<open>Close\<close> closes the channel: closing it twice panics.\<close>

definition listener_close :: "vhost_listener \<Rightarrow> muxer \<Rightarrow> (unit, muxer) go" where
  "listener_close l v =
     (let v' = v\<lparr>mx_router := routers_del (ln_name l) (ln_location l) (mx_router v)\<rparr> in
      if ln_id l \<in> mx_closed v then Panic else Ok (v'\<lparr>mx_closed := insert (ln_id l) (mx_closed v)\<rparr>))"

function get_listener_loop :: "'p routers \<Rightarrow> string \<Rightarrow> string list \<Rightarrow> 'p option" where
  "get_listener_loop r path domainSplit =
     (if length domainSplit < 3 then None
      else
        let name = join ''.'' (domainSplit[0 := ''*'']) in
        case routers_get r name path of
          Some vr \<Rightarrow> Some (rt_payload vr)
        | None \<Rightarrow> get_listener_loop r path (tl (domainSplit[0 := ''*''])))"
  by auto
termination by (relation "measure (\<lambda>(r, l, ds). length ds)") auto

declare get_listener_loop.simps [simp del]

definition get_listener :: "muxer \<Rightarrow> string \<Rightarrow> string \<Rightarrow> vhost_listener option" where
  "get_listener v name path =
     (case routers_get (mx_router v) name path of
        Some vr \<Rightarrow> Some (rt_payload vr)
      | None \<Rightarrow>
          let domainSplit = split_on (CHR ''.'') name in
          if length domainSplit < 3 then None else get_listener_loop (mx_router v) path domainSplit)"

text \<open>
  A connection is handled in its own goroutine: \<open>v\<close> is the state at its lookup, \<open>v'\<close> the state when
  it is sent to the listener's channel, which panics (and is caught) if the channel was closed.
  What one connection brings: the outcome of the two calls that set a deadline, the request
  information (\<open>None\<close> for the error of \<^verbatim>\<open>vhostFunc\<close>), the outcome of \<^verbatim>\<open>successFunc\<close> and \<^verbatim>\<open>authFunc\<close>,
  \<open>None\<close> when the multiplexer has none.
\<close>

record mux_conn =
  mc_deadline_ok :: bool
  mc_info :: "(string \<rightharpoonup> string) option"
  mc_success :: "bool option"
  mc_auth :: "(string \<Rightarrow> string \<Rightarrow> string \<Rightarrow> bool \<times> bool) option"
  mc_reset_ok :: bool

datatype mux_outcome =
    MuxDropped
  | MuxNotFound
  | MuxNoAuth
  | MuxDelivered vhost_listener
  | MuxListenerClosed vhost_listener

definition info_at :: "(string \<rightharpoonup> string) \<Rightarrow> string \<Rightarrow> string" where
  "info_at m k = (case m k of None \<Rightarrow> [] | Some v \<Rightarrow> v)"

definition mux_handle :: "muxer \<Rightarrow> muxer \<Rightarrow> mux_conn \<Rightarrow> mux_outcome" where
  "mux_handle v v' c =
     (if \<not> mc_deadline_ok c then MuxDropped
      else case mc_info c of
        None \<Rightarrow> MuxDropped
      | Some reqInfoMap \<Rightarrow>
          let name = to_lower (info_at reqInfoMap ''Host''); path = to_lower (info_at reqInfoMap ''Path'') in
          case get_listener v name path of
            None \<Rightarrow> MuxNotFound
          | Some l \<Rightarrow>
              if mc_success c = Some False then MuxDropped
              else if (case mc_auth c of
                         None \<Rightarrow> False
                       | Some f \<Rightarrow> ln_user_name l \<noteq> [] \<and> ln_pass_word l \<noteq> [] \<and>
                           (case f (ln_user_name l) (ln_pass_word l) (info_at reqInfoMap ''Authorization'') of
                              (bAccess, failed) \<Rightarrow> \<not> bAccess \<or> failed)) then MuxNoAuth
              else if \<not> mc_reset_ok c then MuxDropped
              else if ln_id l \<in> mx_closed v' then MuxListenerClosed l
              else MuxDelivered l)"

text \<open>
  \<^verbatim>\<open>Accept\<close>: a connection from the channel, rewritten when the multiplexer has a rewriting function;
  \<open>None\<close> for its errors.
\<close>

definition listener_accept ::
    "('c \<Rightarrow> string \<Rightarrow> 'c option) option \<Rightarrow> vhost_listener \<Rightarrow> 'c option \<Rightarrow> 'c option" where
  "listener_accept rewriteFunc l received =
     (case received of
        None \<Rightarrow> None
      | Some conn \<Rightarrow>
          (case rewriteFunc of None \<Rightarrow> Some conn | Some f \<Rightarrow> f conn (ln_rewrite_host l)))"

section \<open>\<^verbatim>\<open>HTTPConnectTCPMuxer\<close>\<close>

text \<open>The parsed request (method and host), \<open>None\<close> when \<^verbatim>\<open>http.ReadRequest\<close> fails.\<close>

definition read_http_connect_request :: "(string \<times> string) option \<Rightarrow> string option" where
  "read_http_connect_request parsed =
     (case parsed of
        None \<Rightarrow> None
      | Some (meth, host) \<Rightarrow> if meth \<noteq> ''CONNECT'' then None else Some (get_host_from_addr host))"

definition get_host_from_http_connect :: "(string \<times> string) option \<Rightarrow> (string \<rightharpoonup> string) option" where
  "get_host_from_http_connect parsed =
     (case read_http_connect_request parsed of
        None \<Rightarrow> None
      | Some host \<Rightarrow> Some [''Host'' \<mapsto> host, ''Scheme'' \<mapsto> ''tcp''])"

section \<open>Lookups through the wildcards\<close>

lemma star_tl: "\<not> length ds < 3 \<Longrightarrow> ds[0 := ''*''] = ''*'' # tl ds"
  by (cases ds) auto

lemma get_vhost_loop_eq:
  "get_vhost_loop r location ds = first_route (\<lambda>n. routers_get r n location) (wildcard_names ds)"
proof (induction r location ds rule: get_vhost_loop.induct)
  case (1 r location ds)
  show ?case
  proof (cases "length ds < 3")
    case True
    then show ?thesis by (simp add: get_vhost_loop.simps wildcard_names.simps)
  next
    case False
    with 1 show ?thesis
      by (simp add: get_vhost_loop.simps [of r location ds] wildcard_names.simps [of ds] star_tl Let_def
          split: option.split)
  qed
qed

lemma get_listener_loop_eq:
  "get_listener_loop r path ds =
     map_option rt_payload (first_route (\<lambda>n. routers_get r n path) (wildcard_names ds))"
proof (induction r path ds rule: get_listener_loop.induct)
  case (1 r path ds)
  show ?case
  proof (cases "length ds < 3")
    case True
    then show ?thesis by (simp add: get_listener_loop.simps wildcard_names.simps)
  next
    case False
    with 1 show ?thesis
      by (simp add: get_listener_loop.simps [of r path ds] wildcard_names.simps [of ds] star_tl Let_def
          split: option.split)
  qed
qed

lemma get_vhost_eq: "get_vhost r domain path = first_route (\<lambda>n. routers_get r n path) (lookup_names domain)"
proof (cases "length (split_on (CHR ''.'') domain) < 3")
  case True
  then show ?thesis
    by (simp add: get_vhost_def lookup_names_def wildcard_names.simps Let_def split: option.split)
next
  case False
  then show ?thesis
    by (simp add: get_vhost_def lookup_names_def get_vhost_loop_eq Let_def split: option.split)
qed

lemma get_listener_eq:
  "get_listener v name path =
     map_option rt_payload (first_route (\<lambda>n. routers_get (mx_router v) n path) (lookup_names name))"
proof (cases "length (split_on (CHR ''.'') name) < 3")
  case True
  then show ?thesis
    by (simp add: get_listener_def lookup_names_def wildcard_names.simps Let_def split: option.split)
next
  case False
  then show ?thesis
    by (simp add: get_listener_def lookup_names_def get_listener_loop_eq Let_def split: option.split)
qed

text \<open>The wildcards of a host: \<^verbatim>\<open>*.\<close> and a proper suffix of at least two labels.\<close>

lemma wildcard_names_iff:
  "n \<in> set (wildcard_names ds) \<longleftrightarrow>
     (\<exists>us vs. ds = us @ vs \<and> us \<noteq> [] \<and> 2 \<le> length vs \<and> n = join ''.'' (''*'' # vs))"
proof (induction ds rule: wildcard_names.induct)
  case (1 ds)
  show ?case
  proof (cases "length ds < 3")
    case True
    then have "\<not> (\<exists>us vs. ds = us @ vs \<and> us \<noteq> [] \<and> 2 \<le> length vs)"
      by (auto simp: neq_Nil_conv)
    with True show ?thesis by (auto simp: wildcard_names.simps [of ds])
  next
    case False
    then obtain d ds' where ds: "ds = d # ds'" "2 \<le> length ds'" by (cases ds) auto
    have "n \<in> set (wildcard_names ds) \<longleftrightarrow> n = join ''.'' (''*'' # ds') \<or> n \<in> set (wildcard_names ds')"
      using False ds by (simp add: wildcard_names.simps [of "d # ds'"])
    also have "\<dots> \<longleftrightarrow> n = join ''.'' (''*'' # ds') \<or>
        (\<exists>us vs. ds' = us @ vs \<and> us \<noteq> [] \<and> 2 \<le> length vs \<and> n = join ''.'' (''*'' # vs))"
      using 1 False ds by simp
    also have "\<dots> \<longleftrightarrow> (\<exists>us vs. ds = us @ vs \<and> us \<noteq> [] \<and> 2 \<le> length vs \<and> n = join ''.'' (''*'' # vs))"
    proof
      assume "n = join ''.'' (''*'' # ds') \<or>
        (\<exists>us vs. ds' = us @ vs \<and> us \<noteq> [] \<and> 2 \<le> length vs \<and> n = join ''.'' (''*'' # vs))"
      then show "\<exists>us vs. ds = us @ vs \<and> us \<noteq> [] \<and> 2 \<le> length vs \<and> n = join ''.'' (''*'' # vs)"
      proof
        assume "n = join ''.'' (''*'' # ds')"
        with ds show ?thesis by (intro exI [of _ "[d]"] exI [of _ ds']) simp
      next
        assume "\<exists>us vs. ds' = us @ vs \<and> us \<noteq> [] \<and> 2 \<le> length vs \<and> n = join ''.'' (''*'' # vs)"
        then obtain us vs where "ds' = us @ vs" "2 \<le> length vs" "n = join ''.'' (''*'' # vs)" by blast
        with ds show ?thesis by (intro exI [of _ "d # us"] exI [of _ vs]) simp
      qed
    next
      assume "\<exists>us vs. ds = us @ vs \<and> us \<noteq> [] \<and> 2 \<le> length vs \<and> n = join ''.'' (''*'' # vs)"
      then obtain us vs where u: "ds = us @ vs" "us \<noteq> []" "2 \<le> length vs" "n = join ''.'' (''*'' # vs)" by blast
      with ds obtain us' where "us = d # us'" "ds' = us' @ vs" by (cases us) auto
      show "n = join ''.'' (''*'' # ds') \<or>
        (\<exists>us vs. ds' = us @ vs \<and> us \<noteq> [] \<and> 2 \<le> length vs \<and> n = join ''.'' (''*'' # vs))"
      proof (cases "us' = []")
        case True
        with u \<open>ds' = us' @ vs\<close> show ?thesis by simp
      next
        case False
        with u \<open>ds' = us' @ vs\<close> show ?thesis by blast
      qed
    qed
    finally show ?thesis .
  qed
qed


lemma split_on_chars: "w \<in> set (split_on c s) \<Longrightarrow> set w \<subseteq> set s"
proof (induction s arbitrary: w)
  case Nil
  then show ?case by simp
next
  case (Cons x s)
  show ?case
  proof (cases "x = c")
    case True
    with Cons show ?thesis by (auto split: list.split_asm)
  next
    case False
    obtain p ps where p: "split_on c s = p # ps" by (cases "split_on c s") simp_all
    with Cons.prems False have "w = x # p \<or> w \<in> set ps" by (simp split: if_split_asm)
    with Cons.IH p have "w = x # p \<and> set p \<subseteq> set s \<or> set w \<subseteq> set s" by auto
    then show ?thesis by auto
  qed
qed

lemma to_lower_id_iff: "to_lower s = s \<longleftrightarrow> (\<forall>c \<in> set s. to_lower_char c = c)"
proof
  assume "to_lower s = s"
  then have "map to_lower_char s = map (\<lambda>c. c) s" by (simp add: to_lower_def)
  then show "\<forall>c \<in> set s. to_lower_char c = c" by (simp only: map_eq_conv)
next
  assume "\<forall>c \<in> set s. to_lower_char c = c"
  then show "to_lower s = s" by (simp add: to_lower_def map_idI)
qed

lemma lookup_names_lower:
  assumes "n \<in> set (lookup_names (to_lower h))"
  shows "to_lower n = n"
proof -
  have low: "to_lower_char c = c" if "c \<in> set (to_lower h)" for c
    using that by (auto simp: to_lower_def)
  have "c \<in> set (to_lower h) \<or> c = CHR ''.'' \<or> c = CHR ''*''" if "c \<in> set n" for c
  proof (cases "n = to_lower h")
    case False
    with assms obtain us vs where s: "split_on (CHR ''.'') (to_lower h) = us @ vs"
      and n: "n = join ''.'' (''*'' # vs)"
      by (auto simp: lookup_names_def wildcard_names_iff)
    from that n join_chars [of c "''.''" "''*'' # vs"] consider "c = CHR ''.''" | "c = CHR ''*''"
      | w where "w \<in> set vs" "c \<in> set w" by auto
    then show ?thesis
    proof cases
      case 3
      with s have "w \<in> set (split_on (CHR ''.'') (to_lower h))" by simp
      with 3 split_on_chars show ?thesis by blast
    qed auto
  qed (use that in simp)
  moreover have "to_lower_char (CHR ''.'') = CHR ''.''" "to_lower_char (CHR ''*'') = CHR ''*''"
    by (simp_all add: to_lower_char_def)
  ultimately show ?thesis using low by (auto simp: to_lower_id_iff)
qed

section \<open>Histories of a multiplexer\<close>

inductive mux_reachable :: "muxer \<Rightarrow> bool" where
  mux_new: "mux_reachable new_muxer"
| mux_listened: "mux_reachable v \<Longrightarrow> mux_listen (cfg :: nat route_config) v = (v', l) \<Longrightarrow> mux_reachable v'"
| mux_closed: "mux_reachable v \<Longrightarrow> table_of (mx_router v) (ln_name l, ln_location l) = Some l \<Longrightarrow>
     listener_close l v = Ok v' \<Longrightarrow> mux_reachable v'"

definition mux_inv :: "muxer \<Rightarrow> bool" where
  "mux_inv v \<longleftrightarrow> routers_ok (mx_router v) \<and>
     (\<forall>d l x. table_of (mx_router v) (d, l) = Some x \<longrightarrow>
        ln_name x = d \<and> ln_location x = l \<and> ln_id x < mx_next v \<and> ln_id x \<notin> mx_closed v) \<and>
     (\<forall>dl dl' x y. table_of (mx_router v) dl = Some x \<longrightarrow> table_of (mx_router v) dl' = Some y \<longrightarrow>
        ln_id x = ln_id y \<longrightarrow> dl = dl') \<and>
     (\<forall>i \<in> mx_closed v. i < mx_next v)"

lemma mux_inv_new: "mux_inv new_muxer"
  by (simp add: mux_inv_def new_muxer_def routers_ok_new table_of_new)

lemma mux_inv_entryD:
  "mux_inv v \<Longrightarrow> table_of (mx_router v) (d, l) = Some x \<Longrightarrow>
   ln_name x = d \<and> ln_location x = l \<and> ln_id x < mx_next v \<and> ln_id x \<notin> mx_closed v"
  unfolding mux_inv_def by blast

lemma mux_inv_uniqueD:
  "mux_inv v \<Longrightarrow> table_of (mx_router v) dl = Some x \<Longrightarrow> table_of (mx_router v) dl' = Some y \<Longrightarrow>
   ln_id x = ln_id y \<Longrightarrow> dl = dl'"
  unfolding mux_inv_def by blast

lemma mux_inv_closedD: "mux_inv v \<Longrightarrow> i \<in> mx_closed v \<Longrightarrow> i < mx_next v"
  unfolding mux_inv_def by blast

lemma mux_inv_routersD: "mux_inv v \<Longrightarrow> routers_ok (mx_router v)"
  unfolding mux_inv_def by blast

lemma mux_invI:
  assumes "routers_ok (mx_router v)"
    and "\<And>d l x. table_of (mx_router v) (d, l) = Some x \<Longrightarrow>
      ln_name x = d \<and> ln_location x = l \<and> ln_id x < mx_next v \<and> ln_id x \<notin> mx_closed v"
    and "\<And>dl dl' x y. table_of (mx_router v) dl = Some x \<Longrightarrow> table_of (mx_router v) dl' = Some y \<Longrightarrow>
      ln_id x = ln_id y \<Longrightarrow> dl = dl'"
    and "\<And>i. i \<in> mx_closed v \<Longrightarrow> i < mx_next v"
  shows "mux_inv v"
  unfolding mux_inv_def using assms by blast

lemma mux_inv_bound: "mux_inv v \<Longrightarrow> table_of (mx_router v) dl = Some x \<Longrightarrow> ln_id x \<noteq> mx_next v"
  using mux_inv_entryD [of v "fst dl" "snd dl" x] by simp

lemma mux_inv_next: "mux_inv v \<Longrightarrow> mux_inv (v\<lparr>mx_next := mx_next v + 1\<rparr>)"
  by (force simp: mux_inv_def)

lemma mux_inv_insert:
  assumes "mux_inv v" and "routers_ok r" and "table_of r = (table_of (mx_router v))((ln_name x, ln_location x) \<mapsto> x)"
    and "ln_id x = mx_next v"
  shows "mux_inv (v\<lparr>mx_next := mx_next v + 1, mx_router := r\<rparr>)"
proof (rule mux_invI)
  note entry = mux_inv_entryD [OF assms(1)] and bound = mux_inv_bound [OF assms(1)]
  have fresh: "mx_next v \<notin> mx_closed v" using mux_inv_closedD [OF assms(1)] by blast
  let ?v = "v\<lparr>mx_next := mx_next v + 1, mx_router := r\<rparr>"
  show "routers_ok (mx_router ?v)" using assms(2) by simp
  fix d l y assume "table_of (mx_router ?v) (d, l) = Some y"
  then show "ln_name y = d \<and> ln_location y = l \<and> ln_id y < mx_next ?v \<and> ln_id y \<notin> mx_closed ?v"
    using entry [of d l y] fresh assms(3,4) by (auto split: if_split_asm)
next
  let ?v = "v\<lparr>mx_next := mx_next v + 1, mx_router := r\<rparr>"
  fix dl dl' y z
  assume "table_of (mx_router ?v) dl = Some y" "table_of (mx_router ?v) dl' = Some z" "ln_id y = ln_id z"
  then show "dl = dl'"
    using mux_inv_bound [OF assms(1), of dl y] mux_inv_bound [OF assms(1), of dl' z]
      mux_inv_uniqueD [OF assms(1), of dl y dl' z] assms(3,4) by (auto split: if_split_asm)
next
  fix i assume "i \<in> mx_closed (v\<lparr>mx_next := mx_next v + 1, mx_router := r\<rparr>)"
  with mux_inv_closedD [OF assms(1), of i] show "i < mx_next (v\<lparr>mx_next := mx_next v + 1, mx_router := r\<rparr>)" by simp
qed

lemma mux_inv_listen [frp_inv]:
  assumes "mux_inv v" and "mux_listen cfg v = (v', l)"
  shows "mux_inv v'"
proof -
  let ?l = "\<lparr>ln_id = mx_next v, ln_name = rc_domain cfg, ln_location = rc_location cfg,
     ln_rewrite_host = rc_rewrite_host cfg, ln_user_name = rc_username cfg, ln_pass_word = rc_password cfg\<rparr>"
  show ?thesis
  proof (cases "routers_add (rc_domain cfg) (rc_location cfg) ?l (mx_router v)")
    case None
    with assms(2) mux_inv_next [OF assms(1)] show ?thesis by (auto simp: mux_listen_def Let_def)
  next
    case (Some r)
    have "mux_inv (v\<lparr>mx_next := mx_next v + 1, mx_router := r\<rparr>)"
      using rt.add_Some [OF mux_inv_routersD [OF assms(1)] Some] by (intro mux_inv_insert [OF assms(1), of r ?l]) simp_all
    with assms(2) Some show ?thesis by (auto simp: mux_listen_def Let_def)
  qed
qed

lemma mux_inv_close [frp_inv]:
  assumes "mux_inv v" and "table_of (mx_router v) (ln_name l, ln_location l) = Some l"
    and "listener_close l v = Ok v'"
  shows "mux_inv v'"
proof -
  let ?k = "(ln_name l, ln_location l)"
  note ok = mux_inv_routersD [OF assms(1)]
  note entry = mux_inv_entryD [OF assms(1)] and uniq = mux_inv_uniqueD [OF assms(1)]
  have v': "v' = v\<lparr>mx_router := routers_del (ln_name l) (ln_location l) (mx_router v),
      mx_closed := insert (ln_id l) (mx_closed v)\<rparr>"
    using assms(3) by (simp add: listener_close_def Let_def split: if_split_asm)
  have r: "routers_ok (mx_router v')" "table_of (mx_router v') = (table_of (mx_router v))(?k := None)"
    using rt.del_tbl [OF ok, of "ln_name l" "ln_location l"] v' by simp_all
  show ?thesis
  proof (rule mux_invI)
    show "routers_ok (mx_router v')" by (rule r)
  next
    fix d q x assume t: "table_of (mx_router v') (d, q) = Some x"
    with r have t': "table_of (mx_router v) (d, q) = Some x" and ne: "(d, q) \<noteq> ?k"
      by (auto split: if_split_asm)
    have "ln_id x \<noteq> ln_id l" using uniq [OF t' assms(2)] ne by blast
    with entry [OF t'] v' show "ln_name x = d \<and> ln_location x = q \<and> ln_id x < mx_next v' \<and> ln_id x \<notin> mx_closed v'"
      by simp
  next
    fix dl dl' x y
    assume "table_of (mx_router v') dl = Some x" "table_of (mx_router v') dl' = Some y" "ln_id x = ln_id y"
    with r uniq [of dl x dl' y] show "dl = dl'" by (auto split: if_split_asm)
  next
    fix i assume "i \<in> mx_closed v'"
    with mux_inv_closedD [OF assms(1), of i] entry [OF assms(2)] v' show "i < mx_next v'" by auto
  qed
qed

lemma mux_reachable_inv: "mux_reachable v \<Longrightarrow> mux_inv v"
  by (induction rule: mux_reachable.induct) (auto intro: mux_inv_new mux_inv_listen mux_inv_close)


section \<open>Properties\<close>

text \<open>Both clients of the table look a host up in the same way: under its own name first and
  then, when it has at least three labels, under \<^verbatim>\<open>*.\<close> followed by each proper suffix of at least
  two labels, the longest suffix first; the answer is the first of these that has a matching
  route, so a wildcard never hides an exact route or a more specific wildcard.\<close>

theorem vhost_lookup_order:
  "(get_vhost r d path = Some vr \<longleftrightarrow>
      (\<exists>i < length (lookup_names d). routers_get r (lookup_names d ! i) path = Some vr \<and>
         (\<forall>j < i. routers_get r (lookup_names d ! j) path = None))) \<and>
   (\<forall>n. n \<in> set (lookup_names d) \<longleftrightarrow> n = d \<or>
      (\<exists>us vs. split_on (CHR ''.'') d = us @ vs \<and> us \<noteq> [] \<and> 2 \<le> length vs \<and> n = join ''.'' (''*'' # vs))) \<and>
   get_listener v d path = map_option rt_payload (get_vhost (mx_router v) d path)"
proof -
  have first: "first_route f ns = Some x \<longleftrightarrow> (\<exists>i < length ns. f (ns ! i) = Some x \<and> (\<forall>j < i. f (ns ! j) = None))"
    for f :: "string \<Rightarrow> 'b option" and ns x
  proof (induction ns)
    case Nil
    then show ?case by simp
  next
    case (Cons n ns)
    show ?case
    proof (cases "f n")
      case None
      have "(\<exists>i < length (n # ns). f ((n # ns) ! i) = Some x \<and> (\<forall>j < i. f ((n # ns) ! j) = None)) \<longleftrightarrow>
          (\<exists>i < length ns. f (ns ! i) = Some x \<and> (\<forall>j < i. f (ns ! j) = None))"
      proof
        assume "\<exists>i < length (n # ns). f ((n # ns) ! i) = Some x \<and> (\<forall>j < i. f ((n # ns) ! j) = None)"
        then obtain i where i: "i < length (n # ns)" "f ((n # ns) ! i) = Some x"
          "\<forall>j < i. f ((n # ns) ! j) = None" by blast
        with None obtain k where k: "i = Suc k" by (cases i) auto
        have "f (ns ! j) = None" if "j < k" for j using i(3) [rule_format, of "Suc j"] that k by simp
        with i k show "\<exists>i < length ns. f (ns ! i) = Some x \<and> (\<forall>j < i. f (ns ! j) = None)"
          by (intro exI [of _ k]) simp
      next
        assume "\<exists>i < length ns. f (ns ! i) = Some x \<and> (\<forall>j < i. f (ns ! j) = None)"
        then obtain i where i: "i < length ns" "f (ns ! i) = Some x" "\<forall>j < i. f (ns ! j) = None" by blast
        have "f ((n # ns) ! j) = None" if "j < Suc i" for j using that None i(3) by (cases j) auto
        with i show "\<exists>i < length (n # ns). f ((n # ns) ! i) = Some x \<and> (\<forall>j < i. f ((n # ns) ! j) = None)"
          by (intro exI [of _ "Suc i"]) simp
      qed
      with None Cons.IH show ?thesis by simp
    next
      case (Some y)
      then show ?thesis by (auto intro!: exI [of _ 0] elim: allE [of _ 0] simp: nth_Cons split: nat.split_asm)
    qed
  qed
  show ?thesis
    using first [of "\<lambda>n. routers_get r n path" "lookup_names d" vr]
    by (simp add: get_vhost_eq get_listener_eq lookup_names_def wildcard_names_iff)
qed
lemma vhost_lookup_order_witness:
  "get_vhost [''*.b.c'' \<mapsto> [\<lparr>rt_domain = ''*.b.c'', rt_location = [], rt_payload = 7 :: nat\<rparr>]] ''a.b.c'' ''/x'' =
     Some \<lparr>rt_domain = ''*.b.c'', rt_location = [], rt_payload = 7\<rparr>"
proof -
  have names: "lookup_names ''a.b.c'' = [''a.b.c'', ''*.b.c'']"
    by (simp add: lookup_names_def wildcard_names.simps)
  show ?thesis
    by (rule vhost_lookup_order [THEN conjunct1, THEN iffD2], rule exI [of _ 1])
      (simp add: names routers_get_def less_Suc_eq)
qed

text \<open>A request is forwarded only with the credentials of the route that serves it: the route
  whose credentials are checked, the route that rewrites the request and the route whose
  connection is dialed are one and the same, the one that the request's own host and path lead
  to; the request is refused exactly when that route asks for a user or a password and the
  request's differ, and a host without a route gets the page not found.\<close>

theorem serve_http_guarded:
  "serve_http env r req =
    (case get_vhost r (get_host_from_addr (rq_host req)) (rq_url_path req) of
       None \<Rightarrow> NotFoundPage
     | Some vr \<Rightarrow>
         let rc = rt_payload vr in
         if (rc_username rc, rc_password rc) \<noteq> ([], []) \<and> rq_basic_auth req \<noteq> (rc_username rc, rc_password rc)
         then Unauthorized
         else case rc_create_conn rc of
                None \<Rightarrow> NotFoundPage
              | Some h \<Rightarrow> Forwarded (director env r req) h)"
  by (auto simp: serve_http_def check_auth_def create_connection_def Let_def prod_eq_iff split: option.split)


definition sample_mux_conn :: mux_conn where
  "sample_mux_conn =
     \<lparr>mc_deadline_ok = True, mc_info = Some [''Host'' \<mapsto> ''A.b''], mc_success = None, mc_auth = None,
      mc_reset_ok = True\<rparr>"

definition sample_route :: "nat route_config" where
  "sample_route = \<lparr>rc_domain = ''a.b'', rc_location = [], rc_rewrite_host = [], rc_username = [],
     rc_password = [], rc_headers = None, rc_create_conn = None\<rparr>"


end
