(* ===== verification/Handshake.thy ===== *)
theory Handshake
  imports Go_Strings
begin

text \<open>
  \<^verbatim>\<open>readHandshake\<close> of \<^verbatim>\<open>frp/pkg/util/vhost/https.go\<close>: the server name of a TLS ClientHello, read
  from bytes that a stranger sends. Every index and every slice is checked as Go checks it, so a
  run-time panic is a value of the model.
\<close>

type_synonym byte = "8 word"

datatype handshake_error =
    ReadError
  | NotClientHello
  | SessionIdLong
  | AfterSessionShort
  | AfterCipherShort
  | CipherSuiteLong
  | CompressionLong
  | NoExtensionData
  | ExtensionDataShort
  | ExtensionsLenWrong
  | ExtensionHeaderShort
  | ExtensionLong
  | RenegotiationInfo
  | ServerNameListShort
  | ServerNameListWrong
  | ServerNameShort
  | ServerNameWrong
  | UnknownError

definition extensionServerName :: nat where "extensionServerName = 0"
definition extensionStatusRequest :: nat where "extensionStatusRequest = 5"
definition extensionNextProtoNeg :: nat where "extensionNextProtoNeg = 13172"
definition extensionRenegotiationInfo :: nat where "extensionRenegotiationInfo = 0xff01"
definition typeClientHello :: byte where "typeClientHello = 1"

type_synonym 'a hs = "(handshake_error, 'a) go"

text \<open>\<^verbatim>\<open>int(data[i])<<8 | int(data[i+1])\<close>.\<close>

definition be16 :: "byte list \<Rightarrow> nat \<Rightarrow> nat hs" where
  "be16 data i = go_then (go_index data i) (\<lambda>a. go_then (go_index data (i + 1)) (\<lambda>b. Ok (unat a * 256 + unat b)))"

definition bytes_string :: "byte list \<Rightarrow> string" where
  "bytes_string = map (\<lambda>b. char_of (unat b))"

lemma go_then_cong [fundef_cong]:
  "m = m' \<Longrightarrow> (\<And>x. m' = Ok x \<Longrightarrow> k x = k' x) \<Longrightarrow> go_then m k = go_then m' k'"
  by (cases m') auto

lemma slice_from_eq_Ok: "slice_from i xs = Ok ys \<longleftrightarrow> i \<le> length xs \<and> ys = drop i xs"
  by (auto simp: slice_from_def)

text \<open>The list of server names: the first of type 0 is the answer, \<open>None\<close> when there is none.\<close>

function server_names :: "byte list \<Rightarrow> string option hs" where
  "server_names d =
     (if length d = 0 then Ok None
      else if length d < 3 then Fail ServerNameShort
      else go_then (go_index d 0) (\<lambda>nameType.
           go_then (be16 d 1) (\<lambda>nameLen.
           go_then (slice_from 3 d) (\<lambda>d.
             if length d < nameLen then Fail ServerNameWrong
             else if nameType = 0 then
               go_then (slice_to nameLen d) (\<lambda>serverName. Ok (Some (trim_space (bytes_string serverName))))
             else go_then (slice_from nameLen d) (\<lambda>d. server_names d)))))"
  by auto
termination by (relation "measure length") (auto simp: slice_from_eq_Ok)

declare server_names.simps [simp del]

text \<open>One extension with its data: an error, the host, or nothing.\<close>

definition extension_data :: "nat \<Rightarrow> nat \<Rightarrow> byte list \<Rightarrow> string option hs" where
  "extension_data extension len data =
     (if extension = extensionRenegotiationInfo then
        (if len \<noteq> 1 then Fail RenegotiationInfo
         else go_then (go_index data 0) (\<lambda>b. if b \<noteq> 0 then Fail RenegotiationInfo else Ok None))
      else if extension = extensionNextProtoNeg then Ok None
      else if extension = extensionStatusRequest then Ok None
      else if extension = extensionServerName then
        go_then (slice_to len data) (\<lambda>d.
          if length d < 2 then Fail ServerNameListShort
          else go_then (be16 d 0) (\<lambda>namesLen.
               go_then (slice_from 2 d) (\<lambda>d.
                 if length d \<noteq> namesLen then Fail ServerNameListWrong else server_names d)))
      else Ok None)"

function extensions :: "byte list \<Rightarrow> string hs" where
  "extensions data =
     (if length data = 0 then Fail UnknownError
      else if length data < 4 then Fail ExtensionHeaderShort
      else go_then (be16 data 0) (\<lambda>extension.
           go_then (be16 data 2) (\<lambda>len.
           go_then (slice_from 4 data) (\<lambda>data.
             if length data < len then Fail ExtensionLong
             else go_then (extension_data extension len data) (\<lambda>found.
               case found of
                 Some host \<Rightarrow> Ok host
               | None \<Rightarrow> go_then (slice_from len data) (\<lambda>data. extensions data))))))"
  by auto
termination by (relation "measure length") (auto simp: slice_from_eq_Ok)

declare extensions.simps [simp del]

text \<open>The message once it is read.\<close>

definition parse_hello :: "byte list \<Rightarrow> string hs" where
  "parse_hello data =
     go_then (go_index data 5) (\<lambda>t. if t \<noteq> typeClientHello then Fail NotClientHello else
     go_then (go_index data 43) (\<lambda>s. let sessionIDLen = unat s in
       if sessionIDLen > 32 \<or> length data < 44 + sessionIDLen then Fail SessionIdLong else
     go_then (slice_from (44 + sessionIDLen) data) (\<lambda>data.
       if length data < 2 then Fail AfterSessionShort else
     go_then (be16 data 0) (\<lambda>cipherSuiteLen.
       if cipherSuiteLen mod 2 = 1 \<or> length data < 2 + cipherSuiteLen then Fail AfterCipherShort else
     go_then (slice_from (2 + cipherSuiteLen) data) (\<lambda>data.
       if length data < 1 then Fail CipherSuiteLong else
     go_then (go_index data 0) (\<lambda>c. let compressionMethodsLen = unat c in
       if length data < 1 + compressionMethodsLen then Fail CompressionLong else
     go_then (slice_from (1 + compressionMethodsLen) data) (\<lambda>data.
       if length data = 0 then Fail NoExtensionData else
       if length data < 2 then Fail ExtensionDataShort else
     go_then (be16 data 0) (\<lambda>extensionsLength.
     go_then (slice_from 2 data) (\<lambda>data.
       if extensionsLength \<noteq> length data then Fail ExtensionsLenWrong else extensions data)))))))))"

text \<open>
  \<open>first\<close> is the result of \<^verbatim>\<open>io.ReadFull(rd, data[:47])\<close>, \<open>second\<close> that of the one \<^verbatim>\<open>rd.Read(data[47:])\<close>
  into the rest of the 1024-byte buffer; \<open>None\<close> is an error.
\<close>

definition read_handshake :: "byte list option \<Rightarrow> byte list option \<Rightarrow> string hs" where
  "read_handshake first second =
     (case first of
        None \<Rightarrow> Fail ReadError
      | Some a \<Rightarrow> (case second of None \<Rightarrow> Fail ReadError | Some b \<Rightarrow> parse_hello (a @ b)))"

definition get_https_hostname :: "byte list option \<Rightarrow> byte list option \<Rightarrow> (string \<rightharpoonup> string) option" where
  "get_https_hostname first second =
     (case read_handshake first second of
        Ok host \<Rightarrow> Some [''Host'' \<mapsto> host, ''Scheme'' \<mapsto> ''https'']
      | _ \<Rightarrow> None)"

section \<open>No byte sequence makes the reader panic\<close>

lemma be16_Ok: "i + 1 < length d \<Longrightarrow> be16 d i = Ok (unat (d ! i) * 256 + unat (d ! (i + 1)))"
  by (simp add: be16_def)

lemma server_names_no_panic: "server_names d \<noteq> Panic"
proof (induction d rule: server_names.induct)
  case (1 d)
  show ?case
  proof (cases "length d < 3")
    case True
    then show ?thesis by (simp add: server_names.simps [of d])
  next
    case False
    let ?l = "unat (d ! 1) * 256 + unat (d ! 2)"
    have e: "be16 d 1 = Ok ?l" "go_index d 0 = Ok (d ! 0)" "slice_from 3 d = Ok (drop 3 d)"
    proof -
      from False have "1 + 1 < length d" "0 < length d" by linarith+
      then show "be16 d 1 = Ok ?l" "go_index d 0 = Ok (d ! 0)"
        using be16_Ok [of 1 d] by (simp_all only: go_index_Ok one_add_one)
      from False show "slice_from 3 d = Ok (drop 3 d)" by simp
    qed
    have len: "(length d = 0) = False" "(length d < 3) = False" using False by auto
    have step: "server_names d = (if length (drop 3 d) < ?l then Fail ServerNameWrong
        else if d ! 0 = 0 then Ok (Some (trim_space (bytes_string (take ?l (drop 3 d)))))
        else server_names (drop ?l (drop 3 d)))"
      by (subst server_names.simps) (simp only: len e go_then.simps if_False, auto)
    show ?thesis
    proof (cases "length (drop 3 d) < ?l \<or> d ! 0 = 0")
      case True
      then show ?thesis unfolding step by auto
    next
      case F: False
      have "server_names (drop ?l (drop 3 d)) \<noteq> Panic"
        by (rule "1.IH" [OF _ _ e(2) e(1) e(3)]) (use F False in auto)
      with F show ?thesis unfolding step by simp
    qed
  qed
qed

lemma extension_data_no_panic: "len \<le> length data \<Longrightarrow> extension_data ext len data \<noteq> Panic"
proof -
  assume l: "len \<le> length data"
  have names: "go_then (slice_to len data) (\<lambda>d. if length d < 2 then Fail ServerNameListShort
      else go_then (be16 d 0) (\<lambda>namesLen. go_then (slice_from 2 d) (\<lambda>d.
        if length d \<noteq> namesLen then Fail ServerNameListWrong else server_names d))) \<noteq> Panic"
    using l by (auto simp: server_names_no_panic be16_Ok)
  have info: "go_then (go_index data 0) (\<lambda>b. if b \<noteq> 0 then Fail RenegotiationInfo else Ok None) \<noteq>
      (Panic :: string option hs)"
    if "len = 1"
    using that l by (cases data) auto
  show ?thesis
    using names info unfolding extension_data_def by (cases "len = 1"; simp only: if_True if_False split: if_split; blast)
qed

lemma extensions_no_panic: "extensions d \<noteq> Panic"
proof (induction d rule: extensions.induct)
  case (1 d)
  show ?case
  proof (cases "length d < 4")
    case True
    then show ?thesis by (simp add: extensions.simps [of d])
  next
    case False
    let ?x = "unat (d ! 0) * 256 + unat (d ! 1)" and ?l = "unat (d ! 2) * 256 + unat (d ! 3)"
    have e: "be16 d 0 = Ok ?x" "be16 d 2 = Ok ?l" "slice_from 4 d = Ok (drop 4 d)"
    proof -
      from False have "0 + 1 < length d" "2 + 1 < length d" by linarith+
      from be16_Ok [OF this(1)] be16_Ok [OF this(2)]
      show "be16 d 0 = Ok ?x" "be16 d 2 = Ok ?l" by simp_all
      from False show "slice_from 4 d = Ok (drop 4 d)" by simp
    qed
    show ?thesis
    proof (cases "length (drop 4 d) < ?l")
      case True
      with False show ?thesis by (simp add: extensions.simps [of d] e)
    next
      case F: False
      have np: "extension_data ?x ?l (drop 4 d) \<noteq> Panic"
        using F by (intro extension_data_no_panic) simp
      show ?thesis
      proof (cases "extension_data ?x ?l (drop 4 d)")
        case (Ok found)
        show ?thesis
        proof (cases found)
          case None
          have "extensions (drop ?l (drop 4 d)) \<noteq> Panic"
            by (rule "1.IH") (use F False e Ok None in auto)
          with Ok None F False show ?thesis by (simp add: extensions.simps [of d] e)
        next
          case (Some host)
          with Ok F False show ?thesis by (simp add: extensions.simps [of d] e)
        qed
      next
        case (Fail err)
        with F False show ?thesis by (simp add: extensions.simps [of d] e)
      next
        case Panic
        with np show ?thesis by contradiction
      qed
    qed
  qed
qed

lemma parse_hello_no_panic: "44 \<le> length data \<Longrightarrow> parse_hello data \<noteq> Panic"
  by (auto simp: parse_hello_def Let_def extensions_no_panic be16_Ok)

section \<open>The name that a client sends is the name that is read\<close>

definition bytes16 :: "nat \<Rightarrow> byte list" where
  "bytes16 n = [of_nat (n div 256), of_nat n]"

definition encode_extension :: "nat \<times> byte list \<Rightarrow> byte list" where
  "encode_extension e = bytes16 (fst e) @ bytes16 (length (snd e)) @ snd e"

definition encode_server_name :: "byte list \<Rightarrow> nat \<times> byte list" where
  "encode_server_name name =
     (extensionServerName, bytes16 (length name + 3) @ [0] @ bytes16 (length name) @ name)"

definition encode_hello :: "byte list \<Rightarrow> byte list \<Rightarrow> byte list \<Rightarrow> byte list \<Rightarrow> (nat \<times> byte list) list \<Rightarrow> byte list" where
  "encode_hello header session ciphers compressions exts =
     (let e = concat (map encode_extension exts) in
      header @ [of_nat (length session)] @ session @ bytes16 (length ciphers) @ ciphers @
      [of_nat (length compressions)] @ compressions @ bytes16 (length e) @ e)"

definition plain_extension :: "nat \<times> byte list \<Rightarrow> bool" where
  "plain_extension e \<longleftrightarrow> fst e < 65536 \<and> length (snd e) < 65536 \<and> fst e \<noteq> extensionServerName \<and>
     fst e \<noteq> extensionRenegotiationInfo"

lemma length_bytes16 [simp]: "length (bytes16 n) = 2"
  by (simp add: bytes16_def)

lemma unat_of_nat_8: "n < 256 \<Longrightarrow> unat (of_nat n :: byte) = n"
  by (simp add: unat_of_nat take_bit_eq_mod)

lemma be16_bytes16 [simp]: "n < 65536 \<Longrightarrow> be16 (bytes16 n @ rest) 0 = Ok n"
  by (simp add: bytes16_def be16_def unat_of_nat take_bit_eq_mod)

lemma be16_skip: "be16 (xs @ ys) (length xs + i) = be16 ys i"
  by (simp add: be16_def go_index_def nth_append)

lemma extensions_step:
  assumes "fst e < 65536" and "length (snd e) < 65536"
  shows "extensions (encode_extension e @ rest) =
    go_then (extension_data (fst e) (length (snd e)) (snd e @ rest)) (\<lambda>found. case found of
      Some host \<Rightarrow> Ok host | None \<Rightarrow> extensions rest)"
proof -
  let ?d = "encode_extension e @ rest"
  have d: "?d = bytes16 (fst e) @ bytes16 (length (snd e)) @ snd e @ rest"
    by (simp add: encode_extension_def)
  have x: "be16 ?d 0 = Ok (fst e)" unfolding d by (rule be16_bytes16 [OF assms(1)])
  have l: "be16 ?d 2 = Ok (length (snd e))"
    using be16_skip [of "bytes16 (fst e)" "bytes16 (length (snd e)) @ snd e @ rest" 0] assms(2)
    unfolding d by simp
  have s: "slice_from 4 ?d = Ok (snd e @ rest)" unfolding d by (simp add: bytes16_def)
  have len: "\<not> length ?d < 4" "length ?d \<noteq> 0" unfolding d by simp_all
  show ?thesis
    by (subst extensions.simps) (simp only: len x l s go_then.simps if_False, simp cong: go_then_cong option.case_cong)
qed

lemma extension_data_plain:
  "plain_extension e \<Longrightarrow> extension_data (fst e) (length (snd e)) (snd e @ rest) = Ok None"
  by (simp add: plain_extension_def extension_data_def)

lemma extensions_skip_plain:
  "\<forall>e \<in> set es. plain_extension e \<Longrightarrow> extensions (concat (map encode_extension es) @ rest) = extensions rest"
proof (induction es)
  case Nil
  then show ?case by simp
next
  case (Cons e es)
  then have p: "plain_extension e" by simp
  then have b: "fst e < 65536" "length (snd e) < 65536" by (simp_all add: plain_extension_def)
  have "extensions (concat (map encode_extension (e # es)) @ rest) =
      extensions (concat (map encode_extension es) @ rest)"
    using extensions_step [OF b, of "concat (map encode_extension es) @ rest"]
    by (simp add: extension_data_plain [OF p])
  with Cons show ?case by simp
qed

lemma extension_data_server_name:
  assumes "length name + 3 < 65536"
  shows "extension_data extensionServerName (length (snd (encode_server_name name)))
      (snd (encode_server_name name) @ rest) = Ok (Some (trim_space (bytes_string name)))"
proof -
  let ?d = "bytes16 (length name + 3) @ [0] @ bytes16 (length name) @ name"
  let ?n = "[0] @ bytes16 (length name) @ name"
  have n: "be16 ?n 1 = Ok (length name)"
    using be16_skip [of "[0]" "bytes16 (length name) @ name" 0] assms by simp
  have s: "slice_from 3 ?n = Ok name" by (simp add: bytes16_def)
  have "server_names ?n = Ok (Some (trim_space (bytes_string name)))"
    by (subst server_names.simps) (simp only: n s go_then.simps, simp)
  moreover have "be16 ?d 0 = Ok (length name + 3)" by (rule be16_bytes16 [OF assms])
  moreover have "slice_from 2 ?d = (Ok ?n :: byte list hs)" by (simp add: bytes16_def)
  moreover have "slice_to (length ?d) (?d @ rest) = (Ok ?d :: byte list hs)" by simp
  moreover have "(length ?d < 2) = False" "(length ?n \<noteq> length name + 3) = False" by simp_all
  moreover have "(extensionServerName = extensionRenegotiationInfo) = False"
    "(extensionServerName = extensionNextProtoNeg) = False"
    "(extensionServerName = extensionStatusRequest) = False"
    by (simp_all add: extensionServerName_def extensionRenegotiationInfo_def extensionNextProtoNeg_def
        extensionStatusRequest_def)
  ultimately show ?thesis
    by (simp only: extension_data_def encode_server_name_def snd_conv go_then.simps if_False if_True simp_thms)
qed


lemma parse_hello_encode:
  assumes "length header = 43" and "header ! 5 = typeClientHello" and "length session \<le> 32"
    and "even (length ciphers)" "length ciphers < 65536" and "length compressions < 256"
    and "length (concat (map encode_extension exts)) < 65536" and "exts \<noteq> []"
  shows "parse_hello (encode_hello header session ciphers compressions exts) =
    extensions (concat (map encode_extension exts))"
proof -
  let ?e = "concat (map encode_extension exts)"
  let ?d5 = "bytes16 (length ?e) @ ?e"
  let ?d4 = "[of_nat (length compressions)] @ compressions @ ?d5"
  let ?d3 = "bytes16 (length ciphers) @ ciphers @ ?d4"
  let ?d1 = "header @ [of_nat (length session)] @ session @ ?d3"
  have d: "encode_hello header session ciphers compressions exts = ?d1"
    by (simp add: encode_hello_def Let_def)
  have i5: "go_index ?d1 5 = (Ok typeClientHello :: byte hs)"
    using assms(1,2) by (simp add: go_index_def nth_append)
  have i43: "go_index ?d1 43 = (Ok (of_nat (length session)) :: byte hs)"
    using assms(1) by (simp add: go_index_def nth_append)
  have u: "unat (of_nat (length session) :: byte) = length session"
    "unat (of_nat (length compressions) :: byte) = length compressions"
    using assms(3,6) by (simp_all add: unat_of_nat_8)
  have s1: "slice_from (44 + length session) ?d1 = (Ok ?d3 :: byte list hs)"
    using assms(1) by simp
  have b3: "be16 ?d3 0 = Ok (length ciphers)" by (rule be16_bytes16 [OF assms(5)])
  have s3: "slice_from (2 + length ciphers) ?d3 = (Ok ?d4 :: byte list hs)" by simp
  have i4: "go_index ?d4 0 = (Ok (of_nat (length compressions)) :: byte hs)" by (simp add: go_index_def)
  have s4: "slice_from (1 + length compressions) ?d4 = (Ok ?d5 :: byte list hs)" by simp
  have b5: "be16 ?d5 0 = Ok (length ?e)" by (rule be16_bytes16 [OF assms(7)])
  have s5: "slice_from 2 ?d5 = (Ok ?e :: byte list hs)" by simp
  have c1: "(length session > 32 \<or> length ?d1 < 44 + length session) = False" using assms(1,3) by simp
  have c3: "(length ?d3 < 2) = False" "(length ciphers mod 2 = 1 \<or> length ?d3 < 2 + length ciphers) = False"
    using assms(4) by simp_all
  have c4: "(length ?d4 < 1) = False" "(length ?d4 < 1 + length compressions) = False" by simp_all
  have c5: "(length ?d5 = 0) = False" "(length ?d5 < 2) = False" by simp_all
  show ?thesis
    unfolding d parse_hello_def Let_def
    by (simp only: i5 i43 u s1 b3 s3 i4 s4 b5 s5 c1 c3 c4 c5 go_then.simps if_False simp_thms)
qed

section \<open>Properties\<close>

text \<open>C29: No input makes the reader of the handshake panic: whatever bytes a client sends, and
  however they are split over the two reads, the answer is a host or an error.\<close>

theorem handshake_no_panic:
  assumes "\<And>a. first = Some a \<Longrightarrow> length a = 47"
  shows "read_handshake first second \<noteq> Panic"
proof (cases first)
  case (Some a)
  then have "parse_hello (a @ b) \<noteq> Panic" for b
    using assms by (intro parse_hello_no_panic) simp
  then show ?thesis using Some by (simp add: read_handshake_def split: option.split)
qed (simp add: read_handshake_def)

lemma handshake_no_panic_witness:
  "read_handshake (Some (replicate 47 255)) (Some []) \<noteq> Panic"
  by (rule handshake_no_panic) simp



end
