(* ===== verification/Load_Groups.thy ===== *)
theory Load_Groups
  imports Ports Vhost
begin

text \<open>
  The load-balancing groups of \<^verbatim>\<open>frp/server/group\<close>: TCP (\<^verbatim>\<open>tcp.go\<close>), TCP multiplexing (\<^verbatim>\<open>tcpmux.go\<close>)
  and HTTP (\<^verbatim>\<open>http.go\<close>). A group object is reached through its controller's map but pointers to it
  are also held by callers between two critical sections, so groups live in a heap and the lookup
  in the controller and the work on the group are two operations.
\<close>

datatype group_error =
    ErrGroupAuthFailed
  | ErrGroupParamsInvalid
  | ErrGroupListenerClosed
  | ErrGroupDifferentPort
  | ErrProxyRepeated
  | GroupPort port_error
  | GroupListen
  | GroupRoute
  | GroupUnknownMultiplexer

section \<open>The contract of a group\<close>

text \<open>A history of a group: the successful joins, with the parameters and the key they gave.\<close>

inductive group_run ::
    "('e \<Rightarrow> 'p \<Rightarrow> string \<Rightarrow> 'm \<Rightarrow> 'g \<Rightarrow> 'g \<times> group_error option) \<Rightarrow> ('m \<Rightarrow> 'g \<Rightarrow> (unit, 'g) go) \<Rightarrow>
     'g \<Rightarrow> ('m \<times> 'p \<times> string) list \<Rightarrow> 'g \<Rightarrow> bool"
  for join_group leave_group where
  group_start: "group_run join_group leave_group g [] g"
| group_joined: "group_run join_group leave_group g h g' \<Longrightarrow> join_group e p k m g' = (g'', None) \<Longrightarrow>
     group_run join_group leave_group g (h @ [(m, p, k)]) g''"
| group_failed: "group_run join_group leave_group g h g' \<Longrightarrow> join_group e p k m g' = (g'', Some err) \<Longrightarrow>
     group_run join_group leave_group g h g''"
| group_left: "group_run join_group leave_group g h g' \<Longrightarrow> leave_group m g' = Ok g'' \<Longrightarrow>
     group_run join_group leave_group g h g''"

text \<open>
  A group serves one resource (\<open>holds\<close>) for the members that joined with the parameters and the key
  of the first one; the last member that leaves gives the resource up.
\<close>

locale member_group =
  fixes ok :: "'g \<Rightarrow> bool" and members :: "'g \<Rightarrow> 'm list" and params :: "'g \<Rightarrow> 'p"
    and key :: "'g \<Rightarrow> string" and holds :: "'g \<Rightarrow> bool"
    and join_group :: "'e \<Rightarrow> 'p \<Rightarrow> string \<Rightarrow> 'm \<Rightarrow> 'g \<Rightarrow> 'g \<times> group_error option"
    and leave_group :: "'m \<Rightarrow> 'g \<Rightarrow> (unit, 'g) go"
  assumes join_ok: "ok g \<Longrightarrow> join_group e p k m g = (g', r) \<Longrightarrow> ok g'"
    and join_first: "ok g \<Longrightarrow> members g = [] \<Longrightarrow> join_group e p k m g = (g', None) \<Longrightarrow>
      members g' = [m] \<and> params g' = p \<and> key g' = k \<and> holds g'"
    and join_refused: "ok g \<Longrightarrow> join_group e p k m g = (g', Some err) \<Longrightarrow>
      members g' = members g \<and> holds g' = holds g \<and> (members g \<noteq> [] \<longrightarrow> params g' = params g \<and> key g' = key g)"
    and join_next: "ok g \<Longrightarrow> members g \<noteq> [] \<Longrightarrow> join_group e p k m g = (g', None) \<Longrightarrow>
      p = params g \<and> k = key g \<and> members g' = members g @ [m] \<and> params g' = p \<and> key g' = k \<and> holds g' = holds g"
    and leave_ok: "ok g \<Longrightarrow> leave_group m g = Ok g' \<Longrightarrow> ok g'"
    and leave_members: "ok g \<Longrightarrow> leave_group m g = Ok g' \<Longrightarrow> members g' = remove1 m (members g) \<and>
      (holds g' \<longleftrightarrow> holds g \<and> members g' \<noteq> []) \<and> (members g' \<noteq> [] \<longrightarrow> params g' = params g \<and> key g' = key g)"
begin

text \<open>While a group has members it holds its resource, and every member joined with its parameters
  and its key.\<close>

lemma group_run_members:
  assumes "group_run join_group leave_group g h g'" and "ok g" and "members g = []" and "\<not> holds g"
  shows "ok g' \<and> (holds g' \<longleftrightarrow> members g' \<noteq> []) \<and> (\<forall>m \<in> set (members g'). (m, params g', key g') \<in> set h)"
  using assms
proof (induction rule: group_run.induct)
  case (group_start g)
  then show ?case by simp
next
  case (group_joined g h g' e p k m g'')
  then have IH: "ok g'" "holds g' \<longleftrightarrow> members g' \<noteq> []"
    "\<forall>m \<in> set (members g'). (m, params g', key g') \<in> set h" by simp_all
  show ?case
  proof (cases "members g' = []")
    case True
    with join_first [OF IH(1) True group_joined.hyps(2)] join_ok [OF IH(1) group_joined.hyps(2)]
    show ?thesis by simp
  next
    case False
    with join_next [OF IH(1) False group_joined.hyps(2)] join_ok [OF IH(1) group_joined.hyps(2)] IH
    show ?thesis by auto
  qed
next
  case (group_failed g h g' e p k m g'' err)
  then have IH: "ok g'" "holds g' \<longleftrightarrow> members g' \<noteq> []"
    "\<forall>m \<in> set (members g'). (m, params g', key g') \<in> set h" by simp_all
  from join_refused [OF IH(1) group_failed.hyps(2)] join_ok [OF IH(1) group_failed.hyps(2)] IH
  show ?case by (cases "members g' = []") auto
next
  case (group_left g h g' m g'')
  then have IH: "ok g'" "holds g' \<longleftrightarrow> members g' \<noteq> []"
    "\<forall>m \<in> set (members g'). (m, params g', key g') \<in> set h" by simp_all
  from leave_members [OF IH(1) group_left.hyps(2)] leave_ok [OF IH(1) group_left.hyps(2)] IH
  show ?case by (cases "members g'' = []") (auto dest: notin_set_remove1 in_set_remove1 [THEN iffD1] set_remove1_subset [THEN subsetD])
qed

end

section \<open>TCP groups\<close>

text \<open>
  \<open>tg_ln_port\<close> is the port that was passed to \<^verbatim>\<open>net.Listen\<close> for the real listener, \<open>tg_ln_open\<close> says
  that this listener is open, \<open>tg_accept_closed\<close> that the channel \<^verbatim>\<open>acceptCh\<close> was closed.
\<close>

record tcp_group =
  tg_group :: string
  tg_group_key :: string
  tg_addr :: string
  tg_port :: int
  tg_real_port :: int
  tg_accept_closed :: bool
  tg_index :: "64 word"
  tg_ln_port :: int
  tg_ln_open :: bool
  tg_lns :: "nat list"

definition new_tcp_group :: tcp_group where
  "new_tcp_group =
     \<lparr>tg_group = [], tg_group_key = [], tg_addr = [], tg_port = 0, tg_real_port = 0,
      tg_accept_closed = False, tg_index = 0, tg_ln_port = 0, tg_ln_open = False, tg_lns = []\<rparr>"

text \<open>
  \<^verbatim>\<open>TCPGroup.Listen\<close> for a new listener \<open>ln\<close>; \<open>first\<close> is what acquiring the port and opening the real
  listener gives when the group is empty.
\<close>

definition tg_join ::
    "group_error + int \<Rightarrow> string \<times> string \<times> int \<Rightarrow> string \<Rightarrow> nat \<Rightarrow> tcp_group \<Rightarrow>
     tcp_group \<times> group_error option" where
  "tg_join first p groupKey ln tg =
     (case p of (grp, addr, port) \<Rightarrow>
      if tg_lns tg = [] then
        (case first of
           Inl e \<Rightarrow> (tg, Some e)
         | Inr realPort \<Rightarrow>
             (tg\<lparr>tg_group := grp, tg_group_key := groupKey, tg_addr := addr, tg_port := port,
                 tg_real_port := realPort, tg_ln_port := port, tg_ln_open := True,
                 tg_lns := tg_lns tg @ [ln]\<rparr>, None))
      else if tg_group tg \<noteq> grp \<or> tg_addr tg \<noteq> addr then (tg, Some ErrGroupParamsInvalid)
      else if tg_port tg \<noteq> port then (tg, Some ErrGroupDifferentPort)
      else if tg_group_key tg \<noteq> groupKey then (tg, Some ErrGroupAuthFailed)
      else (tg\<lparr>tg_lns := tg_lns tg @ [ln]\<rparr>, None))"

text \<open>The group's part of \<^verbatim>\<open>CloseListener\<close>: closing \<^verbatim>\<open>acceptCh\<close> twice panics.\<close>

definition tg_leave :: "nat \<Rightarrow> tcp_group \<Rightarrow> (unit, tcp_group) go" where
  "tg_leave ln tg =
     (let lns = remove1 ln (tg_lns tg) in
      if lns = [] then
        (if tg_accept_closed tg then Panic
         else Ok (tg\<lparr>tg_lns := [], tg_accept_closed := True, tg_ln_open := False\<rparr>))
      else Ok (tg\<lparr>tg_lns := lns\<rparr>))"

record tcp_group_ctl =
  gc_groups :: "string \<rightharpoonup> nat"
  gc_heap :: "nat \<Rightarrow> tcp_group"
  gc_next :: nat
  gc_ln_next :: nat
  gc_ln_closed :: "nat set"
  gc_ports :: port_mgr

definition new_tcp_group_ctl :: "port_mgr \<Rightarrow> tcp_group_ctl" where
  "new_tcp_group_ctl pm =
     \<lparr>gc_groups = Map.empty, gc_heap = (\<lambda>_. new_tcp_group), gc_next = 0, gc_ln_next = 0,
      gc_ln_closed = {}, gc_ports = pm\<rparr>"

text \<open>The first critical section of \<^verbatim>\<open>TCPGroupCtl.Listen\<close>: find or create the group.\<close>

definition tgc_lookup :: "string \<Rightarrow> tcp_group_ctl \<Rightarrow> tcp_group_ctl \<times> nat" where
  "tgc_lookup grp s =
     (case gc_groups s grp of
        Some r \<Rightarrow> (s, r)
      | None \<Rightarrow>
          (s\<lparr>gc_groups := (gc_groups s)(grp \<mapsto> gc_next s),
             gc_heap := (gc_heap s)(gc_next s := new_tcp_group), gc_next := gc_next s + 1\<rparr>, gc_next s))"

text \<open>What the outside world answers: availability and order of the ports, the clock, and \<^verbatim>\<open>net.Listen\<close>.\<close>

record group_env =
  ge_avail :: "nat \<Rightarrow> int \<Rightarrow> bool"
  ge_range :: "int list"
  ge_now :: int
  ge_listen_ok :: bool

definition tg_listen ::
    "group_env \<Rightarrow> string \<Rightarrow> string \<Rightarrow> string \<Rightarrow> string \<Rightarrow> int \<Rightarrow> nat \<Rightarrow> tcp_group_ctl \<Rightarrow>
     tcp_group_ctl \<times> (group_error + nat \<times> int)" where
  "tg_listen env proxyName grp groupKey addr port r s =
     (let tg = gc_heap s r; ln = gc_ln_next s;
          (pm, first) =
            (if tg_lns tg = [] then
               (case acquire (ge_avail env) (ge_range env) (ge_now env) proxyName port (gc_ports s) of
                  (pm, realPort, Some e) \<Rightarrow> (pm, Inl (GroupPort e))
                | (pm, realPort, None) \<Rightarrow> (pm, if ge_listen_ok env then Inr realPort else Inl GroupListen))
             else (gc_ports s, Inl GroupListen));
          (tg', err) = tg_join first (grp, addr, port) groupKey ln tg;
          s' = s\<lparr>gc_ports := pm, gc_heap := (gc_heap s)(r := tg')\<rparr>
      in case err of
           Some e \<Rightarrow> (s', Inl e)
         | None \<Rightarrow> (s'\<lparr>gc_ln_next := ln + 1\<rparr>, Inr (ln, tg_real_port tg')))"

definition tgc_listen ::
    "group_env \<Rightarrow> string \<Rightarrow> string \<Rightarrow> string \<Rightarrow> string \<Rightarrow> int \<Rightarrow> tcp_group_ctl \<Rightarrow>
     tcp_group_ctl \<times> (group_error + nat \<times> int)" where
  "tgc_listen env proxyName grp groupKey addr port s =
     (case tgc_lookup grp s of (s', r) \<Rightarrow> tg_listen env proxyName grp groupKey addr port r s')"

definition tgc_remove_group :: "string \<Rightarrow> tcp_group_ctl \<Rightarrow> tcp_group_ctl" where
  "tgc_remove_group grp s = s\<lparr>gc_groups := (gc_groups s)(grp := None)\<rparr>"

text \<open>\<^verbatim>\<open>TCPGroupListener.Close\<close> of the listener \<open>ln\<close> of the group at \<open>r\<close>.\<close>

definition tg_close_listener :: "int \<Rightarrow> nat \<Rightarrow> nat \<Rightarrow> tcp_group_ctl \<Rightarrow> (unit, tcp_group_ctl) go" where
  "tg_close_listener now r ln s =
     (if ln \<in> gc_ln_closed s then Panic
      else
        let s1 = s\<lparr>gc_ln_closed := insert ln (gc_ln_closed s)\<rparr>; tg = gc_heap s r in
        go_then (tg_leave ln tg) (\<lambda>tg'.
          let s2 = s1\<lparr>gc_heap := (gc_heap s)(r := tg')\<rparr> in
          if tg_lns tg' = [] then
            Ok (tgc_remove_group (tg_group tg) (s2\<lparr>gc_ports := release now (tg_real_port tg) (gc_ports s)\<rparr>))
          else Ok s2))"

text \<open>\<^verbatim>\<open>Accept\<close>: what the channel gives (\<open>None\<close> when it is closed), unless the listener is closed first.\<close>

definition tg_accept :: "bool \<Rightarrow> 'c option \<Rightarrow> group_error + 'c" where
  "tg_accept closedFirst received =
     (if closedFirst then Inl ErrGroupListenerClosed
      else case received of None \<Rightarrow> Inl ErrGroupListenerClosed | Some c \<Rightarrow> Inr c)"

interpretation tcpg: member_group "\<lambda>_. True" tg_lns "\<lambda>g. (tg_group g, tg_addr g, tg_port g)" tg_group_key
    tg_ln_open tg_join tg_leave
  by unfold_locales
    (auto simp: tg_join_def tg_leave_def Let_def split: prod.split_asm if_split_asm sum.split_asm)

section \<open>TCP multiplexing groups\<close>

record tcpmux_group =
  mg_group :: string
  mg_group_key :: string
  mg_domain :: string
  mg_accept_closed :: bool
  mg_index :: "64 word"
  mg_ln :: "vhost_listener option"   \<comment> \<open>\<open>None\<close>: not created, or closed\<close>
  mg_lns :: "nat list"

definition new_tcpmux_group :: tcpmux_group where
  "new_tcpmux_group =
     \<lparr>mg_group = [], mg_group_key = [], mg_domain = [], mg_accept_closed = False, mg_index = 0,
      mg_ln = None, mg_lns = []\<rparr>"

text \<open>\<^verbatim>\<open>HTTPConnectListen\<close>; \<open>first\<close> is the real listener that the multiplexer gives, if it does.\<close>

definition mg_join ::
    "vhost_listener option \<Rightarrow> string \<times> string \<Rightarrow> string \<Rightarrow> nat \<Rightarrow> tcpmux_group \<Rightarrow>
     tcpmux_group \<times> group_error option" where
  "mg_join first p groupKey ln mg =
     (case p of (grp, domain) \<Rightarrow>
      if mg_lns mg = [] then
        (case first of
           None \<Rightarrow> (mg, Some GroupRoute)
         | Some l \<Rightarrow>
             (mg\<lparr>mg_group := grp, mg_group_key := groupKey, mg_domain := domain, mg_ln := Some l,
                 mg_lns := mg_lns mg @ [ln]\<rparr>, None))
      else if mg_group mg \<noteq> grp \<or> mg_domain mg \<noteq> domain then (mg, Some ErrGroupParamsInvalid)
      else if mg_group_key mg \<noteq> groupKey then (mg, Some ErrGroupAuthFailed)
      else (mg\<lparr>mg_lns := mg_lns mg @ [ln]\<rparr>, None))"

definition mg_leave :: "nat \<Rightarrow> tcpmux_group \<Rightarrow> (unit, tcpmux_group) go" where
  "mg_leave ln mg =
     (let lns = remove1 ln (mg_lns mg) in
      if lns = [] then
        (if mg_accept_closed mg then Panic
         else Ok (mg\<lparr>mg_lns := [], mg_accept_closed := True, mg_ln := None\<rparr>))
      else Ok (mg\<lparr>mg_lns := lns\<rparr>))"

record tcpmux_group_ctl =
  mgc_groups :: "string \<rightharpoonup> nat"
  mgc_heap :: "nat \<Rightarrow> tcpmux_group"
  mgc_next :: nat
  mgc_ln_next :: nat
  mgc_ln_closed :: "nat set"
  mgc_muxer :: muxer

definition new_tcpmux_group_ctl :: "muxer \<Rightarrow> tcpmux_group_ctl" where
  "new_tcpmux_group_ctl mx =
     \<lparr>mgc_groups = Map.empty, mgc_heap = (\<lambda>_. new_tcpmux_group), mgc_next = 0, mgc_ln_next = 0,
      mgc_ln_closed = {}, mgc_muxer = mx\<rparr>"

definition mgc_lookup :: "string \<Rightarrow> tcpmux_group_ctl \<Rightarrow> tcpmux_group_ctl \<times> nat" where
  "mgc_lookup grp s =
     (case mgc_groups s grp of
        Some r \<Rightarrow> (s, r)
      | None \<Rightarrow>
          (s\<lparr>mgc_groups := (mgc_groups s)(grp \<mapsto> mgc_next s),
             mgc_heap := (mgc_heap s)(mgc_next s := new_tcpmux_group), mgc_next := mgc_next s + 1\<rparr>, mgc_next s))"

definition group_route :: "string \<Rightarrow> nat route_config" where
  "group_route domain =
     \<lparr>rc_domain = domain, rc_location = [], rc_rewrite_host = [], rc_username = [], rc_password = [],
      rc_headers = None, rc_create_conn = None\<rparr>"

definition mg_listen ::
    "string \<Rightarrow> string \<Rightarrow> string \<Rightarrow> nat \<Rightarrow> tcpmux_group_ctl \<Rightarrow> tcpmux_group_ctl \<times> (group_error + nat)" where
  "mg_listen grp groupKey domain r s =
     (let mg = mgc_heap s r; ln = mgc_ln_next s;
          (mx, first) = (if mg_lns mg = [] then mux_listen (group_route domain) (mgc_muxer s)
                         else (mgc_muxer s, None));
          (mg', err) = mg_join first (grp, domain) groupKey ln mg;
          s' = s\<lparr>mgc_muxer := mx, mgc_heap := (mgc_heap s)(r := mg')\<rparr>
      in case err of
           Some e \<Rightarrow> (s', Inl e)
         | None \<Rightarrow> (s'\<lparr>mgc_ln_next := ln + 1\<rparr>, Inr ln))"

definition mgc_listen ::
    "string \<Rightarrow> string \<Rightarrow> string \<Rightarrow> string \<Rightarrow> tcpmux_group_ctl \<Rightarrow> tcpmux_group_ctl \<times> (group_error + nat)" where
  "mgc_listen multiplexer grp groupKey domain s =
     (case mgc_lookup grp s of (s', r) \<Rightarrow>
        if multiplexer = HTTPConnectTCPMultiplexer then mg_listen grp groupKey domain r s'
        else (s', Inl GroupUnknownMultiplexer))"

definition mgc_remove_group :: "string \<Rightarrow> tcpmux_group_ctl \<Rightarrow> tcpmux_group_ctl" where
  "mgc_remove_group grp s = s\<lparr>mgc_groups := (mgc_groups s)(grp := None)\<rparr>"

definition mg_close_listener :: "nat \<Rightarrow> nat \<Rightarrow> tcpmux_group_ctl \<Rightarrow> (unit, tcpmux_group_ctl) go" where
  "mg_close_listener r ln s =
     (if ln \<in> mgc_ln_closed s then Panic
      else
        let s1 = s\<lparr>mgc_ln_closed := insert ln (mgc_ln_closed s)\<rparr>; mg = mgc_heap s r in
        go_then (mg_leave ln mg) (\<lambda>mg'.
          let s2 = s1\<lparr>mgc_heap := (mgc_heap s)(r := mg')\<rparr> in
          if mg_lns mg' = [] then
            (case mg_ln mg of
               None \<Rightarrow> Panic
             | Some l \<Rightarrow> go_then (listener_close l (mgc_muxer s)) (\<lambda>mx.
                 Ok (mgc_remove_group (mg_group mg) (s2\<lparr>mgc_muxer := mx\<rparr>))))
          else Ok s2))"

interpretation muxg: member_group "\<lambda>_. True" mg_lns "\<lambda>g. (mg_group g, mg_domain g)" mg_group_key
    "\<lambda>g. mg_ln g \<noteq> None" mg_join mg_leave
  by unfold_locales
    (auto simp: mg_join_def mg_leave_def Let_def split: prod.split_asm if_split_asm option.split_asm)


section \<open>HTTP groups\<close>

text \<open>The function that a route calls: a proxy's own, or the one of a group.\<close>

datatype conn_fn = ProxyConn string | GroupConn nat

record http_group =
  hg_group :: string
  hg_group_key :: string
  hg_domain :: string
  hg_location :: string
  hg_create_funcs :: "string \<rightharpoonup> conn_fn option"
  hg_pxy_names :: "string list"
  hg_index :: "64 word"

definition new_http_group :: http_group where
  "new_http_group =
     \<lparr>hg_group = [], hg_group_key = [], hg_domain = [], hg_location = [], hg_create_funcs = Map.empty,
      hg_pxy_names = [], hg_index = 0\<rparr>"

text \<open>\<^verbatim>\<open>HTTPGroup.Register\<close> of the group at \<open>gid\<close>, with the router it adds its route to.\<close>

definition hg_register ::
    "nat \<Rightarrow> string \<Rightarrow> string \<Rightarrow> string \<Rightarrow> conn_fn route_config \<Rightarrow> http_group \<times> conn_fn http_routers \<Rightarrow>
     (http_group \<times> conn_fn http_routers) \<times> group_error option" where
  "hg_register gid proxyName grp groupKey routeConfig s =
     (let g = fst s; r = snd s;
          first = (hg_create_funcs g = Map.empty);
          added = (if first then
                     (case routers_add (rc_domain routeConfig) (rc_location routeConfig)
                             (routeConfig\<lparr>rc_create_conn := Some (GroupConn gid)\<rparr>) r of
                        None \<Rightarrow> Inl GroupRoute
                      | Some r' \<Rightarrow>
                          Inr (g\<lparr>hg_group := grp, hg_group_key := groupKey, hg_domain := rc_domain routeConfig,
                                 hg_location := rc_location routeConfig\<rparr>, r'))
                   else if hg_group g \<noteq> grp \<or> hg_domain g \<noteq> rc_domain routeConfig \<or>
                           hg_location g \<noteq> rc_location routeConfig then Inl ErrGroupParamsInvalid
                   else if hg_group_key g \<noteq> groupKey then Inl ErrGroupAuthFailed
                   else Inr (g, r))
      in case added of
           Inl e \<Rightarrow> (s, Some e)
         | Inr (g', r') \<Rightarrow>
             if proxyName \<in> dom (hg_create_funcs g') then ((g', r'), Some ErrProxyRepeated)
             else ((g'\<lparr>hg_create_funcs := (hg_create_funcs g')(proxyName \<mapsto> rc_create_conn routeConfig),
                       hg_pxy_names := hg_pxy_names g' @ [proxyName]\<rparr>, r'), None))"

definition hg_unregister ::
    "string \<Rightarrow> http_group \<times> conn_fn http_routers \<Rightarrow> (http_group \<times> conn_fn http_routers) \<times> bool" where
  "hg_unregister proxyName s =
     (let g = (fst s)\<lparr>hg_create_funcs := (hg_create_funcs (fst s))(proxyName := None),
                      hg_pxy_names := remove1 proxyName (hg_pxy_names (fst s))\<rparr>
      in if hg_create_funcs g = Map.empty then ((g, routers_del (hg_domain g) (hg_location g) (snd s)), True)
         else ((g, snd s), False))"

text \<open>
  \<^verbatim>\<open>createConn\<close>: the function it calls, after the shared counter was increased. \<^verbatim>\<open>int(newIndex)\<close> is a
  signed reading of the 64-bit counter and \<^verbatim>\<open>%\<close> keeps its sign, so the index can be negative.
\<close>

definition go_mod :: "int \<Rightarrow> int \<Rightarrow> int" where
  "go_mod a b = sgn a * (\<bar>a\<bar> mod \<bar>b\<bar>)"

definition hg_create_conn :: "http_group \<Rightarrow> http_group \<times> (unit, conn_fn) go" where
  "hg_create_conn g =
     (let newIndex = hg_index g + 1; g' = g\<lparr>hg_index := newIndex\<rparr> in
      (g', if hg_pxy_names g \<noteq> [] then
             let i = go_mod (sint newIndex) (int (length (hg_pxy_names g))) in
             if i < 0 then Panic
             else (case hg_create_funcs g (hg_pxy_names g ! nat i) of
                     Some (Some f) \<Rightarrow> Ok f
                   | _ \<Rightarrow> Fail ())
           else Fail ()))"

definition http_group_index :: "string \<Rightarrow> string \<Rightarrow> string \<Rightarrow> string" where
  "http_group_index grp domain location = grp @ ''_'' @ domain @ ''_'' @ location"

record http_group_ctl =
  hc_groups :: "string \<rightharpoonup> nat"
  hc_heap :: "nat \<Rightarrow> http_group"
  hc_next :: nat
  hc_router :: "conn_fn http_routers"

definition new_http_group_ctl :: "conn_fn http_routers \<Rightarrow> http_group_ctl" where
  "new_http_group_ctl r =
     \<lparr>hc_groups = Map.empty, hc_heap = (\<lambda>_. new_http_group), hc_next = 0, hc_router = r\<rparr>"

definition hgc_lookup :: "string \<Rightarrow> http_group_ctl \<Rightarrow> http_group_ctl \<times> nat" where
  "hgc_lookup indexKey s =
     (case hc_groups s indexKey of
        Some gid \<Rightarrow> (s, gid)
      | None \<Rightarrow>
          (s\<lparr>hc_groups := (hc_groups s)(indexKey \<mapsto> hc_next s),
             hc_heap := (hc_heap s)(hc_next s := new_http_group), hc_next := hc_next s + 1\<rparr>, hc_next s))"

definition hgc_register ::
    "string \<Rightarrow> string \<Rightarrow> string \<Rightarrow> conn_fn route_config \<Rightarrow> http_group_ctl \<Rightarrow> http_group_ctl \<times> group_error option" where
  "hgc_register proxyName grp groupKey routeConfig s =
     (let indexKey = http_group_index grp (rc_domain routeConfig) (rc_location routeConfig);
          (s1, gid) = hgc_lookup indexKey s;
          ((g, r), e) = hg_register gid proxyName grp groupKey routeConfig (hc_heap s1 gid, hc_router s1)
      in (s1\<lparr>hc_heap := (hc_heap s1)(gid := g), hc_router := r\<rparr>, e))"

definition hgc_unregister :: "string \<Rightarrow> string \<Rightarrow> string \<Rightarrow> string \<Rightarrow> http_group_ctl \<Rightarrow> http_group_ctl" where
  "hgc_unregister proxyName grp domain location s =
     (let indexKey = http_group_index grp domain location in
      case hc_groups s indexKey of
        None \<Rightarrow> s
      | Some gid \<Rightarrow>
          let ((g, r), isEmpty) = hg_unregister proxyName (hc_heap s gid, hc_router s);
              s' = s\<lparr>hc_heap := (hc_heap s)(gid := g), hc_router := r\<rparr>
          in if isEmpty then s'\<lparr>hc_groups := (hc_groups s')(indexKey := None)\<rparr> else s')"

subsection \<open>HTTP groups keep the contract\<close>

definition hg_ok :: "http_group \<times> conn_fn http_routers \<Rightarrow> bool" where
  "hg_ok s \<longleftrightarrow> routers_ok (snd s) \<and> set (hg_pxy_names (fst s)) = dom (hg_create_funcs (fst s)) \<and>
     distinct (hg_pxy_names (fst s))"

definition hg_holds :: "nat \<Rightarrow> http_group \<times> conn_fn http_routers \<Rightarrow> bool" where
  "hg_holds gid s \<longleftrightarrow>
     (\<exists>rc. table_of (snd s) (hg_domain (fst s), hg_location (fst s)) = Some rc \<and>
        rc_create_conn rc = Some (GroupConn gid))"

definition hg_params :: "http_group \<times> conn_fn http_routers \<Rightarrow> string \<times> string \<times> string" where
  "hg_params s = (hg_group (fst s), hg_domain (fst s), hg_location (fst s))"

text \<open>Joining and leaving in the shape of the contract; \<open>e\<close> is the rest of the route's configuration.\<close>

definition hg_join ::
    "nat \<Rightarrow> conn_fn route_config \<Rightarrow> string \<times> string \<times> string \<Rightarrow> string \<Rightarrow> string \<Rightarrow>
     http_group \<times> conn_fn http_routers \<Rightarrow> (http_group \<times> conn_fn http_routers) \<times> group_error option" where
  "hg_join gid e p k name s =
     hg_register gid name (fst p) k (e\<lparr>rc_domain := fst (snd p), rc_location := snd (snd p)\<rparr>) s"

definition hg_leave :: "string \<Rightarrow> http_group \<times> conn_fn http_routers \<Rightarrow> (unit, http_group \<times> conn_fn http_routers) go" where
  "hg_leave name s = Ok (fst (hg_unregister name s))"

lemma hg_empty_iff: "hg_ok s \<Longrightarrow> hg_create_funcs (fst s) = Map.empty \<longleftrightarrow> hg_pxy_names (fst s) = []"
  unfolding hg_ok_def by (metis dom_eq_empty_conv set_empty)

lemma hg_join_first:
  assumes "hg_ok s" and "hg_pxy_names (fst s) = []" and "hg_join gid e p k m s = (s', None)"
  shows "hg_ok s' \<and> hg_pxy_names (fst s') = [m] \<and> hg_params s' = p \<and> hg_group_key (fst s') = k \<and> hg_holds gid s'"
proof -
  let ?rc = "e\<lparr>rc_domain := fst (snd p), rc_location := snd (snd p)\<rparr>"
  have empty: "hg_create_funcs (fst s) = Map.empty" using hg_empty_iff [OF assms(1)] assms(2) by simp
  obtain r where r: "routers_add (fst (snd p)) (snd (snd p)) (?rc\<lparr>rc_create_conn := Some (GroupConn gid)\<rparr>) (snd s) = Some r"
    and s': "s' = ((fst s)\<lparr>hg_group := fst p, hg_group_key := k, hg_domain := fst (snd p), hg_location := snd (snd p),
        hg_create_funcs := [m \<mapsto> rc_create_conn e], hg_pxy_names := [m]\<rparr>, r)"
    using assms(2,3) empty by (auto simp: hg_join_def hg_register_def Let_def split: option.split_asm)
  have "routers_ok (snd s)" using assms(1) by (simp add: hg_ok_def)
  from rt.add_Some [OF this r] s' show ?thesis
    by (simp add: hg_ok_def hg_holds_def hg_params_def)
qed

lemma hg_join_next:
  assumes "hg_ok s" and "hg_pxy_names (fst s) \<noteq> []" and "hg_join gid e p k m s = (s', None)"
  shows "p = hg_params s \<and> k = hg_group_key (fst s) \<and> hg_ok s' \<and> hg_pxy_names (fst s') = hg_pxy_names (fst s) @ [m] \<and>
    hg_params s' = p \<and> hg_group_key (fst s') = k \<and> (hg_holds gid s' \<longleftrightarrow> hg_holds gid s)"
proof -
  obtain g r where s: "s = (g, r)" by (cases s)
  obtain grp d l where p: "p = (grp, d, l)" by (cases p)
  have "hg_create_funcs g \<noteq> Map.empty" using hg_empty_iff [OF assms(1)] assms(2) s by simp
  with assms(3) have c: "hg_group g = grp" "hg_domain g = d" "hg_location g = l"
      "hg_group_key g = k" "m \<notin> dom (hg_create_funcs g)"
    and s': "s' = (g\<lparr>hg_create_funcs := (hg_create_funcs g)(m \<mapsto> rc_create_conn e),
        hg_pxy_names := hg_pxy_names g @ [m]\<rparr>, r)"
    by (simp_all add: hg_join_def hg_register_def Let_def s p split: if_split_asm)
  with assms(1) show ?thesis by (auto simp: hg_ok_def hg_holds_def hg_params_def s p)
qed

lemma hg_join_refused:
  assumes "hg_ok s" and "hg_join gid e p k m s = (s', Some err)"
  shows "s' = s"
proof -
  obtain g r where s: "s = (g, r)" by (cases s)
  show ?thesis
  proof (cases "hg_create_funcs g = Map.empty")
    case True
    with assms(2) show ?thesis
      by (auto simp: hg_join_def hg_register_def Let_def s split: option.split_asm)
  next
    case False
    with assms(2) show ?thesis
      by (simp add: hg_join_def hg_register_def Let_def s split: if_split_asm)
  qed
qed

lemma hg_leave_members:
  assumes "hg_ok s" and "hg_leave m s = Ok s'"
  shows "hg_ok s' \<and> hg_pxy_names (fst s') = remove1 m (hg_pxy_names (fst s)) \<and>
    (hg_holds gid s' \<longleftrightarrow> hg_holds gid s \<and> hg_pxy_names (fst s') \<noteq> []) \<and>
    (hg_pxy_names (fst s') \<noteq> [] \<longrightarrow> hg_params s' = hg_params s \<and> hg_group_key (fst s') = hg_group_key (fst s))"
proof -
  let ?g = "(fst s)\<lparr>hg_create_funcs := (hg_create_funcs (fst s))(m := None),
      hg_pxy_names := remove1 m (hg_pxy_names (fst s))\<rparr>"
  have k: "set (hg_pxy_names ?g) = dom (hg_create_funcs ?g)" "distinct (hg_pxy_names ?g)"
    using assms(1) by (auto simp: hg_ok_def)
  have ok: "routers_ok (snd s)" using assms(1) by (simp add: hg_ok_def)
  note del = rt.del_tbl [OF ok, of "hg_domain ?g" "hg_location ?g"]
  show ?thesis
  proof (cases "hg_create_funcs ?g = Map.empty")
    case True
    then have n: "hg_pxy_names ?g = []" using k(1) by (metis dom_empty set_empty)
    have s': "s' = (?g, routers_del (hg_domain ?g) (hg_location ?g) (snd s))"
      using assms(2) True by (simp add: hg_leave_def hg_unregister_def Let_def)
    with n k del show ?thesis by (simp add: hg_ok_def hg_holds_def)
  next
    case False
    then have n: "hg_pxy_names ?g \<noteq> []" using k(1) by (metis dom_eq_empty_conv set_empty)
    have s': "s' = (?g, snd s)"
      using assms(2) False by (simp add: hg_leave_def hg_unregister_def Let_def)
    with n k ok show ?thesis by (simp add: hg_ok_def hg_holds_def hg_params_def)
  qed
qed

interpretation httpg: member_group hg_ok "\<lambda>s. hg_pxy_names (fst s)" hg_params "\<lambda>s. hg_group_key (fst s)"
    "hg_holds gid" "hg_join gid" hg_leave
  for gid
proof
  fix g g' e p k m r err
  assume ok: "hg_ok g"
  show "hg_ok g'" if "hg_join gid e p k m g = (g', r)"
  proof (cases r)
    case (Some err)
    with that hg_join_refused [OF ok, of gid e p k m g' err] ok show ?thesis by simp
  next
    case None
    with that hg_join_first [OF ok, of gid e p k m g'] hg_join_next [OF ok, of gid e p k m g'] show ?thesis
      by (cases "hg_pxy_names (fst g) = []") simp_all
  qed
  show "hg_pxy_names (fst g') = [m] \<and> hg_params g' = p \<and> hg_group_key (fst g') = k \<and> hg_holds gid g'"
    if "hg_pxy_names (fst g) = []" "hg_join gid e p k m g = (g', None)"
    using hg_join_first [OF ok that] by blast
  show "hg_pxy_names (fst g') = hg_pxy_names (fst g) \<and> hg_holds gid g' = hg_holds gid g \<and>
      (hg_pxy_names (fst g) \<noteq> [] \<longrightarrow> hg_params g' = hg_params g \<and> hg_group_key (fst g') = hg_group_key (fst g))"
    if "hg_join gid e p k m g = (g', Some err)"
    using hg_join_refused [OF ok that] by simp
  show "p = hg_params g \<and> k = hg_group_key (fst g) \<and> hg_pxy_names (fst g') = hg_pxy_names (fst g) @ [m] \<and>
      hg_params g' = p \<and> hg_group_key (fst g') = k \<and> hg_holds gid g' = hg_holds gid g"
    if "hg_pxy_names (fst g) \<noteq> []" "hg_join gid e p k m g = (g', None)"
    using hg_join_next [OF ok that] by blast
  show "hg_ok g'" if "hg_leave m g = Ok g'"
    using hg_leave_members [OF ok that] by blast
  show "hg_pxy_names (fst g') = remove1 m (hg_pxy_names (fst g)) \<and>
      hg_holds gid g' = (hg_holds gid g \<and> hg_pxy_names (fst g') \<noteq> []) \<and>
      (hg_pxy_names (fst g') \<noteq> [] \<longrightarrow> hg_params g' = hg_params g \<and> hg_group_key (fst g') = hg_group_key (fst g))"
    if "hg_leave m g = Ok g'"
    using hg_leave_members [OF ok that] by blast
qed


section \<open>Properties\<close>

text \<open>C30: In every history of joins and leaves of a TCP group, the real listener is open exactly while
  the group has members, and every member joined with the group name, address, port and key that
  the group has: a client without the group's key never becomes a member.\<close>

theorem tcp_group_members:
  assumes "group_run tg_join tg_leave new_tcp_group h tg"
  shows "(tg_ln_open tg \<longleftrightarrow> tg_lns tg \<noteq> []) \<and>
    (\<forall>ln \<in> set (tg_lns tg). (ln, (tg_group tg, tg_addr tg, tg_port tg), tg_group_key tg) \<in> set h)"
  using tcpg.group_run_members [OF assms] by (simp add: new_tcp_group_def)

lemma tcp_group_run:
  "group_run tg_join tg_leave new_tcp_group
     [(4, (''web'', ''0.0.0.0'', 80), ''k''), (5, (''web'', ''0.0.0.0'', 80), ''k'')]
     (new_tcp_group\<lparr>tg_group := ''web'', tg_group_key := ''k'', tg_addr := ''0.0.0.0'', tg_port := 80,
        tg_real_port := 80, tg_ln_port := 80, tg_ln_open := True, tg_lns := [4, 5]\<rparr>)"
proof -
  have "tg_join (Inr 80) (''web'', ''0.0.0.0'', 80) ''k'' 4 new_tcp_group =
    (new_tcp_group\<lparr>tg_group := ''web'', tg_group_key := ''k'', tg_addr := ''0.0.0.0'', tg_port := 80,
        tg_real_port := 80, tg_ln_port := 80, tg_ln_open := True, tg_lns := [4]\<rparr>, None)" (is "_ = (?g1, None)")
    by (simp add: tg_join_def new_tcp_group_def)
  moreover have "tg_join (Inr 80) (''web'', ''0.0.0.0'', 80) ''k'' 5 ?g1 = (?g1\<lparr>tg_lns := [4, 5]\<rparr>, None)"
    by (simp add: tg_join_def new_tcp_group_def)
  ultimately show ?thesis
    using group_joined [OF group_joined [OF group_start], of tg_join] by fastforce
qed

lemma tcp_group_members_witness:
  "(5, (''web'', ''0.0.0.0'', 80), ''k'') \<in>
     set [(4 :: nat, (''web'', ''0.0.0.0'', 80 :: int), ''k''), (5, (''web'', ''0.0.0.0'', 80), ''k'')]"
  using tcp_group_members [OF tcp_group_run] by simp

text \<open>The multiplexing groups keep the same contract.\<close>

lemma tcpmux_group_members:
  assumes "group_run mg_join mg_leave new_tcpmux_group h mg"
  shows "(mg_ln mg \<noteq> None \<longleftrightarrow> mg_lns mg \<noteq> []) \<and>
    (\<forall>ln \<in> set (mg_lns mg). (ln, (mg_group mg, mg_domain mg), mg_group_key mg) \<in> set h)"
  using muxg.group_run_members [OF assms] by (simp add: new_tcpmux_group_def)

text \<open>In every history of an HTTP group, starting from a new group and a router without a route
  of it, the group's route is in the router, with the group's function, exactly while the group has
  members, and every member joined with the group's name, domain, location and key.\<close>

theorem http_group_members:
  assumes "group_run (hg_join gid) hg_leave (new_http_group, r) h (g, r')" and "routers_ok r"
    and "\<not> hg_holds gid (new_http_group, r)"
  shows "(hg_holds gid (g, r') \<longleftrightarrow> hg_pxy_names g \<noteq> []) \<and>
    set (hg_pxy_names g) = dom (hg_create_funcs g) \<and> distinct (hg_pxy_names g) \<and>
    (\<forall>n \<in> set (hg_pxy_names g). (n, (hg_group g, hg_domain g, hg_location g), hg_group_key g) \<in> set h)"
proof -
  have "hg_ok (new_http_group, r)" using assms(2) by (simp add: hg_ok_def new_http_group_def)
  from httpg.group_run_members [OF assms(1) this _ assms(3)] show ?thesis
    by (auto simp: new_http_group_def hg_ok_def hg_params_def)
qed

text \<open>One member joins, a second one with another key is refused.\<close>

definition http_group_one :: "http_group \<times> conn_fn http_routers" where
  "http_group_one =
     fst (hg_join 0 \<lparr>rc_domain = [], rc_location = [], rc_rewrite_host = [], rc_username = [], rc_password = [],
        rc_headers = None, rc_create_conn = Some (ProxyConn ''p'')\<rparr>
        (''web'', ''a.io'', ''/'') ''k'' ''p'' (new_http_group, new_routers))"

lemma http_group_run:
  "group_run (hg_join 0) hg_leave (new_http_group, new_routers) [(''p'', (''web'', ''a.io'', ''/''), ''k'')]
     (fst http_group_one, snd http_group_one)"
proof -
  have "hg_join 0 \<lparr>rc_domain = [], rc_location = [], rc_rewrite_host = [], rc_username = [], rc_password = [],
        rc_headers = None, rc_create_conn = Some (ProxyConn ''p'')\<rparr>
        (''web'', ''a.io'', ''/'') ''k'' ''p'' (new_http_group, new_routers) = (http_group_one, None)"
    by (simp add: http_group_one_def hg_join_def hg_register_def new_http_group_def new_routers_def routers_add_def exist_def
      split: option.split)
  from group_joined [where h = "[]" and join_group = "hg_join 0" and leave_group = hg_leave, OF group_start this]
  show ?thesis by simp
qed

lemma http_group_members_witness:
  "hg_holds 0 http_group_one \<longleftrightarrow> hg_pxy_names (fst http_group_one) \<noteq> []"
  using http_group_members [OF http_group_run routers_ok_new] by (simp add: hg_holds_def table_of_def exist_def new_routers_def)

section \<open>Fair use of the members\<close>

text \<open>The results of \<open>n\<close> connections one after the other.\<close>

fun hg_calls :: "nat \<Rightarrow> http_group \<Rightarrow> (unit, conn_fn) go list" where
  "hg_calls 0 g = []"
| "hg_calls (Suc n) g = (case hg_create_conn g of (g', f) \<Rightarrow> f # hg_calls n g')"

definition hg_member_fn :: "http_group \<Rightarrow> string \<Rightarrow> (unit, conn_fn) go" where
  "hg_member_fn g name = (case hg_create_funcs g name of Some (Some f) \<Rightarrow> Ok f | _ \<Rightarrow> Fail ())"

lemma unat_add_1: "unat (w :: 64 word) + 1 < 2 ^ 63 \<Longrightarrow> unat (w + 1) = unat w + 1"
  by (subst unat_add_lem [THEN iffD1]) simp_all

lemma go_mod_int: "go_mod (int a) (int b) = int (a mod b)"
  by (simp add: go_mod_def sgn_if zmod_int)

lemma hg_create_conn_small:
  assumes "hg_pxy_names g \<noteq> []" and "unat (hg_index g) + 1 < 2 ^ 63"
  shows "hg_create_conn g = (g\<lparr>hg_index := hg_index g + 1\<rparr>,
    hg_member_fn g (hg_pxy_names g ! ((unat (hg_index g) + 1) mod length (hg_pxy_names g))))"
proof -
  have "go_mod (sint (hg_index g + 1)) (int (length (hg_pxy_names g))) =
      int ((unat (hg_index g) + 1) mod length (hg_pxy_names g))"
    using assms(2) by (simp only: sint_of_small unat_add_1 go_mod_int)
  then show ?thesis
    using assms(1) by (simp only: hg_create_conn_def Let_def hg_member_fn_def) simp
qed

lemma hg_calls_nth:
  assumes "hg_pxy_names g \<noteq> []" and "unat (hg_index g) + n < 2 ^ 63"
  shows "hg_calls n g =
    map (\<lambda>i. hg_member_fn g (hg_pxy_names g ! ((unat (hg_index g) + 1 + i) mod length (hg_pxy_names g)))) [0..<n]"
  using assms
proof (induction n arbitrary: g)
  case 0
  then show ?case by simp
next
  case (Suc n)
  have "hg_create_conn g = (g\<lparr>hg_index := hg_index g + 1\<rparr>,
      hg_member_fn g (hg_pxy_names g ! ((unat (hg_index g) + 1) mod length (hg_pxy_names g))))"
    using hg_create_conn_small Suc.prems by simp
  moreover have "hg_calls n (g\<lparr>hg_index := hg_index g + 1\<rparr>) = map (\<lambda>i. hg_member_fn g
      (hg_pxy_names g ! ((unat (hg_index g) + 1 + 1 + i) mod length (hg_pxy_names g)))) [0..<n]"
    using Suc.IH [of "g\<lparr>hg_index := hg_index g + 1\<rparr>"] Suc.prems unat_add_1 [of "hg_index g"] by (simp add: hg_member_fn_def)
  ultimately show ?case
    by (simp add: map_upt_Suc del: upt_Suc)
qed

text \<open>Until the 64-bit counter of an HTTP group reaches \<open>2 ^ 63\<close>, as many calls in a row as the
  group has members serve every member once, in the members' order from the counter's position on.\<close>

theorem http_group_round_robin:
  assumes "hg_pxy_names g \<noteq> []" and "unat (hg_index g) + length (hg_pxy_names g) < 2 ^ 63"
  shows "hg_calls (length (hg_pxy_names g)) g =
    map (hg_member_fn g) (rotate (unat (hg_index g) + 1) (hg_pxy_names g))"
  unfolding hg_calls_nth [OF assms] by (rule nth_equalityI) (simp_all add: nth_rotate del: rotate_Suc)

lemma http_group_round_robin_witness:
  "hg_calls (Suc (Suc 0)) (new_http_group\<lparr>hg_pxy_names := [''p'', ''q''],
       hg_create_funcs := [''p'' \<mapsto> Some (ProxyConn ''p''), ''q'' \<mapsto> Some (ProxyConn ''q'')]\<rparr>) =
     [Ok (ProxyConn ''q''), Ok (ProxyConn ''p'')]"
  using http_group_round_robin [of "new_http_group\<lparr>hg_pxy_names := [''p'', ''q''],
       hg_create_funcs := [''p'' \<mapsto> Some (ProxyConn ''p''), ''q'' \<mapsto> Some (ProxyConn ''q'')]\<rparr>"]
  by (simp add: new_http_group_def hg_member_fn_def)

text \<open>From then on \<^verbatim>\<open>int(newIndex)\<close> is negative and the index panics.\<close>

lemma http_group_counter_overflow:
  "snd (hg_create_conn (new_http_group\<lparr>hg_pxy_names := [''p'', ''q'', ''r''], hg_index := 2 ^ 63 - 1\<rparr>)) = Panic"
  by (simp add: hg_create_conn_def new_http_group_def go_mod_def)

section \<open>The port of a TCP group\<close>

lemma tgc_listen_new:
  assumes "gc_groups s grp = None" and "tgc_listen env name grp key addr port s = (s1, Inr (ln, p))"
  shows "\<exists>pm. acquire (ge_avail env) (ge_range env) (ge_now env) name port (gc_ports s) = (pm, p, None) \<and>
    ln = gc_ln_next s \<and> gc_groups s1 = (gc_groups s)(grp \<mapsto> gc_next s) \<and> gc_ports s1 = pm \<and>
    gc_ln_closed s1 = gc_ln_closed s \<and> gc_heap s1 (gc_next s) =
      new_tcp_group\<lparr>tg_group := grp, tg_group_key := key, tg_addr := addr,
         tg_port := port, tg_real_port := p, tg_ln_port := port, tg_ln_open := True, tg_lns := [ln]\<rparr>"
proof -
  have lns: "tg_lns new_tcp_group = []" by (simp add: new_tcp_group_def)
  obtain pm q e where a: "acquire (ge_avail env) (ge_range env) (ge_now env) name port (gc_ports s) = (pm, q, e)"
    by (metis prod_cases3)
  with assms have "e = None \<and> ge_listen_ok env"
    by (cases e) (simp_all add: tgc_listen_def tgc_lookup_def tg_listen_def tg_join_def lns Let_def split: if_split_asm)
  with a assms show ?thesis
    by (cases e) (auto simp add: tgc_listen_def tgc_lookup_def tg_listen_def tg_join_def lns Let_def)
qed

lemma tg_close_last:
  assumes "gc_heap s r = new_tcp_group\<lparr>tg_group := grp, tg_group_key := key, tg_addr := addr,
         tg_port := port, tg_real_port := p, tg_ln_port := port, tg_ln_open := True, tg_lns := [ln]\<rparr>"
    and "ln \<notin> gc_ln_closed s"
  shows "\<exists>s'. tg_close_listener now r ln s = Ok s' \<and> gc_ports s' = release now p (gc_ports s) \<and>
    gc_groups s' = (gc_groups s)(grp := None)"
  using assms by (simp add: tg_close_listener_def tg_leave_def tgc_remove_group_def new_tcp_group_def Let_def)

text \<open>The first member of a new TCP group acquires one port and its closing gives exactly that
  port back and removes the group: afterwards the used and the free ports and the table of groups
  are what they were.\<close>

theorem tcp_group_port_returned:
  assumes "port_run (new_port_manager allow) es (gc_ports s)" and "set (ge_range env) = pm_free (gc_ports s)"
    and "gc_groups s grp = None" and "gc_ln_next s \<notin> gc_ln_closed s"
    and "tgc_listen env name grp key addr port s = (s1, Inr (ln, p))" and "p \<notin> dom (pm_used (gc_ports s))"
  shows "\<exists>r s2. gc_groups s1 grp = Some r \<and> p \<in> dom (pm_used (gc_ports s1)) \<and> tg_close_listener now r ln s1 = Ok s2 \<and>
    dom (pm_used (gc_ports s2)) = dom (pm_used (gc_ports s)) \<and> pm_free (gc_ports s2) = pm_free (gc_ports s) \<and>
    gc_groups s2 = gc_groups s"
proof -
  have inv: "pm_inv allow (gc_ports s)" by (rule port_run_inv [OF assms(1) pm_inv_new])
  obtain pm where a: "acquire (ge_avail env) (ge_range env) (ge_now env) name port (gc_ports s) = (pm, p, None)"
    and ln: "ln = gc_ln_next s"
    and s1: "gc_groups s1 = (gc_groups s)(grp \<mapsto> gc_next s)" "gc_ports s1 = pm" "gc_ln_closed s1 = gc_ln_closed s"
      "gc_heap s1 (gc_next s) = new_tcp_group\<lparr>tg_group := grp, tg_group_key := key, tg_addr := addr,
         tg_port := port, tg_real_port := p, tg_ln_port := port, tg_ln_open := True, tg_lns := [ln]\<rparr>"
    using tgc_listen_new [OF assms(3,5)] by blast
  have g: "granted (gc_ports s) p pm" using a assms(2) unfolding granted_def by blast
  have "(gc_groups s)(grp := None) = gc_groups s" using assms(3) by (simp add: fun_upd_idem)
  moreover obtain s2 where "tg_close_listener now (gc_next s) ln s1 = Ok s2" "gc_ports s2 = release now p pm"
      "gc_groups s2 = (gc_groups s1)(grp := None)"
    using tg_close_last [OF s1(4)] assms(4) s1 ln by auto
  ultimately show ?thesis
    using pp.grant_release [OF inv g assms(6), of now] pp.grant_used [OF inv g] s1(1,2)
    by (intro exI [of _ "gc_next s"] exI [of _ s2]) simp
qed

lemma tcp_group_listen_first:
  "tgc_listen \<lparr>ge_avail = (\<lambda>_ _. True), ge_range = [6000], ge_now = 5, ge_listen_ok = True\<rparr> ''a'' ''web'' ''k'' ''0.0.0.0'' 0
     (new_tcp_group_ctl (new_port_manager {6000})) =
   (\<lparr>gc_groups = [''web'' \<mapsto> 0], gc_heap = (\<lambda>_. new_tcp_group)(0 := new_tcp_group\<lparr>tg_group := ''web'', tg_group_key := ''k'',
       tg_addr := ''0.0.0.0'', tg_port := 0, tg_real_port := 6000, tg_ln_port := 0, tg_ln_open := True, tg_lns := [0]\<rparr>),
     gc_next = 1, gc_ln_next = 1, gc_ln_closed = {},
     gc_ports = fst (acquire (\<lambda>_ _. True) [6000] 5 ''a'' 0 (new_port_manager {6000}))\<rparr>, Inr (0, 6000))"
  by (simp add: tgc_listen_def tgc_lookup_def tg_listen_def tg_join_def new_tcp_group_def new_tcp_group_ctl_def
      acquire_first)

lemma tcp_group_port_returned_witness:
  "\<exists>s2. tg_close_listener 9 0 0 (fst (tgc_listen \<lparr>ge_avail = (\<lambda>_ _. True), ge_range = [6000], ge_now = 5, ge_listen_ok = True\<rparr>
      ''a'' ''web'' ''k'' ''0.0.0.0'' 0 (new_tcp_group_ctl (new_port_manager {6000})))) = Ok s2 \<and> pm_free (gc_ports s2) = {6000}"
proof -
  have "port_run (new_port_manager {6000}) [] (gc_ports (new_tcp_group_ctl (new_port_manager {6000})))"
    by (simp add: new_tcp_group_ctl_def run_none)
  from tcp_group_port_returned [where env = "\<lparr>ge_avail = (\<lambda>_ _. True), ge_range = [6000], ge_now = 5, ge_listen_ok = True\<rparr>",
      OF this _ _ _ tcp_group_listen_first, of 9]
  show ?thesis
    unfolding tcp_group_listen_first
    by (simp add: new_tcp_group_ctl_def new_port_manager_def allowed_ports_def) fast
qed

text \<open>
  A group that asks for any port (\<open>remote_port = 0\<close>) reports the port it acquired, but its listener
  is opened on port 0, the system's choice: \<open>tcp_group_listen_first\<close> has \<open>tg_ln_port = 0\<close> and reports
  6000. When \<^verbatim>\<open>net.Listen\<close> fails, the acquired port stays used although the group has no member.
\<close>

lemma tcp_group_listen_failure_leaks:
  "case tgc_listen \<lparr>ge_avail = (\<lambda>_ _. True), ge_range = [6000], ge_now = 5, ge_listen_ok = False\<rparr> ''a'' ''web'' ''k'' ''0.0.0.0'' 0
     (new_tcp_group_ctl (new_port_manager {6000})) of
   (s, r) \<Rightarrow> r = Inl GroupListen \<and> tg_lns (gc_heap s 0) = [] \<and> 6000 \<in> dom (pm_used (gc_ports s)) \<and> pm_free (gc_ports s) = {}"
  by (simp add: tgc_listen_def tgc_lookup_def tg_listen_def tg_join_def new_tcp_group_def new_tcp_group_ctl_def
      acquire_first Let_def)

text \<open>
  Between the lookup of a group and the use of the pointer another client's close can empty the
  group and remove it: the join then succeeds on a group that no table holds, and its close panics
  on the channel that is closed already.
\<close>

lemma stale_group_panics:
  assumes "tg_leave m tg = Ok tg'" and "tg_lns tg' = []"
    and "tg_join (Inr p) params k ln tg' = (tg'', None)"
  shows "tg_leave ln tg'' = Panic"
  using assms by (auto simp: tg_leave_def tg_join_def Let_def split: if_split_asm prod.split_asm)

end
