(* ===== verification/Registries.thy ===== *)
theory Registries
  imports Messages
begin

text \<open>
  The tables of frps that are keyed by a name: the proxies of all clients (\<^verbatim>\<open>Manager\<close> of
  \<^verbatim>\<open>frp/server/proxy/proxy.go\<close>), the listeners for visitors (\<^verbatim>\<open>frp/server/visitor/visitor.go\<close> with the
  \<^verbatim>\<open>CustomListener\<close> of \<^verbatim>\<open>frp/pkg/util/net/listener.go\<close>) and the NAT hole controller
  (\<^verbatim>\<open>frp/pkg/nathole/nathole.go\<close>). Every operation runs under its manager's mutex.
\<close>

section \<open>The contract of a keyed table\<close>

locale keyed_registry =
  fixes tbl :: "'s \<Rightarrow> 'k \<Rightarrow> 'v option" and add :: "'k \<Rightarrow> 'v \<Rightarrow> 's \<Rightarrow> 's option" and del :: "'k \<Rightarrow> 's \<Rightarrow> 's"
  assumes add_None: "add k v s = None \<longleftrightarrow> tbl s k \<noteq> None"
    and add_Some: "add k v s = Some s' \<Longrightarrow> tbl s' = (tbl s)(k \<mapsto> v)"
    and del_tbl: "tbl (del k s) = (tbl s)(k := None)"
begin

text \<open>An entry is never overwritten, and removing what was added gives the table back.\<close>

lemma add_keeps: "add k v s = Some s' \<Longrightarrow> tbl s k' = Some w \<Longrightarrow> tbl s' k' = Some w"
  using add_None [of k v s] add_Some [of k v s s'] by auto

lemma add_del: "add k v s = Some s' \<Longrightarrow> tbl (del k s') = tbl s"
  using add_None [of k v s] add_Some [of k v s s'] by (auto simp: del_tbl)

lemma fold_del: "tbl (fold del ks s) = tbl s |` (- set ks)"
  by (induction ks arbitrary: s) (auto simp: del_tbl restrict_map_def fun_eq_iff)

end

section \<open>The proxies of all clients\<close>

type_synonym 'p proxy_mgr = "string \<rightharpoonup> 'p"

definition pxm_add :: "string \<Rightarrow> 'p \<Rightarrow> 'p proxy_mgr \<Rightarrow> 'p proxy_mgr option" where
  "pxm_add name pxy pm = (case pm name of Some _ \<Rightarrow> None | None \<Rightarrow> Some (pm(name \<mapsto> pxy)))"

definition pxm_del :: "string \<Rightarrow> 'p proxy_mgr \<Rightarrow> 'p proxy_mgr" where
  "pxm_del name pm = pm(name := None)"

definition pxm_get_by_name :: "string \<Rightarrow> 'p proxy_mgr \<Rightarrow> 'p option" where
  "pxm_get_by_name name pm = pm name"

interpretation pxm: keyed_registry "\<lambda>pm. pm" pxm_add pxm_del
  by unfold_locales (auto simp: pxm_add_def pxm_del_def split: option.split option.split_asm)

section \<open>Listeners for visitors\<close>

text \<open>
  A \<^verbatim>\<open>CustomListener\<close> has a channel for 64 connections. \<^verbatim>\<open>PutConn\<close> on a closed channel panics, which it
  turns into an error; on a full channel it closes the connection and returns no error.
\<close>

record 'c custom_listener =
  cl_accept :: "'c list"
  cl_closed :: bool

definition new_custom_listener :: "'c custom_listener" where
  "new_custom_listener = \<lparr>cl_accept = [], cl_closed = False\<rparr>"

definition cl_put_conn :: "'c \<Rightarrow> 'c custom_listener \<Rightarrow> 'c custom_listener \<times> bool" where
  "cl_put_conn conn l =
     (if cl_closed l then (l, False)
      else if length (cl_accept l) < 64 then (l\<lparr>cl_accept := cl_accept l @ [conn]\<rparr>, True)
      else (l, True))"

text \<open>\<^verbatim>\<open>Accept\<close> when it does not wait: a connection, or the error of a closed and drained channel.\<close>

definition cl_accept_conn :: "'c custom_listener \<Rightarrow> ('c custom_listener \<times> 'c option) option" where
  "cl_accept_conn l =
     (case cl_accept l of
        c # cs \<Rightarrow> Some (l\<lparr>cl_accept := cs\<rparr>, Some c)
      | [] \<Rightarrow> if cl_closed l then Some (l, None) else None)"

definition cl_close :: "'c custom_listener \<Rightarrow> 'c custom_listener" where
  "cl_close l = (if \<not> cl_closed l then l\<lparr>cl_closed := True\<rparr> else l)"

text \<open>A wrapped connection: the key it is encrypted with, and whether it is compressed.\<close>

record 'c visitor_conn =
  vc_conn :: 'c
  vc_encrypted :: "string option"
  vc_compressed :: bool

record 'c visitor_mgr =
  vm_listeners :: "string \<rightharpoonup> nat"
  vm_sk_map :: "string \<rightharpoonup> string"
  vm_heap :: "nat \<Rightarrow> 'c visitor_conn custom_listener"
  vm_next :: nat

definition new_visitor_mgr :: "'c visitor_mgr" where
  "new_visitor_mgr =
     \<lparr>vm_listeners = Map.empty, vm_sk_map = Map.empty, vm_heap = (\<lambda>_. new_custom_listener), vm_next = 0\<rparr>"

datatype visitor_error = VisitorRepeated | VisitorAuthFailed | VisitorEncryption | VisitorPutConn | VisitorNoListener

definition vm_listen :: "string \<Rightarrow> string \<Rightarrow> 'c visitor_mgr \<Rightarrow> 'c visitor_mgr \<times> (visitor_error + nat)" where
  "vm_listen name sk vm =
     (case vm_listeners vm name of
        Some _ \<Rightarrow> (vm, Inl VisitorRepeated)
      | None \<Rightarrow>
          (vm\<lparr>vm_listeners := (vm_listeners vm)(name \<mapsto> vm_next vm), vm_sk_map := (vm_sk_map vm)(name \<mapsto> sk),
              vm_heap := (vm_heap vm)(vm_next vm := new_custom_listener), vm_next := vm_next vm + 1\<rparr>,
           Inr (vm_next vm)))"

text \<open>\<open>md5\<close> is the hash and \<open>enc_ok\<close> says whether \<^verbatim>\<open>WithEncryption\<close> succeeds with a key.\<close>

definition vm_new_conn ::
    "(string \<Rightarrow> string) \<Rightarrow> (string \<Rightarrow> bool) \<Rightarrow> string \<Rightarrow> 'c \<Rightarrow> int \<Rightarrow> string \<Rightarrow> bool \<Rightarrow> bool \<Rightarrow> 'c visitor_mgr \<Rightarrow>
     'c visitor_mgr \<times> visitor_error option" where
  "vm_new_conn md5 enc_ok name conn timestamp signKey useEncryption useCompression vm =
     (case vm_listeners vm name of
        None \<Rightarrow> (vm, Some VisitorNoListener)
      | Some l \<Rightarrow>
          let sk = (case vm_sk_map vm name of None \<Rightarrow> [] | Some sk \<Rightarrow> sk) in
          if get_auth_key md5 sk timestamp \<noteq> signKey then (vm, Some VisitorAuthFailed)
          else if useEncryption \<and> \<not> enc_ok sk then (vm, Some VisitorEncryption)
          else
            let rwc = \<lparr>vc_conn = conn, vc_encrypted = (if useEncryption then Some sk else None),
                       vc_compressed = useCompression\<rparr>;
                (l', ok) = cl_put_conn rwc (vm_heap vm l)
            in (vm\<lparr>vm_heap := (vm_heap vm)(l := l')\<rparr>, if ok then None else Some VisitorPutConn))"

definition vm_close_listener :: "string \<Rightarrow> 'c visitor_mgr \<Rightarrow> 'c visitor_mgr" where
  "vm_close_listener name vm =
     vm\<lparr>vm_listeners := (vm_listeners vm)(name := None), vm_sk_map := (vm_sk_map vm)(name := None)\<rparr>"

text \<open>\<^verbatim>\<open>Close\<close> of the listener itself.\<close>

definition vm_close_conn :: "nat \<Rightarrow> 'c visitor_mgr \<Rightarrow> 'c visitor_mgr" where
  "vm_close_conn l vm = vm\<lparr>vm_heap := (vm_heap vm)(l := cl_close (vm_heap vm l))\<rparr>"

definition vm_table :: "'c visitor_mgr \<Rightarrow> string \<Rightarrow> string option" where
  "vm_table vm name = (case vm_listeners vm name of None \<Rightarrow> None | Some _ \<Rightarrow>
     Some (case vm_sk_map vm name of None \<Rightarrow> [] | Some sk \<Rightarrow> sk))"

definition vm_add :: "string \<Rightarrow> string \<Rightarrow> 'c visitor_mgr \<Rightarrow> 'c visitor_mgr option" where
  "vm_add name sk vm = (case vm_listen name sk vm of (vm', Inr _) \<Rightarrow> Some vm' | _ \<Rightarrow> None)"

interpretation vmr: keyed_registry vm_table vm_add vm_close_listener
proof
  fix k v :: string and s s' :: "'c visitor_mgr"
  show "vm_add k v s = None \<longleftrightarrow> vm_table s k \<noteq> None"
    by (auto simp: vm_add_def vm_listen_def vm_table_def split: option.split)
  show "vm_add k v s = Some s' \<Longrightarrow> vm_table s' = (vm_table s)(k \<mapsto> v)"
  proof
    fix x
    assume "vm_add k v s = Some s'"
    then show "vm_table s' x = ((vm_table s)(k \<mapsto> v)) x"
      by (cases "x = k"; cases "vm_listeners s x") (auto simp: vm_add_def vm_listen_def vm_table_def split: option.split_asm)
  qed
  show "vm_table (vm_close_listener k s) = (vm_table s)(k := None)"
    by (auto simp: vm_close_listener_def vm_table_def fun_eq_iff split: option.split)
qed

section \<open>The NAT hole controller\<close>

record nat_client_cfg =
  nc_name :: string
  nc_sk :: string
  nc_sid_ch :: nat

record nat_session =
  ns_sid :: string
  ns_visitor_addr :: string
  ns_client_addr :: "string option"

record nathole_ctl =
  nh_client_cfgs :: "string \<rightharpoonup> nat_client_cfg"
  nh_sessions :: "string \<rightharpoonup> nat_session"
  nh_next :: nat

definition new_nathole_ctl :: nathole_ctl where
  "new_nathole_ctl = \<lparr>nh_client_cfgs = Map.empty, nh_sessions = Map.empty, nh_next = 0\<rparr>"

definition nh_listen_client :: "string \<Rightarrow> string \<Rightarrow> nathole_ctl \<Rightarrow> nathole_ctl \<times> nat" where
  "nh_listen_client name sk nc =
     (nc\<lparr>nh_client_cfgs := (nh_client_cfgs nc)(name \<mapsto> \<lparr>nc_name = name, nc_sk = sk, nc_sid_ch = nh_next nc\<rparr>),
         nh_next := nh_next nc + 1\<rparr>, nh_next nc)"

definition nh_close_client :: "string \<Rightarrow> nathole_ctl \<Rightarrow> nathole_ctl" where
  "nh_close_client name nc = nc\<lparr>nh_client_cfgs := (nh_client_cfgs nc)(name := None)\<rparr>"

text \<open>The answer; the address of a client that did not call is printed as \<^verbatim>\<open><nil>\<close>.\<close>

definition gen_nat_hole_response :: "nat_session option \<Rightarrow> string \<Rightarrow> nat_hole_resp_msg" where
  "gen_nat_hole_response session errInfo =
     (case session of
        None \<Rightarrow> \<lparr>hr_sid = [], hr_visitor_addr = [], hr_client_addr = [], hr_error = errInfo\<rparr>
      | Some s \<Rightarrow> \<lparr>hr_sid = ns_sid s, hr_visitor_addr = ns_visitor_addr s,
                   hr_client_addr = (case ns_client_addr s of None \<Rightarrow> ''<nil>'' | Some a \<Rightarrow> a), hr_error = errInfo\<rparr>)"

text \<open>
  The handler of a visitor until it waits: the answer of a refusal, or the request it sends on the
  channel of the client. Then it is woken by the client's notification or by the timeout.
\<close>

definition nh_visitor_begin ::
    "(string \<Rightarrow> string) \<Rightarrow> string \<Rightarrow> nat_hole_visitor_msg \<Rightarrow> string \<Rightarrow> nathole_ctl \<Rightarrow>
     nathole_ctl \<times> (nat_hole_resp_msg + nat \<times> string)" where
  "nh_visitor_begin md5 sid m raddr nc =
     (let session = \<lparr>ns_sid = sid, ns_visitor_addr = raddr, ns_client_addr = None\<rparr> in
      case nh_client_cfgs nc (hv_proxy_name m) of
        None \<Rightarrow> (nc, Inl (gen_nat_hole_response None (''xtcp server for ['' @ hv_proxy_name m @ ''] doesn't exist'')))
      | Some clientCfg \<Rightarrow>
          if hv_sign_key m \<noteq> get_auth_key md5 (nc_sk clientCfg) (hv_timestamp m) then
            (nc, Inl (gen_nat_hole_response None (''xtcp connection of ['' @ hv_proxy_name m @ ''] auth failed'')))
          else (nc\<lparr>nh_sessions := (nh_sessions nc)(sid \<mapsto> session)\<rparr>, Inr (nc_sid_ch clientCfg, sid)))"

definition nh_visitor_end :: "bool \<Rightarrow> string \<Rightarrow> nathole_ctl \<Rightarrow> nathole_ctl \<times> nat_hole_resp_msg option" where
  "nh_visitor_end notified sid nc =
     (nc\<lparr>nh_sessions := (nh_sessions nc)(sid := None)\<rparr>,
      if notified then map_option (\<lambda>s. gen_nat_hole_response (Some s) []) (nh_sessions nc sid) else None)"

definition nh_handle_client :: "nat_hole_client_msg \<Rightarrow> string \<Rightarrow> nathole_ctl \<Rightarrow> nathole_ctl \<times> nat_hole_resp_msg option" where
  "nh_handle_client m raddr nc =
     (case nh_sessions nc (hc_sid m) of
        None \<Rightarrow> (nc, None)
      | Some s \<Rightarrow>
          let s' = s\<lparr>ns_client_addr := Some raddr\<rparr> in
          (nc\<lparr>nh_sessions := (nh_sessions nc)(hc_sid m \<mapsto> s')\<rparr>, Some (gen_nat_hole_response (Some s') [])))"

section \<open>Histories of the visitor listeners\<close>

inductive vm_reachable :: "'c visitor_mgr \<Rightarrow> bool" where
  vm_new: "vm_reachable new_visitor_mgr"
| vm_listened: "vm_reachable vm \<Longrightarrow> vm_listen name sk vm = (vm', r) \<Longrightarrow> vm_reachable vm'"
| vm_connected: "vm_reachable vm \<Longrightarrow>
    vm_new_conn md5 enc_ok name conn timestamp signKey enc cps vm = (vm', e) \<Longrightarrow> vm_reachable vm'"
| vm_unlisted: "vm_reachable vm \<Longrightarrow> vm_reachable (vm_close_listener name vm)"
| vm_closed: "vm_reachable vm \<Longrightarrow> vm_reachable (vm_close_conn l vm)"

definition vm_inv :: "'c visitor_mgr \<Rightarrow> bool" where
  "vm_inv vm \<longleftrightarrow> dom (vm_sk_map vm) = dom (vm_listeners vm) \<and> inj_on (vm_listeners vm) (dom (vm_listeners vm)) \<and>
     (\<forall>name l. vm_listeners vm name = Some l \<longrightarrow> l < vm_next vm)"

lemma vm_inv_listen [frp_inv]:
  assumes "vm_inv vm" and "vm_listen name sk vm = (vm', r)"
  shows "vm_inv vm'"
proof (cases "vm_listeners vm name")
  case None
  have bound: "l < vm_next vm" if "vm_listeners vm n = Some l" for n l
    using assms(1) that unfolding vm_inv_def by blast
  have new: "vm_listeners vm n \<noteq> Some (vm_next vm)" for n
    using bound by blast
  have inj: "n = n'" if "vm_listeners vm n = Some l" "vm_listeners vm n' = Some l" for n n' l
    using assms(1) that unfolding vm_inv_def by (metis domI inj_onD)
  from None assms have l': "vm_listeners vm' = (vm_listeners vm)(name \<mapsto> vm_next vm)"
    and "vm_sk_map vm' = (vm_sk_map vm)(name \<mapsto> sk)" "vm_next vm' = vm_next vm + 1"
    by (auto simp: vm_listen_def)
  moreover have "inj_on (vm_listeners vm') (dom (vm_listeners vm'))"
    by (rule inj_onI) (use new inj in \<open>auto simp: l' split: if_split_asm\<close>)
  moreover have "l < vm_next vm + 1" if "vm_listeners vm' n = Some l" for n l
    using that bound [of n l] by (auto simp: l' split: if_split_asm)
  ultimately show ?thesis using assms(1) by (simp add: vm_inv_def)
next
  case (Some l)
  with assms show ?thesis by (simp add: vm_listen_def)
qed

lemma vm_new_conn_frame [frp_frame]:
  assumes "vm_new_conn md5 enc_ok name conn timestamp signKey enc cps vm = (vm', e)"
  shows "vm_listeners vm' = vm_listeners vm" "vm_sk_map vm' = vm_sk_map vm" "vm_next vm' = vm_next vm"
  using assms by (auto simp: vm_new_conn_def Let_def split: option.split_asm if_split_asm prod.split_asm)

lemma vm_reachable_inv: "vm_reachable vm \<Longrightarrow> vm_inv vm"
proof (induction rule: vm_reachable.induct)
  case vm_new
  then show ?case by (simp add: vm_inv_def new_visitor_mgr_def)
next
  case (vm_listened vm name sk vm' r)
  then show ?case by (blast intro: vm_inv_listen)
next
  case (vm_connected vm md5 enc_ok name conn timestamp signKey enc cps vm' e)
  then show ?case using vm_new_conn_frame [OF vm_connected.hyps(2)] by (simp add: vm_inv_def)
next
  case (vm_unlisted vm name)
  then show ?case by (auto simp: vm_inv_def vm_close_listener_def inj_on_def)
next
  case (vm_closed vm l)
  then show ?case by (simp add: vm_inv_def vm_close_conn_def)
qed

text \<open>C9: A visitor's connection gets through exactly when a proxy of that name listens, the
  visitor's key is the one that belongs to the proxy's secret and the visitor's timestamp, the
  encryption it asks for can be set up and the listener is open; then it is the last connection in
  that listener's queue (or closed when 64 are waiting), encrypted with the proxy's secret if asked
  for, and no other listener sees it.\<close>

theorem visitor_conn_admitted:
  assumes "vm_reachable vm"
    and "vm_new_conn md5 enc_ok name conn timestamp signKey enc cps vm = (vm', e)"
  shows "(e = None \<longleftrightarrow> (\<exists>l sk. vm_listeners vm name = Some l \<and> vm_table vm name = Some sk \<and>
        signKey = get_auth_key md5 sk timestamp \<and> (enc \<longrightarrow> enc_ok sk) \<and> \<not> cl_closed (vm_heap vm l) \<and>
        cl_accept (vm_heap vm' l) = cl_accept (vm_heap vm l) @
          (if length (cl_accept (vm_heap vm l)) < 64 then
             [\<lparr>vc_conn = conn, vc_encrypted = (if enc then Some sk else None), vc_compressed = cps\<rparr>] else []))) \<and>
    (\<forall>name' l. vm_listeners vm name' = Some l \<longrightarrow> name' \<noteq> name \<longrightarrow> vm_heap vm' l = vm_heap vm l)"
proof (rule conjI)
  note inv = vm_reachable_inv [OF assms(1)]
  show "e = None \<longleftrightarrow> (\<exists>l sk. vm_listeners vm name = Some l \<and> vm_table vm name = Some sk \<and>
        signKey = get_auth_key md5 sk timestamp \<and> (enc \<longrightarrow> enc_ok sk) \<and> \<not> cl_closed (vm_heap vm l) \<and>
        cl_accept (vm_heap vm' l) = cl_accept (vm_heap vm l) @
          (if length (cl_accept (vm_heap vm l)) < 64 then
             [\<lparr>vc_conn = conn, vc_encrypted = (if enc then Some sk else None), vc_compressed = cps\<rparr>] else []))"
    using assms(2)
    by (auto simp: vm_new_conn_def vm_table_def cl_put_conn_def Let_def split: option.split_asm if_split_asm)
  show "\<forall>name' l. vm_listeners vm name' = Some l \<longrightarrow> name' \<noteq> name \<longrightarrow> vm_heap vm' l = vm_heap vm l"
  proof (intro allI impI)
    fix name' l
    assume l: "vm_listeners vm name' = Some l" "name' \<noteq> name"
    then have "vm_listeners vm name \<noteq> Some l"
      using inv by (metis (mono_tags) domI inj_onD vm_inv_def)
    then show "vm_heap vm' l = vm_heap vm l"
      using assms(2) by (auto simp: vm_new_conn_def Let_def split: option.split_asm if_split_asm prod.split_asm)
  qed
qed

lemma visitor_conn_admitted_witness:
  "cl_accept (vm_heap (fst (vm_new_conn (\<lambda>s. s) (\<lambda>_. True) ''p'' (7 :: nat) 5 ''k5'' True False
      (fst (vm_listen ''p'' ''k'' new_visitor_mgr)))) 0) =
   [\<lparr>vc_conn = 7, vc_encrypted = Some ''k'', vc_compressed = False\<rparr>]"
proof -
  let ?vm = "fst (vm_listen ''p'' ''k'' (new_visitor_mgr :: nat visitor_mgr))"
  let ?r = "vm_new_conn (\<lambda>s. s) (\<lambda>_. True) ''p'' (7 :: nat) 5 ''k5'' True False ?vm"
  have "vm_reachable ?vm" by (rule vm_listened [OF vm_new surjective_pairing])
  note adm = visitor_conn_admitted [OF this surjective_pairing, THEN conjunct1,
      of "\<lambda>s. s" "\<lambda>_. True" "''p''" 7 5 "''k5''" True False]
  have "vm_listeners ?vm = [''p'' \<mapsto> 0]" "vm_sk_map ?vm = [''p'' \<mapsto> ''k'']" "vm_heap ?vm 0 = new_custom_listener"
    by (simp_all add: vm_listen_def new_visitor_mgr_def)
  moreover have "get_auth_key (\<lambda>s. s) ''k'' 5 = ''k5''" by (simp add: get_auth_key_def) code_simp
  moreover have "snd ?r = None"
    using calculation by (simp add: vm_new_conn_def cl_put_conn_def new_custom_listener_def Let_def)
  ultimately show ?thesis using adm by (simp add: vm_table_def new_custom_listener_def)
qed

section \<open>Histories of the NAT hole controller\<close>

text \<open>
  A history, with the visitors that were let in: the session id, the visitor's address, its message
  and the secret of the proxy it asked for.
\<close>

inductive nh_run :: "(string \<Rightarrow> string) \<Rightarrow> (string \<times> string \<times> nat_hole_visitor_msg \<times> string) list \<Rightarrow> nathole_ctl \<Rightarrow> bool"
  for md5 where
  nh_new: "nh_run md5 [] new_nathole_ctl"
| nh_listened: "nh_run md5 h nc \<Longrightarrow> nh_run md5 h (fst (nh_listen_client name sk nc))"
| nh_unlisted: "nh_run md5 h nc \<Longrightarrow> nh_run md5 h (nh_close_client name nc)"
| nh_refused: "nh_run md5 h nc \<Longrightarrow> nh_visitor_begin md5 sid m raddr nc = (nc', Inl resp) \<Longrightarrow> nh_run md5 h nc'"
| nh_let_in: "nh_run md5 h nc \<Longrightarrow> nh_visitor_begin md5 sid m raddr nc = (nc', Inr req) \<Longrightarrow>
    nh_client_cfgs nc (hv_proxy_name m) = Some cfg \<Longrightarrow> nh_run md5 ((sid, raddr, m, nc_sk cfg) # h) nc'"
| nh_ended: "nh_run md5 h nc \<Longrightarrow> nh_run md5 h (fst (nh_visitor_end notified sid nc))"
| nh_client: "nh_run md5 h nc \<Longrightarrow> nh_run md5 h (fst (nh_handle_client m raddr nc))"

lemma nh_visitor_begin_cases:
  assumes "nh_visitor_begin md5 sid m raddr nc = (nc', r)"
  shows "(\<exists>resp. r = Inl resp \<and> nc' = nc \<and> hr_visitor_addr resp = [] \<and> hr_client_addr resp = []) \<or>
    (\<exists>cfg. nh_client_cfgs nc (hv_proxy_name m) = Some cfg \<and> r = Inr (nc_sid_ch cfg, sid) \<and>
       hv_sign_key m = get_auth_key md5 (nc_sk cfg) (hv_timestamp m) \<and>
       nc' = nc\<lparr>nh_sessions := (nh_sessions nc)(sid \<mapsto> \<lparr>ns_sid = sid, ns_visitor_addr = raddr, ns_client_addr = None\<rparr>)\<rparr>)"
  using assms by (auto simp: nh_visitor_begin_def gen_nat_hole_response_def split: option.split_asm if_split_asm)

lemma nh_run_sessions:
  assumes "nh_run md5 h nc" and "nh_sessions nc sid = Some s"
  shows "ns_sid s = sid \<and> (\<exists>m sk. (sid, ns_visitor_addr s, m, sk) \<in> set h)"
  using assms
proof (induction arbitrary: sid s rule: nh_run.induct)
  case nh_new
  then show ?case by (simp add: new_nathole_ctl_def)
next
  case (nh_listened h nc name sk)
  then show ?case by (simp add: nh_listen_client_def)
next
  case (nh_unlisted h nc name)
  then show ?case by (simp add: nh_close_client_def)
next
  case (nh_refused h nc sid' m raddr nc' resp)
  from nh_visitor_begin_cases [OF nh_refused.hyps(2)] have "nc' = nc" by blast
  with nh_refused show ?case by blast
next
  case (nh_let_in h nc sid' m raddr nc' req cfg)
  from nh_visitor_begin_cases [OF nh_let_in.hyps(2)]
  have "nh_sessions nc' = (nh_sessions nc)(sid' \<mapsto> \<lparr>ns_sid = sid', ns_visitor_addr = raddr, ns_client_addr = None\<rparr>)"
    by auto
  with nh_let_in.prems nh_let_in.IH show ?case by (cases "sid = sid'") fastforce+
next
  case (nh_ended h nc notified sid')
  then show ?case by (auto simp: nh_visitor_end_def split: if_split_asm)
next
  case (nh_client h nc m raddr)
  then show ?case by (cases "nh_sessions nc (hc_sid m)") (auto simp: nh_handle_client_def Let_def split: if_split_asm)
qed

lemma nh_run_keys:
  assumes "nh_run md5 h nc" and "(sid, a, m, sk) \<in> set h"
  shows "hv_sign_key m = get_auth_key md5 sk (hv_timestamp m)"
  using assms
proof (induction rule: nh_run.induct)
  case (nh_let_in h nc sid' m' raddr nc' req cfg)
  from nh_visitor_begin_cases [OF nh_let_in.hyps(2)] nh_let_in show ?case by auto
qed simp_all

text \<open>C34: The addresses of a visitor are told to a client only for a session whose visitor proved
  that it knows the secret of the proxy it asked for, and the answer carries the session's own id
  and the addresses of exactly these two parties; a refused visitor learns no address.\<close>

theorem nathole_addresses_guarded:
  assumes "nh_run md5 h nc"
  shows "(nh_handle_client c raddr nc = (nc', Some resp) \<longrightarrow>
      hr_sid resp = hc_sid c \<and> hr_client_addr resp = raddr \<and>
      (\<exists>m sk. (hc_sid c, hr_visitor_addr resp, m, sk) \<in> set h \<and>
         hv_sign_key m = get_auth_key md5 sk (hv_timestamp m))) \<and>
    (nh_visitor_begin md5 sid m a nc = (nc'', Inl resp') \<longrightarrow>
      hr_visitor_addr resp' = [] \<and> hr_client_addr resp' = [] \<and> nc'' = nc)"
proof -
  have "hr_sid resp = hc_sid c \<and> hr_client_addr resp = raddr \<and>
      (\<exists>m sk. (hc_sid c, hr_visitor_addr resp, m, sk) \<in> set h \<and>
         hv_sign_key m = get_auth_key md5 sk (hv_timestamp m))"
    if answered: "nh_handle_client c raddr nc = (nc', Some resp)"
  proof -
    obtain s where s: "nh_sessions nc (hc_sid c) = Some s"
      using answered by (auto simp: nh_handle_client_def split: option.split_asm)
    with answered have "resp = gen_nat_hole_response (Some (s\<lparr>ns_client_addr := Some raddr\<rparr>)) []"
      by (simp add: nh_handle_client_def Let_def)
    with nh_run_sessions [OF assms s] nh_run_keys [OF assms] show ?thesis
      by (simp add: gen_nat_hole_response_def) blast
  qed
  moreover have "hr_visitor_addr resp' = [] \<and> hr_client_addr resp' = [] \<and> nc'' = nc"
    if "nh_visitor_begin md5 sid m a nc = (nc'', Inl resp')"
    using nh_visitor_begin_cases [OF that] by auto
  ultimately show ?thesis by blast
qed

lemma nathole_addresses_guarded_witness:
  "hr_visitor_addr (gen_nat_hole_response
      (Some \<lparr>ns_sid = ''s1'', ns_visitor_addr = ''v:1'', ns_client_addr = Some ''c:2''\<rparr>) []) = ''v:1'' \<and>
   ''k5'' = get_auth_key (\<lambda>s. s) ''k'' 5"
proof -
  let ?m = "\<lparr>hv_proxy_name = ''p'', hv_sign_key = ''k5'', hv_timestamp = 5\<rparr>"
  let ?cfg = "\<lparr>nc_name = ''p'', nc_sk = ''k'', nc_sid_ch = 0\<rparr>"
  let ?nc = "fst (nh_listen_client ''p'' ''k'' new_nathole_ctl)"
  have key: "get_auth_key (\<lambda>s. s) ''k'' 5 = ''k5''" by (simp add: get_auth_key_def) code_simp
  have cfg: "nh_client_cfgs ?nc (hv_proxy_name ?m) = Some ?cfg" by (simp add: nh_listen_client_def new_nathole_ctl_def)
  have b: "nh_visitor_begin (\<lambda>s. s) ''s1'' ?m ''v:1'' ?nc =
      (?nc\<lparr>nh_sessions := [''s1'' \<mapsto> \<lparr>ns_sid = ''s1'', ns_visitor_addr = ''v:1'', ns_client_addr = None\<rparr>]\<rparr>, Inr (0, ''s1''))"
    (is "_ = (?nc', _)")
    using key by (simp add: nh_visitor_begin_def nh_listen_client_def new_nathole_ctl_def)
  have run: "nh_run (\<lambda>s. s) [(''s1'', ''v:1'', ?m, ''k'')] ?nc'"
    using nh_let_in [OF nh_listened [OF nh_new] b cfg] by simp
  have "nh_handle_client \<lparr>hc_proxy_name = ''p'', hc_sid = ''s1''\<rparr> ''c:2'' ?nc' =
      (?nc'\<lparr>nh_sessions := [''s1'' \<mapsto> \<lparr>ns_sid = ''s1'', ns_visitor_addr = ''v:1'', ns_client_addr = Some ''c:2''\<rparr>]\<rparr>,
       Some (gen_nat_hole_response (Some \<lparr>ns_sid = ''s1'', ns_visitor_addr = ''v:1'', ns_client_addr = Some ''c:2''\<rparr>) []))"
    by (simp add: nh_handle_client_def Let_def)
  from nathole_addresses_guarded [OF run, THEN conjunct1, THEN mp, OF this] key show ?thesis by auto
qed

text \<open>
  A second client that registers an xtcp proxy under a name in use replaces the first one's entry,
  and its withdrawal (its registration then fails on the name) removes it: the first proxy is not
  reachable any more.
\<close>

lemma nathole_entry_lost:
  "nh_client_cfgs (nh_close_client name (fst (nh_listen_client name sk' (fst (nh_listen_client name sk nc))))) name = None"
  by (simp add: nh_close_client_def)

end
