(* ===== verification/Server_Plugins.thy ===== *)
theory Server_Plugins
  imports Server_Conf Messages
begin

text \<open>
  The server's plugins: \<^verbatim>\<open>frp/pkg/plugin/server\<close> (\<^verbatim>\<open>plugin.go\<close>, \<^verbatim>\<open>types.go\<close>, \<^verbatim>\<open>http.go\<close>, \<^verbatim>\<open>manager.go\<close>). A plugin
  is asked over HTTP; the exchange is a parameter of the model: what the peer answers to an
  operation and a content, given as the status and the decoded body.
\<close>

section \<open>Types\<close>

definition OpLogin :: string where "OpLogin = ''Login''"
definition OpNewProxy :: string where "OpNewProxy = ''NewProxy''"
definition OpPing :: string where "OpPing = ''Ping''"
definition OpNewWorkConn :: string where "OpNewWorkConn = ''NewWorkConn''"
definition OpNewUserConn :: string where "OpNewUserConn = ''NewUserConn''"

record user_info =
  ui_user :: string
  ui_metas :: str_map
  ui_run_id :: string

record new_proxy_content =
  npc_user :: user_info
  npc_new_proxy :: new_proxy_msg

record ping_content =
  pgc_user :: user_info
  pgc_ping :: ping_msg

record new_work_conn_content =
  nwc_user :: user_info
  nwc_new_work_conn :: new_work_conn_msg

record new_user_conn_content =
  nuc_user :: user_info
  nuc_proxy_name :: string
  nuc_proxy_type :: string
  nuc_remote_addr :: string

text \<open>The values that the interface type of \<^verbatim>\<open>content\<close> holds in this program.\<close>

datatype plugin_content =
    CLogin login_msg
  | CNewProxy new_proxy_content
  | CPing ping_content
  | CNewWorkConn new_work_conn_content
  | CNewUserConn new_user_conn_content

fun the_login :: "plugin_content \<Rightarrow> login_msg option" where
  "the_login (CLogin c) = Some c" | "the_login _ = None"

fun the_new_proxy :: "plugin_content \<Rightarrow> new_proxy_content option" where
  "the_new_proxy (CNewProxy c) = Some c" | "the_new_proxy _ = None"

fun the_ping :: "plugin_content \<Rightarrow> ping_content option" where
  "the_ping (CPing c) = Some c" | "the_ping _ = None"

fun the_new_work_conn :: "plugin_content \<Rightarrow> new_work_conn_content option" where
  "the_new_work_conn (CNewWorkConn c) = Some c" | "the_new_work_conn _ = None"

fun the_new_user_conn :: "plugin_content \<Rightarrow> new_user_conn_content option" where
  "the_new_user_conn (CNewUserConn c) = Some c" | "the_new_user_conn _ = None"

text \<open>
  \<^verbatim>\<open>Response\<close>. The decoder stores the body's content in a new value of the request's type; a JSON
  \<^verbatim>\<open>null\<close> makes it nil (\<open>None\<close>).
\<close>

record plugin_response =
  rs_reject :: bool
  rs_reject_reason :: string
  rs_unchange :: bool
  rs_content :: "plugin_content option"

record plugin_request =
  rq_version :: string
  rq_op :: string
  rq_content :: plugin_content

section \<open>The HTTP plugin\<close>

text \<open>
  What the peer answers: nothing (\<open>None\<close>, also for a body that is not read), or a status with the
  decoded body (\<open>None\<close> when it is not JSON of the type).
\<close>

type_synonym plugin_peer = "string \<Rightarrow> plugin_request \<Rightarrow> (int \<times> plugin_response option) option"

record http_plugin =
  hp_options :: http_plugin_options
  hp_url :: string
  hp_insecure_tls :: bool

definition new_http_plugin_options :: "http_plugin_options \<Rightarrow> http_plugin" where
  "new_http_plugin_options options =
     (let url = ho_addr options @ ho_path options in
      \<lparr>hp_options = options,
       hp_url = (if \<not> prefix ''https://'' url \<and> \<not> prefix ''http://'' url then ''http://'' @ url else url),
       hp_insecure_tls = (prefix ''https://'' url \<and> \<not> ho_tls_verify options)\<rparr>)"

definition hp_name :: "http_plugin \<Rightarrow> string" where
  "hp_name p = ho_name (hp_options p)"

fun member_of :: "string \<Rightarrow> string list \<Rightarrow> bool" where
  "member_of op [] = False"
| "member_of op (v # vs) = (if v = op then True else member_of op vs)"

definition hp_is_support :: "http_plugin \<Rightarrow> string \<Rightarrow> bool" where
  "hp_is_support p op = member_of op (elems (ho_ops (hp_options p)))"

definition hp_do :: "plugin_peer \<Rightarrow> http_plugin \<Rightarrow> plugin_request \<Rightarrow> plugin_response option" where
  "hp_do peer p r =
     (case peer (hp_url p) r of
        None \<Rightarrow> None
      | Some (status, body) \<Rightarrow> if status \<noteq> 200 then None else body)"

definition hp_handle :: "plugin_peer \<Rightarrow> http_plugin \<Rightarrow> string \<Rightarrow> plugin_content \<Rightarrow> plugin_response option" where
  "hp_handle peer p op content = hp_do peer p \<lparr>rq_version = ''0.1.0'', rq_op = op, rq_content = content\<rparr>"

section \<open>The manager\<close>

record plugin_mgr =
  pl_login :: "http_plugin list"
  pl_new_proxy :: "http_plugin list"
  pl_ping :: "http_plugin list"
  pl_new_work_conn :: "http_plugin list"
  pl_new_user_conn :: "http_plugin list"

definition new_plugin_mgr :: plugin_mgr where
  "new_plugin_mgr = \<lparr>pl_login = [], pl_new_proxy = [], pl_ping = [], pl_new_work_conn = [], pl_new_user_conn = []\<rparr>"

definition pl_register :: "http_plugin \<Rightarrow> plugin_mgr \<Rightarrow> plugin_mgr" where
  "pl_register p m =
     \<lparr>pl_login = (if hp_is_support p OpLogin then pl_login m @ [p] else pl_login m),
      pl_new_proxy = (if hp_is_support p OpNewProxy then pl_new_proxy m @ [p] else pl_new_proxy m),
      pl_ping = (if hp_is_support p OpPing then pl_ping m @ [p] else pl_ping m),
      pl_new_work_conn = (if hp_is_support p OpNewWorkConn then pl_new_work_conn m @ [p] else pl_new_work_conn m),
      pl_new_user_conn = (if hp_is_support p OpNewUserConn then pl_new_user_conn m @ [p] else pl_new_user_conn m)\<rparr>"

datatype plugin_error = PluginSend string | PluginReject string

text \<open>The loop over the plugins; the type assertion on a nil content panics.\<close>

fun run_plugins ::
    "plugin_peer \<Rightarrow> string \<Rightarrow> ('c \<Rightarrow> plugin_content) \<Rightarrow> (plugin_content \<Rightarrow> 'c option) \<Rightarrow> string \<Rightarrow>
     http_plugin list \<Rightarrow> 'c \<Rightarrow> (plugin_error, 'c) go" where
  "run_plugins peer op wrap unwrap what [] content = Ok content"
| "run_plugins peer op wrap unwrap what (p # ps) content =
     (case hp_handle peer p op (wrap content) of
        None \<Rightarrow> Fail (PluginSend (''send '' @ what @ '' request to plugin error''))
      | Some res \<Rightarrow>
          if rs_reject res then Fail (PluginReject (rs_reject_reason res))
          else if \<not> rs_unchange res then
            (case Option.bind (rs_content res) unwrap of
               None \<Rightarrow> Panic
             | Some content' \<Rightarrow> run_plugins peer op wrap unwrap what ps content')
          else run_plugins peer op wrap unwrap what ps content)"

definition pl_do_login :: "plugin_peer \<Rightarrow> plugin_mgr \<Rightarrow> login_msg \<Rightarrow> (plugin_error, login_msg) go" where
  "pl_do_login peer m content =
     (if pl_login m = [] then Ok content
      else run_plugins peer OpLogin CLogin the_login ''Login'' (pl_login m) content)"

definition pl_do_new_proxy :: "plugin_peer \<Rightarrow> plugin_mgr \<Rightarrow> new_proxy_content \<Rightarrow> (plugin_error, new_proxy_content) go" where
  "pl_do_new_proxy peer m content =
     (if pl_new_proxy m = [] then Ok content
      else run_plugins peer OpNewProxy CNewProxy the_new_proxy ''NewProxy'' (pl_new_proxy m) content)"

definition pl_do_ping :: "plugin_peer \<Rightarrow> plugin_mgr \<Rightarrow> ping_content \<Rightarrow> (plugin_error, ping_content) go" where
  "pl_do_ping peer m content =
     (if pl_ping m = [] then Ok content
      else run_plugins peer OpPing CPing the_ping ''Ping'' (pl_ping m) content)"

text \<open>The loop of this method runs over the ping plugins and sends the ping operation.\<close>

definition pl_do_new_work_conn ::
    "plugin_peer \<Rightarrow> plugin_mgr \<Rightarrow> new_work_conn_content \<Rightarrow> (plugin_error, new_work_conn_content) go" where
  "pl_do_new_work_conn peer m content =
     (if pl_new_work_conn m = [] then Ok content
      else run_plugins peer OpPing CNewWorkConn the_new_work_conn ''NewWorkConn'' (pl_ping m) content)"

definition pl_do_new_user_conn ::
    "plugin_peer \<Rightarrow> plugin_mgr \<Rightarrow> new_user_conn_content \<Rightarrow> (plugin_error, new_user_conn_content) go" where
  "pl_do_new_user_conn peer m content =
     (if pl_new_user_conn m = [] then Ok content
      else run_plugins peer OpNewUserConn CNewUserConn the_new_user_conn ''NewUserConn'' (pl_new_user_conn m) content)"


section \<open>Which plugins decide\<close>

text \<open>A plugin accepts a content and hands the next one on.\<close>

definition plugin_accepts ::
    "plugin_peer \<Rightarrow> string \<Rightarrow> ('c \<Rightarrow> plugin_content) \<Rightarrow> (plugin_content \<Rightarrow> 'c option) \<Rightarrow> http_plugin \<Rightarrow> 'c \<Rightarrow> 'c \<Rightarrow> bool" where
  "plugin_accepts peer op wrap unwrap p c c' \<longleftrightarrow>
     (\<exists>res. peer (hp_url p) \<lparr>rq_version = ''0.1.0'', rq_op = op, rq_content = wrap c\<rparr> = Some (200, Some res) \<and>
        \<not> rs_reject res \<and>
        (if rs_unchange res then c' = c else \<exists>pc. rs_content res = Some pc \<and> unwrap pc = Some c'))"

fun plugin_chain :: "('p \<Rightarrow> 'c \<Rightarrow> 'c \<Rightarrow> bool) \<Rightarrow> 'p list \<Rightarrow> 'c \<Rightarrow> 'c \<Rightarrow> bool" where
  "plugin_chain acc [] c c' \<longleftrightarrow> c' = c"
| "plugin_chain acc (p # ps) c c' \<longleftrightarrow> (\<exists>d. acc p c d \<and> plugin_chain acc ps d c')"

definition subscribes :: "string \<Rightarrow> http_plugin \<Rightarrow> bool" where
  "subscribes op p \<longleftrightarrow> op \<in> set (elems (ho_ops (hp_options p)))"

lemma member_of_iff: "member_of op vs \<longleftrightarrow> op \<in> set vs"
  by (induction vs) auto

lemma hp_is_support_iff [simp]: "hp_is_support p op \<longleftrightarrow> subscribes op p"
  by (simp add: hp_is_support_def subscribes_def member_of_iff)

lemma hp_handle_accepts:
  "plugin_accepts peer op wrap unwrap p c c' \<longleftrightarrow>
     (\<exists>res. hp_handle peer p op (wrap c) = Some res \<and> \<not> rs_reject res \<and>
        (if rs_unchange res then c' = c else Option.bind (rs_content res) unwrap = Some c'))"
  by (auto simp: plugin_accepts_def hp_handle_def hp_do_def Option.bind_eq_Some_conv split: option.split if_split_asm)

lemma run_plugins_Ok:
  "run_plugins peer op wrap unwrap what ps c = Ok c' \<longleftrightarrow>
     plugin_chain (plugin_accepts peer op wrap unwrap) ps c c'"
proof (induction ps arbitrary: c)
  case Nil
  then show ?case by auto
next
  case (Cons p ps)
  show ?case
  proof (cases "hp_handle peer p op (wrap c)")
    case None
    then show ?thesis by (simp add: hp_handle_accepts)
  next
    case (Some res)
    with Cons.IH show ?thesis
      by (cases "Option.bind (rs_content res) unwrap") (auto simp: hp_handle_accepts)
  qed
qed

lemma fold_pl_register:
  "pl_login (fold pl_register ps m) = pl_login m @ filter (subscribes OpLogin) ps"
  "pl_new_proxy (fold pl_register ps m) = pl_new_proxy m @ filter (subscribes OpNewProxy) ps"
  "pl_ping (fold pl_register ps m) = pl_ping m @ filter (subscribes OpPing) ps"
  "pl_new_work_conn (fold pl_register ps m) = pl_new_work_conn m @ filter (subscribes OpNewWorkConn) ps"
  "pl_new_user_conn (fold pl_register ps m) = pl_new_user_conn m @ filter (subscribes OpNewUserConn) ps"
  by (induction ps arbitrary: m) (simp_all add: pl_register_def)

text \<open>C33: A login, a new proxy, a ping or a user connection goes on exactly when each registered
  plugin that subscribed to that operation, asked in the order of registration with what its
  predecessor left, answers with status 200 and does not reject it; what goes on is what the last
  of them left. One refusal, or one plugin that cannot be reached, stops it.\<close>

theorem plugins_decide:
  "(pl_do_login peer (fold pl_register ps new_plugin_mgr) lc = Ok lc' \<longleftrightarrow>
      plugin_chain (plugin_accepts peer OpLogin CLogin the_login) (filter (subscribes OpLogin) ps) lc lc') \<and>
   (pl_do_new_proxy peer (fold pl_register ps new_plugin_mgr) nc = Ok nc' \<longleftrightarrow>
      plugin_chain (plugin_accepts peer OpNewProxy CNewProxy the_new_proxy) (filter (subscribes OpNewProxy) ps) nc nc') \<and>
   (pl_do_ping peer (fold pl_register ps new_plugin_mgr) pc = Ok pc' \<longleftrightarrow>
      plugin_chain (plugin_accepts peer OpPing CPing the_ping) (filter (subscribes OpPing) ps) pc pc') \<and>
   (pl_do_new_user_conn peer (fold pl_register ps new_plugin_mgr) uc = Ok uc' \<longleftrightarrow>
      plugin_chain (plugin_accepts peer OpNewUserConn CNewUserConn the_new_user_conn) (filter (subscribes OpNewUserConn) ps) uc uc')"
  by (simp add: pl_do_login_def pl_do_new_proxy_def pl_do_ping_def pl_do_new_user_conn_def fold_pl_register
      run_plugins_Ok new_plugin_mgr_def eq_commute [of lc'] eq_commute [of nc'] eq_commute [of pc'] eq_commute [of uc'])

text \<open>
  For work connections this fails: the plugins that subscribed to them are not asked, the ping
  plugins are, with the operation \<^verbatim>\<open>Ping\<close>.
\<close>

lemma new_work_conn_asks_ping_plugins:
  "pl_do_new_work_conn peer (fold pl_register ps new_plugin_mgr) c = Ok c' \<longleftrightarrow>
     (if filter (subscribes OpNewWorkConn) ps = [] then c' = c
      else plugin_chain (plugin_accepts peer OpPing CNewWorkConn the_new_work_conn) (filter (subscribes OpPing) ps) c c')"
  by (auto simp: pl_do_new_work_conn_def fold_pl_register run_plugins_Ok new_plugin_mgr_def)

text \<open>A plugin that changes a content to JSON null makes the server panic.\<close>

lemma null_content_panics:
  assumes "hp_handle peer p op (wrap c) = Some \<lparr>rs_reject = False, rs_reject_reason = r, rs_unchange = False, rs_content = None\<rparr>"
  shows "run_plugins peer op wrap unwrap what (p # ps) c = Panic"
  using assms by simp

text \<open>The panic of the type assertion is the only one: a hook panics only when some plugin
  answers that it changed the content and sends none of the content's type.\<close>

theorem plugins_panic_only_on_null:
  assumes "\<forall>url r status res. peer url r = Some (status, Some res) \<longrightarrow> \<not> rs_unchange res \<longrightarrow>
      (case rq_content r of CLogin _ \<Rightarrow> \<exists>c. rs_content res = Some (CLogin c)
       | CNewProxy _ \<Rightarrow> \<exists>c. rs_content res = Some (CNewProxy c) | CPing _ \<Rightarrow> \<exists>c. rs_content res = Some (CPing c)
       | CNewWorkConn _ \<Rightarrow> \<exists>c. rs_content res = Some (CNewWorkConn c)
       | CNewUserConn _ \<Rightarrow> \<exists>c. rs_content res = Some (CNewUserConn c))"
  shows "pl_do_login peer m lc \<noteq> Panic \<and> pl_do_new_proxy peer m nc \<noteq> Panic \<and> pl_do_ping peer m pc \<noteq> Panic \<and>
    pl_do_new_work_conn peer m wc \<noteq> Panic \<and> pl_do_new_user_conn peer m uc \<noteq> Panic"
proof -
  have run: "run_plugins peer op wrap unwrap what ps c \<noteq> Panic"
    if typed: "\<And>url c status res. peer url \<lparr>rq_version = ''0.1.0'', rq_op = op, rq_content = wrap c\<rparr> = Some (status, Some res) \<Longrightarrow>
      \<not> rs_unchange res \<Longrightarrow> Option.bind (rs_content res) unwrap \<noteq> None"
    for op what and wrap :: "'c \<Rightarrow> plugin_content" and unwrap ps c
  proof (induction ps arbitrary: c)
    case Nil
    then show ?case by simp
  next
    case (Cons p ps)
    show ?case
    proof (cases "hp_handle peer p op (wrap c)")
      case None
      then show ?thesis by simp
    next
      case (Some res)
      then obtain status where "peer (hp_url p) \<lparr>rq_version = ''0.1.0'', rq_op = op, rq_content = wrap c\<rparr> = Some (status, Some res)"
        by (auto simp: hp_handle_def hp_do_def split: option.split_asm if_split_asm)
      with typed have "\<not> rs_unchange res \<Longrightarrow> Option.bind (rs_content res) unwrap \<noteq> None" by blast
      with Some Cons.IH show ?thesis by auto
    qed
  qed
  have "run_plugins peer op CLogin the_login what ps c \<noteq> Panic"
    "run_plugins peer op CNewProxy the_new_proxy what ps c' \<noteq> Panic"
    "run_plugins peer op CPing the_ping what ps c'' \<noteq> Panic"
    "run_plugins peer op CNewWorkConn the_new_work_conn what ps d \<noteq> Panic"
    "run_plugins peer op CNewUserConn the_new_user_conn what ps d' \<noteq> Panic" for op what ps c c' c'' d d'
    by (rule run; use assms in force)+
  then show ?thesis
    by (simp add: pl_do_login_def pl_do_new_proxy_def pl_do_ping_def pl_do_new_work_conn_def pl_do_new_user_conn_def)
qed

lemma plugins_panic_only_on_null_witness:
  "pl_do_ping (\<lambda>url r. Some (200, Some \<lparr>rs_reject = False, rs_reject_reason = [], rs_unchange = True, rs_content = None\<rparr>))
     (fold pl_register [new_http_plugin_options (empty_plugin_options\<lparr>ho_ops := Some [OpPing]\<rparr>)] new_plugin_mgr)
     \<lparr>pgc_user = \<lparr>ui_user = ''u'', ui_metas = None, ui_run_id = ''r''\<rparr>,
      pgc_ping = \<lparr>pg_privilege_key = [], pg_timestamp = 0\<rparr>\<rparr> \<noteq> Panic"
  using plugins_panic_only_on_null [of "\<lambda>url r. Some (200, Some \<lparr>rs_reject = False, rs_reject_reason = [], rs_unchange = True, rs_content = None\<rparr>)"]
  by simp

end
