(* ===== verification/Metrics.thy ===== *)
theory Metrics
  imports Prelude
begin

text \<open>
  The statistics of frps: the counters (\<^verbatim>\<open>frp/pkg/util/metric\<close>) and the collector in memory
  (\<^verbatim>\<open>frp/pkg/metrics/mem\<close>). Counters are machine words and wrap around. Times are seconds since the
  epoch; \<open>midnight t\<close> is the local midnight at or before \<open>t\<close>, a parameter, because it depends on the
  time zone.
\<close>

section \<open>\<^verbatim>\<open>StandardCounter\<close>\<close>

type_synonym counter = "32 word"

definition new_counter :: counter where "new_counter = 0"

definition counter_inc :: "32 word \<Rightarrow> counter \<Rightarrow> counter" where "counter_inc count c = c + count"

definition counter_dec :: "32 word \<Rightarrow> counter \<Rightarrow> counter" where "counter_dec count c = c + (- count)"

definition counter_clear :: "counter \<Rightarrow> counter" where "counter_clear c = 0"

section \<open>\<^verbatim>\<open>StandardDateCounter\<close>\<close>

text \<open>\<open>dc_counts\<close> has one entry per day, today first; \<open>dc_last\<close> is the midnight of the last update.\<close>

record date_counter =
  dc_reserve_days :: nat
  dc_counts :: "64 word list"
  dc_last :: int

definition new_standard_date_counter :: "(int \<Rightarrow> int) \<Rightarrow> int \<Rightarrow> nat \<Rightarrow> date_counter" where
  "new_standard_date_counter midnight now reserveDays =
     \<lparr>dc_reserve_days = reserveDays, dc_counts = replicate reserveDays 0, dc_last = midnight now\<rparr>"

definition new_date_counter :: "(int \<Rightarrow> int) \<Rightarrow> int \<Rightarrow> int \<Rightarrow> date_counter" where
  "new_date_counter midnight now reserveDays =
     new_standard_date_counter midnight now (if reserveDays \<le> 0 then 1 else nat reserveDays)"

text \<open>
  \<^verbatim>\<open>int(now.Sub(last).Hours() / 24)\<close> truncates toward zero. Both times are whole seconds, for which
  the floating point quotient truncates like the exact one.
\<close>

definition days_between :: "int \<Rightarrow> int \<Rightarrow> int" where
  "days_between now lastDate = sgn (now - lastDate) * (\<bar>now - lastDate\<bar> div 86400)"

definition dc_rotate :: "(int \<Rightarrow> int) \<Rightarrow> int \<Rightarrow> date_counter \<Rightarrow> date_counter" where
  "dc_rotate midnight t c =
     (let now = midnight t; days = days_between now (dc_last c) in
      if days \<le> 0 then c\<lparr>dc_last := now\<rparr>
      else if days \<ge> int (dc_reserve_days c) then c\<lparr>dc_counts := replicate (dc_reserve_days c) 0, dc_last := now\<rparr>
      else c\<lparr>dc_counts := map (\<lambda>i. if nat days \<le> i then dc_counts c ! (i - nat days) else 0) [0..<dc_reserve_days c],
             dc_last := now\<rparr>)"

definition dc_today_count :: "(int \<Rightarrow> int) \<Rightarrow> int \<Rightarrow> date_counter \<Rightarrow> date_counter \<times> 64 word" where
  "dc_today_count midnight t c = (let c' = dc_rotate midnight t c in (c', dc_counts c' ! 0))"

definition dc_get_last_days_count :: "(int \<Rightarrow> int) \<Rightarrow> int \<Rightarrow> nat \<Rightarrow> date_counter \<Rightarrow> date_counter \<times> 64 word list" where
  "dc_get_last_days_count midnight t lastdays c =
     (let n = (if lastdays > dc_reserve_days c then dc_reserve_days c else lastdays);
          c' = dc_rotate midnight t c
      in (c', map (\<lambda>i. dc_counts c' ! i) [0..<n]))"

definition dc_inc :: "(int \<Rightarrow> int) \<Rightarrow> int \<Rightarrow> 64 word \<Rightarrow> date_counter \<Rightarrow> date_counter" where
  "dc_inc midnight t count c =
     (let c' = dc_rotate midnight t c in c'\<lparr>dc_counts := (dc_counts c')[0 := dc_counts c' ! 0 + count]\<rparr>)"

definition dc_dec :: "(int \<Rightarrow> int) \<Rightarrow> int \<Rightarrow> 64 word \<Rightarrow> date_counter \<Rightarrow> date_counter" where
  "dc_dec midnight t count c =
     (let c' = dc_rotate midnight t c in c'\<lparr>dc_counts := (dc_counts c')[0 := dc_counts c' ! 0 - count]\<rparr>)"

text \<open>The copy is dated today, and the counts are not rotated first.\<close>

definition dc_snapshot :: "(int \<Rightarrow> int) \<Rightarrow> int \<Rightarrow> date_counter \<Rightarrow> date_counter" where
  "dc_snapshot midnight t c =
     (new_standard_date_counter midnight t (dc_reserve_days c))\<lparr>dc_counts := map (\<lambda>i. dc_counts c ! i) [0..<dc_reserve_days c]\<rparr>"

definition dc_clear :: "date_counter \<Rightarrow> date_counter" where
  "dc_clear c = c\<lparr>dc_counts := replicate (dc_reserve_days c) 0\<rparr>"

section \<open>The collector in memory\<close>

definition ReserveDays :: int where "ReserveDays = 7"

text \<open>A time that was never set is \<open>None\<close>.\<close>

record proxy_statistics =
  ps_name :: string
  ps_proxy_type :: string
  ps_traffic_in :: date_counter
  ps_traffic_out :: date_counter
  ps_cur_conns :: counter
  ps_last_start :: "int option"
  ps_last_close :: "int option"

record server_statistics =
  ss_traffic_in :: date_counter
  ss_traffic_out :: date_counter
  ss_cur_conns :: counter
  ss_client_counts :: counter
  ss_proxy_type_counts :: "string \<rightharpoonup> counter"
  ss_proxy_statistics :: "string \<rightharpoonup> proxy_statistics"

definition new_server_metrics :: "(int \<Rightarrow> int) \<Rightarrow> int \<Rightarrow> server_statistics" where
  "new_server_metrics midnight now =
     \<lparr>ss_traffic_in = new_date_counter midnight now ReserveDays,
      ss_traffic_out = new_date_counter midnight now ReserveDays, ss_cur_conns = new_counter,
      ss_client_counts = new_counter, ss_proxy_type_counts = Map.empty, ss_proxy_statistics = Map.empty\<rparr>"

definition seven_days :: int where "seven_days = 7 * 24 * 3600"

definition useless_info :: "int \<Rightarrow> proxy_statistics \<Rightarrow> bool" where
  "useless_info now d \<longleftrightarrow>
     (case ps_last_close d of
        None \<Rightarrow> False
      | Some closed \<Rightarrow>
          (case ps_last_start d of None \<Rightarrow> True | Some started \<Rightarrow> started < closed) \<and> now - closed > seven_days)"

definition sm_clear_useless_info :: "int \<Rightarrow> server_statistics \<Rightarrow> server_statistics" where
  "sm_clear_useless_info now m =
     m\<lparr>ss_proxy_statistics := (\<lambda>name. case ss_proxy_statistics m name of
          None \<Rightarrow> None | Some d \<Rightarrow> if useless_info now d then None else Some d)\<rparr>"

definition sm_new_client :: "server_statistics \<Rightarrow> server_statistics" where
  "sm_new_client m = m\<lparr>ss_client_counts := counter_inc 1 (ss_client_counts m)\<rparr>"

definition sm_close_client :: "server_statistics \<Rightarrow> server_statistics" where
  "sm_close_client m = m\<lparr>ss_client_counts := counter_dec 1 (ss_client_counts m)\<rparr>"

definition sm_new_proxy :: "(int \<Rightarrow> int) \<Rightarrow> int \<Rightarrow> string \<Rightarrow> string \<Rightarrow> server_statistics \<Rightarrow> server_statistics" where
  "sm_new_proxy midnight now name proxyType m =
     (let counter = (case ss_proxy_type_counts m proxyType of None \<Rightarrow> new_counter | Some c \<Rightarrow> c);
          stats = (case ss_proxy_statistics m name of
             Some d \<Rightarrow> if ps_proxy_type d = proxyType then Some d else None | None \<Rightarrow> None);
          d = (case stats of
             Some d \<Rightarrow> d
           | None \<Rightarrow> \<lparr>ps_name = name, ps_proxy_type = proxyType,
               ps_traffic_in = new_date_counter midnight now ReserveDays,
               ps_traffic_out = new_date_counter midnight now ReserveDays, ps_cur_conns = new_counter,
               ps_last_start = None, ps_last_close = None\<rparr>)
      in m\<lparr>ss_proxy_type_counts := (ss_proxy_type_counts m)(proxyType \<mapsto> counter_inc 1 counter),
           ss_proxy_statistics := (ss_proxy_statistics m)(name \<mapsto> d\<lparr>ps_last_start := Some now\<rparr>)\<rparr>)"

definition sm_close_proxy :: "int \<Rightarrow> string \<Rightarrow> string \<Rightarrow> server_statistics \<Rightarrow> server_statistics" where
  "sm_close_proxy now name proxyType m =
     m\<lparr>ss_proxy_type_counts := (case ss_proxy_type_counts m proxyType of
          None \<Rightarrow> ss_proxy_type_counts m | Some c \<Rightarrow> (ss_proxy_type_counts m)(proxyType \<mapsto> counter_dec 1 c)),
       ss_proxy_statistics := (case ss_proxy_statistics m name of
          None \<Rightarrow> ss_proxy_statistics m
        | Some d \<Rightarrow> (ss_proxy_statistics m)(name \<mapsto> d\<lparr>ps_last_close := Some now\<rparr>))\<rparr>"

text \<open>The change of one proxy's entry, when it has one.\<close>

definition upd_stats :: "string \<Rightarrow> (proxy_statistics \<Rightarrow> proxy_statistics) \<Rightarrow> server_statistics \<Rightarrow> server_statistics" where
  "upd_stats name f m =
     (case ss_proxy_statistics m name of
        None \<Rightarrow> m | Some d \<Rightarrow> m\<lparr>ss_proxy_statistics := (ss_proxy_statistics m)(name \<mapsto> f d)\<rparr>)"

definition sm_open_connection :: "string \<Rightarrow> string \<Rightarrow> server_statistics \<Rightarrow> server_statistics" where
  "sm_open_connection name proxyType m =
     upd_stats name (\<lambda>d. d\<lparr>ps_cur_conns := counter_inc 1 (ps_cur_conns d)\<rparr>)
       (m\<lparr>ss_cur_conns := counter_inc 1 (ss_cur_conns m)\<rparr>)"

definition sm_close_connection :: "string \<Rightarrow> string \<Rightarrow> server_statistics \<Rightarrow> server_statistics" where
  "sm_close_connection name proxyType m =
     upd_stats name (\<lambda>d. d\<lparr>ps_cur_conns := counter_dec 1 (ps_cur_conns d)\<rparr>)
       (m\<lparr>ss_cur_conns := counter_dec 1 (ss_cur_conns m)\<rparr>)"

definition sm_add_traffic_in :: "(int \<Rightarrow> int) \<Rightarrow> int \<Rightarrow> string \<Rightarrow> string \<Rightarrow> 64 word \<Rightarrow> server_statistics \<Rightarrow> server_statistics" where
  "sm_add_traffic_in midnight now name proxyType n m =
     upd_stats name (\<lambda>d. d\<lparr>ps_traffic_in := dc_inc midnight now n (ps_traffic_in d)\<rparr>)
       (m\<lparr>ss_traffic_in := dc_inc midnight now n (ss_traffic_in m)\<rparr>)"

definition sm_add_traffic_out :: "(int \<Rightarrow> int) \<Rightarrow> int \<Rightarrow> string \<Rightarrow> string \<Rightarrow> 64 word \<Rightarrow> server_statistics \<Rightarrow> server_statistics" where
  "sm_add_traffic_out midnight now name proxyType n m =
     upd_stats name (\<lambda>d. d\<lparr>ps_traffic_out := dc_inc midnight now n (ps_traffic_out d)\<rparr>)
       (m\<lparr>ss_traffic_out := dc_inc midnight now n (ss_traffic_out m)\<rparr>)"

subsection \<open>The answers\<close>

record server_stats =
  sv_total_traffic_in :: "64 word"
  sv_total_traffic_out :: "64 word"
  sv_cur_conns :: int
  sv_client_counts :: int
  sv_proxy_type_counts :: "string \<rightharpoonup> int"

text \<open>The formatted times of \<^verbatim>\<open>ProxyStats\<close> are the times themselves here, \<open>None\<close> for the empty string.\<close>

record proxy_stats =
  py_name :: string
  py_type :: string
  py_today_traffic_in :: "64 word"
  py_today_traffic_out :: "64 word"
  py_last_start_time :: "int option"
  py_last_close_time :: "int option"
  py_cur_conns :: int

record proxy_traffic_info =
  pt_name :: string
  pt_traffic_in :: "64 word list"
  pt_traffic_out :: "64 word list"

definition sm_get_server :: "(int \<Rightarrow> int) \<Rightarrow> int \<Rightarrow> server_statistics \<Rightarrow> server_statistics \<times> server_stats" where
  "sm_get_server midnight now m =
     (let (ti, vi) = dc_today_count midnight now (ss_traffic_in m);
          (tt, vo) = dc_today_count midnight now (ss_traffic_out m)
      in (m\<lparr>ss_traffic_in := ti, ss_traffic_out := tt\<rparr>,
          \<lparr>sv_total_traffic_in = vi, sv_total_traffic_out = vo, sv_cur_conns = sint (ss_cur_conns m),
           sv_client_counts = sint (ss_client_counts m),
           sv_proxy_type_counts = (\<lambda>k. map_option sint (ss_proxy_type_counts m k))\<rparr>))"

definition stats_of :: "(int \<Rightarrow> int) \<Rightarrow> int \<Rightarrow> string \<Rightarrow> proxy_statistics \<Rightarrow> proxy_statistics \<times> proxy_stats" where
  "stats_of midnight now name d =
     (let (ti, vi) = dc_today_count midnight now (ps_traffic_in d);
          (tt, vo) = dc_today_count midnight now (ps_traffic_out d)
      in (d\<lparr>ps_traffic_in := ti, ps_traffic_out := tt\<rparr>,
          \<lparr>py_name = name, py_type = ps_proxy_type d, py_today_traffic_in = vi, py_today_traffic_out = vo,
           py_last_start_time = ps_last_start d, py_last_close_time = ps_last_close d,
           py_cur_conns = sint (ps_cur_conns d)\<rparr>))"

text \<open>\<open>names\<close> is the order of the range over the proxies.\<close>

fun sm_get_proxies_by_type ::
    "(int \<Rightarrow> int) \<Rightarrow> int \<Rightarrow> string \<Rightarrow> string list \<Rightarrow> server_statistics \<Rightarrow> server_statistics \<times> proxy_stats list" where
  "sm_get_proxies_by_type midnight now proxyType [] m = (m, [])"
| "sm_get_proxies_by_type midnight now proxyType (name # names) m =
     (case ss_proxy_statistics m name of
        None \<Rightarrow> sm_get_proxies_by_type midnight now proxyType names m
      | Some d \<Rightarrow>
          if ps_proxy_type d \<noteq> proxyType then sm_get_proxies_by_type midnight now proxyType names m
          else
            let (d', ps) = stats_of midnight now name d;
                (m', res) = sm_get_proxies_by_type midnight now proxyType names
                  (m\<lparr>ss_proxy_statistics := (ss_proxy_statistics m)(name \<mapsto> d')\<rparr>)
            in (m', ps # res))"

definition sm_get_proxies_by_type_and_name ::
    "(int \<Rightarrow> int) \<Rightarrow> int \<Rightarrow> string \<Rightarrow> string \<Rightarrow> server_statistics \<Rightarrow> server_statistics \<times> proxy_stats option" where
  "sm_get_proxies_by_type_and_name midnight now proxyType proxyName m =
     (case ss_proxy_statistics m proxyName of
        None \<Rightarrow> (m, None)
      | Some d \<Rightarrow>
          if ps_proxy_type d \<noteq> proxyType then (m, None)
          else let (d', ps) = stats_of midnight now proxyName d in
            (m\<lparr>ss_proxy_statistics := (ss_proxy_statistics m)(proxyName \<mapsto> d')\<rparr>, Some ps))"

definition sm_get_proxy_traffic ::
    "(int \<Rightarrow> int) \<Rightarrow> int \<Rightarrow> string \<Rightarrow> server_statistics \<Rightarrow> server_statistics \<times> proxy_traffic_info option" where
  "sm_get_proxy_traffic midnight now name m =
     (case ss_proxy_statistics m name of
        None \<Rightarrow> (m, None)
      | Some d \<Rightarrow>
          let (ti, vi) = dc_get_last_days_count midnight now (nat ReserveDays) (ps_traffic_in d);
              (tt, vo) = dc_get_last_days_count midnight now (nat ReserveDays) (ps_traffic_out d)
          in (m\<lparr>ss_proxy_statistics := (ss_proxy_statistics m)(name \<mapsto> d\<lparr>ps_traffic_in := ti, ps_traffic_out := tt\<rparr>)\<rparr>,
              Some \<lparr>pt_name = name, pt_traffic_in = vi, pt_traffic_out = vo\<rparr>))"


section \<open>The date counter counts per day\<close>

datatype dc_event = DcInc int "64 word" | DcDec int "64 word" | DcRead int

fun dc_time :: "dc_event \<Rightarrow> int" where
  "dc_time (DcInc t n) = t" | "dc_time (DcDec t n) = t" | "dc_time (DcRead t) = t"

fun dc_apply :: "(int \<Rightarrow> int) \<Rightarrow> dc_event \<Rightarrow> date_counter \<Rightarrow> date_counter" where
  "dc_apply midnight (DcInc t n) c = dc_inc midnight t n c"
| "dc_apply midnight (DcDec t n) c = dc_dec midnight t n c"
| "dc_apply midnight (DcRead t) c = fst (dc_today_count midnight t c)"

text \<open>The reference: for an offset from UTC of \<open>off\<close> seconds, the sum of a day's amounts.\<close>

definition day_of :: "int \<Rightarrow> int \<Rightarrow> int" where "day_of off t = (t + off) div 86400"

fun dc_amount :: "dc_event \<Rightarrow> 64 word" where
  "dc_amount (DcInc t n) = n" | "dc_amount (DcDec t n) = - n" | "dc_amount (DcRead t) = 0"

definition count_on :: "int \<Rightarrow> int \<Rightarrow> dc_event list \<Rightarrow> 64 word" where
  "count_on off d evs = sum_list (map dc_amount (filter (\<lambda>e. day_of off (dc_time e) = d) evs))"

definition fixed_offset :: "int \<Rightarrow> (int \<Rightarrow> int) \<Rightarrow> bool" where
  "fixed_offset off midnight \<longleftrightarrow> (\<forall>t. midnight t = 86400 * day_of off t - off)"

text \<open>The state of a counter that was last updated on day \<open>d\<close>.\<close>

definition dc_counts_days :: "int \<Rightarrow> int \<Rightarrow> dc_event list \<Rightarrow> date_counter \<Rightarrow> bool" where
  "dc_counts_days off d evs c \<longleftrightarrow> 0 < dc_reserve_days c \<and> dc_last c = 86400 * d - off \<and>
     length (dc_counts c) = dc_reserve_days c \<and> (\<forall>e \<in> set evs. day_of off (dc_time e) \<le> d) \<and>
     (\<forall>i < dc_reserve_days c. dc_counts c ! i = count_on off (d - int i) evs)"

lemma days_between_days: "d \<le> d' \<Longrightarrow> days_between (86400 * d' - off) (86400 * d - off) = d' - d"
proof -
  assume le: "d \<le> d'"
  have e: "86400 * d' - off - (86400 * d - off) = 86400 * (d' - d)" by (simp add: algebra_simps)
  have "\<bar>86400 * (d' - d)\<bar> div 86400 = d' - d" using le by (simp add: abs_mult)
  then show ?thesis using le unfolding days_between_def e by (simp add: sgn_mult sgn_if)
qed

lemma count_on_later: "\<forall>e \<in> set evs. day_of off (dc_time e) \<le> d \<Longrightarrow> d < d' \<Longrightarrow> count_on off d' evs = 0"
proof -
  assume "\<forall>e \<in> set evs. day_of off (dc_time e) \<le> d" "d < d'"
  then have "filter (\<lambda>e. day_of off (dc_time e) = d') evs = []" by (auto simp: filter_empty_conv)
  then show ?thesis by (simp add: count_on_def)
qed

lemma dc_rotate_reserve [frp_frame]: "dc_reserve_days (dc_rotate midnight t c) = dc_reserve_days c"
  by (simp add: dc_rotate_def Let_def)

lemma dc_rotate_counts_days:
  assumes "fixed_offset off midnight" and "dc_counts_days off d evs c" and "d \<le> day_of off t"
  shows "dc_counts_days off (day_of off t) evs (dc_rotate midnight t c)"
proof -
  let ?d' = "day_of off t"
  have m: "midnight t = 86400 * ?d' - off" using assms(1) by (simp add: fixed_offset_def)
  have days: "days_between (midnight t) (dc_last c) = ?d' - d"
    using assms(2,3) by (simp add: m dc_counts_days_def days_between_days)
  have none: "count_on off (?d' - int i) evs = 0" if "int i < ?d' - d" for i
    using assms(2) that by (intro count_on_later [of evs off d]) (auto simp: dc_counts_days_def)
  consider "?d' = d" | "int (dc_reserve_days c) \<le> ?d' - d" | "d < ?d'" "?d' - d < int (dc_reserve_days c)"
    using assms(3) by linarith
  then show ?thesis
  proof cases
    case 1
    with assms(2) days show ?thesis by (simp add: dc_rotate_def dc_counts_days_def Let_def m)
  next
    case 2
    with assms(2) have "d < ?d'" by (simp add: dc_counts_days_def)
    with 2 assms(2) days none show ?thesis
      by (auto simp: dc_rotate_def dc_counts_days_def Let_def m intro: order_trans)
  next
    case 3
    have "dc_counts c ! (i - nat (?d' - d)) = count_on off (?d' - int i) evs"
      if "nat (?d' - d) \<le> i" "i < dc_reserve_days c" for i
    proof -
      have "d - int (i - nat (?d' - d)) = ?d' - int i" using that 3 by linarith
      moreover have "i - nat (?d' - d) < dc_reserve_days c" using that by simp
      ultimately show ?thesis using assms(2,3) by (simp add: dc_counts_days_def)
    qed
    with 3 assms(2) days none show ?thesis
      by (auto simp: dc_rotate_def dc_counts_days_def Let_def m nat_le_iff intro: order_trans)
  qed
qed

lemma count_on_snoc:
  "count_on off d (evs @ [e]) = count_on off d evs + (if day_of off (dc_time e) = d then dc_amount e else 0)"
  by (simp add: count_on_def)

lemma dc_counts_days_add:
  assumes "dc_counts_days off (day_of off (dc_time e)) evs c"
  shows "dc_counts_days off (day_of off (dc_time e)) (evs @ [e])
    (c\<lparr>dc_counts := (dc_counts c)[0 := dc_counts c ! 0 + dc_amount e]\<rparr>)"
  using assms by (auto simp: dc_counts_days_def count_on_snoc nth_list_update)

lemma dc_apply_counts_days:
  assumes "fixed_offset off midnight" and "dc_counts_days off d evs c" and "d \<le> day_of off (dc_time e)"
  shows "dc_counts_days off (day_of off (dc_time e)) (evs @ [e]) (dc_apply midnight e c)"
proof -
  note rot = dc_counts_days_add [OF dc_rotate_counts_days [OF assms]]
  show ?thesis
  proof (cases e)
    case (DcRead t)
    with rot show ?thesis
      by (simp add: dc_today_count_def Let_def)
  qed (use rot in \<open>simp_all add: dc_inc_def dc_dec_def Let_def\<close>)
qed

lemma dc_fold_counts_days:
  assumes "fixed_offset off midnight" and "sorted_wrt (\<le>) (map dc_time evs)" and "\<forall>e \<in> set evs. t0 \<le> dc_time e"
  shows "dc_counts_days off (day_of off (if evs = [] then t0 else dc_time (last evs))) evs
    (fold (dc_apply midnight) evs (new_date_counter midnight t0 r))"
  using assms(2,3)
proof (induction evs rule: rev_induct)
  case Nil
  then show ?case
    using assms(1) by (auto simp: dc_counts_days_def new_date_counter_def new_standard_date_counter_def
        fixed_offset_def count_on_def)
next
  case (snoc e evs)
  have le: "day_of off s \<le> day_of off t" if "s \<le> t" for s t
    using that by (simp add: day_of_def zdiv_mono1)
  have "(if evs = [] then t0 else dc_time (last evs)) \<le> dc_time e"
    using snoc.prems by (auto simp: sorted_wrt_append)
  from dc_apply_counts_days [OF assms(1) _ le [OF this], of evs] snoc show ?case
    by (simp add: sorted_wrt_append)
qed

text \<open>C38: In a time zone with a fixed offset the counter is a table of days: after any increments and
  decrements at times that do not go back, the count of the \<open>i\<close>-th last day is the sum, modulo
  \<open>2 ^ 64\<close>, of exactly that day's amounts, for as many days as are asked for and reserved.\<close>

theorem date_counter_days:
  assumes "fixed_offset off midnight" and "sorted_wrt (\<le>) (map dc_time evs)" and "\<forall>e \<in> set evs. t0 \<le> dc_time e"
    and "\<forall>e \<in> set evs. dc_time e \<le> now" and "t0 \<le> now"
  shows "snd (dc_get_last_days_count midnight now n (fold (dc_apply midnight) evs (new_date_counter midnight t0 r))) =
    map (\<lambda>i. count_on off (day_of off now - int i) evs) [0..<min n (nat (max 1 r))]"
proof -
  let ?c = "fold (dc_apply midnight) evs (new_date_counter midnight t0 r)"
  have res: "dc_reserve_days ?c = nat (max 1 r)"
  proof (induction evs rule: rev_induct)
    case (snoc e evs)
    then show ?case by (cases e) (simp_all add: dc_inc_def dc_dec_def dc_today_count_def frp_frame Let_def)
  qed (simp add: new_date_counter_def new_standard_date_counter_def)
  have "(if evs = [] then t0 else dc_time (last evs)) \<le> now" using assms(4,5) by simp
  then have "day_of off (if evs = [] then t0 else dc_time (last evs)) \<le> day_of off now"
    by (simp add: day_of_def zdiv_mono1)
  from dc_rotate_counts_days [OF assms(1) dc_fold_counts_days [OF assms(1-3)] this]
  have "dc_counts (dc_rotate midnight now ?c) ! i = count_on off (day_of off now - int i) evs"
    if "i < nat (max 1 r)" for i
    using that by (simp add: dc_counts_days_def frp_frame res)
  then show ?thesis by (simp add: dc_get_last_days_count_def Let_def res min_def)
qed

lemma date_counter_days_witness:
  "snd (dc_get_last_days_count (\<lambda>t. 86400 * day_of 0 t - 0) 172801 2
     (fold (dc_apply (\<lambda>t. 86400 * day_of 0 t - 0)) [DcInc 10 3, DcInc 86401 4, DcDec 86402 1] (new_date_counter (\<lambda>t. 86400 * day_of 0 t - 0) 5 7))) = [0, 3]"
  using date_counter_days [of 0 "\<lambda>t. 86400 * day_of 0 t - 0" "[DcInc 10 3, DcInc 86401 4, DcDec 86402 1]" 5 172801 2 7]
  by (simp add: fixed_offset_def count_on_def day_of_def upt_rec [of 0] upt_rec [of "Suc 0"])

text \<open>Across a day of 23 hours the quotient is 0: the new day goes on with the old day's count.\<close>

lemma short_day_not_rotated:
  "dc_counts (dc_rotate midnight t c) = dc_counts c" if "midnight t = dc_last c + 23 * 3600"
  using that by (simp add: dc_rotate_def days_between_def Let_def)

section \<open>The collector counts events\<close>

datatype metric_event =
    NewClient | CloseClient
  | NewProxy string string | CloseProxy string string
  | OpenConnection string string | CloseConnection string string
  | AddTrafficIn string string "64 word" | AddTrafficOut string string "64 word"

fun sm_apply :: "(int \<Rightarrow> int) \<Rightarrow> int \<times> metric_event \<Rightarrow> server_statistics \<Rightarrow> server_statistics" where
  "sm_apply midnight (now, NewClient) m = sm_new_client m"
| "sm_apply midnight (now, CloseClient) m = sm_close_client m"
| "sm_apply midnight (now, NewProxy n k) m = sm_new_proxy midnight now n k m"
| "sm_apply midnight (now, CloseProxy n k) m = sm_close_proxy now n k m"
| "sm_apply midnight (now, OpenConnection n k) m = sm_open_connection n k m"
| "sm_apply midnight (now, CloseConnection n k) m = sm_close_connection n k m"
| "sm_apply midnight (now, AddTrafficIn n k b) m = sm_add_traffic_in midnight now n k b m"
| "sm_apply midnight (now, AddTrafficOut n k b) m = sm_add_traffic_out midnight now n k b m"

definition events_of :: "(metric_event \<Rightarrow> bool) \<Rightarrow> (int \<times> metric_event) list \<Rightarrow> int" where
  "events_of P evs = int (length (filter (P \<circ> snd) evs))"

lemma upd_stats_frame [frp_frame]:
  "ss_client_counts (upd_stats n f m) = ss_client_counts m"
  "ss_cur_conns (upd_stats n f m) = ss_cur_conns m"
  "ss_proxy_type_counts (upd_stats n f m) = ss_proxy_type_counts m"
  "ss_traffic_in (upd_stats n f m) = ss_traffic_in m"
  "ss_traffic_out (upd_stats n f m) = ss_traffic_out m"
  by (simp_all add: upd_stats_def split: option.split)

lemmas sm_defs = sm_new_client_def sm_close_client_def sm_new_proxy_def sm_close_proxy_def sm_open_connection_def
  sm_close_connection_def sm_add_traffic_in_def sm_add_traffic_out_def counter_inc_def counter_dec_def Let_def

fun is_open_conn :: "metric_event \<Rightarrow> bool" where
  "is_open_conn (OpenConnection _ _) = True" | "is_open_conn _ = False"

fun is_close_conn :: "metric_event \<Rightarrow> bool" where
  "is_close_conn (CloseConnection _ _) = True" | "is_close_conn _ = False"

fun is_new_proxy :: "string \<Rightarrow> metric_event \<Rightarrow> bool" where
  "is_new_proxy k (NewProxy _ k') \<longleftrightarrow> k' = k" | "is_new_proxy k _ = False"

fun is_close_proxy :: "string \<Rightarrow> metric_event \<Rightarrow> bool" where
  "is_close_proxy k (CloseProxy _ k') \<longleftrightarrow> k' = k" | "is_close_proxy k _ = False"

text \<open>Closings are counted for a type only once a proxy of the type was seen.\<close>

definition type_balance :: "string \<Rightarrow> (int \<times> metric_event) list \<Rightarrow> int option" where
  "type_balance k evs =
     (if events_of (is_new_proxy k) evs = 0 then None
      else Some (events_of (is_new_proxy k) evs -
                 events_of (is_close_proxy k) (dropWhile (\<lambda>e. \<not> is_new_proxy k (snd e)) evs)))"

lemma events_of_snoc: "events_of P (evs @ [e]) = events_of P evs + (if P (snd e) then 1 else 0)"
  by (simp add: events_of_def)

lemma events_of_nonneg: "0 \<le> events_of P evs"
  by (simp add: events_of_def)

lemma events_of_zero: "events_of P evs = 0 \<longleftrightarrow> (\<forall>e \<in> set evs. \<not> P (snd e))"
  by (auto simp: events_of_def filter_empty_conv)

lemma type_balance_snoc:
  "type_balance k (evs @ [e]) =
     (if is_new_proxy k (snd e) then Some (case type_balance k evs of None \<Rightarrow> 1 | Some n \<Rightarrow> n + 1)
      else if is_close_proxy k (snd e) then map_option (\<lambda>n. n - 1) (type_balance k evs)
      else type_balance k evs)"
proof -
  have disj: "is_new_proxy k x \<Longrightarrow> \<not> is_close_proxy k x" for x by (cases x) auto
  show ?thesis
  proof (cases "\<forall>x \<in> set evs. \<not> is_new_proxy k (snd x)")
    case True
    then have "dropWhile (\<lambda>e. \<not> is_new_proxy k (snd e)) (evs @ [e]) = (if is_new_proxy k (snd e) then [e] else [])"
      by (simp add: dropWhile_append2)
    with True disj [of "snd e"] show ?thesis
      by (simp add: type_balance_def events_of_snoc events_of_zero) (simp add: events_of_def)
  next
    case False
    then obtain x where x: "x \<in> set evs" "is_new_proxy k (snd x)" by blast
    then have d: "dropWhile (\<lambda>e. \<not> is_new_proxy k (snd e)) (evs @ [e]) = dropWhile (\<lambda>e. \<not> is_new_proxy k (snd e)) evs @ [e]"
      by (simp add: dropWhile_append1)
    have "events_of (is_new_proxy k) evs \<noteq> 0" using False by (simp add: events_of_zero)
    with d disj [of "snd e"] events_of_nonneg [of "is_new_proxy k" evs] show ?thesis
      by (simp add: type_balance_def events_of_snoc)
  qed
qed

lemma sm_fold_counts:
  "ss_client_counts (fold (sm_apply midnight) evs (new_server_metrics midnight t0)) =
     of_int (events_of ((=) NewClient) evs - events_of ((=) CloseClient) evs) \<and>
   ss_cur_conns (fold (sm_apply midnight) evs (new_server_metrics midnight t0)) =
     of_int (events_of is_open_conn evs - events_of is_close_conn evs) \<and>
   ss_proxy_type_counts (fold (sm_apply midnight) evs (new_server_metrics midnight t0)) k =
     map_option of_int (type_balance k evs)"
proof (induction evs rule: rev_induct)
  case Nil
  then show ?case by (simp add: new_server_metrics_def new_counter_def events_of_def type_balance_def)
next
  case (snoc e evs)
  obtain now ev where e: "e = (now, ev)" by (cases e)
  from snoc show ?case
    by (cases ev) (auto simp: e sm_defs frp_frame events_of_snoc type_balance_snoc new_counter_def
        split: option.split)
qed

text \<open>C37: The statistics page counts events: the numbers of connected clients, of open connections
  and of proxies of each type that the server reports are the numbers of openings minus the numbers
  of closings so far, as long as fewer than \<open>2 ^ 31\<close> events happened.\<close>

theorem server_stats_count:
  assumes "length evs < 2 ^ 31"
  shows "sv_client_counts (snd (sm_get_server midnight now (fold (sm_apply midnight) evs (new_server_metrics midnight t0)))) =
      events_of ((=) NewClient) evs - events_of ((=) CloseClient) evs \<and>
    sv_cur_conns (snd (sm_get_server midnight now (fold (sm_apply midnight) evs (new_server_metrics midnight t0)))) =
      events_of is_open_conn evs - events_of is_close_conn evs \<and>
    sv_proxy_type_counts (snd (sm_get_server midnight now (fold (sm_apply midnight) evs (new_server_metrics midnight t0)))) k =
      type_balance k evs"
proof -
  let ?m = "fold (sm_apply midnight) evs (new_server_metrics midnight t0)"
  have le: "events_of P evs < 2 ^ 31" for P
  proof -
    have "length (filter (P \<circ> snd) evs) \<le> length evs" by (rule length_filter_le)
    with assms have "length (filter (P \<circ> snd) evs) < 2 ^ 31" by linarith
    then show ?thesis by (simp add: events_of_def)
  qed
  have le': "events_of P (dropWhile Q evs) < 2 ^ 31" for P Q
  proof -
    have "length (filter (P \<circ> snd) (dropWhile Q evs)) \<le> length evs"
      by (rule order_trans [OF length_filter_le length_dropWhile_le])
    with assms have "length (filter (P \<circ> snd) (dropWhile Q evs)) < 2 ^ 31" by linarith
    then show ?thesis by (simp add: events_of_def)
  qed
  have s: "sint (of_int n :: 32 word) = n" if "- (2 ^ 31) < n" "n < 2 ^ 31" for n
    using that by (simp add: sint_sbintrunc' signed_take_bit_int_eq_self)
  have d: "sint (of_int (a - b) :: 32 word) = a - b" if "0 \<le> a" "a < 2 ^ 31" "0 \<le> b" "b < 2 ^ 31" for a b
    by (rule s) (use that in linarith)+
  have t: "map_option (\<lambda>n. sint (of_int n :: 32 word)) (type_balance k evs) = type_balance k evs"
    using d le le' by (simp add: type_balance_def events_of_nonneg)
  have g: "snd (sm_get_server midnight now ?m) =
      \<lparr>sv_total_traffic_in = snd (dc_today_count midnight now (ss_traffic_in ?m)),
       sv_total_traffic_out = snd (dc_today_count midnight now (ss_traffic_out ?m)),
       sv_cur_conns = sint (ss_cur_conns ?m), sv_client_counts = sint (ss_client_counts ?m),
       sv_proxy_type_counts = (\<lambda>k. map_option sint (ss_proxy_type_counts ?m k))\<rparr>"
    by (simp add: sm_get_server_def dc_today_count_def Let_def)
  note c = sm_fold_counts [of midnight evs t0 k]
  from t have "map_option sint (ss_proxy_type_counts ?m k) = type_balance k evs"
    by (simp add: c option.map_comp comp_def)
  moreover have "sint (ss_client_counts ?m) = events_of ((=) NewClient) evs - events_of ((=) CloseClient) evs"
    "sint (ss_cur_conns ?m) = events_of is_open_conn evs - events_of is_close_conn evs"
    by (simp_all only: c) (rule d; simp only: le events_of_nonneg)+
  ultimately show ?thesis by (simp only: g server_stats.simps)
qed

lemma server_stats_count_witness:
  "sv_cur_conns (snd (sm_get_server (\<lambda>t. t) 9 (fold (sm_apply (\<lambda>t. t))
     [(1, NewClient), (2, NewProxy ''p'' ''tcp''), (3, OpenConnection ''p'' ''tcp''), (4, OpenConnection ''p'' ''tcp''),
      (5, CloseConnection ''p'' ''tcp'')] (new_server_metrics (\<lambda>t. t) 0)))) = 1"
  using server_stats_count [of "[(1, NewClient), (2, NewProxy ''p'' ''tcp''), (3, OpenConnection ''p'' ''tcp''), (4, OpenConnection ''p'' ''tcp''),
      (5, CloseConnection ''p'' ''tcp'')]" "\<lambda>t. t" 9 0 "''tcp''"]
  by (simp add: events_of_def)

end
