(* ===== verification/Server_Proxies.thy ===== *)
theory Server_Proxies
  imports Proxy_Conf_Laws Load_Groups Registries Server_Plugins Metrics
begin

text \<open>
  The proxies of frps: \<^verbatim>\<open>frp/server/proxy/*.go\<close> over the shared resources of
  \<^verbatim>\<open>frp/server/controller/resource.go\<close>. \<^verbatim>\<open>Run\<close> takes what a proxy needs from the managers and \<^verbatim>\<open>Close\<close>
  gives it back; both return the resources updated. The TCP ports are inside the TCP group
  controller, the routes of the HTTP reverse proxy inside the HTTP group controller and the CONNECT
  multiplexer inside its group controller, because the code shares these objects by reference. The
  muxers exist whenever \<^verbatim>\<open>CheckForSvr\<close> lets a proxy that needs one through. The goroutines that a
  running proxy starts (accepting users, forwarding UDP packets, waiting for NAT hole requests) are
  not modelled here.
\<close>

section \<open>State\<close>

record resources =
  re_visitors :: "nat visitor_mgr"
  re_tcp_groups :: tcp_group_ctl
  re_http_groups :: http_group_ctl
  re_tcpmux_groups :: tcpmux_group_ctl
  re_udp_ports :: port_mgr
  re_https_muxer :: muxer
  re_nathole :: "nathole_ctl option"

definition re_tcp_ports :: "resources \<Rightarrow> port_mgr" where
  "re_tcp_ports re = gc_ports (re_tcp_groups re)"

text \<open>What \<^verbatim>\<open>listeners\<close> can hold; \<open>TcpListener\<close> is a socket of the system.\<close>

datatype proxy_listener =
    TcpListener int
  | TcpGroupListener nat nat
  | HttpsListener vhost_listener
  | MuxListener vhost_listener
  | MuxGroupListener nat nat
  | VisitorListener nat

text \<open>The functions in \<^verbatim>\<open>closeFuncs\<close> of an HTTP proxy.\<close>

datatype close_func = UnRegisterRoute string string | UnRegisterGroup string string

record server_proxy =
  sp_name :: string
  sp_used_ports_num :: int
  sp_pool_count :: int
  sp_user_info :: user_info
  sp_conf :: proxy_conf
  sp_real_port :: int
  sp_listeners :: "proxy_listener list"
  sp_close_funcs :: "close_func list"
  sp_is_closed :: bool

text \<open>\<^verbatim>\<open>NewProxy\<close>. Every configuration has a proxy type, so the error of the default case is not reached.\<close>

definition new_proxy :: "user_info \<Rightarrow> int \<Rightarrow> proxy_conf \<Rightarrow> server_proxy" where
  "new_proxy userInfo poolCount pxyConf =
     \<lparr>sp_name = bp_proxy_name (get_base_info pxyConf),
      sp_used_ports_num = (case pxyConf of TCPConf _ \<Rightarrow> 1 | UDPConf _ \<Rightarrow> 1 | _ \<Rightarrow> 0),
      sp_pool_count = poolCount, sp_user_info = userInfo, sp_conf = pxyConf, sp_real_port = 0,
      sp_listeners = [], sp_close_funcs = [], sp_is_closed = False\<rparr>"

datatype run_error =
    RunPort port_error
  | RunListen
  | RunGroup group_error
  | RunRoute
  | RunMultiplexer string
  | RunVisitor visitor_error
  | RunNoNatHole

text \<open>What the system answers: for TCP and for UDP the free ports' order, their availability, the clock
  and whether the socket can be opened.\<close>

record run_env =
  ru_tcp :: group_env
  ru_udp :: group_env

type_synonym run_result = "resources \<times> server_proxy \<times> (run_error + string)"

section \<open>Closing\<close>

fun listener_close_in :: "int \<Rightarrow> proxy_listener \<Rightarrow> resources \<Rightarrow> (unit, resources) go" where
  "listener_close_in now (TcpListener port) re = Ok re"
| "listener_close_in now (TcpGroupListener r ln) re =
     go_then (tg_close_listener now r ln (re_tcp_groups re)) (\<lambda>g. Ok (re\<lparr>re_tcp_groups := g\<rparr>))"
| "listener_close_in now (HttpsListener l) re =
     go_then (listener_close l (re_https_muxer re)) (\<lambda>v. Ok (re\<lparr>re_https_muxer := v\<rparr>))"
| "listener_close_in now (MuxListener l) re =
     go_then (listener_close l (mgc_muxer (re_tcpmux_groups re)))
       (\<lambda>v. Ok (re\<lparr>re_tcpmux_groups := (re_tcpmux_groups re)\<lparr>mgc_muxer := v\<rparr>\<rparr>))"
| "listener_close_in now (MuxGroupListener r ln) re =
     go_then (mg_close_listener r ln (re_tcpmux_groups re)) (\<lambda>g. Ok (re\<lparr>re_tcpmux_groups := g\<rparr>))"
| "listener_close_in now (VisitorListener l) re =
     Ok (re\<lparr>re_visitors := vm_close_conn l (re_visitors re)\<rparr>)"

fun close_listeners :: "int \<Rightarrow> proxy_listener list \<Rightarrow> resources \<Rightarrow> (unit, resources) go" where
  "close_listeners now [] re = Ok re"
| "close_listeners now (l # ls) re = go_then (listener_close_in now l re) (close_listeners now ls)"

definition base_close :: "int \<Rightarrow> server_proxy \<Rightarrow> resources \<Rightarrow> (unit, resources) go" where
  "base_close now pxy re = close_listeners now (sp_listeners pxy) re"

definition release_tcp :: "int \<Rightarrow> int \<Rightarrow> resources \<Rightarrow> resources" where
  "release_tcp now port re =
     re\<lparr>re_tcp_groups := (re_tcp_groups re)\<lparr>gc_ports := release now port (re_tcp_ports re)\<rparr>\<rparr>"

definition release_udp :: "int \<Rightarrow> int \<Rightarrow> resources \<Rightarrow> resources" where
  "release_udp now port re = re\<lparr>re_udp_ports := release now port (re_udp_ports re)\<rparr>"

definition tcp_close :: "int \<Rightarrow> tcp_proxy_conf \<Rightarrow> server_proxy \<Rightarrow> resources \<Rightarrow> (unit, resources) go" where
  "tcp_close now cfg pxy re =
     go_then (base_close now pxy re) (\<lambda>re.
       Ok (if bp_group (tc_base cfg) = [] then release_tcp now (sp_real_port pxy) re else re))"

fun run_close_func :: "string \<Rightarrow> string \<Rightarrow> close_func \<Rightarrow> http_group_ctl \<Rightarrow> http_group_ctl" where
  "run_close_func name grp (UnRegisterRoute d l) h = h\<lparr>hc_router := http_unregister d l (hc_router h)\<rparr>"
| "run_close_func name grp (UnRegisterGroup d l) h = hgc_unregister name grp d l h"

definition http_close :: "int \<Rightarrow> http_proxy_conf \<Rightarrow> server_proxy \<Rightarrow> resources \<Rightarrow> (unit, resources) go" where
  "http_close now cfg pxy re =
     go_then (base_close now pxy re) (\<lambda>re.
       Ok (re\<lparr>re_http_groups :=
         fold (run_close_func (sp_name pxy) (bp_group (ht_base cfg))) (sp_close_funcs pxy) (re_http_groups re)\<rparr>))"

definition visitor_close :: "int \<Rightarrow> server_proxy \<Rightarrow> resources \<Rightarrow> (unit, resources) go" where
  "visitor_close now pxy re =
     go_then (base_close now pxy re) (\<lambda>re.
       Ok (re\<lparr>re_visitors := vm_close_listener (sp_name pxy) (re_visitors re)\<rparr>))"

text \<open>Without a NAT hole controller the call on the nil pointer panics; the panic of closing the
  channel, which is never made, is caught.\<close>

definition xtcp_close :: "int \<Rightarrow> server_proxy \<Rightarrow> resources \<Rightarrow> (unit, resources) go" where
  "xtcp_close now pxy re =
     go_then (base_close now pxy re) (\<lambda>re.
       case re_nathole re of
         None \<Rightarrow> Panic
       | Some nc \<Rightarrow> Ok (re\<lparr>re_nathole := Some (nh_close_client (sp_name pxy) nc)\<rparr>))"

text \<open>The port is released by every call, the first one also closes the channels.\<close>

definition udp_close :: "int \<Rightarrow> server_proxy \<Rightarrow> resources \<Rightarrow> (unit, resources) go" where
  "udp_close now pxy re =
     go_then (if \<not> sp_is_closed pxy then base_close now pxy re else Ok re)
       (\<lambda>re. Ok (release_udp now (sp_real_port pxy) re))"

text \<open>\<^verbatim>\<open>Close\<close>: only a UDP proxy remembers that it was closed.\<close>

fun proxy_close :: "int \<Rightarrow> server_proxy \<Rightarrow> resources \<Rightarrow> (unit, server_proxy \<times> resources) go" where
  "proxy_close now pxy re =
     (case sp_conf pxy of
        TCPConf c \<Rightarrow> go_then (tcp_close now c pxy re) (\<lambda>re. Ok (pxy, re))
      | TCPMuxConf c \<Rightarrow> go_then (base_close now pxy re) (\<lambda>re. Ok (pxy, re))
      | UDPConf c \<Rightarrow> go_then (udp_close now pxy re) (\<lambda>re. Ok (pxy\<lparr>sp_is_closed := True\<rparr>, re))
      | HTTPConf c \<Rightarrow> go_then (http_close now c pxy re) (\<lambda>re. Ok (pxy, re))
      | HTTPSConf c \<Rightarrow> go_then (base_close now pxy re) (\<lambda>re. Ok (pxy, re))
      | STCPConf c \<Rightarrow> go_then (visitor_close now pxy re) (\<lambda>re. Ok (pxy, re))
      | XTCPConf c \<Rightarrow> go_then (xtcp_close now pxy re) (\<lambda>re. Ok (pxy, re))
      | SUDPConf c \<Rightarrow> go_then (visitor_close now pxy re) (\<lambda>re. Ok (pxy, re)))"

declare proxy_close.simps [simp del]

section \<open>Running\<close>

definition port_addr :: "int \<Rightarrow> string" where "port_addr port = '':'' @ int_str port"

definition tcp_run ::
    "run_env \<Rightarrow> server_common_conf \<Rightarrow> tcp_proxy_conf \<Rightarrow> resources \<Rightarrow> server_proxy \<Rightarrow> run_result" where
  "tcp_run env svr cfg re pxy =
     (let done = (\<lambda>re port l. (re, pxy\<lparr>sp_real_port := port, sp_listeners := sp_listeners pxy @ [l],
                    sp_conf := TCPConf (cfg\<lparr>tc_remote_port := port\<rparr>)\<rparr>, Inr (port_addr port)))
      in if bp_group (tc_base cfg) \<noteq> [] then
           (case tgc_listen (ru_tcp env) (sp_name pxy) (bp_group (tc_base cfg)) (bp_group_key (tc_base cfg))
                   (sc_proxy_bind_addr svr) (tc_remote_port cfg) (re_tcp_groups re) of
              (g, Inl e) \<Rightarrow> (re\<lparr>re_tcp_groups := g\<rparr>, pxy, Inl (RunGroup e))
            | (g, Inr (ln, realPort)) \<Rightarrow>
                done (re\<lparr>re_tcp_groups := g\<rparr>) realPort
                  (TcpGroupListener (snd (tgc_lookup (bp_group (tc_base cfg)) (re_tcp_groups re))) ln))
         else
           (case acquire (ge_avail (ru_tcp env)) (ge_range (ru_tcp env)) (ge_now (ru_tcp env)) (sp_name pxy)
                   (tc_remote_port cfg) (re_tcp_ports re) of
              (pm, realPort, err) \<Rightarrow>
                let re' = re\<lparr>re_tcp_groups := (re_tcp_groups re)\<lparr>gc_ports := pm\<rparr>\<rparr> in
                (case err of
                   Some e \<Rightarrow> (re', pxy\<lparr>sp_real_port := realPort\<rparr>, Inl (RunPort e))
                 | None \<Rightarrow>
                     if \<not> ge_listen_ok (ru_tcp env) then
                       (release_tcp (ge_now (ru_tcp env)) realPort re', pxy\<lparr>sp_real_port := realPort\<rparr>, Inl RunListen)
                     else done re' realPort (TcpListener realPort))))"

definition udp_run ::
    "run_env \<Rightarrow> server_common_conf \<Rightarrow> udp_proxy_conf \<Rightarrow> resources \<Rightarrow> server_proxy \<Rightarrow> run_result" where
  "udp_run env svr cfg re pxy =
     (case acquire (ge_avail (ru_udp env)) (ge_range (ru_udp env)) (ge_now (ru_udp env)) (sp_name pxy)
             (ud_remote_port cfg) (re_udp_ports re) of
        (pm, realPort, err) \<Rightarrow>
          let re' = re\<lparr>re_udp_ports := pm\<rparr>; pxy' = pxy\<lparr>sp_real_port := realPort\<rparr> in
          (case err of
             Some e \<Rightarrow> (re', pxy', Inl (RunPort e))
           | None \<Rightarrow>
               let pxy'' = pxy'\<lparr>sp_conf := UDPConf (cfg\<lparr>ud_remote_port := realPort\<rparr>)\<rparr> in
               if \<not> ge_listen_ok (ru_udp env) then
                 (release_udp (ge_now (ru_udp env)) realPort re', pxy'', Inl RunListen)
               else (re', pxy'', Inr (port_addr realPort))))"

text \<open>The domains a proxy listens on: the custom ones that are not empty, then the subdomain's.\<close>

definition route_domains :: "server_common_conf \<Rightarrow> domain_conf \<Rightarrow> string list" where
  "route_domains svr d =
     filter (\<lambda>x. x \<noteq> []) (elems (dc_custom_domains d)) @
     (if dc_subdomain d \<noteq> [] then [dc_subdomain d @ ''.'' @ sc_sub_domain_host svr] else [])"

definition http_route :: "http_proxy_conf \<Rightarrow> string \<Rightarrow> string \<times> string \<Rightarrow> conn_fn route_config" where
  "http_route cfg name dl =
     \<lparr>rc_domain = fst dl, rc_location = snd dl, rc_rewrite_host = ht_host_header_rewrite cfg,
      rc_username = ht_http_user cfg, rc_password = ht_http_pwd cfg, rc_headers = ht_headers cfg,
      rc_create_conn = Some (ProxyConn name)\<rparr>"

text \<open>The loop over domains and locations, until the first error.\<close>

fun http_register_all ::
    "http_proxy_conf \<Rightarrow> string \<Rightarrow> (string \<times> string) list \<Rightarrow> http_group_ctl \<Rightarrow> close_func list \<Rightarrow>
     http_group_ctl \<times> close_func list \<times> run_error option" where
  "http_register_all cfg name [] h fs = (h, fs, None)"
| "http_register_all cfg name (dl # dls) h fs =
     (if bp_group (ht_base cfg) \<noteq> [] then
        (case hgc_register name (bp_group (ht_base cfg)) (bp_group_key (ht_base cfg)) (http_route cfg name dl) h of
           (h', Some e) \<Rightarrow> (h', fs, Some (RunGroup e))
         | (h', None) \<Rightarrow> http_register_all cfg name dls h' (fs @ [UnRegisterGroup (fst dl) (snd dl)]))
      else
        (case http_register (http_route cfg name dl) (hc_router h) of
           None \<Rightarrow> (h, fs, Some RunRoute)
         | Some r \<Rightarrow>
             http_register_all cfg name dls (h\<lparr>hc_router := r\<rparr>) (fs @ [UnRegisterRoute (fst dl) (snd dl)])))"

definition http_locations :: "http_proxy_conf \<Rightarrow> string list" where
  "http_locations cfg = (if elems (ht_locations cfg) = [] then [[]] else elems (ht_locations cfg))"

text \<open>\<^verbatim>\<open>Run\<close> closes the proxy when it fails; \<open>None\<close> would be a panic of that call.\<close>

definition run_or_close ::
    "(server_proxy \<Rightarrow> resources \<Rightarrow> (unit, resources) go) \<Rightarrow> resources \<Rightarrow> server_proxy \<Rightarrow> run_error + string \<Rightarrow> run_result option" where
  "run_or_close close re pxy r =
     (case r of
        Inr addr \<Rightarrow> Some (re, pxy, r)
      | Inl e \<Rightarrow> (case close pxy re of Ok re' \<Rightarrow> Some (re', pxy, r) | _ \<Rightarrow> None))"

definition http_run ::
    "run_env \<Rightarrow> server_common_conf \<Rightarrow> http_proxy_conf \<Rightarrow> resources \<Rightarrow> server_proxy \<Rightarrow> run_result option" where
  "http_run env svr cfg re pxy =
     (let dls = List.product (route_domains svr (ht_domain cfg)) (http_locations cfg);
          (h, fs, err) = http_register_all cfg (sp_name pxy) dls (re_http_groups re) (sp_close_funcs pxy)
      in run_or_close (http_close (ge_now (ru_tcp env)) cfg) (re\<lparr>re_http_groups := h\<rparr>) (pxy\<lparr>sp_close_funcs := fs\<rparr>)
           (case err of
              Some e \<Rightarrow> Inl e
            | None \<Rightarrow> Inr (join '','' (map (\<lambda>dl. canonical_addr (fst dl) (sc_vhost_http_port svr)) dls))))"

definition domain_route :: "string \<Rightarrow> nat route_config" where
  "domain_route domain =
     \<lparr>rc_domain = domain, rc_location = [], rc_rewrite_host = [], rc_username = [], rc_password = [],
      rc_headers = None, rc_create_conn = None\<rparr>"

fun https_listen_all :: "string list \<Rightarrow> muxer \<Rightarrow> proxy_listener list \<Rightarrow> muxer \<times> proxy_listener list \<times> run_error option" where
  "https_listen_all [] v ls = (v, ls, None)"
| "https_listen_all (d # ds) v ls =
     (case mux_listen (domain_route d) v of
        (v', None) \<Rightarrow> (v', ls, Some RunRoute)
      | (v', Some l) \<Rightarrow> https_listen_all ds v' (ls @ [HttpsListener l]))"

definition https_run ::
    "run_env \<Rightarrow> server_common_conf \<Rightarrow> https_proxy_conf \<Rightarrow> resources \<Rightarrow> server_proxy \<Rightarrow> run_result option" where
  "https_run env svr cfg re pxy =
     (let ds = route_domains svr (hs_domain cfg);
          (v, ls, err) = https_listen_all ds (re_https_muxer re) (sp_listeners pxy)
      in run_or_close (base_close (ge_now (ru_tcp env))) (re\<lparr>re_https_muxer := v\<rparr>) (pxy\<lparr>sp_listeners := ls\<rparr>)
           (case err of
              Some e \<Rightarrow> Inl e
            | None \<Rightarrow> Inr (join '','' (map (\<lambda>d. canonical_addr d (sc_vhost_https_port svr)) ds))))"

definition http_connect_listen ::
    "tcpmux_proxy_conf \<Rightarrow> string \<Rightarrow> tcpmux_group_ctl \<Rightarrow> tcpmux_group_ctl \<times> (run_error + proxy_listener)" where
  "http_connect_listen cfg domain g =
     (if bp_group (mx_base cfg) \<noteq> [] then
        (case mgc_listen (mx_multiplexer cfg) (bp_group (mx_base cfg)) (bp_group_key (mx_base cfg)) domain g of
           (g', Inl e) \<Rightarrow> (g', Inl (RunGroup e))
         | (g', Inr ln) \<Rightarrow> (g', Inr (MuxGroupListener (snd (mgc_lookup (bp_group (mx_base cfg)) g)) ln)))
      else
        (case mux_listen (domain_route domain) (mgc_muxer g) of
           (v, None) \<Rightarrow> (g\<lparr>mgc_muxer := v\<rparr>, Inl RunRoute)
         | (v, Some l) \<Rightarrow> (g\<lparr>mgc_muxer := v\<rparr>, Inr (MuxListener l))))"

fun http_connect_run ::
    "tcpmux_proxy_conf \<Rightarrow> string list \<Rightarrow> tcpmux_group_ctl \<Rightarrow> proxy_listener list \<Rightarrow>
     tcpmux_group_ctl \<times> proxy_listener list \<times> run_error option" where
  "http_connect_run cfg [] g ls = (g, ls, None)"
| "http_connect_run cfg (d # ds) g ls =
     (case http_connect_listen cfg d g of
        (g', Inl e) \<Rightarrow> (g', ls, Some e)
      | (g', Inr l) \<Rightarrow> http_connect_run cfg ds g' (ls @ [l]))"

definition tcpmux_run ::
    "run_env \<Rightarrow> server_common_conf \<Rightarrow> tcpmux_proxy_conf \<Rightarrow> resources \<Rightarrow> server_proxy \<Rightarrow> run_result option" where
  "tcpmux_run env svr cfg re pxy =
     (let ds = route_domains svr (mx_domain cfg);
          (g, ls, err) =
            (if mx_multiplexer cfg = HTTPConnectTCPMultiplexer
             then http_connect_run cfg ds (re_tcpmux_groups re) (sp_listeners pxy)
             else (re_tcpmux_groups re, sp_listeners pxy, Some (RunMultiplexer (mx_multiplexer cfg))))
      in run_or_close (base_close (ge_now (ru_tcp env))) (re\<lparr>re_tcpmux_groups := g\<rparr>) (pxy\<lparr>sp_listeners := ls\<rparr>)
           (case err of
              Some e \<Rightarrow> Inl e
            | None \<Rightarrow> Inr (join '','' (map (\<lambda>d. canonical_addr d (sc_tcpmux_httpconnect_port svr)) ds))))"

text \<open>\<^verbatim>\<open>STCPProxy\<close> and \<^verbatim>\<open>SUDPProxy\<close> run alike.\<close>

definition visitor_run :: "string \<Rightarrow> resources \<Rightarrow> server_proxy \<Rightarrow> run_result" where
  "visitor_run sk re pxy =
     (case vm_listen (sp_name pxy) sk (re_visitors re) of
        (vm, Inl e) \<Rightarrow> (re\<lparr>re_visitors := vm\<rparr>, pxy, Inl (RunVisitor e))
      | (vm, Inr l) \<Rightarrow> (re\<lparr>re_visitors := vm\<rparr>, pxy\<lparr>sp_listeners := sp_listeners pxy @ [VisitorListener l]\<rparr>, Inr []))"

definition xtcp_run :: "xtcp_proxy_conf \<Rightarrow> resources \<Rightarrow> server_proxy \<Rightarrow> run_result" where
  "xtcp_run cfg re pxy =
     (case re_nathole re of
        None \<Rightarrow> (re, pxy, Inl RunNoNatHole)
      | Some nc \<Rightarrow> (re\<lparr>re_nathole := Some (fst (nh_listen_client (sp_name pxy) (xt_sk cfg) nc))\<rparr>, pxy, Inr []))"

fun proxy_run :: "run_env \<Rightarrow> server_common_conf \<Rightarrow> resources \<Rightarrow> server_proxy \<Rightarrow> run_result option" where
  "proxy_run env svr re pxy =
     (case sp_conf pxy of
        TCPConf c \<Rightarrow> Some (tcp_run env svr c re pxy)
      | TCPMuxConf c \<Rightarrow> tcpmux_run env svr c re pxy
      | UDPConf c \<Rightarrow> Some (udp_run env svr c re pxy)
      | HTTPConf c \<Rightarrow> http_run env svr c re pxy
      | HTTPSConf c \<Rightarrow> https_run env svr c re pxy
      | STCPConf c \<Rightarrow> Some (visitor_run (st_sk c) re pxy)
      | XTCPConf c \<Rightarrow> Some (xtcp_run c re pxy)
      | SUDPConf c \<Rightarrow> Some (visitor_run (su_sk c) re pxy))"

declare proxy_run.simps [simp del]

section \<open>Work connections\<close>

text \<open>
  \<^verbatim>\<open>GetWorkConnFromPool\<close>: \<open>got\<close> lists what successive calls of \<^verbatim>\<open>getWorkConnFn\<close> give (\<open>None\<close> for an
  error), \<open>write_ok\<close> whether the start message can be written to a connection. The error of the
  write is a variable of the loop's body: after the last failed write the function returns the
  closed connection and no error. The second part of the result lists the closed connections;
  \<open>WorkConn None\<close> is a nil connection without an error, when the loop does not run.
\<close>

datatype 'c work_conn_result = WorkConnFailed | WorkConn "'c option"

fun get_work_conn_loop ::
    "('c \<Rightarrow> bool) \<Rightarrow> nat \<Rightarrow> 'c option list \<Rightarrow> 'c option \<Rightarrow> 'c work_conn_result \<times> 'c list" where
  "get_work_conn_loop write_ok 0 got workConn = (WorkConn workConn, [])"
| "get_work_conn_loop write_ok (Suc n) [] workConn = (WorkConnFailed, [])"
| "get_work_conn_loop write_ok (Suc n) (None # got) workConn = (WorkConnFailed, [])"
| "get_work_conn_loop write_ok (Suc n) (Some c # got) workConn =
     (if write_ok c then (WorkConn (Some c), [])
      else (case get_work_conn_loop write_ok n got (Some c) of (r, cs) \<Rightarrow> (r, c # cs)))"

definition get_work_conn_from_pool ::
    "('c \<Rightarrow> bool) \<Rightarrow> 'c option list \<Rightarrow> server_proxy \<Rightarrow> 'c work_conn_result \<times> 'c list" where
  "get_work_conn_from_pool write_ok got pxy = get_work_conn_loop write_ok (nat (sp_pool_count pxy + 1)) got None"

text \<open>The message a work connection is started with; \<open>split\<close> is \<^verbatim>\<open>net.SplitHostPort\<close> with \<^verbatim>\<open>Atoi\<close> on the port.\<close>

definition start_work_conn ::
    "(string \<Rightarrow> string \<times> int) \<Rightarrow> string option \<Rightarrow> string option \<Rightarrow> server_proxy \<Rightarrow> start_work_conn_msg" where
  "start_work_conn split src dst pxy =
     (let (srcAddr, srcPort) = (case src of None \<Rightarrow> ([], 0) | Some a \<Rightarrow> split a);
          (dstAddr, dstPort) = (case dst of None \<Rightarrow> ([], 0) | Some a \<Rightarrow> split a)
      in \<lparr>sw_proxy_name = sp_name pxy, sw_src_addr = srcAddr, sw_dst_addr = dstAddr,
          sw_src_port = word_of_int srcPort, sw_dst_port = word_of_int dstPort, sw_error = []\<rparr>)"

section \<open>A user's connection\<close>

text \<open>
  \<^verbatim>\<open>HandleUserTCPConnection\<close>: what becomes of a user's connection, and the statistics. \<open>UserJoined\<close>
  names the work connection, the key it is encrypted with and whether it is compressed; \<open>enc_ok\<close>
  says whether \<^verbatim>\<open>WithEncryption\<close> succeeds, \<open>joined\<close> is what \<^verbatim>\<open>Join\<close> counted. A nil work connection
  makes the deferred \<^verbatim>\<open>Close\<close> panic.
\<close>

datatype 'c user_conn_outcome =
    UserRejected plugin_error
  | UserNoWorkConn
  | UserNoEncryption 'c
  | UserJoined 'c "string option" bool

definition handle_user_tcp_connection ::
    "plugin_peer \<Rightarrow> plugin_mgr \<Rightarrow> ('c \<Rightarrow> bool) \<Rightarrow> 'c option list \<Rightarrow> (string \<Rightarrow> bool) \<Rightarrow> (int \<Rightarrow> int) \<Rightarrow> int \<Rightarrow>
     64 word \<times> 64 word \<Rightarrow> server_common_conf \<Rightarrow> string \<Rightarrow> server_proxy \<Rightarrow> server_statistics \<Rightarrow>
     (unit, 'c user_conn_outcome \<times> server_statistics) go" where
  "handle_user_tcp_connection peer plugins write_ok got enc_ok midnight now joined svr remoteAddr pxy stats =
     (let cfg = get_base_info (sp_conf pxy); name = sp_name pxy; proxyType = bp_proxy_type cfg in
      case pl_do_new_user_conn peer plugins
             \<lparr>nuc_user = sp_user_info pxy, nuc_proxy_name = name, nuc_proxy_type = proxyType, nuc_remote_addr = remoteAddr\<rparr> of
        Panic \<Rightarrow> Panic
      | Fail e \<Rightarrow> Ok (UserRejected e, stats)
      | Ok _ \<Rightarrow>
          (case fst (get_work_conn_from_pool write_ok got pxy) of
             WorkConnFailed \<Rightarrow> Ok (UserNoWorkConn, stats)
           | WorkConn None \<Rightarrow> Panic
           | WorkConn (Some workConn) \<Rightarrow>
               let token = tk_token (as_token (sc_auth svr)) in
               if bp_use_encryption cfg \<and> \<not> enc_ok token then Ok (UserNoEncryption workConn, stats)
               else
                 let stats = sm_open_connection name proxyType stats;
                     stats = sm_close_connection name proxyType stats;
                     stats = sm_add_traffic_in midnight now name proxyType (fst joined) stats;
                     stats = sm_add_traffic_out midnight now name proxyType (snd joined) stats
                 in Ok (UserJoined workConn (if bp_use_encryption cfg then Some token else None)
                          (bp_use_compression cfg), stats)))"

section \<open>Taking and giving back\<close>

text \<open>The managers' invariants, for the allowed TCP and UDP ports.\<close>

definition resources_ok :: "int set \<Rightarrow> int set \<Rightarrow> resources \<Rightarrow> bool" where
  "resources_ok allow_tcp allow_udp re \<longleftrightarrow>
     pm_inv allow_tcp (re_tcp_ports re) \<and> pm_inv allow_udp (re_udp_ports re) \<and>
     routers_ok (hc_router (re_http_groups re)) \<and> mux_inv (re_https_muxer re) \<and>
     mux_inv (mgc_muxer (re_tcpmux_groups re))"

text \<open>Equal as far as other proxies can tell: the used and the free ports, the routes, the visitor
  listeners, the NAT hole clients and the groups.\<close>

definition same_resources :: "resources \<Rightarrow> resources \<Rightarrow> bool" where
  "same_resources re re' \<longleftrightarrow>
     dom (pm_used (re_tcp_ports re')) = dom (pm_used (re_tcp_ports re)) \<and>
     pm_free (re_tcp_ports re') = pm_free (re_tcp_ports re) \<and>
     dom (pm_used (re_udp_ports re')) = dom (pm_used (re_udp_ports re)) \<and>
     pm_free (re_udp_ports re') = pm_free (re_udp_ports re) \<and>
     table_of (hc_router (re_http_groups re')) = table_of (hc_router (re_http_groups re)) \<and>
     table_of (mx_router (re_https_muxer re')) = table_of (mx_router (re_https_muxer re)) \<and>
     table_of (mx_router (mgc_muxer (re_tcpmux_groups re'))) = table_of (mx_router (mgc_muxer (re_tcpmux_groups re))) \<and>
     vm_table (re_visitors re') = vm_table (re_visitors re) \<and>
     map_option nh_client_cfgs (re_nathole re') = map_option nh_client_cfgs (re_nathole re) \<and>
     gc_groups (re_tcp_groups re') = gc_groups (re_tcp_groups re) \<and>
     hc_groups (re_http_groups re') = hc_groups (re_http_groups re) \<and>
     mgc_groups (re_tcpmux_groups re') = mgc_groups (re_tcpmux_groups re)"

text \<open>The system does not let a port be opened that a proxy has open, and lists the free ports.\<close>

definition honest_env :: "group_env \<Rightarrow> port_mgr \<Rightarrow> bool" where
  "honest_env env pm \<longleftrightarrow> set (ge_range env) = pm_free pm \<and> (\<forall>i q. q \<in> dom (pm_used pm) \<longrightarrow> \<not> ge_avail env i q)"

lemma acquire_outcome:
  assumes "pm_inv allow pm" and "honest_env env pm" and "0 \<notin> allowed_ports allow"
    and "acquire (ge_avail env) (ge_range env) now name port pm = (pm', p, e)"
  shows "(e = None \<longrightarrow> granted pm p pm' \<and> p \<notin> dom (pm_used pm)) \<and>
    (e \<noteq> None \<longrightarrow> dom (pm_used pm') = dom (pm_used pm) \<and> pm_free pm' = pm_free pm)"
  using assms(4,1)
proof (cases rule: acquire_cases)
  case taken
  have "granted pm p pm'"
    using assms(2,4) taken(1) unfolding granted_def honest_env_def by blast
  moreover have "p \<notin> dom (pm_used pm)"
  proof -
    have "p \<in> pm_free pm \<or> (\<exists>i. ge_avail env i p)" using taken(4) assms(2) by (auto simp: honest_env_def)
    then show ?thesis using pm_inv_setsD [OF assms(1)] assms(2) unfolding honest_env_def by blast
  qed
  ultimately show ?thesis using taken(1) by blast
next
  case zero
  have "0 \<in> allowed_ports allow"
    using zero(4) assms(2) pm_inv_setsD [OF assms(1)] by (auto simp: honest_env_def)
  with assms(3) show ?thesis by contradiction
next
  case (error err)
  then show ?thesis by (simp add: passed_def)
qed

text \<open>Routes: what a loop of registrations added is what the close functions remove.\<close>

lemma http_register_all_routes:
  assumes "http_register_all cfg name dls h fs = (h', fs', e)" and "bp_group (ht_base cfg) = []"
    and "routers_ok (hc_router h)"
  shows "\<exists>ks m. fs' = fs @ map (\<lambda>dl. UnRegisterRoute (fst dl) (snd dl)) ks \<and> routers_ok (hc_router h') \<and>
    hc_groups h' = hc_groups h \<and> table_of (hc_router h') = table_of (hc_router h) ++ m \<and> dom m = set ks \<and>
    dom m \<inter> dom (table_of (hc_router h)) = {}"
  using assms
proof (induction dls arbitrary: h fs)
  case Nil
  then show ?case by (intro exI [of _ "[]"] exI [of _ Map.empty]) simp
next
  case (Cons dl dls)
  show ?case
  proof (cases "http_register (http_route cfg name dl) (hc_router h)")
    case None
    with Cons.prems show ?thesis by (intro exI [of _ "[]"] exI [of _ Map.empty]) simp
  next
    case (Some r)
    let ?x = "http_route cfg name dl"
    have add: "routers_add (fst dl) (snd dl) ?x (hc_router h) = Some r"
      using Some by (simp add: http_register_def http_route_def)
    have r: "routers_ok r" "table_of r = (table_of (hc_router h))(dl \<mapsto> ?x)"
      using rt.add_Some [OF Cons.prems(3) add] by simp_all
    have free: "table_of (hc_router h) dl = None"
      using rt.add_None [OF Cons.prems(3), of "fst dl" "snd dl" ?x] add by simp
    have "http_register_all cfg name dls (h\<lparr>hc_router := r\<rparr>) (fs @ [UnRegisterRoute (fst dl) (snd dl)]) = (h', fs', e)"
      using Cons.prems Some by simp
    from Cons.IH [OF this Cons.prems(2)] r(1) obtain ks m where
      ih: "fs' = fs @ [UnRegisterRoute (fst dl) (snd dl)] @ map (\<lambda>dl. UnRegisterRoute (fst dl) (snd dl)) ks"
        "routers_ok (hc_router h')" "hc_groups h' = hc_groups h" "table_of (hc_router h') = table_of r ++ m"
        "dom m = set ks" "dom m \<inter> dom (table_of r) = {}"
      by auto
    have "table_of (hc_router h') = table_of (hc_router h) ++ m(dl \<mapsto> ?x)"
    proof -
      have "dl \<notin> dom m" using ih(6) r(2) by auto
      then show ?thesis unfolding ih(4) r(2) by (auto simp: map_add_def fun_eq_iff split: option.split)
    qed
    moreover have "dom (m(dl \<mapsto> ?x)) \<inter> dom (table_of (hc_router h)) = {}"
      using ih(6) r(2) free by auto
    moreover have "dom (m(dl \<mapsto> ?x)) = set (dl # ks)" using ih(5) by simp
    moreover have "fs' = fs @ map (\<lambda>dl. UnRegisterRoute (fst dl) (snd dl)) (dl # ks)" using ih(1) by simp
    ultimately show ?thesis using ih(2,3) by blast
  qed
qed

lemma fold_unregister_routes:
  "fold (run_close_func name grp) (map (\<lambda>dl. UnRegisterRoute (fst dl) (snd dl)) ks) h =
     h\<lparr>hc_router := fold (\<lambda>dl. routers_del (fst dl) (snd dl)) ks (hc_router h)\<rparr>"
  by (induction ks arbitrary: h) (simp_all add: http_unregister_def)

text \<open>The listeners of a multiplexer, closed one after the other.\<close>

fun close_vhost :: "vhost_listener list \<Rightarrow> muxer \<Rightarrow> (unit, muxer) go" where
  "close_vhost [] v = Ok v"
| "close_vhost (x # xs) v = go_then (listener_close x v) (close_vhost xs)"

definition ln_key :: "vhost_listener \<Rightarrow> string \<times> string" where
  "ln_key x = (ln_name x, ln_location x)"

lemma close_vhost_all:
  assumes "mux_inv v" and "\<forall>x \<in> set xs. table_of (mx_router v) (ln_key x) = Some x" and "distinct (map ln_key xs)"
  shows "\<exists>v'. close_vhost xs v = Ok v' \<and> mux_inv v' \<and> table_of (mx_router v') = table_of (mx_router v) |` (- set (map ln_key xs))"
  using assms
proof (induction xs arbitrary: v)
  case Nil
  then show ?case by simp
next
  case (Cons x xs)
  have x: "table_of (mx_router v) (ln_key x) = Some x" using Cons.prems(2) by simp
  then have "ln_id x \<notin> mx_closed v" using mux_inv_entryD [OF Cons.prems(1)] unfolding ln_key_def by blast
  then obtain v1 where v1: "listener_close x v = Ok v1" "mx_router v1 = routers_del (ln_name x) (ln_location x) (mx_router v)"
    by (auto simp: listener_close_def Let_def)
  have inv: "mux_inv v1" by (rule mux_inv_close [OF Cons.prems(1) x [unfolded ln_key_def] v1(1)])
  have tbl: "table_of (mx_router v1) = (table_of (mx_router v))(ln_key x := None)"
    using rt.del_tbl [OF mux_inv_routersD [OF Cons.prems(1)]] v1(2) by (simp add: ln_key_def)
  have "table_of (mx_router v1) (ln_key y) = Some y" if y: "y \<in> set xs" for y
  proof -
    have "ln_key x \<notin> set (map ln_key xs)" using Cons.prems(3) by simp
    moreover have "ln_key y \<in> set (map ln_key xs)" using y by simp
    ultimately have "ln_key y \<noteq> ln_key x" by metis
    with y Cons.prems(2) show ?thesis by (simp add: tbl)
  qed
  then have "\<forall>y \<in> set xs. table_of (mx_router v1) (ln_key y) = Some y" by blast
  from Cons.IH [OF inv this] Cons.prems(3) obtain v' where
    "close_vhost xs v1 = Ok v'" "mux_inv v'" "table_of (mx_router v') = table_of (mx_router v1) |` (- set (map ln_key xs))"
    by auto
  moreover have "((table_of (mx_router v))(ln_key x := None)) |` (- set (map ln_key xs)) =
      table_of (mx_router v) |` (- set (map ln_key (x # xs)))"
  proof
    fix k
    show "(((table_of (mx_router v))(ln_key x := None)) |` (- set (map ln_key xs))) k =
        (table_of (mx_router v) |` (- set (map ln_key (x # xs)))) k"
      by (cases "k = ln_key x") (simp_all add: restrict_map_def)
  qed
  ultimately show ?case using v1(1) tbl by simp
qed

lemma mux_listen_cases:
  assumes "mux_listen (domain_route d) v = (v', r)" and "mux_inv v"
  shows "mux_inv v' \<and> (case r of
      None \<Rightarrow> table_of (mx_router v') = table_of (mx_router v)
    | Some l \<Rightarrow> table_of (mx_router v) (ln_key l) = None \<and> table_of (mx_router v') = (table_of (mx_router v))(ln_key l \<mapsto> l))"
proof -
  let ?l = "\<lparr>ln_id = mx_next v, ln_name = d, ln_location = [], ln_rewrite_host = [], ln_user_name = [], ln_pass_word = []\<rparr>"
  note ok = mux_inv_routersD [OF assms(2)]
  show ?thesis
  proof (cases "routers_add d [] ?l (mx_router v)")
    case None
    with assms mux_inv_listen [OF assms(2,1)] show ?thesis
      by (auto simp: mux_listen_def domain_route_def Let_def ln_key_def)
  next
    case (Some m)
    then have "table_of (mx_router v) (d, []) = None" using rt.add_None [OF ok, of d "[]" ?l] by simp
    with Some assms mux_inv_listen [OF assms(2,1)] rt.add_Some [OF ok Some] show ?thesis
      by (auto simp: mux_listen_def domain_route_def Let_def ln_key_def)
  qed
qed

text \<open>What a loop of \<^verbatim>\<open>Listen\<close> calls added: new keys, each with its listener.\<close>

definition mux_added :: "muxer \<Rightarrow> vhost_listener list \<Rightarrow> muxer \<Rightarrow> bool" where
  "mux_added v xs v' \<longleftrightarrow> mux_inv v' \<and> distinct (map ln_key xs) \<and>
     (\<forall>x \<in> set xs. table_of (mx_router v') (ln_key x) = Some x \<and> table_of (mx_router v) (ln_key x) = None) \<and>
     (\<forall>k. k \<notin> set (map ln_key xs) \<longrightarrow> table_of (mx_router v') k = table_of (mx_router v) k)"

lemma mux_added_atD: "mux_added v xs v' \<Longrightarrow> x \<in> set xs \<Longrightarrow> table_of (mx_router v') (ln_key x) = Some x"
  by (simp add: mux_added_def)

lemma mux_added_newD: "mux_added v xs v' \<Longrightarrow> x \<in> set xs \<Longrightarrow> table_of (mx_router v) (ln_key x) = None"
  by (simp add: mux_added_def)

lemma mux_added_otherD:
  "mux_added v xs v' \<Longrightarrow> k \<notin> set (map ln_key xs) \<Longrightarrow> table_of (mx_router v') k = table_of (mx_router v) k"
  unfolding mux_added_def by (elim conjE allE [of _ k]) (erule mp)

lemma mux_added_Nil: "mux_inv v' \<Longrightarrow> table_of (mx_router v') = table_of (mx_router v) \<Longrightarrow> mux_added v [] v'"
  by (simp add: mux_added_def)

lemma mux_added_Cons:
  assumes "mux_added v1 xs v'" and "table_of (mx_router v) (ln_key l) = None"
    and "table_of (mx_router v1) = (table_of (mx_router v))(ln_key l \<mapsto> l)"
  shows "mux_added v (l # xs) v'"
proof -
  have l: "ln_key l \<notin> set (map ln_key xs)"
  proof
    assume "ln_key l \<in> set (map ln_key xs)"
    then obtain x where x: "x \<in> set xs" "ln_key l = ln_key x" unfolding set_map by (rule imageE)
    from mux_added_newD [OF assms(1) x(1)] x(2) assms(3) show False by simp
  qed
  have other: "table_of (mx_router v') k = table_of (mx_router v1) k" if "k \<notin> set (map ln_key xs)" for k
    by (rule mux_added_otherD [OF assms(1) that])
  have "table_of (mx_router v) (ln_key x) = None" if x: "x \<in> set xs" for x
    using mux_added_newD [OF assms(1) x] assms(3) by (simp split: if_splits)
  moreover have "table_of (mx_router v') (ln_key l) = Some l" using other [OF l] assms(3) by simp
  moreover have "table_of (mx_router v') k = table_of (mx_router v) k" if "k \<notin> set (map ln_key (l # xs))" for k
    using other [of k] assms(3) that by simp
  ultimately show ?thesis
    using assms(1,2) l mux_added_atD [OF assms(1)] unfolding mux_added_def by (simp del: split_paired_All)
qed

lemma mux_added_close:
  assumes "mux_added v xs v'"
  shows "\<exists>v''. close_vhost xs v' = Ok v'' \<and> mux_inv v'' \<and> table_of (mx_router v'') = table_of (mx_router v)"
proof -
  obtain v'' where v: "close_vhost xs v' = Ok v''" "mux_inv v''"
    "table_of (mx_router v'') = table_of (mx_router v') |` (- set (map ln_key xs))"
    using close_vhost_all [of v' xs] assms by (auto simp: mux_added_def)
  have "table_of (mx_router v'') k = table_of (mx_router v) k" for k
  proof (cases "k \<in> set (map ln_key xs)")
    case True
    then obtain x where x: "x \<in> set xs" "k = ln_key x" unfolding set_map by (rule imageE)
    have "table_of (mx_router v) k = None" using mux_added_newD [OF assms x(1)] x(2) by simp
    with True v(3) show ?thesis by (simp add: restrict_map_def)
  next
    case False
    have "table_of (mx_router v') k = table_of (mx_router v) k" by (rule mux_added_otherD [OF assms False])
    with False v(3) show ?thesis by (simp add: restrict_map_def)
  qed
  then have "table_of (mx_router v'') = table_of (mx_router v)" by blast
  with v show ?thesis by blast
qed

lemma https_listen_all_added:
  assumes "https_listen_all ds v ls = (v', ls', e)" and "mux_inv v"
  shows "\<exists>xs. ls' = ls @ map HttpsListener xs \<and> mux_added v xs v'"
  using assms
proof (induction ds arbitrary: v ls)
  case Nil
  then show ?case by (intro exI [of _ "[]"]) (simp add: mux_added_Nil)
next
  case (Cons d ds)
  obtain v1 r where m: "mux_listen (domain_route d) v = (v1, r)" by (cases "mux_listen (domain_route d) v")
  note c = mux_listen_cases [OF m Cons.prems(2)]
  show ?case
  proof (cases r)
    case None
    with Cons.prems m c show ?thesis by (intro exI [of _ "[]"]) (simp add: mux_added_Nil)
  next
    case (Some l)
    with Cons.prems m have "https_listen_all ds v1 (ls @ [HttpsListener l]) = (v', ls', e)" by simp
    from Cons.IH [OF this] c obtain xs where "ls' = ls @ HttpsListener l # map HttpsListener xs" "mux_added v1 xs v'"
      by auto
    with mux_added_Cons [of v1 xs v' v l] c Some show ?thesis by (intro exI [of _ "l # xs"]) simp
  qed
qed

lemma http_connect_run_added:
  assumes "http_connect_run cfg ds g ls = (g', ls', e)" and "bp_group (mx_base cfg) = []" and "mux_inv (mgc_muxer g)"
  shows "\<exists>xs. ls' = ls @ map MuxListener xs \<and> mux_added (mgc_muxer g) xs (mgc_muxer g') \<and> mgc_groups g' = mgc_groups g"
  using assms
proof (induction ds arbitrary: g ls)
  case Nil
  then show ?case by (intro exI [of _ "[]"]) (simp add: mux_added_Nil)
next
  case (Cons d ds)
  obtain v1 r where m: "mux_listen (domain_route d) (mgc_muxer g) = (v1, r)"
    by (cases "mux_listen (domain_route d) (mgc_muxer g)")
  note c = mux_listen_cases [OF m Cons.prems(3)]
  show ?case
  proof (cases r)
    case None
    with Cons.prems m c show ?thesis
      by (intro exI [of _ "[]"]) (auto simp: http_connect_listen_def intro: mux_added_Nil)
  next
    case (Some l)
    with Cons.prems m have "http_connect_run cfg ds (g\<lparr>mgc_muxer := v1\<rparr>) (ls @ [MuxListener l]) = (g', ls', e)"
      by (simp add: http_connect_listen_def)
    from Cons.IH [OF this Cons.prems(2)] c obtain xs where
      "ls' = ls @ MuxListener l # map MuxListener xs" "mux_added v1 xs (mgc_muxer g')" "mgc_groups g' = mgc_groups g"
      by auto
    with mux_added_Cons [of v1 xs "mgc_muxer g'" "mgc_muxer g" l] c Some show ?thesis
      by (intro exI [of _ "l # xs"]) simp
  qed
qed

lemma close_https_listeners:
  "close_vhost xs (re_https_muxer re) = Ok v \<Longrightarrow>
   close_listeners now (map HttpsListener xs) re = Ok (re\<lparr>re_https_muxer := v\<rparr>)"
  by (induction xs arbitrary: re) (auto simp: go_then_eq_Ok)

lemma close_mux_listeners:
  "close_vhost xs (mgc_muxer (re_tcpmux_groups re)) = Ok v \<Longrightarrow>
   close_listeners now (map MuxListener xs) re = Ok (re\<lparr>re_tcpmux_groups := (re_tcpmux_groups re)\<lparr>mgc_muxer := v\<rparr>\<rparr>)"
  by (induction xs arbitrary: re) (auto simp: go_then_eq_Ok)

section \<open>A proxy gives back what it took\<close>

text \<open>What \<^verbatim>\<open>Run\<close> left behind: nothing when it failed, and nothing that \<^verbatim>\<open>Close\<close> does not return.\<close>

definition gives_back :: "int \<Rightarrow> resources \<Rightarrow> run_result \<Rightarrow> bool" where
  "gives_back now re res \<longleftrightarrow>
     (case res of (re', pxy', r) \<Rightarrow>
       case r of Inl e \<Rightarrow> same_resources re re'
       | Inr addr \<Rightarrow> (case proxy_close now pxy' re' of Ok (pxy'', re'') \<Rightarrow> same_resources re re'' | _ \<Rightarrow> False))"

lemma gives_back_failed: "same_resources re re' \<Longrightarrow> gives_back now re (re', pxy', Inl e)"
  by (simp add: gives_back_def)

lemma gives_back_ran:
  "proxy_close now pxy' re' = Ok (pxy'', re'') \<Longrightarrow> same_resources re re'' \<Longrightarrow> gives_back now re (re', pxy', Inr a)"
  by (simp add: gives_back_def)

lemma same_tcp:
  "dom (pm_used pm) = dom (pm_used (re_tcp_ports re)) \<Longrightarrow> pm_free pm = pm_free (re_tcp_ports re) \<Longrightarrow>
   same_resources re (re\<lparr>re_tcp_groups := (re_tcp_groups re)\<lparr>gc_ports := pm\<rparr>\<rparr>)"
  by (simp add: same_resources_def re_tcp_ports_def)

lemma same_udp:
  "dom (pm_used pm) = dom (pm_used (re_udp_ports re)) \<Longrightarrow> pm_free pm = pm_free (re_udp_ports re) \<Longrightarrow>
   same_resources re (re\<lparr>re_udp_ports := pm\<rparr>)"
  by (simp add: same_resources_def re_tcp_ports_def)

lemma same_routes:
  "table_of (hc_router h) = table_of (hc_router (re_http_groups re)) \<Longrightarrow>
   hc_groups h = hc_groups (re_http_groups re) \<Longrightarrow> same_resources re (re\<lparr>re_http_groups := h\<rparr>)"
  by (simp add: same_resources_def re_tcp_ports_def)

lemma same_https:
  "table_of (mx_router v) = table_of (mx_router (re_https_muxer re)) \<Longrightarrow> same_resources re (re\<lparr>re_https_muxer := v\<rparr>)"
  by (simp add: same_resources_def re_tcp_ports_def)

lemma same_tcpmux:
  "table_of (mx_router (mgc_muxer g)) = table_of (mx_router (mgc_muxer (re_tcpmux_groups re))) \<Longrightarrow>
   mgc_groups g = mgc_groups (re_tcpmux_groups re) \<Longrightarrow> same_resources re (re\<lparr>re_tcpmux_groups := g\<rparr>)"
  by (simp add: same_resources_def re_tcp_ports_def)

lemma same_visitors:
  "vm_table vm = vm_table (re_visitors re) \<Longrightarrow> same_resources re (re\<lparr>re_visitors := vm\<rparr>)"
  by (simp add: same_resources_def re_tcp_ports_def)

lemma same_nathole:
  "re_nathole re = Some nc \<Longrightarrow> nh_client_cfgs nc' = nh_client_cfgs nc \<Longrightarrow> same_resources re (re\<lparr>re_nathole := Some nc'\<rparr>)"
  by (simp add: same_resources_def re_tcp_ports_def)

lemma same_resources_refl [simp]: "same_resources re re"
  by (simp add: same_resources_def)

lemma granted_returned:
  assumes "pm_inv allow pm" and "granted pm p pm'" and "p \<notin> dom (pm_used pm)"
  shows "dom (pm_used (release now p pm')) = dom (pm_used pm)" and "pm_free (release now p pm') = pm_free pm"
  using pp.grant_release [OF assms] by simp_all

lemma tcp_gives_back:
  assumes "pm_inv allow (re_tcp_ports re)" and "honest_env (ru_tcp env) (re_tcp_ports re)" and "0 \<notin> allowed_ports allow"
    and "bp_group (tc_base c) = []" and "sp_listeners pxy = []"
  shows "gives_back now re (tcp_run env svr c re pxy)"
proof -
  obtain pm p e where a: "acquire (ge_avail (ru_tcp env)) (ge_range (ru_tcp env)) (ge_now (ru_tcp env)) (sp_name pxy)
      (tc_remote_port c) (re_tcp_ports re) = (pm, p, e)"
    by (metis prod_cases3)
  note o = acquire_outcome [OF assms(1-3) a]
  show ?thesis
  proof (cases e)
    case (Some x)
    with o show ?thesis
      by (auto simp: tcp_run_def Let_def a assms(4) intro!: gives_back_failed same_tcp)
  next
    case None
    with o have g: "granted (re_tcp_ports re) p pm" "p \<notin> dom (pm_used (re_tcp_ports re))" by simp_all
    have restore: "same_resources re
        (release_tcp t p (re\<lparr>re_tcp_groups := (re_tcp_groups re)\<lparr>gc_ports := pm\<rparr>\<rparr>))" for t
      using same_tcp [OF granted_returned [OF assms(1) g, of t]] by (simp add: release_tcp_def re_tcp_ports_def)
    show ?thesis
    proof (cases "ge_listen_ok (ru_tcp env)")
      case False
      with None a restore show ?thesis
        by (simp add: tcp_run_def Let_def assms(4) gives_back_failed)
    next
      case True
      let ?pxy = "pxy\<lparr>sp_real_port := p, sp_listeners := [TcpListener p], sp_conf := TCPConf (c\<lparr>tc_remote_port := p\<rparr>)\<rparr>"
      have "tcp_run env svr c re pxy =
          (re\<lparr>re_tcp_groups := (re_tcp_groups re)\<lparr>gc_ports := pm\<rparr>\<rparr>, ?pxy, Inr (port_addr p))"
        using True None a assms(4,5) by (simp add: tcp_run_def Let_def)
      moreover have "proxy_close now ?pxy (re\<lparr>re_tcp_groups := (re_tcp_groups re)\<lparr>gc_ports := pm\<rparr>\<rparr>) =
          Ok (?pxy, release_tcp now p (re\<lparr>re_tcp_groups := (re_tcp_groups re)\<lparr>gc_ports := pm\<rparr>\<rparr>))"
        using assms(4) by (simp add: proxy_close.simps tcp_close_def base_close_def)
      ultimately show ?thesis using restore by (simp add: gives_back_ran)
    qed
  qed
qed

lemma udp_gives_back:
  assumes "pm_inv allow (re_udp_ports re)" and "honest_env (ru_udp env) (re_udp_ports re)" and "0 \<notin> allowed_ports allow"
    and "sp_listeners pxy = []"
  shows "gives_back now re (udp_run env svr c re pxy)"
proof -
  obtain pm p e where a: "acquire (ge_avail (ru_udp env)) (ge_range (ru_udp env)) (ge_now (ru_udp env)) (sp_name pxy)
      (ud_remote_port c) (re_udp_ports re) = (pm, p, e)"
    by (metis prod_cases3)
  note o = acquire_outcome [OF assms(1-3) a]
  show ?thesis
  proof (cases e)
    case (Some x)
    with o show ?thesis
      by (auto simp: udp_run_def Let_def a intro!: gives_back_failed same_udp)
  next
    case None
    with o have g: "granted (re_udp_ports re) p pm" "p \<notin> dom (pm_used (re_udp_ports re))" by simp_all
    have restore: "same_resources re (release_udp t p (re\<lparr>re_udp_ports := pm\<rparr>))" for t
      using same_udp [OF granted_returned [OF assms(1) g, of t]] by (simp add: release_udp_def)
    show ?thesis
    proof (cases "ge_listen_ok (ru_udp env)")
      case False
      with None a restore show ?thesis by (simp add: udp_run_def Let_def gives_back_failed)
    next
      case True
      let ?pxy = "pxy\<lparr>sp_real_port := p, sp_conf := UDPConf (c\<lparr>ud_remote_port := p\<rparr>)\<rparr>"
      have "udp_run env svr c re pxy = (re\<lparr>re_udp_ports := pm\<rparr>, ?pxy, Inr (port_addr p))"
        using True None a by (simp add: udp_run_def Let_def)
      moreover have "proxy_close now ?pxy (re\<lparr>re_udp_ports := pm\<rparr>) =
          Ok (?pxy\<lparr>sp_is_closed := True\<rparr>, release_udp now p (re\<lparr>re_udp_ports := pm\<rparr>))"
        using assms(4) by (cases "sp_is_closed pxy") (simp_all add: proxy_close.simps udp_close_def base_close_def)
      ultimately show ?thesis using restore by (simp add: gives_back_ran)
    qed
  qed
qed

lemma run_or_close_gives_back:
  assumes "close pxy re' = Ok re''" and "same_resources re re''" and "proxy_close now pxy re' = Ok (pxy, re'')"
  shows "\<exists>res. run_or_close close re' pxy r = Some res \<and> gives_back now re res"
  using assms by (cases r) (auto simp: run_or_close_def intro: gives_back_failed gives_back_ran)

lemma http_gives_back:
  assumes "routers_ok (hc_router (re_http_groups re))" and "bp_group (ht_base c) = []"
    and "sp_listeners pxy = []" and "sp_close_funcs pxy = []" and "sp_conf pxy = HTTPConf c"
  shows "\<exists>res. http_run env svr c re pxy = Some res \<and> gives_back now re res"
proof -
  obtain h fs e where reg: "http_register_all c (sp_name pxy)
      (List.product (route_domains svr (ht_domain c)) (http_locations c)) (re_http_groups re) [] = (h, fs, e)"
    by (metis prod_cases3)
  obtain ks m where m: "fs = map (\<lambda>dl. UnRegisterRoute (fst dl) (snd dl)) ks" "routers_ok (hc_router h)"
    "hc_groups h = hc_groups (re_http_groups re)" "table_of (hc_router h) = table_of (hc_router (re_http_groups re)) ++ m"
    "dom m = set ks" "dom m \<inter> dom (table_of (hc_router (re_http_groups re))) = {}"
    using http_register_all_routes [OF reg assms(2,1)] by auto
  let ?pxy = "pxy\<lparr>sp_close_funcs := fs\<rparr>" and ?re = "re\<lparr>re_http_groups := h\<rparr>"
  let ?re' = "re\<lparr>re_http_groups := fold (run_close_func (sp_name pxy) (bp_group (ht_base c))) fs h\<rparr>"
  have close: "http_close t c ?pxy ?re = Ok ?re'" for t
    using assms(3) by (simp add: http_close_def base_close_def)
  have same: "same_resources re ?re'"
    by (rule same_routes) (simp_all add: m(1,3) fold_unregister_routes rt.del_all_restores [OF m(2,4-6)])
  have "proxy_close now ?pxy ?re = Ok (?pxy, ?re')"
    using close assms(5) by (simp add: proxy_close.simps)
  from run_or_close_gives_back [of "http_close (ge_now (ru_tcp env)) c", OF close same this] show ?thesis
    using reg assms(4) by (simp add: http_run_def Let_def)
qed

lemma https_gives_back:
  assumes "mux_inv (re_https_muxer re)" and "sp_listeners pxy = []" and "sp_conf pxy = HTTPSConf c"
  shows "\<exists>res. https_run env svr c re pxy = Some res \<and> gives_back now re res"
proof -
  obtain v ls e where l: "https_listen_all (route_domains svr (hs_domain c)) (re_https_muxer re) [] = (v, ls, e)"
    by (metis prod_cases3)
  from https_listen_all_added [OF l assms(1)] obtain xs where
    x: "ls = map HttpsListener xs" "mux_added (re_https_muxer re) xs v" by auto
  from mux_added_close [OF x(2)] obtain v' where
    v: "close_vhost xs v = Ok v'" "table_of (mx_router v') = table_of (mx_router (re_https_muxer re))" by blast
  let ?pxy = "pxy\<lparr>sp_listeners := ls\<rparr>" and ?re = "re\<lparr>re_https_muxer := v\<rparr>" and ?re' = "re\<lparr>re_https_muxer := v'\<rparr>"
  have close: "base_close t ?pxy ?re = Ok ?re'" for t
    using close_https_listeners [of xs ?re v' t] v(1) x(1) by (simp add: base_close_def)
  have "proxy_close now ?pxy ?re = Ok (?pxy, ?re')"
    using close assms(3) by (simp add: proxy_close.simps)
  from run_or_close_gives_back [of "base_close (ge_now (ru_tcp env))", OF close same_https [OF v(2)] this] show ?thesis
    using l assms(2) by (simp add: https_run_def Let_def)
qed

lemma tcpmux_gives_back:
  assumes "mux_inv (mgc_muxer (re_tcpmux_groups re))" and "bp_group (mx_base c) = []"
    and "sp_listeners pxy = []" and "sp_conf pxy = TCPMuxConf c"
  shows "\<exists>res. tcpmux_run env svr c re pxy = Some res \<and> gives_back now re res"
proof -
  let ?g = "re_tcpmux_groups re"
  obtain g ls e where l: "(if mx_multiplexer c = HTTPConnectTCPMultiplexer
      then http_connect_run c (route_domains svr (mx_domain c)) ?g []
      else (?g, [], Some (RunMultiplexer (mx_multiplexer c)))) = (g, ls, e)"
    by (metis prod_cases3)
  have "\<exists>xs. ls = map MuxListener xs \<and> mux_added (mgc_muxer ?g) xs (mgc_muxer g) \<and> mgc_groups g = mgc_groups ?g"
  proof (cases "mx_multiplexer c = HTTPConnectTCPMultiplexer")
    case True
    with l have "http_connect_run c (route_domains svr (mx_domain c)) ?g [] = (g, ls, e)" by simp
    from http_connect_run_added [OF this assms(2,1)] show ?thesis by simp
  next
    case False
    with l have "ls = []" "g = ?g" by simp_all
    then show ?thesis using mux_added_Nil [OF assms(1)] by (intro exI [of _ "[]"]) simp
  qed
  then obtain xs where x: "ls = map MuxListener xs" "mux_added (mgc_muxer ?g) xs (mgc_muxer g)" "mgc_groups g = mgc_groups ?g"
    by blast
  from mux_added_close [OF x(2)] obtain v where
    v: "close_vhost xs (mgc_muxer g) = Ok v" "table_of (mx_router v) = table_of (mx_router (mgc_muxer ?g))" by blast
  let ?pxy = "pxy\<lparr>sp_listeners := ls\<rparr>" and ?re = "re\<lparr>re_tcpmux_groups := g\<rparr>"
  let ?re' = "re\<lparr>re_tcpmux_groups := g\<lparr>mgc_muxer := v\<rparr>\<rparr>"
  have close: "base_close t ?pxy ?re = Ok ?re'" for t
    using close_mux_listeners [of xs ?re v t] v(1) x(1) by (simp add: base_close_def)
  have same: "same_resources re ?re'" by (rule same_tcpmux) (simp_all add: v(2) x(3))
  have "proxy_close now ?pxy ?re = Ok (?pxy, ?re')"
    using close assms(4) by (simp add: proxy_close.simps)
  from run_or_close_gives_back [of "base_close (ge_now (ru_tcp env))", OF close same this] show ?thesis
    unfolding tcpmux_run_def Let_def assms(3) l by simp
qed

lemma visitor_gives_back:
  assumes "sp_listeners pxy = []" and "(\<exists>c. sp_conf pxy = STCPConf c) \<or> (\<exists>c. sp_conf pxy = SUDPConf c)"
  shows "gives_back now re (visitor_run sk re pxy)"
proof (cases "vm_listeners (re_visitors re) (sp_name pxy)")
  case (Some l)
  then show ?thesis by (simp add: visitor_run_def vm_listen_def gives_back_failed)
next
  case None
  then obtain vm l where l: "vm_listen (sp_name pxy) sk (re_visitors re) = (vm, Inr l)"
    by (simp add: vm_listen_def)
  then have "vm_add (sp_name pxy) sk (re_visitors re) = Some vm" by (simp add: vm_add_def)
  from vmr.add_del [OF this] have tbl: "vm_table (vm_close_listener (sp_name pxy) vm) = vm_table (re_visitors re)" .
  let ?pxy = "pxy\<lparr>sp_listeners := [VisitorListener l]\<rparr>"
  let ?vm = "vm_close_listener (sp_name pxy) (vm_close_conn l vm)"
  have "vm_table ?vm = vm_table (vm_close_listener (sp_name pxy) vm)"
    by (simp add: vm_table_def vm_close_listener_def vm_close_conn_def fun_eq_iff split: option.split)
  with tbl have same: "same_resources re (re\<lparr>re_visitors := ?vm\<rparr>)" by (intro same_visitors) simp
  have "proxy_close now ?pxy (re\<lparr>re_visitors := vm\<rparr>) = Ok (?pxy, re\<lparr>re_visitors := ?vm\<rparr>)"
    using assms(2) by (elim disjE exE) (simp_all add: proxy_close.simps visitor_close_def base_close_def)
  from gives_back_ran [OF this same] show ?thesis using l assms(1) by (simp add: visitor_run_def)
qed


lemma xtcp_gives_back:
  assumes "sp_listeners pxy = []" and "sp_conf pxy = XTCPConf c"
    and "\<And>nc. re_nathole re = Some nc \<Longrightarrow> sp_name pxy \<notin> dom (nh_client_cfgs nc)"
  shows "gives_back now re (xtcp_run c re pxy)"
proof (cases "re_nathole re")
  case None
  then show ?thesis by (simp add: xtcp_run_def gives_back_failed)
next
  case (Some nc)
  let ?nc = "fst (nh_listen_client (sp_name pxy) (xt_sk c) nc)"
  have same: "same_resources re (re\<lparr>re_nathole := Some (nh_close_client (sp_name pxy) ?nc)\<rparr>)"
    using assms(3) [OF Some] by (intro same_nathole [OF Some])
      (auto simp: nh_listen_client_def nh_close_client_def fun_eq_iff)
  have "proxy_close now pxy (re\<lparr>re_nathole := Some ?nc\<rparr>) =
      Ok (pxy, re\<lparr>re_nathole := Some (nh_close_client (sp_name pxy) ?nc)\<rparr>)"
    using assms(1,2) by (simp add: proxy_close.simps xtcp_close_def base_close_def)
  from gives_back_ran [OF this same] show ?thesis using Some by (simp add: xtcp_run_def)
qed


definition sample_resources :: resources where
  "sample_resources =
     \<lparr>re_visitors = new_visitor_mgr, re_tcp_groups = new_tcp_group_ctl (new_port_manager {6000, 6001}),
      re_http_groups = new_http_group_ctl new_routers, re_tcpmux_groups = new_tcpmux_group_ctl new_muxer,
      re_udp_ports = new_port_manager {7000}, re_https_muxer = new_muxer, re_nathole = None\<rparr>"

definition sample_run_env :: run_env where
  "sample_run_env =
     \<lparr>ru_tcp = \<lparr>ge_avail = (\<lambda>_ _. True), ge_range = [6000, 6001], ge_now = 0, ge_listen_ok = True\<rparr>,
      ru_udp = \<lparr>ge_avail = (\<lambda>_ _. True), ge_range = [7000], ge_now = 0, ge_listen_ok = True\<rparr>\<rparr>"

lemma sample_resources_ok: "resources_ok {6000, 6001} {7000} sample_resources"
  by (simp add: resources_ok_def sample_resources_def re_tcp_ports_def new_tcp_group_ctl_def new_http_group_ctl_def
      new_tcpmux_group_ctl_def pm_inv_new routers_ok_new mux_inv_new)

lemma sample_run_env_honest:
  "honest_env (ru_tcp sample_run_env) (re_tcp_ports sample_resources)"
  "honest_env (ru_udp sample_run_env) (re_udp_ports sample_resources)"
  by (simp_all add: honest_env_def sample_run_env_def sample_resources_def re_tcp_ports_def new_tcp_group_ctl_def
      new_port_manager_def allowed_ports_def)


section \<open>The search for a work connection\<close>

text \<open>The connections that were tried in vain: the first ones that cannot be written to.\<close>

definition dead_conns :: "('c \<Rightarrow> bool) \<Rightarrow> 'c option list \<Rightarrow> 'c list" where
  "dead_conns write_ok got = map the (takeWhile (\<lambda>g. case g of None \<Rightarrow> False | Some c \<Rightarrow> \<not> write_ok c) got)"

lemma dead_conns_simps [simp]:
  "dead_conns write_ok [] = []" "dead_conns write_ok (None # got) = []"
  "dead_conns write_ok (Some c # got) = (if write_ok c then [] else c # dead_conns write_ok got)"
  by (simp_all add: dead_conns_def)

lemma get_work_conn_loop_eq:
  "get_work_conn_loop write_ok n got w =
     (let dead = dead_conns write_ok (take n got) in
      (if length dead = n then WorkConn (if dead = [] then w else Some (last dead))
       else if length dead < length got \<and> got ! length dead \<noteq> None then WorkConn (got ! length dead)
       else WorkConnFailed, dead))"
proof (induction write_ok n got w rule: get_work_conn_loop.induct)
  case (4 write_ok n c got w)
  then show ?case by (cases "write_ok c") (auto simp: Let_def)
qed (simp_all add: Let_def)

text \<open>The search tries \<^verbatim>\<open>poolCount + 1\<close> connections at most, closes exactly those it could not write to,
  and gives the first other one, or the error of getting one. When it could write to none of the
  \<^verbatim>\<open>poolCount + 1\<close> it gives the last of those it closed, without an error.
\<close>

theorem work_conn_search:
  "get_work_conn_from_pool write_ok got pxy =
     (let n = nat (sp_pool_count pxy + 1); dead = dead_conns write_ok (take n got) in
      (if length dead = n then WorkConn (if dead = [] then None else Some (last dead))
       else if length dead < length got \<and> got ! length dead \<noteq> None then WorkConn (got ! length dead)
       else WorkConnFailed, dead))"
  unfolding get_work_conn_from_pool_def get_work_conn_loop_eq Let_def by (rule refl)

text \<open>A pool whose connections are all dead: the caller is handed a closed connection.\<close>

lemma dead_conn_returned:
  assumes "\<And>c. \<not> write_ok c" and "got = map Some cs" and "length cs = nat (sp_pool_count pxy + 1)" and "cs \<noteq> []"
  shows "get_work_conn_from_pool write_ok got pxy = (WorkConn (Some (last cs)), cs)"
proof -
  have "dead_conns write_ok (map Some cs) = cs" for cs
    by (induction cs) (simp_all add: assms(1))
  with assms(2-4) show ?thesis by (simp add: get_work_conn_from_pool_def get_work_conn_loop_eq Let_def)
qed

lemma get_work_conn_loop_mem:
  "fst (get_work_conn_loop write_ok n got w) = WorkConn (Some c) \<Longrightarrow> w = Some c \<or> Some c \<in> set (take n got)"
  by (induction write_ok n got w rule: get_work_conn_loop.induct) (auto split: if_split_asm prod.split_asm)

text \<open>C10: A user's connection is joined to a client's only if the plugins accept it and only to a
  connection that could be written to or, after \<^verbatim>\<open>poolCount + 1\<close> failures, to the closed one; it is
  encrypted with the server's token exactly when the proxy asks for it, and compressed likewise. A
  connection that is not joined leaves the statistics as they were.
\<close>

theorem user_conn_joined:
  assumes "handle_user_tcp_connection peer plugins write_ok got enc_ok midnight now joined svr raddr pxy stats = Ok (res, stats')"
  shows "case res of
      UserJoined c key cps \<Rightarrow>
        (\<exists>content. pl_do_new_user_conn peer plugins
          \<lparr>nuc_user = sp_user_info pxy, nuc_proxy_name = sp_name pxy,
           nuc_proxy_type = bp_proxy_type (get_base_info (sp_conf pxy)), nuc_remote_addr = raddr\<rparr> = Ok content) \<and>
        Some c \<in> set (take (nat (sp_pool_count pxy + 1)) got) \<and>
        key = (if bp_use_encryption (get_base_info (sp_conf pxy)) then Some (tk_token (as_token (sc_auth svr))) else None) \<and>
        cps = bp_use_compression (get_base_info (sp_conf pxy))
    | _ \<Rightarrow> stats' = stats"
  using assms get_work_conn_loop_mem [of write_ok "nat (sp_pool_count pxy + 1)" got None]
  by (auto simp: handle_user_tcp_connection_def get_work_conn_from_pool_def Let_def
      split: go.splits work_conn_result.splits option.splits if_split_asm)

lemma user_conn_joined_witness:
  "case handle_user_tcp_connection (\<lambda>_ _. None) new_plugin_mgr (\<lambda>c. c = 8) [Some 7, Some (8::nat)] (\<lambda>_. True) (\<lambda>t. t) 0 (3, 4)
      get_default_server_conf ''1.2.3.4:5'' (new_proxy \<lparr>ui_user = ''u'', ui_metas = None, ui_run_id = ''r''\<rparr> 1
        (TCPConf \<lparr>tc_base = (default_base_proxy_conf ''tcp'')\<lparr>bp_use_encryption := True\<rparr>, tc_remote_port = 6001\<rparr>))
      (new_server_metrics (\<lambda>t. t) 0) of
     Ok (UserJoined c key cps, _) \<Rightarrow> c = 8 \<and> Some c \<in> set [Some 7, Some 8] \<and> key = Some [] \<and> \<not> cps | _ \<Rightarrow> False"
proof -
  let ?pxy = "new_proxy \<lparr>ui_user = ''u'', ui_metas = None, ui_run_id = ''r''\<rparr> 1
        (TCPConf \<lparr>tc_base = (default_base_proxy_conf ''tcp'')\<lparr>bp_use_encryption := True\<rparr>, tc_remote_port = 6001\<rparr>)"
  obtain st where run: "handle_user_tcp_connection (\<lambda>_ _. None) new_plugin_mgr (\<lambda>c. c = 8) [Some 7, Some (8::nat)] (\<lambda>_. True)
      (\<lambda>t. t) 0 (3, 4) get_default_server_conf ''1.2.3.4:5'' ?pxy (new_server_metrics (\<lambda>t. t) 0) =
      Ok (UserJoined 8 (Some []) False, st)"
    by (simp add: handle_user_tcp_connection_def get_work_conn_from_pool_def new_proxy_def pl_do_new_user_conn_def
        new_plugin_mgr_def default_base_proxy_conf_def zero_base_proxy_conf_def get_default_server_conf_def
        default_auth_server_conf_def default_token_conf_def Let_def numeral_2_eq_2)
  from user_conn_joined [OF this] run show ?thesis by simp
qed

end
