(* ===== verification/Server_Control.thy ===== *)
theory Server_Control
  imports Server_Proxies
begin

text \<open>
  The control of one client and the service that dispatches connections to controls:
  \<^verbatim>\<open>frp/server/control.go\<close> and the handlers of \<^verbatim>\<open>frp/server/service.go\<close>. A control owns the proxies of
  its client and a pool of work connections; the resources, the table of all proxies and the
  statistics are shared. Connections are numbered. What goes over the encrypted control connection
  is kept as the list of messages sent; the bound of the channel, on which a sender may block, is
  not modelled.
\<close>

section \<open>State\<close>

datatype control_error =
    CtlRandID
  | CtlVersion string
  | CtlAuth auth_error
  | CtlPlugin plugin_error
  | CtlConf conf_error
  | CtlPortsExceeded
  | CtlRun run_error
  | CtlNameInUse
  | CtlNoControl string
  | CtlInvalidWorkConn string
  | CtlPoolFull
  | CtlClosed
  | CtlSendPanic
  | CtlTimeout
  | CtlVisitor visitor_error

record control =
  ct_login :: login_msg
  ct_run_id :: string
  ct_pool_count :: int
  ct_proxies :: "string \<rightharpoonup> server_proxy"
  ct_ports_used :: int
  ct_last_ping :: int
  ct_sent :: "unit message list"
  ct_send_closed :: bool
  ct_work_conns :: "nat list"
  ct_work_closed :: bool

record shared =
  sh_resources :: resources
  sh_proxies :: "server_proxy proxy_mgr"
  sh_stats :: server_statistics

text \<open>
  What a step finds outside: the configuration, the plugins and what their servers answer, the
  system, the clock (in nanoseconds for \<open>ce_now\<close>, in seconds for the statistics) and how errors print.
\<close>

record ctl_env =
  ce_svr :: server_common_conf
  ce_plugins :: plugin_mgr
  ce_peer :: plugin_peer
  ce_auth :: auth_env
  ce_md5 :: "string \<Rightarrow> string"
  ce_enc_ok :: "string \<Rightarrow> bool"
  ce_run :: run_env
  ce_now :: int
  ce_midnight :: "int \<Rightarrow> int"
  ce_seconds :: int
  ce_text :: "control_error \<Rightarrow> string"

text \<open>\<^verbatim>\<open>time.Duration(n) * time.Second\<close>, an \<^verbatim>\<open>int64\<close>.\<close>

definition go_seconds :: "int \<Rightarrow> int" where
  "go_seconds n = sint (word_of_int (n * 1000000000) :: 64 word)"

section \<open>A control\<close>

text \<open>\<^verbatim>\<open>NewControl\<close>: the size of the pool's channel may be negative, which panics.\<close>

definition new_control :: "server_common_conf \<Rightarrow> int \<Rightarrow> login_msg \<Rightarrow> (unit, control) go" where
  "new_control svr now loginMsg =
     (let poolCount = (if lg_pool_count loginMsg > sc_max_pool_count svr then sc_max_pool_count svr
                       else lg_pool_count loginMsg) in
      if poolCount + 10 < 0 then Panic
      else Ok \<lparr>ct_login = loginMsg, ct_run_id = lg_run_id loginMsg, ct_pool_count = poolCount,
               ct_proxies = Map.empty, ct_ports_used = 0, ct_last_ping = now, ct_sent = [],
               ct_send_closed = False, ct_work_conns = [], ct_work_closed = False\<rparr>)"

definition ctl_send :: "unit message \<Rightarrow> control \<Rightarrow> control" where
  "ctl_send m ctl = ctl\<lparr>ct_sent := ct_sent ctl @ [m]\<rparr>"

definition ctl_start :: "server_common_conf \<Rightarrow> control \<Rightarrow> control" where
  "ctl_start svr ctl =
     ctl\<lparr>ct_sent := ct_sent ctl @
        MLoginResp \<lparr>lr_version = version_full, lr_run_id = ct_run_id ctl,
                    lr_server_udp_port = sc_bind_udp_port svr, lr_error = []\<rparr> #
        replicate (nat (ct_pool_count ctl)) MReqWorkConn\<rparr>"

text \<open>\<^verbatim>\<open>RegisterWorkConn\<close>: the send on a closed channel panics, which is caught, and no error is
  returned.\<close>

definition ctl_register_work_conn :: "nat \<Rightarrow> control \<Rightarrow> control \<times> control_error option" where
  "ctl_register_work_conn conn ctl =
     (if ct_work_closed ctl then (ctl, None)
      else if length (ct_work_conns ctl) < nat (ct_pool_count ctl + 10)
      then (ctl\<lparr>ct_work_conns := ct_work_conns ctl @ [conn]\<rparr>, None)
      else (ctl, Some CtlPoolFull))"

text \<open>
  \<^verbatim>\<open>GetWorkConn\<close> up to the point where it has a connection, fails or must wait (\<open>None\<close>); then what
  the wait gives: the pool at that time, or the timeout. Every connection taken asks for another.
\<close>

definition ctl_refill :: "control \<Rightarrow> control" where
  "ctl_refill ctl = (if ct_send_closed ctl then ctl else ctl_send MReqWorkConn ctl)"

definition ctl_take :: "control \<Rightarrow> (control \<times> (control_error + nat)) option" where
  "ctl_take ctl =
     (case ct_work_conns ctl of
        c # cs \<Rightarrow> Some (ctl_refill (ctl\<lparr>ct_work_conns := cs\<rparr>), Inr c)
      | [] \<Rightarrow> if ct_work_closed ctl then Some (ctl, Inl CtlClosed) else None)"

definition get_work_conn_begin :: "control \<Rightarrow> control \<times> (control_error + nat) option" where
  "get_work_conn_begin ctl =
     (case ctl_take ctl of
        Some (ctl', r) \<Rightarrow> (ctl', Some r)
      | None \<Rightarrow> if ct_send_closed ctl then (ctl, Some (Inl CtlSendPanic)) else (ctl_send MReqWorkConn ctl, None))"

definition get_work_conn_end :: "control \<Rightarrow> control \<times> (control_error + nat)" where
  "get_work_conn_end ctl = (case ctl_take ctl of Some r \<Rightarrow> r | None \<Rightarrow> (ctl, Inl CtlTimeout))"

definition ctl_replaced :: "control \<Rightarrow> control" where
  "ctl_replaced ctl = ctl\<lparr>ct_run_id := []\<rparr>"

section \<open>Proxies of a control\<close>

definition register_proxy ::
    "ctl_env \<Rightarrow> new_proxy_msg \<Rightarrow> control \<Rightarrow> shared \<Rightarrow>
     (unit, control \<times> shared \<times> new_proxy_msg \<times> (control_error + string)) go" where
  "register_proxy env m0 ctl sh =
     (case new_proxy_conf_from_msg m0 (ce_svr env) of
        (m, Inl e) \<Rightarrow> Ok (ctl, sh, m, Inl (CtlConf e))
      | (m, Inr conf) \<Rightarrow>
          let userInfo = \<lparr>ui_user = lg_user (ct_login ctl), ui_metas = lg_metas (ct_login ctl), ui_run_id = ct_run_id ctl\<rparr>;
              pxy = new_proxy userInfo (ct_pool_count ctl) conf;
              limited = (sc_max_ports_per_client (ce_svr env) > 0);
              give_back = (\<lambda>ctl. if limited then ctl\<lparr>ct_ports_used := ct_ports_used ctl - sp_used_ports_num pxy\<rparr> else ctl)
          in
          if limited \<and> ct_ports_used ctl + sp_used_ports_num pxy > sc_max_ports_per_client (ce_svr env)
          then Ok (ctl, sh, m, Inl CtlPortsExceeded)
          else
            let ctl = (if limited then ctl\<lparr>ct_ports_used := ct_ports_used ctl + sp_used_ports_num pxy\<rparr> else ctl) in
            (case proxy_run (ce_run env) (ce_svr env) (sh_resources sh) pxy of
               None \<Rightarrow> Panic
             | Some (re, pxy, r) \<Rightarrow>
                 let sh = sh\<lparr>sh_resources := re\<rparr> in
                 (case r of
                    Inl e \<Rightarrow> Ok (give_back ctl, sh, m, Inl (CtlRun e))
                  | Inr remoteAddr \<Rightarrow>
                      (case pxm_add (np_proxy_name m) pxy (sh_proxies sh) of
                         None \<Rightarrow>
                           go_then (proxy_close (ce_now env) pxy re) (\<lambda>(pxy, re).
                             Ok (give_back ctl, sh\<lparr>sh_resources := re\<rparr>, m, Inl CtlNameInUse))
                       | Some pxys \<Rightarrow>
                           Ok (ctl\<lparr>ct_proxies := (ct_proxies ctl)(sp_name pxy \<mapsto> pxy)\<rparr>,
                               sh\<lparr>sh_proxies := pxys\<rparr>, m, Inr remoteAddr)))))"

definition stat_close :: "ctl_env \<Rightarrow> server_proxy \<Rightarrow> shared \<Rightarrow> shared" where
  "stat_close env pxy sh =
     sh\<lparr>sh_stats := sm_close_proxy (ce_seconds env) (sp_name pxy)
         (bp_proxy_type (get_base_info (sp_conf pxy))) (sh_stats sh)\<rparr>"

text \<open>What ending a proxy does to the shared state, in \<^verbatim>\<open>CloseProxy\<close> and in \<^verbatim>\<open>stoper\<close>.\<close>

definition end_proxy :: "ctl_env \<Rightarrow> server_proxy \<Rightarrow> shared \<Rightarrow> (unit, shared) go" where
  "end_proxy env pxy sh =
     go_then (proxy_close (ce_now env) pxy (sh_resources sh)) (\<lambda>(pxy, re).
       Ok (stat_close env pxy (sh\<lparr>sh_resources := re, sh_proxies := pxm_del (sp_name pxy) (sh_proxies sh)\<rparr>)))"

definition close_proxy :: "ctl_env \<Rightarrow> string \<Rightarrow> control \<Rightarrow> shared \<Rightarrow> (unit, control \<times> shared) go" where
  "close_proxy env name ctl sh =
     (case ct_proxies ctl name of
        None \<Rightarrow> Ok (ctl, sh)
      | Some pxy \<Rightarrow>
          let ctl = (if sc_max_ports_per_client (ce_svr env) > 0
                     then ctl\<lparr>ct_ports_used := ct_ports_used ctl - sp_used_ports_num pxy\<rparr> else ctl) in
          go_then (end_proxy env pxy sh) (\<lambda>sh. Ok (ctl\<lparr>ct_proxies := (ct_proxies ctl)(name := None)\<rparr>, sh)))"

section \<open>The manager\<close>

text \<open>The select of \<^verbatim>\<open>manager\<close>: the ticker, a closed channel, or a message of the client.\<close>

datatype ctl_input = Heartbeat | ReadClosed | Received "unit message"

definition ctl_user_info :: "control \<Rightarrow> user_info" where
  "ctl_user_info ctl =
     \<lparr>ui_user = lg_user (ct_login ctl), ui_metas = lg_metas (ct_login ctl), ui_run_id = lg_run_id (ct_login ctl)\<rparr>"

definition manage_new_proxy :: "ctl_env \<Rightarrow> new_proxy_msg \<Rightarrow> control \<Rightarrow> shared \<Rightarrow> (unit, control \<times> shared) go" where
  "manage_new_proxy env m ctl sh =
     (let answer = (\<lambda>(ctl, sh, m, r).
        case r of
          Inl e \<Rightarrow> (ctl_send (MNewProxyResp \<lparr>nr_proxy_name = np_proxy_name m, nr_remote_addr = [],
             nr_error = generate_response_error_string (''new proxy ['' @ np_proxy_name m @ ''] error'') (ce_text env e)
               (sc_detailed_errors_to_client (ce_svr env))\<rparr>) ctl, sh)
        | Inr remoteAddr \<Rightarrow> (ctl_send (MNewProxyResp \<lparr>nr_proxy_name = np_proxy_name m, nr_remote_addr = remoteAddr,
             nr_error = []\<rparr>) ctl,
             sh\<lparr>sh_stats := sm_new_proxy (ce_midnight env) (ce_seconds env) (np_proxy_name m) (np_proxy_type m) (sh_stats sh)\<rparr>))
      in case pl_do_new_proxy (ce_peer env) (ce_plugins env) \<lparr>npc_user = ctl_user_info ctl, npc_new_proxy = m\<rparr> of
           Panic \<Rightarrow> Panic
         | Fail e \<Rightarrow> Ok (answer (ctl, sh, m, Inl (CtlPlugin e)))
         | Ok ret \<Rightarrow> go_then (register_proxy env (npc_new_proxy ret) ctl sh) (\<lambda>r. Ok (answer r)))"

definition manage_ping :: "ctl_env \<Rightarrow> auth_verifier \<Rightarrow> ping_msg \<Rightarrow> control \<Rightarrow> (unit, control \<times> bool) go" where
  "manage_ping env verifier m ctl =
     (let refuse = (\<lambda>e. (ctl_send (MPong \<lparr>po_error = generate_response_error_string ''invalid ping'' (ce_text env e)
             (sc_detailed_errors_to_client (ce_svr env))\<rparr>) ctl, False))
      in case pl_do_ping (ce_peer env) (ce_plugins env) \<lparr>pgc_user = ctl_user_info ctl, pgc_ping = m\<rparr> of
           Panic \<Rightarrow> Panic
         | Fail e \<Rightarrow> Ok (refuse (CtlPlugin e))
         | Ok ret \<Rightarrow>
             (case verify_ping (ce_auth env) verifier (pgc_ping ret) of
                Some e \<Rightarrow> Ok (refuse (CtlAuth e))
              | None \<Rightarrow> Ok (ctl_send (MPong \<lparr>po_error = []\<rparr>) (ctl\<lparr>ct_last_ping := ce_now env\<rparr>), True)))"

text \<open>One round of the loop; the flag says whether it goes on.\<close>

fun manager_step ::
    "ctl_env \<Rightarrow> auth_verifier \<Rightarrow> ctl_input \<Rightarrow> control \<Rightarrow> shared \<Rightarrow> (unit, control \<times> shared \<times> bool) go" where
  "manager_step env verifier Heartbeat ctl sh =
     Ok (ctl, sh, \<not> ce_now env - ct_last_ping ctl > go_seconds (sc_heartbeat_timeout (ce_svr env)))"
| "manager_step env verifier ReadClosed ctl sh = Ok (ctl, sh, False)"
| "manager_step env verifier (Received m) ctl sh =
     (case m of
        MNewProxy m \<Rightarrow> go_then (manage_new_proxy env m ctl sh) (\<lambda>(ctl, sh). Ok (ctl, sh, True))
      | MCloseProxy m \<Rightarrow> go_then (close_proxy env (cp_proxy_name m) ctl sh) (\<lambda>(ctl, sh). Ok (ctl, sh, True))
      | MPing m \<Rightarrow> go_then (manage_ping env verifier m ctl) (\<lambda>(ctl, go_on). Ok (ctl, sh, go_on))
      | _ \<Rightarrow> Ok (ctl, sh, True))"

declare manager_step.simps [simp del]

end
