(* ===== verification/Service.thy ===== *)
theory Service
  imports Server_Control
begin

text \<open>
  The service of frps: \<^verbatim>\<open>ControlManager\<close> of \<^verbatim>\<open>frp/server/control.go\<close>, the handling of new connections and
  the registrations of \<^verbatim>\<open>frp/server/service.go\<close>, and the histories of a server: connections arrive,
  managers handle messages, controls stop proxy by proxy, interleaved in any order.
\<close>

section \<open>State\<close>

text \<open>
  A control waits in \<^verbatim>\<open>RegisterControl\<close> until the one it replaced is shut down, then it is started.
  When its manager has returned it is leaving; \<^verbatim>\<open>stoper\<close> closes the proxies one by one (\<open>Stopping\<close>
  holds the names that are left).
\<close>

datatype ctl_phase = Absent | Waiting "nat option" | Running | Leaving | Stopping "string list" | Stopped

record server =
  sv_shared :: shared
  sv_verifier :: auth_verifier
  sv_controls :: "nat \<Rightarrow> control"
  sv_phase :: "nat \<Rightarrow> ctl_phase"
  sv_by_run_id :: "string \<rightharpoonup> nat"
  sv_next :: nat

text \<open>\<^verbatim>\<open>ControlManager.Add\<close> and \<^verbatim>\<open>Del\<close>.\<close>

definition cm_add :: "string \<Rightarrow> nat \<Rightarrow> server \<Rightarrow> server \<times> nat option" where
  "cm_add runID i sv =
     (let oldCtl = sv_by_run_id sv runID;
          sv = (case oldCtl of None \<Rightarrow> sv
                | Some old \<Rightarrow> sv\<lparr>sv_controls := (sv_controls sv)(old := ctl_replaced (sv_controls sv old))\<rparr>)
      in (sv\<lparr>sv_by_run_id := (sv_by_run_id sv)(runID \<mapsto> i)\<rparr>, oldCtl))"

definition cm_del :: "string \<Rightarrow> nat \<Rightarrow> server \<Rightarrow> server" where
  "cm_del runID i sv =
     (if sv_by_run_id sv runID = Some i then sv\<lparr>sv_by_run_id := (sv_by_run_id sv)(runID := None)\<rparr> else sv)"

definition cm_get_by_id :: "string \<Rightarrow> server \<Rightarrow> nat option" where
  "cm_get_by_id runID sv = sv_by_run_id sv runID"

section \<open>Connections\<close>

text \<open>\<^verbatim>\<open>RegisterControl\<close> up to its wait; \<open>rand\<close> is what \<^verbatim>\<open>RandID\<close> gives.\<close>

definition register_control ::
    "ctl_env \<Rightarrow> string option \<Rightarrow> login_msg \<Rightarrow> server \<Rightarrow> (unit, server \<times> control_error option) go" where
  "register_control env rand m0 sv =
     (case (if lg_run_id m0 = [] then rand else Some (lg_run_id m0)) of
        None \<Rightarrow> Ok (sv, Some CtlRandID)
      | Some runID \<Rightarrow>
          let m = m0\<lparr>lg_run_id := runID\<rparr>; (ok, text) = compat (lg_version m) in
          if \<not> ok then Ok (sv, Some (CtlVersion text))
          else
            let (verifier, e) = verify_login (ce_auth env) (sv_verifier sv) m;
                sv = sv\<lparr>sv_verifier := verifier\<rparr> in
            (case e of
               Some e \<Rightarrow> Ok (sv, Some (CtlAuth e))
             | None \<Rightarrow>
                 go_then (new_control (ce_svr env) (ce_now env) m) (\<lambda>ctl.
                   let i = sv_next sv;
                       (sv, old) = cm_add (lg_run_id m) i (sv\<lparr>sv_controls := (sv_controls sv)(i := ctl), sv_next := i + 1\<rparr>)
                   in Ok (sv\<lparr>sv_phase := (sv_phase sv)(i := Waiting old)\<rparr>, None))))"

text \<open>\<^verbatim>\<open>RegisterWorkConn\<close> with the message it may write to the connection.\<close>

definition register_work_conn ::
    "ctl_env \<Rightarrow> nat \<Rightarrow> new_work_conn_msg \<Rightarrow> server \<Rightarrow> (unit, server \<times> unit message list \<times> control_error option) go" where
  "register_work_conn env conn m sv =
     (case cm_get_by_id (nw_run_id m) sv of
        None \<Rightarrow> Ok (sv, [], Some (CtlNoControl (nw_run_id m)))
      | Some i \<Rightarrow>
          let ctl = sv_controls sv i;
              refuse = (\<lambda>e m. Ok (sv, [MStartWorkConn \<lparr>sw_proxy_name = [], sw_src_addr = [], sw_dst_addr = [],
                 sw_src_port = 0, sw_dst_port = 0,
                 sw_error = generate_response_error_string ''invalid NewWorkConn'' (ce_text env e)
                   (sc_detailed_errors_to_client (ce_svr env))\<rparr>], Some (CtlInvalidWorkConn (nw_run_id m))))
          in (case pl_do_new_work_conn (ce_peer env) (ce_plugins env) \<lparr>nwc_user = ctl_user_info ctl, nwc_new_work_conn = m\<rparr> of
                Panic \<Rightarrow> Panic
              | Fail e \<Rightarrow> refuse (CtlPlugin e) m
              | Ok ret \<Rightarrow>
                  (case verify_new_work_conn (ce_auth env) (sv_verifier sv) (nwc_new_work_conn ret) of
                     Some e \<Rightarrow> refuse (CtlAuth e) (nwc_new_work_conn ret)
                   | None \<Rightarrow>
                       (case ctl_register_work_conn conn ctl of
                          (ctl, e) \<Rightarrow> Ok (sv\<lparr>sv_controls := (sv_controls sv)(i := ctl)\<rparr>, [], e)))))"

definition register_visitor_conn ::
    "ctl_env \<Rightarrow> nat \<Rightarrow> new_visitor_conn_msg \<Rightarrow> server \<Rightarrow> server \<times> control_error option" where
  "register_visitor_conn env conn m sv =
     (let re = sh_resources (sv_shared sv);
          (vm, e) = vm_new_conn (ce_md5 env) (ce_enc_ok env) (nv_proxy_name m) conn (nv_timestamp m) (nv_sign_key m)
                      (nv_use_encryption m) (nv_use_compression m) (re_visitors re)
      in (sv\<lparr>sv_shared := (sv_shared sv)\<lparr>sh_resources := re\<lparr>re_visitors := vm\<rparr>\<rparr>\<rparr>, map_option CtlVisitor e))"

text \<open>
  \<^verbatim>\<open>handleConnection\<close> for the message it read (\<open>None\<close> when reading failed): the messages it writes
  back and whether it closes the connection.
\<close>

definition handle_connection ::
    "ctl_env \<Rightarrow> string option \<Rightarrow> nat \<Rightarrow> unit message option \<Rightarrow> server \<Rightarrow>
     (unit, server \<times> unit message list \<times> bool) go" where
  "handle_connection env rand conn rawMsg sv =
     (let text = (\<lambda>summary e. generate_response_error_string summary (ce_text env e)
                    (sc_detailed_errors_to_client (ce_svr env)));
          login_failed = (\<lambda>e. MLoginResp \<lparr>lr_version = version_full, lr_run_id = [], lr_server_udp_port = 0,
                    lr_error = text ''register control error'' e\<rparr>)
      in case rawMsg of
           Some (MLogin m) \<Rightarrow>
             (case pl_do_login (ce_peer env) (ce_plugins env) m of
                Panic \<Rightarrow> Panic
              | Fail e \<Rightarrow> Ok (sv, [login_failed (CtlPlugin e)], True)
              | Ok m \<Rightarrow>
                  go_then (register_control env rand m sv) (\<lambda>(sv, e).
                    case e of None \<Rightarrow> Ok (sv, [], False) | Some e \<Rightarrow> Ok (sv, [login_failed e], True)))
         | Some (MNewWorkConn m) \<Rightarrow>
             go_then (register_work_conn env conn m sv) (\<lambda>(sv, ms, e). Ok (sv, ms, e \<noteq> None))
         | Some (MNewVisitorConn m) \<Rightarrow>
             (case register_visitor_conn env conn m sv of
                (sv, e) \<Rightarrow>
                  Ok (sv, [MNewVisitorConnResp \<lparr>vr_proxy_name = nv_proxy_name m,
                        vr_error = (case e of None \<Rightarrow> [] | Some e \<Rightarrow> text ''register visitor conn error'' e)\<rparr>],
                      e \<noteq> None))
         | _ \<Rightarrow> Ok (sv, [], True))"

section \<open>The life of a control\<close>

text \<open>The end of \<^verbatim>\<open>RegisterControl\<close>.\<close>

definition start_control :: "ctl_env \<Rightarrow> nat \<Rightarrow> server \<Rightarrow> server" where
  "start_control env i sv =
     sv\<lparr>sv_controls := (sv_controls sv)(i := ctl_start (ce_svr env) (sv_controls sv i)),
        sv_phase := (sv_phase sv)(i := Running),
        sv_shared := (sv_shared sv)\<lparr>sh_stats := sm_new_client (sh_stats (sv_shared sv))\<rparr>\<rparr>"

definition manage :: "ctl_env \<Rightarrow> nat \<Rightarrow> ctl_input \<Rightarrow> server \<Rightarrow> (unit, server) go" where
  "manage env i inp sv =
     go_then (manager_step env (sv_verifier sv) inp (sv_controls sv i) (sv_shared sv)) (\<lambda>(ctl, sh, go_on).
       Ok (sv\<lparr>sv_controls := (sv_controls sv)(i := ctl), sv_shared := sh,
              sv_phase := (if go_on then sv_phase sv else (sv_phase sv)(i := Leaving))\<rparr>))"

text \<open>\<^verbatim>\<open>stoper\<close>: the channels are closed and the pool is drained, then the proxies are closed in the order
  \<open>names\<close> of the range over them, then the statistics are told.\<close>

definition ctl_close_channels :: "control \<Rightarrow> control" where
  "ctl_close_channels ctl = ctl\<lparr>ct_send_closed := True, ct_work_closed := True, ct_work_conns := []\<rparr>"

definition stop_begin :: "string list \<Rightarrow> nat \<Rightarrow> server \<Rightarrow> server" where
  "stop_begin names i sv =
     sv\<lparr>sv_controls := (sv_controls sv)(i := ctl_close_channels (sv_controls sv i)),
        sv_phase := (sv_phase sv)(i := Stopping names)\<rparr>"

definition stop_proxy :: "ctl_env \<Rightarrow> string \<Rightarrow> string list \<Rightarrow> nat \<Rightarrow> server \<Rightarrow> (unit, server) go" where
  "stop_proxy env name names i sv =
     (case ct_proxies (sv_controls sv i) name of
        None \<Rightarrow> Ok (sv\<lparr>sv_phase := (sv_phase sv)(i := Stopping names)\<rparr>)
      | Some pxy \<Rightarrow>
          go_then (end_proxy env pxy (sv_shared sv)) (\<lambda>sh.
            Ok (sv\<lparr>sv_shared := sh, sv_phase := (sv_phase sv)(i := Stopping names)\<rparr>)))"

definition stop_end :: "nat \<Rightarrow> server \<Rightarrow> server" where
  "stop_end i sv =
     sv\<lparr>sv_phase := (sv_phase sv)(i := Stopped),
        sv_shared := (sv_shared sv)\<lparr>sh_stats := sm_close_client (sh_stats (sv_shared sv))\<rparr>\<rparr>"

section \<open>Histories\<close>

datatype server_event =
    Connected ctl_env "string option" nat "unit message option"
  | Started ctl_env nat
  | Managed ctl_env nat ctl_input
  | WorkConnAsked nat
  | WorkConnWaited nat
  | StopBegun nat "string list"
  | ProxyStopped ctl_env nat
  | StopEnded nat
  | Removed nat

definition run_id_of :: "server \<Rightarrow> nat \<Rightarrow> string" where
  "run_id_of sv i = lg_run_id (ct_login (sv_controls sv i))"

inductive server_step :: "server_common_conf \<Rightarrow> server \<Rightarrow> server_event \<Rightarrow> server \<Rightarrow> bool" for svr where
  connected: "ce_svr env = svr \<Longrightarrow> handle_connection env rand conn m sv = Ok (sv', ms, closed) \<Longrightarrow>
    server_step svr sv (Connected env rand conn m) sv'"
| started: "ce_svr env = svr \<Longrightarrow> sv_phase sv i = Waiting old \<Longrightarrow> (\<And>j. old = Some j \<Longrightarrow> sv_phase sv j = Stopped) \<Longrightarrow>
    server_step svr sv (Started env i) (start_control env i sv)"
| managed: "ce_svr env = svr \<Longrightarrow> sv_phase sv i = Running \<Longrightarrow> manage env i inp sv = Ok sv' \<Longrightarrow>
    server_step svr sv (Managed env i inp) sv'"
| work_conn_asked: "get_work_conn_begin (sv_controls sv i) = (ctl, r) \<Longrightarrow>
    server_step svr sv (WorkConnAsked i) (sv\<lparr>sv_controls := (sv_controls sv)(i := ctl)\<rparr>)"
| work_conn_waited: "get_work_conn_end (sv_controls sv i) = (ctl, r) \<Longrightarrow>
    server_step svr sv (WorkConnWaited i) (sv\<lparr>sv_controls := (sv_controls sv)(i := ctl)\<rparr>)"
| stop_begun: "sv_phase sv i = Running \<or> sv_phase sv i = Leaving \<Longrightarrow> range_of (ct_proxies (sv_controls sv i)) names \<Longrightarrow>
    server_step svr sv (StopBegun i names) (stop_begin names i sv)"
| proxy_stopped: "ce_svr env = svr \<Longrightarrow> sv_phase sv i = Stopping (name # names) \<Longrightarrow> stop_proxy env name names i sv = Ok sv' \<Longrightarrow>
    server_step svr sv (ProxyStopped env i) sv'"
| stop_ended: "sv_phase sv i = Stopping [] \<Longrightarrow> server_step svr sv (StopEnded i) (stop_end i sv)"
| removed: "sv_phase sv i = Stopped \<Longrightarrow> server_step svr sv (Removed i) (cm_del (run_id_of sv i) i sv)"

text \<open>\<open>ok\<close> is what is assumed of every event in the state it happens in.\<close>

inductive server_run ::
    "server_common_conf \<Rightarrow> (server \<Rightarrow> server_event \<Rightarrow> bool) \<Rightarrow> server \<Rightarrow> server_event list \<Rightarrow> server \<Rightarrow> bool" for svr ok where
  run_start: "server_run svr ok sv [] sv"
| run_next: "server_run svr ok sv es sv' \<Longrightarrow> ok sv' e \<Longrightarrow> server_step svr sv' e sv'' \<Longrightarrow> server_run svr ok sv (es @ [e]) sv''"

text \<open>A server that has just been made: no proxies, no controls.\<close>

definition absent_control :: control where
  "absent_control =
     \<lparr>ct_login = \<lparr>lg_version = [], lg_hostname = [], lg_os = [], lg_arch = [], lg_user = [], lg_privilege_key = [],
        lg_timestamp = 0, lg_run_id = [], lg_metas = None, lg_pool_count = 0\<rparr>,
      ct_run_id = [], ct_pool_count = 0, ct_proxies = Map.empty, ct_ports_used = 0, ct_last_ping = 0, ct_sent = [],
      ct_send_closed = False, ct_work_conns = [], ct_work_closed = False\<rparr>"

definition new_server :: "auth_verifier \<Rightarrow> resources \<Rightarrow> server_statistics \<Rightarrow> server" where
  "new_server verifier re stats =
     \<lparr>sv_shared = \<lparr>sh_resources = re, sh_proxies = Map.empty, sh_stats = stats\<rparr>, sv_verifier = verifier,
      sv_controls = (\<lambda>_. absent_control), sv_phase = (\<lambda>_. Absent), sv_by_run_id = Map.empty, sv_next = 0\<rparr>"

inductive_cases server_stepE: "server_step svr sv e sv'"

end
