(* ===== verification/Service_Laws.thy ===== *)
theory Service_Laws
  imports Service
begin

text \<open>
  What every history of a server keeps, whatever the order in which connections, messages and
  shutdowns interleave: at most one control per run id is active, the table of all proxies is the
  disjoint union of the clients' tables, the number of ports a client uses is counted and limited,
  and the port managers have exactly the ports of the proxies in use.
\<close>

section \<open>What running a proxy keeps\<close>

lemma run_or_close_cases:
  assumes "run_or_close close re pxy r = Some (re', pxy', r')"
  shows "pxy' = pxy \<and> r' = r \<and> (case r of Inr a \<Rightarrow> re' = re | Inl e \<Rightarrow> close pxy re = Ok re')"
  using assms by (auto simp: run_or_close_def split: sum.split_asm go.split_asm)

lemmas run_defs = tcp_run_def udp_run_def http_run_def https_run_def tcpmux_run_def visitor_run_def xtcp_run_def

lemma proxy_run_keeps:
  assumes "proxy_run env svr re pxy = Some (re', pxy', r)"
  shows "sp_name pxy' = sp_name pxy" and "sp_used_ports_num pxy' = sp_used_ports_num pxy"
proof -
  have "sp_name pxy' = sp_name pxy \<and> sp_used_ports_num pxy' = sp_used_ports_num pxy"
  proof (cases "sp_conf pxy")
    case (TCPConf c)
    with assms show ?thesis
      by (auto simp: proxy_run.simps tcp_run_def Let_def split: if_split_asm prod.split_asm sum.split_asm option.split_asm)
  next
    case (UDPConf c)
    with assms show ?thesis
      by (auto simp: proxy_run.simps udp_run_def Let_def split: if_split_asm prod.split_asm option.split_asm)
  next
    case (STCPConf c)
    with assms show ?thesis
      by (auto simp: proxy_run.simps visitor_run_def split: prod.split_asm sum.split_asm)
  next
    case (SUDPConf c)
    with assms show ?thesis
      by (auto simp: proxy_run.simps visitor_run_def split: prod.split_asm sum.split_asm)
  next
    case (XTCPConf c)
    with assms show ?thesis by (auto simp: proxy_run.simps xtcp_run_def split: option.split_asm)
  next
    case (HTTPConf c)
    with assms show ?thesis
      by (auto simp: proxy_run.simps http_run_def Let_def split: prod.split_asm dest!: run_or_close_cases)
  next
    case (HTTPSConf c)
    with assms show ?thesis
      by (auto simp: proxy_run.simps https_run_def Let_def split: prod.split_asm dest!: run_or_close_cases)
  next
    case (TCPMuxConf c)
    with assms show ?thesis
      by (auto simp: proxy_run.simps tcpmux_run_def Let_def split: prod.split_asm dest!: run_or_close_cases)
  qed
  then show "sp_name pxy' = sp_name pxy" "sp_used_ports_num pxy' = sp_used_ports_num pxy" by simp_all
qed

lemma unmarshal_name: "bp_proxy_name (get_base_info (unmarshal_from_msg m c)) = np_proxy_name m"
  by (cases c) (simp_all add: unmarshal_defs base_unmarshal_from_msg_def)

lemma conf_from_msg_name:
  "new_proxy_conf_from_msg m0 svr = (m, Inr conf) \<Longrightarrow> bp_proxy_name (get_base_info conf) = np_proxy_name m"
  by (auto simp: new_proxy_conf_from_msg_def Let_def unmarshal_name split: option.split_asm if_split_asm)

section \<open>The outcomes of registering and closing a proxy\<close>

definition same_core :: "control \<Rightarrow> control \<Rightarrow> bool" where
  "same_core c c' \<longleftrightarrow> ct_login c' = ct_login c \<and> ct_proxies c' = ct_proxies c \<and> ct_ports_used c' = ct_ports_used c"

lemma same_core_refl [simp]: "same_core c c"
  by (simp add: same_core_def)

lemma same_core_send [simp]: "same_core c (ctl_send m c') \<longleftrightarrow> same_core c c'"
  by (simp add: same_core_def ctl_send_def)

text \<open>
  The resources after a registration that was refused: untouched, or run and failed, or run and
  closed. \<open>confs\<close> are the configurations that may be run.
\<close>

inductive run_undone :: "ctl_env \<Rightarrow> proxy_conf set \<Rightarrow> resources \<Rightarrow> resources \<Rightarrow> bool" for env confs re where
  not_run: "run_undone env confs re re"
| run_failed: "conf \<in> confs \<Longrightarrow> proxy_run (ce_run env) (ce_svr env) re (new_proxy ui pc conf) = Some (re', pxy, Inl e) \<Longrightarrow> run_undone env confs re re'"
| run_closed: "conf \<in> confs \<Longrightarrow> proxy_run (ce_run env) (ce_svr env) re (new_proxy ui pc conf) = Some (re', pxy, Inr a) \<Longrightarrow>
    proxy_close (ce_now env) pxy re' = Ok (pxy', re'') \<Longrightarrow> run_undone env confs re re''"

text \<open>The configurations that a round of the manager may run: what the plugins made of a message.\<close>

definition msg_confs :: "ctl_env \<Rightarrow> new_proxy_msg \<Rightarrow> proxy_conf set" where
  "msg_confs env m = {conf. snd (new_proxy_conf_from_msg m (ce_svr env)) = Inr conf}"

definition plugin_confs :: "ctl_env \<Rightarrow> new_proxy_msg \<Rightarrow> control \<Rightarrow> proxy_conf set" where
  "plugin_confs env m ctl =
     (case pl_do_new_proxy (ce_peer env) (ce_plugins env) \<lparr>npc_user = ctl_user_info ctl, npc_new_proxy = m\<rparr> of
        Ok ret \<Rightarrow> msg_confs env (npc_new_proxy ret) | _ \<Rightarrow> {})"

fun run_confs :: "ctl_env \<Rightarrow> ctl_input \<Rightarrow> control \<Rightarrow> proxy_conf set" where
  "run_confs env (Received (MNewProxy m)) ctl = plugin_confs env m ctl"
| "run_confs env inp ctl = {}"

text \<open>What one round of a manager does to its control and to the shared state.\<close>

inductive ctl_change :: "ctl_env \<Rightarrow> proxy_conf set \<Rightarrow> control \<Rightarrow> shared \<Rightarrow> control \<Rightarrow> shared \<Rightarrow> bool" for env confs c sh where
  change_none: "same_core c c' \<Longrightarrow> sh_proxies sh' = sh_proxies sh \<Longrightarrow>
    run_undone env confs (sh_resources sh) (sh_resources sh') \<Longrightarrow> ctl_change env confs c sh c' sh'"
| change_add: "conf \<in> confs \<Longrightarrow> proxy_run (ce_run env) (ce_svr env) (sh_resources sh) (new_proxy ui pc conf) = Some (sh_resources sh', pxy, Inr a) \<Longrightarrow>
    sh_proxies sh (sp_name pxy) = None \<Longrightarrow> sh_proxies sh' = (sh_proxies sh)(sp_name pxy \<mapsto> pxy) \<Longrightarrow>
    ct_login c' = ct_login c \<Longrightarrow> ct_proxies c' = (ct_proxies c)(sp_name pxy \<mapsto> pxy) \<Longrightarrow>
    (sc_max_ports_per_client (ce_svr env) > 0 \<Longrightarrow> ct_ports_used c' = ct_ports_used c + sp_used_ports_num pxy \<and>
       ct_ports_used c' \<le> sc_max_ports_per_client (ce_svr env)) \<Longrightarrow> ctl_change env confs c sh c' sh'"
| change_close: "ct_proxies c name = Some pxy \<Longrightarrow>
    proxy_close (ce_now env) pxy (sh_resources sh) = Ok (pxy', sh_resources sh') \<Longrightarrow>
    sh_proxies sh' = (sh_proxies sh)(sp_name pxy := None) \<Longrightarrow>
    ct_login c' = ct_login c \<Longrightarrow> ct_proxies c' = (ct_proxies c)(name := None) \<Longrightarrow>
    (sc_max_ports_per_client (ce_svr env) > 0 \<Longrightarrow> ct_ports_used c' = ct_ports_used c - sp_used_ports_num pxy) \<Longrightarrow>
    ctl_change env confs c sh c' sh'"

lemma register_proxy_change:
  assumes "register_proxy env m0 c sh = Ok (c', sh', m, r)"
  shows "ctl_change env (msg_confs env m0) c sh c' sh'"
proof -
  obtain m1 rc where conf: "new_proxy_conf_from_msg m0 (ce_svr env) = (m1, rc)"
    by (cases "new_proxy_conf_from_msg m0 (ce_svr env)")
  show ?thesis
  proof (cases rc)
    case (Inl e)
    with assms conf show ?thesis
      by (auto simp: register_proxy_def intro: ctl_change.intros run_undone.intros)
  next
    case (Inr conf')
    let ?ui = "\<lparr>ui_user = lg_user (ct_login c), ui_metas = lg_metas (ct_login c), ui_run_id = ct_run_id c\<rparr>"
    let ?pxy = "new_proxy ?ui (ct_pool_count c) conf'"
    let ?max = "sc_max_ports_per_client (ce_svr env)"
    show ?thesis
    proof (cases "?max > 0 \<and> ct_ports_used c + sp_used_ports_num ?pxy > ?max")
      case True
      with assms conf Inr show ?thesis
        by (auto simp: register_proxy_def Let_def intro: ctl_change.intros run_undone.intros)
    next
      case False
      show ?thesis
      proof (cases "proxy_run (ce_run env) (ce_svr env) (sh_resources sh) ?pxy")
        case None
        with assms conf Inr False show ?thesis by (simp add: register_proxy_def Let_def split: if_split_asm)
      next
        case (Some res)
        obtain re pxy r1 where res: "res = (re, pxy, r1)" by (cases res)
        note run = Some [unfolded res]
        have mem: "conf' \<in> msg_confs env m0" using conf Inr by (simp add: msg_confs_def)
        note keeps = proxy_run_keeps [OF run]
        have name: "sp_name pxy = np_proxy_name m1"
          using conf_from_msg_name [of m0 "ce_svr env" m1 conf'] conf Inr keeps by (simp add: new_proxy_def)
        show ?thesis
        proof (cases r1)
          case (Inl e)
          with assms conf Inr False run show ?thesis
            by (auto simp: register_proxy_def Let_def same_core_def intro!: change_none intro: run_failed [OF mem])
        next
          case a: (Inr a)
          show ?thesis
          proof (cases "sh_proxies sh (np_proxy_name m1)")
            case None
            with assms conf Inr a False run name keeps show ?thesis
              by (auto simp: register_proxy_def Let_def pxm_add_def intro!: change_add [OF mem])
          next
            case (Some q)
            with assms conf Inr a False run show ?thesis
              by (auto simp: register_proxy_def Let_def pxm_add_def same_core_def go_then_eq_Ok
                  intro!: change_none intro: run_closed [OF mem] split: prod.split_asm)
          qed
        qed
      qed
    qed
  qed
qed

lemma proxy_close_name: "proxy_close now pxy re = Ok (pxy', re') \<Longrightarrow> sp_name pxy' = sp_name pxy"
  by (auto simp: proxy_close.simps go_then_eq_Ok split: proxy_conf.split_asm)

lemma close_proxy_change:
  assumes "close_proxy env name c sh = Ok (c', sh')"
  shows "ctl_change env confs c sh c' sh'"
proof (cases "ct_proxies c name")
  case None
  with assms show ?thesis by (auto simp: close_proxy_def intro: ctl_change.intros run_undone.intros)
next
  case (Some pxy)
  with assms show ?thesis
    by (auto simp: close_proxy_def end_proxy_def go_then_eq_Ok Let_def stat_close_def pxm_del_def
        intro!: change_close split: prod.split_asm dest: proxy_close_name)
qed

lemma ctl_change_core:
  assumes "ctl_change env confs c sh c1 sh1" and "same_core c1 c2"
    and "sh_proxies sh2 = sh_proxies sh1" and "sh_resources sh2 = sh_resources sh1"
  shows "ctl_change env confs c sh c2 sh2"
  using assms by (cases rule: ctl_change.cases) (auto simp: same_core_def intro: ctl_change.intros)

lemma manage_new_proxy_change:
  assumes "manage_new_proxy env m c sh = Ok (c', sh')"
  shows "ctl_change env (plugin_confs env m c) c sh c' sh'"
proof (cases "pl_do_new_proxy (ce_peer env) (ce_plugins env) \<lparr>npc_user = ctl_user_info c, npc_new_proxy = m\<rparr>")
  case (Ok ret)
  from assms Ok obtain x where x: "register_proxy env (npc_new_proxy ret) c sh = Ok x"
    by (auto simp: manage_new_proxy_def go_then_eq_Ok Let_def)
  obtain c1 sh1 m1 r where x': "x = (c1, sh1, m1, r)" by (cases x)
  note r = x [unfolded x']
  from assms Ok r have o: "same_core c1 c' \<and> sh_proxies sh' = sh_proxies sh1 \<and> sh_resources sh' = sh_resources sh1"
    by (cases r) (auto simp: manage_new_proxy_def Let_def)
  have "plugin_confs env m c = msg_confs env (npc_new_proxy ret)" using Ok by (simp add: plugin_confs_def)
  with ctl_change_core [OF register_proxy_change [OF r]] o show ?thesis by simp
next
  case (Fail e)
  with assms show ?thesis
    by (auto simp: manage_new_proxy_def Let_def intro!: change_none not_run)
next
  case Panic
  with assms show ?thesis by (simp add: manage_new_proxy_def Let_def)
qed

lemma manage_ping_core: "manage_ping env v m c = Ok (c', g) \<Longrightarrow> same_core c c'"
  by (auto simp: manage_ping_def Let_def same_core_def ctl_send_def split: go.split_asm option.split_asm)

lemma manager_step_change:
  assumes "manager_step env v inp c sh = Ok (c', sh', g)"
  shows "ctl_change env (run_confs env inp c) c sh c' sh'"
proof -
  have none: "ctl_change env (run_confs env inp c) c sh c sh" by (intro change_none not_run) simp_all
  show ?thesis
  proof (cases inp)
    case (Received m)
    show ?thesis
    proof (cases m)
      case (MNewProxy x)
      with assms Received show ?thesis
        by (auto simp: manager_step.simps go_then_eq_Ok intro: manage_new_proxy_change)
    next
      case (MCloseProxy x)
      with assms Received show ?thesis
        by (auto simp: manager_step.simps go_then_eq_Ok intro: close_proxy_change)
    next
      case (MPing x)
      with assms Received show ?thesis
        by (auto simp: manager_step.simps go_then_eq_Ok intro!: change_none not_run dest: manage_ping_core)
    qed (use assms Received none in \<open>simp_all add: manager_step.simps\<close>)
  qed (use assms none in \<open>simp_all add: manager_step.simps\<close>)
qed

section \<open>The moves of a server\<close>

text \<open>What the invariants need to know of a step: the rest of the server is as it was.\<close>

definition same_rest :: "server \<Rightarrow> server \<Rightarrow> bool" where
  "same_rest sv sv' \<longleftrightarrow>
     sh_proxies (sv_shared sv') = sh_proxies (sv_shared sv) \<and>
     re_tcp_ports (sh_resources (sv_shared sv')) = re_tcp_ports (sh_resources (sv_shared sv)) \<and>
     re_udp_ports (sh_resources (sv_shared sv')) = re_udp_ports (sh_resources (sv_shared sv))"

definition same_table :: "server \<Rightarrow> server \<Rightarrow> bool" where
  "same_table sv sv' \<longleftrightarrow> sv_by_run_id sv' = sv_by_run_id sv \<and> sv_next sv' = sv_next sv"

inductive server_move :: "server_common_conf \<Rightarrow> server \<Rightarrow> server_event \<Rightarrow> server \<Rightarrow> bool" for svr sv where
  move_quiet: "sv_phase sv' = sv_phase sv \<Longrightarrow> same_table sv sv' \<Longrightarrow> same_rest sv sv' \<Longrightarrow>
    (\<And>i. same_core (sv_controls sv i) (sv_controls sv' i)) \<Longrightarrow> server_move svr sv e sv'"
| move_login: "sv_phase sv' = (sv_phase sv)(sv_next sv := Waiting (sv_by_run_id sv r)) \<Longrightarrow>
    sv_by_run_id sv' = (sv_by_run_id sv)(r \<mapsto> sv_next sv) \<Longrightarrow> sv_next sv' = sv_next sv + 1 \<Longrightarrow> same_rest sv sv' \<Longrightarrow>
    (\<And>i. i \<noteq> sv_next sv \<Longrightarrow> same_core (sv_controls sv i) (sv_controls sv' i)) \<Longrightarrow>
    run_id_of sv' (sv_next sv) = r \<Longrightarrow> ct_proxies (sv_controls sv' (sv_next sv)) = Map.empty \<Longrightarrow>
    ct_ports_used (sv_controls sv' (sv_next sv)) = 0 \<Longrightarrow> server_move svr sv e sv'"
| move_start: "sv_phase sv i = Waiting old \<Longrightarrow> (\<And>j. old = Some j \<Longrightarrow> sv_phase sv j = Stopped) \<Longrightarrow>
    sv_phase sv' = (sv_phase sv)(i := Running) \<Longrightarrow> same_table sv sv' \<Longrightarrow> same_rest sv sv' \<Longrightarrow>
    (\<And>i. same_core (sv_controls sv i) (sv_controls sv' i)) \<Longrightarrow> server_move svr sv e sv'"
| move_manage: "ce_svr env = svr \<Longrightarrow> sv_phase sv i = Running \<Longrightarrow>
    ctl_change env (run_confs env inp (sv_controls sv i)) (sv_controls sv i) (sv_shared sv) (sv_controls sv' i) (sv_shared sv') \<Longrightarrow>
    (\<And>j. j \<noteq> i \<Longrightarrow> sv_controls sv' j = sv_controls sv j) \<Longrightarrow> same_table sv sv' \<Longrightarrow>
    sv_phase sv' = sv_phase sv \<or> sv_phase sv' = (sv_phase sv)(i := Leaving) \<Longrightarrow>
    server_move svr sv (Managed env i inp) sv'"
| move_stop_begin: "sv_phase sv i = Running \<or> sv_phase sv i = Leaving \<Longrightarrow> range_of (ct_proxies (sv_controls sv i)) names \<Longrightarrow>
    sv_phase sv' = (sv_phase sv)(i := Stopping names) \<Longrightarrow> same_table sv sv' \<Longrightarrow> same_rest sv sv' \<Longrightarrow>
    (\<And>i. same_core (sv_controls sv i) (sv_controls sv' i)) \<Longrightarrow> server_move svr sv e sv'"
| move_stop_proxy: "sv_phase sv i = Stopping (name # names) \<Longrightarrow> ct_proxies (sv_controls sv i) name = Some pxy \<Longrightarrow>
    proxy_close (ce_now env) pxy (sh_resources (sv_shared sv)) = Ok (pxy', sh_resources (sv_shared sv')) \<Longrightarrow>
    sh_proxies (sv_shared sv') = (sh_proxies (sv_shared sv))(sp_name pxy := None) \<Longrightarrow>
    sv_phase sv' = (sv_phase sv)(i := Stopping names) \<Longrightarrow> same_table sv sv' \<Longrightarrow> sv_controls sv' = sv_controls sv \<Longrightarrow>
    server_move svr sv (ProxyStopped env i) sv'"
| move_stop_skip: "sv_phase sv i = Stopping (name # names) \<Longrightarrow> ct_proxies (sv_controls sv i) name = None \<Longrightarrow>
    sv_phase sv' = (sv_phase sv)(i := Stopping names) \<Longrightarrow> same_table sv sv' \<Longrightarrow> same_rest sv sv' \<Longrightarrow>
    sv_controls sv' = sv_controls sv \<Longrightarrow> server_move svr sv e sv'"
| move_stop_end: "sv_phase sv i = Stopping [] \<Longrightarrow> sv_phase sv' = (sv_phase sv)(i := Stopped) \<Longrightarrow> same_table sv sv' \<Longrightarrow>
    same_rest sv sv' \<Longrightarrow> sv_controls sv' = sv_controls sv \<Longrightarrow> server_move svr sv e sv'"
| move_remove: "sv_phase sv i = Stopped \<Longrightarrow> sv_phase sv' = sv_phase sv \<Longrightarrow> sv_next sv' = sv_next sv \<Longrightarrow>
    sv_by_run_id sv' = (if sv_by_run_id sv (run_id_of sv i) = Some i
      then (sv_by_run_id sv)(run_id_of sv i := None) else sv_by_run_id sv) \<Longrightarrow>
    same_rest sv sv' \<Longrightarrow> sv_controls sv' = sv_controls sv \<Longrightarrow> server_move svr sv e sv'"

lemma cm_add_fields:
  assumes "cm_add r i sv = (sv1, old)"
  shows "old = sv_by_run_id sv r \<and> sv_phase sv1 = sv_phase sv \<and> sv_by_run_id sv1 = (sv_by_run_id sv)(r \<mapsto> i) \<and>
    sv_next sv1 = sv_next sv \<and> sv_shared sv1 = sv_shared sv \<and> sv_verifier sv1 = sv_verifier sv \<and>
    same_core (sv_controls sv j) (sv_controls sv1 j) \<and> ct_pool_count (sv_controls sv1 j) = ct_pool_count (sv_controls sv j)"
  using assms by (auto simp: cm_add_def Let_def same_core_def ctl_replaced_def split: option.split)

lemma register_control_move:
  assumes "register_control env rand m0 sv = Ok (sv', r)"
  shows "server_move svr sv e sv'"
proof -
  obtain ok msg where c: "compat (lg_version m0) = (ok, msg)" by (cases "compat (lg_version m0)")
  show ?thesis
  proof (cases "(if lg_run_id m0 = [] then rand else Some (lg_run_id m0))")
    case None
    with assms show ?thesis
      by (intro move_quiet) (auto simp: register_control_def same_table_def same_rest_def)
  next
    case (Some runID)
    let ?m = "m0\<lparr>lg_run_id := runID\<rparr>"
    obtain v err where v: "verify_login (ce_auth env) (sv_verifier sv) ?m = (v, err)"
      by (cases "verify_login (ce_auth env) (sv_verifier sv) ?m")
    show ?thesis
    proof (cases "ok \<and> err = None")
      case False
      with assms Some c v show ?thesis
        by (intro move_quiet) (auto simp: register_control_def same_table_def same_rest_def Let_def split: option.split_asm if_split_asm)
    next
      case True
      with assms Some c v obtain ctl where ctl: "new_control (ce_svr env) (ce_now env) ?m = Ok ctl"
        by (cases "new_control (ce_svr env) (ce_now env) ?m") (simp_all add: register_control_def Let_def)
      have new: "lg_run_id (ct_login ctl) = runID" "ct_proxies ctl = Map.empty" "ct_ports_used ctl = 0"
        using ctl by (auto simp: new_control_def Let_def split: if_split_asm)
      let ?sv = "sv\<lparr>sv_verifier := v, sv_controls := (sv_controls sv)(sv_next sv := ctl), sv_next := sv_next sv + 1\<rparr>"
      obtain sv1 old where add: "cm_add runID (sv_next sv) ?sv = (sv1, old)" by (cases "cm_add runID (sv_next sv) ?sv")
      have sv': "sv' = sv1\<lparr>sv_phase := (sv_phase sv1)(sv_next sv := Waiting old)\<rparr>"
        using assms Some c v True ctl add by (simp add: register_control_def Let_def)
      note f = cm_add_fields [OF add]
      have core: "same_core (sv_controls ?sv i) (sv_controls sv' i)" for i
        using f [of i] by (simp add: sv')
      show ?thesis
      proof (rule move_login [where r = runID])
        show "same_core (sv_controls sv i) (sv_controls sv' i)" if "i \<noteq> sv_next sv" for i
          using core [of i] that by simp
        show "run_id_of sv' (sv_next sv) = runID" "ct_proxies (sv_controls sv' (sv_next sv)) = Map.empty"
          "ct_ports_used (sv_controls sv' (sv_next sv)) = 0"
          using core [of "sv_next sv"] new by (simp_all add: run_id_of_def same_core_def)
      qed (use f [of 0] in \<open>simp_all add: sv' same_rest_def\<close>)
    qed
  qed
qed

lemma same_rest_refl [simp]: "same_rest sv sv" and same_table_refl [simp]: "same_table sv sv"
  by (simp_all add: same_rest_def same_table_def)

lemma register_work_conn_quiet:
  assumes "register_work_conn env conn m sv = Ok (sv', ms, r)"
  shows "server_move svr sv e sv'"
  using assms
  by (intro move_quiet)
    (auto simp: register_work_conn_def Let_def same_table_def same_rest_def same_core_def ctl_register_work_conn_def
      split: option.split_asm go.split_asm if_split_asm)

lemma register_visitor_conn_quiet:
  assumes "register_visitor_conn env conn m sv = (sv', r)"
  shows "server_move svr sv e sv'"
  using assms
  by (intro move_quiet)
    (auto simp: register_visitor_conn_def Let_def same_table_def same_rest_def re_tcp_ports_def split: prod.split_asm)

lemma handle_connection_move:
  assumes "handle_connection env rand conn m sv = Ok (sv', ms, closed)"
  shows "server_move svr sv e sv'"
proof -
  have quiet: "server_move svr sv e sv"
    by (rule move_quiet) simp_all
  show ?thesis
  proof (cases m)
    case None
    with assms quiet show ?thesis by (simp add: handle_connection_def)
  next
    case (Some x)
    show ?thesis
    proof (cases x)
      case (MLogin lg)
      show ?thesis
      proof (cases "pl_do_login (ce_peer env) (ce_plugins env) lg")
        case (Ok lg')
        with assms Some MLogin obtain y where "register_control env rand lg' sv = Ok (sv', y)"
          by (auto simp: handle_connection_def go_then_eq_Ok split: option.split_asm)
        then show ?thesis by (rule register_control_move)
      qed (use assms Some MLogin quiet in \<open>simp_all add: handle_connection_def Let_def\<close>)
    next
      case (MNewWorkConn w)
      with assms Some show ?thesis
        by (auto simp: handle_connection_def go_then_eq_Ok intro: register_work_conn_quiet)
    next
      case (MNewVisitorConn w)
      with assms Some show ?thesis
        by (auto simp: handle_connection_def Let_def split: prod.split_asm intro: register_visitor_conn_quiet)
    qed (use assms Some quiet in \<open>simp_all add: handle_connection_def Let_def\<close>)
  qed
qed

lemma ctl_take_core: "ctl_take c = Some (c', r) \<Longrightarrow> same_core c c'"
  by (auto simp: ctl_take_def ctl_refill_def ctl_send_def same_core_def split: list.split_asm if_split_asm)

lemma get_work_conn_core:
  "get_work_conn_begin c = (c', r) \<Longrightarrow> same_core c c'" "get_work_conn_end c = (c', r') \<Longrightarrow> same_core c c'"
  by (auto simp: get_work_conn_begin_def get_work_conn_end_def split: option.split_asm if_split_asm dest: ctl_take_core)

lemma server_step_move: "server_step svr sv e sv' \<Longrightarrow> server_move svr sv e sv'"
proof (induction rule: server_step.induct)
  case (connected env rand conn m sv sv' ms closed)
  then show ?case by (blast intro: handle_connection_move)
next
  case (started env sv i old)
  then show ?case
    by (intro move_start [of sv i old])
      (auto simp: start_control_def same_table_def same_rest_def same_core_def ctl_start_def)
next
  case (managed env sv i inp sv')
  from managed(3) obtain ctl sh g where
    m: "manager_step env (sv_verifier sv) inp (sv_controls sv i) (sv_shared sv) = Ok (ctl, sh, g)"
    and sv': "sv' = sv\<lparr>sv_controls := (sv_controls sv)(i := ctl), sv_shared := sh,
              sv_phase := (if g then sv_phase sv else (sv_phase sv)(i := Leaving))\<rparr>"
    by (auto simp: manage_def go_then_eq_Ok)
  from manager_step_change [OF m] managed(1,2) show ?case
    by (intro move_manage) (simp_all add: sv' same_table_def)
next
  case (work_conn_asked sv i ctl r)
  then show ?case
    by (intro move_quiet) (auto simp: same_table_def same_rest_def dest: get_work_conn_core)
next
  case (work_conn_waited sv i ctl r)
  then show ?case
    by (intro move_quiet) (auto simp: same_table_def same_rest_def dest: get_work_conn_core)
next
  case (stop_begun sv i names)
  then show ?case
    by (intro move_stop_begin [of sv i names])
      (auto simp: stop_begin_def same_table_def same_rest_def same_core_def ctl_close_channels_def)
next
  case (proxy_stopped env sv i name names sv')
  show ?case
  proof (cases "ct_proxies (sv_controls sv i) name")
    case None
    with proxy_stopped show ?thesis
      by (intro move_stop_skip [of sv i name names]) (auto simp: stop_proxy_def same_table_def same_rest_def)
  next
    case (Some pxy)
    with proxy_stopped(3) obtain pxy' re where
      c: "proxy_close (ce_now env) pxy (sh_resources (sv_shared sv)) = Ok (pxy', re)"
      and sv': "sv' = sv\<lparr>sv_shared := stat_close env pxy' ((sv_shared sv)\<lparr>sh_resources := re,
          sh_proxies := pxm_del (sp_name pxy') (sh_proxies (sv_shared sv))\<rparr>), sv_phase := (sv_phase sv)(i := Stopping names)\<rparr>"
      by (auto simp: stop_proxy_def end_proxy_def go_then_eq_Ok)
    show ?thesis
      by (rule move_stop_proxy [OF proxy_stopped(2) Some])
        (use c proxy_close_name [OF c] in \<open>simp_all add: sv' stat_close_def pxm_del_def same_table_def\<close>)
  qed
next
  case (stop_ended sv i)
  then show ?case
    by (intro move_stop_end [of sv i]) (auto simp: stop_end_def same_table_def same_rest_def)
next
  case (removed sv i)
  then show ?case
    by (intro move_remove [of sv i]) (auto simp: cm_del_def same_rest_def)
qed

section \<open>Run ids\<close>

lemma same_core_run_id: "same_core (sv_controls sv i) (sv_controls sv' i) \<Longrightarrow> run_id_of sv' i = run_id_of sv i"
  by (simp add: same_core_def run_id_of_def)

lemma ctl_change_login: "ctl_change env confs c sh c' sh' \<Longrightarrow> ct_login c' = ct_login c"
  by (cases rule: ctl_change.cases) (auto simp: same_core_def)

fun waiting :: "ctl_phase \<Rightarrow> bool" where
  "waiting (Waiting old) = True" | "waiting _ = False"

fun active :: "ctl_phase \<Rightarrow> bool" where
  "active Running = True" | "active Leaving = True" | "active (Stopping names) = True" | "active _ = False"

text \<open>
  The controls of a run id are stopped in order: one that is past its wait has only stopped ones
  before it, one that waits for another is the next one after it.
\<close>

definition before_stopped :: "(nat \<Rightarrow> ctl_phase) \<Rightarrow> (nat \<Rightarrow> string) \<Rightarrow> nat \<Rightarrow> bool" where
  "before_stopped ph rid j \<longleftrightarrow> (\<forall>i < j. rid i = rid j \<longrightarrow> ph i = Stopped)"

definition next_after :: "(nat \<Rightarrow> string) \<Rightarrow> nat \<Rightarrow> nat \<Rightarrow> bool" where
  "next_after rid k j \<longleftrightarrow> k < j \<and> rid k = rid j \<and> (\<forall>i. k < i \<longrightarrow> i < j \<longrightarrow> rid i \<noteq> rid j)"

definition newest_in :: "(nat \<Rightarrow> string) \<Rightarrow> nat \<Rightarrow> nat \<Rightarrow> string \<Rightarrow> bool" where
  "newest_in rid n i r \<longleftrightarrow> i < n \<and> rid i = r \<and> (\<forall>j < n. rid j = r \<longrightarrow> j \<le> i)"

definition all_stopped :: "(nat \<Rightarrow> ctl_phase) \<Rightarrow> (nat \<Rightarrow> string) \<Rightarrow> nat \<Rightarrow> string \<Rightarrow> bool" where
  "all_stopped ph rid n r \<longleftrightarrow> (\<forall>j < n. rid j = r \<longrightarrow> ph j = Stopped)"

definition ids_ok :: "(nat \<Rightarrow> ctl_phase) \<Rightarrow> (nat \<Rightarrow> string) \<Rightarrow> (string \<rightharpoonup> nat) \<Rightarrow> nat \<Rightarrow> bool" where
  "ids_ok ph rid tab n \<longleftrightarrow>
     (\<forall>i. ph i = Absent \<longleftrightarrow> n \<le> i) \<and>
     (\<forall>r i. tab r = Some i \<longrightarrow> newest_in rid n i r) \<and>
     (\<forall>r. tab r = None \<longrightarrow> all_stopped ph rid n r) \<and>
     (\<forall>j < n. \<not> waiting (ph j) \<longrightarrow> before_stopped ph rid j) \<and>
     (\<forall>j k. ph j = Waiting (Some k) \<longrightarrow> next_after rid k j) \<and>
     (\<forall>j. ph j = Waiting None \<longrightarrow> before_stopped ph rid j)"

lemma ids_okI:
  assumes "\<And>i. ph i = Absent \<longleftrightarrow> n \<le> i" and "\<And>r i. tab r = Some i \<Longrightarrow> newest_in rid n i r"
    and "\<And>r. tab r = None \<Longrightarrow> all_stopped ph rid n r" and "\<And>j. j < n \<Longrightarrow> \<not> waiting (ph j) \<Longrightarrow> before_stopped ph rid j"
    and "\<And>j k. ph j = Waiting (Some k) \<Longrightarrow> next_after rid k j" and "\<And>j. ph j = Waiting None \<Longrightarrow> before_stopped ph rid j"
  shows "ids_ok ph rid tab n"
  using assms by (simp add: ids_ok_def)

lemma ids_okD:
  assumes "ids_ok ph rid tab n"
  shows "ph i = Absent \<longleftrightarrow> n \<le> i" and "tab r = Some i \<Longrightarrow> newest_in rid n i r"
    and "tab r = None \<Longrightarrow> all_stopped ph rid n r" and "j < n \<Longrightarrow> \<not> waiting (ph j) \<Longrightarrow> before_stopped ph rid j"
    and "ph j = Waiting (Some k) \<Longrightarrow> next_after rid k j" and "ph j = Waiting None \<Longrightarrow> before_stopped ph rid j"
  using assms unfolding ids_ok_def by blast+

lemma before_stopped_mono:
  "before_stopped ph rid j \<Longrightarrow> (\<And>i. ph i = Stopped \<Longrightarrow> ph' i = Stopped) \<Longrightarrow> before_stopped ph' rid j"
  by (simp add: before_stopped_def)

lemma all_stopped_mono:
  "all_stopped ph rid n r \<Longrightarrow> (\<And>i. ph i = Stopped \<Longrightarrow> ph' i = Stopped) \<Longrightarrow> all_stopped ph' rid n r"
  by (simp add: all_stopped_def)

lemma ids_ok_active:
  assumes "ids_ok ph rid tab n" and "active (ph i)" and "active p \<or> p = Stopped"
  shows "ids_ok (ph(i := p)) rid tab n"
proof -
  have st: "(ph(i := p)) j = Stopped" if "ph j = Stopped" for j using that assms(2) by auto
  have w: "\<not> waiting (ph i)" "\<not> waiting p" "ph i \<noteq> Absent" "p \<noteq> Absent"
    using assms(2,3) by (cases "ph i"; cases p; simp)+
  note d = ids_okD [OF assms(1)]
  show ?thesis
  proof (rule ids_okI)
    show "(ph(i := p)) j = Absent \<longleftrightarrow> n \<le> j" for j using d(1) [of i] d(1) [of j] w by auto
    show "tab r = Some j \<Longrightarrow> newest_in rid n j r" for r j by (rule d(2))
    show "tab r = None \<Longrightarrow> all_stopped (ph(i := p)) rid n r" for r by (rule all_stopped_mono [OF d(3) st])
    show "before_stopped (ph(i := p)) rid j" if "j < n" "\<not> waiting ((ph(i := p)) j)" for j
      by (rule before_stopped_mono [OF d(4) st]) (use that w in \<open>auto split: if_split_asm\<close>)
    show "next_after rid k j" if "(ph(i := p)) j = Waiting (Some k)" for j k
      by (rule d(5)) (use that w in \<open>auto split: if_split_asm\<close>)
    show "before_stopped (ph(i := p)) rid j" if "(ph(i := p)) j = Waiting None" for j
      by (rule before_stopped_mono [OF d(6) st]) (use that w in \<open>auto split: if_split_asm\<close>)
  qed
qed

lemma ids_ok_start:
  assumes "ids_ok ph rid tab n" and "ph i = Waiting old" and "\<And>j. old = Some j \<Longrightarrow> ph j = Stopped"
  shows "ids_ok (ph(i := Running)) rid tab n"
proof -
  note d = ids_okD [OF assms(1)]
  have st: "(ph(i := Running)) j = Stopped" if "ph j = Stopped" for j using that assms(2) by auto
  have i: "before_stopped ph rid i"
  proof (cases old)
    case None
    with d(6) assms(2) show ?thesis by blast
  next
    case (Some k)
    with d(5) assms(2) have k: "next_after rid k i" by blast
    have sk: "ph k = Stopped" using assms(3) Some by blast
    have "before_stopped ph rid k"
      using d(4) [of k] d(1) [of k] sk by (simp add: not_le [symmetric])
    with k sk show ?thesis unfolding before_stopped_def next_after_def by (metis nat_neq_iff)
  qed
  show ?thesis
  proof (rule ids_okI)
    show "(ph(i := Running)) j = Absent \<longleftrightarrow> n \<le> j" for j using d(1) [of i] d(1) [of j] assms(2) by auto
    show "tab r = Some j \<Longrightarrow> newest_in rid n j r" for r j by (rule d(2))
    show "tab r = None \<Longrightarrow> all_stopped (ph(i := Running)) rid n r" for r by (rule all_stopped_mono [OF d(3) st])
    show "before_stopped (ph(i := Running)) rid j" if "j < n" "\<not> waiting ((ph(i := Running)) j)" for j
      using i d(4) [of j] that by (intro before_stopped_mono [OF _ st]) (auto split: if_split_asm)
    show "next_after rid k j" if "(ph(i := Running)) j = Waiting (Some k)" for j k
      by (rule d(5)) (use that in \<open>auto split: if_split_asm\<close>)
    show "before_stopped (ph(i := Running)) rid j" if "(ph(i := Running)) j = Waiting None" for j
      by (rule before_stopped_mono [OF d(6) st]) (use that in \<open>auto split: if_split_asm\<close>)
  qed
qed

lemma ids_ok_login:
  assumes "ids_ok ph rid tab n" and "\<And>i. i \<noteq> n \<Longrightarrow> rid' i = rid i" and "rid' n = r"
  shows "ids_ok (ph(n := Waiting (tab r))) rid' (tab(r \<mapsto> n)) (n + 1)"
proof -
  note d = ids_okD [OF assms(1)]
  let ?ph = "ph(n := Waiting (tab r))"
  have st: "?ph j = Stopped" if "ph j = Stopped" for j using that d(1) [of n] by auto
  have old: "before_stopped ?ph rid' j" if "before_stopped ph rid j" "j < n" for j
    using that assms(2) st unfolding before_stopped_def by auto
  have lt: "j < n" if "waiting (ph j)" for j using that d(1) [of j] by (auto simp: not_le [symmetric])
  show ?thesis
  proof (rule ids_okI)
    show "?ph j = Absent \<longleftrightarrow> n + 1 \<le> j" for j using d(1) [of j] by auto
    show "newest_in rid' (n + 1) j r'" if "(tab(r \<mapsto> n)) r' = Some j" for r' j
    proof (cases "r' = r")
      case True
      with that assms(3) show ?thesis by (auto simp: newest_in_def)
    next
      case False
      with that d(2) [of r' j] assms(2,3) show ?thesis by (auto simp: newest_in_def less_Suc_eq)
    qed
    show "all_stopped ?ph rid' (n + 1) r'" if "(tab(r \<mapsto> n)) r' = None" for r'
      using that d(3) [of r'] assms(2,3) by (auto simp: all_stopped_def less_Suc_eq split: if_split_asm)
    show "before_stopped ?ph rid' j" if "j < n + 1" "\<not> waiting (?ph j)" for j
      using that d(4) [of j] by (intro old) (auto split: if_split_asm)
    show "next_after rid' k j" if "?ph j = Waiting (Some k)" for j k
    proof (cases "j = n")
      case True
      with that d(2) [of r k] have "newest_in rid n k r" by simp
      with True assms(2,3) show ?thesis by (auto simp: next_after_def newest_in_def)
    next
      case False
      with that have k: "next_after rid k j" and "j < n" using d(5) [of j k] lt [of j] by simp_all
      with assms(2) show ?thesis unfolding next_after_def by auto
    qed
    show "before_stopped ?ph rid' j" if "?ph j = Waiting None" for j
    proof (cases "j = n")
      case True
      with that d(3) [of r] have "all_stopped ph rid n r" by simp
      with True assms(2,3) show ?thesis by (auto simp: all_stopped_def before_stopped_def)
    next
      case False
      with that show ?thesis using d(6) [of j] lt [of j] by (intro old) simp_all
    qed
  qed
qed

lemma ids_ok_remove:
  assumes "ids_ok ph rid tab n" and "ph i = Stopped"
  shows "ids_ok ph rid (if tab (rid i) = Some i then tab(rid i := None) else tab) n"
proof (cases "tab (rid i) = Some i")
  case True
  note d = ids_okD [OF assms(1)]
  have "all_stopped ph rid n (rid i)"
  proof -
    have "before_stopped ph rid i" using d(4) [of i] d(1) [of i] assms(2) by (simp add: not_le [symmetric])
    moreover have "newest_in rid n i (rid i)" by (rule d(2) [OF True])
    ultimately show ?thesis
      using assms(2) unfolding all_stopped_def before_stopped_def newest_in_def by (metis le_neq_implies_less)
  qed
  with assms(1) True show ?thesis by (simp add: ids_ok_def)
next
  case False
  with assms(1) show ?thesis by simp
qed

definition ids_inv :: "server \<Rightarrow> bool" where
  "ids_inv sv \<longleftrightarrow> ids_ok (sv_phase sv) (run_id_of sv) (sv_by_run_id sv) (sv_next sv)"

lemma ids_inv_new: "ids_inv (new_server v re stats)"
  by (simp add: ids_inv_def new_server_def ids_ok_def all_stopped_def)

lemma same_cores_run_ids: "(\<And>i. same_core (sv_controls sv i) (sv_controls sv' i)) \<Longrightarrow> run_id_of sv' = run_id_of sv"
  by (intro ext same_core_run_id) simp

lemma ids_inv_move:
  assumes "server_move svr sv e sv'" and "ids_inv sv"
  shows "ids_inv sv'"
  using assms(1)
proof cases
  case move_quiet
  with assms(2) same_cores_run_ids [of sv sv'] show ?thesis by (simp add: ids_inv_def same_table_def)
next
  case (move_login r)
  have "run_id_of sv' i = run_id_of sv i" if "i \<noteq> sv_next sv" for i
    using move_login(5) that by (intro same_core_run_id)
  from ids_ok_login [OF assms(2) [unfolded ids_inv_def] this move_login(6)] move_login show ?thesis
    by (simp add: ids_inv_def)
next
  case (move_start i old)
  with ids_ok_start [OF assms(2) [unfolded ids_inv_def]] same_cores_run_ids [of sv sv'] show ?thesis
    by (simp add: ids_inv_def same_table_def)
next
  case (move_manage env i inp)
  have "run_id_of sv' j = run_id_of sv j" for j
    using ctl_change_login [OF move_manage(4)] move_manage(5) by (cases "j = i") (simp_all add: run_id_of_def)
  then have "run_id_of sv' = run_id_of sv" by blast
  with move_manage ids_ok_active [OF assms(2) [unfolded ids_inv_def], of i Leaving] assms(2) show ?thesis
    by (auto simp: ids_inv_def same_table_def)
next
  case (move_stop_begin i names)
  with ids_ok_active [OF assms(2) [unfolded ids_inv_def], of i "Stopping names"] same_cores_run_ids [of sv sv'] show ?thesis
    by (auto simp: ids_inv_def same_table_def)
next
  case (move_stop_proxy i name names pxy env pxy')
  with ids_ok_active [OF assms(2) [unfolded ids_inv_def], of i "Stopping names"] show ?thesis
    by (simp add: ids_inv_def same_table_def run_id_of_def [abs_def])
next
  case (move_stop_skip i name names)
  with ids_ok_active [OF assms(2) [unfolded ids_inv_def], of i "Stopping names"] show ?thesis
    by (simp add: ids_inv_def same_table_def run_id_of_def [abs_def])
next
  case (move_stop_end i)
  with ids_ok_active [OF assms(2) [unfolded ids_inv_def], of i Stopped] show ?thesis
    by (simp add: ids_inv_def same_table_def run_id_of_def [abs_def])
next
  case (move_remove i)
  with ids_ok_remove [OF assms(2) [unfolded ids_inv_def], of i] show ?thesis
    by (simp add: ids_inv_def run_id_of_def [abs_def])
qed

lemma ids_inv_run: "server_run svr ok sv es sv' \<Longrightarrow> ids_inv sv \<Longrightarrow> ids_inv sv'"
  by (induction rule: server_run.induct) (blast intro: ids_inv_move server_step_move)+

text \<open>C1: Two controls of the same run id are never active at once, however logins, replacements and
  shutdowns interleave: a control is started only when every earlier one of its run id has closed
  all its proxies. The table of run ids, through which work connections find their control, has the
  newest one.\<close>

theorem one_active_control:
  assumes "server_run svr ok (new_server v re stats) es sv"
  shows "\<not> (\<exists>i j. i \<noteq> j \<and> run_id_of sv i = run_id_of sv j \<and> active (sv_phase sv i) \<and> active (sv_phase sv j)) \<and>
    \<not> (\<exists>r i j. cm_get_by_id r sv = Some i \<and> active (sv_phase sv j) \<and> run_id_of sv j = r \<and> j > i)"
proof -
  from ids_inv_run [OF assms ids_inv_new] have inv: "ids_ok (sv_phase sv) (run_id_of sv) (sv_by_run_id sv) (sv_next sv)"
    by (simp add: ids_inv_def)
  note d = ids_okD [OF this]
  have lt: "j < sv_next sv" if "active (sv_phase sv j)" for j using that d(1) [of j] by (auto simp: not_le [symmetric])
  have act: "False" if "i < j" "run_id_of sv i = run_id_of sv j" "active (sv_phase sv i)" "active (sv_phase sv j)" for i j
  proof -
    have "\<not> waiting (sv_phase sv j)" using that(4) by (cases "sv_phase sv j") simp_all
    with d(4) [OF lt [OF that(4)]] that(1,2) have "sv_phase sv i = Stopped" by (simp add: before_stopped_def)
    with that(3) show False by simp
  qed
  have new: "False" if "cm_get_by_id r sv = Some i" "active (sv_phase sv j)" "run_id_of sv j = r" "j > i" for r i j
    using d(2) [of r i] lt [OF that(2)] that by (auto simp: cm_get_by_id_def newest_in_def)
  show ?thesis using act new by (metis nat_neq_iff)
qed

section \<open>The table of all proxies\<close>

text \<open>The proxies of a control that are not closed yet.\<close>

fun alive :: "ctl_phase \<Rightarrow> (string \<rightharpoonup> server_proxy) \<Rightarrow> string \<rightharpoonup> server_proxy" where
  "alive Absent pxys = Map.empty"
| "alive (Waiting old) pxys = pxys"
| "alive Running pxys = pxys"
| "alive Leaving pxys = pxys"
| "alive (Stopping names) pxys = pxys |` set names"
| "alive Stopped pxys = Map.empty"

definition live :: "server \<Rightarrow> nat \<Rightarrow> string \<rightharpoonup> server_proxy" where
  "live sv i = alive (sv_phase sv i) (ct_proxies (sv_controls sv i))"

definition proxies_of :: "server \<Rightarrow> string \<rightharpoonup> server_proxy" where
  "proxies_of sv = sh_proxies (sv_shared sv)"

text \<open>Every control stores its proxies under their names; the table is the disjoint union of the live ones.\<close>

definition reg_inv :: "server \<Rightarrow> bool" where
  "reg_inv sv \<longleftrightarrow>
     (\<forall>i n p. ct_proxies (sv_controls sv i) n = Some p \<longrightarrow> sp_name p = n \<and> 0 \<le> sp_used_ports_num p) \<and>
     (\<forall>i n p. live sv i n = Some p \<longrightarrow> proxies_of sv n = Some p) \<and>
     (\<forall>n p. proxies_of sv n = Some p \<longrightarrow> (\<exists>i. live sv i n = Some p)) \<and>
     (\<forall>i j n p q. live sv i n = Some p \<longrightarrow> live sv j n = Some q \<longrightarrow> i = j) \<and>
     (\<forall>i names. sv_phase sv i = Stopping names \<longrightarrow> distinct names)"

lemma reg_invD:
  assumes "reg_inv sv"
  shows "ct_proxies (sv_controls sv i) n = Some p \<Longrightarrow> sp_name p = n" and
    "ct_proxies (sv_controls sv i) n = Some p \<Longrightarrow> 0 \<le> sp_used_ports_num p" and
    "live sv i n = Some p \<Longrightarrow> proxies_of sv n = Some p" and
    "proxies_of sv n = Some p \<Longrightarrow> \<exists>i. live sv i n = Some p" and
    "live sv i n = Some p \<Longrightarrow> live sv j n = Some q \<Longrightarrow> i = j" and
    "sv_phase sv i = Stopping names \<Longrightarrow> distinct names"
  using assms unfolding reg_inv_def by blast+

lemma live_proxies: "live sv i n = Some p \<Longrightarrow> ct_proxies (sv_controls sv i) n = Some p"
  by (cases "sv_phase sv i") (auto simp: live_def restrict_map_def split: if_split_asm)

lemma reg_inv_new: "reg_inv (new_server v re stats)"
  by (simp add: reg_inv_def new_server_def live_def proxies_of_def absent_control_def)

text \<open>A move that changes neither the live proxies nor the table.\<close>

lemma reg_inv_same:
  assumes "reg_inv sv" and "\<And>i. live sv' i = live sv i" and "proxies_of sv' = proxies_of sv"
    and "\<And>i n p. ct_proxies (sv_controls sv' i) n = Some p \<Longrightarrow> ct_proxies (sv_controls sv i) n = Some p"
    and "\<And>i names. sv_phase sv' i = Stopping names \<Longrightarrow> distinct names"
  shows "reg_inv sv'"
proof -
  note d = reg_invD [OF assms(1)]
  show ?thesis
    unfolding reg_inv_def assms(2,3)
    by (intro conjI allI impI; (rule d(1,2,3,5) assms(5) d(4)[THEN exE])?; (assumption | erule assms(4))?) (blast dest: d(4))+
qed

text \<open>A move that adds an entry to one control and to the table.\<close>

lemma reg_inv_add:
  assumes "reg_inv sv" and "live sv' i = (live sv i)(sp_name p \<mapsto> p)" and "\<And>j. j \<noteq> i \<Longrightarrow> live sv' j = live sv j"
    and "proxies_of sv' = (proxies_of sv)(sp_name p \<mapsto> p)" and "proxies_of sv (sp_name p) = None"
    and "ct_proxies (sv_controls sv' i) = (ct_proxies (sv_controls sv i))(sp_name p \<mapsto> p)"
    and "\<And>j. j \<noteq> i \<Longrightarrow> sv_controls sv' j = sv_controls sv j" and "0 \<le> sp_used_ports_num p"
    and "\<And>i names. sv_phase sv' i = Stopping names \<Longrightarrow> distinct names"
  shows "reg_inv sv'"
proof -
  note d = reg_invD [OF assms(1)]
  have new: "live sv j (sp_name p) = None" for j
    using d(3) [of j "sp_name p"] assms(5) by (cases "live sv j (sp_name p)") auto
  have l: "live sv' j n = (if n = sp_name p then (if j = i then Some p else None) else live sv j n)" for j n
    using assms(2,3) new by (cases "j = i") auto
  show ?thesis
    unfolding reg_inv_def
  proof (intro conjI allI impI)
    fix j n q assume q: "ct_proxies (sv_controls sv' j) n = Some q"
    show "sp_name q = n" "0 \<le> sp_used_ports_num q"
      using q d(1,2) [of j n q] assms(6,7,8) by (cases "j = i"; auto split: if_split_asm)+
  next
    fix j n q assume "live sv' j n = Some q"
    then show "proxies_of sv' n = Some q" using d(3) [of j n q] assms(4) by (auto simp: l split: if_split_asm)
  next
    fix n q assume "proxies_of sv' n = Some q"
    then show "\<exists>j. live sv' j n = Some q" using d(4) [of n q] assms(4) by (auto simp: l split: if_split_asm)
  next
    fix j k n q q' assume "live sv' j n = Some q" "live sv' k n = Some q'"
    then show "j = k" using d(5) [of j n q k q'] by (auto simp: l split: if_split_asm)
  next
    fix j names assume "sv_phase sv' j = Stopping names"
    then show "distinct names" by (rule assms(9))
  qed
qed

text \<open>A move that removes an entry from one control and from the table.\<close>

lemma reg_inv_remove:
  assumes "reg_inv sv" and "live sv i n = Some p" and "live sv' i = (live sv i)(n := None)"
    and "\<And>j. j \<noteq> i \<Longrightarrow> live sv' j = live sv j" and "proxies_of sv' = (proxies_of sv)(n := None)"
    and "\<And>j m q. ct_proxies (sv_controls sv' j) m = Some q \<Longrightarrow> ct_proxies (sv_controls sv j) m = Some q"
    and "\<And>i names. sv_phase sv' i = Stopping names \<Longrightarrow> distinct names"
  shows "reg_inv sv'"
proof -
  note d = reg_invD [OF assms(1)]
  have other: "live sv j n = None" if "j \<noteq> i" for j
    using d(5) [of j n _ i p] assms(2) that by (cases "live sv j n") auto
  have l: "live sv' j m = (if m = n then None else live sv j m)" for j m
    using assms(3,4) other by (cases "j = i") auto
  show ?thesis
    unfolding reg_inv_def
  proof (intro conjI allI impI)
    fix j m q assume q: "ct_proxies (sv_controls sv' j) m = Some q"
    show "sp_name q = m" by (rule d(1) [OF assms(6) [OF q]])
    show "0 \<le> sp_used_ports_num q" by (rule d(2) [OF assms(6) [OF q]])
  next
    fix j m q assume "live sv' j m = Some q"
    then show "proxies_of sv' m = Some q" using d(3) [of j m q] assms(5) by (auto simp: l split: if_split_asm)
  next
    fix m q assume "proxies_of sv' m = Some q"
    then show "\<exists>j. live sv' j m = Some q" using d(4) [of m q] assms(5) by (auto simp: l split: if_split_asm)
  next
    fix j k m q q' assume "live sv' j m = Some q" "live sv' k m = Some q'"
    then show "j = k" using d(5) [of j m q k q'] by (auto simp: l split: if_split_asm)
  next
    fix j names assume "sv_phase sv' j = Stopping names"
    then show "distinct names" by (rule assms(7))
  qed
qed

text \<open>A control that is not registered has no proxies to begin with.\<close>

lemma same_core_proxies: "same_core c c' \<Longrightarrow> ct_proxies c' = ct_proxies c"
  by (simp add: same_core_def)

lemma new_proxy_ports: "0 \<le> sp_used_ports_num (new_proxy ui pc conf)"
  by (cases conf) (simp_all add: new_proxy_def)

text \<open>The moves that change the live proxies or the phase of a control.\<close>

lemma reg_inv_login:
  assumes "reg_inv sv" and "ids_inv sv" and "sv_phase sv' = (sv_phase sv)(sv_next sv := Waiting old)"
    and "sv_next sv' = sv_next sv + 1" and "same_rest sv sv'"
    and "\<And>i. i \<noteq> sv_next sv \<Longrightarrow> same_core (sv_controls sv i) (sv_controls sv' i)"
    and "ct_proxies (sv_controls sv' (sv_next sv)) = Map.empty"
  shows "reg_inv sv'"
proof -
  have c: "ct_proxies (sv_controls sv' i) = ct_proxies (sv_controls sv i)" if "i \<noteq> sv_next sv" for i
    using assms(6) [OF that] by (simp add: same_core_proxies)
  have a: "sv_phase sv (sv_next sv) = Absent"
    using ids_okD(1) [OF assms(2) [unfolded ids_inv_def], of "sv_next sv"] by simp
  show ?thesis
  proof (rule reg_inv_same [OF assms(1)])
    show "live sv' i = live sv i" for i
      using assms(3,7) a c [of i] by (cases "i = sv_next sv") (simp_all add: live_def)
    show "ct_proxies (sv_controls sv i) n = Some p" if "ct_proxies (sv_controls sv' i) n = Some p" for i n p
      using that c [of i] assms(7) by (cases "i = sv_next sv") simp_all
    show "distinct names" if "sv_phase sv' i = Stopping names" for i names
      using that assms(3) reg_invD(6) [OF assms(1), of i names] by (simp split: if_split_asm)
  qed (use assms in \<open>simp add: proxies_of_def same_rest_def\<close>)
qed

lemma reg_inv_manage:
  assumes "reg_inv sv" and "sv_phase sv i = Running"
    and "ctl_change env confs (sv_controls sv i) (sv_shared sv) (sv_controls sv' i) (sv_shared sv')"
    and "\<And>j. j \<noteq> i \<Longrightarrow> sv_controls sv' j = sv_controls sv j" and "same_table sv sv'"
    and "sv_phase sv' = sv_phase sv \<or> sv_phase sv' = (sv_phase sv)(i := Leaving)"
  shows "reg_inv sv'"
proof -
  have names: "distinct names" if "sv_phase sv' j = Stopping names" for j names
    using that assms(6) reg_invD(6) [OF assms(1), of j names] by (auto split: if_split_asm)
  have li: "live sv' i = ct_proxies (sv_controls sv' i)" "live sv i = ct_proxies (sv_controls sv i)"
    using assms(2,6) by (auto simp: live_def)
  have lj: "live sv' j = live sv j" if "j \<noteq> i" for j
    using that assms(4,6) by (auto simp: live_def)
  from assms(3) show ?thesis
  proof cases
    case change_none
    then have c: "ct_proxies (sv_controls sv' j) = ct_proxies (sv_controls sv j)" for j
      using assms(4) by (cases "j = i") (simp_all add: same_core_proxies)
    have "live sv' j = live sv j" for j using li lj [of j] c [of i] by (cases "j = i") simp_all
    with names c show ?thesis
      by (intro reg_inv_same [OF assms(1)]) (use change_none(2) in \<open>simp_all add: proxies_of_def\<close>)
  next
    case (change_add conf ui pc pxy a)
    show ?thesis
    proof (rule reg_inv_add [OF assms(1)])
      show "live sv' i = (live sv i)(sp_name pxy \<mapsto> pxy)" using li change_add(6) by simp
      show "0 \<le> sp_used_ports_num pxy"
        using proxy_run_keeps(2) [OF change_add(2)] new_proxy_ports by simp
    qed (use names lj assms(4) change_add in \<open>simp_all add: proxies_of_def\<close>)
  next
    case (change_close name pxy pxy')
    have n: "sp_name pxy = name" by (rule reg_invD(1) [OF assms(1) change_close(1)])
    show ?thesis
    proof (rule reg_inv_remove [OF assms(1)])
      show "live sv i name = Some pxy" using li change_close(1) by simp
      show "live sv' i = (live sv i)(name := None)" using li change_close(5) by simp
      show "ct_proxies (sv_controls sv j) m = Some q" if "ct_proxies (sv_controls sv' j) m = Some q" for j m q
        using that change_close(5) assms(4) [of j] by (cases "j = i") (auto split: if_split_asm)
    qed (use names lj change_close(3) n in \<open>simp_all add: proxies_of_def\<close>)
  qed
qed

lemma reg_inv_stop_begin:
  assumes "reg_inv sv" and "sv_phase sv i = Running \<or> sv_phase sv i = Leaving"
    and "range_of (ct_proxies (sv_controls sv i)) names" and "sv_phase sv' = (sv_phase sv)(i := Stopping names)"
    and "same_rest sv sv'" and "\<And>i. same_core (sv_controls sv i) (sv_controls sv' i)"
  shows "reg_inv sv'"
proof -
  from assms(6) have c: "ct_proxies (sv_controls sv' j) = ct_proxies (sv_controls sv j)" for j by (simp add: same_core_proxies)
  have r: "distinct names" "set names = dom (ct_proxies (sv_controls sv i))"
    using assms(3) by (simp_all add: range_of_def)
  have "ct_proxies (sv_controls sv i) |` set names = ct_proxies (sv_controls sv i)"
    unfolding r(2) by (auto simp: restrict_map_def fun_eq_iff domIff)
  then have "live sv' j = live sv j" for j
    using assms(2,4) c by (cases "j = i") (auto simp: live_def)
  then show ?thesis
    by (rule reg_inv_same [OF assms(1)])
      (use assms r(1) c reg_invD(6) [OF assms(1)] in \<open>auto simp: proxies_of_def same_rest_def split: if_split_asm\<close>)
qed

lemma reg_inv_stop_proxy:
  assumes "reg_inv sv" and "sv_phase sv i = Stopping (name # names)" and "ct_proxies (sv_controls sv i) name = Some pxy"
    and "sh_proxies (sv_shared sv') = (sh_proxies (sv_shared sv))(sp_name pxy := None)"
    and "sv_phase sv' = (sv_phase sv)(i := Stopping names)" and "sv_controls sv' = sv_controls sv"
  shows "reg_inv sv'"
proof -
  have n: "sp_name pxy = name" by (rule reg_invD(1) [OF assms(1) assms(3)])
  have d: "name \<notin> set names" "distinct names" using reg_invD(6) [OF assms(1) assms(2)] by simp_all
  show ?thesis
  proof (rule reg_inv_remove [OF assms(1)])
    show "live sv i name = Some pxy" using assms(2,3) by (simp add: live_def)
    show "live sv' i = (live sv i)(name := None)"
      using assms(2,5,6) d by (auto simp: live_def restrict_map_def fun_eq_iff)
    show "live sv' j = live sv j" if "j \<noteq> i" for j using that assms(5,6) by (simp add: live_def)
    show "distinct ns" if "sv_phase sv' j = Stopping ns" for j ns
      using that assms(5) d reg_invD(6) [OF assms(1), of j ns] by (auto split: if_split_asm)
  qed (use assms n in \<open>simp_all add: proxies_of_def\<close>)
qed

lemma reg_inv_move:
  assumes "server_move svr sv e sv'" and "reg_inv sv" and "ids_inv sv"
  shows "reg_inv sv'"
  using assms(1)
proof cases
  case move_quiet
  then have c: "ct_proxies (sv_controls sv' i) = ct_proxies (sv_controls sv i)" for i by (simp add: same_core_proxies)
  show ?thesis
    by (rule reg_inv_same [OF assms(2)])
      (use move_quiet c reg_invD(6) [OF assms(2)] in \<open>simp_all add: live_def proxies_of_def same_rest_def\<close>)
next
  case (move_login r)
  then show ?thesis by (intro reg_inv_login [OF assms(2,3)])
next
  case (move_start i old)
  then have c: "ct_proxies (sv_controls sv' j) = ct_proxies (sv_controls sv j)" for j by (simp add: same_core_proxies)
  show ?thesis
    by (rule reg_inv_same [OF assms(2)])
      (use move_start c reg_invD(6) [OF assms(2)] in \<open>auto simp: live_def proxies_of_def same_rest_def split: if_split_asm\<close>)
next
  case (move_manage env i inp)
  then show ?thesis by (intro reg_inv_manage [OF assms(2)])
next
  case (move_stop_begin i names)
  then show ?thesis by (intro reg_inv_stop_begin [OF assms(2)])
next
  case (move_stop_proxy i name names pxy env pxy')
  then show ?thesis by (intro reg_inv_stop_proxy [OF assms(2)])
next
  case (move_stop_skip i name names)
  have d: "distinct names" using reg_invD(6) [OF assms(2) move_stop_skip(1)] by simp
  have "live sv' j = live sv j" for j
    using move_stop_skip(1,2,3,6) by (cases "j = i") (auto simp: live_def restrict_map_def fun_eq_iff)
  then show ?thesis
    by (rule reg_inv_same [OF assms(2)])
      (use move_stop_skip d reg_invD(6) [OF assms(2)] in \<open>auto simp: proxies_of_def same_rest_def split: if_split_asm\<close>)
next
  case (move_stop_end i)
  have "live sv' j = live sv j" for j
    using move_stop_end(1,2,5) by (cases "j = i") (auto simp: live_def restrict_map_def fun_eq_iff)
  then show ?thesis
    by (rule reg_inv_same [OF assms(2)])
      (use move_stop_end reg_invD(6) [OF assms(2)] in \<open>auto simp: proxies_of_def same_rest_def split: if_split_asm\<close>)
next
  case (move_remove i)
  show ?thesis
    by (rule reg_inv_same [OF assms(2)])
      (use move_remove reg_invD(6) [OF assms(2)] in \<open>simp_all add: live_def proxies_of_def same_rest_def\<close>)
qed

lemma reg_inv_run: "server_run svr ok sv es sv' \<Longrightarrow> reg_inv sv \<Longrightarrow> ids_inv sv \<Longrightarrow> reg_inv sv'"
  by (induction rule: server_run.induct) (blast intro: reg_inv_move server_step_move ids_inv_run)+

text \<open>C2: At every moment the table of all proxies is the disjoint union of the clients' tables: a name is in
  it exactly when one control has a proxy of that name that is not closed yet, with that proxy, and
  no two controls have proxies of the same name.\<close>

theorem proxy_names_unique:
  assumes "server_run svr ok (new_server v re stats) es sv"
  shows "pxm_get_by_name n (sh_proxies (sv_shared sv)) = Some p \<longleftrightarrow>
    (\<exists>!i. live sv i n \<noteq> None) \<and> (\<exists>i. live sv i n = Some p \<and> sp_name p = n)"
proof -
  have "reg_inv sv" by (rule reg_inv_run [OF assms reg_inv_new ids_inv_new])
  note d = reg_invD [OF this]
  show ?thesis
  proof
    assume "pxm_get_by_name n (sh_proxies (sv_shared sv)) = Some p"
    then obtain i where i: "live sv i n = Some p" using d(4) [of n p] by (auto simp: pxm_get_by_name_def proxies_of_def)
    have "sp_name p = n" by (rule d(1) [OF live_proxies [OF i]])
    moreover have "\<exists>!i. live sv i n \<noteq> None"
    proof (rule ex1I [of _ i])
      show "live sv i n \<noteq> None" using i by simp
      show "j = i" if "live sv j n \<noteq> None" for j
      proof -
        from that obtain q where "live sv j n = Some q" by blast
        from d(5) [OF this i] show "j = i" .
      qed
    qed
    ultimately show "(\<exists>!i. live sv i n \<noteq> None) \<and> (\<exists>i. live sv i n = Some p \<and> sp_name p = n)" using i by blast
  next
    assume "(\<exists>!i. live sv i n \<noteq> None) \<and> (\<exists>i. live sv i n = Some p \<and> sp_name p = n)"
    then obtain i where "live sv i n = Some p" by blast
    from d(3) [OF this] show "pxm_get_by_name n (sh_proxies (sv_shared sv)) = Some p"
      by (simp add: pxm_get_by_name_def proxies_of_def)
  qed
qed

section \<open>The ports of a client\<close>

text \<open>The ports that the proxies of a table use.\<close>

definition ports_sum :: "(string \<rightharpoonup> server_proxy) \<Rightarrow> int" where
  "ports_sum pxys = (\<Sum>n \<in> dom pxys. sp_used_ports_num (the (pxys n)))"

lemma ports_sum_empty [simp]: "ports_sum Map.empty = 0"
  by (simp add: ports_sum_def)

lemma ports_sum_add:
  assumes "finite (dom m)" and "m n = None"
  shows "ports_sum (m(n \<mapsto> p)) = ports_sum m + sp_used_ports_num p"
proof -
  have "(\<Sum>k \<in> dom m. sp_used_ports_num (the ((m(n \<mapsto> p)) k))) = ports_sum m"
    unfolding ports_sum_def using assms(2) by (intro sum.cong) auto
  with assms show ?thesis by (simp add: ports_sum_def domIff)
qed

lemma ports_sum_del:
  assumes "finite (dom m)" and "m n = Some p"
  shows "ports_sum (m(n := None)) = ports_sum m - sp_used_ports_num p"
proof -
  have "m = (m(n := None))(n \<mapsto> p)" using assms(2) by auto
  with ports_sum_add [of "m(n := None)" n p] assms(1) show ?thesis by simp
qed

definition within :: "server_common_conf \<Rightarrow> control \<Rightarrow> bool" where
  "within svr c \<longleftrightarrow> finite (dom (ct_proxies c)) \<and>
     (0 < sc_max_ports_per_client svr \<longrightarrow>
        ct_ports_used c = ports_sum (ct_proxies c) \<and> ports_sum (ct_proxies c) \<le> sc_max_ports_per_client svr)"

definition limit_inv :: "server_common_conf \<Rightarrow> server \<Rightarrow> bool" where
  "limit_inv svr sv \<longleftrightarrow> (\<forall>i. within svr (sv_controls sv i))"

lemma within_same: "same_core c c' \<Longrightarrow> within svr c' \<longleftrightarrow> within svr c"
  by (simp add: within_def same_core_def)

lemma ctl_change_within:
  assumes "ctl_change env confs c sh c' sh'" and "ce_svr env = svr" and "within svr c"
    and "\<And>n p. ct_proxies c n = Some p \<Longrightarrow> sh_proxies sh n = Some p \<and> 0 \<le> sp_used_ports_num p"
  shows "within svr c'"
  using assms(1)
proof cases
  case change_none
  with assms(3) show ?thesis by (simp add: within_same)
next
  case (change_add conf ui pc pxy a)
  have "ct_proxies c (sp_name pxy) = None"
    using assms(4) [of "sp_name pxy"] change_add(3) by (cases "ct_proxies c (sp_name pxy)") auto
  with ports_sum_add [of "ct_proxies c" "sp_name pxy" pxy] assms(2,3) change_add(6,7) show ?thesis
    by (auto simp: within_def)
next
  case (change_close name pxy pxy')
  have "0 \<le> sp_used_ports_num pxy" using assms(4) [OF change_close(1)] by simp
  with ports_sum_del [of "ct_proxies c" name pxy] assms(2,3) change_close show ?thesis
    by (auto simp: within_def)
qed

lemma limit_inv_move:
  assumes "server_move svr sv e sv'" and "limit_inv svr sv" and "reg_inv sv"
  shows "limit_inv svr sv'"
proof -
  have "within svr (sv_controls sv' i)" if w: "within svr (sv_controls sv i)" for i
    using assms(1)
  proof cases
    case (move_login r)
    show ?thesis
    proof (cases "i = sv_next sv")
      case True
      with move_login(7,8) show ?thesis by (simp add: within_def)
    next
      case False
      from within_same [OF move_login(5) [OF this]] w show ?thesis by simp
    qed
  next
    case (move_manage env j inp)
    show ?thesis
    proof (cases "i = j")
      case True
      have "live sv i = ct_proxies (sv_controls sv i)" using move_manage(3) True by (simp add: live_def)
      then have sub: "sh_proxies (sv_shared sv) n = Some p \<and> 0 \<le> sp_used_ports_num p"
        if "ct_proxies (sv_controls sv i) n = Some p" for n p
        using that reg_invD(2,3) [OF assms(3), of i n p] by (simp add: proxies_of_def)
      from ctl_change_within [OF move_manage(4,2)] w sub True show ?thesis by simp
    next
      case False
      with move_manage(5) w show ?thesis by simp
    qed
  next
    case move_quiet
    with within_same w show ?thesis by blast
  next
    case (move_start j old)
    with within_same w show ?thesis by blast
  next
    case (move_stop_begin j names)
    with within_same w show ?thesis by blast
  qed (use w in simp_all)
  with assms(2) show ?thesis by (simp add: limit_inv_def)
qed

lemma limit_inv_run:
  "server_run svr ok sv es sv' \<Longrightarrow> limit_inv svr sv \<Longrightarrow> reg_inv sv \<Longrightarrow> ids_inv sv \<Longrightarrow> limit_inv svr sv'"
  by (induction rule: server_run.induct) (blast intro: limit_inv_move server_step_move ids_inv_run reg_inv_run)+

text \<open>C4: With a limit set, the counter of every control is the number of ports its proxies use and does not
  exceed the limit: proxies that failed to run, whose name was taken or that were closed do not count.\<close>

theorem client_ports_limited:
  assumes "server_run svr ok (new_server v re stats) es sv"
    and "0 < sc_max_ports_per_client svr"
  shows "ct_ports_used (sv_controls sv i) = ports_sum (ct_proxies (sv_controls sv i)) \<and>
    ct_ports_used (sv_controls sv i) \<le> sc_max_ports_per_client svr"
proof -
  have "limit_inv svr (new_server v re stats)"
    using assms(2) by (simp add: limit_inv_def within_def new_server_def absent_control_def)
  then have "limit_inv svr sv" using limit_inv_run [OF assms(1)] reg_inv_new ids_inv_new by blast
  then have "within svr (sv_controls sv i)" by (simp add: limit_inv_def)
  with assms(2) show ?thesis by (auto simp: within_def)
qed

section \<open>Refused and accepted connections\<close>

lemma verify_login_failed: "verify_login env v m = (v', Some e) \<Longrightarrow> v' = v"
  by (cases v) (auto simp: oidc_verify_login_def split: prod.split_asm sum.split_asm)

lemma register_control_refused:
  assumes "register_control env rand m sv = Ok (sv', Some e)"
  shows "sv' = sv"
proof -
  obtain ok msg where c: "compat (lg_version m) = (ok, msg)" by (cases "compat (lg_version m)")
  show ?thesis
  proof (cases "if lg_run_id m = [] then rand else Some (lg_run_id m)")
    case None
    with assms show ?thesis by (simp add: register_control_def)
  next
    case (Some r)
    obtain v err where v: "verify_login (ce_auth env) (sv_verifier sv) (m\<lparr>lg_run_id := r\<rparr>) = (v, err)"
      by (cases "verify_login (ce_auth env) (sv_verifier sv) (m\<lparr>lg_run_id := r\<rparr>)")
    show ?thesis
    proof (cases err)
      case None
      with assms Some c v show ?thesis
        by (cases "new_control (ce_svr env) (ce_now env) (m\<lparr>lg_run_id := r\<rparr>)")
          (auto simp: register_control_def Let_def split: prod.split_asm if_split_asm)
    next
      case (Some e')
      with assms \<open>(if _ then _ else _) = Some r\<close> c v verify_login_failed [of "ce_auth env" "sv_verifier sv" "m\<lparr>lg_run_id := r\<rparr>"] show ?thesis
        by (auto simp: register_control_def Let_def split: if_split_asm)
    qed
  qed
qed

lemma register_work_conn_refused:
  assumes "register_work_conn env conn m sv = Ok (sv', ms, Some e)"
  shows "sv' = sv"
  using assms
  by (auto simp: register_work_conn_def Let_def ctl_register_work_conn_def
      split: option.split_asm go.split_asm if_split_asm)

lemma register_visitor_conn_refused:
  assumes "register_visitor_conn env conn m sv = (sv', Some e)"
  shows "sv' = sv"
  using assms
  by (auto simp: register_visitor_conn_def vm_new_conn_def cl_put_conn_def Let_def
      split: option.split_asm prod.split_asm if_split_asm)

text \<open>A connection that the service closes, because the message could not be read, is of another kind,
  or was refused by the plugins, the version check, the authentication, a missing control, a full
  pool or the visitor manager, leaves the server exactly as it was.\<close>

theorem refused_connection_unchanged:
  assumes "handle_connection env rand conn m sv = Ok (sv', ms, True)"
  shows "sv' = sv"
proof (cases m)
  case None
  with assms show ?thesis by (simp add: handle_connection_def)
next
  case (Some x)
  show ?thesis
  proof (cases x)
    case (MLogin lg)
    show ?thesis
    proof (cases "pl_do_login (ce_peer env) (ce_plugins env) lg")
      case (Ok lg')
      with assms Some MLogin obtain e where "register_control env rand lg' sv = Ok (sv', Some e)"
        by (cases "register_control env rand lg' sv") (auto simp: handle_connection_def Let_def split: prod.split_asm option.split_asm)
      then show ?thesis by (rule register_control_refused)
    qed (use assms Some MLogin in \<open>simp_all add: handle_connection_def Let_def\<close>)
  next
    case (MNewWorkConn w)
    with assms Some obtain e where "register_work_conn env conn w sv = Ok (sv', ms, Some e)"
      by (cases "register_work_conn env conn w sv") (auto simp: handle_connection_def Let_def)
    then show ?thesis by (rule register_work_conn_refused)
  next
    case (MNewVisitorConn w)
    with assms Some obtain e where "register_visitor_conn env conn w sv = (sv', Some e)"
      by (cases "register_visitor_conn env conn w sv") (auto simp: handle_connection_def Let_def)
    then show ?thesis by (rule register_visitor_conn_refused)
  qed (use assms Some in \<open>simp_all add: handle_connection_def Let_def\<close>)
qed


end
