(* ===== verification/Service_Ports.thy ===== *)
theory Service_Ports
  imports Service_Laws
begin

text \<open>
  The ports of a running server: the TCP and UDP ports that the managers count as used are exactly
  those of the registered proxies. The lemmas follow a port from \<^verbatim>\<open>Acquire\<close> in \<^verbatim>\<open>Run\<close> through the table
  of proxies to \<^verbatim>\<open>Release\<close> in \<^verbatim>\<open>Close\<close>, for servers without TCP groups.
\<close>

section \<open>Which ports are in use\<close>

definition tcp_port_of :: "server_proxy \<Rightarrow> int option" where
  "tcp_port_of p = (case sp_conf p of TCPConf c \<Rightarrow> Some (sp_real_port p) | _ \<Rightarrow> None)"

definition udp_port_of :: "server_proxy \<Rightarrow> int option" where
  "udp_port_of p = (case sp_conf p of UDPConf c \<Rightarrow> Some (sp_real_port p) | _ \<Rightarrow> None)"

fun groupless :: "proxy_conf \<Rightarrow> bool" where
  "groupless (TCPConf c) \<longleftrightarrow> bp_group (tc_base c) = []"
| "groupless _ \<longleftrightarrow> True"

fun port_listener :: "proxy_listener \<Rightarrow> bool" where
  "port_listener (TcpGroupListener r ln) = True"
| "port_listener _ = False"

text \<open>A proxy that is in no TCP group and holds no listener of one.\<close>

definition own_ports :: "server_proxy \<Rightarrow> bool" where
  "own_ports p \<longleftrightarrow> groupless (sp_conf p) \<and> (\<forall>l \<in> set (sp_listeners p). \<not> port_listener l)"

abbreviation tcp_of :: "resources \<Rightarrow> port_mgr" where "tcp_of \<equiv> re_tcp_ports"
abbreviation udp_of :: "resources \<Rightarrow> port_mgr" where "udp_of \<equiv> re_udp_ports"

lemma listener_close_ports:
  assumes "listener_close_in now l re = Ok re'" and "\<not> port_listener l"
  shows "tcp_of re' = tcp_of re \<and> udp_of re' = udp_of re"
  using assms by (cases l) (auto simp: go_then_eq_Ok re_tcp_ports_def)

lemma close_listeners_ports:
  assumes "close_listeners now ls re = Ok re'" and "\<forall>l \<in> set ls. \<not> port_listener l"
  shows "tcp_of re' = tcp_of re \<and> udp_of re' = udp_of re"
  using assms
proof (induction ls arbitrary: re)
  case (Cons l ls)
  then obtain re1 where r: "listener_close_in now l re = Ok re1" "close_listeners now ls re1 = Ok re'"
    by (auto simp: go_then_eq_Ok)
  from listener_close_ports [OF r(1)] Cons.IH [OF r(2)] Cons.prems(2) show ?case by simp
qed simp

definition release_opt :: "int \<Rightarrow> int option \<Rightarrow> port_mgr \<Rightarrow> port_mgr" where
  "release_opt now p pm = (case p of None \<Rightarrow> pm | Some p \<Rightarrow> release now p pm)"

lemma proxy_close_ports:
  assumes "proxy_close now p re = Ok (p', re')" and "own_ports p" and "\<not> sp_is_closed p"
  shows "tcp_of re' = release_opt now (tcp_port_of p) (tcp_of re) \<and>
    udp_of re' = release_opt now (udp_port_of p) (udp_of re)"
proof -
  have base: "tcp_of re1 = tcp_of re \<and> udp_of re1 = udp_of re" if "base_close now p re = Ok re1" for re1
    using close_listeners_ports [of now "sp_listeners p" re re1] that assms(2) by (simp add: base_close_def own_ports_def)
  show ?thesis
    using assms base
    by (cases "sp_conf p")
      (auto simp: proxy_close.simps go_then_eq_Ok tcp_close_def udp_close_def http_close_def visitor_close_def xtcp_close_def
        release_opt_def tcp_port_of_def udp_port_of_def own_ports_def release_tcp_def release_udp_def re_tcp_ports_def
        split: option.split_asm)
qed

text \<open>Running: what the two managers become.\<close>

definition taken_opt :: "int option \<Rightarrow> port_mgr \<Rightarrow> port_mgr \<Rightarrow> bool" where
  "taken_opt p pm pm' \<longleftrightarrow>
     (case p of None \<Rightarrow> dom (pm_used pm') = dom (pm_used pm)
      | Some p \<Rightarrow> p \<notin> dom (pm_used pm) \<and> dom (pm_used pm') = insert p (dom (pm_used pm)))"

lemma taken_opt_None_refl [simp]: "taken_opt None pm pm"
  by (simp add: taken_opt_def)

lemma acquire_taken:
  assumes "pm_inv allow pm" and "honest_env env pm" and "0 \<notin> allowed_ports allow"
    and "acquire (ge_avail env) (ge_range env) now name port pm = (pm', p, e)"
  shows "pm_inv allow pm' \<and> taken_opt (if e = None then Some p else None) pm pm'"
proof -
  have "set (ge_range env) = pm_free pm" using assms(2) by (simp add: honest_env_def)
  from acquire_inv [OF assms(1) this assms(4)] have "pm_inv allow pm'" .
  with acquire_outcome [OF assms] acquire_granted [OF assms(1)] show ?thesis by (auto simp: taken_opt_def)
qed

lemma release_taken:
  assumes "pm_inv allow pm'" and "taken_opt (Some p) pm pm'"
  shows "pm_inv allow (release t p pm') \<and> taken_opt None pm (release t p pm')"
  using assms pp.rel_inv [OF assms(1)] pp.rel_used [OF assms(1)] by (auto simp: taken_opt_def)

text \<open>The managers before and after, and what the proxy holds.\<close>

definition ran_ports :: "int set \<Rightarrow> int set \<Rightarrow> resources \<Rightarrow> resources \<Rightarrow> int option \<Rightarrow> int option \<Rightarrow> bool" where
  "ran_ports at au re re' pt pu \<longleftrightarrow>
     pm_inv at (tcp_of re') \<and> pm_inv au (udp_of re') \<and>
     taken_opt pt (tcp_of re) (tcp_of re') \<and> taken_opt pu (udp_of re) (udp_of re')"

lemma ran_ports_same:
  "pm_inv at (tcp_of re) \<Longrightarrow> pm_inv au (udp_of re) \<Longrightarrow> tcp_of re' = tcp_of re \<Longrightarrow> udp_of re' = udp_of re \<Longrightarrow>
   ran_ports at au re re' None None"
  by (simp add: ran_ports_def)


lemma tcp_run_ports:
  assumes "pm_inv at (tcp_of re)" and "pm_inv au (udp_of re)" and "honest_env (ru_tcp env) (tcp_of re)"
    and "0 \<notin> allowed_ports at" and "bp_group (tc_base c) = []" and "sp_listeners pxy = []"
    and "tcp_run env svr c re pxy = (re', pxy', r)" and "\<not> sp_is_closed pxy"
  shows "case r of Inl e \<Rightarrow> ran_ports at au re re' None None
    | Inr a \<Rightarrow> own_ports pxy' \<and> \<not> sp_is_closed pxy' \<and> tcp_port_of pxy' = Some (sp_real_port pxy') \<and> udp_port_of pxy' = None \<and>
        ran_ports at au re re' (Some (sp_real_port pxy')) None"
proof -
  obtain pm p e where a: "acquire (ge_avail (ru_tcp env)) (ge_range (ru_tcp env)) (ge_now (ru_tcp env)) (sp_name pxy)
      (tc_remote_port c) (tcp_of re) = (pm, p, e)"
    by (metis prod_cases3)
  note t = acquire_taken [OF assms(1,3,4) a]
  show ?thesis
  proof (cases e)
    case (Some x)
    with t a assms show ?thesis
      by (auto simp: tcp_run_def Let_def ran_ports_def re_tcp_ports_def)
  next
    case None
    with release_taken [of at pm p "tcp_of re" "ge_now (ru_tcp env)"] t a assms show ?thesis
      by (auto simp: tcp_run_def Let_def ran_ports_def re_tcp_ports_def release_tcp_def own_ports_def tcp_port_of_def
          udp_port_of_def split: if_split_asm)
  qed
qed

lemma udp_run_ports:
  assumes "pm_inv at (tcp_of re)" and "pm_inv au (udp_of re)" and "honest_env (ru_udp env) (udp_of re)"
    and "0 \<notin> allowed_ports au" and "sp_listeners pxy = []" and "sp_conf pxy = UDPConf c"
    and "udp_run env svr c re pxy = (re', pxy', r)" and "\<not> sp_is_closed pxy"
  shows "case r of Inl e \<Rightarrow> ran_ports at au re re' None None
    | Inr a \<Rightarrow> own_ports pxy' \<and> \<not> sp_is_closed pxy' \<and> tcp_port_of pxy' = None \<and> udp_port_of pxy' = Some (sp_real_port pxy') \<and>
        ran_ports at au re re' None (Some (sp_real_port pxy'))"
proof -
  obtain pm p e where a: "acquire (ge_avail (ru_udp env)) (ge_range (ru_udp env)) (ge_now (ru_udp env)) (sp_name pxy)
      (ud_remote_port c) (udp_of re) = (pm, p, e)"
    by (metis prod_cases3)
  note t = acquire_taken [OF assms(2,3,4) a]
  show ?thesis
  proof (cases e)
    case (Some x)
    with t a assms show ?thesis
      by (auto simp: udp_run_def Let_def ran_ports_def re_tcp_ports_def)
  next
    case None
    with release_taken [of au pm p "udp_of re" "ge_now (ru_udp env)"] t a assms show ?thesis
      by (auto simp: udp_run_def Let_def ran_ports_def re_tcp_ports_def release_udp_def own_ports_def tcp_port_of_def
          udp_port_of_def split: if_split_asm)
  qed
qed

lemma https_listeners:
  "https_listen_all ds v ls = (v', ls', e) \<Longrightarrow> \<forall>l \<in> set ls. \<not> port_listener l \<Longrightarrow> \<forall>l \<in> set ls'. \<not> port_listener l"
proof (induction ds arbitrary: v ls)
  case (Cons d ds)
  obtain v1 r where l: "mux_listen (domain_route d) v = (v1, r)" by (cases "mux_listen (domain_route d) v")
  show ?case
  proof (cases r)
    case None
    with Cons.prems l show ?thesis by simp
  next
    case (Some x)
    with Cons.prems(1) l have "https_listen_all ds v1 (ls @ [HttpsListener x]) = (v', ls', e)" by simp
    then show ?thesis by (rule Cons.IH) (use Cons.prems(2) in simp)
  qed
qed simp

lemma mux_listeners:
  "http_connect_run cfg ds g ls = (g', ls', e) \<Longrightarrow> \<forall>l \<in> set ls. \<not> port_listener l \<Longrightarrow> \<forall>l \<in> set ls'. \<not> port_listener l"
proof (induction ds arbitrary: g ls)
  case (Cons d ds)
  obtain g1 r where l: "http_connect_listen cfg d g = (g1, r)" by (cases "http_connect_listen cfg d g")
  show ?case
  proof (cases r)
    case (Inl e)
    with Cons.prems l show ?thesis by simp
  next
    case (Inr x)
    from l Inr have "\<not> port_listener x"
      by (auto simp: http_connect_listen_def split: if_split_asm prod.split_asm sum.split_asm option.split_asm)
    have "http_connect_run cfg ds g1 (ls @ [x]) = (g', ls', e)" using Cons.prems(1) l Inr by simp
    then show ?thesis by (rule Cons.IH) (use Cons.prems(2) \<open>\<not> port_listener x\<close> in simp)
  qed
qed simp

text \<open>Running and closing in one: what \<open>run_or_close\<close> leaves of the port managers.\<close>

lemma run_or_close_ports:
  assumes "run_or_close close re1 pxy1 r1 = Some (re', pxy', r)" and "tcp_of re1 = tcp_of re" and "udp_of re1 = udp_of re"
    and "\<And>re'. close pxy1 re1 = Ok re' \<Longrightarrow> tcp_of re' = tcp_of re1 \<and> udp_of re' = udp_of re1"
  shows "tcp_of re' = tcp_of re \<and> udp_of re' = udp_of re \<and> pxy' = pxy1"
  using run_or_close_cases [OF assms(1)] assms(2-4) by (cases r1) auto

lemma base_close_ports:
  "base_close now p re = Ok re' \<Longrightarrow> \<forall>l \<in> set (sp_listeners p). \<not> port_listener l \<Longrightarrow> tcp_of re' = tcp_of re \<and> udp_of re' = udp_of re"
  unfolding base_close_def by (rule close_listeners_ports)

lemma other_run_ports:
  assumes "proxy_run env svr re pxy = Some (re', pxy', r)" and "sp_listeners pxy = []"
    and "\<And>c. sp_conf pxy \<noteq> TCPConf c" and "\<And>c. sp_conf pxy \<noteq> UDPConf c"
  shows "tcp_of re' = tcp_of re \<and> udp_of re' = udp_of re \<and> sp_conf pxy' = sp_conf pxy \<and>
    sp_is_closed pxy' = sp_is_closed pxy \<and> (\<forall>l \<in> set (sp_listeners pxy'). \<not> port_listener l)"
proof (cases "sp_conf pxy")
  case (HTTPConf c)
  obtain h fs e where h: "http_register_all c (sp_name pxy)
      (List.product (route_domains svr (ht_domain c)) (http_locations c)) (re_http_groups re) (sp_close_funcs pxy) = (h, fs, e)"
    by (metis prod_cases3)
  let ?re = "re\<lparr>re_http_groups := h\<rparr>" and ?pxy = "pxy\<lparr>sp_close_funcs := fs\<rparr>"
  from assms(1) HTTPConf h obtain r1 where
    run: "run_or_close (http_close (ge_now (ru_tcp env)) c) ?re ?pxy r1 = Some (re', pxy', r)"
    by (auto simp: proxy_run.simps http_run_def Let_def)
  have "tcp_of re1 = tcp_of ?re \<and> udp_of re1 = udp_of ?re" if "http_close (ge_now (ru_tcp env)) c ?pxy ?re = Ok re1" for re1
    using that assms(2) by (auto simp: http_close_def base_close_def re_tcp_ports_def)
  from run_or_close_ports [OF run _ _ this, of re] assms(2) show ?thesis by (simp add: re_tcp_ports_def)
next
  case (HTTPSConf c)
  obtain v ls e where l: "https_listen_all (route_domains svr (hs_domain c)) (re_https_muxer re) (sp_listeners pxy) = (v, ls, e)"
    by (metis prod_cases3)
  let ?re = "re\<lparr>re_https_muxer := v\<rparr>" and ?pxy = "pxy\<lparr>sp_listeners := ls\<rparr>"
  from assms(1) HTTPSConf l obtain r1 where
    run: "run_or_close (base_close (ge_now (ru_tcp env))) ?re ?pxy r1 = Some (re', pxy', r)"
    by (auto simp: proxy_run.simps https_run_def Let_def)
  have ls: "\<forall>l \<in> set (sp_listeners ?pxy). \<not> port_listener l" using https_listeners [OF l] assms(2) by simp
  from run_or_close_ports [OF run _ _ base_close_ports [OF _ this], of re] ls show ?thesis by (simp add: re_tcp_ports_def)
next
  case (TCPMuxConf c)
  obtain g ls e where l: "(if mx_multiplexer c = HTTPConnectTCPMultiplexer
      then http_connect_run c (route_domains svr (mx_domain c)) (re_tcpmux_groups re) (sp_listeners pxy)
      else (re_tcpmux_groups re, sp_listeners pxy, Some (RunMultiplexer (mx_multiplexer c)))) = (g, ls, e)"
    by (metis prod_cases3)
  let ?re = "re\<lparr>re_tcpmux_groups := g\<rparr>" and ?pxy = "pxy\<lparr>sp_listeners := ls\<rparr>"
  from assms(1) TCPMuxConf have "tcpmux_run env svr c re pxy = Some (re', pxy', r)" by (simp add: proxy_run.simps)
  then obtain r1 where
    run: "run_or_close (base_close (ge_now (ru_tcp env))) ?re ?pxy r1 = Some (re', pxy', r)"
    unfolding tcpmux_run_def Let_def l by auto
  have ls: "\<forall>l \<in> set (sp_listeners ?pxy). \<not> port_listener l"
    using mux_listeners [of c "route_domains svr (mx_domain c)" "re_tcpmux_groups re" "sp_listeners pxy" g ls e] l assms(2)
    by (auto split: if_split_asm)
  from run_or_close_ports [OF run _ _ base_close_ports [OF _ this], of re] ls show ?thesis by (simp add: re_tcp_ports_def)
qed (use assms in \<open>auto simp: proxy_run.simps visitor_run_def xtcp_run_def re_tcp_ports_def
      split: prod.split_asm sum.split_asm option.split_asm\<close>)

text \<open>What is assumed of the environment of a registration.\<close>

definition ports_env :: "int set \<Rightarrow> int set \<Rightarrow> ctl_env \<Rightarrow> proxy_conf set \<Rightarrow> resources \<Rightarrow> bool" where
  "ports_env at au env confs re \<longleftrightarrow>
     honest_env (ru_tcp (ce_run env)) (tcp_of re) \<and> honest_env (ru_udp (ce_run env)) (udp_of re) \<and>
     0 \<notin> allowed_ports at \<and> 0 \<notin> allowed_ports au \<and> (\<forall>conf \<in> confs. groupless conf)"

lemma proxy_run_ports:
  assumes "proxy_run (ce_run env) svr re (new_proxy ui pc conf) = Some (re', pxy, r)" and "conf \<in> confs"
    and "ports_env at au env confs re" and "pm_inv at (tcp_of re)" and "pm_inv au (udp_of re)"
  shows "case r of Inl e \<Rightarrow> ran_ports at au re re' None None
    | Inr a \<Rightarrow> own_ports pxy \<and> \<not> sp_is_closed pxy \<and> ran_ports at au re re' (tcp_port_of pxy) (udp_port_of pxy)"
proof -
  let ?pxy = "new_proxy ui pc conf"
  have new: "sp_listeners ?pxy = []" "sp_conf ?pxy = conf" "\<not> sp_is_closed ?pxy" by (simp_all add: new_proxy_def)
  note env = assms(3) [unfolded ports_env_def]
  have gl: "groupless conf" using env assms(2) by blast
  show ?thesis
  proof (cases "(\<exists>c. conf = TCPConf c) \<or> (\<exists>c. conf = UDPConf c)")
    case True
    then show ?thesis
    proof (elim disjE exE)
      fix c assume c: "conf = TCPConf c"
      then have run: "tcp_run (ce_run env) svr c re ?pxy = (re', pxy, r)" using assms(1) new by (simp add: proxy_run.simps)
      from tcp_run_ports [OF assms(4,5) _ _ _ new(1) run new(3)] env gl c show ?thesis by (auto split: sum.splits)
    next
      fix c assume c: "conf = UDPConf c"
      then have run: "udp_run (ce_run env) svr c re ?pxy = (re', pxy, r)" using assms(1) new by (simp add: proxy_run.simps)
      from udp_run_ports [OF assms(4,5) _ _ new(1) _ run new(3)] env c new(2) show ?thesis by (auto split: sum.splits)
    qed
  next
    case False
    with new(2) have "\<And>c. sp_conf ?pxy \<noteq> TCPConf c" "\<And>c. sp_conf ?pxy \<noteq> UDPConf c" by auto
    from other_run_ports [OF assms(1) new(1) this]
    have o: "tcp_of re' = tcp_of re" "udp_of re' = udp_of re" "sp_conf pxy = conf" "\<not> sp_is_closed pxy"
      "\<forall>l \<in> set (sp_listeners pxy). \<not> port_listener l" using new by simp_all
    then have "own_ports pxy" "tcp_port_of pxy = None" "udp_port_of pxy = None"
      using gl False by (auto simp: own_ports_def tcp_port_of_def udp_port_of_def split: proxy_conf.split)
    with o ran_ports_same [OF assms(4,5) o(1,2)] show ?thesis by (simp split: sum.split)
  qed
qed

section \<open>The ports in use are those of the registered proxies\<close>

definition accounted :: "(server_proxy \<Rightarrow> int option) \<Rightarrow> port_mgr \<Rightarrow> (string \<rightharpoonup> server_proxy) \<Rightarrow> bool" where
  "accounted f pm pxys \<longleftrightarrow>
     (\<forall>p. p \<in> dom (pm_used pm) \<longleftrightarrow> (\<exists>n x. pxys n = Some x \<and> f x = Some p)) \<and>
     (\<forall>n n' x x' p. pxys n = Some x \<longrightarrow> pxys n' = Some x' \<longrightarrow> f x = Some p \<longrightarrow> f x' = Some p \<longrightarrow> n = n')"

lemma accountedD:
  assumes "accounted f pm pxys"
  shows "p \<in> dom (pm_used pm) \<longleftrightarrow> (\<exists>n x. pxys n = Some x \<and> f x = Some p)"
    and "pxys n = Some x \<Longrightarrow> pxys n' = Some x' \<Longrightarrow> f x = Some p \<Longrightarrow> f x' = Some p \<Longrightarrow> n = n'"
  using assms unfolding accounted_def by blast+

lemma accounted_keep: "accounted f pm pxys \<Longrightarrow> taken_opt None pm pm' \<Longrightarrow> accounted f pm' pxys"
  by (simp add: accounted_def taken_opt_def)

lemma accounted_add:
  assumes "accounted f pm pxys" and "taken_opt (f x) pm pm'" and "pxys n = None"
  shows "accounted f pm' (pxys(n \<mapsto> x))"
proof -
  note d = accountedD [OF assms(1)]
  have new: "f x' \<noteq> f x \<or> f x = None" if "pxys n' = Some x'" for n' x'
    using that d(1) assms(2) by (cases "f x") (auto simp: taken_opt_def)
  have used: "dom (pm_used pm') = dom (pm_used pm) \<union> set_option (f x)"
    using assms(2) by (cases "f x") (auto simp: taken_opt_def)
  show ?thesis
    unfolding accounted_def
  proof (intro conjI allI impI)
    fix p
    have "(\<exists>n' x'. (pxys(n \<mapsto> x)) n' = Some x' \<and> f x' = Some p) \<longleftrightarrow>
        f x = Some p \<or> (\<exists>n' x'. pxys n' = Some x' \<and> f x' = Some p)"
      using assms(3) by (metis fun_upd_apply option.inject option.distinct(1))
    then show "p \<in> dom (pm_used pm') \<longleftrightarrow> (\<exists>n' x'. (pxys(n \<mapsto> x)) n' = Some x' \<and> f x' = Some p)"
      unfolding used using d(1) [of p] by auto
  next
    fix k k' y y' p
    assume "(pxys(n \<mapsto> x)) k = Some y" "(pxys(n \<mapsto> x)) k' = Some y'" "f y = Some p" "f y' = Some p"
    then show "k = k'" using d(2) [of k y k' y' p] new [of k y] new [of k' y'] by (auto split: if_split_asm)
  qed
qed

lemma accounted_del:
  assumes "accounted f pm pxys" and "pxys n = Some x"
  shows "accounted f (release_opt now (f x) pm) (pxys(n := None))"
proof -
  note d = accountedD [OF assms(1)]
  have used: "dom (pm_used (release_opt now (f x) pm)) = dom (pm_used pm) - set_option (f x)"
    by (cases "f x") (simp_all add: release_opt_def release_sets)
  show ?thesis
    unfolding accounted_def
  proof (intro conjI allI impI)
    fix p
    show "p \<in> dom (pm_used (release_opt now (f x) pm)) \<longleftrightarrow> (\<exists>n' x'. (pxys(n := None)) n' = Some x' \<and> f x' = Some p)"
    proof
      assume "p \<in> dom (pm_used (release_opt now (f x) pm))"
      then have "p \<in> dom (pm_used pm)" "f x \<noteq> Some p" unfolding used by auto
      then obtain n' x' where n': "pxys n' = Some x'" "f x' = Some p" using d(1) [of p] by blast
      with assms(2) \<open>f x \<noteq> Some p\<close> have "n' \<noteq> n" by auto
      with n' show "\<exists>n' x'. (pxys(n := None)) n' = Some x' \<and> f x' = Some p" by (intro exI [of _ n'] exI [of _ x']) simp
    next
      assume "\<exists>n' x'. (pxys(n := None)) n' = Some x' \<and> f x' = Some p"
      then obtain n' x' where n': "n' \<noteq> n" "pxys n' = Some x'" "f x' = Some p" by (auto split: if_split_asm)
      with d(2) [of n' x' n x p] assms(2) have "f x \<noteq> Some p" by blast
      moreover have "p \<in> dom (pm_used pm)" using d(1) [of p] n' by blast
      ultimately show "p \<in> dom (pm_used (release_opt now (f x) pm))" unfolding used by auto
    qed
  next
    fix k k' y y' p
    assume "(pxys(n := None)) k = Some y" "(pxys(n := None)) k' = Some y'" "f y = Some p" "f y' = Some p"
    then show "k = k'" using d(2) [of k y k' y' p] by (auto split: if_split_asm)
  qed
qed

definition ports_inv :: "int set \<Rightarrow> int set \<Rightarrow> resources \<Rightarrow> (string \<rightharpoonup> server_proxy) \<Rightarrow> bool" where
  "ports_inv at au re pxys \<longleftrightarrow>
     pm_inv at (tcp_of re) \<and> pm_inv au (udp_of re) \<and>
     accounted tcp_port_of (tcp_of re) pxys \<and> accounted udp_port_of (udp_of re) pxys \<and>
     (\<forall>n x. pxys n = Some x \<longrightarrow> own_ports x \<and> \<not> sp_is_closed x)"

lemma release_opt_inv: "pm_inv allow pm \<Longrightarrow> pm_inv allow (release_opt now p pm)"
  by (cases p) (simp_all add: release_opt_def pp.rel_inv)

lemma release_opt_taken:
  assumes "pm_inv allow pm'" and "taken_opt p pm pm'"
  shows "taken_opt None pm (release_opt now p pm')"
  using assms release_taken [of allow pm'] by (cases p) (auto simp: release_opt_def)

lemma ports_inv_same:
  "ports_inv at au re pxys \<Longrightarrow> tcp_of re' = tcp_of re \<Longrightarrow> udp_of re' = udp_of re \<Longrightarrow> ports_inv at au re' pxys"
  by (simp add: ports_inv_def)

lemma ports_inv_undone:
  assumes "ports_inv at au re pxys" and "run_undone env confs re re'" and "ports_env at au env confs re"
  shows "ports_inv at au re' pxys"
proof -
  note i = assms(1) [unfolded ports_inv_def]
  have keep: "ports_inv at au re' pxys" if "ran_ports at au re re' None None" for re'
    using that i accounted_keep by (auto simp: ports_inv_def ran_ports_def)
  from assms(2) show ?thesis
  proof cases
    case not_run
    with assms(1) show ?thesis by simp
  next
    case (run_failed conf ui pc pxy e)
    from proxy_run_ports [OF run_failed(2,1) assms(3)] i have "ran_ports at au re re' None None" by simp
    then show ?thesis by (rule keep)
  next
    case (run_closed conf ui pc re1 pxy a pxy')
    from proxy_run_ports [OF run_closed(2,1) assms(3)] i have
      r: "own_ports pxy" "\<not> sp_is_closed pxy" "ran_ports at au re re1 (tcp_port_of pxy) (udp_port_of pxy)" by simp_all
    note c = proxy_close_ports [OF run_closed(3) r(1,2)]
    note k = r(3) [unfolded ran_ports_def]
    have "ran_ports at au re re' None None"
      unfolding ran_ports_def using c k release_opt_inv release_opt_taken by metis
    then show ?thesis by (rule keep)
  qed
qed

lemma ports_inv_close:
  assumes "ports_inv at au re pxys" and "pxys n = Some x" and "proxy_close now x re = Ok (x', re')"
  shows "ports_inv at au re' (pxys(n := None))"
proof -
  note i = assms(1) [unfolded ports_inv_def]
  have x: "own_ports x" "\<not> sp_is_closed x" using i assms(2) by blast+
  note c = proxy_close_ports [OF assms(3) x]
  show ?thesis
    using i c release_opt_inv accounted_del [where n = n and x = x and pxys = pxys] assms(2)
    by (auto simp: ports_inv_def split: if_split_asm)
qed

definition ports_event :: "int set \<Rightarrow> int set \<Rightarrow> server \<Rightarrow> server_event \<Rightarrow> bool" where
  "ports_event at au sv e \<longleftrightarrow>
     (case e of
        Managed env i inp \<Rightarrow>
          ports_env at au env (run_confs env inp (sv_controls sv i)) (sh_resources (sv_shared sv))
      | _ \<Rightarrow> True)"

lemma ports_inv_move:
  assumes "server_move svr sv e sv'" and "reg_inv sv" and "ports_event at au sv e"
    and "ports_inv at au (sh_resources (sv_shared sv)) (proxies_of sv)"
  shows "ports_inv at au (sh_resources (sv_shared sv')) (proxies_of sv')"
proof -
  have rest: "ports_inv at au (sh_resources (sv_shared sv')) (proxies_of sv')" if "same_rest sv sv'"
    using that ports_inv_same [OF assms(4)] by (simp add: same_rest_def proxies_of_def)
  from assms(1) show ?thesis
  proof cases
    case (move_manage env i inp)
    have env: "ports_env at au env (run_confs env inp (sv_controls sv i)) (sh_resources (sv_shared sv))"
      using assms(3) move_manage(1) by (simp add: ports_event_def)
    from move_manage(4) show ?thesis
    proof cases
      case change_none
      with ports_inv_undone [OF assms(4) _ env] show ?thesis by (simp add: proxies_of_def)
    next
      case (change_add conf ui pc pxy a)
      note i = assms(4) [unfolded ports_inv_def]
      from proxy_run_ports [OF change_add(2,1) env] i have
        r: "own_ports pxy" "\<not> sp_is_closed pxy" "ran_ports at au (sh_resources (sv_shared sv))
          (sh_resources (sv_shared sv')) (tcp_port_of pxy) (udp_port_of pxy)" by simp_all
      note k = r(3) [unfolded ran_ports_def]
      have n: "proxies_of sv (sp_name pxy) = None" using change_add(3) by (simp add: proxies_of_def)
      have added: "accounted f pm' ((proxies_of sv)(sp_name pxy \<mapsto> pxy))"
        if "accounted f pm (proxies_of sv)" "taken_opt (f pxy) pm pm'" for f pm pm'
        by (rule accounted_add [OF that n])
      have "accounted tcp_port_of (tcp_of (sh_resources (sv_shared sv'))) ((proxies_of sv)(sp_name pxy \<mapsto> pxy))"
        "accounted udp_port_of (udp_of (sh_resources (sv_shared sv'))) ((proxies_of sv)(sp_name pxy \<mapsto> pxy))"
        using i k by (blast intro: added)+
      with i k r(1,2) change_add(4) show ?thesis by (simp add: ports_inv_def proxies_of_def)
    next
      case (change_close name pxy pxy')
      have n: "sp_name pxy = name" by (rule reg_invD(1) [OF assms(2) change_close(1)])
      have "proxies_of sv name = Some pxy"
        using reg_invD(3) [OF assms(2), of i name pxy] move_manage(3) change_close(1) by (simp add: live_def)
      from ports_inv_close [OF assms(4) this change_close(2)] change_close(3) n show ?thesis by (simp add: proxies_of_def)
    qed
  next
    case (move_stop_proxy i name names pxy env pxy')
    have n: "sp_name pxy = name" by (rule reg_invD(1) [OF assms(2) move_stop_proxy(3)])
    have "proxies_of sv name = Some pxy"
      using reg_invD(3) [OF assms(2), of i name pxy] move_stop_proxy(2,3) by (simp add: live_def)
    from ports_inv_close [OF assms(4) this move_stop_proxy(4)] move_stop_proxy(5) n show ?thesis by (simp add: proxies_of_def)
  qed (use rest in blast)+
qed

lemma ports_inv_run:
  "server_run svr (ports_event at au) sv es sv' \<Longrightarrow> reg_inv sv \<Longrightarrow> ids_inv sv \<Longrightarrow>
   ports_inv at au (sh_resources (sv_shared sv)) (proxies_of sv) \<Longrightarrow>
   ports_inv at au (sh_resources (sv_shared sv')) (proxies_of sv')"
  by (induction rule: server_run.induct) (blast intro: ports_inv_move server_step_move ids_inv_run reg_inv_run)+

text \<open>The ports that the proxies of a table hold.\<close>

definition ports_held :: "(server_proxy \<Rightarrow> int option) \<Rightarrow> (string \<rightharpoonup> server_proxy) \<Rightarrow> int set" where
  "ports_held f pxys = {p. \<exists>n x. pxys n = Some x \<and> f x = Some p}"


end
