(* ===== verification/Service_Witnesses.thy ===== *)
theory Service_Witnesses
  imports Service_Ports
begin

text \<open>
  A concrete history of a server, in which a client logs in and registers a TCP proxy, and the
  properties of all histories applied to it.
\<close>

section \<open>A sample history\<close>

definition sample_env :: ctl_env where
  "sample_env =
     \<lparr>ce_svr = get_default_server_conf\<lparr>sc_max_ports_per_client := 1\<rparr>, ce_plugins = new_plugin_mgr, ce_peer = (\<lambda>_ _. None),
      ce_auth = sample_auth_env, ce_md5 = (\<lambda>s. s), ce_enc_ok = (\<lambda>_. True), ce_run = sample_run_env, ce_now = 0,
      ce_midnight = (\<lambda>t. t), ce_seconds = 0, ce_text = (\<lambda>_. [])\<rparr>"

definition sample_server :: server where
  "sample_server = new_server (TokenVerifier (new_token_auth default_auth_base_conf default_token_conf))
     sample_resources (new_server_metrics (\<lambda>t. t) 0)"

definition sample_client :: login_msg where
  "sample_client = token_set_login sample_auth_env (new_token_auth default_auth_base_conf default_token_conf)
     (sample_login\<lparr>lg_version := ''0.35.1'', lg_run_id := ''r''\<rparr>)"

lemma sample_compat: "compat ''0.35.1'' = (True, [])"
proof -
  have "version_str (VersionNum 0 35 1) = ''0.35.1''"
    by (simp add: version_str_def int_str_def nat_str.simps)
  with version_num_version_str [of "VersionNum 0 35 1"] have "version_num ''0.35.1'' = VersionNum 0 35 1"
    by (simp add: int64_range_def)
  then have "fst (compat ''0.35.1'')" by (simp add: compat_iff less_eq_version_num_def less_version_num_def)
  then show ?thesis by (auto simp: compat_def split: if_split_asm)
qed

definition sample_ssh :: new_proxy_msg where
  "sample_ssh = empty_new_proxy\<lparr>np_proxy_name := ''ssh'', np_remote_port := 6001\<rparr>"

definition sample_ssh_conf :: proxy_conf where
  "sample_ssh_conf = TCPConf \<lparr>tc_base = (default_base_proxy_conf ''tcp'')\<lparr>bp_proxy_name := ''ssh''\<rparr>, tc_remote_port = 6001\<rparr>"

lemma sample_conf: "new_proxy_conf_from_msg sample_ssh (ce_svr sample_env) = (sample_ssh\<lparr>np_proxy_type := ''tcp''\<rparr>, Inr sample_ssh_conf)"
  by (simp add: new_proxy_conf_from_msg_def sample_ssh_def empty_new_proxy_def TCPProxy_def default_proxy_conf_def conf_of_type_def
      tcp_unmarshal_from_msg_def base_unmarshal_from_msg_def default_base_proxy_conf_def zero_base_proxy_conf_def tcp_check_for_svr_def
      sample_ssh_conf_def)

lemma sample_login_step:
  assumes "sv_verifier sv = sv_verifier sample_server"
  shows "\<exists>sv'. handle_connection sample_env None 7 (Some (MLogin sample_client)) sv = Ok (sv', [], False) \<and>
    sv_verifier sv' = sv_verifier sample_server \<and> sv_shared sv' = sv_shared sv \<and>
    sv_phase sv' = (sv_phase sv)(sv_next sv := Waiting (sv_by_run_id sv ''r'')) \<and>
    ct_login (sv_controls sv' (sv_next sv)) = sample_client \<and>
    ct_proxies (sv_controls sv' (sv_next sv)) = Map.empty \<and> ct_ports_used (sv_controls sv' (sv_next sv)) = 0"
proof -
  have v: "verify_login (ce_auth sample_env) (sv_verifier sv) sample_client = (sv_verifier sv, None)"
    using assms by (simp add: sample_env_def sample_client_def sample_server_def new_server_def token_set_login_def
        token_verify_login_def sample_auth_env_def sample_login_def)
  have m: "lg_run_id sample_client = ''r''" "lg_version sample_client = ''0.35.1''" "sample_client\<lparr>lg_run_id := ''r''\<rparr> = sample_client"
    by (simp_all add: sample_client_def token_set_login_def sample_login_def)
  obtain ctl where ctl: "new_control (ce_svr sample_env) (ce_now sample_env) sample_client = Ok ctl"
    "ct_login ctl = sample_client" "ct_proxies ctl = Map.empty" "ct_ports_used ctl = 0"
    by (simp add: new_control_def sample_env_def sample_client_def token_set_login_def sample_login_def
        get_default_server_conf_def)
  let ?sv = "sv\<lparr>sv_controls := (sv_controls sv)(sv_next sv := ctl), sv_next := sv_next sv + 1\<rparr>"
  obtain sv1 old where add: "cm_add ''r'' (sv_next sv) ?sv = (sv1, old)" by (cases "cm_add ''r'' (sv_next sv) ?sv")
  have v': "verify_login (ce_auth sample_env) (sv_verifier sv) (sample_client\<lparr>lg_run_id := ''r''\<rparr>) = (sv_verifier sv, None)"
    unfolding m(3) by (rule v)
  have ctl': "new_control (ce_svr sample_env) (ce_now sample_env) (sample_client\<lparr>lg_run_id := ''r''\<rparr>) = Ok ctl"
    unfolding m(3) by (rule ctl(1))
  have "handle_connection sample_env None 7 (Some (MLogin sample_client)) sv =
      Ok (sv1\<lparr>sv_phase := (sv_phase sv1)(sv_next sv := Waiting old)\<rparr>, [], False)"
    using v' m(1,2) ctl' add by (simp add: handle_connection_def pl_do_login_def sample_env_def new_plugin_mgr_def register_control_def
        sample_compat Let_def)
  then show ?thesis
    using cm_add_fields [OF add, of "sv_next sv"] ctl assms
    by (intro exI [of _ "sv1\<lparr>sv_phase := (sv_phase sv1)(sv_next sv := Waiting old)\<rparr>"]) (auto simp: same_core_def)
qed

lemma sample_ssh_ran:
  "\<exists>re pxy. proxy_run (ce_run sample_env) (ce_svr sample_env) sample_resources (new_proxy ui pc sample_ssh_conf) =
     Some (re, pxy, Inr '':6001'') \<and> sp_name pxy = ''ssh'' \<and> sp_used_ports_num pxy = 1"
proof -
  have "\<exists>pm. acquire (\<lambda>_ _. True) [6000, 6001] 0 ''ssh'' 6001 (re_tcp_ports sample_resources) = (pm, 6001, None)"
    by (simp add: sample_resources_def re_tcp_ports_def new_tcp_group_ctl_def new_port_manager_def allowed_ports_def
        acquire_def alloc_ctx_def acquire_body_def take_port_def)
  then obtain pm where "acquire (\<lambda>_ _. True) [6000, 6001] 0 ''ssh'' 6001 (re_tcp_ports sample_resources) = (pm, 6001, None)" ..
  moreover have "port_addr 6001 = '':6001''" by (simp add: port_addr_def int_str_def nat_str.simps)
  ultimately show ?thesis
    by (simp add: proxy_run.simps new_proxy_def sample_ssh_conf_def tcp_run_def sample_env_def sample_run_env_def
        default_base_proxy_conf_def zero_base_proxy_conf_def Let_def)
qed

lemma sample_ssh_managed:
  assumes "ct_proxies c = Map.empty" and "ct_ports_used c = 0"
    and "sh_resources sh = sample_resources" and "sh_proxies sh = Map.empty"
  shows "\<exists>c' sh'. manager_step sample_env v (Received (MNewProxy sample_ssh)) c sh = Ok (c', sh', True) \<and>
    ct_proxies c' ''ssh'' \<noteq> None \<and> ct_ports_used c' = 1"
proof -
  let ?ui = "\<lparr>ui_user = lg_user (ct_login c), ui_metas = lg_metas (ct_login c), ui_run_id = ct_run_id c\<rparr>"
  obtain re pxy where ran: "proxy_run (ce_run sample_env) (ce_svr sample_env) sample_resources
      (new_proxy ?ui (ct_pool_count c) sample_ssh_conf) = Some (re, pxy, Inr '':6001'')"
    "sp_name pxy = ''ssh''" "sp_used_ports_num pxy = 1"
    using sample_ssh_ran by blast
  have n: "sp_used_ports_num (new_proxy ?ui (ct_pool_count c) sample_ssh_conf) = 1"
    by (simp add: new_proxy_def sample_ssh_conf_def)
  have max: "sc_max_ports_per_client (ce_svr sample_env) = 1" by (simp add: sample_env_def)
  have "\<exists>c' sh'. register_proxy sample_env sample_ssh c sh = Ok (c', sh', sample_ssh\<lparr>np_proxy_type := ''tcp''\<rparr>, Inr '':6001'') \<and>
      ct_proxies c' ''ssh'' \<noteq> None \<and> ct_ports_used c' = 1"
    using ran n max assms by (simp add: register_proxy_def sample_conf Let_def pxm_add_def)
  then obtain c1 sh1 where r: "register_proxy sample_env sample_ssh c sh =
      Ok (c1, sh1, sample_ssh\<lparr>np_proxy_type := ''tcp''\<rparr>, Inr '':6001'')" "ct_proxies c1 ''ssh'' \<noteq> None" "ct_ports_used c1 = 1"
    by blast
  have "pl_do_new_proxy (ce_peer sample_env) (ce_plugins sample_env) x = Ok x" for x
    by (simp add: pl_do_new_proxy_def sample_env_def new_plugin_mgr_def)
  with r show ?thesis by (simp add: manager_step.simps manage_new_proxy_def Let_def ctl_send_def)
qed

lemma sample_run:
  "\<exists>sv. server_run (ce_svr sample_env) (ports_event {6000, 6001} {7000}) sample_server
     [Connected sample_env None 7 (Some (MLogin sample_client)), Started sample_env 0,
      Managed sample_env 0 (Received (MNewProxy sample_ssh))] sv \<and>
     ct_proxies (sv_controls sv 0) ''ssh'' \<noteq> None \<and> ct_ports_used (sv_controls sv 0) = 1"
proof -
  have new: "sv_next sample_server = 0" "sv_by_run_id sample_server = Map.empty" "sv_phase sample_server = (\<lambda>_. Absent)"
    by (simp_all add: sample_server_def new_server_def)
  obtain s1 where s1: "handle_connection sample_env None 7 (Some (MLogin sample_client)) sample_server = Ok (s1, [], False)"
    "sv_shared s1 = sv_shared sample_server" "sv_phase s1 = (\<lambda>_. Absent)(0 := Waiting None)"
    "ct_login (sv_controls s1 0) = sample_client"
    "ct_proxies (sv_controls s1 0) = Map.empty" "ct_ports_used (sv_controls s1 0) = 0"
    using sample_login_step [OF refl] by (auto simp: new)
  have step1: "server_step (ce_svr sample_env) sample_server (Connected sample_env None 7 (Some (MLogin sample_client))) s1"
    by (rule connected [OF refl s1(1)])
  let ?s2 = "start_control sample_env 0 s1"
  have step2: "server_step (ce_svr sample_env) s1 (Started sample_env 0) ?s2"
    by (rule started [OF refl, of s1 0 None]) (simp_all add: s1(3))
  have c2: "ct_proxies (sv_controls ?s2 0) = Map.empty" "ct_ports_used (sv_controls ?s2 0) = 0"
    "sh_resources (sv_shared ?s2) = sample_resources" "sh_proxies (sv_shared ?s2) = Map.empty" "sv_phase ?s2 0 = Running"
    using s1 by (simp_all add: start_control_def ctl_start_def sample_server_def new_server_def)
  have "\<exists>s3. manage sample_env 0 (Received (MNewProxy sample_ssh)) ?s2 = Ok s3 \<and>
     ct_proxies (sv_controls s3 0) ''ssh'' \<noteq> None \<and> ct_ports_used (sv_controls s3 0) = 1"
    using sample_ssh_managed [OF c2(1,2,3,4), of "sv_verifier ?s2"] by (auto simp: manage_def)
  then obtain s3 where s3: "manage sample_env 0 (Received (MNewProxy sample_ssh)) ?s2 = Ok s3"
     "ct_proxies (sv_controls s3 0) ''ssh'' \<noteq> None" "ct_ports_used (sv_controls s3 0) = 1" by blast
  have step3: "server_step (ce_svr sample_env) ?s2 (Managed sample_env 0 (Received (MNewProxy sample_ssh))) s3"
    by (rule managed [OF refl c2(5) s3(1)])
  have gl: "groupless sample_ssh_conf"
    by (simp add: sample_ssh_conf_def default_base_proxy_conf_def zero_base_proxy_conf_def)
  have "ports_event {6000, 6001} {7000} ?s2 (Managed sample_env 0 (Received (MNewProxy sample_ssh)))"
    using gl sample_run_env_honest sample_conf c2
    by (simp add: ports_event_def ports_env_def allowed_ports_def plugin_confs_def msg_confs_def pl_do_new_proxy_def
        sample_env_def new_plugin_mgr_def)
  then have "server_run (ce_svr sample_env) (ports_event {6000, 6001} {7000}) sample_server
     [Connected sample_env None 7 (Some (MLogin sample_client)), Started sample_env 0,
      Managed sample_env 0 (Received (MNewProxy sample_ssh))] s3"
    using run_next [OF run_next [OF run_next [OF run_start _ step1] _ step2] _ step3] by (simp add: ports_event_def)
  with s3(2,3) show ?thesis by blast
qed

lemma one_active_control_witness:
  "\<exists>sv. ct_ports_used (sv_controls sv 0) = 1 \<and>
    \<not> (\<exists>i j. i \<noteq> j \<and> run_id_of sv i = run_id_of sv j \<and> active (sv_phase sv i) \<and> active (sv_phase sv j)) \<and>
    \<not> (\<exists>r i j. cm_get_by_id r sv = Some i \<and> active (sv_phase sv j) \<and> run_id_of sv j = r \<and> j > i)"
  using sample_run [unfolded sample_server_def] one_active_control by blast

lemma proxy_names_unique_witness:
  "\<exists>sv p. ct_proxies (sv_controls sv 0) ''ssh'' = Some p \<and>
    (pxm_get_by_name ''ssh'' (sh_proxies (sv_shared sv)) = Some p \<longleftrightarrow>
      (\<exists>!i. live sv i ''ssh'' \<noteq> None) \<and> (\<exists>i. live sv i ''ssh'' = Some p \<and> sp_name p = ''ssh''))"
proof -
  obtain sv p where sv: "server_run (ce_svr sample_env) (ports_event {6000, 6001} {7000}) sample_server
     [Connected sample_env None 7 (Some (MLogin sample_client)), Started sample_env 0,
      Managed sample_env 0 (Received (MNewProxy sample_ssh))] sv" "ct_proxies (sv_controls sv 0) ''ssh'' = Some p"
    using sample_run by blast
  from proxy_names_unique [OF sv(1) [unfolded sample_server_def], of "''ssh''" p] sv(2) show ?thesis by blast
qed

lemma client_ports_limited_witness:
  "\<exists>sv :: server. ct_proxies (sv_controls sv 0) ''ssh'' \<noteq> None \<and> ct_ports_used (sv_controls sv 0) = ports_sum (ct_proxies (sv_controls sv 0)) \<and>
    ct_ports_used (sv_controls sv 0) \<le> 1"
proof -
  obtain sv where sv: "server_run (ce_svr sample_env) (ports_event {6000, 6001} {7000}) sample_server
     [Connected sample_env None 7 (Some (MLogin sample_client)), Started sample_env 0,
      Managed sample_env 0 (Received (MNewProxy sample_ssh))] sv" "ct_proxies (sv_controls sv 0) ''ssh'' \<noteq> None"
    using sample_run by blast
  have max: "sc_max_ports_per_client (ce_svr sample_env) = 1" by (simp add: sample_env_def)
  from client_ports_limited [OF sv(1) [unfolded sample_server_def], of 0] sv(2) max show ?thesis by (intro exI [of _ sv]) simp
qed


lemma refused_connection_unchanged_witness:
  "\<exists>sv ms. handle_connection sample_env None 7 (Some (MLogin (sample_client\<lparr>lg_privilege_key := ''guess''\<rparr>))) sample_server =
    Ok (sv, ms, True) \<and> ms \<noteq> [] \<and> sv = sample_server"
proof -
  obtain sv ms where "handle_connection sample_env None 7 (Some (MLogin (sample_client\<lparr>lg_privilege_key := ''guess''\<rparr>))) sample_server =
      Ok (sv, ms, True)" "ms \<noteq> []"
    by (simp add: handle_connection_def pl_do_login_def sample_env_def new_plugin_mgr_def register_control_def
        sample_compat sample_client_def token_set_login_def sample_login_def sample_server_def new_server_def
        token_verify_login_def sample_auth_env_def get_auth_key_def new_token_auth_def Let_def)
  with refused_connection_unchanged [OF this(1)] show ?thesis by blast
qed


end
