(* ===== verification/Channels.thy ===== *)
theory Channels
  imports Prelude
begin

text \<open>
  Go channels as values: a nil channel, an open one with its capacity and the buffered elements, a
  closed one with what is left to receive. An operation that would wait is \<open>SendBlocks\<close> or
  \<open>RecvBlocks\<close>; sending on a closed channel and closing a nil or closed one panic.
\<close>

datatype 'm chan = NilChan | OpenChan nat "'m list" | ClosedChan "'m list"

datatype 'm send_result = Sent "'m chan" | SendBlocks | SendPanics

datatype 'm recv_result = Received 'm "'m chan" | RecvBlocks | RecvClosed

definition make_chan :: "nat \<Rightarrow> 'm chan" where
  "make_chan n = OpenChan n []"

fun chan_send :: "'m \<Rightarrow> 'm chan \<Rightarrow> 'm send_result" where
  "chan_send m NilChan = SendBlocks"
| "chan_send m (OpenChan n ms) = (if length ms < n then Sent (OpenChan n (ms @ [m])) else SendBlocks)"
| "chan_send m (ClosedChan ms) = SendPanics"

text \<open>The send of a \<^verbatim>\<open>select\<close> with a default: a full or nil channel drops the element.\<close>

fun chan_try_send :: "'m \<Rightarrow> 'm chan \<Rightarrow> 'm chan option" where
  "chan_try_send m NilChan = Some NilChan"
| "chan_try_send m (OpenChan n ms) = Some (OpenChan n (if length ms < n then ms @ [m] else ms))"
| "chan_try_send m (ClosedChan ms) = None"

fun chan_recv :: "'m chan \<Rightarrow> 'm recv_result" where
  "chan_recv NilChan = RecvBlocks"
| "chan_recv (OpenChan n []) = RecvBlocks"
| "chan_recv (OpenChan n (m # ms)) = Received m (OpenChan n ms)"
| "chan_recv (ClosedChan []) = RecvClosed"
| "chan_recv (ClosedChan (m # ms)) = Received m (ClosedChan ms)"

text \<open>\<open>None\<close> is a panic.\<close>

fun chan_close :: "'m chan \<Rightarrow> 'm chan option" where
  "chan_close NilChan = None"
| "chan_close (OpenChan n ms) = Some (ClosedChan ms)"
| "chan_close (ClosedChan ms) = None"

fun is_open :: "'m chan \<Rightarrow> bool" where
  "is_open (OpenChan n ms) = True"
| "is_open _ = False"

fun is_closed :: "'m chan \<Rightarrow> bool" where
  "is_closed (ClosedChan ms) = True"
| "is_closed _ = False"

text \<open>What is left to receive.\<close>

fun chan_buf :: "'m chan \<Rightarrow> 'm list" where
  "chan_buf NilChan = []"
| "chan_buf (OpenChan n ms) = ms"
| "chan_buf (ClosedChan ms) = ms"

lemma is_open_make [simp]: "is_open (make_chan n)"
  by (simp add: make_chan_def)

lemma chan_send_open: "chan_send m ch = Sent ch' \<Longrightarrow> is_open ch \<and> is_open ch'"
  by (cases ch) (auto split: if_split_asm)

lemma chan_try_send_open: "chan_try_send m ch = Some ch' \<Longrightarrow> is_open ch' = is_open ch \<and> is_closed ch' = is_closed ch"
  by (cases ch) (auto split: if_split_asm)

lemma chan_recv_open: "chan_recv ch = Received m ch' \<Longrightarrow> is_open ch' = is_open ch \<and> is_closed ch' = is_closed ch"
  by (induction ch rule: chan_recv.induct) auto

lemma chan_close_open: "is_open ch \<Longrightarrow> \<exists>ch'. chan_close ch = Some ch' \<and> is_closed ch'"
  by (cases ch) auto

lemma is_closed_not_open: "is_closed ch \<Longrightarrow> \<not> is_open ch"
  by (cases ch) auto

lemma chan_send_closed: "is_closed ch \<Longrightarrow> chan_send m ch = SendPanics"
  by (cases ch) auto

lemma chan_buf_make [simp]: "chan_buf (make_chan n) = []"
  by (simp add: make_chan_def)

lemma chan_send_buf: "chan_send m ch = Sent ch' \<Longrightarrow> chan_buf ch' = chan_buf ch @ [m]"
  by (cases ch) (auto split: if_split_asm)

lemma chan_recv_buf: "chan_recv ch = Received m ch' \<Longrightarrow> chan_buf ch = m # chan_buf ch'"
  by (induction ch rule: chan_recv.induct) auto

lemma chan_recv_end: "chan_recv ch = RecvClosed \<Longrightarrow> chan_buf ch = []"
  by (induction ch rule: chan_recv.induct) auto

lemma chan_close_buf: "chan_close ch = Some ch' \<Longrightarrow> chan_buf ch' = chan_buf ch"
  by (cases ch) auto

text \<open>How many more elements an open channel takes before a sender waits.\<close>

fun chan_room :: "'m chan \<Rightarrow> nat" where
  "chan_room (OpenChan n ms) = n - length ms"
| "chan_room _ = 0"

lemma chan_room_send: "is_open ch \<Longrightarrow> chan_room ch > 0 \<Longrightarrow> \<exists>ch'. chan_send m ch = Sent ch' \<and> is_open ch' \<and> chan_room ch' = chan_room ch - 1"
  by (cases ch) auto

lemma chan_send_room: "chan_send m ch = Sent ch' \<Longrightarrow> chan_room ch = Suc (chan_room ch')"
  by (cases ch) (auto split: if_split_asm)

lemma chan_recv_room: "chan_recv ch = Received m ch' \<Longrightarrow> is_open ch \<Longrightarrow> chan_room ch \<le> chan_room ch'"
  by (induction ch rule: chan_recv.induct) auto

text \<open>An open channel with no more elements than its capacity, which is positive.\<close>

fun chan_ok :: "'m chan \<Rightarrow> bool" where
  "chan_ok (OpenChan n ms) = (0 < n \<and> length ms \<le> n)"
| "chan_ok _ = False"

lemma chan_ok_open: "chan_ok ch \<Longrightarrow> is_open ch"
  by (cases ch) auto

lemma chan_ok_make [simp]: "chan_ok (make_chan n) = (0 < n)"
  by (simp add: make_chan_def)

lemma chan_ok_kept:
  "chan_send m ch = Sent ch' \<Longrightarrow> chan_ok ch \<Longrightarrow> chan_ok ch'"
  "chan_recv ch = Received m ch' \<Longrightarrow> chan_ok ch \<Longrightarrow> chan_ok ch'"
  by (cases ch, auto split: if_split_asm) (induction ch rule: chan_recv.induct, auto)

lemma chan_full_recv: "chan_ok ch \<Longrightarrow> chan_room ch = 0 \<Longrightarrow> \<exists>m ch'. chan_recv ch = Received m ch' \<and> is_open ch' \<and> 0 < chan_room ch'"
  by (cases ch rule: chan_recv.cases) auto

end
