(* ===== verification/Udp_Forward.thy ===== *)
theory Udp_Forward
  imports Messages
begin

text \<open>
  The forwarding of UDP datagrams over a work connection: \<^verbatim>\<open>frp/pkg/proto/udp/udp.go\<close>. The
  content of a packet is base64 (\<^verbatim>\<open>encoding/base64\<close>, \<^verbatim>\<open>StdEncoding\<close>), which the first section
  models; an address is an opaque value with its text \<open>addr_str\<close>, \<open>None\<close> for a nil pointer.
  Sockets are handles, and what the system answers is in the events.
\<close>

section \<open>Base64\<close>

definition b64_alphabet :: string where
  "b64_alphabet = ''ABCDEFGHIJKLMNOPQRSTUVWXYZabcdefghijklmnopqrstuvwxyz0123456789+/''"

definition b64_char :: "nat \<Rightarrow> char" where
  "b64_char i = b64_alphabet ! i"

fun position :: "'a \<Rightarrow> 'a list \<Rightarrow> nat option" where
  "position x [] = None"
| "position x (y # ys) = (if x = y then Some 0 else map_option Suc (position x ys))"

definition b64_index :: "char \<Rightarrow> nat option" where
  "b64_index c = position c b64_alphabet"

definition quantum :: "nat \<Rightarrow> string" where
  "quantum n = [b64_char (n div 262144), b64_char (n div 4096 mod 64), b64_char (n div 64 mod 64), b64_char (n mod 64)]"

fun b64_encode :: "string \<Rightarrow> string" where
  "b64_encode [] = []"
| "b64_encode [a] = take 2 (quantum (of_char a * 65536)) @ ''==''"
| "b64_encode [a, b] = take 3 (quantum (of_char a * 65536 + of_char b * 256)) @ ''=''"
| "b64_encode (a # b # c # bs) = quantum (of_char a * 65536 + of_char b * 256 + of_char c) @ b64_encode bs"

definition byte_of :: "nat \<Rightarrow> char" where
  "byte_of n = char_of (n mod 256)"

fun b64_quanta :: "string \<Rightarrow> string option" where
  "b64_quanta [] = Some []"
| "b64_quanta (a # b # c # d # cs) =
     (case (b64_index a, b64_index b) of
        (Some i, Some j) \<Rightarrow>
          if c = CHR ''='' then
            (if d = CHR ''='' \<and> cs = [] then Some [byte_of ((i * 262144 + j * 4096) div 65536)] else None)
          else
            (case b64_index c of
               None \<Rightarrow> None
             | Some k \<Rightarrow>
                 if d = CHR ''='' then
                   (if cs = [] then
                      let n = i * 262144 + j * 4096 + k * 64
                      in Some [byte_of (n div 65536), byte_of (n div 256)]
                    else None)
                 else
                   (case (b64_index d, b64_quanta cs) of
                      (Some l, Some bs) \<Rightarrow>
                        let n = i * 262144 + j * 4096 + k * 64 + l
                        in Some (byte_of (n div 65536) # byte_of (n div 256) # byte_of n # bs)
                    | _ \<Rightarrow> None))
      | _ \<Rightarrow> None)"
| "b64_quanta _ = None"

text \<open>The decoder ignores carriage returns and line feeds.\<close>

definition b64_decode :: "string \<Rightarrow> string option" where
  "b64_decode s = b64_quanta (filter (\<lambda>c. c \<noteq> CHR 0x0D \<and> c \<noteq> CHR 0x0A) s)"

lemma position_nth: "position x xs = Some i \<Longrightarrow> i < length xs \<and> xs ! i = x"
  by (induction xs arbitrary: i) (auto split: if_split_asm)

lemma position_of_nth: "distinct xs \<Longrightarrow> i < length xs \<Longrightarrow> position (xs ! i) xs = Some i"
  by (induction xs arbitrary: i) (auto simp: nth_Cons split: nat.split)

lemma alphabet_distinct: "distinct b64_alphabet"
  by (simp add: b64_alphabet_def)

lemma alphabet_length: "length b64_alphabet = 64"
  by (simp add: b64_alphabet_def)

lemma b64_index_char [simp]: "i < 64 \<Longrightarrow> b64_index (b64_char i) = Some i"
  by (simp add: b64_index_def b64_char_def position_of_nth alphabet_distinct alphabet_length)

lemma b64_char_mem: "i < 64 \<Longrightarrow> b64_char i \<in> set b64_alphabet"
  by (simp add: b64_char_def alphabet_length)

lemma b64_char_neq [simp]:
  assumes "i < 64"
  shows "b64_char i \<noteq> CHR ''=''" "b64_char i \<noteq> CHR 0x0D" "b64_char i \<noteq> CHR 0x0A"
proof -
  have "CHR ''='' \<notin> set b64_alphabet" "CHR 0x0D \<notin> set b64_alphabet" "CHR 0x0A \<notin> set b64_alphabet"
    by (simp_all add: b64_alphabet_def)
  with b64_char_mem [OF assms] show "b64_char i \<noteq> CHR ''=''" "b64_char i \<noteq> CHR 0x0D" "b64_char i \<noteq> CHR 0x0A"
    by auto
qed

lemma recompose:
  fixes n :: nat
  shows "n div 262144 * 262144 + n div 4096 mod 64 * 4096 + n div 64 mod 64 * 64 + n mod 64 = n"
proof -
  define q1 q2 q3 where "q1 = n div 64" and "q2 = q1 div 64" and "q3 = q2 div 64"
  have q: "n div 64 = q1" "n div 4096 = q2" "n div 262144 = q3"
    by (simp_all add: q1_def q2_def q3_def flip: div_mult2_eq)
  have "n = q1 * 64 + n mod 64" "q1 = q2 * 64 + q1 mod 64" "q2 = q3 * 64 + q2 mod 64"
    by (simp_all only: q1_def q2_def q3_def div_mult_mod_eq)
  then show ?thesis unfolding q by linarith
qed

lemma bytes_of_group:
  assumes "a < 256" "b < 256" "c < (256 :: nat)"
  shows "(a * 65536 + b * 256 + c) div 65536 mod 256 = a" "(a * 65536 + b * 256 + c) div 256 mod 256 = b"
    "(a * 65536 + b * 256 + c) mod 256 = c" "(a * 65536 + b * 256 + c) div 262144 < 64"
proof -
  let ?n = "a * 65536 + b * 256 + c"
  have n: "?n = c + (b + a * 256) * 256" by simp
  have 1: "?n div 256 = b + a * 256" unfolding n by (subst div_mult_self1) (simp_all add: assms)
  have "?n div 65536 = ?n div 256 div 256" by (simp flip: div_mult2_eq)
  then have 2: "?n div 65536 = a" unfolding 1 by (simp add: assms)
  show "?n div 65536 mod 256 = a" "?n div 256 mod 256 = b" using assms by (simp_all only: 1 2) simp_all
  show "?n mod 256 = c" unfolding n by (subst mod_mult_self1) (simp add: assms)
  have "?n < 64 * 262144" using assms by linarith
  then show "?n div 262144 < 64" by (rule less_mult_imp_div_less)
qed

lemma of_char_lt [simp]: "of_char c < (256 :: nat)"
  using of_char_mod_256 [of c] by (metis mod_less_divisor zero_less_numeral)

lemma quantum_index:
  assumes "n div 262144 < 64"
  shows "b64_index (b64_char (n div 262144)) = Some (n div 262144)"
    "b64_index (b64_char (n div 4096 mod 64)) = Some (n div 4096 mod 64)"
    "b64_index (b64_char (n div 64 mod 64)) = Some (n div 64 mod 64)"
    "b64_index (b64_char (n mod 64)) = Some (n mod 64)"
  using assms by simp_all

lemma b64_quanta_quantum:
  assumes "n div 262144 < 64"
  shows "b64_quanta (quantum n @ cs) =
           (case b64_quanta cs of None \<Rightarrow> None
            | Some bs \<Rightarrow> Some (byte_of (n div 65536) # byte_of (n div 256) # byte_of n # bs))"
  by (simp add: quantum_def quantum_index [OF assms] recompose Let_def split: option.split)

lemma b64_quanta_two:
  assumes "n div 262144 < 64" and "n mod 64 = 0"
  shows "b64_quanta (take 3 (quantum n) @ ''='') = Some [byte_of (n div 65536), byte_of (n div 256)]"
proof -
  from recompose [of n] have "n div 262144 * 262144 + n div 4096 mod 64 * 4096 + n div 64 mod 64 * 64 = n"
    by (simp only: assms(2) add_0_right)
  then show ?thesis by (simp add: quantum_def quantum_index [OF assms(1)] Let_def)
qed

lemma b64_quanta_one:
  assumes "n div 262144 < 64" and "n mod 64 = 0" and "n div 64 mod 64 = 0"
  shows "b64_quanta (take 2 (quantum n) @ ''=='') = Some [byte_of (n div 65536)]"
proof -
  from recompose [of n] have "n div 262144 * 262144 + n div 4096 mod 64 * 4096 = n"
    by (simp only: assms(2,3) mult_0 add_0_right)
  then show ?thesis by (simp add: quantum_def quantum_index [OF assms(1)] numeral_2_eq_2)
qed

lemma low_bits:
  fixes a b :: nat
  shows "a * 65536 mod 64 = 0" "a * 65536 div 64 mod 64 = 0" "(a * 65536 + b * 256) mod 64 = 0"
proof -
  have "a * 65536 = a * 1024 * 64" "a * 1024 = a * 16 * 64" "b * 256 = b * 4 * 64" by simp_all
  then show "a * 65536 mod 64 = 0" "a * 65536 div 64 mod 64 = 0" "(a * 65536 + b * 256) mod 64 = 0"
    by (metis mod_mult_self2_is_0, metis div_mult_self_is_m mod_mult_self2_is_0 zero_less_numeral,
        metis distrib_right mod_mult_self2_is_0)
qed

lemma byte_of_char: "k mod 256 = of_char c \<Longrightarrow> byte_of k = c"
  by (simp add: byte_of_def)

lemma b64_quanta_encode: "b64_quanta (b64_encode bs) = Some bs"
proof (induction bs rule: b64_encode.induct)
  case 1
  then show ?case by simp
next
  case (2 a)
  note g = bytes_of_group [of "of_char a" 0 0, OF of_char_lt zero_less_numeral zero_less_numeral, unfolded mult_0 add_0_right]
  from b64_quanta_one [OF g(4) low_bits(1,2)] show ?case by (simp only: b64_encode.simps byte_of_char [OF g(1)])
next
  case (3 a b)
  note g = bytes_of_group [of "of_char a" "of_char b" 0, OF of_char_lt of_char_lt zero_less_numeral, unfolded add_0_right]
  from b64_quanta_two [OF g(4) low_bits(3)] show ?case
    by (simp only: b64_encode.simps byte_of_char [OF g(1)] byte_of_char [OF g(2)])
next
  case (4 a b c bs)
  note g = bytes_of_group [of "of_char a" "of_char b" "of_char c", OF of_char_lt of_char_lt of_char_lt]
  show ?case
    by (simp only: b64_encode.simps b64_quanta_quantum [OF g(4)] 4 option.case
        byte_of_char [OF g(1)] byte_of_char [OF g(2)] byte_of_char [OF g(3)])
qed

lemma quantum_plain: "n div 262144 < 64 \<Longrightarrow> c \<in> set (quantum n) \<Longrightarrow> c \<noteq> CHR 0x0D \<and> c \<noteq> CHR 0x0A"
  by (auto simp: quantum_def)

lemma b64_encode_plain: "c \<in> set (b64_encode bs) \<Longrightarrow> c \<noteq> CHR 0x0D \<and> c \<noteq> CHR 0x0A"
proof (induction bs rule: b64_encode.induct)
  case (2 a)
  note g = bytes_of_group(4) [of "of_char a" 0 0, OF of_char_lt zero_less_numeral zero_less_numeral, unfolded mult_0 add_0_right]
  from 2 show ?case using quantum_plain [OF g, of c] by (auto dest: in_set_takeD)
next
  case (3 a b)
  note g = bytes_of_group(4) [of "of_char a" "of_char b" 0, OF of_char_lt of_char_lt zero_less_numeral, unfolded add_0_right]
  from 3 show ?case using quantum_plain [OF g, of c] by (auto dest: in_set_takeD)
next
  case (4 a b c' bs)
  note g = bytes_of_group(4) [of "of_char a" "of_char b" "of_char c'", OF of_char_lt of_char_lt of_char_lt]
  from 4 show ?case using quantum_plain [OF g, of c] by auto
qed simp

lemma b64_decode_encode: "b64_decode (b64_encode bs) = Some bs"
proof -
  have "filter (\<lambda>c. c \<noteq> CHR 0x0D \<and> c \<noteq> CHR 0x0A) (b64_encode bs) = b64_encode bs"
    by (simp add: filter_id_conv b64_encode_plain)
  then show ?thesis by (simp only: b64_decode_def b64_quanta_encode)
qed

section \<open>Packets\<close>

definition new_udp_packet :: "string \<Rightarrow> 'a option \<Rightarrow> 'a option \<Rightarrow> 'a udp_packet_msg" where
  "new_udp_packet buf laddr raddr =
     \<lparr>up_content = b64_encode buf, up_local_addr = laddr, up_remote_addr = raddr\<rparr>"

definition get_content :: "'a udp_packet_msg \<Rightarrow> string option" where
  "get_content m = b64_decode (up_content m)"

lemma get_content_new [simp]: "get_content (new_udp_packet buf l r) = Some buf"
  by (simp add: get_content_def new_udp_packet_def b64_decode_encode)

lemma new_udp_packet_remote [simp]: "up_remote_addr (new_udp_packet buf l r) = r"
  by (simp add: new_udp_packet_def)

section \<open>\<^verbatim>\<open>ForwardUserConn\<close>: the users' side\<close>

text \<open>
  A packet from the channel becomes a datagram to its remote address, or is skipped; a datagram from
  a user, cut to the buffer's size by the system, becomes a packet, or is dropped when the channel is full.
\<close>

definition user_conn_write :: "'a udp_packet_msg \<Rightarrow> (string \<times> 'a option) option" where
  "user_conn_write udpMsg = map_option (\<lambda>buf. (buf, up_remote_addr udpMsg)) (get_content udpMsg)"

definition user_conn_read :: "nat \<Rightarrow> bool \<Rightarrow> string \<Rightarrow> 'a \<Rightarrow> 'a udp_packet_msg option" where
  "user_conn_read bufSize room datagram remoteAddr =
     (if room then Some (new_udp_packet (take bufSize datagram) None (Some remoteAddr)) else None)"

section \<open>\<^verbatim>\<open>Forwarder\<close>: the service's side\<close>

text \<open>
  The table of connections by the text of the user's address, and the running \<open>writerFn\<close>s with the
  address each answers; \<open>fw_next\<close> is the handle of the next socket, \<open>fw_shut\<close> the sockets that were
  closed after a failed write, whose \<open>writerFn\<close> ends at its next read.
\<close>

record 'a forwarder =
  fw_conns :: "string \<rightharpoonup> nat"
  fw_writers :: "nat \<rightharpoonup> 'a option"
  fw_shut :: "nat set"
  fw_next :: nat

definition new_forwarder :: "'a forwarder" where
  "new_forwarder = \<lparr>fw_conns = (\<lambda>_. None), fw_writers = (\<lambda>_. None), fw_shut = {}, fw_next = 0\<rparr>"

text \<open>
  \<open>ServiceGot user conn bytes\<close>: the bytes were written to the service over \<open>conn\<close> for the address
  with text \<open>user\<close>; \<open>ServerGot conn bytes m\<close>: the bytes read from \<open>conn\<close> were queued for the server as \<open>m\<close>.
\<close>

datatype 'a fw_effect =
    ServiceGot string nat string
  | ServerGot nat string "'a udp_packet_msg"

text \<open>A packet from the server: what dialling and writing give are arguments.\<close>

definition fw_packet ::
    "('a option \<Rightarrow> string) \<Rightarrow> bool \<Rightarrow> bool \<Rightarrow> 'a udp_packet_msg \<Rightarrow> 'a forwarder \<Rightarrow> 'a forwarder \<times> 'a fw_effect list" where
  "fw_packet addr_str dial_ok write_ok udpMsg fw =
     (case get_content udpMsg of
        None \<Rightarrow> (fw, [])
      | Some buf \<Rightarrow>
          let addr = addr_str (up_remote_addr udpMsg) in
          (case fw_conns fw addr of
             Some c \<Rightarrow>
               if c \<in> fw_shut fw \<or> \<not> write_ok then (fw\<lparr>fw_shut := insert c (fw_shut fw)\<rparr>, [])
               else (fw, [ServiceGot addr c buf])
           | None \<Rightarrow>
               if \<not> dial_ok then (fw, [])
               else
                 let c = fw_next fw;
                     fw = fw\<lparr>fw_conns := (fw_conns fw)(addr \<mapsto> c), fw_next := Suc c\<rparr>;
                     (fw, effects) = (if write_ok then (fw, [ServiceGot addr c buf])
                                      else (fw\<lparr>fw_shut := insert c (fw_shut fw)\<rparr>, []))
                 in (fw\<lparr>fw_writers := (fw_writers fw)(c \<mapsto> up_remote_addr udpMsg)\<rparr>, effects)))"

text \<open>The end of \<open>writerFn\<close>: its deferred function.\<close>

definition fw_writer_exit :: "('a option \<Rightarrow> string) \<Rightarrow> nat \<Rightarrow> 'a option \<Rightarrow> 'a forwarder \<Rightarrow> 'a forwarder" where
  "fw_writer_exit addr_str c raddr fw =
     fw\<lparr>fw_conns := (fw_conns fw)(addr_str raddr := None), fw_writers := (fw_writers fw)(c := None),
        fw_shut := insert c (fw_shut fw)\<rparr>"

text \<open>
  One read of \<open>writerFn\<close> on \<open>c\<close>: \<open>None\<close> for an error, such as 30 seconds without a datagram. A full
  channel drops the packet, a closed one ends the function.
\<close>

definition fw_reply ::
    "('a option \<Rightarrow> string) \<Rightarrow> nat \<Rightarrow> bool \<Rightarrow> bool \<Rightarrow> nat \<Rightarrow> string option \<Rightarrow> 'a forwarder \<Rightarrow> 'a forwarder \<times> 'a fw_effect list" where
  "fw_reply addr_str bufSize closed room c got fw =
     (case fw_writers fw c of
        None \<Rightarrow> (fw, [])
      | Some raddr \<Rightarrow>
          (case (if c \<in> fw_shut fw then None else got) of
             None \<Rightarrow> (fw_writer_exit addr_str c raddr fw, [])
           | Some datagram \<Rightarrow>
               if closed then (fw_writer_exit addr_str c raddr fw, [])
               else if room then
                 (let buf = take bufSize datagram in (fw, [ServerGot c buf (new_udp_packet buf None raddr)]))
               else (fw, [])))"

datatype 'a fw_event =
    FwPacket bool bool "'a udp_packet_msg"
  | FwReply bool bool nat "string option"

fun fw_step :: "('a option \<Rightarrow> string) \<Rightarrow> nat \<Rightarrow> 'a fw_event \<Rightarrow> 'a forwarder \<Rightarrow> 'a forwarder \<times> 'a fw_effect list" where
  "fw_step addr_str bufSize (FwPacket dial_ok write_ok m) fw = fw_packet addr_str dial_ok write_ok m fw"
| "fw_step addr_str bufSize (FwReply closed room c got) fw = fw_reply addr_str bufSize closed room c got fw"

fun fw_run :: "('a option \<Rightarrow> string) \<Rightarrow> nat \<Rightarrow> 'a fw_event list \<Rightarrow> 'a forwarder \<Rightarrow> 'a forwarder \<times> 'a fw_effect list" where
  "fw_run addr_str bufSize [] fw = (fw, [])"
| "fw_run addr_str bufSize (e # es) fw =
     (case fw_step addr_str bufSize e fw of (fw', xs) \<Rightarrow>
        (case fw_run addr_str bufSize es fw' of (fw'', ys) \<Rightarrow> (fw'', xs @ ys)))"

section \<open>A connection per user\<close>

text \<open>
  The table and the running functions agree, and a connection belongs to one user for good: \<open>own\<close>
  gives the text of the user's address of every connection ever opened.
\<close>

definition fw_inv :: "('a option \<Rightarrow> string) \<Rightarrow> (nat \<rightharpoonup> string) \<Rightarrow> 'a forwarder \<Rightarrow> bool" where
  "fw_inv addr_str own fw \<longleftrightarrow>
     (\<forall>addr c. fw_conns fw addr = Some c \<longleftrightarrow> (\<exists>raddr. fw_writers fw c = Some raddr \<and> addr_str raddr = addr)) \<and>
     (\<forall>c raddr. fw_writers fw c = Some raddr \<longrightarrow> own c = Some (addr_str raddr)) \<and>
     (\<forall>c. own c \<noteq> None \<longleftrightarrow> c < fw_next fw)"

fun effect_ok :: "('a option \<Rightarrow> string) \<Rightarrow> (nat \<rightharpoonup> string) \<Rightarrow> 'a fw_effect \<Rightarrow> bool" where
  "effect_ok addr_str own (ServiceGot addr c buf) \<longleftrightarrow> own c = Some addr"
| "effect_ok addr_str own (ServerGot c buf m) \<longleftrightarrow>
     own c = Some (addr_str (up_remote_addr m)) \<and> get_content m = Some buf"

lemma effect_ok_mono: "effect_ok addr_str own x \<Longrightarrow> own \<subseteq>\<^sub>m own' \<Longrightarrow> effect_ok addr_str own' x"
  by (cases x) (auto simp: map_le_def dom_def)

lemma fw_inv_new: "fw_inv addr_str (\<lambda>_. None) new_forwarder"
  by (simp add: fw_inv_def new_forwarder_def)

lemma fw_inv_shut [simp]: "fw_inv addr_str own (fw\<lparr>fw_shut := S\<rparr>) \<longleftrightarrow> fw_inv addr_str own fw"
  by (simp add: fw_inv_def)

lemma fw_inv_open:
  assumes inv: "fw_inv addr_str own fw" and new: "fw_conns fw (addr_str raddr) = None"
  shows "fw_inv addr_str (own(fw_next fw \<mapsto> addr_str raddr))
           (fw\<lparr>fw_conns := (fw_conns fw)(addr_str raddr \<mapsto> fw_next fw), fw_next := Suc (fw_next fw), fw_shut := S,
              fw_writers := (fw_writers fw)(fw_next fw \<mapsto> raddr)\<rparr>)"
    and "own \<subseteq>\<^sub>m own(fw_next fw \<mapsto> addr_str raddr)"
proof -
  let ?c = "fw_next fw"
  from inv have conns: "\<And>addr c. fw_conns fw addr = Some c \<longleftrightarrow> (\<exists>r. fw_writers fw c = Some r \<and> addr_str r = addr)"
    and owns: "\<And>c r. fw_writers fw c = Some r \<Longrightarrow> own c = Some (addr_str r)"
    and dom: "\<And>c. own c \<noteq> None \<longleftrightarrow> c < fw_next fw"
    unfolding fw_inv_def by blast+
  have none: "own ?c = None" using dom [of ?c] by blast
  then have fresh: "fw_writers fw ?c = None" using owns [of ?c] by (cases "fw_writers fw ?c") auto
  have other: "fw_writers fw c = Some r \<Longrightarrow> addr_str r \<noteq> addr_str raddr" for c r
    using conns [of "addr_str r" c] new by auto
  have unused: "fw_conns fw addr \<noteq> Some ?c" for addr using conns [of addr ?c] fresh by simp
  show "own \<subseteq>\<^sub>m own(?c \<mapsto> addr_str raddr)" using none by (auto simp: map_le_def)
  show "fw_inv addr_str (own(?c \<mapsto> addr_str raddr))
           (fw\<lparr>fw_conns := (fw_conns fw)(addr_str raddr \<mapsto> ?c), fw_next := Suc ?c, fw_shut := S,
              fw_writers := (fw_writers fw)(?c \<mapsto> raddr)\<rparr>)"
    unfolding fw_inv_def
  proof (intro conjI allI)
    fix addr c
    show "(fw_conns (fw\<lparr>fw_conns := (fw_conns fw)(addr_str raddr \<mapsto> ?c), fw_next := Suc ?c, fw_shut := S,
              fw_writers := (fw_writers fw)(?c \<mapsto> raddr)\<rparr>) addr = Some c) =
          (\<exists>r. fw_writers (fw\<lparr>fw_conns := (fw_conns fw)(addr_str raddr \<mapsto> ?c), fw_next := Suc ?c, fw_shut := S,
              fw_writers := (fw_writers fw)(?c \<mapsto> raddr)\<rparr>) c = Some r \<and> addr_str r = addr)"
      using conns [of addr c] other [of c] unused [of addr] by (cases "c = ?c") auto
  next
    fix c
    show "((own(?c \<mapsto> addr_str raddr)) c \<noteq> None) = (c < fw_next (fw\<lparr>fw_conns := (fw_conns fw)(addr_str raddr \<mapsto> ?c),
       fw_next := Suc ?c, fw_shut := S, fw_writers := (fw_writers fw)(?c \<mapsto> raddr)\<rparr>))"
      using dom [of c] by auto
  qed (use owns in \<open>auto split: if_split_asm\<close>)
qed

lemma fw_packet_inv:
  assumes "fw_inv addr_str own fw" and "fw_packet addr_str dial_ok write_ok m fw = (fw', xs)"
  shows "\<exists>own'. own \<subseteq>\<^sub>m own' \<and> fw_inv addr_str own' fw' \<and> (\<forall>x \<in> set xs. effect_ok addr_str own' x)"
proof (cases "get_content m")
  case None
  then show ?thesis using assms by (intro exI [of _ own]) (auto simp: fw_packet_def)
next
  case (Some buf)
  note content = this
  show ?thesis
  proof (cases "fw_conns fw (addr_str (up_remote_addr m))")
    case (Some c)
    with assms(1) have "own c = Some (addr_str (up_remote_addr m))" unfolding fw_inv_def by metis
    then show ?thesis using assms content Some
      by (intro exI [of _ own]) (auto simp: fw_packet_def Let_def split: if_split_asm)
  next
    case None
    let ?own = "own(fw_next fw \<mapsto> addr_str (up_remote_addr m))"
    note opened = fw_inv_open [OF assms(1) None]
    show ?thesis
    proof (cases dial_ok)
      case False
      then show ?thesis using assms content None by (intro exI [of _ own]) (auto simp: fw_packet_def Let_def)
    next
      case True
      have "fw_inv addr_str ?own fw'" "\<forall>x \<in> set xs. effect_ok addr_str ?own x"
        using assms(2) content None True opened(1) [of "fw_shut fw"] opened(1) [of "insert (fw_next fw) (fw_shut fw)"]
        by (auto simp: fw_packet_def Let_def split: if_split_asm)
      with opened(2) show ?thesis by blast
    qed
  qed
qed

lemma fw_writer_exit_inv:
  assumes inv: "fw_inv addr_str own fw" and w: "fw_writers fw c = Some raddr"
  shows "fw_inv addr_str own (fw_writer_exit addr_str c raddr fw)"
proof -
  from inv have conns: "\<And>addr c. fw_conns fw addr = Some c \<longleftrightarrow> (\<exists>r. fw_writers fw c = Some r \<and> addr_str r = addr)"
    and owns: "\<And>c r. fw_writers fw c = Some r \<Longrightarrow> own c = Some (addr_str r)"
    and dom: "\<And>c. own c \<noteq> None \<longleftrightarrow> c < fw_next fw"
    unfolding fw_inv_def by blast+
  have "fw_conns fw (addr_str raddr) = Some c" using conns w by blast
  then have other: "c' = c" if "fw_writers fw c' = Some r" "addr_str r = addr_str raddr" for c' r
    using conns [of "addr_str r" c'] that by simp
  show ?thesis unfolding fw_inv_def
  proof (intro conjI allI impI)
    fix addr c'
    show "(fw_conns (fw_writer_exit addr_str c raddr fw) addr = Some c') =
          (\<exists>r. fw_writers (fw_writer_exit addr_str c raddr fw) c' = Some r \<and> addr_str r = addr)"
    proof (cases "c' = c")
      case True
      then show ?thesis by (auto simp: fw_writer_exit_def conns w)
    next
      case False
      then show ?thesis using other [of c'] by (auto simp: fw_writer_exit_def conns)
    qed
  next
    fix c' r
    assume "fw_writers (fw_writer_exit addr_str c raddr fw) c' = Some r"
    then show "own c' = Some (addr_str r)" using owns by (simp add: fw_writer_exit_def split: if_split_asm)
  next
    fix c'
    show "(own c' \<noteq> None) = (c' < fw_next (fw_writer_exit addr_str c raddr fw))"
      using dom by (simp add: fw_writer_exit_def)
  qed
qed

lemma fw_reply_inv:
  assumes "fw_inv addr_str own fw" and "fw_reply addr_str bufSize closed room c got fw = (fw', xs)"
  shows "fw_inv addr_str own fw' \<and> (\<forall>x \<in> set xs. effect_ok addr_str own x)"
proof (cases "fw_writers fw c")
  case None
  then show ?thesis using assms by (auto simp: fw_reply_def)
next
  case (Some raddr)
  with assms(1) have "own c = Some (addr_str raddr)" unfolding fw_inv_def by blast
  then show ?thesis using assms Some fw_writer_exit_inv [OF assms(1) Some]
    by (auto simp: fw_reply_def Let_def split: if_split_asm option.split_asm)
qed

lemma fw_step_inv:
  assumes inv: "fw_inv addr_str own fw" and step: "fw_step addr_str bufSize e fw = (fw', xs)"
  shows "\<exists>own'. own \<subseteq>\<^sub>m own' \<and> fw_inv addr_str own' fw' \<and> (\<forall>x \<in> set xs. effect_ok addr_str own' x)"
proof (cases e)
  case (FwPacket dial_ok write_ok m)
  with step have "fw_packet addr_str dial_ok write_ok m fw = (fw', xs)" by simp
  with inv show ?thesis by (rule fw_packet_inv)
next
  case (FwReply closed room c got)
  with step have "fw_reply addr_str bufSize closed room c got fw = (fw', xs)" by simp
  from fw_reply_inv [OF inv this] show ?thesis by (intro exI [of _ own]) simp
qed

lemma fw_run_inv:
  assumes "fw_inv addr_str own fw" and "fw_run addr_str bufSize es fw = (fw', xs)"
  shows "\<exists>own'. own \<subseteq>\<^sub>m own' \<and> fw_inv addr_str own' fw' \<and> (\<forall>x \<in> set xs. effect_ok addr_str own' x)"
  using assms
proof (induction es arbitrary: own fw fw' xs)
  case Nil
  then show ?case by (intro exI [of _ own]) auto
next
  case (Cons e es)
  obtain fw1 ys where s: "fw_step addr_str bufSize e fw = (fw1, ys)" by (cases "fw_step addr_str bufSize e fw")
  obtain fw2 zs where r: "fw_run addr_str bufSize es fw1 = (fw2, zs)" by (cases "fw_run addr_str bufSize es fw1")
  from s Cons.prems(1) obtain own1 where 1: "own \<subseteq>\<^sub>m own1" "fw_inv addr_str own1 fw1" "\<forall>x \<in> set ys. effect_ok addr_str own1 x"
    using fw_step_inv by blast
  from Cons.IH [OF 1(2) r] obtain own2 where 2: "own1 \<subseteq>\<^sub>m own2" "fw_inv addr_str own2 fw2" "\<forall>x \<in> set zs. effect_ok addr_str own2 x"
    by blast
  from Cons.prems(2) s r have out: "fw' = fw2" "xs = ys @ zs" by auto
  have "\<forall>x \<in> set xs. effect_ok addr_str own2 x" using 1(3) 2(1,3) effect_ok_mono by (fastforce simp: out)
  with map_le_trans [OF 1(1) 2(1)] 2(2) show ?case by (auto simp: out(1))
qed

section \<open>Properties\<close>

text \<open>C31: In every run of the forwarder, from an empty table, the answers read from a connection go to
  the server addressed to the user whose datagrams were written to that connection, whatever other
  users sent, failed dials and writes, and time-outs; and decoding what is queued gives the bytes read.\<close>

theorem udp_answers_return:
  assumes "ServiceGot user c sent \<in> set (snd (fw_run addr_str bufSize es new_forwarder))"
    and "ServerGot c answer m \<in> set (snd (fw_run addr_str bufSize es new_forwarder))"
  shows "addr_str (up_remote_addr m) = user \<and> get_content m = Some answer"
proof -
  obtain fw' xs where r: "fw_run addr_str bufSize es new_forwarder = (fw', xs)"
    by (cases "fw_run addr_str bufSize es new_forwarder")
  from fw_run_inv [OF fw_inv_new r] obtain own where ok: "\<forall>x \<in> set xs. effect_ok addr_str own x" by blast
  from assms r ok have "effect_ok addr_str own (ServiceGot user c sent)" "effect_ok addr_str own (ServerGot c answer m)"
    by (metis snd_conv)+
  then show ?thesis by simp
qed

definition sample_addr_str :: "string option \<Rightarrow> string" where
  "sample_addr_str a = (case a of None \<Rightarrow> ''<nil>'' | Some s \<Rightarrow> s)"

text \<open>Two users; the second answer is to the first user.\<close>

definition sample_fw_events :: "string fw_event list" where
  "sample_fw_events =
     [FwPacket True True (new_udp_packet ''q1'' None (Some ''1.1.1.1:5'')),
      FwPacket True True (new_udp_packet ''q2'' None (Some ''2.2.2.2:6'')),
      FwReply False True 1 (Some ''a2''), FwReply False True 0 (Some ''a1'')]"

lemma sample_fw_effects:
  "snd (fw_run sample_addr_str 1500 sample_fw_events new_forwarder) =
     [ServiceGot ''1.1.1.1:5'' 0 ''q1'', ServiceGot ''2.2.2.2:6'' 1 ''q2'',
      ServerGot 1 ''a2'' (new_udp_packet ''a2'' None (Some ''2.2.2.2:6'')),
      ServerGot 0 ''a1'' (new_udp_packet ''a1'' None (Some ''1.1.1.1:5''))]"
  by (simp add: sample_fw_events_def new_forwarder_def fw_packet_def fw_reply_def sample_addr_str_def Let_def)

lemma udp_answers_return_witness:
  "sample_addr_str (up_remote_addr (new_udp_packet ''a1'' None (Some ''1.1.1.1:5''))) = ''1.1.1.1:5'' \<and>
   get_content (new_udp_packet ''a1'' None (Some ''1.1.1.1:5'')) = Some ''a1''"
  by (rule udp_answers_return [where c = 0 and sent = "''q1''" and es = sample_fw_events and bufSize = 1500])
    (simp_all add: sample_fw_effects)

end
