(* ===== verification/Rate_Limit.thy ===== *)
theory Rate_Limit
  imports Prelude
begin

text \<open>
  The bandwidth limit of a proxy: \<^verbatim>\<open>frp/pkg/util/limit/writer.go\<close> and
  \<^verbatim>\<open>reader.go\<close>. The limiter is \<^verbatim>\<open>golang.org/x/time/rate\<close>: \<open>wait n\<close> is the error
  of \<^verbatim>\<open>WaitN\<close>, \<open>None\<close> when it lets \<open>n\<close> bytes pass, and the burst is a number.
  The connection below is \<open>wr\<close> or \<open>rd\<close> over a state of its own.
\<close>

type_synonym ('s, 'e) io_write = "'s \<Rightarrow> string \<Rightarrow> nat \<times> 'e option \<times> 's"

section \<open>The limited writer and reader\<close>

record ('s, 'e) limiter =
  lm_burst :: nat
  lm_wait :: "nat \<Rightarrow> 'e option"

text \<open>
  The loop of \<^verbatim>\<open>Write\<close>; \<open>None\<close> when it never returns, which a burst of 0 would cause.
\<close>

partial_function (option) limited_write_loop ::
    "('s, 'e) limiter \<Rightarrow> ('s, 'e) io_write \<Rightarrow> nat \<Rightarrow> 's \<Rightarrow> string \<Rightarrow> (nat \<times> 'e option \<times> 's) option" where
  "limited_write_loop lm wr n s p =
     (if p = [] then Some (n, None, s)
      else
        (case lm_wait lm (if lm_burst lm < length p then lm_burst lm else length p) of
           Some e \<Rightarrow> Some (n, Some e, s)
         | None \<Rightarrow>
             (case wr s (take (if lm_burst lm < length p then lm_burst lm else length p) p) of (nn, err, s') \<Rightarrow>
                (case err of
                   Some e \<Rightarrow> Some (n + nn, Some e, s')
                 | None \<Rightarrow> limited_write_loop lm wr (n + nn) s'
                             (drop (if lm_burst lm < length p then lm_burst lm else length p) p)))))"

definition limited_write ::
    "('s, 'e) limiter \<Rightarrow> ('s, 'e) io_write \<Rightarrow> 's \<Rightarrow> string \<Rightarrow> (nat \<times> 'e option \<times> 's) option" where
  "limited_write lm wr s p = limited_write_loop lm wr 0 s p"

text \<open>
  \<^verbatim>\<open>Read\<close> into a buffer of \<open>room\<close> bytes; \<open>rd s n\<close> gives the bytes read, at most \<open>n\<close>, and
  the error. After a failed wait the count is returned with the error.
\<close>

definition limited_read ::
    "('s, 'e) limiter \<Rightarrow> ('s \<Rightarrow> nat \<Rightarrow> string \<times> 'e option \<times> 's) \<Rightarrow> 's \<Rightarrow> nat \<Rightarrow> string \<times> 'e option \<times> 's" where
  "limited_read lm rd s room =
     (case rd s (if lm_burst lm < room then lm_burst lm else room) of (bs, err, s') \<Rightarrow>
        (case err of
           Some e \<Rightarrow> (bs, Some e, s')
         | None \<Rightarrow> (bs, lm_wait lm (length bs), s')))"

section \<open>Every write returns\<close>

text \<open>
  The contract of \<^verbatim>\<open>io.Writer\<close>: the count is at most the length of the buffer, and a short count
  comes with an error.
\<close>

definition io_contract :: "('s, 'e) io_write \<Rightarrow> bool" where
  "io_contract wr \<longleftrightarrow>
     (\<forall>s p. fst (wr s p) \<le> length p \<and> (fst (snd (wr s p)) = None \<longrightarrow> fst (wr s p) = length p))"

lemma io_contractD:
  assumes "io_contract wr" and "wr s p = (n, err, s')"
  shows "n \<le> length p" and "err = None \<Longrightarrow> n = length p"
  using assms unfolding io_contract_def by (metis fst_conv snd_conv)+

lemma limited_write_loop_returns:
  assumes "io_contract wr" and "0 < lm_burst lm"
  shows "\<exists>k err s'. limited_write_loop lm wr n s p = Some (n + k, err, s') \<and> k \<le> length p \<and>
           (err = None \<longrightarrow> k = length p)"
proof (induction "length p" arbitrary: p n s rule: less_induct)
  case less
  show ?case
  proof (cases "p = []")
    case True
    then show ?thesis by (simp add: limited_write_loop.simps)
  next
    case False
    let ?e = "if lm_burst lm < length p then lm_burst lm else length p"
    have e: "0 < ?e" "?e \<le> length p" using False assms(2) by auto
    show ?thesis
    proof (cases "lm_wait lm ?e")
      case (Some x)
      then show ?thesis using False by (simp add: limited_write_loop.simps [of _ _ _ _ p])
    next
      case None
      obtain nn err s' where w: "wr s (take ?e p) = (nn, err, s')" by (cases "wr s (take ?e p)")
      from io_contractD [OF assms(1) w] e(2)
      have nn: "nn \<le> ?e" "err = None \<Longrightarrow> nn = ?e" by (simp_all only: length_take min_absorb2)
      have unf: "limited_write_loop lm wr n s p =
          (case err of Some x \<Rightarrow> Some (n + nn, Some x, s') | None \<Rightarrow> limited_write_loop lm wr (n + nn) s' (drop ?e p))"
        using False by (subst limited_write_loop.simps) (simp only: None w if_False option.case prod.case)
      show ?thesis
      proof (cases err)
        case None
        have "length (drop ?e p) < length p" using e by simp
        from less [OF this, of "n + nn" s'] obtain k err' s'' where
          "limited_write_loop lm wr (n + nn) s' (drop ?e p) = Some (n + nn + k, err', s'')"
          "k \<le> length (drop ?e p)" "err' = None \<longrightarrow> k = length (drop ?e p)" by blast
        moreover from nn(2) None have "nn = ?e" by simp
        ultimately have "limited_write_loop lm wr n s p = Some (n + (nn + k), err', s'')"
          "nn + k \<le> length p" "err' = None \<longrightarrow> nn + k = length p"
          using e(2) None by (simp_all only: unf option.case length_drop add.assoc) linarith+
        then show ?thesis by blast
      next
        case (Some x)
        have "limited_write_loop lm wr n s p = Some (n + nn, Some x, s')" by (simp only: unf Some option.case)
        moreover have "nn \<le> length p" using nn(1) e(2) by linarith
        ultimately show ?thesis by blast
      qed
    qed
  qed
qed

text \<open>The writer that appends to what was written, for a peer that takes everything.\<close>

definition append_writer :: "(string list, unit) io_write" where
  "append_writer s p = (length p, None, s @ [p])"

text \<open>A limiter as the library documents it: more than the burst is refused at once.\<close>

definition burst_limiter :: "nat \<Rightarrow> ('s, unit) limiter" where
  "burst_limiter b = \<lparr>lm_burst = b, lm_wait = (\<lambda>n. if n \<le> b then None else Some ())\<rparr>"

section \<open>Properties\<close>

text \<open>C40: A write through a bandwidth limit with a positive burst returns, whatever the limiter answers,
  and keeps the contract of \<^verbatim>\<open>io.Writer\<close> that the connection below keeps: it counts at most the
  bytes it was given, and all of them when it reports no error.\<close>

theorem limited_write_returns:
  assumes "io_contract wr" and "0 < lm_burst lm"
  shows "\<exists>n err s'. limited_write lm wr s p = Some (n, err, s') \<and> n \<le> length p \<and> (err = None \<longrightarrow> n = length p)"
  using limited_write_loop_returns [OF assms, of 0 s p] by (simp only: limited_write_def add_0)

lemma limited_write_returns_witness:
  "limited_write (burst_limiter 2) append_writer [] ''abcde'' = Some (5, None, [''ab'', ''cd'', ''e''])"
proof -
  have "limited_write (burst_limiter 2) append_writer [] ''abcde'' = Some (5, None, [''ab'', ''cd'', ''e''])"
    by (simp add: limited_write_def limited_write_loop.simps burst_limiter_def append_writer_def)
  with limited_write_returns [where lm = "burst_limiter 2" and wr = append_writer and s = "[]" and p = "''abcde''"]
  show ?thesis by (simp add: append_writer_def burst_limiter_def io_contract_def)
qed

text \<open>What reaches the connection: the buffer, cut into pieces of at most the burst.\<close>

lemma limited_write_pieces:
  assumes "0 < b"
  shows "\<exists>ws. limited_write_loop (burst_limiter b) append_writer n s p = Some (n + length p, None, s @ ws) \<and>
           concat ws = p \<and> (\<forall>w \<in> set ws. w \<noteq> [] \<and> length w \<le> b)"
proof (induction "length p" arbitrary: p n s rule: less_induct)
  case less
  show ?case
  proof (cases "p = []")
    case True
    then show ?thesis by (simp add: limited_write_loop.simps)
  next
    case False
    let ?e = "if b < length p then b else length p"
    have e: "0 < ?e" "?e \<le> length p" "?e \<le> b" using False assms by auto
    then have "length (drop ?e p) < length p" by simp
    from less [OF this, of "n + ?e" "s @ [take ?e p]"] obtain ws where
      "limited_write_loop (burst_limiter b) append_writer (n + ?e) (s @ [take ?e p]) (drop ?e p) =
         Some (n + ?e + length (drop ?e p), None, (s @ [take ?e p]) @ ws)"
      "concat ws = drop ?e p" "\<forall>w \<in> set ws. w \<noteq> [] \<and> length w \<le> b" by blast
    moreover have "limited_write_loop (burst_limiter b) append_writer n s p =
        limited_write_loop (burst_limiter b) append_writer (n + ?e) (s @ [take ?e p]) (drop ?e p)"
      using False by (subst limited_write_loop.simps) (simp add: burst_limiter_def append_writer_def)
    ultimately have "limited_write_loop (burst_limiter b) append_writer n s p = Some (n + length p, None, s @ take ?e p # ws)"
      "concat (take ?e p # ws) = p" "\<forall>w \<in> set (take ?e p # ws). w \<noteq> [] \<and> length w \<le> b"
      using e False by auto
    then show ?thesis by blast
  qed
qed

end
