(* ===== verification/Client_Health.thy ===== *)
theory Client_Health
  imports Prelude
begin

text \<open>
  The health check of a local service: \<^verbatim>\<open>frp/client/health/health.go\<close>. What dialling the service or
  requesting its URL gives is an argument; \<^verbatim>\<open>Start\<close> and \<^verbatim>\<open>Stop\<close> begin and end the sequence of rounds.
\<close>

section \<open>The monitor\<close>

definition go_duration :: "int \<Rightarrow> int" where
  "go_duration seconds = sint (word_of_int (seconds * 1000000000) :: 64 word)"

record monitor =
  mo_check_type :: string
  mo_interval :: int
  mo_timeout :: int
  mo_max_failed_times :: int
  mo_addr :: string
  mo_url :: string
  mo_failed_times :: "64 word"
  mo_status_ok :: bool

definition new_monitor :: "string \<Rightarrow> int \<Rightarrow> int \<Rightarrow> int \<Rightarrow> string \<Rightarrow> string \<Rightarrow> monitor" where
  "new_monitor checkType intervalS timeoutS maxFailedTimes addr url =
     \<lparr>mo_check_type = checkType,
      mo_interval = go_duration (if intervalS \<le> 0 then 10 else intervalS),
      mo_timeout = go_duration (if timeoutS \<le> 0 then 3 else timeoutS),
      mo_max_failed_times = (if maxFailedTimes \<le> 0 then 1 else maxFailedTimes),
      mo_addr = addr, mo_url = url, mo_failed_times = 0, mo_status_ok = False\<rparr>"

text \<open>
  \<^verbatim>\<open>doCheck\<close>: \<open>dial_ok\<close> says whether the address can be dialled before the deadline, \<open>get\<close> what the
  request for the URL gives, the status or an error. The request does not use the deadline.
\<close>

definition do_tcp_check :: "bool \<Rightarrow> monitor \<Rightarrow> bool" where
  "do_tcp_check dial_ok m = (if mo_addr m = [] then True else dial_ok)"

definition do_http_check :: "(string \<Rightarrow> int option) \<Rightarrow> monitor \<Rightarrow> bool" where
  "do_http_check get m = (case get (mo_url m) of None \<Rightarrow> False | Some status \<Rightarrow> sgn status * (\<bar>status\<bar> div 100) = 2)"

definition do_check :: "bool \<Rightarrow> (string \<Rightarrow> int option) \<Rightarrow> monitor \<Rightarrow> bool" where
  "do_check dial_ok get m =
     (if mo_check_type m = ''tcp'' then do_tcp_check dial_ok m
      else if mo_check_type m = ''http'' then do_http_check get m
      else False)"

datatype health_callback = StatusNormal | StatusFailed

text \<open>One round of \<^verbatim>\<open>checkWorker\<close> for the outcome of the check; both callbacks are set.\<close>

definition check_round :: "bool \<Rightarrow> monitor \<Rightarrow> monitor \<times> health_callback option" where
  "check_round ok m =
     (if ok then
        (if \<not> mo_status_ok m then (m\<lparr>mo_status_ok := True\<rparr>, Some StatusNormal) else (m, None))
      else
        let m = m\<lparr>mo_failed_times := mo_failed_times m + 1\<rparr> in
        if mo_status_ok m \<and> sint (mo_failed_times m) \<ge> mo_max_failed_times m
        then (m\<lparr>mo_status_ok := False\<rparr>, Some StatusFailed) else (m, None))"

fun check_rounds :: "bool list \<Rightarrow> monitor \<Rightarrow> monitor \<times> health_callback list" where
  "check_rounds [] m = (m, [])"
| "check_rounds (ok # oks) m =
     (case check_round ok m of (m', c) \<Rightarrow>
      (case check_rounds oks m' of (m'', cs) \<Rightarrow> (m'', (case c of None \<Rightarrow> cs | Some c \<Rightarrow> c # cs))))"

section \<open>The verdict\<close>

text \<open>
  The specification of the status: a success makes the service healthy; a failure leaves it healthy
  only when it was and the failures since the monitor was made are fewer than the maximum.
\<close>

fun healthy :: "int \<Rightarrow> bool list \<Rightarrow> bool" where
  "healthy n [] = False"
| "healthy n (ok # rev_oks) =
     (if ok then True else healthy n rev_oks \<and> int (length (filter Not (ok # rev_oks))) < n)"

lemma new_monitor_fields [simp]:
  "mo_failed_times (new_monitor t i w n a u) = 0" "mo_status_ok (new_monitor t i w n a u) = False"
  "mo_max_failed_times (new_monitor t i w n a u) = (if n \<le> 0 then 1 else n)"
  by (simp_all add: new_monitor_def)

lemma check_rounds_append:
  "check_rounds (xs @ ys) m =
     (case check_rounds xs m of (m', cs) \<Rightarrow> case check_rounds ys m' of (m'', cs') \<Rightarrow> (m'', cs @ cs'))"
  by (induction xs arbitrary: m) (auto split: prod.split option.split)

lemma check_round_fields:
  assumes "check_round ok m = (m', c)"
  shows "mo_max_failed_times m' = mo_max_failed_times m" "mo_failed_times m' = mo_failed_times m + (if ok then 0 else 1)"
    "mo_status_ok m' \<longleftrightarrow> ok \<or> mo_status_ok m \<and> sint (mo_failed_times m') < mo_max_failed_times m"
    "c = (if mo_status_ok m' = mo_status_ok m then None else if mo_status_ok m' then Some StatusNormal else Some StatusFailed)"
  using assms by (auto simp: check_round_def Let_def split: if_split_asm)

text \<open>The callbacks that a sequence of statuses makes: one at every change.\<close>

fun changes :: "bool \<Rightarrow> bool list \<Rightarrow> health_callback list" where
  "changes s [] = []"
| "changes s (t # ts) = (if t = s then changes t ts else (if t then StatusNormal else StatusFailed) # changes t ts)"

lemma changes_snoc:
  "changes s (ts @ [t]) =
     changes s ts @ (if t = last (s # ts) then [] else [if t then StatusNormal else StatusFailed])"
  by (induction ts arbitrary: s) auto

definition failures :: "bool list \<Rightarrow> nat" where
  "failures oks = length (filter Not oks)"

lemma failures_snoc: "failures (oks @ [ok]) = failures oks + (if ok then 0 else 1)"
  by (simp add: failures_def)

lemma failures_bound: "failures oks \<le> length oks"
  by (simp add: failures_def)

text \<open>The statuses after each round, by the specification.\<close>

definition verdicts :: "int \<Rightarrow> bool list \<Rightarrow> bool list" where
  "verdicts n oks = map (\<lambda>k. healthy n (rev (take (Suc k) oks))) [0..<length oks]"

lemma verdicts_snoc: "verdicts n (oks @ [ok]) = verdicts n oks @ [healthy n (rev (oks @ [ok]))]"
  by (simp add: verdicts_def)

lemma last_verdicts: "last (False # verdicts n oks) = healthy n (rev oks)"
  by (cases oks rule: rev_cases) (simp_all add: verdicts_def)

lemma healthy_snoc:
  "healthy n (rev (oks @ [ok])) \<longleftrightarrow> ok \<or> healthy n (rev oks) \<and> int (failures (oks @ [ok])) < n"
  by (cases ok) (simp_all add: failures_def ac_simps flip: rev_filter)

lemma check_rounds_status:
  assumes "length oks < 2 ^ 63" and "m = new_monitor t i w n a u" and "N = (if n \<le> 0 then 1 else n)"
    and "check_rounds oks m = (m', cs)"
  shows "mo_max_failed_times m' = N \<and> mo_failed_times m' = of_nat (failures oks) \<and>
         mo_status_ok m' = healthy N (rev oks) \<and> cs = changes False (verdicts N oks)"
  using assms(1,4)
proof (induction oks arbitrary: m' cs rule: rev_induct)
  case Nil
  then show ?case using assms(2,3) by (auto simp: failures_def verdicts_def)
next
  case (snoc ok oks)
  obtain m1 cs1 where m1: "check_rounds oks m = (m1, cs1)" by (cases "check_rounds oks m")
  obtain m2 c where m2: "check_round ok m1 = (m2, c)" by (cases "check_round ok m1")
  from snoc.prems(2) m1 m2 have out: "m' = m2" "cs = cs1 @ (case c of None \<Rightarrow> [] | Some c \<Rightarrow> [c])"
    by (auto simp: check_rounds_append split: option.splits)
  from snoc.IH [OF _ m1] snoc.prems(1) have IH: "mo_max_failed_times m1 = N"
    "mo_failed_times m1 = of_nat (failures oks)" "mo_status_ok m1 = healthy N (rev oks)"
    "cs1 = changes False (verdicts N oks)" by simp_all
  have "failures (oks @ [ok]) < 2 ^ 63" using failures_bound [of "oks @ [ok]"] snoc.prems(1) by linarith
  then have s: "sint (of_nat (failures (oks @ [ok])) :: 64 word) = int (failures (oks @ [ok]))"
    by (rule sint_of_nat_64)
  have f: "mo_failed_times m2 = of_nat (failures (oks @ [ok]))"
    using check_round_fields(2) [OF m2] by (simp add: IH(2) failures_snoc)
  have st: "mo_status_ok m2 = healthy N (rev (oks @ [ok]))"
    using check_round_fields(3) [OF m2] by (simp only: f s IH healthy_snoc)
  have "cs = changes False (verdicts N (oks @ [ok]))"
    using check_round_fields(4) [OF m2] by (simp add: out(2) IH(3,4) st verdicts_snoc changes_snoc last_verdicts del: last.simps rev_append)
  then show ?case using check_round_fields(1) [OF m2] f st by (simp add: out(1) IH(1))
qed

section \<open>Properties\<close>

text \<open>For fewer than 2^63 rounds of checks, whatever their outcomes, the callbacks a health monitor
  makes are exactly the changes of the specified status, in order: it starts failed, a success makes
  the service healthy, and a failure makes it failed once the number of failures since the monitor was
  made has reached the configured maximum (1 when none is configured). So a callback is never repeated,
  and normal and failed alternate.\<close>

theorem monitor_callbacks:
  assumes "length oks < 2 ^ 63"
  shows "snd (check_rounds oks (new_monitor t i w n a u)) =
         changes False (verdicts (if n \<le> 0 then 1 else n) oks)"
proof -
  obtain m' cs where "check_rounds oks (new_monitor t i w n a u) = (m', cs)"
    by (cases "check_rounds oks (new_monitor t i w n a u)")
  with check_rounds_status [OF assms refl refl this] show ?thesis by simp
qed

lemma monitor_callbacks_witness:
  "snd (check_rounds [True, False, True, False] (new_monitor ''tcp'' 10 3 2 ''127.0.0.1:80'' [])) =
   [StatusNormal, StatusFailed]"
  using monitor_callbacks [of "[True, False, True, False]" "''tcp''" 10 3 2 "''127.0.0.1:80''" "[]"]
  by (simp add: verdicts_def)

text \<open>The failures need not be consecutive: a maximum of 3 is reached by three isolated failures.\<close>

lemma isolated_failures_count:
  "snd (check_rounds [True, False, True, False, True, False] (new_monitor ''tcp'' 10 3 3 ''127.0.0.1:80'' [])) =
   [StatusNormal, StatusFailed]"
  by (simp add: check_round_def new_monitor_def)

end
