(* ===== verification/Client_Proxy.thy ===== *)
theory Client_Proxy
  imports Proxy_Conf_Laws Client_Conf Channels Udp_Forward
begin

text \<open>
  The client's side of a proxy: \<^verbatim>\<open>frp/client/proxy/proxy.go\<close>, with the registry of the client's
  plugins (\<^verbatim>\<open>frp/pkg/plugin/client/plugin.go\<close>). A connection is a handle; what is put around
  it, the bandwidth limit, the encryption and the compression, is the list of its layers from the
  inside out. Plugins are opaque, their constructors are an argument; dialling, the proxy protocol
  header of \<^verbatim>\<open>go-proxyproto\<close> and the parsing of IP addresses are arguments too.
\<close>

section \<open>Plugins\<close>

type_synonym 'g plugin_creators = "string \<rightharpoonup> (str_map \<Rightarrow> 'g option \<times> string option)"

definition register_creator ::
    "string \<Rightarrow> (str_map \<Rightarrow> 'g option \<times> string option) \<Rightarrow> 'g plugin_creators \<Rightarrow> 'g plugin_creators" where
  "register_creator name fn creators = creators(name \<mapsto> fn)"

definition plugin_create :: "'g plugin_creators \<Rightarrow> string \<Rightarrow> str_map \<Rightarrow> 'g option \<times> string option" where
  "plugin_create creators name params =
     (case creators name of
        Some fn \<Rightarrow> fn params
      | None \<Rightarrow> (None, Some (''plugin ['' @ name @ ''] is not registered'')))"

section \<open>The proxy\<close>

datatype layer = LimitLayer nat | EncryptLayer string | CompressLayer

text \<open>
  The fields of \<^verbatim>\<open>BaseProxy\<close> and of the eight types. \<open>cx_close_ch\<close> is the channel of a SUDP
  proxy, the last five fields but it belong to a UDP proxy, \<open>cx_local_addr\<close> to both.
\<close>

record ('g, 'a, 'c) client_proxy =
  cx_conf :: proxy_conf
  cx_client_cfg :: client_common_conf
  cx_server_udp_port :: int
  cx_limiter :: "nat option"
  cx_plugin :: "'g option"
  cx_local_addr :: "'a option"
  cx_closed :: bool
  cx_work_conn :: "('c \<times> layer list) option"
  cx_read_ch :: "'a udp_packet_msg chan"
  cx_send_ch :: "'a message chan"
  cx_close_ch :: "unit chan"

definition new_client_proxy :: "proxy_conf \<Rightarrow> client_common_conf \<Rightarrow> int \<Rightarrow> ('g, 'a, 'c) client_proxy" where
  "new_client_proxy pxyConf clientCfg serverUDPPort =
     (let limitBytes = bw_i (bp_bandwidth_limit (get_base_info pxyConf)) in
      \<lparr>cx_conf = pxyConf, cx_client_cfg = clientCfg, cx_server_udp_port = serverUDPPort,
       cx_limiter = (if limitBytes > 0 then Some (nat limitBytes) else None),
       cx_plugin = None, cx_local_addr = None, cx_closed = False, cx_work_conn = None,
       cx_read_ch = NilChan, cx_send_ch = NilChan,
       cx_close_ch = (case pxyConf of SUDPConf _ \<Rightarrow> make_chan 0 | _ \<Rightarrow> NilChan)\<rparr>)"

definition cx_base :: "('g, 'a, 'c) client_proxy \<Rightarrow> base_proxy_conf" where
  "cx_base pxy = get_base_info (cx_conf pxy)"

definition cx_token :: "('g, 'a, 'c) client_proxy \<Rightarrow> string" where
  "cx_token pxy = tk_token (ac_token (cc_auth (cx_client_cfg pxy)))"

section \<open>\<^verbatim>\<open>HandleTCPWorkConnection\<close>\<close>

text \<open>The layers around a work connection; \<open>None\<close> when \<^verbatim>\<open>WithEncryption\<close> fails.\<close>

definition work_conn_layers :: "(string \<Rightarrow> bool) \<Rightarrow> nat option \<Rightarrow> base_proxy_conf \<Rightarrow> string \<Rightarrow> layer list option" where
  "work_conn_layers enc_ok limiter baseInfo encKey =
     (let limited = (case limiter of Some b \<Rightarrow> [LimitLayer b] | None \<Rightarrow> []) in
      if bp_use_encryption baseInfo \<and> \<not> enc_ok encKey then None
      else Some (limited @ (if bp_use_encryption baseInfo then [EncryptLayer encKey] else [])
                         @ (if bp_use_compression baseInfo then [CompressLayer] else [])))"

datatype transport_protocol = TCPv4 | TCPv6

record 'ip pp_header =
  ph_source_address :: 'ip
  ph_source_port :: "16 word"
  ph_destination_address :: 'ip
  ph_destination_port :: "16 word"
  ph_transport_protocol :: transport_protocol
  ph_version :: int

text \<open>The proxy protocol information and the message with the default destination filled in.\<close>

definition proxy_protocol_info ::
    "(string \<Rightarrow> 'ip) \<Rightarrow> ('ip pp_header \<Rightarrow> string) \<Rightarrow> base_proxy_conf \<Rightarrow> start_work_conn_msg \<Rightarrow> start_work_conn_msg \<times> string" where
  "proxy_protocol_info parse_ip write_header baseInfo m =
     (if bp_proxy_protocol_version baseInfo \<noteq> [] \<and> sw_src_addr m \<noteq> [] \<and> sw_src_port m \<noteq> 0 then
        let m = (if sw_dst_addr m = [] then m\<lparr>sw_dst_addr := ''127.0.0.1''\<rparr> else m)
        in (m, write_header
             \<lparr>ph_source_address = parse_ip (sw_src_addr m), ph_source_port = sw_src_port m,
              ph_destination_address = parse_ip (sw_dst_addr m), ph_destination_port = sw_dst_port m,
              ph_transport_protocol = (if CHR ''.'' \<in> set (sw_src_addr m) then TCPv4 else TCPv6),
              ph_version = (if bp_proxy_protocol_version baseInfo = ''v1'' then 1
                            else if bp_proxy_protocol_version baseInfo = ''v2'' then 2 else 0)\<rparr>)
      else (m, []))"

text \<open>
  What becomes of a work connection. \<open>TunnelPlugin\<close> gives the plugin the wrapped connection and the
  extra information, \<open>TunnelJoined\<close> names the local service and what is written to it first. In the two
  other cases the work connection is closed.
\<close>

datatype 'g tunnel =
    TunnelNoEncryption
  | TunnelPlugin 'g "layer list" string
  | TunnelNoLocal string
  | TunnelJoined string "layer list" string

record 'ip tunnel_env =
  te_enc_ok :: "string \<Rightarrow> bool"
  te_dial_ok :: "string \<Rightarrow> bool"
  te_parse_ip :: "string \<Rightarrow> 'ip"
  te_write_header :: "'ip pp_header \<Rightarrow> string"

definition local_service :: "local_svr_conf \<Rightarrow> string" where
  "local_service localInfo = ls_local_ip localInfo @ '':'' @ int_str (ls_local_port localInfo)"

definition handle_tcp_work_connection ::
    "'ip tunnel_env \<Rightarrow> local_svr_conf \<Rightarrow> 'g option \<Rightarrow> base_proxy_conf \<Rightarrow> nat option \<Rightarrow> string \<Rightarrow>
     start_work_conn_msg \<Rightarrow> 'g tunnel" where
  "handle_tcp_work_connection env localInfo proxyPlugin baseInfo limiter encKey m =
     (case work_conn_layers (te_enc_ok env) limiter baseInfo encKey of
        None \<Rightarrow> TunnelNoEncryption
      | Some remote \<Rightarrow>
          let extraInfo = snd (proxy_protocol_info (te_parse_ip env) (te_write_header env) baseInfo m) in
          (case proxyPlugin of
             Some g \<Rightarrow> TunnelPlugin g remote extraInfo
           | None \<Rightarrow>
               if te_dial_ok env (local_service localInfo)
               then TunnelJoined (local_service localInfo) remote extraInfo
               else TunnelNoLocal (local_service localInfo)))"

section \<open>The five types with a stream\<close>

text \<open>
  The code repeats \<^verbatim>\<open>Run\<close>, \<^verbatim>\<open>Close\<close> and \<^verbatim>\<open>InWorkConn\<close> for each type: a plugin is created
  when one is configured and replaces the field even when there was one; \<open>close\<close> gives the plugin that
  is closed.
\<close>

definition run_plugin :: "'g plugin_creators \<Rightarrow> ('g, 'a, 'c) client_proxy \<Rightarrow> ('g, 'a, 'c) client_proxy \<times> string option" where
  "run_plugin creators pxy =
     (let ls = bp_local_svr (cx_base pxy) in
      if ls_plugin ls \<noteq> [] then
        (case plugin_create creators (ls_plugin ls) (ls_plugin_params ls) of (p, err) \<Rightarrow> (pxy\<lparr>cx_plugin := p\<rparr>, err))
      else (pxy, None))"

definition in_work_conn_with ::
    "string \<Rightarrow> 'ip tunnel_env \<Rightarrow> start_work_conn_msg \<Rightarrow> ('g, 'a, 'c) client_proxy \<Rightarrow> 'g tunnel" where
  "in_work_conn_with key env m pxy =
     handle_tcp_work_connection env (bp_local_svr (cx_base pxy)) (cx_plugin pxy) (cx_base pxy) (cx_limiter pxy) key m"

definition cli_tcp_run :: "'g plugin_creators \<Rightarrow> ('g, 'a, 'c) client_proxy \<Rightarrow> ('g, 'a, 'c) client_proxy \<times> string option" where
  "cli_tcp_run creators pxy = run_plugin creators pxy"

definition cli_tcp_close :: "('g, 'a, 'c) client_proxy \<Rightarrow> 'g option" where
  "cli_tcp_close pxy = cx_plugin pxy"

definition cli_tcp_in_work_conn :: "'ip tunnel_env \<Rightarrow> start_work_conn_msg \<Rightarrow> ('g, 'a, 'c) client_proxy \<Rightarrow> 'g tunnel" where
  "cli_tcp_in_work_conn env m pxy = in_work_conn_with (cx_token pxy) env m pxy"

definition cli_tcpmux_run :: "'g plugin_creators \<Rightarrow> ('g, 'a, 'c) client_proxy \<Rightarrow> ('g, 'a, 'c) client_proxy \<times> string option" where
  "cli_tcpmux_run creators pxy = run_plugin creators pxy"

definition cli_tcpmux_close :: "('g, 'a, 'c) client_proxy \<Rightarrow> 'g option" where
  "cli_tcpmux_close pxy = cx_plugin pxy"

definition cli_tcpmux_in_work_conn :: "'ip tunnel_env \<Rightarrow> start_work_conn_msg \<Rightarrow> ('g, 'a, 'c) client_proxy \<Rightarrow> 'g tunnel" where
  "cli_tcpmux_in_work_conn env m pxy = in_work_conn_with (cx_token pxy) env m pxy"

definition cli_http_run :: "'g plugin_creators \<Rightarrow> ('g, 'a, 'c) client_proxy \<Rightarrow> ('g, 'a, 'c) client_proxy \<times> string option" where
  "cli_http_run creators pxy = run_plugin creators pxy"

definition cli_http_close :: "('g, 'a, 'c) client_proxy \<Rightarrow> 'g option" where
  "cli_http_close pxy = cx_plugin pxy"

definition cli_http_in_work_conn :: "'ip tunnel_env \<Rightarrow> start_work_conn_msg \<Rightarrow> ('g, 'a, 'c) client_proxy \<Rightarrow> 'g tunnel" where
  "cli_http_in_work_conn env m pxy = in_work_conn_with (cx_token pxy) env m pxy"

definition cli_https_run :: "'g plugin_creators \<Rightarrow> ('g, 'a, 'c) client_proxy \<Rightarrow> ('g, 'a, 'c) client_proxy \<times> string option" where
  "cli_https_run creators pxy = run_plugin creators pxy"

definition cli_https_close :: "('g, 'a, 'c) client_proxy \<Rightarrow> 'g option" where
  "cli_https_close pxy = cx_plugin pxy"

definition cli_https_in_work_conn :: "'ip tunnel_env \<Rightarrow> start_work_conn_msg \<Rightarrow> ('g, 'a, 'c) client_proxy \<Rightarrow> 'g tunnel" where
  "cli_https_in_work_conn env m pxy = in_work_conn_with (cx_token pxy) env m pxy"

definition cli_stcp_run :: "'g plugin_creators \<Rightarrow> ('g, 'a, 'c) client_proxy \<Rightarrow> ('g, 'a, 'c) client_proxy \<times> string option" where
  "cli_stcp_run creators pxy = run_plugin creators pxy"

definition cli_stcp_close :: "('g, 'a, 'c) client_proxy \<Rightarrow> 'g option" where
  "cli_stcp_close pxy = cx_plugin pxy"

definition cli_stcp_in_work_conn :: "'ip tunnel_env \<Rightarrow> start_work_conn_msg \<Rightarrow> ('g, 'a, 'c) client_proxy \<Rightarrow> 'g tunnel" where
  "cli_stcp_in_work_conn env m pxy = in_work_conn_with (cx_token pxy) env m pxy"

section \<open>XTCP\<close>

definition cli_xtcp_run :: "'g plugin_creators \<Rightarrow> ('g, 'a, 'c) client_proxy \<Rightarrow> ('g, 'a, 'c) client_proxy \<times> string option" where
  "cli_xtcp_run creators pxy = run_plugin creators pxy"

definition cli_xtcp_close :: "('g, 'a, 'c) client_proxy \<Rightarrow> 'g option" where
  "cli_xtcp_close pxy = cx_plugin pxy"

text \<open>
  What the work connection, the server's UDP port and the visitor answer. \<open>xe_client_write_ok\<close> says
  whether the message to the server could be sent, which covers a failed dial too; \<open>xe_resp\<close> is the
  answer, \<open>None\<close> when it could not be read or parsed; \<open>xe_visitor\<close> is the visitor's datagram,
  \<open>xe_reused\<close> what its buffer holds after it was given back to the pool.
\<close>

record xtcp_env =
  xe_sid :: "nat_hole_sid_msg option"
  xe_client_write_ok :: "nat_hole_client_msg \<Rightarrow> bool"
  xe_resp :: "nat_hole_resp_msg option"
  xe_listen_ok :: bool
  xe_visitor :: "string option"
  xe_reused :: string
  xe_session_ok :: bool

text \<open>The messages the client sends, in order: to the server, to the visitor and on the work connection.\<close>

datatype xtcp_sent =
    SentClientMsg string nat_hole_client_msg
  | SentDetect string int string
  | SentDetectOK
  | SentAck string

definition cli_xtcp_in_work_conn ::
    "'ip tunnel_env \<Rightarrow> xtcp_env \<Rightarrow> start_work_conn_msg \<Rightarrow> ('g, 'a, 'c) client_proxy \<Rightarrow>
     (unit, xtcp_sent list \<times> 'g tunnel option) go" where
  "cli_xtcp_in_work_conn env xe m pxy =
     (case xe_sid xe of
        None \<Rightarrow> Ok ([], None)
      | Some sidMsg \<Rightarrow>
          let clientMsg = \<lparr>hc_proxy_name = bp_proxy_name (cx_base pxy), hc_sid = hs_sid sidMsg\<rparr>;
              raddr = cc_server_addr (cx_client_cfg pxy) @ '':'' @ int_str (cx_server_udp_port pxy) in
          if \<not> xe_client_write_ok xe clientMsg then Ok ([], None)
          else
            let sent = [SentClientMsg raddr clientMsg] in
            (case xe_resp xe of
               None \<Rightarrow> Ok (sent, None)
             | Some resp \<Rightarrow>
                 if hr_error resp \<noteq> [] then Ok (sent, None)
                 else
                   let array = split_on CHR '':'' (hr_visitor_addr resp) in
                   go_then (go_index array 1) (\<lambda>portText.
                     case parse_int portText of
                       (_, Some e) \<Rightarrow> Ok (sent, None)
                     | (port, None) \<Rightarrow>
                         let sent = sent @ [SentDetect (array ! 0) port (hr_sid resp), SentDetectOK] in
                         if \<not> xe_listen_ok xe then Ok (sent, None)
                         else
                           (case xe_visitor xe of
                              None \<Rightarrow> Ok (sent, None)
                            | Some sid \<Rightarrow>
                                if sid \<noteq> hr_sid resp then Ok (sent, None)
                                else
                                  let sent = sent @ [SentAck (take (length sid) (xe_reused xe))] in
                                  if \<not> xe_session_ok xe then Ok (sent, None)
                                  else
                                    let sk = (case cx_conf pxy of XTCPConf c \<Rightarrow> xt_sk c | _ \<Rightarrow> []) in
                                    Ok (sent, Some (in_work_conn_with sk env m pxy))))))"

text \<open>An answer of the server whose visitor address has no colon is logged and then indexed all the same.\<close>

lemma xtcp_bad_visitor_address_panics:
  assumes "xe_sid xe = Some sid" and "\<And>m. xe_client_write_ok xe m" and "xe_resp xe = Some resp"
    and "hr_error resp = []" and "CHR '':'' \<notin> set (hr_visitor_addr resp)"
  shows "cli_xtcp_in_work_conn env xe m pxy = Panic"
  using assms by (simp add: cli_xtcp_in_work_conn_def split_on_no_sep go_index_def Let_def)

section \<open>UDP\<close>

text \<open>The connections that an operation closes are the second part of its result.\<close>

definition cli_udp_run :: "(string \<Rightarrow> string + 'a) \<Rightarrow> ('g, 'a, 'c) client_proxy \<Rightarrow> ('g, 'a, 'c) client_proxy \<times> string option" where
  "cli_udp_run resolve pxy =
     (case resolve (local_service (bp_local_svr (cx_base pxy))) of
        Inl e \<Rightarrow> (pxy\<lparr>cx_local_addr := None\<rparr>, Some e)
      | Inr a \<Rightarrow> (pxy\<lparr>cx_local_addr := Some a\<rparr>, None))"

definition close_if_made :: "'m chan \<Rightarrow> 'm chan option" where
  "close_if_made ch = (case ch of NilChan \<Rightarrow> Some NilChan | _ \<Rightarrow> chan_close ch)"

definition cli_udp_close :: "('g, 'a, 'c) client_proxy \<Rightarrow> (unit, ('g, 'a, 'c) client_proxy \<times> 'c list) go" where
  "cli_udp_close pxy =
     (if cx_closed pxy then Ok (pxy, [])
      else
        let pxy = pxy\<lparr>cx_closed := True\<rparr>;
            conns = (case cx_work_conn pxy of None \<Rightarrow> [] | Some (c, _) \<Rightarrow> [c]) in
        (case close_if_made (cx_read_ch pxy) of
           None \<Rightarrow> Panic
         | Some readCh \<Rightarrow>
             (case close_if_made (cx_send_ch pxy) of
                None \<Rightarrow> Panic
              | Some sendCh \<Rightarrow> Ok (pxy\<lparr>cx_read_ch := readCh, cx_send_ch := sendCh\<rparr>, conns))))"

text \<open>
  \<^verbatim>\<open>InWorkConn\<close> up to the start of the goroutines: whatever session there was is closed, the new
  connection is wrapped and gets channels of its own.
\<close>

definition cli_udp_in_work_conn ::
    "(string \<Rightarrow> bool) \<Rightarrow> 'c \<Rightarrow> ('g, 'a, 'c) client_proxy \<Rightarrow> (unit, ('g, 'a, 'c) client_proxy \<times> 'c list) go" where
  "cli_udp_in_work_conn enc_ok conn pxy =
     go_then (cli_udp_close pxy) (\<lambda>(pxy, closed).
       case work_conn_layers enc_ok (cx_limiter pxy) (cx_base pxy) (cx_token pxy) of
         None \<Rightarrow> Ok (pxy, closed @ [conn])
       | Some layers \<Rightarrow>
           Ok (pxy\<lparr>cx_work_conn := Some (conn, layers), cx_read_ch := make_chan 1024, cx_send_ch := make_chan 1024,
                   cx_closed := False\<rparr>, closed))"

text \<open>
  One turn of the goroutines of a session, over its channel; the result says whether the goroutine goes
  on. A turn that waits leaves the channel and goes on.
\<close>

definition udp_reader_turn :: "'a udp_packet_msg option \<Rightarrow> 'a udp_packet_msg chan \<Rightarrow> 'a udp_packet_msg chan \<times> bool" where
  "udp_reader_turn got readCh =
     (case got of
        None \<Rightarrow> (readCh, False)
      | Some udpMsg \<Rightarrow>
          (case chan_send udpMsg readCh of
             Sent readCh' \<Rightarrow> (readCh', True)
           | SendBlocks \<Rightarrow> (readCh, True)
           | SendPanics \<Rightarrow> (readCh, False)))"

definition udp_sender_turn :: "('a message \<Rightarrow> bool) \<Rightarrow> 'a message chan \<Rightarrow> 'a message chan \<times> bool" where
  "udp_sender_turn write_ok sendCh =
     (case chan_recv sendCh of
        Received rawMsg sendCh' \<Rightarrow> (sendCh', write_ok rawMsg)
      | RecvBlocks \<Rightarrow> (sendCh, True)
      | RecvClosed \<Rightarrow> (sendCh, False))"

definition zero_ping :: ping_msg where
  "zero_ping = \<lparr>pg_privilege_key = [], pg_timestamp = 0\<rparr>"

definition udp_heartbeat_turn :: "'a message chan \<Rightarrow> 'a message chan \<times> bool" where
  "udp_heartbeat_turn sendCh =
     (case chan_send (MPing zero_ping) sendCh of
        Sent sendCh' \<Rightarrow> (sendCh', True)
      | SendBlocks \<Rightarrow> (sendCh, True)
      | SendPanics \<Rightarrow> (sendCh, False))"

section \<open>SUDP\<close>

definition cli_sudp_run :: "(string \<Rightarrow> string + 'a) \<Rightarrow> ('g, 'a, 'c) client_proxy \<Rightarrow> ('g, 'a, 'c) client_proxy \<times> string option" where
  "cli_sudp_run resolve pxy =
     (case resolve (local_service (bp_local_svr (cx_base pxy))) of
        Inl e \<Rightarrow> (pxy\<lparr>cx_local_addr := None\<rparr>, Some e)
      | Inr a \<Rightarrow> (pxy\<lparr>cx_local_addr := Some a\<rparr>, None))"

definition cli_sudp_close :: "('g, 'a, 'c) client_proxy \<Rightarrow> (unit, ('g, 'a, 'c) client_proxy) go" where
  "cli_sudp_close pxy =
     (if is_closed (cx_close_ch pxy) then Ok pxy
      else (case chan_close (cx_close_ch pxy) of None \<Rightarrow> Panic | Some ch \<Rightarrow> Ok (pxy\<lparr>cx_close_ch := ch\<rparr>)))"

text \<open>
  The session of one work connection: its variables in \<^verbatim>\<open>InWorkConn\<close> and which of its three
  goroutines run.
\<close>

record ('a, 'c) sudp_session =
  ss_work_conn :: "'c \<times> layer list"
  ss_conn_open :: bool
  ss_read_ch :: "'a udp_packet_msg chan"
  ss_send_ch :: "'a message chan"
  ss_is_close :: bool
  ss_reader :: bool
  ss_sender :: bool
  ss_heartbeat :: bool

definition cli_sudp_in_work_conn ::
    "(string \<Rightarrow> bool) \<Rightarrow> 'c \<Rightarrow> ('g, 'a, 'c) client_proxy \<Rightarrow> ('a, 'c) sudp_session option" where
  "cli_sudp_in_work_conn enc_ok conn pxy =
     (case work_conn_layers enc_ok (cx_limiter pxy) (cx_base pxy) (cx_token pxy) of
        None \<Rightarrow> None
      | Some layers \<Rightarrow>
          Some \<lparr>ss_work_conn = (conn, layers), ss_conn_open = True, ss_read_ch = make_chan 1024,
                ss_send_ch = make_chan 1024, ss_is_close = False, ss_reader = True, ss_sender = True,
                ss_heartbeat = True\<rparr>)"

definition sudp_close_fn :: "('a, 'c) sudp_session \<Rightarrow> (unit, ('a, 'c) sudp_session) go" where
  "sudp_close_fn s =
     (if ss_is_close s then Ok s
      else
        let s = s\<lparr>ss_is_close := True, ss_conn_open := False\<rparr> in
        (case chan_close (ss_read_ch s) of
           None \<Rightarrow> Panic
         | Some readCh \<Rightarrow>
             (case chan_close (ss_send_ch s) of
                None \<Rightarrow> Panic
              | Some sendCh \<Rightarrow> Ok (s\<lparr>ss_read_ch := readCh, ss_send_ch := sendCh\<rparr>))))"

text \<open>
  A turn of the reader, of the sender and of the heartbeat; \<open>proxy_closed\<close> says whether the proxy's
  channel is closed. A goroutine that ends runs \<open>sudp_close_fn\<close>.
\<close>

definition sudp_reader_turn ::
    "bool \<Rightarrow> 'a udp_packet_msg option \<Rightarrow> ('a, 'c) sudp_session \<Rightarrow> (unit, ('a, 'c) sudp_session) go" where
  "sudp_reader_turn proxy_closed got s =
     (if proxy_closed then sudp_close_fn (s\<lparr>ss_reader := False\<rparr>)
      else
        (case got of
           None \<Rightarrow> sudp_close_fn (s\<lparr>ss_reader := False\<rparr>)
         | Some udpMsg \<Rightarrow>
             (case chan_send udpMsg (ss_read_ch s) of
                Sent readCh \<Rightarrow> Ok (s\<lparr>ss_read_ch := readCh\<rparr>)
              | SendBlocks \<Rightarrow> Ok s
              | SendPanics \<Rightarrow> sudp_close_fn (s\<lparr>ss_reader := False\<rparr>))))"

definition sudp_sender_turn ::
    "('a message \<Rightarrow> bool) \<Rightarrow> ('a, 'c) sudp_session \<Rightarrow> (unit, ('a, 'c) sudp_session) go" where
  "sudp_sender_turn write_ok s =
     (case chan_recv (ss_send_ch s) of
        Received rawMsg sendCh \<Rightarrow>
          let s = s\<lparr>ss_send_ch := sendCh\<rparr> in
          if write_ok rawMsg then Ok s else sudp_close_fn (s\<lparr>ss_sender := False\<rparr>)
      | RecvBlocks \<Rightarrow> Ok s
      | RecvClosed \<Rightarrow> sudp_close_fn (s\<lparr>ss_sender := False\<rparr>))"

definition sudp_heartbeat_turn :: "bool \<Rightarrow> ('a, 'c) sudp_session \<Rightarrow> (unit, ('a, 'c) sudp_session) go" where
  "sudp_heartbeat_turn proxy_closed s =
     (if proxy_closed then sudp_close_fn (s\<lparr>ss_heartbeat := False\<rparr>)
      else
        (case chan_send (MPing zero_ping) (ss_send_ch s) of
           Sent sendCh \<Rightarrow> Ok (s\<lparr>ss_send_ch := sendCh\<rparr>)
         | SendBlocks \<Rightarrow> Ok s
         | SendPanics \<Rightarrow> sudp_close_fn (s\<lparr>ss_heartbeat := False\<rparr>)))"

section \<open>The interface \<^verbatim>\<open>Proxy\<close>\<close>

definition client_proxy_run ::
    "'g plugin_creators \<Rightarrow> (string \<Rightarrow> string + 'a) \<Rightarrow> ('g, 'a, 'c) client_proxy \<Rightarrow> ('g, 'a, 'c) client_proxy \<times> string option" where
  "client_proxy_run creators resolve pxy =
     (case cx_conf pxy of
        TCPConf _ \<Rightarrow> cli_tcp_run creators pxy
      | TCPMuxConf _ \<Rightarrow> cli_tcpmux_run creators pxy
      | UDPConf _ \<Rightarrow> cli_udp_run resolve pxy
      | HTTPConf _ \<Rightarrow> cli_http_run creators pxy
      | HTTPSConf _ \<Rightarrow> cli_https_run creators pxy
      | STCPConf _ \<Rightarrow> cli_stcp_run creators pxy
      | XTCPConf _ \<Rightarrow> cli_xtcp_run creators pxy
      | SUDPConf _ \<Rightarrow> cli_sudp_run resolve pxy)"

text \<open>\<open>Close\<close> with the plugin and the connections that it closes.\<close>

definition client_proxy_close ::
    "('g, 'a, 'c) client_proxy \<Rightarrow> (unit, ('g, 'a, 'c) client_proxy \<times> 'g option \<times> 'c list) go" where
  "client_proxy_close pxy =
     (case cx_conf pxy of
        TCPConf _ \<Rightarrow> Ok (pxy, cli_tcp_close pxy, [])
      | TCPMuxConf _ \<Rightarrow> Ok (pxy, cli_tcpmux_close pxy, [])
      | UDPConf _ \<Rightarrow> go_then (cli_udp_close pxy) (\<lambda>(pxy, conns). Ok (pxy, None, conns))
      | HTTPConf _ \<Rightarrow> Ok (pxy, cli_http_close pxy, [])
      | HTTPSConf _ \<Rightarrow> Ok (pxy, cli_https_close pxy, [])
      | STCPConf _ \<Rightarrow> Ok (pxy, cli_stcp_close pxy, [])
      | XTCPConf _ \<Rightarrow> Ok (pxy, cli_xtcp_close pxy, [])
      | SUDPConf _ \<Rightarrow> go_then (cli_sudp_close pxy) (\<lambda>pxy. Ok (pxy, None, [])))"

text \<open>
  \<^verbatim>\<open>InWorkConn\<close>, with what came of it: the tunnel of a stream, the messages and the tunnel of XTCP,
  the connections a UDP proxy closed, the session of SUDP.
\<close>

datatype ('g, 'a, 'c) handled =
    HandledTunnel "'g tunnel"
  | HandledXTCP "xtcp_sent list" "'g tunnel option"
  | HandledUDP "'c list"
  | HandledSUDP "('a, 'c) sudp_session option"

definition client_proxy_in_work_conn ::
    "'ip tunnel_env \<Rightarrow> xtcp_env \<Rightarrow> 'c \<Rightarrow> start_work_conn_msg \<Rightarrow> ('g, 'a, 'c) client_proxy \<Rightarrow>
     (unit, ('g, 'a, 'c) client_proxy \<times> ('g, 'a, 'c) handled) go" where
  "client_proxy_in_work_conn env xe conn m pxy =
     (case cx_conf pxy of
        TCPConf _ \<Rightarrow> Ok (pxy, HandledTunnel (cli_tcp_in_work_conn env m pxy))
      | TCPMuxConf _ \<Rightarrow> Ok (pxy, HandledTunnel (cli_tcpmux_in_work_conn env m pxy))
      | UDPConf _ \<Rightarrow> go_then (cli_udp_in_work_conn (te_enc_ok env) conn pxy) (\<lambda>(pxy', conns). Ok (pxy', HandledUDP conns))
      | HTTPConf _ \<Rightarrow> Ok (pxy, HandledTunnel (cli_http_in_work_conn env m pxy))
      | HTTPSConf _ \<Rightarrow> Ok (pxy, HandledTunnel (cli_https_in_work_conn env m pxy))
      | STCPConf _ \<Rightarrow> Ok (pxy, HandledTunnel (cli_stcp_in_work_conn env m pxy))
      | XTCPConf _ \<Rightarrow> go_then (cli_xtcp_in_work_conn env xe m pxy) (\<lambda>(sent, t). Ok (pxy, HandledXTCP sent t))
      | SUDPConf _ \<Rightarrow> Ok (pxy, HandledSUDP (cli_sudp_in_work_conn (te_enc_ok env) conn pxy)))"

text \<open>The sessions that can arise, a SUDP proxy having no plugin, with what \<^verbatim>\<open>Forwarder\<close> does to the channels.\<close>

inductive sudp_reachable :: "('a, 'c) sudp_session \<Rightarrow> bool" where
  sudp_start: "cli_sudp_in_work_conn enc_ok conn (pxy :: (unit, 'a, 'c) client_proxy) = Some s \<Longrightarrow> sudp_reachable s"
| sudp_reader: "sudp_reachable s \<Longrightarrow> ss_reader s \<Longrightarrow> sudp_reader_turn proxy_closed got s = Ok s' \<Longrightarrow> sudp_reachable s'"
| sudp_sender: "sudp_reachable s \<Longrightarrow> ss_sender s \<Longrightarrow> sudp_sender_turn write_ok s = Ok s' \<Longrightarrow> sudp_reachable s'"
| sudp_heartbeat: "sudp_reachable s \<Longrightarrow> ss_heartbeat s \<Longrightarrow> sudp_heartbeat_turn proxy_closed s = Ok s' \<Longrightarrow> sudp_reachable s'"
| sudp_forward_in: "sudp_reachable s \<Longrightarrow> chan_recv (ss_read_ch s) = Received m ch \<Longrightarrow> sudp_reachable (s\<lparr>ss_read_ch := ch\<rparr>)"
| sudp_forward_out: "sudp_reachable s \<Longrightarrow> chan_try_send m (ss_send_ch s) = Some ch \<Longrightarrow> sudp_reachable (s\<lparr>ss_send_ch := ch\<rparr>)"

section \<open>Sessions are closed once\<close>

definition sudp_inv :: "('a, 'c) sudp_session \<Rightarrow> bool" where
  "sudp_inv s \<longleftrightarrow>
     (if ss_is_close s then is_closed (ss_read_ch s) \<and> is_closed (ss_send_ch s) \<and> \<not> ss_conn_open s
      else is_open (ss_read_ch s) \<and> is_open (ss_send_ch s) \<and> ss_conn_open s \<and>
           ss_reader s \<and> ss_sender s \<and> ss_heartbeat s)"

definition sudp_chans_ok :: "('a, 'c) sudp_session \<Rightarrow> bool" where
  "sudp_chans_ok s \<longleftrightarrow>
     (if ss_is_close s then is_closed (ss_read_ch s) \<and> is_closed (ss_send_ch s) \<and> \<not> ss_conn_open s
      else is_open (ss_read_ch s) \<and> is_open (ss_send_ch s) \<and> ss_conn_open s)"

lemma sudp_inv_chans: "sudp_inv s \<Longrightarrow> sudp_chans_ok s"
  by (simp add: sudp_inv_def sudp_chans_ok_def split: if_split_asm)

lemma sudp_chans_ok_upd [simp]:
  "sudp_chans_ok (s\<lparr>ss_reader := b\<rparr>) = sudp_chans_ok s" "sudp_chans_ok (s\<lparr>ss_sender := b\<rparr>) = sudp_chans_ok s"
  "sudp_chans_ok (s\<lparr>ss_heartbeat := b\<rparr>) = sudp_chans_ok s"
  by (simp_all add: sudp_chans_ok_def)

lemma sudp_close_fn_ok:
  assumes "sudp_chans_ok s"
  shows "\<exists>s'. sudp_close_fn s = Ok s' \<and> sudp_inv s'"
proof (cases "ss_is_close s")
  case True
  then show ?thesis using assms by (simp add: sudp_close_fn_def sudp_inv_def sudp_chans_ok_def)
next
  case False
  with assms have "is_open (ss_read_ch s)" "is_open (ss_send_ch s)" by (simp_all add: sudp_chans_ok_def)
  from this [THEN chan_close_open] obtain r w where
    "chan_close (ss_read_ch s) = Some r" "is_closed r" "chan_close (ss_send_ch s) = Some w" "is_closed w" by blast
  with False show ?thesis by (simp add: sudp_close_fn_def sudp_inv_def Let_def)
qed

lemma sudp_reader_turn_ok:
  assumes "sudp_inv s"
  shows "\<exists>s'. sudp_reader_turn proxy_closed got s = Ok s' \<and> sudp_inv s'"
proof -
  have "sudp_chans_ok (s\<lparr>ss_reader := False\<rparr>)" using sudp_inv_chans [OF assms] by simp
  note closes = sudp_close_fn_ok [OF this]
  show ?thesis
  proof (cases "proxy_closed \<or> got = None")
    case True
    with closes show ?thesis by (auto simp: sudp_reader_turn_def split: option.split)
  next
    case False
    then obtain m where m: "got = Some m" "\<not> proxy_closed" by auto
    show ?thesis
    proof (cases "chan_send m (ss_read_ch s)")
      case (Sent ch)
      with assms chan_send_open [OF Sent] show ?thesis
        by (auto simp: sudp_reader_turn_def m sudp_inv_def dest: is_closed_not_open split: if_split_asm)
    next
      case SendBlocks
      with assms show ?thesis by (simp add: sudp_reader_turn_def m)
    next
      case SendPanics
      with closes show ?thesis by (simp add: sudp_reader_turn_def m)
    qed
  qed
qed

lemma sudp_inv_send_ch:
  "sudp_inv s \<Longrightarrow> is_open ch = is_open (ss_send_ch s) \<Longrightarrow> is_closed ch = is_closed (ss_send_ch s) \<Longrightarrow>
   sudp_inv (s\<lparr>ss_send_ch := ch\<rparr>)"
  by (simp add: sudp_inv_def)

lemma sudp_sender_turn_ok:
  assumes "sudp_inv s"
  shows "\<exists>s'. sudp_sender_turn write_ok s = Ok s' \<and> sudp_inv s'"
proof (cases "chan_recv (ss_send_ch s)")
  case (Received m ch)
  have inv: "sudp_inv (s\<lparr>ss_send_ch := ch\<rparr>)" using chan_recv_open [OF Received] by (intro sudp_inv_send_ch assms) simp_all
  then have "sudp_chans_ok (s\<lparr>ss_send_ch := ch, ss_sender := False\<rparr>)"
    using sudp_inv_chans [OF inv] by simp
  from sudp_close_fn_ok [OF this] inv show ?thesis by (simp add: sudp_sender_turn_def Received Let_def)
next
  case RecvBlocks
  with assms show ?thesis by (simp add: sudp_sender_turn_def)
next
  case RecvClosed
  have "sudp_chans_ok (s\<lparr>ss_sender := False\<rparr>)" using sudp_inv_chans [OF assms] by simp
  from sudp_close_fn_ok [OF this] show ?thesis by (simp add: sudp_sender_turn_def RecvClosed)
qed

lemma sudp_heartbeat_turn_ok:
  assumes "sudp_inv s"
  shows "\<exists>s'. sudp_heartbeat_turn proxy_closed s = Ok s' \<and> sudp_inv s'"
proof -
  have "sudp_chans_ok (s\<lparr>ss_heartbeat := False\<rparr>)" using sudp_inv_chans [OF assms] by simp
  note closes = sudp_close_fn_ok [OF this]
  show ?thesis
  proof (cases proxy_closed)
    case True
    with closes show ?thesis by (simp add: sudp_heartbeat_turn_def)
  next
    case False
    show ?thesis
    proof (cases "chan_send (MPing zero_ping) (ss_send_ch s)")
      case (Sent ch)
      with chan_send_open [OF Sent] is_closed_not_open have "sudp_inv (s\<lparr>ss_send_ch := ch\<rparr>)"
        by (intro sudp_inv_send_ch assms) blast+
      then show ?thesis by (simp add: sudp_heartbeat_turn_def False Sent)
    next
      case SendBlocks
      with assms show ?thesis by (simp add: sudp_heartbeat_turn_def False)
    next
      case SendPanics
      with closes show ?thesis by (simp add: sudp_heartbeat_turn_def False)
    qed
  qed
qed

lemma sudp_reachable_inv: "sudp_reachable s \<Longrightarrow> sudp_inv s"
proof (induction rule: sudp_reachable.induct)
  case (sudp_start enc_ok conn pxy s)
  then show ?case by (auto simp: cli_sudp_in_work_conn_def sudp_inv_def split: option.split_asm)
next
  case (sudp_reader s proxy_closed got s')
  with sudp_reader_turn_ok [OF sudp_reader.IH, of proxy_closed got] show ?case by simp
next
  case (sudp_sender s write_ok s')
  with sudp_sender_turn_ok [OF sudp_sender.IH, of write_ok] show ?case by simp
next
  case (sudp_heartbeat s proxy_closed s')
  with sudp_heartbeat_turn_ok [OF sudp_heartbeat.IH, of proxy_closed] show ?case by simp
next
  case (sudp_forward_in s m ch)
  then show ?case using chan_recv_open [of "ss_read_ch s" m ch] by (simp add: sudp_inv_def)
next
  case (sudp_forward_out s m ch)
  then show ?case using chan_try_send_open [of m "ss_send_ch s" ch] by (intro sudp_inv_send_ch) simp_all
qed

text \<open>A UDP proxy: its channels are open, or not made yet, exactly while it is not closed.\<close>

definition udp_session_ok :: "('g, 'a, 'c) client_proxy \<Rightarrow> bool" where
  "udp_session_ok pxy \<longleftrightarrow> \<not> cx_closed pxy \<longrightarrow> \<not> is_closed (cx_read_ch pxy) \<and> \<not> is_closed (cx_send_ch pxy)"

lemma close_if_made_ok: "\<not> is_closed ch \<Longrightarrow> \<exists>ch'. close_if_made ch = Some ch'"
  by (cases ch) (auto simp: close_if_made_def)

lemma cli_udp_close_ok:
  assumes "udp_session_ok pxy"
  shows "\<exists>pxy' cs. cli_udp_close pxy = Ok (pxy', cs) \<and> cx_closed pxy'"
proof (cases "cx_closed pxy")
  case True
  then show ?thesis by (simp add: cli_udp_close_def)
next
  case False
  with assms have "\<not> is_closed (cx_read_ch pxy)" "\<not> is_closed (cx_send_ch pxy)" by (simp_all add: udp_session_ok_def)
  from this [THEN close_if_made_ok] False show ?thesis by (auto simp: cli_udp_close_def Let_def)
qed

lemma cli_udp_in_work_conn_ok:
  assumes "udp_session_ok pxy"
  shows "\<exists>pxy' cs. cli_udp_in_work_conn enc_ok conn pxy = Ok (pxy', cs) \<and> udp_session_ok pxy'"
proof -
  from cli_udp_close_ok [OF assms] obtain p cs where "cli_udp_close pxy = Ok (p, cs)" "cx_closed p" by blast
  then show ?thesis
    by (auto simp: cli_udp_in_work_conn_def udp_session_ok_def make_chan_def split: option.split)
qed

lemma udp_session_ok_new: "udp_session_ok (new_client_proxy conf cfg port)"
  by (simp add: udp_session_ok_def new_client_proxy_def Let_def)

text \<open>What \<open>Close\<close> needs, that every proxy has and \<open>Run\<close> keeps.\<close>

definition closable :: "('g, 'a, 'c) client_proxy \<Rightarrow> bool" where
  "closable pxy \<longleftrightarrow> udp_session_ok pxy \<and> (\<forall>c. cx_conf pxy = SUDPConf c \<longrightarrow> cx_close_ch pxy \<noteq> NilChan)"

lemma closable_new: "closable (new_client_proxy conf cfg port)"
  by (auto simp: closable_def udp_session_ok_def new_client_proxy_def make_chan_def Let_def)

lemma run_plugin_fields:
  "run_plugin creators pxy = (pxy', e) \<Longrightarrow>
   cx_conf pxy' = cx_conf pxy \<and> cx_closed pxy' = cx_closed pxy \<and> cx_read_ch pxy' = cx_read_ch pxy \<and>
   cx_send_ch pxy' = cx_send_ch pxy \<and> cx_close_ch pxy' = cx_close_ch pxy"
  by (auto simp: run_plugin_def Let_def split: if_split_asm prod.split_asm)

lemmas cli_run_defs = cli_tcp_run_def cli_tcpmux_run_def cli_http_run_def cli_https_run_def cli_stcp_run_def cli_xtcp_run_def

lemma client_proxy_run_fields:
  "client_proxy_run creators resolve pxy = (pxy', e) \<Longrightarrow>
   cx_conf pxy' = cx_conf pxy \<and> cx_closed pxy' = cx_closed pxy \<and> cx_read_ch pxy' = cx_read_ch pxy \<and>
   cx_send_ch pxy' = cx_send_ch pxy \<and> cx_close_ch pxy' = cx_close_ch pxy"
  using run_plugin_fields [of creators pxy pxy' e]
  by (auto simp: client_proxy_run_def cli_run_defs cli_udp_run_def cli_sudp_run_def
      split: proxy_conf.split_asm sum.split_asm)

lemma closable_run: "closable pxy \<Longrightarrow> client_proxy_run creators resolve pxy = (pxy', e) \<Longrightarrow> closable pxy'"
  by (drule client_proxy_run_fields) (simp add: closable_def udp_session_ok_def)

lemma client_proxy_close_ok:
  assumes "closable pxy"
  shows "\<exists>r. client_proxy_close pxy = Ok r"
proof -
  from assms obtain p cs where u: "cli_udp_close pxy = Ok (p, cs)"
    using cli_udp_close_ok unfolding closable_def by blast
  have "\<exists>p. cli_sudp_close pxy = Ok p" if "cx_conf pxy = SUDPConf c" for c
    using assms that by (cases "cx_close_ch pxy") (auto simp: closable_def cli_sudp_close_def)
  with u show ?thesis by (fastforce simp: client_proxy_close_def split: proxy_conf.split)
qed

lemma cli_udp_close_fields:
  "cli_udp_close pxy = Ok (pxy', cs) \<Longrightarrow> cx_conf pxy' = cx_conf pxy \<and> cx_close_ch pxy' = cx_close_ch pxy"
  by (auto simp: cli_udp_close_def Let_def split: if_split_asm option.split_asm)

lemma cli_udp_in_work_conn_fields:
  assumes "cli_udp_in_work_conn enc_ok conn pxy = Ok (pxy', cs)"
  shows "cx_conf pxy' = cx_conf pxy \<and> cx_close_ch pxy' = cx_close_ch pxy"
proof (cases "cli_udp_close pxy")
  case (Ok r)
  obtain p ds where r: "r = (p, ds)" by (cases r)
  from cli_udp_close_fields [OF Ok [unfolded r]] assms show ?thesis
    by (auto simp: cli_udp_in_work_conn_def Ok r split: option.split_asm)
qed (use assms in \<open>simp_all add: cli_udp_in_work_conn_def\<close>)

lemma client_proxy_in_work_conn_closable:
  assumes "closable pxy" and "client_proxy_in_work_conn env xe conn m pxy = Ok (pxy', h)"
  shows "closable pxy'"
proof (cases "cx_conf pxy")
  case (UDPConf x)
  from cli_udp_in_work_conn_ok [of pxy "te_enc_ok env" conn] assms(1) obtain p cs where
    p: "cli_udp_in_work_conn (te_enc_ok env) conn pxy = Ok (p, cs)" "udp_session_ok p"
    unfolding closable_def by blast
  with assms(2) UDPConf have "pxy' = p" by (simp add: client_proxy_in_work_conn_def)
  with p(2) cli_udp_in_work_conn_fields [OF p(1)] UDPConf show ?thesis by (simp add: closable_def)
next
  case (XTCPConf x)
  with assms show ?thesis
    by (cases "cli_xtcp_in_work_conn env xe m pxy") (auto simp: client_proxy_in_work_conn_def)
qed (use assms in \<open>auto simp: client_proxy_in_work_conn_def\<close>)

section \<open>Properties\<close>

text \<open>C32: The session of a SUDP work connection never panics, whatever its three goroutines and the
  forwarder do in whatever order: no channel is closed twice and no send goes to a closed channel
  unrecovered; and as soon as one goroutine has ended, the connection and both channels are closed.\<close>

theorem sudp_session_safe:
  assumes "sudp_reachable s"
  shows "sudp_reader_turn proxy_closed got s \<noteq> Panic \<and> sudp_sender_turn write_ok s \<noteq> Panic \<and>
         sudp_heartbeat_turn proxy_closed s \<noteq> Panic \<and>
         (ss_reader s \<and> ss_sender s \<and> ss_heartbeat s \<or>
          \<not> ss_conn_open s \<and> is_closed (ss_read_ch s) \<and> is_closed (ss_send_ch s))"
proof -
  note inv = sudp_reachable_inv [OF assms]
  have "ss_reader s \<and> ss_sender s \<and> ss_heartbeat s \<or>
        \<not> ss_conn_open s \<and> is_closed (ss_read_ch s) \<and> is_closed (ss_send_ch s)"
    using inv by (simp add: sudp_inv_def split: if_split_asm)
  then show ?thesis
    using sudp_reader_turn_ok [OF inv, of proxy_closed got] sudp_sender_turn_ok [OF inv, of write_ok]
      sudp_heartbeat_turn_ok [OF inv, of proxy_closed] by auto
qed

definition sample_sudp_proxy :: "(unit, string, nat) client_proxy" where
  "sample_sudp_proxy =
     new_client_proxy (SUDPConf \<lparr>su_base = zero_base_proxy_conf, su_role = ''server'', su_sk = ''k''\<rparr>)
       (get_default_client_conf []) 0"

lemma sudp_session_safe_witness:
  "case cli_sudp_in_work_conn (\<lambda>_. True) 3 sample_sudp_proxy of
     None \<Rightarrow> False
   | Some s \<Rightarrow>
       (case sudp_reader_turn False None s of
          Ok s' \<Rightarrow> sudp_sender_turn (\<lambda>_. True) s' \<noteq> Panic \<and> \<not> ss_conn_open s' \<and> is_closed (ss_send_ch s')
        | _ \<Rightarrow> False)"
proof -
  obtain s where s: "cli_sudp_in_work_conn (\<lambda>_. True) 3 sample_sudp_proxy = Some s" "ss_reader s"
    by (simp add: cli_sudp_in_work_conn_def work_conn_layers_def)
  obtain s' where s': "sudp_reader_turn False None s = Ok s'" "\<not> ss_reader s'"
    using s by (auto simp: cli_sudp_in_work_conn_def sudp_reader_turn_def sudp_close_fn_def make_chan_def Let_def
        split: option.split_asm)
  have "sudp_reachable s'" by (rule sudp_reader [OF sudp_start [OF s(1)] s(2) s'(1)])
  from sudp_session_safe [OF this, of False None "\<lambda>_. True"] s(1) s' show ?thesis by simp
qed

end
