(* ===== verification/Reload.thy ===== *)
theory Reload
  imports Comparable
begin

text \<open>
  The specification of a reload of the client's configuration: of the items in a table by name, those
  stay whose configuration still compares equal; the others are made afresh from the new configurations.
\<close>

definition reloaded ::
    "('c \<Rightarrow> 'c \<Rightarrow> bool) \<Rightarrow> ('x \<Rightarrow> 'c) \<Rightarrow> ('c \<Rightarrow> 'x) \<Rightarrow> (string \<rightharpoonup> 'c) \<Rightarrow> (string \<rightharpoonup> 'x) \<Rightarrow> (string \<rightharpoonup> 'x)" where
  "reloaded cmp cfg_of fresh cfgs items =
     (\<lambda>name. case cfgs name of
        None \<Rightarrow> None
      | Some cfg \<Rightarrow>
          Some (case items name of
                  Some x \<Rightarrow> if cmp (cfg_of x) cfg then x else fresh cfg
                | None \<Rightarrow> fresh cfg))"

locale reloadable = comparable cmp norm
  for cmp :: "'c \<Rightarrow> 'c \<Rightarrow> bool" and norm :: "'c \<Rightarrow> 'n" +
  fixes cfg_of :: "'x \<Rightarrow> 'c" and fresh :: "'c \<Rightarrow> 'x"
  assumes cfg_of_fresh: "cfg_of (fresh c) = c"
begin

lemma reloaded_matches:
  "map_option (norm \<circ> cfg_of) (reloaded cmp cfg_of fresh cfgs items name) = map_option norm (cfgs name)"
  by (auto simp: reloaded_def cfg_of_fresh cmp_iff split: option.split)

lemma reloaded_again:
  assumes "\<And>name. map_option norm (cfgs' name) = map_option norm (cfgs name)"
  shows "reloaded cmp cfg_of fresh cfgs' (reloaded cmp cfg_of fresh cfgs items) = reloaded cmp cfg_of fresh cfgs items"
proof
  fix name
  show "reloaded cmp cfg_of fresh cfgs' (reloaded cmp cfg_of fresh cfgs items) name =
        reloaded cmp cfg_of fresh cfgs items name"
    using assms [of name] reloaded_matches [of cfgs items name]
    by (auto simp: reloaded_def cmp_iff cfg_of_fresh split: option.split option.split_asm)
qed

lemma dom_reloaded: "dom (reloaded cmp cfg_of fresh cfgs items) = dom cfgs"
  by (auto simp: reloaded_def split: option.split option.split_asm)

end

end
