(* ===== verification/Client_Wrapper.thy ===== *)
theory Client_Wrapper
  imports Client_Proxy Client_Health
begin

text \<open>
  The life of a proxy on the client: \<^verbatim>\<open>frp/client/proxy/proxy_wrapper.go\<close>,
  \<^verbatim>\<open>proxy_manager.go\<close> and \<^verbatim>\<open>frp/client/event/event.go\<close>. Times are nanoseconds. The
  wrapper's worker is the sequence of its rounds; an operation gives the payloads for the event
  handler along with the new wrapper, and the manager puts their messages into its channel.
\<close>

section \<open>Events\<close>

datatype payload = StartProxyPayload new_proxy_msg | CloseProxyPayload close_proxy_msg | OtherPayload

section \<open>The wrapper\<close>

datatype phase = PhaseNew | PhaseWaitStart | PhaseStartErr | PhaseRunning | PhaseCheckFailed | PhaseClosed

fun phase_str :: "phase \<Rightarrow> string" where
  "phase_str PhaseNew = ''new''"
| "phase_str PhaseWaitStart = ''wait start''"
| "phase_str PhaseStartErr = ''start error''"
| "phase_str PhaseRunning = ''running''"
| "phase_str PhaseCheckFailed = ''check failed''"
| "phase_str PhaseClosed = ''closed''"

definition second :: int where "second = 1000000000"

definition wait_response_timeout :: int where "wait_response_timeout = 20 * second"

definition start_err_timeout :: int where "start_err_timeout = 30 * second"

record working_status =
  ws_name :: string
  ws_type :: string
  ws_phase :: phase
  ws_err :: string
  ws_cfg :: proxy_conf
  ws_remote_addr :: string

text \<open>\<open>pw_unhealthy\<close> is \<^verbatim>\<open>health\<close> with 1 for failed; \<open>pw_stopped\<close> says that its channels are closed.\<close>

record ('g, 'a, 'c) wrapper =
  pw_status :: working_status
  pw_pxy :: "('g, 'a, 'c) client_proxy"
  pw_monitor :: "monitor option"
  pw_unhealthy :: bool
  pw_last_send :: int
  pw_last_start_err :: int
  pw_stopped :: bool

definition new_wrapper :: "proxy_conf \<Rightarrow> client_common_conf \<Rightarrow> int \<Rightarrow> ('g, 'a, 'c) wrapper" where
  "new_wrapper cfg clientCfg serverUDPPort =
     (let baseInfo = get_base_info cfg; hk = bp_health_check baseInfo; checked = hk_type hk \<noteq> [] in
      \<lparr>pw_status = \<lparr>ws_name = bp_proxy_name baseInfo, ws_type = bp_proxy_type baseInfo, ws_phase = PhaseNew,
                    ws_err = [], ws_cfg = cfg, ws_remote_addr = []\<rparr>,
       pw_pxy = new_client_proxy cfg clientCfg serverUDPPort,
       pw_monitor = (if checked then Some (new_monitor (hk_type hk) (hk_interval_s hk) (hk_timeout_s hk)
                                             (hk_max_failed hk) (hk_addr hk) (hk_url hk)) else None),
       pw_unhealthy = checked, pw_last_send = 0, pw_last_start_err = 0, pw_stopped = False\<rparr>)"

definition pw_name :: "('g, 'a, 'c) wrapper \<Rightarrow> string" where "pw_name pw = ws_name (pw_status pw)"
definition pw_phase :: "('g, 'a, 'c) wrapper \<Rightarrow> phase" where "pw_phase pw = ws_phase (pw_status pw)"
definition pw_cfg :: "('g, 'a, 'c) wrapper \<Rightarrow> proxy_conf" where "pw_cfg pw = ws_cfg (pw_status pw)"

definition set_phase :: "phase \<Rightarrow> ('g, 'a, 'c) wrapper \<Rightarrow> ('g, 'a, 'c) wrapper" where
  "set_phase ph pw = pw\<lparr>pw_status := (pw_status pw)\<lparr>ws_phase := ph\<rparr>\<rparr>"

text \<open>\<open>pw_close\<close> is the payload of \<^verbatim>\<open>close\<close>.\<close>

definition pw_close :: "('g, 'a, 'c) wrapper \<Rightarrow> payload" where
  "pw_close pw = CloseProxyPayload \<lparr>cp_proxy_name = pw_name pw\<rparr>"

datatype start_error = NotWaitStart | RefusedStart string | RunFailed string

text \<open>\<^verbatim>\<open>SetRunningStatus\<close>; \<open>run\<close> is the proxy's \<^verbatim>\<open>Run\<close>.\<close>

definition set_running_status ::
    "(('g, 'a, 'c) client_proxy \<Rightarrow> ('g, 'a, 'c) client_proxy \<times> string option) \<Rightarrow> int \<Rightarrow> string \<Rightarrow> string \<Rightarrow>
     ('g, 'a, 'c) wrapper \<Rightarrow> ('g, 'a, 'c) wrapper \<times> payload list \<times> start_error option" where
  "set_running_status run now remoteAddr respErr pw =
     (if pw_phase pw \<noteq> PhaseWaitStart then (pw, [], Some NotWaitStart)
      else
        let pw = pw\<lparr>pw_status := (pw_status pw)\<lparr>ws_remote_addr := remoteAddr\<rparr>\<rparr> in
        if respErr \<noteq> [] then
          (pw\<lparr>pw_status := (pw_status pw)\<lparr>ws_phase := PhaseStartErr, ws_err := respErr\<rparr>, pw_last_start_err := now\<rparr>,
           [], Some (RefusedStart respErr))
        else
          (case run (pw_pxy pw) of (pxy, err) \<Rightarrow>
             let pw = pw\<lparr>pw_pxy := pxy\<rparr> in
             (case err of
                Some e \<Rightarrow>
                  (pw\<lparr>pw_status := (pw_status pw)\<lparr>ws_phase := PhaseStartErr, ws_err := e\<rparr>, pw_last_start_err := now\<rparr>,
                   [pw_close pw], Some (RunFailed e))
              | None \<Rightarrow> (pw\<lparr>pw_status := (pw_status pw)\<lparr>ws_phase := PhaseRunning, ws_err := []\<rparr>\<rparr>, [], None))))"

text \<open>\<^verbatim>\<open>Stop\<close>: stopping twice closes a closed channel.\<close>

definition pw_stop :: "('g, 'a, 'c) wrapper \<Rightarrow> (unit, ('g, 'a, 'c) wrapper \<times> payload list) go" where
  "pw_stop pw =
     (if pw_stopped pw then Panic
      else go_then (client_proxy_close (pw_pxy pw)) (\<lambda>(pxy, _).
        let pw = set_phase PhaseClosed (pw\<lparr>pw_stopped := True, pw_pxy := pxy\<rparr>) in Ok (pw, [pw_close pw])))"

text \<open>A round of \<^verbatim>\<open>checkWorker\<close>.\<close>

definition check_worker_round :: "int \<Rightarrow> ('g, 'a, 'c) wrapper \<Rightarrow> ('g, 'a, 'c) wrapper \<times> payload list" where
  "check_worker_round now pw =
     (if \<not> pw_unhealthy pw then
        if pw_phase pw = PhaseNew \<or> pw_phase pw = PhaseCheckFailed \<or>
           (pw_phase pw = PhaseWaitStart \<and> now > pw_last_send pw + wait_response_timeout) \<or>
           (pw_phase pw = PhaseStartErr \<and> now > pw_last_start_err pw + start_err_timeout)
        then
          let pw = set_phase PhaseWaitStart pw; newProxyMsg = marshal_to_msg (pw_cfg pw) empty_new_proxy
          in (pw\<lparr>pw_last_send := now\<rparr>, [StartProxyPayload newProxyMsg])
        else (pw, [])
      else
        if pw_phase pw = PhaseRunning \<or> pw_phase pw = PhaseWaitStart
        then (set_phase PhaseCheckFailed pw, [pw_close pw])
        else (pw, []))"

text \<open>
  The monitor's callbacks. The wake-up they send, if anyone waits for it, only makes the next round
  come earlier, and sending it on a closed channel is recovered.
\<close>

definition status_normal_callback :: "('g, 'a, 'c) wrapper \<Rightarrow> ('g, 'a, 'c) wrapper" where
  "status_normal_callback pw = pw\<lparr>pw_unhealthy := False\<rparr>"

definition status_failed_callback :: "('g, 'a, 'c) wrapper \<Rightarrow> ('g, 'a, 'c) wrapper" where
  "status_failed_callback pw = pw\<lparr>pw_unhealthy := True\<rparr>"

text \<open>A round of the monitor with the outcome of its check, and the callback it makes.\<close>

definition monitor_round :: "bool \<Rightarrow> ('g, 'a, 'c) wrapper \<Rightarrow> ('g, 'a, 'c) wrapper" where
  "monitor_round ok pw =
     (case pw_monitor pw of
        None \<Rightarrow> pw
      | Some m \<Rightarrow>
          (case check_round ok m of (m', c) \<Rightarrow>
             let pw = pw\<lparr>pw_monitor := Some m'\<rparr> in
             (case c of
                None \<Rightarrow> pw
              | Some StatusNormal \<Rightarrow> status_normal_callback pw
              | Some StatusFailed \<Rightarrow> status_failed_callback pw)))"

definition pw_in_work_conn ::
    "'ip tunnel_env \<Rightarrow> xtcp_env \<Rightarrow> 'c \<Rightarrow> start_work_conn_msg \<Rightarrow> ('g, 'a, 'c) wrapper \<Rightarrow>
     (unit, ('g, 'a, 'c) wrapper \<times> ('g, 'a, 'c) handled) go" where
  "pw_in_work_conn env xe workConn m pw =
     go_then (client_proxy_in_work_conn env xe workConn m (pw_pxy pw)) (\<lambda>(pxy, h). Ok (pw\<lparr>pw_pxy := pxy\<rparr>, h))"

definition get_status :: "('g, 'a, 'c) wrapper \<Rightarrow> working_status" where
  "get_status pw = pw_status pw"

section \<open>The manager\<close>

text \<open>
  \<open>cm_sent\<close> is everything that was put into \<^verbatim>\<open>sendCh\<close>, oldest first; a send that waits for room does
  not change the order. \<open>cm_send_closed\<close> says that the channel is closed.
\<close>

record ('g, 'a, 'c) cli_manager =
  cm_proxies :: "string \<rightharpoonup> ('g, 'a, 'c) wrapper"
  cm_client_cfg :: client_common_conf
  cm_server_udp_port :: int
  cm_sent :: "'a message list"
  cm_send_closed :: bool

definition new_cli_manager :: "client_common_conf \<Rightarrow> int \<Rightarrow> ('g, 'a, 'c) cli_manager" where
  "new_cli_manager clientCfg serverUDPPort =
     \<lparr>cm_proxies = (\<lambda>_. None), cm_client_cfg = clientCfg, cm_server_udp_port = serverUDPPort,
      cm_sent = [], cm_send_closed = False\<rparr>"

datatype event_error = ErrPayloadType | SendClosed

definition handle_event :: "payload \<Rightarrow> ('g, 'a, 'c) cli_manager \<Rightarrow> ('g, 'a, 'c) cli_manager \<times> event_error option" where
  "handle_event payload pm =
     (case payload of
        OtherPayload \<Rightarrow> (pm, Some ErrPayloadType)
      | StartProxyPayload m \<Rightarrow>
          if cm_send_closed pm then (pm, Some SendClosed) else (pm\<lparr>cm_sent := cm_sent pm @ [MNewProxy m]\<rparr>, None)
      | CloseProxyPayload m \<Rightarrow>
          if cm_send_closed pm then (pm, Some SendClosed) else (pm\<lparr>cm_sent := cm_sent pm @ [MCloseProxy m]\<rparr>, None))"

text \<open>The handler's errors are dropped by the wrapper.\<close>

definition handle_events :: "payload list \<Rightarrow> ('g, 'a, 'c) cli_manager \<Rightarrow> ('g, 'a, 'c) cli_manager" where
  "handle_events ps pm = fold (\<lambda>p pm. fst (handle_event p pm)) ps pm"

definition put_wrapper :: "string \<Rightarrow> ('g, 'a, 'c) wrapper \<Rightarrow> ('g, 'a, 'c) cli_manager \<Rightarrow> ('g, 'a, 'c) cli_manager" where
  "put_wrapper name pw pm = pm\<lparr>cm_proxies := (cm_proxies pm)(name \<mapsto> pw)\<rparr>"

datatype start_proxy_error = StartNotFound string | StartFailed start_error

definition start_proxy ::
    "(('g, 'a, 'c) client_proxy \<Rightarrow> ('g, 'a, 'c) client_proxy \<times> string option) \<Rightarrow> int \<Rightarrow> string \<Rightarrow> string \<Rightarrow> string \<Rightarrow>
     ('g, 'a, 'c) cli_manager \<Rightarrow> ('g, 'a, 'c) cli_manager \<times> start_proxy_error option" where
  "start_proxy run now name remoteAddr serverRespErr pm =
     (case cm_proxies pm name of
        None \<Rightarrow> (pm, Some (StartNotFound name))
      | Some pw \<Rightarrow>
          (case set_running_status run now remoteAddr serverRespErr pw of (pw', ps, err) \<Rightarrow>
             (handle_events ps (put_wrapper name pw' pm), map_option StartFailed err)))"

text \<open>The loop of \<^verbatim>\<open>Close\<close> over the wrappers, in the order of the range.\<close>

fun stop_all :: "('g, 'a, 'c) wrapper list \<Rightarrow> ('g, 'a, 'c) cli_manager \<Rightarrow> (unit, ('g, 'a, 'c) cli_manager) go" where
  "stop_all [] pm = Ok pm"
| "stop_all (pw # pws) pm = go_then (pw_stop pw) (\<lambda>(_, ps). stop_all pws (handle_events ps pm))"

definition cli_manager_close :: "string list \<Rightarrow> ('g, 'a, 'c) cli_manager \<Rightarrow> (unit, ('g, 'a, 'c) cli_manager) go" where
  "cli_manager_close order pm =
     go_then (stop_all (map (the \<circ> cm_proxies pm) order) pm) (\<lambda>pm. Ok (pm\<lparr>cm_proxies := (\<lambda>_. None)\<rparr>))"

text \<open>\<open>None\<close> for what came of it when the work connection is closed because no proxy has the name.\<close>

definition cli_handle_work_conn ::
    "'ip tunnel_env \<Rightarrow> xtcp_env \<Rightarrow> string \<Rightarrow> 'c \<Rightarrow> start_work_conn_msg \<Rightarrow> ('g, 'a, 'c) cli_manager \<Rightarrow>
     (unit, ('g, 'a, 'c) cli_manager \<times> ('g, 'a, 'c) handled option) go" where
  "cli_handle_work_conn env xe name workConn m pm =
     (case cm_proxies pm name of
        None \<Rightarrow> Ok (pm, None)
      | Some pw \<Rightarrow>
          go_then (pw_in_work_conn env xe workConn m pw) (\<lambda>(pw', h). Ok (put_wrapper name pw' pm, Some h)))"

definition get_all_proxy_status :: "string list \<Rightarrow> ('g, 'a, 'c) cli_manager \<Rightarrow> working_status list" where
  "get_all_proxy_status order pm = map (get_status \<circ> the \<circ> cm_proxies pm) order"

text \<open>
  \<^verbatim>\<open>Reload\<close>: the first loop deletes and stops the proxies whose configuration is gone or changed, in
  the order \<open>old\<close> of the range over the proxies, the second adds the missing ones, in the order \<open>new\<close>.
\<close>

definition outdated :: "(string \<rightharpoonup> proxy_conf) \<Rightarrow> string \<Rightarrow> ('g, 'a, 'c) wrapper \<Rightarrow> bool" where
  "outdated pxyCfgs name pxy =
     (case pxyCfgs name of None \<Rightarrow> True | Some cfg \<Rightarrow> \<not> compare (pw_cfg pxy) cfg)"

fun reload_del :: "(string \<rightharpoonup> proxy_conf) \<Rightarrow> string list \<Rightarrow> ('g, 'a, 'c) cli_manager \<Rightarrow> (unit, ('g, 'a, 'c) cli_manager) go" where
  "reload_del pxyCfgs [] pm = Ok pm"
| "reload_del pxyCfgs (name # names) pm =
     (case cm_proxies pm name of
        None \<Rightarrow> reload_del pxyCfgs names pm
      | Some pxy \<Rightarrow>
          if outdated pxyCfgs name pxy then
            let pm = pm\<lparr>cm_proxies := (cm_proxies pm)(name := None)\<rparr> in
            go_then (pw_stop pxy) (\<lambda>(_, ps). reload_del pxyCfgs names (handle_events ps pm))
          else reload_del pxyCfgs names pm)"

fun reload_add :: "(string \<rightharpoonup> proxy_conf) \<Rightarrow> string list \<Rightarrow> ('g, 'a, 'c) cli_manager \<Rightarrow> ('g, 'a, 'c) cli_manager" where
  "reload_add pxyCfgs [] pm = pm"
| "reload_add pxyCfgs (name # names) pm =
     (case (pxyCfgs name, cm_proxies pm name) of
        (Some cfg, None) \<Rightarrow>
          reload_add pxyCfgs names (put_wrapper name (new_wrapper cfg (cm_client_cfg pm) (cm_server_udp_port pm)) pm)
      | _ \<Rightarrow> reload_add pxyCfgs names pm)"

definition cli_manager_reload ::
    "string list \<Rightarrow> string list \<Rightarrow> (string \<rightharpoonup> proxy_conf) \<Rightarrow> ('g, 'a, 'c) cli_manager \<Rightarrow> (unit, ('g, 'a, 'c) cli_manager) go" where
  "cli_manager_reload old new pxyCfgs pm =
     go_then (reload_del pxyCfgs old pm) (\<lambda>pm. Ok (reload_add pxyCfgs new pm))"

end
