(* ===== verification/Client_Wrapper_Laws.thy ===== *)
theory Client_Wrapper_Laws
  imports Client_Wrapper Reload
begin

text \<open>
  What the client's proxy manager guarantees: the messages it sends for a name follow the phase of the
  proxy with that name, it never panics, and a reload does what the specification of \<open>Reload\<close> says.
\<close>

interpretation rp: reloadable compare proxy_conf_norm pw_cfg "\<lambda>cfg. new_wrapper cfg clientCfg port"
  for clientCfg port
  by unfold_locales (simp add: pw_cfg_def new_wrapper_def Let_def)

section \<open>What the server is asked to run\<close>

text \<open>\<open>requested\<close> replays the messages: the last one about a name decides.\<close>

fun request_step :: "'a message \<Rightarrow> (string \<rightharpoonup> new_proxy_msg) \<Rightarrow> (string \<rightharpoonup> new_proxy_msg)" where
  "request_step (MNewProxy m) r = r(np_proxy_name m \<mapsto> m)"
| "request_step (MCloseProxy m) r = r(cp_proxy_name m := None)"
| "request_step _ r = r"

definition requested :: "'a message list \<Rightarrow> (string \<rightharpoonup> new_proxy_msg)" where
  "requested ms = fold request_step ms (\<lambda>_. None)"

lemma requested_nil [simp]: "requested [] = (\<lambda>_. None)"
  by (simp add: requested_def)

lemma requested_snoc [simp]: "requested (ms @ [m]) = request_step m (requested ms)"
  by (simp add: requested_def)

lemma np_proxy_name_marshal: "np_proxy_name (marshal_to_msg c m) = bp_proxy_name (get_base_info c)"
  by (cases c) (simp_all add: marshal_defs base_marshal_to_msg_def Let_def)

section \<open>Well-formed wrappers and managers\<close>

definition wrapper_ok :: "string \<Rightarrow> ('g, 'a, 'c) wrapper \<Rightarrow> bool" where
  "wrapper_ok name pw \<longleftrightarrow>
     \<not> pw_stopped pw \<and> closable (pw_pxy pw) \<and> pw_name pw = name \<and> bp_proxy_name (get_base_info (pw_cfg pw)) = name \<and>
     pw_phase pw \<noteq> PhaseClosed"

definition start_message :: "('g, 'a, 'c) wrapper \<Rightarrow> new_proxy_msg" where
  "start_message pw = marshal_to_msg (pw_cfg pw) empty_new_proxy"

text \<open>What the server is asked for a name agrees with the wrapper of the name.\<close>

fun agree :: "('g, 'a, 'c) wrapper option \<Rightarrow> new_proxy_msg option \<Rightarrow> bool" where
  "agree None r \<longleftrightarrow> r = None"
| "agree (Some pw) r \<longleftrightarrow>
     (case pw_phase pw of
        PhaseNew \<Rightarrow> r = None
      | PhaseCheckFailed \<Rightarrow> r = None
      | PhaseWaitStart \<Rightarrow> r = Some (start_message pw)
      | PhaseRunning \<Rightarrow> r = Some (start_message pw)
      | PhaseStartErr \<Rightarrow> r = None \<or> r = Some (start_message pw)
      | PhaseClosed \<Rightarrow> False)"

definition manager_ok :: "('g, 'a, 'c) cli_manager \<Rightarrow> bool" where
  "manager_ok pm \<longleftrightarrow>
     (\<forall>name pw. cm_proxies pm name = Some pw \<longrightarrow> wrapper_ok name pw) \<and>
     (\<not> cm_send_closed pm \<longrightarrow> (\<forall>name. agree (cm_proxies pm name) (requested (cm_sent pm) name)))"

lemma manager_okD:
  assumes "manager_ok pm"
  shows "cm_proxies pm name = Some pw \<Longrightarrow> wrapper_ok name pw"
    and "\<not> cm_send_closed pm \<Longrightarrow> agree (cm_proxies pm name) (requested (cm_sent pm) name)"
  using assms unfolding manager_ok_def by blast+

lemma manager_okI:
  assumes "\<And>name pw. cm_proxies pm name = Some pw \<Longrightarrow> wrapper_ok name pw"
    and "\<And>name. \<not> cm_send_closed pm \<Longrightarrow> agree (cm_proxies pm name) (requested (cm_sent pm) name)"
  shows "manager_ok pm"
  using assms unfolding manager_ok_def by blast

text \<open>The payloads of an operation on the wrapper of \<open>name\<close> are messages about \<open>name\<close>.\<close>

fun payload_request :: "payload \<Rightarrow> new_proxy_msg option \<Rightarrow> new_proxy_msg option" where
  "payload_request (StartProxyPayload m) r = Some m"
| "payload_request (CloseProxyPayload m) r = None"
| "payload_request OtherPayload r = r"

fun payload_name :: "payload \<Rightarrow> string \<Rightarrow> bool" where
  "payload_name (StartProxyPayload m) name \<longleftrightarrow> np_proxy_name m = name"
| "payload_name (CloseProxyPayload m) name \<longleftrightarrow> cp_proxy_name m = name"
| "payload_name OtherPayload name \<longleftrightarrow> True"

lemma handle_events_nil [simp]: "handle_events [] pm = pm"
  by (simp add: handle_events_def)

lemma handle_events_cons [simp]: "handle_events (p # ps) pm = handle_events ps (fst (handle_event p pm))"
  by (simp add: handle_events_def)

lemma handle_event_fields [simp]:
  "cm_proxies (fst (handle_event p pm)) = cm_proxies pm"
  "cm_client_cfg (fst (handle_event p pm)) = cm_client_cfg pm"
  "cm_server_udp_port (fst (handle_event p pm)) = cm_server_udp_port pm"
  "cm_send_closed (fst (handle_event p pm)) = cm_send_closed pm"
  by (simp_all add: handle_event_def split: payload.split)

lemma handle_events_fields [simp]:
  "cm_proxies (handle_events ps pm) = cm_proxies pm"
  "cm_client_cfg (handle_events ps pm) = cm_client_cfg pm"
  "cm_server_udp_port (handle_events ps pm) = cm_server_udp_port pm"
  "cm_send_closed (handle_events ps pm) = cm_send_closed pm"
  by (induction ps arbitrary: pm) simp_all

lemma requested_handle_event:
  assumes "\<not> cm_send_closed pm" and "payload_name p name"
  shows "requested (cm_sent (fst (handle_event p pm))) =
         (requested (cm_sent pm))(name := payload_request p (requested (cm_sent pm) name))"
  using assms by (cases p) (auto simp: handle_event_def)

lemma requested_handle_events:
  assumes "\<not> cm_send_closed pm" and "\<forall>p \<in> set ps. payload_name p name"
  shows "requested (cm_sent (handle_events ps pm)) =
         (requested (cm_sent pm))(name := fold payload_request ps (requested (cm_sent pm) name))"
  using assms
proof (induction ps arbitrary: pm)
  case (Cons p ps)
  have "requested (cm_sent (handle_events ps (fst (handle_event p pm)))) =
      (requested (cm_sent (fst (handle_event p pm))))
        (name := fold payload_request ps (requested (cm_sent (fst (handle_event p pm))) name))"
    using Cons.prems by (intro Cons.IH) simp_all
  then show ?case using Cons.prems by (simp add: requested_handle_event [of _ _ name])
qed simp

text \<open>One operation on one wrapper keeps the manager well-formed.\<close>

lemma manager_ok_put:
  assumes ok: "manager_ok pm" and pw: "cm_proxies pm name = Some pw"
    and pw': "wrapper_ok name pw'" and ps: "\<forall>p \<in> set ps. payload_name p name"
    and agree: "\<And>r. agree (Some pw) r \<Longrightarrow> agree (Some pw') (fold payload_request ps r)"
  shows "manager_ok (handle_events ps (put_wrapper name pw' pm))"
proof (rule manager_okI)
  fix name' q
  assume "cm_proxies (handle_events ps (put_wrapper name pw' pm)) name' = Some q"
  then show "wrapper_ok name' q" using pw' manager_okD(1) [OF ok]
    by (simp add: put_wrapper_def split: if_split_asm)
next
  fix name'
  assume "\<not> cm_send_closed (handle_events ps (put_wrapper name pw' pm))"
  then have isopen: "\<not> cm_send_closed pm" "\<not> cm_send_closed (put_wrapper name pw' pm)" by (simp_all add: put_wrapper_def)
  have "cm_sent (put_wrapper name pw' pm) = cm_sent pm" by (simp add: put_wrapper_def)
  with requested_handle_events [OF isopen(2) ps] manager_okD(2) [OF ok isopen(1), of name'] pw
    agree [of "requested (cm_sent pm) name"]
  show "agree (cm_proxies (handle_events ps (put_wrapper name pw' pm)) name')
          (requested (cm_sent (handle_events ps (put_wrapper name pw' pm))) name')"
    by (cases "name' = name") (simp_all add: put_wrapper_def del: agree.simps)
qed

lemma manager_ok_put_quiet:
  assumes "manager_ok pm" and "cm_proxies pm name = Some pw" and "wrapper_ok name pw'"
    and "\<And>r. agree (Some pw) r \<Longrightarrow> agree (Some pw') r"
  shows "manager_ok (put_wrapper name pw' pm)"
proof -
  have "manager_ok (handle_events [] (put_wrapper name pw' pm))"
    by (rule manager_ok_put [OF assms(1-3)]) (simp_all only: list.set ball_empty fold_simps assms(4))
  then show ?thesis by simp
qed

section \<open>The operations\<close>

lemmas wrapper_defs = wrapper_ok_def pw_name_def pw_phase_def pw_cfg_def set_phase_def start_message_def pw_close_def

lemma set_running_status_law:
  assumes ok: "wrapper_ok name pw" and run: "\<And>p p' e. closable p \<Longrightarrow> run p = (p', e) \<Longrightarrow> closable p'"
    and op: "set_running_status run now addr err pw = (pw', ps, res)"
  shows "wrapper_ok name pw'" and "\<forall>p \<in> set ps. payload_name p name"
    and "agree (Some pw) r \<Longrightarrow> agree (Some pw') (fold payload_request ps r)"
proof -
  obtain p' e where r: "run (pw_pxy pw) = (p', e)" by (cases "run (pw_pxy pw)")
  have c: "closable p'" using ok run [OF _ r] by (simp add: wrapper_ok_def)
  show "wrapper_ok name pw'" using ok op c
    by (auto simp: set_running_status_def r wrapper_defs Let_def split: if_split_asm option.split_asm)
  show "\<forall>p \<in> set ps. payload_name p name" using ok op
    by (auto simp: set_running_status_def r wrapper_defs Let_def split: if_split_asm option.split_asm)
  show "agree (Some pw') (fold payload_request ps r)" if "agree (Some pw) r"
    using ok op that
    by (auto simp: set_running_status_def r wrapper_defs Let_def
        split: if_split_asm option.split_asm phase.split phase.split_asm)
qed

lemma check_worker_round_law:
  assumes ok: "wrapper_ok name pw" and op: "check_worker_round now pw = (pw', ps)"
  shows "wrapper_ok name pw'" and "\<forall>p \<in> set ps. payload_name p name"
    and "agree (Some pw) r \<Longrightarrow> agree (Some pw') (fold payload_request ps r)"
proof -
  show "wrapper_ok name pw'" using ok op
    by (auto simp: check_worker_round_def wrapper_defs Let_def split: if_split_asm)
  show "\<forall>p \<in> set ps. payload_name p name" using ok op
    by (auto simp: check_worker_round_def wrapper_defs Let_def np_proxy_name_marshal split: if_split_asm)
  show "agree (Some pw') (fold payload_request ps r)" if "agree (Some pw) r"
    using ok op that
    by (auto simp: check_worker_round_def wrapper_defs Let_def split: if_split_asm phase.split phase.split_asm)
qed

lemma monitor_round_status [simp]:
  "pw_status (monitor_round ok pw) = pw_status pw" "pw_pxy (monitor_round ok pw) = pw_pxy pw"
  "pw_stopped (monitor_round ok pw) = pw_stopped pw"
  by (simp_all add: monitor_round_def status_normal_callback_def status_failed_callback_def Let_def
      split: option.split prod.split health_callback.split)

lemma agree_status:
  assumes "pw_status pw' = pw_status pw"
  shows "agree (Some pw') r \<longleftrightarrow> agree (Some pw) r"
proof -
  have "start_message pw' = start_message pw" "pw_phase pw' = pw_phase pw"
    by (simp_all add: start_message_def pw_cfg_def pw_phase_def assms)
  then show ?thesis by (simp split: phase.split)
qed

lemma monitor_round_law:
  "wrapper_ok name pw \<Longrightarrow> wrapper_ok name (monitor_round ok pw)"
  "agree (Some pw) r \<Longrightarrow> agree (Some (monitor_round ok pw)) r"
  by (simp add: wrapper_defs) (simp only: agree_status [OF monitor_round_status(1)])

lemma pw_in_work_conn_law:
  assumes ok: "wrapper_ok name pw" and op: "pw_in_work_conn env xe conn m pw = Ok (pw', h)"
  shows "wrapper_ok name pw'" and "agree (Some pw) r \<Longrightarrow> agree (Some pw') r"
proof -
  obtain p where p: "client_proxy_in_work_conn env xe conn m (pw_pxy pw) = Ok (p, h)" "pw' = pw\<lparr>pw_pxy := p\<rparr>"
    using op by (cases "client_proxy_in_work_conn env xe conn m (pw_pxy pw)") (auto simp: pw_in_work_conn_def)
  have "closable p" using ok client_proxy_in_work_conn_closable [OF _ p(1)] by (simp add: wrapper_ok_def)
  with ok show "wrapper_ok name pw'" by (simp add: p(2) wrapper_defs)
  show "agree (Some pw) r \<Longrightarrow> agree (Some pw') r"
    using agree_status [of pw' pw r] by (simp add: p(2) del: agree.simps)
qed

lemma pw_stop_law:
  assumes "wrapper_ok name pw"
  shows "\<exists>pw'. pw_stop pw = Ok (pw', [CloseProxyPayload \<lparr>cp_proxy_name = name\<rparr>])"
proof -
  from assms have "closable (pw_pxy pw)" "\<not> pw_stopped pw" "pw_name pw = name" by (simp_all add: wrapper_ok_def)
  moreover from client_proxy_close_ok [OF this(1)] obtain p x where "client_proxy_close (pw_pxy pw) = Ok (p, x)" by auto
  ultimately show ?thesis by (simp add: pw_stop_def pw_close_def pw_name_def set_phase_def Let_def)
qed

lemma new_wrapper_law:
  assumes "bp_proxy_name (get_base_info cfg) = name"
  shows "wrapper_ok name (new_wrapper cfg clientCfg port)" and "agree (Some (new_wrapper cfg clientCfg port)) None"
    and "pw_cfg (new_wrapper cfg clientCfg port) = cfg"
  using assms by (simp_all add: new_wrapper_def wrapper_defs closable_new Let_def)

text \<open>Deleting the wrapper of a name and sending that its proxy is closed.\<close>

lemma manager_ok_delete:
  assumes ok: "manager_ok pm"
  shows "manager_ok (handle_events [CloseProxyPayload \<lparr>cp_proxy_name = name\<rparr>] (pm\<lparr>cm_proxies := (cm_proxies pm)(name := None)\<rparr>))"
    (is "manager_ok ?pm'")
proof (rule manager_okI)
  fix name' q
  assume "cm_proxies ?pm' name' = Some q"
  then show "wrapper_ok name' q" using manager_okD(1) [OF ok] by (simp split: if_split_asm)
next
  fix name'
  assume "\<not> cm_send_closed ?pm'"
  then have "\<not> cm_send_closed pm" by (simp only: handle_events_fields) simp
  with manager_okD(2) [OF ok this, of name'] show "agree (cm_proxies ?pm' name') (requested (cm_sent ?pm') name')"
    by (simp add: handle_event_def)
qed

lemma reload_del_law:
  assumes "manager_ok pm"
  shows "\<exists>pm'. reload_del cfgs names pm = Ok pm' \<and> manager_ok pm' \<and>
           cm_client_cfg pm' = cm_client_cfg pm \<and> cm_server_udp_port pm' = cm_server_udp_port pm \<and>
           cm_send_closed pm' = cm_send_closed pm \<and>
           cm_proxies pm' = (\<lambda>name. case cm_proxies pm name of
              None \<Rightarrow> None | Some pw \<Rightarrow> if name \<in> set names \<and> outdated cfgs name pw then None else Some pw)"
  using assms
proof (induction names arbitrary: pm)
  case Nil
  then show ?case by (auto split: option.split)
next
  case (Cons name names)
  show ?case
  proof (cases "\<exists>pw. cm_proxies pm name = Some pw \<and> outdated cfgs name pw")
    case False
    then have "reload_del cfgs (name # names) pm = reload_del cfgs names pm" by (auto split: option.split)
    moreover from Cons.IH [OF Cons.prems] obtain pm' where pm':
      "reload_del cfgs names pm = Ok pm'" "manager_ok pm'" "cm_client_cfg pm' = cm_client_cfg pm"
      "cm_server_udp_port pm' = cm_server_udp_port pm" "cm_send_closed pm' = cm_send_closed pm"
      "cm_proxies pm' = (\<lambda>name. case cm_proxies pm name of
          None \<Rightarrow> None | Some pw \<Rightarrow> if name \<in> set names \<and> outdated cfgs name pw then None else Some pw)" by blast
    moreover have "cm_proxies pm' = (\<lambda>n. case cm_proxies pm n of
          None \<Rightarrow> None | Some pw \<Rightarrow> if n \<in> set (name # names) \<and> outdated cfgs n pw then None else Some pw)"
      unfolding pm'(6) using False by (auto intro!: ext split: option.split)
    ultimately show ?thesis by metis
  next
    case True
    then obtain pw where pw: "cm_proxies pm name = Some pw" "outdated cfgs name pw" by blast
    from pw_stop_law [OF manager_okD(1) [OF Cons.prems pw(1)]] obtain pw' where
      stop: "pw_stop pw = Ok (pw', [CloseProxyPayload \<lparr>cp_proxy_name = name\<rparr>])" by blast
    let ?pm = "handle_events [CloseProxyPayload \<lparr>cp_proxy_name = name\<rparr>] (pm\<lparr>cm_proxies := (cm_proxies pm)(name := None)\<rparr>)"
    have "reload_del cfgs (name # names) pm = reload_del cfgs names ?pm" by (simp add: pw stop Let_def)
    moreover from Cons.IH [OF manager_ok_delete [OF Cons.prems, of name]] obtain pm' where pm':
      "reload_del cfgs names ?pm = Ok pm'" "manager_ok pm'" "cm_client_cfg pm' = cm_client_cfg pm"
      "cm_server_udp_port pm' = cm_server_udp_port pm" "cm_send_closed pm' = cm_send_closed pm"
      "cm_proxies pm' = (\<lambda>n. case cm_proxies ?pm n of
          None \<Rightarrow> None | Some pw \<Rightarrow> if n \<in> set names \<and> outdated cfgs n pw then None else Some pw)" by auto
    moreover have "cm_proxies pm' = (\<lambda>n. case cm_proxies pm n of
          None \<Rightarrow> None | Some pw \<Rightarrow> if n \<in> set (name # names) \<and> outdated cfgs n pw then None else Some pw)"
      unfolding pm'(6) using pw by (auto intro!: ext split: option.split)
    ultimately show ?thesis by metis
  qed
qed

definition names_match :: "(string \<rightharpoonup> proxy_conf) \<Rightarrow> bool" where
  "names_match cfgs \<longleftrightarrow> (\<forall>name cfg. cfgs name = Some cfg \<longrightarrow> bp_proxy_name (get_base_info cfg) = name)"

lemma reload_add_law:
  fixes pm :: "('g, 'a, 'c) cli_manager"
  assumes "manager_ok pm" and "names_match cfgs"
  shows "manager_ok (reload_add cfgs names pm) \<and>
         cm_proxies (reload_add cfgs names pm) = (\<lambda>name. case cm_proxies pm name of
            Some pw \<Rightarrow> Some pw
          | None \<Rightarrow> if name \<in> set names
              then map_option (\<lambda>cfg. new_wrapper cfg (cm_client_cfg pm) (cm_server_udp_port pm)) (cfgs name) else None)"
  using assms(1)
proof (induction names arbitrary: pm)
  case Nil
  then show ?case by (auto split: option.split)
next
  case (Cons name names)
  show ?case
  proof (cases "\<exists>cfg. cfgs name = Some cfg \<and> cm_proxies pm name = None")
    case False
    then have "reload_add cfgs (name # names) pm = reload_add cfgs names pm" by (auto split: option.split)
    with Cons.IH [OF Cons.prems] False show ?thesis by (auto intro!: ext split: option.split)
  next
    case True
    then obtain cfg where cfg: "cfgs name = Some cfg" "cm_proxies pm name = None" by blast
    let ?w = "new_wrapper cfg (cm_client_cfg pm) (cm_server_udp_port pm) :: ('g, 'a, 'c) wrapper"
    have n: "bp_proxy_name (get_base_info cfg) = name" using assms(2) cfg(1) by (simp add: names_match_def)
    have w: "wrapper_ok name ?w" "agree (Some ?w) None" by (rule new_wrapper_law [OF n])+
    have "manager_ok (put_wrapper name ?w pm)"
    proof (rule manager_okI)
      fix n q
      assume "cm_proxies (put_wrapper name ?w pm) n = Some q"
      then show "wrapper_ok n q" using manager_okD(1) [OF Cons.prems] w(1) by (simp add: put_wrapper_def split: if_split_asm)
    next
      fix n
      assume "\<not> cm_send_closed (put_wrapper name ?w pm)"
      with manager_okD(2) [OF Cons.prems, of n] cfg(2) w(2)
      show "agree (cm_proxies (put_wrapper name ?w pm) n) (requested (cm_sent (put_wrapper name ?w pm)) n)"
        by (cases "n = name") (simp_all add: put_wrapper_def)
    qed
    from Cons.IH [OF this] cfg show ?thesis by (auto simp: put_wrapper_def intro!: ext split: option.split)
  qed
qed

section \<open>Closing\<close>

lemma stop_all_law:
  assumes "manager_ok pm" and "set names \<subseteq> dom (cm_proxies pm)"
  shows "stop_all (map (the \<circ> cm_proxies pm) names) pm0 =
         Ok (handle_events (map (\<lambda>name. CloseProxyPayload \<lparr>cp_proxy_name = name\<rparr>) names) pm0)"
  using assms(2)
proof (induction names arbitrary: pm0)
  case (Cons name names)
  then obtain pw where pw: "cm_proxies pm name = Some pw" by auto
  from pw_stop_law [OF manager_okD(1) [OF assms(1) pw]] obtain pw' where
    "pw_stop pw = Ok (pw', [CloseProxyPayload \<lparr>cp_proxy_name = name\<rparr>])" by blast
  with Cons pw show ?case by simp
qed simp

lemma requested_closes:
  assumes "\<not> cm_send_closed pm"
  shows "requested (cm_sent (handle_events (map (\<lambda>name. CloseProxyPayload \<lparr>cp_proxy_name = name\<rparr>) names) pm)) =
         (\<lambda>name. if name \<in> set names then None else requested (cm_sent pm) name)"
  using assms
proof (induction names arbitrary: pm)
  case (Cons name names)
  then show ?case by (auto simp: handle_event_def)
qed simp

lemma cli_manager_close_law:
  assumes ok: "manager_ok pm" and order: "range_of (cm_proxies pm) order"
  shows "\<exists>pm'. cli_manager_close order pm = Ok pm' \<and> manager_ok pm' \<and> cm_proxies pm' = (\<lambda>_. None)"
proof -
  let ?pm = "handle_events (map (\<lambda>name. CloseProxyPayload \<lparr>cp_proxy_name = name\<rparr>) order) pm"
  have dom: "set order = dom (cm_proxies pm)" using order by (simp add: range_of_def)
  have "cli_manager_close order pm = Ok (?pm\<lparr>cm_proxies := (\<lambda>_. None)\<rparr>)"
    using stop_all_law [OF ok, of order] dom by (simp add: cli_manager_close_def)
  moreover have "manager_ok (?pm\<lparr>cm_proxies := (\<lambda>_. None)\<rparr>)"
  proof (rule manager_okI)
    fix name
    assume "\<not> cm_send_closed (?pm\<lparr>cm_proxies := (\<lambda>_. None)\<rparr>)"
    then have isopen: "\<not> cm_send_closed pm" by simp
    have "requested (cm_sent pm) name = None" if "name \<notin> set order"
      using manager_okD(2) [OF ok isopen, of name] that dom by (cases "cm_proxies pm name") auto
    then show "agree (cm_proxies (?pm\<lparr>cm_proxies := (\<lambda>_. None)\<rparr>) name) (requested (cm_sent (?pm\<lparr>cm_proxies := (\<lambda>_. None)\<rparr>)) name)"
      by (simp add: requested_closes [OF isopen])
  qed simp
  ultimately show ?thesis by simp
qed

section \<open>Histories\<close>

text \<open>
  What can happen to a manager: an answer of the server, a round of a wrapper's worker or monitor, a
  work connection, a reload, the end. The configurations are keyed by their names, as they are loaded.
\<close>

inductive cli_history ::
    "'g plugin_creators \<Rightarrow> (string \<Rightarrow> string + 'a) \<Rightarrow> ('g, 'a, 'c) cli_manager \<Rightarrow> bool" for creators resolve where
  history_new: "cli_history creators resolve (new_cli_manager clientCfg port)"
| history_answer: "cli_history creators resolve pm \<Longrightarrow>
    start_proxy (client_proxy_run creators resolve) now name addr err pm = (pm', e) \<Longrightarrow> cli_history creators resolve pm'"
| history_round: "cli_history creators resolve pm \<Longrightarrow> cm_proxies pm name = Some pw \<Longrightarrow>
    check_worker_round now pw = (pw', ps) \<Longrightarrow> cli_history creators resolve (handle_events ps (put_wrapper name pw' pm))"
| history_monitor: "cli_history creators resolve pm \<Longrightarrow> cm_proxies pm name = Some pw \<Longrightarrow>
    cli_history creators resolve (put_wrapper name (monitor_round ok pw) pm)"
| history_work_conn: "cli_history creators resolve pm \<Longrightarrow>
    cli_handle_work_conn (env :: unit tunnel_env) xe name conn m pm = Ok (pm', h) \<Longrightarrow> cli_history creators resolve pm'"
| history_reload: "cli_history creators resolve pm \<Longrightarrow> range_of (cm_proxies pm) old \<Longrightarrow> range_of cfgs new \<Longrightarrow>
    names_match cfgs \<Longrightarrow> cli_manager_reload old new cfgs pm = Ok pm' \<Longrightarrow> cli_history creators resolve pm'"
| history_close: "cli_history creators resolve pm \<Longrightarrow> range_of (cm_proxies pm) order \<Longrightarrow>
    cli_manager_close order pm = Ok pm' \<Longrightarrow> cli_history creators resolve pm'"
| history_send_closed: "cli_history creators resolve pm \<Longrightarrow> cli_history creators resolve (pm\<lparr>cm_send_closed := True\<rparr>)"

lemma cli_manager_reload_law:
  assumes "manager_ok pm" and "names_match cfgs" and "range_of (cm_proxies pm) old" and "range_of cfgs new"
  shows "\<exists>pm'. cli_manager_reload old new cfgs pm = Ok pm' \<and> manager_ok pm' \<and>
           cm_proxies pm' = reloaded compare pw_cfg (\<lambda>cfg. new_wrapper cfg (cm_client_cfg pm) (cm_server_udp_port pm))
                              cfgs (cm_proxies pm)"
proof -
  from reload_del_law [OF assms(1), of cfgs old] obtain pm1 where del: "reload_del cfgs old pm = Ok pm1" "manager_ok pm1"
    "cm_client_cfg pm1 = cm_client_cfg pm" "cm_server_udp_port pm1 = cm_server_udp_port pm"
    "cm_proxies pm1 = (\<lambda>name. case cm_proxies pm name of
       None \<Rightarrow> None | Some pw \<Rightarrow> if name \<in> set old \<and> outdated cfgs name pw then None else Some pw)" by blast
  from assms(3,4) have "set old = dom (cm_proxies pm)" "set new = dom cfgs" by (simp_all add: range_of_def)
  then have "cm_proxies (reload_add cfgs new pm1) =
      reloaded compare pw_cfg (\<lambda>cfg. new_wrapper cfg (cm_client_cfg pm) (cm_server_udp_port pm)) cfgs (cm_proxies pm)"
    using reload_add_law [OF del(2) assms(2), of new]
    by (auto simp: del(3-5) reloaded_def outdated_def domIff intro!: ext split: option.split)
  with del(1) reload_add_law [OF del(2) assms(2), of new] show ?thesis by (simp add: cli_manager_reload_def)
qed

lemma cli_history_ok: "cli_history creators resolve pm \<Longrightarrow> manager_ok pm"
proof (induction rule: cli_history.induct)
  case (history_new clientCfg port)
  then show ?case by (simp add: manager_ok_def new_cli_manager_def)
next
  case (history_answer pm now name addr err pm' e)
  show ?case
  proof (cases "cm_proxies pm name")
    case None
    with history_answer show ?thesis by (simp add: start_proxy_def)
  next
    case (Some pw)
    obtain pw' ps res where s: "set_running_status (client_proxy_run creators resolve) now addr err pw = (pw', ps, res)"
      by (cases "set_running_status (client_proxy_run creators resolve) now addr err pw")
    note law = set_running_status_law [OF manager_okD(1) [OF history_answer.IH Some] closable_run s]
    have "manager_ok (handle_events ps (put_wrapper name pw' pm))"
      by (rule manager_ok_put [OF history_answer.IH Some law(1) law(2) law(3)])
    with history_answer.hyps(2) Some s show ?thesis by (simp add: start_proxy_def)
  qed
next
  case (history_round pm name pw now pw' ps)
  note law = check_worker_round_law [OF manager_okD(1) [OF history_round.IH history_round.hyps(2)] history_round.hyps(3)]
  show ?case by (rule manager_ok_put [OF history_round.IH history_round.hyps(2) law(1) law(2) law(3)])
next
  case (history_monitor pm name pw ok)
  note law = monitor_round_law(1) [OF manager_okD(1) [OF history_monitor.IH history_monitor.hyps(2)], of ok]
  show ?case by (rule manager_ok_put_quiet [OF history_monitor.IH history_monitor.hyps(2) law monitor_round_law(2)])
next
  case (history_work_conn pm env xe name conn m pm' h)
  show ?case
  proof (cases "cm_proxies pm name")
    case None
    with history_work_conn show ?thesis by (simp add: cli_handle_work_conn_def)
  next
    case (Some pw)
    obtain pw' h' where w: "pw_in_work_conn env xe conn m pw = Ok (pw', h')" "pm' = put_wrapper name pw' pm"
      using history_work_conn.hyps(2) Some by (cases "pw_in_work_conn env xe conn m pw") (auto simp: cli_handle_work_conn_def)
    note law = pw_in_work_conn_law [OF manager_okD(1) [OF history_work_conn.IH Some] w(1)]
    show ?thesis unfolding w(2) by (rule manager_ok_put_quiet [OF history_work_conn.IH Some law(1) law(2)])
  qed
next
  case (history_reload pm old cfgs new pm')
  from cli_manager_reload_law [OF history_reload.IH history_reload.hyps(4,2,3)] history_reload.hyps(5) show ?case by simp
next
  case (history_close pm order pm')
  from cli_manager_close_law [OF history_close.IH history_close.hyps(2)] history_close.hyps(3) show ?case by simp
next
  case (history_send_closed pm)
  then show ?case by (simp add: manager_ok_def)
qed

section \<open>Properties\<close>


text \<open>C12: In every history a reload of the proxies does not panic, whatever the order of its two ranges:
  a proxy whose configuration compares equal to the new one goes on untouched, every other one is stopped,
  and the names without a proxy get a new one, so that the proxies are exactly the configured ones.\<close>

theorem reload_as_specified:
  assumes "cli_history creators resolve pm" and "names_match cfgs"
    and "range_of (cm_proxies pm) old" and "range_of cfgs new"
  shows "\<exists>pm'. cli_manager_reload old new cfgs pm = Ok pm' \<and>
           cm_proxies pm' = reloaded compare pw_cfg (\<lambda>cfg. new_wrapper cfg (cm_client_cfg pm) (cm_server_udp_port pm))
                              cfgs (cm_proxies pm)"
  using cli_manager_reload_law [OF cli_history_ok [OF assms(1)] assms(2-4)] by blast

section \<open>A running proxy\<close>

text \<open>A client with one TCP proxy: loaded, requested, accepted.\<close>

definition sample_web :: proxy_conf where
  "sample_web = TCPConf \<lparr>tc_base = zero_base_proxy_conf\<lparr>bp_proxy_name := ''web'', bp_proxy_type := ''tcp''\<rparr>, tc_remote_port = 6000\<rparr>"

definition sample_loaded :: "(unit, unit, unit) cli_manager" where
  "sample_loaded = put_wrapper ''web'' (new_wrapper sample_web (get_default_client_conf []) 0)
                     (new_cli_manager (get_default_client_conf []) 0)"

definition sample_waiting :: "(unit, unit, unit) wrapper" where
  "sample_waiting = fst (check_worker_round 0 (new_wrapper sample_web (get_default_client_conf []) 0))"

definition sample_requested :: "(unit, unit, unit) cli_manager" where
  "sample_requested = handle_events [StartProxyPayload (marshal_to_msg sample_web empty_new_proxy)]
                        (put_wrapper ''web'' sample_waiting sample_loaded)"

definition sample_accepted :: "(unit, unit, unit) cli_manager" where
  "sample_accepted = fst (start_proxy (client_proxy_run (\<lambda>_. None) (\<lambda>_. Inl [])) 5 ''web'' '':6000'' [] sample_requested)"

lemma sample_names: "names_match [''web'' \<mapsto> sample_web]" "range_of [''web'' \<mapsto> sample_web] [''web'']"
  by (simp_all add: names_match_def range_of_def sample_web_def)

lemma sample_loaded_history: "cli_history (\<lambda>_. None) (\<lambda>_. Inl []) sample_loaded"
proof -
  have "cli_manager_reload [] [''web''] [''web'' \<mapsto> sample_web] (new_cli_manager (get_default_client_conf []) 0) = Ok sample_loaded"
    by (simp add: cli_manager_reload_def sample_loaded_def new_cli_manager_def)
  then show ?thesis
    by (rule history_reload [OF history_new _ sample_names(2,1), rotated]) (simp add: new_cli_manager_def range_of_def)
qed

lemma sample_waiting_round:
  "check_worker_round 0 (new_wrapper sample_web (get_default_client_conf []) 0) =
     (sample_waiting, [StartProxyPayload (marshal_to_msg sample_web empty_new_proxy)])"
  by (simp add: sample_waiting_def check_worker_round_def new_wrapper_def sample_web_def zero_base_proxy_conf_def
      zero_health_check_def pw_phase_def pw_cfg_def set_phase_def Let_def)

lemma sample_requested_history: "cli_history (\<lambda>_. None) (\<lambda>_. Inl []) sample_requested"
  unfolding sample_requested_def
  by (rule history_round [OF sample_loaded_history _ sample_waiting_round]) (simp add: sample_loaded_def put_wrapper_def)

lemma sample_accepted_history: "cli_history (\<lambda>_. None) (\<lambda>_. Inl []) sample_accepted"
  unfolding sample_accepted_def
  by (rule history_answer [OF sample_requested_history]) (rule prod.collapse [symmetric])


lemma reload_as_specified_witness:
  "\<exists>pm'. cli_manager_reload [''web''] [''web''] [''web'' \<mapsto> sample_web] sample_accepted = Ok pm' \<and>
     cm_proxies pm' ''web'' = cm_proxies sample_accepted ''web''"
proof -
  obtain pw where pw: "cm_proxies sample_accepted = [''web'' \<mapsto> pw]" "pw_cfg pw = sample_web"
    by (simp add: sample_accepted_def sample_requested_def sample_loaded_def put_wrapper_def start_proxy_def
        set_running_status_def sample_waiting_def check_worker_round_def new_wrapper_def new_cli_manager_def
        client_proxy_run_def cli_tcp_run_def run_plugin_def cx_base_def new_client_proxy_def
        sample_web_def zero_base_proxy_conf_def zero_health_check_def zero_local_svr_def pw_phase_def pw_cfg_def set_phase_def Let_def)
  have "range_of (cm_proxies sample_accepted) [''web'']" by (simp add: pw(1) range_of_def)
  from reload_as_specified [OF sample_accepted_history sample_names(1) this sample_names(2)]
  show ?thesis using pcmp.cmp_refl by (auto simp: pw reloaded_def)
qed

end
