(* ===== verification/Client_Visitor.thy ===== *)
theory Client_Visitor
  imports Client_Proxy Visitor_Conf Reload
begin

text \<open>
  The visitors of a client: \<^verbatim>\<open>frp/client/visitor.go\<close> and \<^verbatim>\<open>visitor_manager.go\<close>. Listening,
  dialling and what is read from a connection are arguments; the accept loops only hand each connection
  to \<^verbatim>\<open>handleConn\<close>, which is modelled by what it sends and what it makes of the connection.
\<close>

section \<open>Visitors\<close>

text \<open>
  The fields of the three types: \<open>cv_listener\<close> is the address of \<^verbatim>\<open>l\<close> with whether it is open,
  the rest belongs to a SUDP visitor.
\<close>

record 'a client_visitor =
  cv_conf :: visitor_conf
  cv_listener :: "(string \<times> bool) option"
  cv_check_close_ch :: "unit chan"
  cv_udp_conn :: "(string \<times> bool) option"
  cv_read_ch :: "'a udp_packet_msg chan"
  cv_send_ch :: "'a udp_packet_msg chan"

definition new_client_visitor :: "visitor_conf \<Rightarrow> 'a client_visitor" where
  "new_client_visitor cfg =
     \<lparr>cv_conf = cfg, cv_listener = None,
      cv_check_close_ch = (case cfg of SUDPVisitor _ \<Rightarrow> make_chan 0 | _ \<Rightarrow> NilChan),
      cv_udp_conn = None, cv_read_ch = NilChan, cv_send_ch = NilChan\<rparr>"

definition cv_base :: "'a client_visitor \<Rightarrow> base_visitor_conf" where
  "cv_base sv = visitor_base_info (cv_conf sv)"

definition bind_address :: "base_visitor_conf \<Rightarrow> string" where
  "bind_address cfg = bv_bind_addr cfg @ '':'' @ int_str (bv_bind_port cfg)"

section \<open>A visitor's connection to the server\<close>

text \<open>
  What the server and the system answer: \<open>ve_answer\<close> is the response that was read in time,
  \<open>ve_md5\<close> the hash of \<^verbatim>\<open>GetAuthKey\<close>.
\<close>

record visitor_env =
  ve_connect_ok :: bool
  ve_now :: int
  ve_md5 :: "string \<Rightarrow> string"
  ve_write_ok :: bool
  ve_answer :: "new_visitor_conn_resp_msg option"
  ve_enc_ok :: "string \<Rightarrow> bool"

definition visitor_message :: "(string \<Rightarrow> string) \<Rightarrow> int \<Rightarrow> base_visitor_conf \<Rightarrow> new_visitor_conn_msg" where
  "visitor_message md5 now cfg =
     \<lparr>nv_proxy_name = bv_server_name cfg, nv_sign_key = get_auth_key md5 (bv_sk cfg) now, nv_timestamp = now,
      nv_use_encryption = bv_use_encryption cfg, nv_use_compression = bv_use_compression cfg\<rparr>"

definition visitor_layers :: "(string \<Rightarrow> bool) \<Rightarrow> base_visitor_conf \<Rightarrow> layer list option" where
  "visitor_layers enc_ok cfg =
     (if bv_use_encryption cfg \<and> \<not> enc_ok (bv_sk cfg) then None
      else Some ((if bv_use_encryption cfg then [EncryptLayer (bv_sk cfg)] else [])
                 @ (if bv_use_compression cfg then [CompressLayer] else [])))"

text \<open>The result of the exchange; \<open>VisitorConn\<close> has the layers of the connection to use.\<close>

datatype visitor_result =
    VisitorNoServer
  | VisitorNoWrite
  | VisitorNoAnswer
  | VisitorRefused string
  | VisitorNoEncryption
  | VisitorConn new_visitor_conn_msg "layer list"

definition visitor_exchange :: "visitor_env \<Rightarrow> base_visitor_conf \<Rightarrow> visitor_result" where
  "visitor_exchange ve cfg =
     (if \<not> ve_connect_ok ve then VisitorNoServer
      else
        let newVisitorConnMsg = visitor_message (ve_md5 ve) (ve_now ve) cfg in
        if \<not> ve_write_ok ve then VisitorNoWrite
        else
          (case ve_answer ve of
             None \<Rightarrow> VisitorNoAnswer
           | Some resp \<Rightarrow>
               if vr_error resp \<noteq> [] then VisitorRefused (vr_error resp)
               else
                 (case visitor_layers (ve_enc_ok ve) cfg of
                    None \<Rightarrow> VisitorNoEncryption
                  | Some layers \<Rightarrow> VisitorConn newVisitorConnMsg layers)))"

section \<open>STCP\<close>

definition vis_stcp_run :: "(string \<Rightarrow> string option) \<Rightarrow> 'a client_visitor \<Rightarrow> 'a client_visitor \<times> string option" where
  "vis_stcp_run listen sv =
     (let a = bind_address (cv_base sv) in
      case listen a of
        Some e \<Rightarrow> (sv\<lparr>cv_listener := None\<rparr>, Some e)
      | None \<Rightarrow> (sv\<lparr>cv_listener := Some (a, True)\<rparr>, None))"

definition vis_stcp_close :: "'a client_visitor \<Rightarrow> (unit, 'a client_visitor) go" where
  "vis_stcp_close sv =
     (case cv_listener sv of None \<Rightarrow> Panic | Some (a, _) \<Rightarrow> Ok (sv\<lparr>cv_listener := Some (a, False)\<rparr>))"

text \<open>The user's connection is joined with the one to the server, or closed; the latter is closed in any case.\<close>

definition vis_stcp_handle_conn :: "visitor_env \<Rightarrow> 'a client_visitor \<Rightarrow> visitor_result" where
  "vis_stcp_handle_conn ve sv = visitor_exchange ve (cv_base sv)"

section \<open>XTCP\<close>

definition vis_xtcp_run :: "(string \<Rightarrow> string option) \<Rightarrow> 'a client_visitor \<Rightarrow> 'a client_visitor \<times> string option" where
  "vis_xtcp_run listen sv =
     (let a = bind_address (cv_base sv) in
      case listen a of
        Some e \<Rightarrow> (sv\<lparr>cv_listener := None\<rparr>, Some e)
      | None \<Rightarrow> (sv\<lparr>cv_listener := Some (a, True)\<rparr>, None))"

definition vis_xtcp_close :: "'a client_visitor \<Rightarrow> (unit, 'a client_visitor) go" where
  "vis_xtcp_close sv =
     (case cv_listener sv of None \<Rightarrow> Panic | Some (a, _) \<Rightarrow> Ok (sv\<lparr>cv_listener := Some (a, False)\<rparr>))"

text \<open>
  \<open>vx_write_ok\<close> covers resolving and dialling the server's UDP address; \<open>vx_dial_ok\<close> resolving and
  dialling the address of the client; \<open>vx_ack\<close> is the datagram read from it.
\<close>

record visitor_xtcp_env =
  vx_now :: int
  vx_md5 :: "string \<Rightarrow> string"
  vx_write_ok :: "string \<Rightarrow> bool"
  vx_resp :: "nat_hole_resp_msg option"
  vx_dial_ok :: "string \<Rightarrow> bool"
  vx_ack :: "string option"
  vx_session_ok :: bool
  vx_enc_ok :: "string \<Rightarrow> bool"

datatype visitor_xtcp_sent = SentVisitorMsg string nat_hole_visitor_msg | SentSid string string

definition vis_xtcp_handle_conn ::
    "visitor_xtcp_env \<Rightarrow> string \<Rightarrow> int \<Rightarrow> 'a client_visitor \<Rightarrow> visitor_xtcp_sent list \<times> layer list option" where
  "vis_xtcp_handle_conn vx serverAddr serverUDPPort sv =
     (if serverUDPPort = 0 then ([], None)
      else
        let raddr = serverAddr @ '':'' @ int_str serverUDPPort; cfg = cv_base sv;
            natHoleVisitorMsg = \<lparr>hv_proxy_name = bv_server_name cfg,
              hv_sign_key = get_auth_key (vx_md5 vx) (bv_sk cfg) (vx_now vx), hv_timestamp = vx_now vx\<rparr> in
        if \<not> vx_write_ok vx raddr then ([], None)
        else
          let sent = [SentVisitorMsg raddr natHoleVisitorMsg] in
          (case vx_resp vx of
             None \<Rightarrow> (sent, None)
           | Some resp \<Rightarrow>
               if hr_error resp \<noteq> [] then (sent, None)
               else if \<not> vx_dial_ok vx (hr_client_addr resp) then (sent, None)
               else
                 let sent = sent @ [SentSid (hr_client_addr resp) (hr_sid resp)] in
                 (case vx_ack vx of
                    None \<Rightarrow> (sent, None)
                  | Some ack \<Rightarrow>
                      if ack \<noteq> hr_sid resp then (sent, None)
                      else if \<not> vx_session_ok vx then (sent, None)
                      else (sent, visitor_layers (vx_enc_ok vx) cfg))))"

section \<open>SUDP\<close>

definition vis_sudp_run ::
    "(string \<Rightarrow> string option) \<Rightarrow> (string \<Rightarrow> string option) \<Rightarrow> 'a client_visitor \<Rightarrow> 'a client_visitor \<times> string option" where
  "vis_sudp_run resolve listen_udp sv =
     (let a = bind_address (cv_base sv) in
      case resolve a of
        Some e \<Rightarrow> (sv, Some (''sudp ResolveUDPAddr error: '' @ e))
      | None \<Rightarrow>
          (case listen_udp a of
             Some e \<Rightarrow> (sv\<lparr>cv_udp_conn := None\<rparr>, Some (''listen udp port '' @ a @ '' error: '' @ e))
           | None \<Rightarrow> (sv\<lparr>cv_udp_conn := Some (a, True), cv_send_ch := make_chan 1024, cv_read_ch := make_chan 1024\<rparr>, None)))"

text \<open>
  \<^verbatim>\<open>getNewVisitorConn\<close>; unlike \<^verbatim>\<open>handleConn\<close> it does not close the connection to the server when the
  exchange fails, so that \<open>leaked\<close> tells whether an open connection is forgotten.
\<close>

definition get_new_visitor_conn :: "visitor_env \<Rightarrow> 'a client_visitor \<Rightarrow> visitor_result \<times> bool" where
  "get_new_visitor_conn ve sv =
     (let r = visitor_exchange ve (cv_base sv);
          leaked = (case r of VisitorNoServer \<Rightarrow> False | VisitorConn _ _ \<Rightarrow> False | _ \<Rightarrow> True)
      in (r, leaked))"

text \<open>A turn of \<^verbatim>\<open>dispatcher\<close>: whether it goes on, and whether it used a connection.\<close>

definition dispatcher_turn :: "visitor_env \<Rightarrow> bool \<Rightarrow> 'a client_visitor \<Rightarrow> bool \<times> bool" where
  "dispatcher_turn ve closed sv =
     (case fst (get_new_visitor_conn ve sv) of
        VisitorConn _ _ \<Rightarrow> (\<not> closed, True)
      | _ \<Rightarrow> (\<not> closed, False))"

text \<open>
  A turn of the reader and of the sender of \<^verbatim>\<open>worker\<close>: the channel and whether the goroutine goes on.
  Messages of other types are skipped.
\<close>

definition vis_reader_turn :: "'a message option \<Rightarrow> 'a udp_packet_msg chan \<Rightarrow> 'a udp_packet_msg chan \<times> bool" where
  "vis_reader_turn got readCh =
     (case got of
        None \<Rightarrow> (readCh, False)
      | Some (MUDPPacket m) \<Rightarrow>
          (case chan_send m readCh of
             Sent readCh' \<Rightarrow> (readCh', True)
           | SendBlocks \<Rightarrow> (readCh, True)
           | SendPanics \<Rightarrow> (readCh, False))
      | Some _ \<Rightarrow> (readCh, True))"

definition vis_sender_turn ::
    "('a udp_packet_msg \<Rightarrow> bool) \<Rightarrow> bool \<Rightarrow> 'a udp_packet_msg chan \<Rightarrow> 'a udp_packet_msg chan \<times> bool" where
  "vis_sender_turn write_ok close_ch sendCh =
     (if close_ch then (sendCh, False)
      else
        (case chan_recv sendCh of
           Received m sendCh' \<Rightarrow> (sendCh', write_ok m)
         | RecvBlocks \<Rightarrow> (sendCh, True)
         | RecvClosed \<Rightarrow> (sendCh, False)))"

definition vis_sudp_close :: "'a client_visitor \<Rightarrow> (unit, 'a client_visitor) go" where
  "vis_sudp_close sv =
     (if is_closed (cv_check_close_ch sv) then Ok sv
      else
        (case chan_close (cv_check_close_ch sv) of
           None \<Rightarrow> Panic
         | Some closeCh \<Rightarrow>
             let sv = sv\<lparr>cv_check_close_ch := closeCh,
                         cv_udp_conn := map_option (\<lambda>(a, _). (a, False)) (cv_udp_conn sv)\<rparr> in
             (case chan_close (cv_read_ch sv) of
                None \<Rightarrow> Panic
              | Some readCh \<Rightarrow>
                  (case chan_close (cv_send_ch sv) of
                     None \<Rightarrow> Panic
                   | Some sendCh \<Rightarrow> Ok (sv\<lparr>cv_read_ch := readCh, cv_send_ch := sendCh\<rparr>)))))"

section \<open>The interface \<^verbatim>\<open>Visitor\<close>\<close>

text \<open>The listening of the system: \<open>None\<close> for success, for TCP, for resolving and for UDP addresses.\<close>

record listen_env =
  li_tcp :: "string \<Rightarrow> string option"
  li_resolve :: "string \<Rightarrow> string option"
  li_udp :: "string \<Rightarrow> string option"

definition vis_run :: "listen_env \<Rightarrow> 'a client_visitor \<Rightarrow> 'a client_visitor \<times> string option" where
  "vis_run li sv =
     (case cv_conf sv of
        STCPVisitor _ \<Rightarrow> vis_stcp_run (li_tcp li) sv
      | XTCPVisitor _ \<Rightarrow> vis_xtcp_run (li_tcp li) sv
      | SUDPVisitor _ \<Rightarrow> vis_sudp_run (li_resolve li) (li_udp li) sv)"

definition vis_close :: "'a client_visitor \<Rightarrow> (unit, 'a client_visitor) go" where
  "vis_close sv =
     (case cv_conf sv of
        STCPVisitor _ \<Rightarrow> vis_stcp_close sv
      | XTCPVisitor _ \<Rightarrow> vis_xtcp_close sv
      | SUDPVisitor _ \<Rightarrow> vis_sudp_close sv)"

section \<open>The manager\<close>

record 'a cli_visitors =
  vg_cfgs :: "string \<rightharpoonup> visitor_conf"
  vg_visitors :: "string \<rightharpoonup> 'a client_visitor"
  vg_stop_ch :: "unit chan"

definition new_cli_visitors :: "'a cli_visitors" where
  "new_cli_visitors = \<lparr>vg_cfgs = (\<lambda>_. None), vg_visitors = (\<lambda>_. None), vg_stop_ch = make_chan 0\<rparr>"

definition start_visitor :: "listen_env \<Rightarrow> visitor_conf \<Rightarrow> 'a cli_visitors \<Rightarrow> 'a cli_visitors \<times> string option" where
  "start_visitor li cfg vm =
     (let name = bv_proxy_name (visitor_base_info cfg) in
      case vis_run li (new_client_visitor cfg) of
        (visitor, Some e) \<Rightarrow> (vm, Some e)
      | (visitor, None) \<Rightarrow> (vm\<lparr>vg_visitors := (vg_visitors vm)(name \<mapsto> visitor)\<rparr>, None))"

text \<open>A tick of \<^verbatim>\<open>Run\<close>: the configurations in the order of the range.\<close>

fun visitors_tick :: "listen_env \<Rightarrow> visitor_conf list \<Rightarrow> 'a cli_visitors \<Rightarrow> 'a cli_visitors" where
  "visitors_tick li [] vm = vm"
| "visitors_tick li (cfg # cfgs) vm =
     (if vg_visitors vm (bv_proxy_name (visitor_base_info cfg)) = None
      then visitors_tick li cfgs (fst (start_visitor li cfg vm))
      else visitors_tick li cfgs vm)"

definition visitor_outdated :: "(string \<rightharpoonup> visitor_conf) \<Rightarrow> string \<Rightarrow> visitor_conf \<Rightarrow> bool" where
  "visitor_outdated cfgs name oldCfg =
     (case cfgs name of None \<Rightarrow> True | Some cfg \<Rightarrow> \<not> visitor_compare oldCfg cfg)"

text \<open>The two loops of \<^verbatim>\<open>Reload\<close>, in the orders of their ranges.\<close>

fun visitors_del :: "(string \<rightharpoonup> visitor_conf) \<Rightarrow> string list \<Rightarrow> 'a cli_visitors \<Rightarrow> (unit, 'a cli_visitors) go" where
  "visitors_del cfgs [] vm = Ok vm"
| "visitors_del cfgs (name # names) vm =
     (case vg_cfgs vm name of
        None \<Rightarrow> visitors_del cfgs names vm
      | Some oldCfg \<Rightarrow>
          if visitor_outdated cfgs name oldCfg then
            go_then (case vg_visitors vm name of None \<Rightarrow> Ok () | Some v \<Rightarrow> go_then (vis_close v) (\<lambda>_. Ok ())) (\<lambda>_.
              visitors_del cfgs names
                (vm\<lparr>vg_cfgs := (vg_cfgs vm)(name := None), vg_visitors := (vg_visitors vm)(name := None)\<rparr>))
          else visitors_del cfgs names vm)"

fun visitors_add :: "listen_env \<Rightarrow> (string \<rightharpoonup> visitor_conf) \<Rightarrow> string list \<Rightarrow> 'a cli_visitors \<Rightarrow> 'a cli_visitors" where
  "visitors_add li cfgs [] vm = vm"
| "visitors_add li cfgs (name # names) vm =
     (case (cfgs name, vg_cfgs vm name) of
        (Some cfg, None) \<Rightarrow>
          visitors_add li cfgs names (fst (start_visitor li cfg (vm\<lparr>vg_cfgs := (vg_cfgs vm)(name \<mapsto> cfg)\<rparr>)))
      | _ \<Rightarrow> visitors_add li cfgs names vm)"

definition visitors_reload ::
    "listen_env \<Rightarrow> string list \<Rightarrow> string list \<Rightarrow> (string \<rightharpoonup> visitor_conf) \<Rightarrow> 'a cli_visitors \<Rightarrow> (unit, 'a cli_visitors) go" where
  "visitors_reload li old new cfgs vm =
     go_then (visitors_del cfgs old vm) (\<lambda>vm. Ok (visitors_add li cfgs new vm))"

fun close_visitors :: "string list \<Rightarrow> 'a cli_visitors \<Rightarrow> (unit, 'a cli_visitors) go" where
  "close_visitors [] vm = Ok vm"
| "close_visitors (name # names) vm =
     (case vg_visitors vm name of
        None \<Rightarrow> close_visitors names vm
      | Some v \<Rightarrow> go_then (vis_close v) (\<lambda>v'. close_visitors names (vm\<lparr>vg_visitors := (vg_visitors vm)(name \<mapsto> v')\<rparr>)))"

definition visitors_close :: "string list \<Rightarrow> 'a cli_visitors \<Rightarrow> (unit, 'a cli_visitors) go" where
  "visitors_close order vm =
     go_then (close_visitors order vm) (\<lambda>vm.
       if is_closed (vg_stop_ch vm) then Ok vm
       else (case chan_close (vg_stop_ch vm) of None \<Rightarrow> Panic | Some ch \<Rightarrow> Ok (vm\<lparr>vg_stop_ch := ch\<rparr>)))"

end
