(* ===== verification/Client_Visitor_Laws.thy ===== *)
theory Client_Visitor_Laws
  imports Client_Visitor
begin

text \<open>
  The reload of the visitors: closing never panics, and what runs afterwards is what is configured, as
  far as the listening succeeds.
\<close>

interpretation rv: reloadable visitor_compare "\<lambda>c. c" "\<lambda>c. c" "\<lambda>c. c"
  by unfold_locales (rule refl)

section \<open>Visitors that can be closed\<close>

definition visitor_closable :: "'a client_visitor \<Rightarrow> bool" where
  "visitor_closable v \<longleftrightarrow>
     (case cv_conf v of
        SUDPVisitor _ \<Rightarrow> is_closed (cv_check_close_ch v) \<or>
          is_open (cv_check_close_ch v) \<and> is_open (cv_read_ch v) \<and> is_open (cv_send_ch v)
      | _ \<Rightarrow> cv_listener v \<noteq> None)"

lemma visitor_run_law:
  assumes "vis_run li (new_client_visitor cfg) = (v, None)"
  shows "visitor_closable v" and "cv_conf v = cfg"
  using assms
  by (auto simp: vis_run_def vis_stcp_run_def vis_xtcp_run_def vis_sudp_run_def new_client_visitor_def
      visitor_closable_def cv_base_def make_chan_def Let_def split: visitor_conf.split_asm option.split_asm)

lemma vis_sudp_close_ok:
  assumes "is_closed (cv_check_close_ch v) \<or>
    is_open (cv_check_close_ch v) \<and> is_open (cv_read_ch v) \<and> is_open (cv_send_ch v)"
  shows "\<exists>v'. vis_sudp_close v = Ok v' \<and> cv_conf v' = cv_conf v \<and> is_closed (cv_check_close_ch v')"
proof (cases "is_closed (cv_check_close_ch v)")
  case True
  then show ?thesis by (simp add: vis_sudp_close_def)
next
  case False
  with assms have "is_open (cv_check_close_ch v)" "is_open (cv_read_ch v)" "is_open (cv_send_ch v)" by auto
  from this [THEN chan_close_open] False show ?thesis by (auto simp: vis_sudp_close_def Let_def)
qed

lemma visitor_close_law:
  assumes "visitor_closable v"
  shows "\<exists>v'. vis_close v = Ok v' \<and> visitor_closable v' \<and> cv_conf v' = cv_conf v"
proof (cases "cv_conf v")
  case (SUDPVisitor c)
  with assms vis_sudp_close_ok [of v] show ?thesis by (auto simp: vis_close_def visitor_closable_def)
qed (use assms in \<open>auto simp: vis_close_def visitor_closable_def vis_stcp_close_def vis_xtcp_close_def\<close>)

section \<open>The manager's invariant\<close>

definition visitors_ok :: "'a cli_visitors \<Rightarrow> bool" where
  "visitors_ok vm \<longleftrightarrow>
     (\<forall>name v. vg_visitors vm name = Some v \<longrightarrow> visitor_closable v \<and> vg_cfgs vm name = Some (cv_conf v)) \<and>
     (\<forall>name cfg. vg_cfgs vm name = Some cfg \<longrightarrow> bv_proxy_name (visitor_base_info cfg) = name) \<and>
     vg_stop_ch vm \<noteq> NilChan"

lemma visitors_okD:
  assumes "visitors_ok vm"
  shows "vg_visitors vm name = Some v \<Longrightarrow> visitor_closable v" "vg_visitors vm name = Some v \<Longrightarrow> vg_cfgs vm name = Some (cv_conf v)"
    "vg_cfgs vm name = Some cfg \<Longrightarrow> bv_proxy_name (visitor_base_info cfg) = name"
  using assms unfolding visitors_ok_def by blast+

lemma visitors_ok_new: "visitors_ok new_cli_visitors"
  by (simp add: visitors_ok_def new_cli_visitors_def make_chan_def)

definition started :: "listen_env \<Rightarrow> visitor_conf \<Rightarrow> 'a client_visitor option" where
  "started li cfg = (case vis_run li (new_client_visitor cfg) of (v, None) \<Rightarrow> Some v | _ \<Rightarrow> None)"

lemma start_visitor_eq:
  assumes "bv_proxy_name (visitor_base_info cfg) = name"
  shows "fst (start_visitor li cfg vm) =
    (case started li cfg of None \<Rightarrow> vm | Some v \<Rightarrow> vm\<lparr>vg_visitors := (vg_visitors vm)(name \<mapsto> v)\<rparr>)"
  using assms by (auto simp: start_visitor_def started_def Let_def split: option.split prod.split)

lemma started_law: "started li cfg = Some v \<Longrightarrow> visitor_closable v \<and> cv_conf v = cfg"
  by (auto simp: started_def dest: visitor_run_law split: prod.split_asm option.split_asm)

text \<open>What a visitor is after its configuration has been replaced.\<close>

definition visitor_after ::
    "listen_env \<Rightarrow> (string \<rightharpoonup> visitor_conf) \<Rightarrow> 'a cli_visitors \<Rightarrow> string \<Rightarrow> 'a client_visitor option" where
  "visitor_after li cfgs vm name =
     (case cfgs name of
        None \<Rightarrow> None
      | Some cfg \<Rightarrow> if vg_cfgs vm name = Some cfg then vg_visitors vm name else started li cfg)"

lemma visitors_del_law:
  assumes "visitors_ok vm"
  shows "\<exists>vm'. visitors_del cfgs names vm = Ok vm' \<and> visitors_ok vm' \<and> vg_stop_ch vm' = vg_stop_ch vm \<and>
     vg_cfgs vm' = (\<lambda>n. if n \<in> set names \<and> vg_cfgs vm n \<noteq> cfgs n then None else vg_cfgs vm n) \<and>
     vg_visitors vm' = (\<lambda>n. if n \<in> set names \<and> vg_cfgs vm n \<noteq> cfgs n then None else vg_visitors vm n)"
  using assms
proof (induction names arbitrary: vm)
  case Nil
  then show ?case by simp
next
  case (Cons name names)
  show ?case
  proof (cases "\<exists>old. vg_cfgs vm name = Some old \<and> visitor_outdated cfgs name old")
    case False
    then have "visitors_del cfgs (name # names) vm = visitors_del cfgs names vm" by (auto split: option.split)
    moreover from Cons.IH [OF Cons.prems] obtain vm' where vm':
      "visitors_del cfgs names vm = Ok vm'" "visitors_ok vm'" "vg_stop_ch vm' = vg_stop_ch vm"
      "vg_cfgs vm' = (\<lambda>n. if n \<in> set names \<and> vg_cfgs vm n \<noteq> cfgs n then None else vg_cfgs vm n)"
      "vg_visitors vm' = (\<lambda>n. if n \<in> set names \<and> vg_cfgs vm n \<noteq> cfgs n then None else vg_visitors vm n)" by blast
    moreover have "vg_cfgs vm name = None \<or> vg_cfgs vm name = cfgs name"
      using False by (cases "vg_cfgs vm name") (auto simp: visitor_outdated_def visitor_compare_iff split: option.split_asm)
    moreover have "vg_visitors vm name = None" if "vg_cfgs vm name = None"
      using visitors_okD(2) [OF Cons.prems, of name] that by (cases "vg_visitors vm name") auto
    ultimately show ?thesis by (intro exI [of _ vm']) (auto intro!: ext)
  next
    case True
    then obtain old where old: "vg_cfgs vm name = Some old" "visitor_outdated cfgs name old" by blast
    let ?vm = "vm\<lparr>vg_cfgs := (vg_cfgs vm)(name := None), vg_visitors := (vg_visitors vm)(name := None)\<rparr>"
    have "(case vg_visitors vm name of None \<Rightarrow> Ok () | Some v \<Rightarrow> go_then (vis_close v) (\<lambda>_. Ok ())) = Ok ()"
      using visitors_okD(1) [OF Cons.prems] visitor_close_law by (fastforce split: option.split)
    then have "visitors_del cfgs (name # names) vm = visitors_del cfgs names ?vm" by (simp add: old)
    moreover have "visitors_ok ?vm" using Cons.prems by (auto simp: visitors_ok_def)
    from Cons.IH [OF this] obtain vm' where
      "visitors_del cfgs names ?vm = Ok vm'" "visitors_ok vm'" "vg_stop_ch vm' = vg_stop_ch vm"
      "vg_cfgs vm' = (\<lambda>n. if n \<in> set names \<and> vg_cfgs ?vm n \<noteq> cfgs n then None else vg_cfgs ?vm n)"
      "vg_visitors vm' = (\<lambda>n. if n \<in> set names \<and> vg_cfgs ?vm n \<noteq> cfgs n then None else vg_visitors ?vm n)" by auto
    moreover have "vg_cfgs vm name \<noteq> cfgs name"
      using old by (auto simp: visitor_outdated_def visitor_compare_iff split: option.split_asm)
    ultimately show ?thesis by (intro exI [of _ vm']) (auto intro!: ext)
  qed
qed

definition visitor_names_match :: "(string \<rightharpoonup> visitor_conf) \<Rightarrow> bool" where
  "visitor_names_match cfgs \<longleftrightarrow> (\<forall>name cfg. cfgs name = Some cfg \<longrightarrow> bv_proxy_name (visitor_base_info cfg) = name)"

lemma visitors_add_law:
  assumes "visitors_ok vm" and "visitor_names_match cfgs"
  shows "visitors_ok (visitors_add li cfgs names vm) \<and>
     vg_cfgs (visitors_add li cfgs names vm) = (\<lambda>n. if n \<in> set names \<and> vg_cfgs vm n = None then cfgs n else vg_cfgs vm n) \<and>
     vg_visitors (visitors_add li cfgs names vm) =
       (\<lambda>n. if n \<in> set names \<and> vg_cfgs vm n = None then Option.bind (cfgs n) (started li) else vg_visitors vm n)"
  using assms(1)
proof (induction names arbitrary: vm)
  case Nil
  then show ?case by simp
next
  case (Cons name names)
  have gone: "vg_visitors vm name = None" if "vg_cfgs vm name = None"
    using visitors_okD(2) [OF Cons.prems, of name] that by (cases "vg_visitors vm name") auto
  show ?case
  proof (cases "\<exists>cfg. cfgs name = Some cfg \<and> vg_cfgs vm name = None")
    case False
    then have "visitors_add li cfgs (name # names) vm = visitors_add li cfgs names vm" by (auto split: option.split)
    with Cons.IH [OF Cons.prems] False gone show ?thesis by (auto intro!: ext)
  next
    case True
    then obtain cfg where cfg: "cfgs name = Some cfg" "vg_cfgs vm name = None" by blast
    then have n: "bv_proxy_name (visitor_base_info cfg) = name" using assms(2) by (simp add: visitor_names_match_def)
    let ?vm = "fst (start_visitor li cfg (vm\<lparr>vg_cfgs := (vg_cfgs vm)(name \<mapsto> cfg)\<rparr>))"
    have "visitors_ok ?vm"
      unfolding start_visitor_eq [OF n] using Cons.prems n gone [OF cfg(2)] started_law [of li cfg]
      by (auto simp: visitors_ok_def cfg(2) split: option.split if_split_asm)
    from Cons.IH [OF this] cfg gone show ?thesis
      by (auto simp: start_visitor_eq [OF n] intro!: ext split: option.split)
  qed
qed

text \<open>A reload, whatever the orders of its ranges.\<close>

lemma visitors_reload_law:
  assumes "visitors_ok vm" and "visitor_names_match cfgs" and "range_of (vg_cfgs vm) old" and "range_of cfgs new"
  shows "\<exists>vm'. visitors_reload li old new cfgs vm = Ok vm' \<and> visitors_ok vm' \<and>
     vg_cfgs vm' = reloaded visitor_compare (\<lambda>c. c) (\<lambda>c. c) cfgs (vg_cfgs vm) \<and>
     vg_visitors vm' = visitor_after li cfgs vm"
proof -
  from visitors_del_law [OF assms(1), of cfgs old] obtain vm1 where del: "visitors_del cfgs old vm = Ok vm1" "visitors_ok vm1"
    "vg_cfgs vm1 = (\<lambda>n. if n \<in> set old \<and> vg_cfgs vm n \<noteq> cfgs n then None else vg_cfgs vm n)"
    "vg_visitors vm1 = (\<lambda>n. if n \<in> set old \<and> vg_cfgs vm n \<noteq> cfgs n then None else vg_visitors vm n)" by blast
  from assms(3,4) have dom: "set old = dom (vg_cfgs vm)" "set new = dom cfgs" by (simp_all add: range_of_def)
  have none: "vg_visitors vm n = None" if "vg_cfgs vm n = None" for n
    using visitors_okD(2) [OF assms(1), of n] that by (cases "vg_visitors vm n") auto
  note add = visitors_add_law [OF del(2) assms(2), of li new]
  have "vg_cfgs (visitors_add li cfgs new vm1) = reloaded visitor_compare (\<lambda>c. c) (\<lambda>c. c) cfgs (vg_cfgs vm)"
    using add by (auto simp: del(3) dom domIff reloaded_def visitor_compare_iff intro!: ext split: option.split)
  moreover have "vg_visitors (visitors_add li cfgs new vm1) = visitor_after li cfgs vm"
    using add none by (auto simp: del(3,4) dom domIff visitor_after_def intro!: ext split: option.split)
  ultimately show ?thesis using del(1) add by (simp add: visitors_reload_def)
qed

lemma visitors_reload_cfgs:
  "reloaded visitor_compare (\<lambda>c. c) (\<lambda>c. c) cfgs old = cfgs"
  using rv.reloaded_matches [of cfgs old] by (auto simp: option.map_ident comp_def)

section \<open>Ticks and closing\<close>

lemma visitors_tick_law:
  assumes "visitors_ok vm" and "\<forall>cfg \<in> set cfgs. vg_cfgs vm (bv_proxy_name (visitor_base_info cfg)) = Some cfg"
  shows "visitors_ok (visitors_tick li cfgs vm) \<and> vg_cfgs (visitors_tick li cfgs vm) = vg_cfgs vm"
  using assms
proof (induction cfgs arbitrary: vm)
  case (Cons cfg cfgs)
  let ?n = "bv_proxy_name (visitor_base_info cfg)"
  let ?vm = "fst (start_visitor li cfg vm)"
  have eq: "?vm = (case started li cfg of None \<Rightarrow> vm | Some v \<Rightarrow> vm\<lparr>vg_visitors := (vg_visitors vm)(?n \<mapsto> v)\<rparr>)"
    by (rule start_visitor_eq) (rule refl)
  have "visitors_ok ?vm" "vg_cfgs ?vm = vg_cfgs vm"
    unfolding eq using Cons.prems started_law [of li cfg] by (auto simp: visitors_ok_def split: option.split)
  with Cons show ?case by simp
qed simp

lemma close_visitors_law:
  assumes "visitors_ok vm"
  shows "\<exists>vm'. close_visitors names vm = Ok vm' \<and> visitors_ok vm'"
  using assms
proof (induction names arbitrary: vm)
  case (Cons name names)
  show ?case
  proof (cases "vg_visitors vm name")
    case None
    with Cons show ?thesis by simp
  next
    case (Some v)
    from visitor_close_law [OF visitors_okD(1) [OF Cons.prems Some]] obtain v' where
      v': "vis_close v = Ok v'" "visitor_closable v'" "cv_conf v' = cv_conf v" by blast
    have "visitors_ok (vm\<lparr>vg_visitors := (vg_visitors vm)(name \<mapsto> v')\<rparr>)"
      using Cons.prems visitors_okD(2) [OF Cons.prems Some] v'(2,3) by (auto simp: visitors_ok_def)
    from Cons.IH [OF this] show ?thesis by (simp add: Some v'(1))
  qed
qed simp

lemma visitors_close_law:
  assumes "visitors_ok vm"
  shows "\<exists>vm'. visitors_close order vm = Ok vm' \<and> visitors_ok vm'"
proof -
  from close_visitors_law [OF assms] obtain vm1 where vm1: "close_visitors order vm = Ok vm1" "visitors_ok vm1" by blast
  then have "vg_stop_ch vm1 \<noteq> NilChan" by (simp add: visitors_ok_def)
  with vm1 show ?thesis by (cases "vg_stop_ch vm1") (auto simp: visitors_close_def visitors_ok_def)
qed

end
