(* ===== verification/Tunnel.thy ===== *)
theory Tunnel
  imports Server_Proxies Client_Wrapper Client_Visitor
begin

text \<open>
  Both ends of a connection: what the server puts around a work connection (\<open>Server_Proxies\<close>) and
  around a visitor's connection (\<open>Registries\<close>), against what the client (\<open>Client_Proxy\<close>) and the visitor
  (\<open>Client_Visitor\<close>) put around theirs. A bandwidth limit is local and not on the wire.
\<close>

section \<open>Layers on the wire\<close>

fun on_wire :: "layer \<Rightarrow> bool" where
  "on_wire (LimitLayer b) = False"
| "on_wire (EncryptLayer key) = True"
| "on_wire CompressLayer = True"

text \<open>The layers from the record of an end: the key it encrypts with, and whether it compresses.\<close>

definition layers_of :: "string option \<Rightarrow> bool \<Rightarrow> layer list" where
  "layers_of key compressed =
     (case key of None \<Rightarrow> [] | Some k \<Rightarrow> [EncryptLayer k]) @ (if compressed then [CompressLayer] else [])"

fun tunnel_layers :: "'g tunnel \<Rightarrow> layer list option" where
  "tunnel_layers TunnelNoEncryption = None"
| "tunnel_layers (TunnelPlugin g layers extra) = Some layers"
| "tunnel_layers (TunnelNoLocal a) = None"
| "tunnel_layers (TunnelJoined a layers extra) = Some layers"

lemma work_conn_layers_wire:
  "work_conn_layers enc_ok limiter b key = Some layers \<Longrightarrow>
   filter on_wire layers = layers_of (if bp_use_encryption b then Some key else None) (bp_use_compression b)"
  by (auto simp: work_conn_layers_def layers_of_def Let_def split: if_split_asm option.split_asm)

lemma handle_tcp_layers:
  "tunnel_layers (handle_tcp_work_connection env ls g b limiter key m) = Some layers \<Longrightarrow>
   work_conn_layers (te_enc_ok env) limiter b key = Some layers"
  by (auto simp: handle_tcp_work_connection_def Let_def split: option.split_asm if_split_asm)

lemma server_view_flags:
  "bp_use_encryption (get_base_info (server_view c)) = bp_use_encryption (get_base_info c)"
  "bp_use_compression (get_base_info (server_view c)) = bp_use_compression (get_base_info c)"
  by (cases c; simp add: server_view_def server_base_def)+

lemma handle_user_joined:
  assumes "handle_user_tcp_connection peer plugins write_ok got server_enc midnight now joined svr raddr pxy stats =
      Ok (UserJoined w key cps, stats')"
  shows "layers_of key cps =
    layers_of (if bp_use_encryption (get_base_info (sp_conf pxy)) then Some (tk_token (as_token (sc_auth svr))) else None)
      (bp_use_compression (get_base_info (sp_conf pxy)))"
  using assms
  by (auto simp: handle_user_tcp_connection_def Let_def split: go.splits work_conn_result.splits option.splits if_split_asm)

lemma visitor_exchange_conn:
  assumes "visitor_exchange ve cfg = VisitorConn m layers"
  shows "m = visitor_message (ve_md5 ve) (ve_now ve) cfg"
    and "layers = layers_of (if bv_use_encryption cfg then Some (bv_sk cfg) else None) (bv_use_compression cfg)"
  using assms
  by (auto simp: visitor_exchange_def visitor_layers_def layers_of_def Let_def split: if_split_asm option.split_asm)

section \<open>Properties\<close>


definition sample_tcp :: proxy_conf where
  "sample_tcp = TCPConf \<lparr>tc_base = (default_base_proxy_conf ''tcp'')\<lparr>bp_proxy_name := ''web'', bp_use_encryption := True,
     bp_use_compression := True, bp_bandwidth_limit := \<lparr>bw_s = ''1KB'', bw_i = 1024\<rparr>\<rparr>, tc_remote_port = 6001\<rparr>"

definition sample_client_end :: "(unit, unit, nat) client_proxy" where
  "sample_client_end = new_client_proxy sample_tcp (get_default_client_conf []) 0"

definition sample_tunnel_env :: "unit tunnel_env" where
  "sample_tunnel_env = \<lparr>te_enc_ok = (\<lambda>_. True), te_dial_ok = (\<lambda>_. True), te_parse_ip = (\<lambda>_. ()), te_write_header = (\<lambda>_. [])\<rparr>"




end
