(* ===== verification/Client_Control.thy ===== *)
theory Client_Control
  imports Client_Wrapper_Laws Client_Visitor_Laws Auth
begin

text \<open>
  The client's connection to the server: \<^verbatim>\<open>frp/client/control.go\<close>. Its four goroutines are the
  order of the operations below: the reader hands each message to the handler, the writer takes them
  from the queue of the proxy manager, which is \<^verbatim>\<open>sendCh\<close>; the worker waits for the others and
  closes everything. Reading, writing, dialling and TLS are arguments.
\<close>

section \<open>State\<close>

record ('g, 'a, 'c) client_control =
  kc_run_id :: string
  kc_pxy_cfgs :: "string \<rightharpoonup> proxy_conf"
  kc_pm :: "('g, 'a, 'c) cli_manager"
  kc_vm :: "'a cli_visitors"
  kc_has_session :: bool
  kc_conn_open :: bool
  kc_session_open :: bool
  kc_reader :: bool
  kc_handler :: bool
  kc_closed_done :: bool
  kc_last_pong :: int
  kc_client_cfg :: client_common_conf
  kc_server_udp_port :: int
  kc_auth_setter :: auth_setter

text \<open>
  \<^verbatim>\<open>NewControl\<close> starts the visitors; \<open>order\<close> is the order of the range over their configurations,
  \<open>session\<close> whether the connection is a stream of a session.
\<close>

definition new_client_control ::
    "listen_env \<Rightarrow> string list \<Rightarrow> string \<Rightarrow> bool \<Rightarrow> client_common_conf \<Rightarrow> (string \<rightharpoonup> proxy_conf) \<Rightarrow>
     (string \<rightharpoonup> visitor_conf) \<Rightarrow> int \<Rightarrow> auth_setter \<Rightarrow> (unit, ('g, 'a, 'c) client_control) go" where
  "new_client_control li order runID session clientCfg pxyCfgs visitorCfgs serverUDPPort authSetter =
     go_then (visitors_reload li [] order visitorCfgs new_cli_visitors) (\<lambda>vm.
       Ok \<lparr>kc_run_id = runID, kc_pxy_cfgs = pxyCfgs, kc_pm = new_cli_manager clientCfg serverUDPPort, kc_vm = vm,
           kc_has_session = session, kc_conn_open = True, kc_session_open = session,
           kc_reader = False, kc_handler = False, kc_closed_done = False, kc_last_pong = 0,
           kc_client_cfg = clientCfg, kc_server_udp_port = serverUDPPort, kc_auth_setter = authSetter\<rparr>)"

text \<open>\<^verbatim>\<open>Run\<close> starts the goroutines and the proxies; the handler notes the time.\<close>

definition client_control_run ::
    "string list \<Rightarrow> int \<Rightarrow> ('g, 'a, 'c) client_control \<Rightarrow> (unit, ('g, 'a, 'c) client_control) go" where
  "client_control_run order now ctl =
     go_then (cli_manager_reload [] order (kc_pxy_cfgs ctl) (kc_pm ctl)) (\<lambda>pm.
       Ok (ctl\<lparr>kc_pm := pm, kc_reader := True, kc_handler := True, kc_last_pong := now\<rparr>))"

section \<open>Connecting to the server\<close>

text \<open>\<^verbatim>\<open>net.JoinHostPort\<close>.\<close>

definition join_host_port :: "string \<Rightarrow> int \<Rightarrow> string" where
  "join_host_port host port =
     (if CHR '':'' \<in> set host then ''['' @ host @ '']'' else host) @ '':'' @ int_str port"

text \<open>How the client connects: a stream of the session, or a connection to an address, with TLS or without.\<close>

datatype connect_way = OpenStream | DialServer string string string bool

definition connect_plan :: "client_common_conf \<Rightarrow> connect_way" where
  "connect_plan cfg =
     (if cc_tcp_mux cfg then OpenStream
      else DialServer (cc_http_proxy cfg) (cc_protocol cfg) (join_host_port (cc_server_addr cfg) (cc_server_port cfg))
             (cc_tls_enable cfg))"

record connect_env =
  co_stream_ok :: bool
  co_tls_ok :: "string \<Rightarrow> string \<Rightarrow> string \<Rightarrow> string \<Rightarrow> bool"
  co_dial_ok :: "connect_way \<Rightarrow> bool"

definition connect_server :: "connect_env \<Rightarrow> ('g, 'a, 'c) client_control \<Rightarrow> bool" where
  "connect_server co ctl =
     (let cfg = kc_client_cfg ctl in
      case connect_plan cfg of
        OpenStream \<Rightarrow> kc_session_open ctl \<and> co_stream_ok co
      | DialServer p proto a tls \<Rightarrow>
          (tls \<longrightarrow> co_tls_ok co (cc_tls_cert_file cfg) (cc_tls_key_file cfg) (cc_tls_trusted_ca_file cfg) (cc_server_addr cfg))
          \<and> co_dial_ok co (DialServer p proto a tls))"

section \<open>Work connections\<close>

text \<open>
  \<^verbatim>\<open>HandleReqWorkConn\<close>: \<open>ReqNoAuth\<close> forgets the open connection, \<open>ReqNotWritten\<close>, \<open>ReqNotStarted\<close>
  and \<open>ReqError\<close> close it.
\<close>

datatype ('g, 'a, 'c) req_result =
    ReqNoServer
  | ReqNoAuth auth_error
  | ReqNotWritten
  | ReqNotStarted
  | ReqError string
  | ReqHandled new_work_conn_msg "('g, 'a, 'c) handled option"

definition handle_req_work_conn ::
    "connect_env \<Rightarrow> auth_env \<Rightarrow> (new_work_conn_msg \<Rightarrow> bool) \<Rightarrow> start_work_conn_msg option \<Rightarrow> 'ip tunnel_env \<Rightarrow> xtcp_env \<Rightarrow>
     'c \<Rightarrow> ('g, 'a, 'c) client_control \<Rightarrow> (unit, ('g, 'a, 'c) client_control \<times> ('g, 'a, 'c) req_result) go" where
  "handle_req_work_conn co ae write_ok answer env xe workConn ctl =
     (if \<not> connect_server co ctl then Ok (ctl, ReqNoServer)
      else
        (case set_new_work_conn ae (kc_auth_setter ctl)
                \<lparr>nw_run_id = kc_run_id ctl, nw_privilege_key = [], nw_timestamp = 0\<rparr> of
           (m, Some e) \<Rightarrow> Ok (ctl, ReqNoAuth e)
         | (m, None) \<Rightarrow>
             if \<not> write_ok m then Ok (ctl, ReqNotWritten)
             else
               (case answer of
                  None \<Rightarrow> Ok (ctl, ReqNotStarted)
                | Some startMsg \<Rightarrow>
                    if sw_error startMsg \<noteq> [] then Ok (ctl, ReqError (sw_error startMsg))
                    else
                      go_then (cli_handle_work_conn env xe (sw_proxy_name startMsg) workConn startMsg (kc_pm ctl))
                        (\<lambda>(pm, h). Ok (ctl\<lparr>kc_pm := pm\<rparr>, ReqHandled m h)))))"

section \<open>The handler\<close>

definition handle_new_proxy_resp ::
    "(('g, 'a, 'c) client_proxy \<Rightarrow> ('g, 'a, 'c) client_proxy \<times> string option) \<Rightarrow> int \<Rightarrow> new_proxy_resp_msg \<Rightarrow>
     ('g, 'a, 'c) client_control \<Rightarrow> ('g, 'a, 'c) client_control" where
  "handle_new_proxy_resp run now inMsg ctl =
     ctl\<lparr>kc_pm := fst (start_proxy run now (nr_proxy_name inMsg) (nr_remote_addr inMsg) (nr_error inMsg) (kc_pm ctl))\<rparr>"

text \<open>
  A turn of \<^verbatim>\<open>msgHandler\<close>: a tick of the heartbeat, a tick of the check, or a message; \<open>HandlerClosed\<close>
  is the closed channel of the reader. A request for a work connection starts
  \<open>handle_req_work_conn\<close> in a goroutine of its own. Sending the ping to a closed channel would panic.
\<close>

datatype 'a handler_event = HeartbeatSend | HeartbeatCheck | HandlerGot "'a message" | HandlerClosed

definition handler_send_ping :: "auth_env \<Rightarrow> ('g, 'a, 'c) client_control \<Rightarrow> (unit, ('g, 'a, 'c) client_control) go" where
  "handler_send_ping ae ctl =
     (case set_ping ae (kc_auth_setter ctl) zero_ping of
        (_, Some e) \<Rightarrow> Ok (ctl\<lparr>kc_handler := False\<rparr>)
      | (pingMsg, None) \<Rightarrow>
          let pm = kc_pm ctl in
          if cm_send_closed pm then Panic
          else Ok (ctl\<lparr>kc_pm := pm\<lparr>cm_sent := cm_sent pm @ [MPing pingMsg]\<rparr>\<rparr>))"

fun handler_turn ::
    "(('g, 'a, 'c) client_proxy \<Rightarrow> ('g, 'a, 'c) client_proxy \<times> string option) \<Rightarrow> auth_env \<Rightarrow> int \<Rightarrow> 'a handler_event \<Rightarrow>
     ('g, 'a, 'c) client_control \<Rightarrow> (unit, ('g, 'a, 'c) client_control) go" where
  "handler_turn run ae now HeartbeatSend ctl = handler_send_ping ae ctl"
| "handler_turn run ae now HeartbeatCheck ctl =
     Ok (if now - kc_last_pong ctl > go_duration (cc_heartbeat_timeout (kc_client_cfg ctl))
         then ctl\<lparr>kc_conn_open := False, kc_handler := False\<rparr> else ctl)"
| "handler_turn run ae now (HandlerGot m) ctl =
     Ok (case m of
           MNewProxyResp inMsg \<Rightarrow> handle_new_proxy_resp run now inMsg ctl
         | MPong p \<Rightarrow>
             if po_error p \<noteq> [] then ctl\<lparr>kc_conn_open := False, kc_handler := False\<rparr>
             else ctl\<lparr>kc_last_pong := now\<rparr>
         | _ \<Rightarrow> ctl)"
| "handler_turn run ae now HandlerClosed ctl = Ok (ctl\<lparr>kc_handler := False\<rparr>)"

text \<open>The end of \<^verbatim>\<open>reader\<close>: at the end of the stream, or, closing the connection, after another error.\<close>

definition reader_end :: "bool \<Rightarrow> ('g, 'a, 'c) client_control \<Rightarrow> ('g, 'a, 'c) client_control" where
  "reader_end eof ctl = (if eof then ctl\<lparr>kc_reader := False\<rparr> else ctl\<lparr>kc_reader := False, kc_conn_open := False\<rparr>)"

section \<open>The end\<close>

text \<open>\<^verbatim>\<open>Close\<close>, with the orders of the ranges over the proxies and the visitors.\<close>

definition client_control_close ::
    "string list \<Rightarrow> string list \<Rightarrow> ('g, 'a, 'c) client_control \<Rightarrow> (unit, ('g, 'a, 'c) client_control) go" where
  "client_control_close pxys visitors ctl =
     go_then (cli_manager_close pxys (kc_pm ctl)) (\<lambda>pm.
     go_then (visitors_close visitors (kc_vm ctl)) (\<lambda>vm.
       Ok (ctl\<lparr>kc_pm := pm, kc_vm := vm, kc_conn_open := False, kc_session_open := False\<rparr>)))"

text \<open>
  \<^verbatim>\<open>worker\<close> after the reader has ended: it waits for the handler, which ends when its channel is closed,
  then closes the queue, the proxies, the visitors and the session.
\<close>

definition worker_end ::
    "string list \<Rightarrow> string list \<Rightarrow> ('g, 'a, 'c) client_control \<Rightarrow> (unit, ('g, 'a, 'c) client_control) go" where
  "worker_end pxys visitors ctl =
     go_then (cli_manager_close pxys (kc_pm ctl\<lparr>cm_send_closed := True\<rparr>)) (\<lambda>pm.
     go_then (visitors_close visitors (kc_vm ctl)) (\<lambda>vm.
       Ok (ctl\<lparr>kc_pm := pm, kc_vm := vm, kc_closed_done := True, kc_session_open := False\<rparr>)))"

record reload_orders =
  ro_old_visitors :: "string list"
  ro_new_visitors :: "string list"
  ro_old_proxies :: "string list"
  ro_new_proxies :: "string list"

definition client_control_reload ::
    "listen_env \<Rightarrow> reload_orders \<Rightarrow> (string \<rightharpoonup> proxy_conf) \<Rightarrow> (string \<rightharpoonup> visitor_conf) \<Rightarrow> ('g, 'a, 'c) client_control \<Rightarrow>
     (unit, ('g, 'a, 'c) client_control) go" where
  "client_control_reload li ro pxyCfgs visitorCfgs ctl =
     go_then (visitors_reload li (ro_old_visitors ro) (ro_new_visitors ro) visitorCfgs (kc_vm ctl)) (\<lambda>vm.
     go_then (cli_manager_reload (ro_old_proxies ro) (ro_new_proxies ro) pxyCfgs (kc_pm ctl)) (\<lambda>pm.
       Ok (ctl\<lparr>kc_vm := vm, kc_pm := pm\<rparr>)))"

end
