(* ===== verification/Client_Control_Laws.thy ===== *)
theory Client_Control_Laws
  imports Client_Control
begin

text \<open>
  The histories of a client's control, and that none of its goroutines panics: the proxies' queue is
  closed only when the handler has ended, and everything is closed at most once.
\<close>

section \<open>The invariant\<close>

definition control_ok :: "('g, 'a, 'c) client_control \<Rightarrow> bool" where
  "control_ok ctl \<longleftrightarrow>
     manager_ok (kc_pm ctl) \<and> visitors_ok (kc_vm ctl) \<and> (kc_handler ctl \<longrightarrow> \<not> cm_send_closed (kc_pm ctl))"

lemma start_proxy_ok:
  assumes "manager_ok pm"
  shows "manager_ok (fst (start_proxy (client_proxy_run creators resolve) now name addr err pm)) \<and>
         cm_send_closed (fst (start_proxy (client_proxy_run creators resolve) now name addr err pm)) = cm_send_closed pm"
proof (cases "cm_proxies pm name")
  case None
  with assms show ?thesis by (simp add: start_proxy_def)
next
  case (Some pw)
  obtain pw' ps res where s: "set_running_status (client_proxy_run creators resolve) now addr err pw = (pw', ps, res)"
    by (cases "set_running_status (client_proxy_run creators resolve) now addr err pw")
  note law = set_running_status_law [OF manager_okD(1) [OF assms Some] closable_run s]
  have "manager_ok (handle_events ps (put_wrapper name pw' pm))"
    by (rule manager_ok_put [OF assms Some law(1) law(2) law(3)])
  with Some s show ?thesis by (simp add: start_proxy_def put_wrapper_def)
qed

lemma go_then_Ok: "go_then r k = Ok y \<longleftrightarrow> (\<exists>x. r = Ok x \<and> k x = Ok y)"
  by (cases r) auto

lemma cli_handle_work_conn_ok:
  assumes "manager_ok pm" and "cli_handle_work_conn env xe name conn m pm = Ok (pm', h)"
  shows "manager_ok pm' \<and> cm_send_closed pm' = cm_send_closed pm"
proof (cases "cm_proxies pm name")
  case None
  with assms show ?thesis by (simp add: cli_handle_work_conn_def)
next
  case (Some pw)
  obtain pw' h' where w: "pw_in_work_conn env xe conn m pw = Ok (pw', h')" "pm' = put_wrapper name pw' pm"
    using assms(2) Some by (cases "pw_in_work_conn env xe conn m pw") (auto simp: cli_handle_work_conn_def)
  note law = pw_in_work_conn_law [OF manager_okD(1) [OF assms(1) Some] w(1)]
  have "manager_ok (put_wrapper name pw' pm)" by (rule manager_ok_put_quiet [OF assms(1) Some law(1) law(2)])
  then show ?thesis by (simp add: w(2) put_wrapper_def)
qed

lemma handle_req_work_conn_cases:
  assumes "handle_req_work_conn co ae write_ok answer env xe conn ctl = Ok (ctl', r)"
  shows "ctl' = ctl \<or> (\<exists>name m pm h. cli_handle_work_conn env xe name conn m (kc_pm ctl) = Ok (pm, h) \<and> ctl' = ctl\<lparr>kc_pm := pm\<rparr>)"
proof (rule ccontr)
  assume not: "\<not> ?thesis"
  obtain m e where sign: "set_new_work_conn ae (kc_auth_setter ctl)
      \<lparr>nw_run_id = kc_run_id ctl, nw_privilege_key = [], nw_timestamp = 0\<rparr> = (m, e)" by fastforce
  have "connect_server co ctl" "e = None" "write_ok m"
    using assms not by (auto simp: handle_req_work_conn_def sign split: if_split_asm option.split_asm)
  moreover obtain startMsg where "answer = Some startMsg" "sw_error startMsg = []"
    using assms not calculation by (auto simp: handle_req_work_conn_def sign split: option.split_asm if_split_asm)
  ultimately have "go_then (cli_handle_work_conn env xe (sw_proxy_name startMsg) conn startMsg (kc_pm ctl))
      (\<lambda>(pm, h). Ok (ctl\<lparr>kc_pm := pm\<rparr>, ReqHandled m h)) = Ok (ctl', r)"
    using assms by (simp add: handle_req_work_conn_def sign)
  then obtain x where "cli_handle_work_conn env xe (sw_proxy_name startMsg) conn startMsg (kc_pm ctl) = Ok x"
    "(case x of (pm, h) \<Rightarrow> Ok (ctl\<lparr>kc_pm := pm\<rparr>, ReqHandled m h)) = (Ok (ctl', r) :: (unit, _) go)"
    unfolding go_then_Ok by blast
  with not show False by (cases x) auto
qed

lemma manager_ok_ping: "manager_ok pm \<Longrightarrow> manager_ok (pm\<lparr>cm_sent := cm_sent pm @ [MPing m]\<rparr>)"
  by (simp add: manager_ok_def)

lemma handler_turn_ok:
  assumes "control_ok ctl" and "kc_handler ctl"
  shows "\<exists>ctl'. handler_turn (client_proxy_run creators resolve) ae now e ctl = Ok ctl' \<and> control_ok ctl'"
proof (cases e)
  case HeartbeatSend
  with assms manager_ok_ping show ?thesis
    by (auto simp: handler_send_ping_def control_ok_def Let_def split: prod.split option.split)
next
  case HeartbeatCheck
  with assms show ?thesis by (simp add: control_ok_def)
next
  case (HandlerGot m)
  with assms start_proxy_ok [of "kc_pm ctl" creators resolve] show ?thesis
    by (cases m) (auto simp: control_ok_def handle_new_proxy_resp_def)
next
  case HandlerClosed
  with assms show ?thesis by (simp add: control_ok_def)
qed

lemma client_control_close_ok:
  assumes "control_ok ctl" and "range_of (cm_proxies (kc_pm ctl)) order"
  shows "\<exists>ctl'. client_control_close order vorder ctl = Ok ctl' \<and> control_ok ctl'"
proof -
  from assms have ok: "manager_ok (kc_pm ctl)" "visitors_ok (kc_vm ctl)" by (simp_all add: control_ok_def)
  from cli_manager_close_law [OF ok(1) assms(2)] obtain pm where pm: "cli_manager_close order (kc_pm ctl) = Ok pm" "manager_ok pm" by blast
  from visitors_close_law [OF ok(2)] obtain vm where vm: "visitors_close vorder (kc_vm ctl) = Ok vm" "visitors_ok vm" by blast
  have "cm_send_closed pm = cm_send_closed (kc_pm ctl)"
    using pm(1) stop_all_law [OF ok(1), of order] assms(2) by (auto simp: cli_manager_close_def range_of_def)
  with pm vm assms(1) show ?thesis by (simp add: client_control_close_def control_ok_def)
qed

lemma worker_end_ok:
  assumes "control_ok ctl" and "\<not> kc_handler ctl" and "range_of (cm_proxies (kc_pm ctl)) order"
  shows "\<exists>ctl'. worker_end order vorder ctl = Ok ctl' \<and> control_ok ctl'"
proof -
  from assms have ok: "manager_ok (kc_pm ctl\<lparr>cm_send_closed := True\<rparr>)" "visitors_ok (kc_vm ctl)"
    by (simp_all add: control_ok_def manager_ok_def)
  from assms(3) have "range_of (cm_proxies (kc_pm ctl\<lparr>cm_send_closed := True\<rparr>)) order" by simp
  from cli_manager_close_law [OF ok(1) this] obtain pm where
    "cli_manager_close order (kc_pm ctl\<lparr>cm_send_closed := True\<rparr>) = Ok pm" "manager_ok pm" by blast
  with visitors_close_law [OF ok(2), of vorder] assms(2) show ?thesis by (auto simp: worker_end_def control_ok_def)
qed

definition orders_ok :: "reload_orders \<Rightarrow> (string \<rightharpoonup> proxy_conf) \<Rightarrow> (string \<rightharpoonup> visitor_conf) \<Rightarrow> ('g, 'a, 'c) client_control \<Rightarrow> bool" where
  "orders_ok ro pxyCfgs visitorCfgs ctl \<longleftrightarrow>
     range_of (vg_cfgs (kc_vm ctl)) (ro_old_visitors ro) \<and> range_of visitorCfgs (ro_new_visitors ro) \<and>
     range_of (cm_proxies (kc_pm ctl)) (ro_old_proxies ro) \<and> range_of pxyCfgs (ro_new_proxies ro) \<and>
     names_match pxyCfgs \<and> visitor_names_match visitorCfgs"

lemma reload_add_send_closed [simp]: "cm_send_closed (reload_add cfgs names pm) = cm_send_closed pm"
  by (induction names arbitrary: pm) (auto simp: put_wrapper_def split: option.split)

lemma cli_manager_reload_send_closed:
  assumes "manager_ok pm" and "cli_manager_reload old new cfgs pm = Ok pm'"
  shows "cm_send_closed pm' = cm_send_closed pm"
  using reload_del_law [OF assms(1), of cfgs old] assms(2) by (auto simp: cli_manager_reload_def)

lemma client_control_reload_ok:
  assumes "control_ok ctl" and "orders_ok ro pxyCfgs visitorCfgs ctl"
  shows "\<exists>ctl'. client_control_reload li ro pxyCfgs visitorCfgs ctl = Ok ctl' \<and> control_ok ctl'"
proof -
  from assms have ok: "manager_ok (kc_pm ctl)" "visitors_ok (kc_vm ctl)" by (simp_all add: control_ok_def)
  from assms(2) have o: "range_of (vg_cfgs (kc_vm ctl)) (ro_old_visitors ro)" "range_of visitorCfgs (ro_new_visitors ro)"
    "range_of (cm_proxies (kc_pm ctl)) (ro_old_proxies ro)" "range_of pxyCfgs (ro_new_proxies ro)"
    "names_match pxyCfgs" "visitor_names_match visitorCfgs" by (simp_all add: orders_ok_def)
  from visitors_reload_law [OF ok(2) o(6,1,2), of li] obtain vm where
    vm: "visitors_reload li (ro_old_visitors ro) (ro_new_visitors ro) visitorCfgs (kc_vm ctl) = Ok vm" "visitors_ok vm" by blast
  from cli_manager_reload_law [OF ok(1) o(5,3,4)] obtain pm where
    pm: "cli_manager_reload (ro_old_proxies ro) (ro_new_proxies ro) pxyCfgs (kc_pm ctl) = Ok pm" "manager_ok pm" by blast
  from cli_manager_reload_send_closed [OF ok(1) pm(1)] vm pm assms(1) show ?thesis
    by (simp add: client_control_reload_def control_ok_def)
qed

section \<open>Histories\<close>

inductive control_history ::
    "'g plugin_creators \<Rightarrow> (string \<Rightarrow> string + 'a) \<Rightarrow> ('g, 'a, 'c) client_control \<Rightarrow> bool" for creators resolve where
  control_run: "new_client_control li vorder runID session clientCfg pxyCfgs visitorCfgs port setter = Ok ctl0 \<Longrightarrow>
    client_control_run order now ctl0 = Ok ctl \<Longrightarrow> range_of visitorCfgs vorder \<Longrightarrow> range_of pxyCfgs order \<Longrightarrow>
    names_match pxyCfgs \<Longrightarrow> visitor_names_match visitorCfgs \<Longrightarrow> control_history creators resolve ctl"
| control_turn: "control_history creators resolve ctl \<Longrightarrow> kc_handler ctl \<Longrightarrow>
    handler_turn (client_proxy_run creators resolve) ae now e ctl = Ok ctl' \<Longrightarrow> control_history creators resolve ctl'"
| control_round: "control_history creators resolve ctl \<Longrightarrow> cm_proxies (kc_pm ctl) name = Some pw \<Longrightarrow>
    check_worker_round now pw = (pw', ps) \<Longrightarrow>
    control_history creators resolve (ctl\<lparr>kc_pm := handle_events ps (put_wrapper name pw' (kc_pm ctl))\<rparr>)"
| control_monitor: "control_history creators resolve ctl \<Longrightarrow> cm_proxies (kc_pm ctl) name = Some pw \<Longrightarrow>
    control_history creators resolve (ctl\<lparr>kc_pm := put_wrapper name (monitor_round ok pw) (kc_pm ctl)\<rparr>)"
| control_work_conn: "control_history creators resolve ctl \<Longrightarrow>
    handle_req_work_conn co ae write_ok answer (env :: unit tunnel_env) xe conn ctl = Ok (ctl', r) \<Longrightarrow>
    control_history creators resolve ctl'"
| control_tick: "control_history creators resolve ctl \<Longrightarrow>
    \<forall>cfg \<in> set cfgs. vg_cfgs (kc_vm ctl) (bv_proxy_name (visitor_base_info cfg)) = Some cfg \<Longrightarrow>
    control_history creators resolve (ctl\<lparr>kc_vm := visitors_tick li cfgs (kc_vm ctl)\<rparr>)"
| control_reader_end: "control_history creators resolve ctl \<Longrightarrow> kc_reader ctl \<Longrightarrow>
    control_history creators resolve (reader_end eof ctl)"
| control_worker_end: "control_history creators resolve ctl \<Longrightarrow> \<not> kc_reader ctl \<Longrightarrow> \<not> kc_handler ctl \<Longrightarrow>
    range_of (cm_proxies (kc_pm ctl)) order \<Longrightarrow> worker_end order vorder ctl = Ok ctl' \<Longrightarrow>
    control_history creators resolve ctl'"
| control_close: "control_history creators resolve ctl \<Longrightarrow> range_of (cm_proxies (kc_pm ctl)) order \<Longrightarrow>
    client_control_close order vorder ctl = Ok ctl' \<Longrightarrow> control_history creators resolve ctl'"
| control_reload: "control_history creators resolve ctl \<Longrightarrow> orders_ok ro pxyCfgs visitorCfgs ctl \<Longrightarrow>
    client_control_reload li ro pxyCfgs visitorCfgs ctl = Ok ctl' \<Longrightarrow> control_history creators resolve ctl'"

lemma control_run_ok:
  fixes ctl0 ctl :: "('g, 'a, 'c) client_control"
  assumes new: "new_client_control li vorder runID session clientCfg pxyCfgs visitorCfgs port setter = Ok ctl0"
    and run: "client_control_run order now ctl0 = Ok ctl" and o: "range_of visitorCfgs vorder" "range_of pxyCfgs order"
    and names: "names_match pxyCfgs" "visitor_names_match visitorCfgs"
  shows "control_ok ctl"
proof -
  have "range_of (vg_cfgs (new_cli_visitors :: 'a cli_visitors)) []" by (simp add: new_cli_visitors_def)
  from visitors_reload_law [OF visitors_ok_new names(2) this o(1), of li] obtain vm :: "'a cli_visitors" where
    vm: "visitors_reload li [] vorder visitorCfgs new_cli_visitors = Ok vm" "visitors_ok vm" by blast
  from new vm have ctl0: "kc_vm ctl0 = vm" "kc_pm ctl0 = new_cli_manager clientCfg port" "kc_pxy_cfgs ctl0 = pxyCfgs"
    by (auto simp: new_client_control_def)
  have ok: "manager_ok (kc_pm ctl0)" by (simp add: ctl0 manager_ok_def new_cli_manager_def)
  have none: "range_of (cm_proxies (kc_pm ctl0)) []" by (simp add: ctl0 new_cli_manager_def)
  from cli_manager_reload_law [OF ok names(1) none o(2)] obtain pm where
    pm: "cli_manager_reload [] order pxyCfgs (kc_pm ctl0) = Ok pm" "manager_ok pm" by blast
  from cli_manager_reload_send_closed [OF ok pm(1)] have "\<not> cm_send_closed pm" by (simp add: ctl0 new_cli_manager_def)
  with run pm vm(2) show ?thesis by (auto simp: client_control_run_def ctl0 control_ok_def)
qed

lemma control_history_ok: "control_history creators resolve ctl \<Longrightarrow> control_ok ctl"
proof (induction rule: control_history.induct)
  case (control_run li vorder runID session clientCfg pxyCfgs visitorCfgs port setter ctl0 order now ctl)
  then show ?case by (intro control_run_ok)
next
  case (control_turn ctl ae now e ctl')
  from handler_turn_ok [OF control_turn.IH control_turn.hyps(2), of creators resolve ae now e] control_turn.hyps(3)
  show ?case by simp
next
  case (control_round ctl name pw now pw' ps)
  from control_round.IH have ok: "manager_ok (kc_pm ctl)" by (simp add: control_ok_def)
  note law = check_worker_round_law [OF manager_okD(1) [OF ok control_round.hyps(2)] control_round.hyps(3)]
  have "manager_ok (handle_events ps (put_wrapper name pw' (kc_pm ctl)))"
    by (rule manager_ok_put [OF ok control_round.hyps(2) law(1) law(2) law(3)])
  with control_round.IH show ?case by (simp add: control_ok_def put_wrapper_def)
next
  case (control_monitor ctl name pw ok)
  from control_monitor.IH have mok: "manager_ok (kc_pm ctl)" by (simp add: control_ok_def)
  note law = monitor_round_law(1) [OF manager_okD(1) [OF mok control_monitor.hyps(2)], of ok]
  have "manager_ok (put_wrapper name (monitor_round ok pw) (kc_pm ctl))"
    by (rule manager_ok_put_quiet [OF mok control_monitor.hyps(2) law monitor_round_law(2)])
  with control_monitor.IH show ?case by (simp add: control_ok_def put_wrapper_def)
next
  case (control_work_conn ctl co ae write_ok answer env xe conn ctl' r)
  from control_work_conn.IH have ok: "manager_ok (kc_pm ctl)" by (simp add: control_ok_def)
  have "control_ok ctl'" if "cli_handle_work_conn env xe name conn m (kc_pm ctl) = Ok (pm, h)" "ctl' = ctl\<lparr>kc_pm := pm\<rparr>" for name m pm h
    using cli_handle_work_conn_ok [OF ok that(1)] that(2) control_work_conn.IH by (simp add: control_ok_def)
  with handle_req_work_conn_cases [OF control_work_conn.hyps(2)] control_work_conn.IH show ?case by blast
next
  case (control_tick ctl cfgs li)
  with visitors_tick_law [of "kc_vm ctl" cfgs li] show ?case by (simp add: control_ok_def)
next
  case (control_reader_end ctl eof)
  then show ?case by (simp add: control_ok_def reader_end_def)
next
  case (control_worker_end ctl order vorder ctl')
  from worker_end_ok [OF control_worker_end.IH control_worker_end.hyps(3,4), of vorder] control_worker_end.hyps(5)
  show ?case by simp
next
  case (control_close ctl order vorder ctl')
  from client_control_close_ok [OF control_close.IH control_close.hyps(2), of vorder] control_close.hyps(3) show ?case by simp
next
  case (control_reload ctl ro pxyCfgs visitorCfgs li ctl')
  from client_control_reload_ok [OF control_reload.IH control_reload.hyps(2), of li] control_reload.hyps(3) show ?case by simp
qed

section \<open>Properties\<close>


text \<open>A control without proxies and visitors, just started.\<close>

definition sample_control :: "(unit, unit, unit) client_control" where
  "sample_control =
     \<lparr>kc_run_id = ''r'', kc_pxy_cfgs = Map.empty, kc_pm = new_cli_manager (get_default_client_conf []) 0,
      kc_vm = new_cli_visitors, kc_has_session = True, kc_conn_open = True, kc_session_open = True,
      kc_reader = True, kc_handler = True, kc_closed_done = False, kc_last_pong = 7,
      kc_client_cfg = get_default_client_conf [], kc_server_udp_port = 0,
      kc_auth_setter = TokenSetter (new_token_auth default_auth_base_conf default_token_conf)\<rparr>"

lemma sample_control_history: "control_history (\<lambda>_. None) (\<lambda>_. Inl []) sample_control"
proof -
  let ?ctl0 = "sample_control\<lparr>kc_reader := False, kc_handler := False, kc_last_pong := 0\<rparr>"
  have new: "new_client_control (\<lparr>li_tcp = (\<lambda>_. None), li_resolve = (\<lambda>_. None), li_udp = (\<lambda>_. None)\<rparr>) [] ''r'' True
      (get_default_client_conf []) Map.empty Map.empty 0 (TokenSetter (new_token_auth default_auth_base_conf default_token_conf)) = Ok ?ctl0"
    by (simp add: new_client_control_def sample_control_def visitors_reload_def)
  have run: "client_control_run [] 7 ?ctl0 = Ok sample_control"
    by (simp add: client_control_run_def sample_control_def cli_manager_reload_def)
  show ?thesis
    by (rule control_run [OF new run]) (simp_all add: names_match_def visitor_names_match_def)
qed


end
