(* ===== verification/Client_Service.thy ===== *)
theory Client_Service
  imports Client_Control Util
begin

text \<open>
  The client's service: \<^verbatim>\<open>frp/client/service.go\<close>. Logging in, keeping a control running and the
  pauses between the attempts. Times are nanoseconds; what the network and the server answer is an
  argument. The admin server and the assets are not modelled.
\<close>

section \<open>State\<close>

record ('g, 'a, 'c) client_service =
  ks_run_id :: string
  ks_ctl :: "('g, 'a, 'c) client_control option"
  ks_auth_setter :: auth_setter
  ks_cfg :: client_common_conf
  ks_pxy_cfgs :: "string \<rightharpoonup> proxy_conf"
  ks_visitor_cfgs :: "string \<rightharpoonup> visitor_conf"
  ks_cfg_file :: string
  ks_server_udp_port :: int
  ks_exit :: bool

definition new_client_service ::
    "client_common_conf \<Rightarrow> (string \<rightharpoonup> proxy_conf) \<Rightarrow> (string \<rightharpoonup> visitor_conf) \<Rightarrow> string \<Rightarrow>
     (unit, ('g, 'a, 'c) client_service) go" where
  "new_client_service cfg pxyCfgs visitorCfgs cfgFile =
     go_then (new_auth_setter (cc_auth cfg)) (\<lambda>setter.
       Ok \<lparr>ks_run_id = [], ks_ctl = None, ks_auth_setter = setter, ks_cfg = cfg, ks_pxy_cfgs = pxyCfgs,
           ks_visitor_cfgs = visitorCfgs, ks_cfg_file = cfgFile, ks_server_udp_port = 0, ks_exit = False\<rparr>)"

section \<open>Logging in\<close>

text \<open>
  \<open>le_dial\<close> is the error of the connection, with whether it is a \<^verbatim>\<open>net.OpError\<close> of a dial;
  \<open>le_session_ok\<close> whether the session and its stream could be made; \<open>le_resp\<close> the response read in time.
\<close>

record login_env =
  le_tls_ok :: "string \<Rightarrow> string \<Rightarrow> string \<Rightarrow> string \<Rightarrow> bool"
  le_dial :: "string \<Rightarrow> string \<Rightarrow> string \<Rightarrow> bool \<Rightarrow> bool option"
  le_session_ok :: bool
  le_auth :: auth_env
  le_write_ok :: "login_msg \<Rightarrow> bool"
  le_resp :: "login_resp_msg option"
  le_arch :: string
  le_os :: string

datatype login_error =
    LoginTLS
  | LoginConnect bool
  | LoginSession
  | LoginAuth auth_error
  | LoginWrite
  | LoginRead
  | LoginRefused string

definition login_message :: "login_env \<Rightarrow> ('g, 'a, 'c) client_service \<Rightarrow> login_msg" where
  "login_message le svr =
     \<lparr>lg_version = version_full, lg_hostname = [], lg_os = le_os le, lg_arch = le_arch le,
      lg_user = cc_user (ks_cfg svr), lg_privilege_key = [], lg_timestamp = en_now (le_auth le),
      lg_run_id = ks_run_id svr, lg_metas = cc_metas (ks_cfg svr), lg_pool_count = cc_pool_count (ks_cfg svr)\<rparr>"

text \<open>\<^verbatim>\<open>login\<close>; on an error after the connection was made, it and the session are closed.\<close>

definition login :: "login_env \<Rightarrow> ('g, 'a, 'c) client_service \<Rightarrow> login_error + ('g, 'a, 'c) client_service" where
  "login le svr =
     (let cfg = ks_cfg svr in
      if cc_tls_enable cfg \<and>
         \<not> le_tls_ok le (cc_tls_cert_file cfg) (cc_tls_key_file cfg) (cc_tls_trusted_ca_file cfg) (cc_server_addr cfg)
      then Inl LoginTLS
      else
        (case le_dial le (cc_http_proxy cfg) (cc_protocol cfg) (join_host_port (cc_server_addr cfg) (cc_server_port cfg))
                (cc_tls_enable cfg) of
           Some dial \<Rightarrow> Inl (LoginConnect dial)
         | None \<Rightarrow>
             if cc_tcp_mux cfg \<and> \<not> le_session_ok le then Inl LoginSession
             else
               (case set_login (le_auth le) (ks_auth_setter svr) (login_message le svr) of
                  (loginMsg, Some e) \<Rightarrow> Inl (LoginAuth e)
                | (loginMsg, None) \<Rightarrow>
                    if \<not> le_write_ok le loginMsg then Inl LoginWrite
                    else
                      (case le_resp le of
                         None \<Rightarrow> Inl LoginRead
                       | Some resp \<Rightarrow>
                           if lr_error resp \<noteq> [] then Inl (LoginRefused (lr_error resp))
                           else Inr (svr\<lparr>ks_run_id := lr_run_id resp, ks_server_udp_port := lr_server_udp_port resp\<rparr>)))))"

text \<open>After a login: the new control is made and started before the old one, if any, is closed.\<close>

record connected_orders =
  od_visitors :: "string list"
  od_proxies :: "string list"
  od_close_proxies :: "string list"
  od_close_visitors :: "string list"

definition connected ::
    "listen_env \<Rightarrow> connected_orders \<Rightarrow> int \<Rightarrow> ('g, 'a, 'c) client_service \<Rightarrow> (unit, ('g, 'a, 'c) client_service) go" where
  "connected li od now svr =
     go_then (new_client_control li (od_visitors od) (ks_run_id svr) (cc_tcp_mux (ks_cfg svr)) (ks_cfg svr)
                (ks_pxy_cfgs svr) (ks_visitor_cfgs svr) (ks_server_udp_port svr) (ks_auth_setter svr)) (\<lambda>ctl.
     go_then (client_control_run (od_proxies od) now ctl) (\<lambda>ctl.
     go_then (case ks_ctl svr of None \<Rightarrow> Ok ()
              | Some old \<Rightarrow> go_then (client_control_close (od_close_proxies od) (od_close_visitors od) old) (\<lambda>_. Ok ())) (\<lambda>_.
       Ok (svr\<lparr>ks_ctl := Some ctl\<rparr>))))"

text \<open>An attempt of the first loop of \<^verbatim>\<open>Run\<close>: it ends with an error, with a control, or is repeated after 10 seconds.\<close>

datatype ('g, 'a, 'c) run_result =
    RunFailed login_error
  | RunAgain int
  | RunConnected "('g, 'a, 'c) client_service"

definition run_attempt ::
    "login_env \<Rightarrow> listen_env \<Rightarrow> connected_orders \<Rightarrow> int \<Rightarrow> ('g, 'a, 'c) client_service \<Rightarrow> (unit, ('g, 'a, 'c) run_result) go" where
  "run_attempt le li od now svr =
     (case login le svr of
        Inl e \<Rightarrow> Ok (if cc_login_fail_exit (ks_cfg svr) then RunFailed e else RunAgain (10 * second))
      | Inr svr' \<Rightarrow> go_then (connected li od now (svr'\<lparr>ks_ctl := None\<rparr>)) (\<lambda>svr'. Ok (RunConnected svr')))"

section \<open>Reconnecting\<close>

text \<open>
  The variables of \<^verbatim>\<open>keepControllerWorking\<close>. \<open>reconnect_begin\<close> is the start of a turn of its outer loop,
  when the control has ended: the pause before the attempts, and the counters afterwards. \<open>login_pause\<close>
  is a failed attempt: the pause, and the next one by the kind of the error.
\<close>

record backoff =
  bk_delay_time :: int
  bk_cutoff_time :: int
  bk_reconnect_delay :: int
  bk_reconnect_counts :: int

definition minute :: int where "minute = 60 * second"

definition new_backoff :: "int \<Rightarrow> backoff" where
  "new_backoff now =
     \<lparr>bk_delay_time = second, bk_cutoff_time = now + minute, bk_reconnect_delay = second, bk_reconnect_counts = 1\<rparr>"

definition reconnect_pause :: "backoff \<Rightarrow> int" where
  "reconnect_pause bk = (if bk_reconnect_counts bk > 3 then bk_reconnect_delay bk else 0)"

definition reconnect_begin :: "int \<Rightarrow> backoff \<Rightarrow> backoff" where
  "reconnect_begin now bk =
     (let bk = (if bk_reconnect_counts bk > 3 then bk\<lparr>bk_reconnect_delay := bk_reconnect_delay bk * 2\<rparr> else bk);
          bk = bk\<lparr>bk_reconnect_counts := bk_reconnect_counts bk + 1\<rparr> in
      if now > bk_cutoff_time bk
      then bk\<lparr>bk_cutoff_time := now + minute, bk_reconnect_delay := second, bk_reconnect_counts := 1\<rparr>
      else bk)"

definition is_dial_error :: "login_error \<Rightarrow> bool" where
  "is_dial_error e = (case e of LoginConnect dial \<Rightarrow> dial | _ \<Rightarrow> False)"

definition login_pause :: "login_error \<Rightarrow> backoff \<Rightarrow> int \<times> backoff" where
  "login_pause e bk =
     (bk_delay_time bk,
      bk\<lparr>bk_delay_time :=
        (if is_dial_error e then 2 * second
         else let d = bk_delay_time bk * 2 in if d > 20 * second then 20 * second else d)\<rparr>)"

definition reconnected :: "backoff \<Rightarrow> backoff" where
  "reconnected bk = bk\<lparr>bk_delay_time := second\<rparr>"

section \<open>Reloading and closing\<close>

definition client_service_reload ::
    "listen_env \<Rightarrow> reload_orders \<Rightarrow> (string \<rightharpoonup> proxy_conf) \<Rightarrow> (string \<rightharpoonup> visitor_conf) \<Rightarrow> ('g, 'a, 'c) client_service \<Rightarrow>
     (unit, ('g, 'a, 'c) client_service) go" where
  "client_service_reload li ro pxyCfgs visitorCfgs svr =
     (case ks_ctl svr of
        None \<Rightarrow> Panic
      | Some ctl \<Rightarrow>
          go_then (client_control_reload li ro pxyCfgs visitorCfgs ctl) (\<lambda>ctl.
            Ok (svr\<lparr>ks_pxy_cfgs := pxyCfgs, ks_visitor_cfgs := visitorCfgs, ks_ctl := Some ctl\<rparr>)))"

definition client_service_close ::
    "string list \<Rightarrow> string list \<Rightarrow> ('g, 'a, 'c) client_service \<Rightarrow> (unit, ('g, 'a, 'c) client_service) go" where
  "client_service_close pxys visitors svr =
     (case ks_ctl svr of
        None \<Rightarrow> Ok (svr\<lparr>ks_exit := True\<rparr>)
      | Some ctl \<Rightarrow>
          go_then (client_control_close pxys visitors ctl) (\<lambda>ctl. Ok (svr\<lparr>ks_exit := True, ks_ctl := Some ctl\<rparr>)))"

section \<open>The pauses\<close>

text \<open>
  What \<^verbatim>\<open>keepControllerWorking\<close> waits: \<open>BackoffRun now bk\<close> are its turns with the time of the last
  one; a turn starts when a control ends, after the last, and its attempts start after the pause.
\<close>

inductive backoff_run :: "int \<Rightarrow> backoff \<Rightarrow> bool" where
  backoff_new: "backoff_run now (new_backoff now)"
| backoff_turn: "backoff_run before bk \<Longrightarrow> before + reconnect_pause bk \<le> now \<Longrightarrow> backoff_run now (reconnect_begin now bk)"
| backoff_failed: "backoff_run before bk \<Longrightarrow> before + bk_delay_time bk \<le> now \<Longrightarrow> backoff_run now (snd (login_pause e bk))"
| backoff_reconnected: "backoff_run before bk \<Longrightarrow> before \<le> now \<Longrightarrow> backoff_run now (reconnected bk)"

text \<open>The reconnect delay is a power of two seconds, and all but its last second has passed since the last reset.\<close>

definition backoff_ok :: "int \<Rightarrow> backoff \<Rightarrow> bool" where
  "backoff_ok now bk \<longleftrightarrow>
     (\<exists>k. bk_reconnect_delay bk = 2 ^ k * second) \<and>
     bk_reconnect_delay bk - second \<le> now - (bk_cutoff_time bk - minute) \<and>
     bk_reconnect_delay bk \<le> 61 * second \<and> second \<le> bk_delay_time bk \<and> bk_delay_time bk \<le> 20 * second"

lemma backoff_ok_later: "backoff_ok before bk \<Longrightarrow> before \<le> now \<Longrightarrow> backoff_ok now bk"
  unfolding backoff_ok_def by auto

lemma power_of_two_seconds: "2 ^ k * second \<le> 61 * second \<Longrightarrow> 2 ^ k * second \<le> 32 * second"
proof -
  assume "2 ^ k * second \<le> 61 * second"
  then have "(2 :: int) ^ k < 2 ^ 6" by (simp add: second_def)
  then have "k < 6" by (rule power_less_imp_less_exp [rotated]) simp
  then have "k \<le> 5" by simp
  then have "(2 :: int) ^ k \<le> 2 ^ 5" by (intro power_increasing) simp_all
  then show ?thesis by (simp add: second_def)
qed

lemma backoff_okI:
  assumes "bk_reconnect_delay bk = 2 ^ k * second"
    and "bk_reconnect_delay bk - second \<le> now - (bk_cutoff_time bk - minute)"
    and "bk_reconnect_delay bk \<le> 61 * second" and "second \<le> bk_delay_time bk" and "bk_delay_time bk \<le> 20 * second"
  shows "backoff_ok now bk"
  using assms unfolding backoff_ok_def by blast

lemma reconnect_begin_fields:
  "bk_delay_time (reconnect_begin now bk) = bk_delay_time bk"
  "bk_cutoff_time (reconnect_begin now bk) = (if now > bk_cutoff_time bk then now + minute else bk_cutoff_time bk)"
  "bk_reconnect_delay (reconnect_begin now bk) =
     (if now > bk_cutoff_time bk then second
      else if bk_reconnect_counts bk > 3 then bk_reconnect_delay bk * 2 else bk_reconnect_delay bk)"
  by (simp_all add: reconnect_begin_def Let_def)

lemma reconnect_begin_ok:
  assumes "backoff_ok before bk" and "before + reconnect_pause bk \<le> now"
  shows "backoff_ok now (reconnect_begin now bk)"
proof -
  from assms(1) obtain k where k: "bk_reconnect_delay bk = 2 ^ k * second"
    and d: "bk_reconnect_delay bk - second \<le> before - (bk_cutoff_time bk - minute)" "bk_reconnect_delay bk \<le> 61 * second"
      "second \<le> bk_delay_time bk" "bk_delay_time bk \<le> 20 * second"
    unfolding backoff_ok_def by blast
  note f = reconnect_begin_fields [of now bk]
  have sec: "0 < second" and min: "minute = 60 * second" by (simp_all add: second_def minute_def)
  consider (reset) "now > bk_cutoff_time bk" | (slow) "\<not> now > bk_cutoff_time bk" "bk_reconnect_counts bk > 3"
    | (fast) "\<not> now > bk_cutoff_time bk" "\<not> bk_reconnect_counts bk > 3" by blast
  then show ?thesis
  proof cases
    case reset
    then have "bk_reconnect_delay (reconnect_begin now bk) = 2 ^ 0 * second" by (simp add: f)
    then show ?thesis by (rule backoff_okI) (use reset d(3,4) sec in \<open>simp_all add: f\<close>)
  next
    case slow
    then have r: "bk_reconnect_delay (reconnect_begin now bk) = bk_reconnect_delay bk * 2"
      "bk_cutoff_time (reconnect_begin now bk) = bk_cutoff_time bk" by (simp_all add: f)
    have p: "bk_reconnect_delay (reconnect_begin now bk) = 2 ^ Suc k * second" by (simp add: r k)
    have "before + bk_reconnect_delay bk \<le> now" using slow assms(2) by (simp add: reconnect_pause_def)
    with slow(1) d min have "bk_reconnect_delay bk * 2 - second \<le> now - (bk_cutoff_time bk - minute)"
      "bk_reconnect_delay bk * 2 \<le> 61 * second" by linarith+
    with d(3,4) show ?thesis by (intro backoff_okI [OF p]) (simp_all only: r f(1))
  next
    case fast
    then have r: "bk_reconnect_delay (reconnect_begin now bk) = bk_reconnect_delay bk"
      "bk_cutoff_time (reconnect_begin now bk) = bk_cutoff_time bk" by (simp_all add: f)
    have p: "bk_reconnect_delay (reconnect_begin now bk) = 2 ^ k * second" by (simp add: r k)
    have "before \<le> now" using fast assms(2) by (simp add: reconnect_pause_def)
    with d(1) have "bk_reconnect_delay bk - second \<le> now - (bk_cutoff_time bk - minute)" by linarith
    with d show ?thesis by (intro backoff_okI [OF p]) (simp_all only: r f(1))
  qed
qed

lemma backoff_run_ok: "backoff_run now bk \<Longrightarrow> backoff_ok now bk"
proof (induction rule: backoff_run.induct)
  case (backoff_new now)
  have "second = 2 ^ 0 * second" by simp
  then show ?case unfolding backoff_ok_def new_backoff_def minute_def
    by (intro conjI exI [of _ 0]) (simp_all add: second_def)
next
  case (backoff_turn before bk now)
  then show ?case by (intro reconnect_begin_ok)
next
  case (backoff_failed before bk now e)
  from backoff_failed.IH have "second \<le> bk_delay_time bk" by (simp add: backoff_ok_def)
  with backoff_failed.hyps(2) have "before \<le> now" by (simp add: second_def)
  with backoff_failed.IH have "backoff_ok now bk" by (rule backoff_ok_later)
  then show ?case unfolding backoff_ok_def by (simp add: login_pause_def second_def Let_def)
next
  case (backoff_reconnected before bk now)
  from backoff_ok_later [OF backoff_reconnected.IH backoff_reconnected.hyps(2)] show ?case
    unfolding backoff_ok_def by (simp add: reconnected_def second_def)
qed

section \<open>Properties\<close>

text \<open>However the controls end and the logins fail, the client never waits longer than 32 seconds
  before it tries to reconnect, nor longer than 20 seconds between two attempts to log in: the doubling
  of the delay is reset in time, and no duration overflows.\<close>

theorem reconnect_pauses_bounded:
  assumes "backoff_run now bk"
  shows "0 \<le> reconnect_pause bk \<and> reconnect_pause bk \<le> 32 * second \<and>
         0 < fst (login_pause e bk) \<and> fst (login_pause e bk) \<le> 20 * second"
proof -
  from backoff_run_ok [OF assms] obtain k where k: "bk_reconnect_delay bk = 2 ^ k * second"
    and d: "bk_reconnect_delay bk \<le> 61 * second" "second \<le> bk_delay_time bk" "bk_delay_time bk \<le> 20 * second"
    unfolding backoff_ok_def by blast
  have "bk_reconnect_delay bk \<le> 32 * second" using power_of_two_seconds [of k] k d(1) by simp
  moreover have "0 \<le> bk_reconnect_delay bk" using k by (simp add: second_def)
  moreover have "0 < bk_delay_time bk" using d(2) by (simp add: second_def)
  ultimately show ?thesis using d(3) by (simp add: reconnect_pause_def login_pause_def second_def)
qed

lemma reconnect_pauses_bounded_witness:
  "\<exists>bk. backoff_run 0 bk \<and> bk = new_backoff 0 \<and> reconnect_pause bk = 0 \<and> fst (login_pause LoginRead bk) \<le> 20 * second"
  using reconnect_pauses_bounded [OF backoff_new [of 0], of LoginRead] backoff_new [of 0]
  by (auto simp: reconnect_pause_def new_backoff_def)

end
