(* ===== verification/Basic_Auth.thy ===== *)
theory Basic_Auth
  imports Prelude
begin

text \<open>
  The basic authentication of the HTTP servers, \<^verbatim>\<open>frp/pkg/util/net/http.go\<close>, and the choice of its
  gzip handler. What \<^verbatim>\<open>Request.BasicAuth\<close> gives is an argument.
\<close>

section \<open>Basic authentication\<close>

text \<open>The handler wrapped by \<^verbatim>\<open>HTTPAuthWraper\<close>, \<^verbatim>\<open>HTTPAuthMiddleware\<close> or \<^verbatim>\<open>HTTPBasicAuth\<close> serves a request, or not.\<close>

definition http_auth_wraper_serves :: "string \<Rightarrow> string \<Rightarrow> (string \<times> string) option \<Rightarrow> bool" where
  "http_auth_wraper_serves aw_user aw_passwd basicAuth =
     ((aw_user = [] \<and> aw_passwd = []) \<or>
      (case basicAuth of None \<Rightarrow> False | Some (user, passwd) \<Rightarrow> user = aw_user \<and> passwd = aw_passwd))"

definition http_auth_middleware_serves :: "string \<Rightarrow> string \<Rightarrow> (string \<times> string) option \<Rightarrow> bool" where
  "http_auth_middleware_serves mid_user mid_passwd basicAuth =
     ((mid_user = [] \<and> mid_passwd = []) \<or>
      (case basicAuth of None \<Rightarrow> False | Some (reqUser, reqPasswd) \<Rightarrow> reqUser = mid_user \<and> reqPasswd = mid_passwd))"

definition http_basic_auth_serves :: "string \<Rightarrow> string \<Rightarrow> (string \<times> string) option \<Rightarrow> bool" where
  "http_basic_auth_serves user passwd basicAuth =
     ((user = [] \<and> passwd = []) \<or>
      (case basicAuth of None \<Rightarrow> False | Some (reqUser, reqPasswd) \<Rightarrow> reqUser = user \<and> reqPasswd = passwd))"

lemma basic_auth_agree:
  "http_auth_wraper_serves = http_auth_middleware_serves" "http_basic_auth_serves = http_auth_middleware_serves"
  by (intro ext, simp add: http_auth_wraper_serves_def http_auth_middleware_serves_def http_basic_auth_serves_def)+

text \<open>\<^verbatim>\<open>HTTPGzipWraper\<close>: whether the answer is compressed.\<close>

definition http_gzip_wraper_compresses :: "string \<Rightarrow> bool" where
  "http_gzip_wraper_compresses acceptEncoding = sublist ''gzip'' acceptEncoding"

text \<open>Without credentials of its own a server lets everyone in; with them only who knows both.\<close>

lemma middleware_serves_iff:
  "http_auth_middleware_serves user passwd basicAuth \<longleftrightarrow>
     user = [] \<and> passwd = [] \<or> basicAuth = Some (user, passwd)"
  by (auto simp: http_auth_middleware_serves_def split: option.split)

end
