(* ===== verification/Client_Admin.thy ===== *)
theory Client_Admin
  imports Client_Service Basic_Auth
begin

text \<open>
  The client's admin server: \<^verbatim>\<open>frp/client/admin_api.go\<close>, \<^verbatim>\<open>frp/client/admin.go\<close>
  and reading a rendered file of \<^verbatim>\<open>frp/pkg/config/value.go\<close>. The file system and \<^verbatim>\<open>text/template\<close> are arguments, and so is the
  text of an error; the body of \<^verbatim>\<open>/api/status\<close> is the value that is encoded as JSON.
\<close>

section \<open>Files\<close>

record admin_env =
  ad_read :: "string \<Rightarrow> string + string"
  ad_render :: "string \<Rightarrow> string + string"
  ad_write :: "string \<Rightarrow> string \<Rightarrow> string option"

definition get_rendered_conf_from_file :: "admin_env \<Rightarrow> string \<Rightarrow> string + string" where
  "get_rendered_conf_from_file env path =
     (case ad_read env path of Inl e \<Rightarrow> Inl e | Inr b \<Rightarrow> ad_render env b)"

text \<open>
  The environment that templates see. An entry with more than one equals sign is left out: a variable
  whose value has one is missing.
\<close>

definition glb_envs :: "string list \<Rightarrow> string \<rightharpoonup> string" where
  "glb_envs envs = fold (\<lambda>env m. case split_on CHR ''='' env of [k, v] \<Rightarrow> m(k \<mapsto> v) | _ \<Rightarrow> m) envs Map.empty"

lemma env_value_with_equals_missing:
  assumes "CHR ''='' \<in> set v"
  shows "glb_envs [k @ CHR ''='' # v] = Map.empty"
proof -
  from assms have "length (split_on CHR ''='' (k @ CHR ''='' # v)) \<noteq> 2"
    by (auto simp: length_split_on count_list_0_iff)
  then show ?thesis by (auto simp: glb_envs_def split: list.split)
qed

record general_response =
  gr_code :: int
  gr_msg :: string

abbreviation newline :: char where "newline \<equiv> CHR 0x0A"

section \<open>\<^verbatim>\<open>/api/reload\<close>\<close>

text \<open>
  The response and the service after the request. \<open>None\<close>: the handler does not return, because the
  expansion of a range does not.
\<close>

definition api_reload ::
    "admin_env \<Rightarrow> (conf_error \<Rightarrow> string) \<Rightarrow> (string, 'f, 's) ini_file_api \<Rightarrow> ('s, 'h) loader_api \<Rightarrow>
     ('s \<Rightarrow> client_common_conf \<Rightarrow> string + client_common_conf) \<Rightarrow> string \<Rightarrow> listen_env \<Rightarrow> reload_orders \<Rightarrow>
     ('g, 'a, 'c) client_service \<Rightarrow> (unit, general_response \<times> ('g, 'a, 'c) client_service) go option" where
  "api_reload env err_text fi la mapto http_proxy li ro svr =
     (case get_rendered_conf_from_file env (ks_cfg_file svr) of
        Inl e \<Rightarrow> Some (Ok (\<lparr>gr_code = 400, gr_msg = e\<rparr>, svr))
      | Inr content \<Rightarrow>
     (case unmarshal_client_conf_from_ini fi (la_ini la) mapto http_proxy content of
        Inl e \<Rightarrow> Some (Ok (\<lparr>gr_code = 400, gr_msg = err_text e\<rparr>, svr))
      | Inr newCommonCfg \<Rightarrow>
     (case load_all_proxy_confs_from_ini fi la (cc_user (ks_cfg svr)) content
             (case cc_start newCommonCfg of None \<Rightarrow> [] | Some start \<Rightarrow> start) of
        None \<Rightarrow> None
      | Some (Inl e) \<Rightarrow> Some (Ok (\<lparr>gr_code = 400, gr_msg = err_text e\<rparr>, svr))
      | Some (Inr (pxyCfgs, visitorCfgs)) \<Rightarrow>
          Some (go_then (client_service_reload li ro pxyCfgs visitorCfgs svr) (\<lambda>svr.
            Ok (\<lparr>gr_code = 200, gr_msg = []\<rparr>, svr))))))"

text \<open>A refused reload leaves the service as it was.\<close>

lemma api_reload_refused:
  "api_reload env err_text fi la mapto hp li ro svr = Some (Ok (r, svr')) \<Longrightarrow> gr_code r \<noteq> 200 \<Longrightarrow> svr' = svr"
  by (auto simp: api_reload_def go_then_eq_Ok split: sum.split_asm option.split_asm prod.split_asm)

section \<open>\<^verbatim>\<open>/api/status\<close>\<close>

record proxy_status_resp =
  psr_name :: string
  psr_type :: string
  psr_status :: string
  psr_err :: string
  psr_local_addr :: string
  psr_plugin :: string
  psr_remote_addr :: string

definition status_local_addr :: "local_svr_conf \<Rightarrow> string" where
  "status_local_addr ls =
     (if ls_local_port ls \<noteq> 0 then ls_local_ip ls @ '':'' @ int_str (ls_local_port ls) else [])"

definition status_remote_addr :: "working_status \<Rightarrow> string \<Rightarrow> int \<Rightarrow> string" where
  "status_remote_addr status serverAddr remotePort =
     (if ws_err status \<noteq> [] then serverAddr @ '':'' @ int_str remotePort
      else serverAddr @ ws_remote_addr status)"

definition new_proxy_status_resp :: "working_status \<Rightarrow> string \<Rightarrow> proxy_status_resp" where
  "new_proxy_status_resp status serverAddr =
     (let ls = bp_local_svr (get_base_info (ws_cfg status));
          psr = \<lparr>psr_name = ws_name status, psr_type = ws_type status, psr_status = phase_str (ws_phase status),
                 psr_err = ws_err status, psr_local_addr = [], psr_plugin = [], psr_remote_addr = []\<rparr>
      in case ws_cfg status of
        TCPConf cfg \<Rightarrow> psr\<lparr>psr_local_addr := status_local_addr ls, psr_plugin := ls_plugin ls,
            psr_remote_addr := status_remote_addr status serverAddr (tc_remote_port cfg)\<rparr>
      | UDPConf cfg \<Rightarrow> psr\<lparr>psr_local_addr := status_local_addr ls,
            psr_remote_addr := status_remote_addr status serverAddr (ud_remote_port cfg)\<rparr>
      | HTTPConf cfg \<Rightarrow> psr\<lparr>psr_local_addr := status_local_addr ls, psr_plugin := ls_plugin ls,
            psr_remote_addr := ws_remote_addr status\<rparr>
      | HTTPSConf cfg \<Rightarrow> psr\<lparr>psr_local_addr := status_local_addr ls, psr_plugin := ls_plugin ls,
            psr_remote_addr := ws_remote_addr status\<rparr>
      | STCPConf cfg \<Rightarrow> psr\<lparr>psr_local_addr := status_local_addr ls, psr_plugin := ls_plugin ls\<rparr>
      | XTCPConf cfg \<Rightarrow> psr\<lparr>psr_local_addr := status_local_addr ls, psr_plugin := ls_plugin ls\<rparr>
      | SUDPConf cfg \<Rightarrow> psr\<lparr>psr_local_addr := status_local_addr ls, psr_plugin := ls_plugin ls\<rparr>
      | TCPMuxConf cfg \<Rightarrow> psr)"

record status_resp =
  st_tcp :: "proxy_status_resp list"
  st_udp :: "proxy_status_resp list"
  st_http :: "proxy_status_resp list"
  st_https :: "proxy_status_resp list"
  st_stcp :: "proxy_status_resp list"
  st_xtcp :: "proxy_status_resp list"
  st_sudp :: "proxy_status_resp list"

definition add_status :: "string \<Rightarrow> working_status \<Rightarrow> status_resp \<Rightarrow> status_resp" where
  "add_status serverAddr status res =
     (let psr = new_proxy_status_resp status serverAddr; t = ws_type status in
      if t = ''tcp'' then res\<lparr>st_tcp := st_tcp res @ [psr]\<rparr>
      else if t = ''udp'' then res\<lparr>st_udp := st_udp res @ [psr]\<rparr>
      else if t = ''http'' then res\<lparr>st_http := st_http res @ [psr]\<rparr>
      else if t = ''https'' then res\<lparr>st_https := st_https res @ [psr]\<rparr>
      else if t = ''stcp'' then res\<lparr>st_stcp := st_stcp res @ [psr]\<rparr>
      else if t = ''xtcp'' then res\<lparr>st_xtcp := st_xtcp res @ [psr]\<rparr>
      else if t = ''sudp'' then res\<lparr>st_sudp := st_sudp res @ [psr]\<rparr>
      else res)"

text \<open>
  \<^verbatim>\<open>apiStatus\<close>; \<open>order\<close> is the order of the range over the proxies. \<^verbatim>\<open>sort.Sort\<close> need not be
  stable, but the names of a client's proxies are distinct. \<^verbatim>\<open>strings.Compare\<close> is the order of
  \<^verbatim>\<open>List_Lexorder\<close>.
\<close>

definition api_status :: "string list \<Rightarrow> ('g, 'a, 'c) client_service \<Rightarrow> (unit, status_resp) go" where
  "api_status order svr =
     (case ks_ctl svr of
        None \<Rightarrow> Panic
      | Some ctl \<Rightarrow>
          let res = fold (add_status (cc_server_addr (ks_cfg svr))) (get_all_proxy_status order (kc_pm ctl))
                      \<lparr>st_tcp = [], st_udp = [], st_http = [], st_https = [], st_stcp = [], st_xtcp = [], st_sudp = []\<rparr>
          in Ok \<lparr>st_tcp = sort_key psr_name (st_tcp res), st_udp = sort_key psr_name (st_udp res),
                 st_http = sort_key psr_name (st_http res), st_https = sort_key psr_name (st_https res),
                 st_stcp = sort_key psr_name (st_stcp res), st_xtcp = sort_key psr_name (st_xtcp res),
                 st_sudp = sort_key psr_name (st_sudp res)\<rparr>)"

section \<open>\<^verbatim>\<open>/api/config\<close>\<close>

definition trimmed_rows :: "string \<Rightarrow> string list" where
  "trimmed_rows content = map trim_space (split_on newline content)"

definition is_token_row :: "string \<Rightarrow> bool" where "is_token_row row = prefix ''token'' row"

definition visible_rows :: "string \<Rightarrow> string list" where
  "visible_rows content = filter (\<lambda>row. \<not> is_token_row row) (trimmed_rows content)"

definition api_get_config :: "admin_env \<Rightarrow> ('g, 'a, 'c) client_service \<Rightarrow> general_response" where
  "api_get_config env svr =
     (if ks_cfg_file svr = [] then \<lparr>gr_code = 400, gr_msg = ''frpc has no config file path''\<rparr>
      else
        (case get_rendered_conf_from_file env (ks_cfg_file svr) of
           Inl e \<Rightarrow> \<lparr>gr_code = 400, gr_msg = e\<rparr>
         | Inr content \<Rightarrow> \<lparr>gr_code = 200, gr_msg = join [newline] (visible_rows content)\<rparr>))"

definition token_row :: "string \<Rightarrow> string" where
  "token_row content = (case find is_token_row (trimmed_rows content) of None \<Rightarrow> [] | Some row \<Rightarrow> row)"

definition with_token :: "string \<Rightarrow> string list \<Rightarrow> string list" where
  "with_token token tmpRows =
     (if token \<noteq> []
      then concat (map (\<lambda>row. if prefix ''[common]'' row then [row, token] else [row]) tmpRows)
      else tmpRows)"

text \<open>The response, with the content that is written to the configuration file, if any; \<open>body\<close> is what reading the request's body gives.\<close>

definition api_put_config ::
    "admin_env \<Rightarrow> string + string \<Rightarrow> ('g, 'a, 'c) client_service \<Rightarrow> general_response \<times> string option" where
  "api_put_config env body svr =
     (case body of
        Inl e \<Rightarrow> (\<lparr>gr_code = 400, gr_msg = ''read request body error: '' @ e\<rparr>, None)
      | Inr body \<Rightarrow>
          if body = [] then (\<lparr>gr_code = 400, gr_msg = ''body can't be empty''\<rparr>, None)
          else
            (case ad_read env (ks_cfg_file svr) of
               Inl e \<Rightarrow> (\<lparr>gr_code = 400, gr_msg = e\<rparr>, None)
             | Inr b \<Rightarrow>
                 let content = join [newline] (with_token (token_row b) (visible_rows body)) in
                 (case ad_write env (ks_cfg_file svr) content of
                    Some e \<Rightarrow> (\<lparr>gr_code = 500, gr_msg = ''write content to frpc config file error: '' @ e\<rparr>, None)
                  | None \<Rightarrow> (\<lparr>gr_code = 200, gr_msg = []\<rparr>, Some content))))"

section \<open>What the pages show\<close>

lemma trimmed_rows_ne [simp]: "trimmed_rows content \<noteq> []"
  by (simp add: trimmed_rows_def)

lemma trimmed_rows_props: "row \<in> set (trimmed_rows content) \<Longrightarrow> newline \<notin> set row \<and> trim_space row = row"
  using trim_space_subset by (fastforce simp: trimmed_rows_def dest: split_on_pieces)

lemma trimmed_rows_join:
  assumes "rows \<noteq> []" and "\<And>row. row \<in> set rows \<Longrightarrow> newline \<notin> set row \<and> trim_space row = row"
  shows "trimmed_rows (join [newline] rows) = rows"
proof -
  have "split_on newline (join [newline] rows) = rows" by (rule split_on_join) (use assms in auto)
  with assms(2) show ?thesis by (simp add: trimmed_rows_def map_idI)
qed

lemma find_SomeD: "find P xs = Some x \<Longrightarrow> x \<in> set xs \<and> P x"
  by (induction xs) (auto split: if_split_asm)

lemma token_row_props:
  assumes "token_row content \<noteq> []"
  shows "is_token_row (token_row content) \<and> newline \<notin> set (token_row content) \<and>
         trim_space (token_row content) = token_row content"
proof -
  from assms obtain row where f: "find is_token_row (trimmed_rows content) = Some row" and t: "token_row content = row"
    by (auto simp: token_row_def split: option.split_asm)
  from find_SomeD [OF f] trimmed_rows_props [of row content] show ?thesis by (simp add: t)
qed

lemma visible_rows_props:
  "row \<in> set (visible_rows content) \<Longrightarrow> \<not> is_token_row row \<and> newline \<notin> set row \<and> trim_space row = row"
  using trimmed_rows_props by (auto simp: visible_rows_def)

lemma with_token_set: "row \<in> set (with_token token rows) \<Longrightarrow> row \<in> set rows \<or> row = token \<and> token \<noteq> []"
  by (auto simp: with_token_def split: if_split_asm)

lemma with_token_Nil [simp]: "with_token token rows = [] \<longleftrightarrow> rows = []"
  by (cases rows) (auto simp: with_token_def)

lemma with_token_filter:
  assumes "token = [] \<or> is_token_row token" and "\<And>row. row \<in> set rows \<Longrightarrow> \<not> is_token_row row"
  shows "filter (\<lambda>row. \<not> is_token_row row) (with_token token rows) = rows"
  using assms(2)
proof (induction rows)
  case (Cons row rows)
  with assms(1) show ?case by (auto simp: with_token_def split: if_split_asm)
qed (simp add: with_token_def)

lemma with_token_find:
  assumes "token \<noteq> []" and "is_token_row token" and "\<And>row. row \<in> set rows \<Longrightarrow> \<not> is_token_row row"
  shows "find is_token_row (with_token token rows) = (if \<exists>row \<in> set rows. prefix ''[common]'' row then Some token else None)"
  using assms(3)
proof (induction rows)
  case (Cons row rows)
  with assms(1,2) show ?case by (auto simp: with_token_def)
qed (simp add: with_token_def)

lemma with_token_trimmed:
  "rows = visible_rows body \<Longrightarrow> rows \<noteq> [] \<Longrightarrow>
   trimmed_rows (join [newline] (with_token (token_row b) rows)) = with_token (token_row b) rows"
  by (rule trimmed_rows_join) (use token_row_props visible_rows_props with_token_set in fastforce)+

text \<open>The new file shows what the body showed, and has the old file's token if the body has a common section.\<close>

lemma put_content_shows:
  assumes "c = join [newline] (with_token (token_row b) (visible_rows body))"
  shows "join [newline] (visible_rows c) = join [newline] (visible_rows body)"
    and "token_row c = (if \<exists>row \<in> set (visible_rows body). prefix ''[common]'' row then token_row b else [])"
proof -
  let ?rows = "visible_rows body"
  note plain = visible_rows_props [of _ body]
  have tok: "token_row b = [] \<or> is_token_row (token_row b)" using token_row_props by blast
  have "trimmed_rows [] = [[]]" by (simp add: trimmed_rows_def)
  then have empty: "?rows = [] \<Longrightarrow> visible_rows c = [[]] \<and> token_row c = []"
    by (simp add: assms with_token_def visible_rows_def token_row_def is_token_row_def)
  show "join [newline] (visible_rows c) = join [newline] ?rows"
  proof (cases "?rows = []")
    case False
    with with_token_filter [OF tok, of ?rows] plain show ?thesis
      by (simp add: assms visible_rows_def [of "join _ _"] with_token_trimmed)
  qed (simp add: empty)
  show "token_row c = (if \<exists>row \<in> set ?rows. prefix ''[common]'' row then token_row b else [])"
  proof (cases "?rows = []")
    case False
    then have rows: "trimmed_rows c = with_token (token_row b) ?rows" by (simp add: assms with_token_trimmed)
    show ?thesis
    proof (cases "token_row b = []")
      case True
      with plain have "find is_token_row (with_token (token_row b) ?rows) = None"
        by (simp add: with_token_def find_None_iff)
      with True show ?thesis by (simp add: token_row_def [of c] rows)
    next
      case False
      with with_token_find [OF False, of ?rows] tok plain show ?thesis by (simp add: token_row_def [of c] rows)
    qed
  qed (simp add: empty)
qed



text \<open>The token of the old file is lost when the new configuration has no common section of its own.\<close>

lemma put_without_common_loses_token:
  "api_put_config env (Inr body) svr = (r, Some c) \<Longrightarrow> ad_read env (ks_cfg_file svr) = Inr b \<Longrightarrow>
   \<forall>row \<in> set (visible_rows body). \<not> prefix ''[common]'' row \<Longrightarrow> token_row c = []"
  using put_content_shows(2)
  by (fastforce simp: api_put_config_def Let_def split: if_split_asm option.split_asm)

definition status_list :: "string \<Rightarrow> string \<Rightarrow> working_status list \<Rightarrow> proxy_status_resp list" where
  "status_list serverAddr t ps =
     sort_key psr_name (map (\<lambda>s. new_proxy_status_resp s serverAddr) (filter (\<lambda>s. ws_type s = t) ps))"

lemma fold_add_status:
  "fold (add_status a) ps res =
     (let l = (\<lambda>t. map (\<lambda>s. new_proxy_status_resp s a) (filter (\<lambda>s. ws_type s = t) ps)) in
      \<lparr>st_tcp = st_tcp res @ l ''tcp'', st_udp = st_udp res @ l ''udp'', st_http = st_http res @ l ''http'',
       st_https = st_https res @ l ''https'', st_stcp = st_stcp res @ l ''stcp'', st_xtcp = st_xtcp res @ l ''xtcp'',
       st_sudp = st_sudp res @ l ''sudp''\<rparr>)"
proof (induction ps arbitrary: res)
  case (Cons s ps)
  show ?case
    by (simp only: fold.simps o_apply Cons.IH) (simp add: add_status_def Let_def)
qed (simp add: Let_def)

text \<open>
  The page of the status has the proxies of seven types by name; those of type tcpmux are on none of
  its lists.
\<close>

lemma api_status_lists:
  assumes "ks_ctl svr = Some ctl"
  shows "api_status order svr =
     (let l = (\<lambda>t. status_list (cc_server_addr (ks_cfg svr)) t (get_all_proxy_status order (kc_pm ctl))) in
      Ok \<lparr>st_tcp = l ''tcp'', st_udp = l ''udp'', st_http = l ''http'', st_https = l ''https'',
          st_stcp = l ''stcp'', st_xtcp = l ''xtcp'', st_sudp = l ''sudp''\<rparr>)"
  using assms by (simp add: api_status_def fold_add_status status_list_def Let_def)

lemma tcpmux_status_missing:
  assumes "ks_ctl svr = Some ctl" and "\<forall>s \<in> set (get_all_proxy_status order (kc_pm ctl)). ws_type s = ''tcpmux''"
  shows "api_status order svr = Ok \<lparr>st_tcp = [], st_udp = [], st_http = [], st_https = [], st_stcp = [], st_xtcp = [], st_sudp = []\<rparr>"
proof -
  have "filter (\<lambda>s. ws_type s = t) (get_all_proxy_status order (kc_pm ctl)) = []" if "t \<noteq> ''tcpmux''" for t
    using assms(2) that by (auto simp: filter_empty_conv)
  then show ?thesis by (simp add: api_status_lists [OF assms(1)] status_list_def Let_def)
qed

section \<open>The routes\<close>

text \<open>
  \<^verbatim>\<open>RunAdminServer\<close>: the routes of the router in the order of registration, with their method when
  they have one; a path that ends in a slash is a prefix for \<open>RoutePrefix\<close>. Which route a request
  matches is the router's decision, \<open>matched\<close>.
\<close>

datatype admin_handler = ReloadHandler | StatusHandler | GetConfigHandler | PutConfigHandler | FileHandler | StaticHandler | RedirectHandler
datatype admin_path = RoutePath string | RoutePrefix string

definition admin_routes :: "(admin_path \<times> string option \<times> admin_handler) list" where
  "admin_routes =
     [(RoutePath ''/api/reload'', Some ''GET'', ReloadHandler), (RoutePath ''/api/status'', Some ''GET'', StatusHandler),
      (RoutePath ''/api/config'', Some ''GET'', GetConfigHandler), (RoutePath ''/api/config'', Some ''PUT'', PutConfigHandler),
      (RoutePath ''/favicon.ico'', Some ''GET'', FileHandler), (RoutePrefix ''/static/'', Some ''GET'', StaticHandler),
      (RoutePath ''/'', None, RedirectHandler)]"

datatype admin_result = AdminNotRouted | AdminUnauthorized | AdminHandled admin_handler

definition admin_serve :: "client_common_conf \<Rightarrow> admin_handler option \<Rightarrow> (string \<times> string) option \<Rightarrow> admin_result" where
  "admin_serve cfg matched basicAuth =
     (case matched of
        None \<Rightarrow> AdminNotRouted
      | Some h \<Rightarrow>
          if http_auth_middleware_serves (cc_admin_user cfg) (cc_admin_pwd cfg) basicAuth then AdminHandled h
          else AdminUnauthorized)"

lemma admin_guarded:
  "admin_serve cfg matched basicAuth = AdminHandled h \<Longrightarrow> cc_admin_user cfg \<noteq> [] \<or> cc_admin_pwd cfg \<noteq> [] \<Longrightarrow>
   basicAuth = Some (cc_admin_user cfg, cc_admin_pwd cfg)"
  by (auto simp: admin_serve_def http_auth_middleware_serves_def split: option.split_asm if_split_asm)

end
