(* ===== verification/Dashboard.thy ===== *)
theory Dashboard
  imports Service Basic_Auth
begin

text \<open>
  The server's dashboard: \<^verbatim>\<open>frp/server/dashboard_api.go\<close> and \<^verbatim>\<open>frp/server/dashboard.go\<close>. The bodies are
  the values that are encoded as JSON; encoding a proxy's configuration and decoding it into the
  structure of its type is the parameter \<open>json\<close>, \<open>None\<close> when either fails.
\<close>

section \<open>\<^verbatim>\<open>api/serverinfo\<close>\<close>

record server_info_resp =
  si_version :: string
  si_bind_port :: int
  si_bind_udp_port :: int
  si_vhost_http_port :: int
  si_vhost_https_port :: int
  si_kcp_bind_port :: int
  si_subdomain_host :: string
  si_max_pool_count :: int
  si_max_ports_per_client :: int
  si_heart_beat_timeout :: int
  si_total_traffic_in :: "64 word"
  si_total_traffic_out :: "64 word"
  si_cur_conns :: int
  si_client_counts :: int
  si_proxy_type_counts :: "string \<rightharpoonup> int"

definition api_server_info ::
    "(int \<Rightarrow> int) \<Rightarrow> int \<Rightarrow> server_common_conf \<Rightarrow> server_statistics \<Rightarrow> server_statistics \<times> server_info_resp" where
  "api_server_info midnight now cfg m =
     (case sm_get_server midnight now m of (m', serverStats) \<Rightarrow>
       (m', \<lparr>si_version = version_full, si_bind_port = sc_bind_port cfg, si_bind_udp_port = sc_bind_udp_port cfg,
             si_vhost_http_port = sc_vhost_http_port cfg, si_vhost_https_port = sc_vhost_https_port cfg,
             si_kcp_bind_port = sc_kcp_bind_port cfg, si_subdomain_host = sc_sub_domain_host cfg,
             si_max_pool_count = sc_max_pool_count cfg, si_max_ports_per_client = sc_max_ports_per_client cfg,
             si_heart_beat_timeout = sc_heartbeat_timeout cfg,
             si_total_traffic_in = sv_total_traffic_in serverStats, si_total_traffic_out = sv_total_traffic_out serverStats,
             si_cur_conns = sv_cur_conns serverStats, si_client_counts = sv_client_counts serverStats,
             si_proxy_type_counts = sv_proxy_type_counts serverStats\<rparr>))"

section \<open>The proxies\<close>

text \<open>The structure that a configuration of a type is decoded into; \<open>OutNil\<close> is a plain map.\<close>

datatype out_conf = OutTCP | OutTCPMux | OutUDP | OutHTTP | OutHTTPS | OutSTCP | OutXTCP | OutNil

definition get_conf_by_type :: "string \<Rightarrow> out_conf" where
  "get_conf_by_type proxyType =
     (if proxyType = ''tcp'' then OutTCP
      else if proxyType = ''tcpmux'' then OutTCPMux
      else if proxyType = ''udp'' then OutUDP
      else if proxyType = ''http'' then OutHTTP
      else if proxyType = ''https'' then OutHTTPS
      else if proxyType = ''stcp'' then OutSTCP
      else if proxyType = ''xtcp'' then OutXTCP
      else OutNil)"

definition online :: string where "online = ''online''"
definition offline :: string where "offline = ''offline''"

record 'j proxy_stats_info =
  pi_name :: string
  pi_conf :: "'j option"
  pi_today_traffic_in :: "64 word"
  pi_today_traffic_out :: "64 word"
  pi_cur_conns :: int
  pi_last_start_time :: "int option"
  pi_last_close_time :: "int option"
  pi_status :: string

definition info_of :: "string \<Rightarrow> 'j option \<Rightarrow> string \<Rightarrow> proxy_stats \<Rightarrow> 'j proxy_stats_info" where
  "info_of name conf status ps =
     \<lparr>pi_name = name, pi_conf = conf, pi_today_traffic_in = py_today_traffic_in ps,
      pi_today_traffic_out = py_today_traffic_out ps, pi_cur_conns = py_cur_conns ps,
      pi_last_start_time = py_last_start_time ps, pi_last_close_time = py_last_close_time ps, pi_status = status\<rparr>"

text \<open>The loop of \<^verbatim>\<open>getProxyStatsByType\<close>; a proxy whose configuration cannot be encoded is skipped.\<close>

fun proxy_infos ::
    "(out_conf \<Rightarrow> proxy_conf \<Rightarrow> 'j option) \<Rightarrow> server_proxy proxy_mgr \<Rightarrow> proxy_stats list \<Rightarrow> 'j proxy_stats_info list" where
  "proxy_infos json pm [] = []"
| "proxy_infos json pm (ps # pss) =
     (case pxm_get_by_name (py_name ps) pm of
        Some pxy \<Rightarrow>
          (case json (get_conf_by_type (py_type ps)) (sp_conf pxy) of
             None \<Rightarrow> proxy_infos json pm pss
           | Some conf \<Rightarrow> info_of (py_name ps) (Some conf) online ps # proxy_infos json pm pss)
      | None \<Rightarrow> info_of (py_name ps) None offline ps # proxy_infos json pm pss)"

definition get_proxy_stats_by_type ::
    "(out_conf \<Rightarrow> proxy_conf \<Rightarrow> 'j option) \<Rightarrow> (int \<Rightarrow> int) \<Rightarrow> int \<Rightarrow> string list \<Rightarrow> string \<Rightarrow> shared \<Rightarrow>
     shared \<times> 'j proxy_stats_info list" where
  "get_proxy_stats_by_type json midnight now order proxyType sh =
     (case sm_get_proxies_by_type midnight now proxyType order (sh_stats sh) of (m', proxyStats) \<Rightarrow>
       (sh\<lparr>sh_stats := m'\<rparr>, proxy_infos json (sh_proxies sh) proxyStats))"

text \<open>\<^verbatim>\<open>APIProxyByType\<close> always answers with 200.\<close>

definition api_proxy_by_type ::
    "(out_conf \<Rightarrow> proxy_conf \<Rightarrow> 'j option) \<Rightarrow> (int \<Rightarrow> int) \<Rightarrow> int \<Rightarrow> string list \<Rightarrow> string \<Rightarrow> shared \<Rightarrow>
     shared \<times> int \<times> 'j proxy_stats_info list" where
  "api_proxy_by_type json midnight now order proxyType sh =
     (case get_proxy_stats_by_type json midnight now order proxyType sh of (sh', infos) \<Rightarrow> (sh', 200, infos))"

text \<open>\<^verbatim>\<open>getProxyStatsByTypeAndName\<close>: the answer, or the code and the message of an error.\<close>

definition get_proxy_stats_by_type_and_name ::
    "(out_conf \<Rightarrow> proxy_conf \<Rightarrow> 'j option) \<Rightarrow> (int \<Rightarrow> int) \<Rightarrow> int \<Rightarrow> string \<Rightarrow> string \<Rightarrow> shared \<Rightarrow>
     shared \<times> (int \<times> string + 'j proxy_stats_info)" where
  "get_proxy_stats_by_type_and_name json midnight now proxyType proxyName sh =
     (case sm_get_proxies_by_type_and_name midnight now proxyType proxyName (sh_stats sh) of
        (m', None) \<Rightarrow> (sh\<lparr>sh_stats := m'\<rparr>, Inl (404, ''no proxy info found''))
      | (m', Some ps) \<Rightarrow>
          (sh\<lparr>sh_stats := m'\<rparr>,
           (case pxm_get_by_name proxyName (sh_proxies sh) of
              Some pxy \<Rightarrow>
                (case json (get_conf_by_type (py_type ps)) (sp_conf pxy) of
                   None \<Rightarrow> Inl (400, ''parse conf error'')
                 | Some conf \<Rightarrow> Inr (info_of proxyName (Some conf) online ps))
            | None \<Rightarrow> Inr (info_of proxyName None offline ps))))"

definition api_proxy_by_type_and_name ::
    "(out_conf \<Rightarrow> proxy_conf \<Rightarrow> 'j option) \<Rightarrow> (int \<Rightarrow> int) \<Rightarrow> int \<Rightarrow> string \<Rightarrow> string \<Rightarrow> shared \<Rightarrow>
     shared \<times> int \<times> (string + 'j proxy_stats_info)" where
  "api_proxy_by_type_and_name json midnight now proxyType name sh =
     (case get_proxy_stats_by_type_and_name json midnight now proxyType name sh of
        (sh', Inl (code, text)) \<Rightarrow> (sh', code, Inl text)
      | (sh', Inr info) \<Rightarrow> (sh', 200, Inr info))"

definition api_proxy_traffic ::
    "(int \<Rightarrow> int) \<Rightarrow> int \<Rightarrow> string \<Rightarrow> shared \<Rightarrow> shared \<times> (int \<times> string + proxy_traffic_info)" where
  "api_proxy_traffic midnight now name sh =
     (case sm_get_proxy_traffic midnight now name (sh_stats sh) of
        (m', None) \<Rightarrow> (sh\<lparr>sh_stats := m'\<rparr>, Inl (404, ''no proxy info found''))
      | (m', Some info) \<Rightarrow> (sh\<lparr>sh_stats := m'\<rparr>, Inr info))"

section \<open>The routes\<close>

datatype dashboard_handler = MetricsHandler | ServerInfoHandler | ByTypeHandler | ByNameHandler | TrafficHandler
  | FaviconHandler | AssetHandler | HomeHandler

definition dashboard_routes :: "server_common_conf \<Rightarrow> (string \<times> string option \<times> dashboard_handler) list" where
  "dashboard_routes cfg =
     (if sc_enable_prometheus cfg then [(''/metrics'', None, MetricsHandler)] else []) @
     [(''/api/serverinfo'', Some ''GET'', ServerInfoHandler), (''/api/proxy/{type}'', Some ''GET'', ByTypeHandler),
      (''/api/proxy/{type}/{name}'', Some ''GET'', ByNameHandler), (''/api/traffic/{name}'', Some ''GET'', TrafficHandler),
      (''/favicon.ico'', Some ''GET'', FaviconHandler), (''/static/'', Some ''GET'', AssetHandler), (''/'', None, HomeHandler)]"

definition dashboard_serves :: "server_common_conf \<Rightarrow> (string \<times> string) option \<Rightarrow> bool" where
  "dashboard_serves cfg basicAuth = http_auth_middleware_serves (sc_dashboard_user cfg) (sc_dashboard_pwd cfg) basicAuth"

section \<open>The two pages about proxies\<close>

text \<open>What the statistics say of a proxy, when it is of the type.\<close>

definition stats_for :: "(int \<Rightarrow> int) \<Rightarrow> int \<Rightarrow> string \<Rightarrow> server_statistics \<Rightarrow> string \<Rightarrow> proxy_stats option" where
  "stats_for midnight now proxyType m name =
     (case ss_proxy_statistics m name of
        None \<Rightarrow> None
      | Some d \<Rightarrow> if ps_proxy_type d \<noteq> proxyType then None else Some (snd (stats_of midnight now name d)))"

lemma stats_for_name: "stats_for midnight now t m name = Some ps \<Longrightarrow> py_name ps = name"
  by (auto simp: stats_for_def stats_of_def split: option.split_asm if_split_asm prod.split_asm)

lemma stats_for_upd: "n \<noteq> name \<Longrightarrow>
    stats_for midnight now t (m\<lparr>ss_proxy_statistics := (ss_proxy_statistics m)(name \<mapsto> d)\<rparr>) n = stats_for midnight now t m n"
  by (simp add: stats_for_def)

lemma map_filter_same: "(\<And>x. x \<in> set xs \<Longrightarrow> f x = g x) \<Longrightarrow> List.map_filter f xs = List.map_filter g xs"
  by (induction xs) (auto simp: map_filter_simps split: option.split)

lemma sm_get_proxies_by_type_result:
  "distinct names \<Longrightarrow> snd (sm_get_proxies_by_type midnight now t names m) = List.map_filter (stats_for midnight now t m) names"
proof (induction names arbitrary: m)
  case (Cons name names)
  have upd: "List.map_filter (stats_for midnight now t (m\<lparr>ss_proxy_statistics := (ss_proxy_statistics m)(name \<mapsto> d)\<rparr>)) names =
      List.map_filter (stats_for midnight now t m) names" for d
    using Cons.prems by (intro map_filter_same stats_for_upd) auto
  show ?case
  proof (cases "stats_for midnight now t m name")
    case None
    with Cons show ?thesis by (auto simp: stats_for_def map_filter_simps split: option.split_asm if_split_asm)
  next
    case (Some ps)
    then obtain d where d: "ss_proxy_statistics m name = Some d" "ps_proxy_type d = t" "ps = snd (stats_of midnight now name d)"
      by (auto simp: stats_for_def split: option.split_asm if_split_asm)
    obtain d' where d': "stats_of midnight now name d = (d', ps)" using d(3) by (cases "stats_of midnight now name d") auto
    obtain m' res where r: "sm_get_proxies_by_type midnight now t names
        (m\<lparr>ss_proxy_statistics := (ss_proxy_statistics m)(name \<mapsto> d')\<rparr>) = (m', res)" by (rule prod.exhaust)
    have "res = List.map_filter (stats_for midnight now t m) names"
      using Cons.IH [of "m\<lparr>ss_proxy_statistics := (ss_proxy_statistics m)(name \<mapsto> d')\<rparr>"] Cons.prems r upd [of d'] by simp
    with d d' r Some show ?thesis by (simp add: map_filter_simps)
  qed
qed (simp add: map_filter_simps)

lemma sm_get_proxies_by_type_and_name_result:
  "snd (sm_get_proxies_by_type_and_name midnight now t name m) = stats_for midnight now t m name"
  by (simp add: sm_get_proxies_by_type_and_name_def stats_for_def split: option.split prod.split)

text \<open>The entry of a page for a proxy with these statistics.\<close>

definition entry_of ::
    "(out_conf \<Rightarrow> proxy_conf \<Rightarrow> 'j option) \<Rightarrow> server_proxy proxy_mgr \<Rightarrow> proxy_stats \<Rightarrow> 'j proxy_stats_info option" where
  "entry_of json pm ps =
     (case pxm_get_by_name (py_name ps) pm of
        None \<Rightarrow> Some (info_of (py_name ps) None offline ps)
      | Some pxy \<Rightarrow> map_option (\<lambda>conf. info_of (py_name ps) (Some conf) online ps) (json (get_conf_by_type (py_type ps)) (sp_conf pxy)))"

lemma entry_of_name: "entry_of json pm ps = Some i \<Longrightarrow> pi_name i = py_name ps"
  by (auto simp: entry_of_def info_of_def split: option.split_asm)

lemma proxy_infos_entries: "proxy_infos json pm pss = List.map_filter (entry_of json pm) pss"
  by (induction pss) (auto simp: entry_of_def map_filter_simps split: option.split)

definition page_entry ::
    "(out_conf \<Rightarrow> proxy_conf \<Rightarrow> 'j option) \<Rightarrow> (int \<Rightarrow> int) \<Rightarrow> int \<Rightarrow> string \<Rightarrow> shared \<Rightarrow> string \<Rightarrow> 'j proxy_stats_info option" where
  "page_entry json midnight now t sh name = Option.bind (stats_for midnight now t (sh_stats sh) name) (entry_of json (sh_proxies sh))"

lemma page_entry_name: "page_entry json midnight now t sh name = Some i \<Longrightarrow> pi_name i = name"
  by (auto simp: page_entry_def bind_eq_Some_conv dest: stats_for_name entry_of_name)

lemma map_filter_bind: "List.map_filter f (List.map_filter g xs) = List.map_filter (\<lambda>x. Option.bind (g x) f) xs"
  by (induction xs) (auto simp: map_filter_simps split: option.split)

lemma api_proxy_by_type_entries:
  "distinct order \<Longrightarrow> snd (snd (api_proxy_by_type json midnight now order t sh)) = List.map_filter (page_entry json midnight now t sh) order"
  using sm_get_proxies_by_type_result [of order midnight now t "sh_stats sh"]
  by (cases "sm_get_proxies_by_type midnight now t order (sh_stats sh)")
    (simp add: api_proxy_by_type_def get_proxy_stats_by_type_def proxy_infos_entries map_filter_bind page_entry_def
      [abs_def])

lemma filter_map_filter_name:
  assumes "\<And>x i. f x = Some i \<Longrightarrow> nm i = x"
  shows "distinct xs \<Longrightarrow> filter (\<lambda>i. nm i = y) (List.map_filter f xs) = (if y \<in> set xs then case f y of None \<Rightarrow> [] | Some i \<Rightarrow> [i] else [])"
proof (induction xs)
  case (Cons x xs)
  then show ?case using assms by (cases "f x") (auto simp: map_filter_simps split: option.split)
qed (simp add: map_filter_simps)

text \<open>The page of a type and the page of a name agree: among the proxies that the first lists there is
  at most one of a given name, and it is exactly what the second answers when it answers with a proxy,
  while the first lists none when the second answers with an error.\<close>

theorem dashboard_pages_agree:
  assumes "distinct order" and "name \<in> set order"
  shows "filter (\<lambda>i. pi_name i = name) (snd (snd (api_proxy_by_type json midnight now order t sh))) =
         (case snd (snd (api_proxy_by_type_and_name json midnight now t name sh)) of Inl _ \<Rightarrow> [] | Inr info \<Rightarrow> [info])"
proof -
  have l: "filter (\<lambda>i. pi_name i = name) (snd (snd (api_proxy_by_type json midnight now order t sh))) =
      (case page_entry json midnight now t sh name of None \<Rightarrow> [] | Some i \<Rightarrow> [i])"
    unfolding api_proxy_by_type_entries [OF assms(1)]
    by (subst filter_map_filter_name [OF page_entry_name assms(1)]) (simp_all add: assms(2))
  obtain m' r where r: "sm_get_proxies_by_type_and_name midnight now t name (sh_stats sh) = (m', r)" by (rule prod.exhaust)
  have s: "r = stats_for midnight now t (sh_stats sh) name"
    using sm_get_proxies_by_type_and_name_result [of midnight now t name "sh_stats sh"] r by simp
  have "(case snd (snd (api_proxy_by_type_and_name json midnight now t name sh)) of Inl _ \<Rightarrow> [] | Inr info \<Rightarrow> [info]) =
      (case page_entry json midnight now t sh name of None \<Rightarrow> [] | Some i \<Rightarrow> [i])"
  proof (cases r)
    case None
    with r s show ?thesis
      by (simp add: api_proxy_by_type_and_name_def get_proxy_stats_by_type_and_name_def page_entry_def)
  next
    case (Some ps)
    with s have n: "py_name ps = name" and st: "stats_for midnight now t (sh_stats sh) name = Some ps"
      using stats_for_name by auto
    show ?thesis
      by (simp add: api_proxy_by_type_and_name_def get_proxy_stats_by_type_and_name_def r Some page_entry_def st entry_of_def n
          split: option.split)
  qed
  with l show ?thesis by simp
qed

definition sample_stats :: server_statistics where
  "sample_stats = fold (sm_apply (\<lambda>t. t)) [(1, NewProxy ''p'' ''tcp''), (2, NewProxy ''q'' ''udp''), (3, OpenConnection ''p'' ''tcp'')]
     (new_server_metrics (\<lambda>t. t) 0)"

lemma dashboard_pages_agree_witness:
  "\<forall>re. let sh = \<lparr>sh_resources = re, sh_proxies = (\<lambda>_. None), sh_stats = sample_stats\<rparr>;
         json = (\<lambda>_ _. None :: unit option)
     in map pi_status (filter (\<lambda>i. pi_name i = ''p'') (snd (snd (api_proxy_by_type json (\<lambda>t. t) 4 [''q'', ''p''] ''tcp'' sh)))) = [offline]"
proof
  fix re
  have "ss_proxy_statistics sample_stats ''p'' \<noteq> None"
    "\<And>d. ss_proxy_statistics sample_stats ''p'' = Some d \<Longrightarrow> ps_proxy_type d = ''tcp''"
    by (simp_all add: sample_stats_def sm_defs new_server_metrics_def upd_stats_def)
  then obtain d where d: "ss_proxy_statistics sample_stats ''p'' = Some d" "ps_proxy_type d = ''tcp''" by auto
  show "let sh = \<lparr>sh_resources = re, sh_proxies = (\<lambda>_. None), sh_stats = sample_stats\<rparr>; json = (\<lambda>_ _. None :: unit option)
     in map pi_status (filter (\<lambda>i. pi_name i = ''p'') (snd (snd (api_proxy_by_type json (\<lambda>t. t) 4 [''q'', ''p''] ''tcp'' sh)))) = [offline]"
    unfolding Let_def
    by (subst dashboard_pages_agree [of "[''q'', ''p'']" "''p''"])
      (simp_all add: api_proxy_by_type_and_name_def get_proxy_stats_by_type_and_name_def
        sm_get_proxies_by_type_and_name_def d pxm_get_by_name_def info_of_def split: prod.split)
qed

end
