(* ===== verification/Net_Conns.thy ===== *)
theory Net_Conns
  imports Channels Registries Messages
begin

text \<open>
  Connections and listeners of \<^verbatim>\<open>frp/pkg/util/net\<close>: the connections that notify and count
  (\<^verbatim>\<open>conn.go\<close>), the choice of a dialler and of TLS (\<^verbatim>\<open>conn.go\<close>, \<^verbatim>\<open>websocket.go\<close>, \<^verbatim>\<open>tls.go\<close>), the UDP
  listener with its connections (\<^verbatim>\<open>udp.go\<close>), and the listener of the client's plugins
  (\<^verbatim>\<open>frp/pkg/plugin/client/plugin.go\<close>). Sockets and the kcp and websocket packages are outside:
  their answers are arguments.
\<close>

section \<open>Listeners\<close>

text \<open>
  The contract of the listeners that connections are put into: what was accepted before closing is
  handed out in order, and then the error, for ever. \<open>accept\<close> is \<open>None\<close> when it waits.
\<close>

locale conn_listener =
  fixes inv :: "'l \<Rightarrow> bool"
    and put :: "'c \<Rightarrow> 'l \<Rightarrow> ('l \<times> bool) option"
    and accept :: "'l \<Rightarrow> ('l \<times> 'c option) option"
    and close :: "'l \<Rightarrow> (unit, 'l) go"
    and pending :: "'l \<Rightarrow> 'c list"
    and closed :: "'l \<Rightarrow> bool"
    and room :: "'l \<Rightarrow> bool"
  assumes put_room: "inv l \<Longrightarrow> \<not> closed l \<Longrightarrow> room l \<Longrightarrow>
      \<exists>l'. put c l = Some (l', True) \<and> inv l' \<and> pending l' = pending l @ [c] \<and> \<not> closed l'"
    and put_closed: "inv l \<Longrightarrow> closed l \<Longrightarrow> put c l = Some (l, False)"
    and accept_some: "inv l \<Longrightarrow> pending l = c # cs \<Longrightarrow>
      \<exists>l'. accept l = Some (l', Some c) \<and> inv l' \<and> pending l' = cs \<and> closed l' = closed l"
    and accept_none: "inv l \<Longrightarrow> pending l = [] \<Longrightarrow> accept l = (if closed l then Some (l, None) else None)"
    and close_law: "inv l \<Longrightarrow> \<exists>l'. close l = Ok l' \<and> inv l' \<and> pending l' = pending l \<and> closed l'"
begin

fun accepts :: "nat \<Rightarrow> 'l \<Rightarrow> 'c option list" where
  "accepts 0 l = []"
| "accepts (Suc n) l = (case accept l of None \<Rightarrow> [] | Some (l', r) \<Rightarrow> r # accepts n l')"

lemma accepts_closed:
  "inv l \<Longrightarrow> closed l \<Longrightarrow> accepts n l = map Some (take n (pending l)) @ replicate (n - length (pending l)) None"
proof (induction n arbitrary: l)
  case (Suc n)
  show ?case
  proof (cases "pending l")
    case Nil
    with Suc show ?thesis by (simp add: accept_none)
  next
    case (Cons c cs)
    from accept_some [OF Suc.prems(1) this]
    obtain l' where "accept l = Some (l', Some c)" "inv l'" "pending l' = cs" "closed l' = closed l" by blast
    with Suc Cons show ?thesis by simp
  qed
qed simp

lemma accepts_after_close:
  assumes "inv l"
  shows "\<exists>l'. close l = Ok l' \<and> accepts n l' = map Some (take n (pending l)) @ replicate (n - length (pending l)) None"
proof -
  from close_law [OF assms] obtain l' where "close l = Ok l'" "inv l'" "pending l' = pending l" "closed l'" by blast
  with accepts_closed [of l' n] show ?thesis by auto
qed

end

interpretation lc: conn_listener "\<lambda>_. True" "\<lambda>c l. Some (cl_put_conn c l)" cl_accept_conn "\<lambda>l. Ok (cl_close l)"
    cl_accept cl_closed "\<lambda>l. length (cl_accept l) < 64"
  by unfold_locales (auto simp: cl_put_conn_def cl_accept_conn_def cl_close_def)

text \<open>The listener of the plugins keeps its connections in a channel of 64; a full one makes \<^verbatim>\<open>PutConn\<close> wait.\<close>

record 'c plugin_listener =
  pl_conns :: "'c chan"
  pl_closed :: bool

definition new_proxy_listener :: "'c plugin_listener" where
  "new_proxy_listener = \<lparr>pl_conns = make_chan 64, pl_closed = False\<rparr>"

definition pl_accept_conn :: "'c plugin_listener \<Rightarrow> ('c plugin_listener \<times> 'c option) option" where
  "pl_accept_conn l =
     (case chan_recv (pl_conns l) of
        Received c ch \<Rightarrow> Some (l\<lparr>pl_conns := ch\<rparr>, Some c)
      | RecvBlocks \<Rightarrow> None
      | RecvClosed \<Rightarrow> Some (l, None))"

text \<open>\<^verbatim>\<open>PutConn\<close>: \<open>None\<close> while it waits, otherwise the listener and whether there was no error.\<close>

definition pl_put_conn :: "'c \<Rightarrow> 'c plugin_listener \<Rightarrow> ('c plugin_listener \<times> bool) option" where
  "pl_put_conn conn l =
     (case chan_send conn (pl_conns l) of
        Sent ch \<Rightarrow> Some (l\<lparr>pl_conns := ch\<rparr>, True)
      | SendBlocks \<Rightarrow> None
      | SendPanics \<Rightarrow> Some (l, False))"

definition pl_close :: "'c plugin_listener \<Rightarrow> (unit, 'c plugin_listener) go" where
  "pl_close l =
     (if \<not> pl_closed l then
        (case chan_close (pl_conns l) of None \<Rightarrow> Panic | Some ch \<Rightarrow> Ok (l\<lparr>pl_conns := ch, pl_closed := True\<rparr>))
      else Ok l)"

fun chan_elements :: "'m chan \<Rightarrow> 'm list" where
  "chan_elements NilChan = []"
| "chan_elements (OpenChan n ms) = ms"
| "chan_elements (ClosedChan ms) = ms"

text \<open>The states a plugin's listener can be in.\<close>

inductive plugin_listener_state :: "'c plugin_listener \<Rightarrow> bool" where
  state_new: "plugin_listener_state new_proxy_listener"
| state_put: "plugin_listener_state l \<Longrightarrow> pl_put_conn c l = Some (l', ok) \<Longrightarrow> plugin_listener_state l'"
| state_accept: "plugin_listener_state l \<Longrightarrow> pl_accept_conn l = Some (l', r) \<Longrightarrow> plugin_listener_state l'"
| state_close: "plugin_listener_state l \<Longrightarrow> pl_close l = Ok l' \<Longrightarrow> plugin_listener_state l'"

definition plugin_listener_ok :: "'c plugin_listener \<Rightarrow> bool" where
  "plugin_listener_ok l \<longleftrightarrow>
     (if pl_closed l then is_closed (pl_conns l) else \<exists>ms. pl_conns l = OpenChan 64 ms)"

lemma plugin_listener_state_ok: "plugin_listener_state l \<Longrightarrow> plugin_listener_ok l"
proof (induction rule: plugin_listener_state.induct)
  case state_new
  show ?case by (simp add: plugin_listener_ok_def new_proxy_listener_def make_chan_def)
next
  case (state_put l c l' ok)
  then show ?case
    by (cases "pl_conns l") (auto simp: plugin_listener_ok_def pl_put_conn_def split: if_split_asm)
next
  case (state_accept l l' r)
  then show ?case
    by (cases "pl_conns l" rule: chan_recv.cases) (auto simp: plugin_listener_ok_def pl_accept_conn_def split: if_split_asm)
next
  case (state_close l l')
  then show ?case
    by (cases "pl_conns l") (auto simp: plugin_listener_ok_def pl_close_def split: if_split_asm)
qed

lemma pl_put_room:
  "plugin_listener_ok l \<Longrightarrow> \<not> pl_closed l \<Longrightarrow> length (chan_elements (pl_conns l)) < 64 \<Longrightarrow>
   \<exists>l'. pl_put_conn c l = Some (l', True) \<and> plugin_listener_ok l' \<and>
     chan_elements (pl_conns l') = chan_elements (pl_conns l) @ [c] \<and> \<not> pl_closed l'"
  by (cases "pl_conns l") (auto simp: plugin_listener_ok_def pl_put_conn_def split: if_split_asm)

lemma pl_put_after_close: "plugin_listener_ok l \<Longrightarrow> pl_closed l \<Longrightarrow> pl_put_conn c l = Some (l, False)"
  by (cases "pl_conns l") (auto simp: plugin_listener_ok_def pl_put_conn_def)

lemma pl_accept_some:
  "plugin_listener_ok l \<Longrightarrow> chan_elements (pl_conns l) = c # cs \<Longrightarrow>
   \<exists>l'. pl_accept_conn l = Some (l', Some c) \<and> plugin_listener_ok l' \<and> chan_elements (pl_conns l') = cs \<and>
     pl_closed l' = pl_closed l"
  by (cases l; cases "pl_conns l" rule: chan_recv.cases) (auto simp: plugin_listener_ok_def pl_accept_conn_def split: if_split_asm)

lemma pl_accept_none:
  "plugin_listener_ok l \<Longrightarrow> chan_elements (pl_conns l) = [] \<Longrightarrow>
   pl_accept_conn l = (if pl_closed l then Some (l, None) else None)"
  by (cases "pl_conns l" rule: chan_recv.cases) (auto simp: plugin_listener_ok_def pl_accept_conn_def split: if_split_asm)

lemma pl_close_law:
  "plugin_listener_ok l \<Longrightarrow>
   \<exists>l'. pl_close l = Ok l' \<and> plugin_listener_ok l' \<and> chan_elements (pl_conns l') = chan_elements (pl_conns l) \<and> pl_closed l'"
  by (cases l; cases "pl_conns l") (auto simp: plugin_listener_ok_def pl_close_def split: if_split_asm)

interpretation lp: conn_listener plugin_listener_ok pl_put_conn pl_accept_conn pl_close
    "\<lambda>l. chan_elements (pl_conns l)" pl_closed "\<lambda>l. length (chan_elements (pl_conns l)) < 64"
  by unfold_locales (fact pl_put_room pl_put_after_close pl_accept_some pl_accept_none pl_close_law)+

text \<open>Closing the listener of a plugin, once or again, does not panic, and hands out what was put before.\<close>

lemma plugin_listener_drains:
  "plugin_listener_state l \<Longrightarrow>
   \<exists>l'. pl_close l = Ok l' \<and>
     lp.accepts n l' = map Some (take n (chan_elements (pl_conns l))) @
       replicate (n - length (chan_elements (pl_conns l))) None"
  by (rule lp.accepts_after_close [OF plugin_listener_state_ok])

section \<open>Connections that notify and count\<close>

text \<open>
  \<^verbatim>\<open>CloseNotifyConn\<close>, with whether the connection below is open and how often \<^verbatim>\<open>closeFn\<close> was called.
  \<^verbatim>\<open>Close\<close> calls itself, not the connection below.
\<close>

record close_notify_conn =
  cn_under_open :: bool
  cn_close_flag :: bool
  cn_notified :: nat

definition wrap_close_notify_conn :: "bool \<Rightarrow> close_notify_conn" where
  "wrap_close_notify_conn open_conn = \<lparr>cn_under_open = open_conn, cn_close_flag = False, cn_notified = 0\<rparr>"

function cn_close :: "close_notify_conn \<Rightarrow> close_notify_conn" where
  "cn_close cc =
     (if \<not> cn_close_flag cc then
        (let cc = cn_close (cc\<lparr>cn_close_flag := True\<rparr>) in cc\<lparr>cn_notified := Suc (cn_notified cc)\<rparr>)
      else cc)"
  by auto
termination by (relation "measure (\<lambda>cc. if cn_close_flag cc then 0 else 1)") auto

declare cn_close.simps [simp del]

lemma cn_close_closed: "cn_close_flag cc \<Longrightarrow> cn_close cc = cc"
  by (simp add: cn_close.simps)

lemma cn_close_first: "\<not> cn_close_flag cc \<Longrightarrow> cn_close cc = cc\<lparr>cn_close_flag := True, cn_notified := Suc (cn_notified cc)\<rparr>"
  by (simp add: cn_close.simps [of cc] cn_close_closed Let_def)

text \<open>However often it is closed, \<^verbatim>\<open>closeFn\<close> is called once; the connection below stays open.\<close>

lemma close_notify_leaks:
  "cn_notified ((cn_close ^^ Suc n) (wrap_close_notify_conn True)) = 1 \<and>
   cn_under_open ((cn_close ^^ Suc n) (wrap_close_notify_conn True))"
proof -
  have "(cn_close ^^ Suc n) (wrap_close_notify_conn True) = \<lparr>cn_under_open = True, cn_close_flag = True, cn_notified = 1\<rparr>"
    by (induction n) (simp_all add: cn_close_first cn_close_closed wrap_close_notify_conn_def)
  then show ?thesis by simp
qed

text \<open>\<^verbatim>\<open>StatsConn\<close>; \<open>sn_calls\<close> are the calls of \<^verbatim>\<open>statsFunc\<close>.\<close>

record stats_conn =
  sn_closed :: bool
  sn_total_read :: "64 word"
  sn_total_write :: "64 word"
  sn_calls :: "(64 word \<times> 64 word) list"

definition wrap_stats_conn :: stats_conn where
  "wrap_stats_conn = \<lparr>sn_closed = False, sn_total_read = 0, sn_total_write = 0, sn_calls = []\<rparr>"

definition sn_read :: "nat \<Rightarrow> stats_conn \<Rightarrow> stats_conn" where
  "sn_read n c = c\<lparr>sn_total_read := sn_total_read c + of_nat n\<rparr>"

definition sn_write :: "nat \<Rightarrow> stats_conn \<Rightarrow> stats_conn" where
  "sn_write n c = c\<lparr>sn_total_write := sn_total_write c + of_nat n\<rparr>"

definition sn_close :: "stats_conn \<Rightarrow> stats_conn" where
  "sn_close c =
     (if \<not> sn_closed c
      then c\<lparr>sn_closed := True, sn_calls := sn_calls c @ [(sn_total_read c, sn_total_write c)]\<rparr>
      else c)"

datatype conn_use = UseRead nat | UseWrite nat | UseClose

fun sn_use :: "conn_use \<Rightarrow> stats_conn \<Rightarrow> stats_conn" where
  "sn_use (UseRead n) c = sn_read n c"
| "sn_use (UseWrite n) c = sn_write n c"
| "sn_use UseClose c = sn_close c"

fun bytes_read :: "conn_use \<Rightarrow> nat" where
  "bytes_read (UseRead n) = n" | "bytes_read _ = 0"

fun bytes_written :: "conn_use \<Rightarrow> nat" where
  "bytes_written (UseWrite n) = n" | "bytes_written _ = 0"

lemma sn_uses_totals:
  "sn_total_read (fold sn_use us c) = sn_total_read c + of_nat (sum_list (map bytes_read us)) \<and>
   sn_total_write (fold sn_use us c) = sn_total_write c + of_nat (sum_list (map bytes_written us))"
proof (induction us arbitrary: c)
  case (Cons u us)
  from Cons [of "sn_use u c"] show ?case
    by (cases u) (auto simp: sn_read_def sn_write_def sn_close_def algebra_simps)
qed simp

lemma sn_uses_open: "UseClose \<notin> set us \<Longrightarrow> sn_calls (fold sn_use us c) = sn_calls c \<and> sn_closed (fold sn_use us c) = sn_closed c"
proof (induction us arbitrary: c)
  case (Cons u us)
  from Cons.IH [of "sn_use u c"] Cons.prems show ?case by (cases u) (auto simp: sn_read_def sn_write_def)
qed simp

lemma sn_uses_closed: "sn_closed c \<Longrightarrow> sn_calls (fold sn_use us c) = sn_calls c"
proof (induction us arbitrary: c)
  case (Cons u us)
  from Cons.IH [of "sn_use u c"] Cons.prems show ?case by (cases u) (auto simp: sn_read_def sn_write_def sn_close_def)
qed simp

text \<open>The statistics are reported once, at the first close, with the bytes of what came before it.\<close>

lemma stats_reported_once:
  assumes "UseClose \<notin> set us"
  shows "sn_calls (fold sn_use (us @ UseClose # vs) wrap_stats_conn) =
    [(of_nat (sum_list (map bytes_read us)), of_nat (sum_list (map bytes_written us)))]"
proof -
  let ?c = "fold sn_use us wrap_stats_conn"
  have c: "sn_calls ?c = []" "\<not> sn_closed ?c" using sn_uses_open [OF assms] by (simp_all add: wrap_stats_conn_def)
  have "sn_calls (fold sn_use vs (sn_close ?c)) = sn_calls (sn_close ?c)"
    by (rule sn_uses_closed) (simp add: sn_close_def)
  with c sn_uses_totals [of us wrap_stats_conn] show ?thesis
    by (simp add: sn_close_def) (simp add: wrap_stats_conn_def)
qed

section \<open>Connecting\<close>

text \<open>What is dialled: TCP, KCP, TCP through a proxy, or a websocket with its origin.\<close>

datatype dial = DialTCP string | DialKCP string | DialProxy string string | DialWebsocket string string

definition frp_websocket_path :: string where "frp_websocket_path = ''/~!frp''"

text \<open>\<open>uri_host\<close> is what \<^verbatim>\<open>url.Parse\<close> gives for the host, \<open>None\<close> when it fails.\<close>

definition connect_websocket_server :: "(string \<Rightarrow> string option) \<Rightarrow> string \<Rightarrow> string + dial" where
  "connect_websocket_server uri_host addr =
     (let addr = ''ws://'' @ addr @ frp_websocket_path in
      case uri_host addr of None \<Rightarrow> Inl ''parse'' | Some host \<Rightarrow> Inr (DialWebsocket addr (''http://'' @ host)))"

definition connect_server_to :: "string \<Rightarrow> string \<Rightarrow> string + dial" where
  "connect_server_to protocol addr =
     (if protocol = ''tcp'' then Inr (DialTCP addr)
      else if protocol = ''kcp'' then Inr (DialKCP addr)
      else Inl (''unsupport protocol: '' @ protocol))"

definition connect_server_by_proxy :: "(string \<Rightarrow> string option) \<Rightarrow> string \<Rightarrow> string \<Rightarrow> string \<Rightarrow> string + dial" where
  "connect_server_by_proxy uri_host proxyURL protocol addr =
     (if protocol = ''tcp'' then Inr (DialProxy proxyURL addr)
      else if protocol = ''kcp'' then connect_server_to protocol addr
      else if protocol = ''websocket'' then connect_websocket_server uri_host addr
      else Inl (''unsupport protocol: '' @ protocol))"

section \<open>TLS on the shared port\<close>

definition frp_tls_head_byte :: char where "frp_tls_head_byte = CHR 0x17"

text \<open>
  \<^verbatim>\<open>ConnectServerByProxyWithTLS\<close> with \<^verbatim>\<open>WrapTLSClientConn\<close>: what is dialled, the bytes written to the new
  connection at once, and whether it is wrapped in TLS.
\<close>

definition connect_server_by_proxy_with_tls ::
    "(string \<Rightarrow> string option) \<Rightarrow> (dial \<Rightarrow> bool) \<Rightarrow> string \<Rightarrow> string \<Rightarrow> string \<Rightarrow> bool \<Rightarrow> string + (dial \<times> string \<times> bool)" where
  "connect_server_by_proxy_with_tls uri_host dial_ok proxyURL protocol addr tls =
     (case connect_server_by_proxy uri_host proxyURL protocol addr of
        Inl e \<Rightarrow> Inl e
      | Inr d \<Rightarrow>
          if \<not> dial_ok d then Inl ''dial''
          else if \<not> tls then Inr (d, [], False)
          else Inr (d, [frp_tls_head_byte], True))"

datatype tls_check = TLSReadError | TLSServer | TLSPlain | TLSOnlyRefused

text \<open>\<open>bytes\<close> is what arrives before the deadline; the first byte decides.\<close>

definition check_and_enable_tls_server_conn :: "string \<Rightarrow> bool \<Rightarrow> tls_check" where
  "check_and_enable_tls_server_conn bytes tlsOnly =
     (case bytes of
        [] \<Rightarrow> TLSReadError
      | b # _ \<Rightarrow> if b = frp_tls_head_byte then TLSServer else if tlsOnly then TLSOnlyRefused else TLSPlain)"

text \<open>
  The server takes a client's connection as TLS exactly when the client wraps it: the first byte of a
  message never is the head byte. Without the multiplexing of streams the client writes a message first.
\<close>

lemma tls_ends_agree:
  assumes "connect_server_by_proxy_with_tls uri_host dial_ok proxyURL protocol addr tls = Inr (d, head, wrapped)"
  shows "check_and_enable_tls_server_conn (head @ msg_type_byte k # rest) tlsOnly =
         (if wrapped then TLSServer else if tlsOnly then TLSOnlyRefused else TLSPlain)"
  using assms
  by (cases k) (auto simp: connect_server_by_proxy_with_tls_def check_and_enable_tls_server_conn_def frp_tls_head_byte_def
      split: sum.split_asm if_split_asm)

section \<open>The UDP listener\<close>

text \<open>
  \<^verbatim>\<open>FakeUDPConn\<close>: the datagrams of one address. \<open>fc_last_active\<close> is \<open>None\<close> until the first read or
  write, the zero time.
\<close>

record 'a fake_udp_conn =
  fc_local_addr :: 'a
  fc_remote_addr :: 'a
  fc_packets :: "string chan"
  fc_close_flag :: bool
  fc_last_active :: "int option"

definition new_fake_udp_conn :: "'a \<Rightarrow> 'a \<Rightarrow> 'a fake_udp_conn" where
  "new_fake_udp_conn laddr raddr =
     \<lparr>fc_local_addr = laddr, fc_remote_addr = raddr, fc_packets = make_chan 20, fc_close_flag = False, fc_last_active = None\<rparr>"

definition fc_put_packet :: "string \<Rightarrow> 'a fake_udp_conn \<Rightarrow> 'a fake_udp_conn" where
  "fc_put_packet content c = (case chan_try_send content (fc_packets c) of None \<Rightarrow> c | Some ch \<Rightarrow> c\<lparr>fc_packets := ch\<rparr>)"

text \<open>\<^verbatim>\<open>Read\<close> into a buffer of length \<open>n\<close>: \<open>None\<close> while it waits, \<open>Some (c, None)\<close> for the end.\<close>

definition fc_read :: "int \<Rightarrow> nat \<Rightarrow> 'a fake_udp_conn \<Rightarrow> ('a fake_udp_conn \<times> string option) option" where
  "fc_read now n c =
     (case chan_recv (fc_packets c) of
        RecvBlocks \<Rightarrow> None
      | RecvClosed \<Rightarrow> Some (c, None)
      | Received content ch \<Rightarrow> Some (c\<lparr>fc_packets := ch, fc_last_active := Some now\<rparr>, Some (take n content)))"

definition fc_close :: "'a fake_udp_conn \<Rightarrow> (unit, 'a fake_udp_conn) go" where
  "fc_close c =
     (if \<not> fc_close_flag c then
        (case chan_close (fc_packets c) of
           None \<Rightarrow> Panic
         | Some ch \<Rightarrow> Ok (c\<lparr>fc_close_flag := True, fc_packets := ch\<rparr>))
      else Ok c)"

text \<open>A turn of the goroutine of \<^verbatim>\<open>NewFakeUDPConn\<close>, every five seconds: whether it goes on.\<close>

definition fc_expire :: "int \<Rightarrow> 'a fake_udp_conn \<Rightarrow> (unit, 'a fake_udp_conn \<times> bool) go" where
  "fc_expire now c =
     (if (case fc_last_active c of None \<Rightarrow> True | Some t \<Rightarrow> now - t > 10 * 10 ^ 9)
      then go_then (fc_close c) (\<lambda>c. Ok (c, False)) else Ok (c, True))"

record 'a udp_datagram =
  dg_buf :: string
  dg_local_addr :: "'a option"
  dg_remote_addr :: 'a

text \<open>
  \<^verbatim>\<open>UDPListener\<close>: the connections live in \<open>ul_heap\<close>, \<open>ul_fake_conns\<close> is the table. \<open>ul_read_conn\<close> is the
  field of that name, which \<^verbatim>\<open>ListenUDP\<close> leaves nil; \<open>ul_socket_open\<close> is the socket its goroutines use.
\<close>

record 'a udp_listener =
  ul_addr :: 'a
  ul_accept_ch :: "nat chan"
  ul_write_ch :: "'a udp_datagram chan"
  ul_read_conn :: bool
  ul_socket_open :: bool
  ul_close_flag :: bool
  ul_fake_conns :: "string \<rightharpoonup> nat"
  ul_heap :: "nat \<rightharpoonup> 'a fake_udp_conn"
  ul_next :: nat

definition listen_udp :: "'a \<Rightarrow> bool \<Rightarrow> 'a udp_listener" where
  "listen_udp udpAddr listen_ok =
     \<lparr>ul_addr = udpAddr, ul_accept_ch = make_chan 0, ul_write_ch = make_chan 1000, ul_read_conn = False,
      ul_socket_open = listen_ok, ul_close_flag = False, ul_fake_conns = Map.empty, ul_heap = Map.empty, ul_next = 0\<rparr>"

text \<open>
  A turn of the reading goroutine up to its send to \<^verbatim>\<open>acceptCh\<close>: the connection it offers, \<open>None\<close> at the
  end. \<open>addr_str\<close> is the text of an address.
\<close>

definition ul_read_turn ::
    "('a \<Rightarrow> string) \<Rightarrow> ('a \<times> string) option \<Rightarrow> 'a udp_listener \<Rightarrow> (unit, 'a udp_listener \<times> nat option) go" where
  "ul_read_turn addr_str got l =
     (case got of
        None \<Rightarrow>
          (case chan_close (ul_accept_ch l) of
             None \<Rightarrow> Panic
           | Some acceptCh \<Rightarrow>
               (case chan_close (ul_write_ch l) of
                  None \<Rightarrow> Panic
                | Some writeCh \<Rightarrow> Ok (l\<lparr>ul_accept_ch := acceptCh, ul_write_ch := writeCh\<rparr>, None)))
      | Some (remoteAddr, datagram) \<Rightarrow>
          let key = addr_str remoteAddr;
              existing = (case ul_fake_conns l key of
                            None \<Rightarrow> None
                          | Some i \<Rightarrow> (case ul_heap l i of None \<Rightarrow> None | Some c \<Rightarrow> if fc_close_flag c then None else Some (i, c)));
              (l, i, c) = (case existing of
                            Some (i, c) \<Rightarrow> (l, i, c)
                          | None \<Rightarrow> (l\<lparr>ul_fake_conns := (ul_fake_conns l)(key \<mapsto> ul_next l), ul_next := Suc (ul_next l)\<rparr>,
                                     ul_next l, new_fake_udp_conn (ul_addr l) remoteAddr))
          in Ok (l\<lparr>ul_heap := (ul_heap l)(i \<mapsto> fc_put_packet (take 1450 datagram) c)\<rparr>, Some i))"

text \<open>\<^verbatim>\<open>writeUDPPacket\<close>: \<open>None\<close> while it waits, otherwise whether there was no error.\<close>

definition ul_write_udp_packet :: "'a udp_datagram \<Rightarrow> 'a udp_listener \<Rightarrow> ('a udp_listener \<times> bool) option" where
  "ul_write_udp_packet packet l =
     (case chan_send packet (ul_write_ch l) of
        Sent ch \<Rightarrow> Some (l\<lparr>ul_write_ch := ch\<rparr>, True)
      | SendBlocks \<Rightarrow> None
      | SendPanics \<Rightarrow> Some (l, False))"

definition ul_write_msg :: "string \<Rightarrow> 'a \<Rightarrow> 'a udp_listener \<Rightarrow> ('a udp_listener \<times> bool) option" where
  "ul_write_msg buf remoteAddr l =
     ul_write_udp_packet \<lparr>dg_buf = buf, dg_local_addr = None, dg_remote_addr = remoteAddr\<rparr> l"

text \<open>\<^verbatim>\<open>Write\<close> of a connection: the number of bytes, \<open>None\<close> as the number for a closed one.\<close>

definition fc_write :: "int \<Rightarrow> string \<Rightarrow> nat \<Rightarrow> 'a udp_listener \<Rightarrow> ('a udp_listener \<times> nat option) option" where
  "fc_write now b i l =
     (case ul_heap l i of
        None \<Rightarrow> Some (l, None)
      | Some c \<Rightarrow>
          if fc_close_flag c then Some (l, None)
          else
            (case ul_write_udp_packet \<lparr>dg_buf = b, dg_local_addr = Some (fc_local_addr c), dg_remote_addr = fc_remote_addr c\<rparr> l of
               None \<Rightarrow> None
             | Some (l, _) \<Rightarrow> Some (l\<lparr>ul_heap := (ul_heap l)(i \<mapsto> c\<lparr>fc_last_active := Some now\<rparr>)\<rparr>, Some (length b))))"

definition ul_close :: "'a udp_listener \<Rightarrow> 'a udp_listener" where
  "ul_close l =
     (if \<not> ul_close_flag l
      then l\<lparr>ul_close_flag := True, ul_socket_open := (if ul_read_conn l then False else ul_socket_open l)\<rparr>
      else l)"

definition fc_is_closed :: "'a fake_udp_conn \<Rightarrow> bool" where
  "fc_is_closed c = fc_close_flag c"

text \<open>
  A turn of the writing goroutine: \<open>None\<close> while it waits, otherwise the datagram that goes to the socket, none
  at the end. \<open>is_udp\<close> says which addresses are of type \<^verbatim>\<open>*net.UDPAddr\<close>.
\<close>

definition ul_writer_turn ::
    "('a \<Rightarrow> bool) \<Rightarrow> 'a udp_listener \<Rightarrow> ('a udp_listener \<times> (string \<times> 'a) option \<times> bool) option" where
  "ul_writer_turn is_udp l =
     (case chan_recv (ul_write_ch l) of
        RecvBlocks \<Rightarrow> None
      | RecvClosed \<Rightarrow> Some (l, None, False)
      | Received packet ch \<Rightarrow>
          Some (l\<lparr>ul_write_ch := ch\<rparr>,
                if is_udp (dg_remote_addr packet) then Some (dg_buf packet, dg_remote_addr packet) else None, True))"

text \<open>\<^verbatim>\<open>Accept\<close> takes the connection that the reader offers; \<open>Some None\<close> is the error of a closed channel.\<close>

definition ul_accept :: "nat option \<Rightarrow> 'a udp_listener \<Rightarrow> nat option option" where
  "ul_accept offered l =
     (if is_closed (ul_accept_ch l) then Some None else map_option Some offered)"

text \<open>What a connection of the listener writes is sent to its own address, in order.\<close>

lemma fc_write_sent:
  assumes "ul_heap l i = Some c" and "\<not> fc_is_closed c" and "ul_write_ch l = OpenChan n []" and "0 < n"
    and "is_udp (fc_remote_addr c)"
  shows "\<exists>l' l''. fc_write now b i l = Some (l', Some (length b)) \<and>
           ul_writer_turn is_udp l' = Some (l'', Some (b, fc_remote_addr c), True)"
  using assms by (simp add: fc_write_def fc_is_closed_def ul_write_udp_packet_def ul_writer_turn_def)

text \<open>Closing the listener does not close its socket, so that its goroutines never end.\<close>

lemma udp_listener_close_keeps_socket: "ul_socket_open (ul_close (listen_udp a True))"
  by (simp add: ul_close_def listen_udp_def)

text \<open>A connection whose first datagram is read only after five seconds is closed before that.\<close>

lemma unread_conn_expires:
  "\<exists>c. fc_expire now (fc_put_packet d (new_fake_udp_conn l r)) = Ok (c, False) \<and> fc_close_flag c"
  by (simp add: fc_expire_def fc_put_packet_def new_fake_udp_conn_def fc_close_def make_chan_def)

section \<open>The KCP listener\<close>

text \<open>
  \<^verbatim>\<open>KCPListener\<close>, with whether the library's listener is open, and a turn of its goroutine: what
  \<^verbatim>\<open>AcceptKCP\<close> gives, the connection that is then offered to \<^verbatim>\<open>acceptCh\<close>, and whether the goroutine goes
  on. An error of an open listener only makes it try again.
\<close>

record 'c kcp_listener =
  kl_open :: bool
  kl_accept_ch :: "'c chan"
  kl_close_flag :: bool

definition listen_kcp :: "bool \<Rightarrow> 'c kcp_listener option" where
  "listen_kcp listen_ok =
     (if \<not> listen_ok then None else Some \<lparr>kl_open = True, kl_accept_ch = make_chan 0, kl_close_flag = False\<rparr>)"

definition kl_turn :: "'c option \<Rightarrow> 'c kcp_listener \<Rightarrow> (unit, 'c kcp_listener \<times> 'c option \<times> bool) go" where
  "kl_turn got l =
     (case got of
        None \<Rightarrow>
          if kl_close_flag l then
            (case chan_close (kl_accept_ch l) of None \<Rightarrow> Panic | Some ch \<Rightarrow> Ok (l\<lparr>kl_accept_ch := ch\<rparr>, None, False))
          else Ok (l, None, True)
      | Some conn \<Rightarrow> Ok (l, Some conn, True))"

definition kl_close :: "'c kcp_listener \<Rightarrow> 'c kcp_listener" where
  "kl_close l = (if \<not> kl_close_flag l then l\<lparr>kl_close_flag := True, kl_open := False\<rparr> else l)"

text \<open>Turns until the goroutine ends, with the listener closed at some of them: the connections it offered.\<close>

fun kl_turns :: "(bool \<times> 'c option) list \<Rightarrow> 'c kcp_listener \<Rightarrow> (unit, 'c kcp_listener \<times> 'c list \<times> bool) go" where
  "kl_turns [] l = Ok (l, [], True)"
| "kl_turns ((closing, got) # ts) l =
     go_then (kl_turn got (if closing then kl_close l else l)) (\<lambda>(l', offered, goes_on).
       if goes_on then
         go_then (kl_turns ts l') (\<lambda>(l'', cs, on). Ok (l'', (case offered of None \<Rightarrow> cs | Some c \<Rightarrow> c # cs), on))
       else Ok (l', [], False))"

text \<open>
  The channel is closed exactly when the goroutine ends, which is at the first error after \<^verbatim>\<open>Close\<close>,
  and never a second time.
\<close>

lemma kcp_listener_ends:
  assumes "is_open (kl_accept_ch l)"
  shows "\<exists>l' cs on. kl_turns ts l = Ok (l', cs, on) \<and> is_open (kl_accept_ch l') = on \<and> (\<not> on \<longrightarrow> kl_close_flag l')"
  using assms
proof (induction ts arbitrary: l)
  case (Cons t ts)
  obtain closing got where t: "t = (closing, got)" by (cases t)
  let ?l = "if closing then kl_close l else l"
  have open_ch: "is_open (kl_accept_ch ?l)" using Cons.prems by (simp add: kl_close_def)
  show ?case
  proof (cases "got = None \<and> kl_close_flag ?l")
    case True
    from chan_close_open [OF open_ch] obtain ch where ch: "chan_close (kl_accept_ch ?l) = Some ch" "is_closed ch" by blast
    with True show ?thesis using is_closed_not_open by (auto simp: t kl_turn_def split del: if_split)
  next
    case False
    then obtain off where "kl_turn got ?l = Ok (?l, off, True)"
      by (cases got) (auto simp: kl_turn_def split del: if_split)
    with Cons.IH [OF open_ch] show ?thesis by (auto simp: t split del: if_split)
  qed
qed simp

end
