(* ===== verification/Server_Conns.thy ===== *)
theory Server_Conns
  imports Server_Proxies Net_Conns Udp_Forward
begin

text \<open>
  What the server's proxies do with work connections beside \<^verbatim>\<open>HandleUserTCPConnection\<close>: the connection of
  an HTTP request with its statistics (\<^verbatim>\<open>frp/server/proxy/http.go\<close>), the goroutines of a UDP proxy
  (\<^verbatim>\<open>frp/server/proxy/udp.go\<close>) and the answers to NAT hole requests (\<^verbatim>\<open>frp/server/proxy/xtcp.go\<close>).
\<close>

section \<open>The connection of an HTTP request\<close>

text \<open>
  \<^verbatim>\<open>GetRealConn\<close>; \<open>RealConn\<close> has the work connection, the key it is encrypted with and whether it is
  compressed. When the encryption fails the work connection is left open.
\<close>

datatype 'c real_conn =
    RealNoWorkConn
  | RealNoEncryption "'c option"
  | RealConn "'c option" "string option" bool

definition get_real_conn ::
    "('c \<Rightarrow> bool) \<Rightarrow> 'c option list \<Rightarrow> (string \<Rightarrow> bool) \<Rightarrow> server_common_conf \<Rightarrow> server_proxy \<Rightarrow> server_statistics \<Rightarrow>
     'c real_conn \<times> server_statistics" where
  "get_real_conn write_ok got enc_ok svr pxy stats =
     (let cfg = get_base_info (sp_conf pxy); token = tk_token (as_token (sc_auth svr)) in
      case fst (get_work_conn_from_pool write_ok got pxy) of
        WorkConnFailed \<Rightarrow> (RealNoWorkConn, stats)
      | WorkConn tmpConn \<Rightarrow>
          if bp_use_encryption cfg \<and> \<not> enc_ok token then (RealNoEncryption tmpConn, stats)
          else (RealConn tmpConn (if bp_use_encryption cfg then Some token else None) (bp_use_compression cfg),
                sm_open_connection (sp_name pxy) (bp_proxy_type cfg) stats))"

definition update_stats_after_closed_conn ::
    "(int \<Rightarrow> int) \<Rightarrow> int \<Rightarrow> server_proxy \<Rightarrow> 64 word \<times> 64 word \<Rightarrow> server_statistics \<Rightarrow> server_statistics" where
  "update_stats_after_closed_conn midnight now pxy totals stats =
     (let name = sp_name pxy; proxyType = bp_proxy_type (get_base_info (sp_conf pxy));
          stats = sm_close_connection name proxyType stats;
          stats = sm_add_traffic_in midnight now name proxyType (snd totals) stats
      in sm_add_traffic_out midnight now name proxyType (fst totals) stats)"

text \<open>The statistics after a connection was used; the calls of its \<^verbatim>\<open>statsFunc\<close> are \<open>update_stats_after_closed_conn\<close>.\<close>

definition stats_after_use ::
    "(int \<Rightarrow> int) \<Rightarrow> int \<Rightarrow> server_proxy \<Rightarrow> conn_use list \<Rightarrow> server_statistics \<Rightarrow> server_statistics" where
  "stats_after_use midnight now pxy us stats =
     fold (update_stats_after_closed_conn midnight now pxy) (sn_calls (fold sn_use us wrap_stats_conn)) stats"

lemma cur_conns_open: "ss_cur_conns (sm_open_connection n t m) = ss_cur_conns m + 1"
  by (simp add: sm_open_connection_def counter_inc_def upd_stats_def split: option.split)

lemma cur_conns_update: "ss_cur_conns (update_stats_after_closed_conn midnight now pxy totals m) = ss_cur_conns m - 1"
  by (simp add: update_stats_after_closed_conn_def sm_close_connection_def sm_add_traffic_in_def sm_add_traffic_out_def
      counter_dec_def upd_stats_def Let_def split: option.split)

text \<open>The connection of an HTTP request is counted as open from the moment it is handed to the reverse
  proxy until it is first closed, and not longer, however often it is closed: its bytes, the written
  ones as incoming and the read ones as outgoing traffic, are added once, as they were at that moment.\<close>

theorem http_conn_counted_once:
  assumes "get_real_conn write_ok got enc_ok svr pxy stats = (RealConn c key cps, stats1)" and "UseClose \<notin> set us"
  shows "stats_after_use midnight now pxy us stats1 = stats1 \<and> ss_cur_conns stats1 = ss_cur_conns stats + 1 \<and>
         stats_after_use midnight now pxy (us @ UseClose # vs) stats1 =
           update_stats_after_closed_conn midnight now pxy
             (of_nat (sum_list (map bytes_read us)), of_nat (sum_list (map bytes_written us))) stats1 \<and>
         ss_cur_conns (stats_after_use midnight now pxy (us @ UseClose # vs) stats1) = ss_cur_conns stats"
proof -
  have open1: "ss_cur_conns stats1 = ss_cur_conns stats + 1"
    using assms(1) by (auto simp: get_real_conn_def cur_conns_open Let_def split: work_conn_result.split_asm if_split_asm)
  have "stats_after_use midnight now pxy us stats1 = stats1"
    using sn_uses_open [OF assms(2), of wrap_stats_conn] by (simp add: stats_after_use_def wrap_stats_conn_def)
  with open1 show ?thesis
    unfolding stats_after_use_def stats_reported_once [OF assms(2)] by (simp add: cur_conns_update)
qed

lemma http_conn_counted_once_witness:
  "\<forall>cfg. let pxy = new_proxy \<lparr>ui_user = ''u'', ui_metas = None, ui_run_id = ''r''\<rparr> 1 (HTTPConf cfg);
       stats = new_server_metrics (\<lambda>t. t) 0;
       stats1 = snd (get_real_conn (\<lambda>_. True) [Some (7 :: nat)] (\<lambda>_. True) get_default_server_conf pxy stats)
   in ss_cur_conns stats1 = 1 \<and>
      ss_cur_conns (stats_after_use (\<lambda>t. t) 3 pxy ([UseRead 5, UseWrite 2] @ UseClose # [UseClose]) stats1) = 0"
proof
  fix cfg
  let ?pxy = "new_proxy \<lparr>ui_user = ''u'', ui_metas = None, ui_run_id = ''r''\<rparr> 1 (HTTPConf cfg)"
  let ?stats = "new_server_metrics (\<lambda>t. t) 0"
  obtain key cps stats1 where r: "get_real_conn (\<lambda>_. True) [Some (7 :: nat)] (\<lambda>_. True) get_default_server_conf ?pxy ?stats =
      (RealConn (Some 7) key cps, stats1)"
    by (simp add: get_real_conn_def get_work_conn_from_pool_def new_proxy_def Let_def numeral_2_eq_2)
  have z: "ss_cur_conns ?stats = 0" by (simp add: new_server_metrics_def new_counter_def)
  have plain: "UseClose \<notin> set [UseRead 5, UseWrite 2]" by simp
  note t = http_conn_counted_once [OF r plain, of "\<lambda>t. t" 3 "[UseClose]"]
  from t z have "ss_cur_conns stats1 = 1" by simp
  moreover from t [THEN conjunct2, THEN conjunct2, THEN conjunct2] z
  have "ss_cur_conns (stats_after_use (\<lambda>t. t) 3 ?pxy ([UseRead 5, UseWrite 2] @ UseClose # [UseClose]) stats1) = 0"
    by (simp only:)
  ultimately show "let pxy = ?pxy; stats = ?stats;
       stats1 = snd (get_real_conn (\<lambda>_. True) [Some (7 :: nat)] (\<lambda>_. True) get_default_server_conf pxy stats)
   in ss_cur_conns stats1 = 1 \<and>
      ss_cur_conns (stats_after_use (\<lambda>t. t) 3 pxy ([UseRead 5, UseWrite 2] @ UseClose # [UseClose]) stats1) = 0"
    by (simp only: Let_def r snd_conv)
qed

section \<open>The goroutines of a UDP proxy\<close>

text \<open>
  The loop that gets work connections is \<open>Seeking\<close> one, \<open>Waiting\<close> for its reader to fail, or \<open>Ended\<close>.
  \<open>ud_reader\<close> and \<open>ud_sender\<close> say whether the goroutines of the current connection run; a sender also
  ends when its context is cancelled. \<open>ud_closed_conns\<close> are the work connections that were closed.
\<close>

datatype udp_phase = Seeking | Waiting | Ended

record ('a, 'c) udp_session =
  ud_phase :: udp_phase
  ud_work_conn :: "'c option"
  ud_layers :: "string option \<times> bool"
  ud_read_ch :: "'a udp_packet_msg chan"
  ud_send_ch :: "'a udp_packet_msg chan"
  ud_check_close_ch :: "int chan"
  ud_is_closed :: bool
  ud_udp_open :: bool
  ud_reader :: bool
  ud_sender :: bool
  ud_closed_conns :: "'c list"

definition new_udp_session :: "('a, 'c) udp_session" where
  "new_udp_session =
     \<lparr>ud_phase = Seeking, ud_work_conn = None, ud_layers = (None, False), ud_read_ch = make_chan 1024,
      ud_send_ch = make_chan 1024, ud_check_close_ch = make_chan 0, ud_is_closed = False, ud_udp_open = True,
      ud_reader = False, ud_sender = False, ud_closed_conns = []\<rparr>"

text \<open>
  A turn of the loop with what the search for a connection gives. Without one the loop ends if the
  proxy is closed; with one the old connection is closed and the new one wrapped and used.
\<close>

definition udp_seek_turn ::
    "(string \<Rightarrow> bool) \<Rightarrow> string \<Rightarrow> base_proxy_conf \<Rightarrow> 'c option \<Rightarrow> ('a, 'c) udp_session \<Rightarrow> ('a, 'c) udp_session" where
  "udp_seek_turn enc_ok token cfg found s =
     (case found of
        None \<Rightarrow> if is_closed (ud_check_close_ch s) then s\<lparr>ud_phase := Ended\<rparr> else s
      | Some workConn \<Rightarrow>
          let s = s\<lparr>ud_closed_conns := ud_closed_conns s @ (case ud_work_conn s of None \<Rightarrow> [] | Some c \<Rightarrow> [c])\<rparr> in
          if bp_use_encryption cfg \<and> \<not> enc_ok token
          then s\<lparr>ud_closed_conns := ud_closed_conns s @ [workConn]\<rparr>
          else s\<lparr>ud_work_conn := Some workConn,
                 ud_layers := (if bp_use_encryption cfg then Some token else None, bp_use_compression cfg),
                 ud_reader := True, ud_sender := True, ud_phase := Waiting\<rparr>)"

text \<open>The loop finds the channel closed while it waits: it cancels the sender and ends.\<close>

definition udp_wait_closed :: "('a, 'c) udp_session \<Rightarrow> ('a, 'c) udp_session" where
  "udp_wait_closed s =
     (if ud_phase s = Waiting \<and> is_closed (ud_check_close_ch s) then s\<lparr>ud_phase := Ended, ud_sender := False\<rparr> else s)"

text \<open>
  A turn of the reader: \<open>None\<close> is an error of the connection. Then it closes the connection and tells
  the loop, which cancels the sender and seeks a new one; a loop that does not wait leaves the reader
  waiting. A packet goes to the channel and its text is counted as outgoing traffic.
\<close>

definition server_udp_reader_turn ::
    "(int \<Rightarrow> int) \<Rightarrow> int \<Rightarrow> string \<Rightarrow> string \<Rightarrow> 'a message option \<Rightarrow> ('a, 'c) udp_session \<Rightarrow> server_statistics \<Rightarrow>
     ('a, 'c) udp_session \<times> server_statistics" where
  "server_udp_reader_turn midnight now name proxyType got s stats =
     (let close_conn = (\<lambda>s. s\<lparr>ud_closed_conns := ud_closed_conns s @ (case ud_work_conn s of None \<Rightarrow> [] | Some c \<Rightarrow> [c])\<rparr>) in
      case got of
        None \<Rightarrow>
          (let s = close_conn s in
           if is_closed (ud_check_close_ch s) then s\<lparr>ud_reader := False\<rparr>
           else if ud_phase s = Waiting then s\<lparr>ud_reader := False, ud_sender := False, ud_phase := Seeking\<rparr>
           else s, stats)
      | Some (MUDPPacket m) \<Rightarrow>
          (case chan_send m (ud_read_ch s) of
             Sent ch \<Rightarrow> (s\<lparr>ud_read_ch := ch\<rparr>,
                         sm_add_traffic_out midnight now name proxyType (of_nat (length (up_content m))) stats)
           | SendBlocks \<Rightarrow> (s, stats)
           | SendPanics \<Rightarrow> ((close_conn s)\<lparr>ud_reader := False\<rparr>, stats))
      | Some _ \<Rightarrow> (s, stats))"

definition server_udp_sender_turn ::
    "(int \<Rightarrow> int) \<Rightarrow> int \<Rightarrow> string \<Rightarrow> string \<Rightarrow> ('a udp_packet_msg \<Rightarrow> bool) \<Rightarrow> ('a, 'c) udp_session \<Rightarrow> server_statistics \<Rightarrow>
     ('a, 'c) udp_session \<times> server_statistics" where
  "server_udp_sender_turn midnight now name proxyType write_ok s stats =
     (case chan_recv (ud_send_ch s) of
        RecvClosed \<Rightarrow> (s\<lparr>ud_sender := False\<rparr>, stats)
      | RecvBlocks \<Rightarrow> (s, stats)
      | Received m ch \<Rightarrow>
          let s = s\<lparr>ud_send_ch := ch\<rparr> in
          if write_ok m
          then (s, sm_add_traffic_in midnight now name proxyType (of_nat (length (up_content m))) stats)
          else (s\<lparr>ud_sender := False,
                  ud_closed_conns := ud_closed_conns s @ (case ud_work_conn s of None \<Rightarrow> [] | Some c \<Rightarrow> [c])\<rparr>, stats))"

text \<open>The part of \<^verbatim>\<open>Close\<close> on the session; the ports and listeners are \<open>udp_close\<close>.\<close>

definition udp_session_close :: "('a, 'c) udp_session \<Rightarrow> (unit, ('a, 'c) udp_session) go" where
  "udp_session_close s =
     (if \<not> ud_is_closed s then
        (let s = s\<lparr>ud_is_closed := True, ud_udp_open := False,
                   ud_closed_conns := ud_closed_conns s @ (case ud_work_conn s of None \<Rightarrow> [] | Some c \<Rightarrow> [c])\<rparr> in
         case chan_close (ud_check_close_ch s) of
           None \<Rightarrow> Panic
         | Some checkCloseCh \<Rightarrow>
             (case chan_close (ud_read_ch s) of
                None \<Rightarrow> Panic
              | Some readCh \<Rightarrow>
                  (case chan_close (ud_send_ch s) of
                     None \<Rightarrow> Panic
                   | Some sendCh \<Rightarrow>
                       Ok (s\<lparr>ud_check_close_ch := checkCloseCh, ud_read_ch := readCh, ud_send_ch := sendCh\<rparr>))))
      else Ok s)"

text \<open>
  A read of \<^verbatim>\<open>ForwardUserConn\<close> from the users' socket: \<open>None\<close> is an error, after which the proxy is
  closed. A full channel drops the packet. Sending to a closed channel panics, and nothing recovers it.
\<close>

definition udp_user_datagram :: "nat \<Rightarrow> (string \<times> 'a) option \<Rightarrow> ('a, 'c) udp_session \<Rightarrow> (unit, ('a, 'c) udp_session) go" where
  "udp_user_datagram bufSize got s =
     (case got of
        None \<Rightarrow> udp_session_close s
      | Some (datagram, raddr) \<Rightarrow>
          (case chan_try_send (new_udp_packet (take bufSize datagram) None (Some raddr)) (ud_send_ch s) of
             None \<Rightarrow> Panic
           | Some ch \<Rightarrow> Ok (s\<lparr>ud_send_ch := ch\<rparr>)))"

inductive udp_session_run :: "('a, 'c) udp_session \<Rightarrow> bool" where
  session_new: "udp_session_run new_udp_session"
| session_seek: "udp_session_run s \<Longrightarrow> ud_phase s = Seeking \<Longrightarrow> udp_session_run (udp_seek_turn enc_ok token cfg found s)"
| session_wait: "udp_session_run s \<Longrightarrow> udp_session_run (udp_wait_closed s)"
| session_reader: "udp_session_run s \<Longrightarrow> ud_reader s \<Longrightarrow>
    udp_session_run (fst (server_udp_reader_turn midnight now name t got s stats))"
| session_sender: "udp_session_run s \<Longrightarrow> ud_sender s \<Longrightarrow>
    udp_session_run (fst (server_udp_sender_turn midnight now name t write_ok s stats))"
| session_datagram: "udp_session_run s \<Longrightarrow> udp_user_datagram bufSize got s = Ok s' \<Longrightarrow> udp_session_run s'"
| session_close: "udp_session_run s \<Longrightarrow> udp_session_close s = Ok s' \<Longrightarrow> udp_session_run s'"

definition udp_session_inv :: "('a, 'c) udp_session \<Rightarrow> bool" where
  "udp_session_inv s \<longleftrightarrow>
     (if ud_is_closed s
      then is_closed (ud_check_close_ch s) \<and> is_closed (ud_read_ch s) \<and> is_closed (ud_send_ch s) \<and> \<not> ud_udp_open s
      else is_open (ud_check_close_ch s) \<and> is_open (ud_read_ch s) \<and> is_open (ud_send_ch s))"

lemma udp_session_close_inv:
  "udp_session_inv s \<Longrightarrow> \<exists>s'. udp_session_close s = Ok s' \<and> udp_session_inv s' \<and> ud_is_closed s'"
  using chan_close_open [of "ud_check_close_ch s"] chan_close_open [of "ud_read_ch s"] chan_close_open [of "ud_send_ch s"]
  by (auto simp: udp_session_close_def udp_session_inv_def Let_def split: if_split_asm)

lemma udp_session_inv_same:
  assumes "udp_session_inv s" and "ud_is_closed s' = ud_is_closed s" and "ud_udp_open s' = ud_udp_open s"
    and "is_open (ud_check_close_ch s') = is_open (ud_check_close_ch s) \<and> is_closed (ud_check_close_ch s') = is_closed (ud_check_close_ch s)"
    and "is_open (ud_read_ch s') = is_open (ud_read_ch s) \<and> is_closed (ud_read_ch s') = is_closed (ud_read_ch s)"
    and "is_open (ud_send_ch s') = is_open (ud_send_ch s) \<and> is_closed (ud_send_ch s') = is_closed (ud_send_ch s)"
  shows "udp_session_inv s'"
  using assms by (simp add: udp_session_inv_def)

lemma chan_send_same: "chan_send m ch = Sent ch' \<Longrightarrow> is_open ch' = is_open ch \<and> is_closed ch' = is_closed ch"
  by (cases ch) (auto split: if_split_asm)

lemma udp_session_run_inv: "udp_session_run s \<Longrightarrow> udp_session_inv s"
proof (induction rule: udp_session_run.induct)
  case session_new
  show ?case by (simp add: udp_session_inv_def new_udp_session_def)
next
  case (session_seek s enc_ok token cfg found)
  show ?case
    by (rule udp_session_inv_same [OF session_seek.IH]) (auto simp: udp_seek_turn_def Let_def split: option.split)
next
  case (session_wait s)
  show ?case by (rule udp_session_inv_same [OF session_wait.IH]) (auto simp: udp_wait_closed_def)
next
  case (session_reader s midnight now name t got stats)
  show ?case
    by (rule udp_session_inv_same [OF session_reader.IH])
      (auto simp: server_udp_reader_turn_def Let_def dest: chan_send_same
        split: option.split message.split send_result.split)
next
  case (session_sender s midnight now name t write_ok stats)
  show ?case
    by (rule udp_session_inv_same [OF session_sender.IH])
      (auto simp: server_udp_sender_turn_def Let_def dest: chan_recv_open split: recv_result.split)
next
  case (session_datagram s bufSize got s')
  show ?case
  proof (cases got)
    case None
    with session_datagram udp_session_close_inv [of s] show ?thesis by (auto simp: udp_user_datagram_def)
  next
    case (Some d)
    with session_datagram.hyps show ?thesis
      by (intro udp_session_inv_same [OF session_datagram.IH])
        (auto simp: udp_user_datagram_def dest: chan_try_send_open split: prod.split_asm option.split_asm)
  qed
next
  case (session_close s s')
  with udp_session_close_inv [of s] show ?case by auto
qed

text \<open>
  However often and by whomever a UDP proxy is closed, its channels are closed once. The reader's
  packets never panic, but a datagram of a user that was read before the proxy was closed does.
\<close>

lemma udp_session_close_safe: "udp_session_run s \<Longrightarrow> udp_session_close s \<noteq> Panic"
  using udp_session_close_inv [OF udp_session_run_inv] by force

lemma udp_late_datagram_panics:
  "udp_session_run s \<Longrightarrow> ud_is_closed s \<Longrightarrow> udp_user_datagram bufSize (Some (datagram, raddr)) s = Panic"
  using udp_session_run_inv [of s] by (cases "ud_send_ch s") (auto simp: udp_session_inv_def udp_user_datagram_def)

text \<open>
  \<^verbatim>\<open>Close\<close> is called again when \<^verbatim>\<open>ForwardUserConn\<close> returns, and gives the port back again, whoever has it
  by then.
\<close>

lemma udp_second_close_releases:
  assumes "sp_conf pxy = UDPConf c" and "sp_is_closed pxy"
  shows "\<exists>re'. proxy_close now pxy re = Ok (pxy, re') \<and> sp_real_port pxy \<notin> dom (pm_used (re_udp_ports re'))"
  using assms
  by (auto simp: proxy_close.simps udp_close_def release_udp_def release_def domIff split: option.split)

text \<open>The traffic of a UDP proxy is counted in characters of the base64 text, not in bytes.\<close>

lemma udp_traffic_is_base64:
  assumes "ud_read_ch s = OpenChan n ms" and "length ms < n"
  shows "snd (server_udp_reader_turn midnight now name t (Some (MUDPPacket (new_udp_packet buf l r))) s stats) =
    sm_add_traffic_out midnight now name t (of_nat (length (b64_encode buf))) stats"
  using assms by (simp add: server_udp_reader_turn_def new_udp_packet_def)

section \<open>NAT hole requests\<close>

text \<open>
  A turn of the goroutine of an XTCP proxy with a request's session id, and what the search for a work
  connection gives: the message sent, the connections closed, and whether the visitor is notified.
  \<open>answer\<close> is the client's message. The \<^verbatim>\<open>break\<close> after a failed write only leaves the \<^verbatim>\<open>select\<close>.
\<close>

definition xtcp_sid_turn ::
    "string \<Rightarrow> 'c option \<Rightarrow> bool \<Rightarrow> 'a message option \<Rightarrow> nat_hole_sid_msg option \<times> 'c list \<times> bool" where
  "xtcp_sid_turn sid found write_ok answer =
     (case found of
        None \<Rightarrow> (None, [], False)
      | Some workConn \<Rightarrow>
          let m = \<lparr>hs_sid = sid\<rparr> in
          if \<not> write_ok then (Some m, [workConn], False)
          else
            (case answer of
               Some MNatHoleClientDetectOK \<Rightarrow> (Some m, [], True)
             | _ \<Rightarrow> (Some m, [workConn], False)))"

section \<open>The NAT hole controller's socket\<close>

text \<open>
  A turn of \<^verbatim>\<open>Run\<close> of \<^verbatim>\<open>frp/pkg/nathole/nathole.go\<close> with the datagram that was read, \<open>None\<close> for an
  error, and \<open>parse\<close> for \<^verbatim>\<open>msg.ReadMsg\<close> on its first 1024 bytes: what is started with it.
\<close>

datatype 'a nh_turn = NhReturns | NhContinues | NhVisitor nat_hole_visitor_msg 'a | NhClient nat_hole_client_msg 'a

definition nh_run_turn :: "(string \<Rightarrow> 'x message option) \<Rightarrow> (string \<times> 'a) option \<Rightarrow> 'a nh_turn" where
  "nh_run_turn parse got =
     (case got of
        None \<Rightarrow> NhReturns
      | Some (datagram, raddr) \<Rightarrow>
          (case parse (take 1024 datagram) of
             Some (MNatHoleVisitor m) \<Rightarrow> NhVisitor m raddr
           | Some (MNatHoleClient m) \<Rightarrow> NhClient m raddr
           | _ \<Rightarrow> NhContinues))"

end
