(* ===== verification/Service_Setup.thy ===== *)
theory Service_Setup
  imports Service Net_Conns
begin

text \<open>
  Setting up frps: \<^verbatim>\<open>NewService\<close>, \<^verbatim>\<open>Run\<close> and \<^verbatim>\<open>HandleListener\<close> of \<^verbatim>\<open>frp/server/service.go\<close>, and the TLS
  configurations of \<^verbatim>\<open>frp/pkg/transport/tls.go\<close>. Whether the system opens a listener, and what the
  files of certificates hold, are arguments.
\<close>

section \<open>TLS configurations\<close>

text \<open>\<open>tk_pair\<close> reads a certificate with its key, \<open>tk_random\<close> is a fresh self-signed one, \<open>tk_pool\<close> reads a CA file.\<close>

record ('k, 'p) tls_files =
  tk_pair :: "string \<Rightarrow> string \<Rightarrow> string + 'k"
  tk_random :: 'k
  tk_pool :: "string \<Rightarrow> string + 'p"

record ('k, 'p) tls_config =
  tl_certificate :: "'k option"
  tl_client_cas :: "'p option"
  tl_root_cas :: "'p option"
  tl_server_name :: string
  tl_insecure_skip_verify :: bool

definition zero_tls_config :: "('k, 'p) tls_config" where
  "zero_tls_config =
     \<lparr>tl_certificate = None, tl_client_cas = None, tl_root_cas = None, tl_server_name = [], tl_insecure_skip_verify = False\<rparr>"

text \<open>\<^verbatim>\<open>NewServerTLSConfig\<close>; a configuration with client CAs requires and verifies the client's certificate.\<close>

definition new_server_tls_config ::
    "('k, 'p) tls_files \<Rightarrow> string \<Rightarrow> string \<Rightarrow> string \<Rightarrow> string + ('k, 'p) tls_config" where
  "new_server_tls_config files certPath keyPath caPath =
     (case (if certPath = [] \<or> keyPath = [] then Inr (tk_random files) else tk_pair files certPath keyPath) of
        Inl e \<Rightarrow> Inl e
      | Inr cert \<Rightarrow>
          let base = zero_tls_config\<lparr>tl_certificate := Some cert\<rparr> in
          if caPath = [] then Inr base
          else (case tk_pool files caPath of Inl e \<Rightarrow> Inl e | Inr pool \<Rightarrow> Inr (base\<lparr>tl_client_cas := Some pool\<rparr>)))"

definition new_client_tls_config ::
    "('k, 'p) tls_files \<Rightarrow> string \<Rightarrow> string \<Rightarrow> string \<Rightarrow> string \<Rightarrow> string + ('k, 'p) tls_config" where
  "new_client_tls_config files certPath keyPath caPath serverName =
     (case (if certPath = [] \<or> keyPath = [] then Inr None
            else (case tk_pair files certPath keyPath of Inl e \<Rightarrow> Inl e | Inr cert \<Rightarrow> Inr (Some cert))) of
        Inl e \<Rightarrow> Inl e
      | Inr cert \<Rightarrow>
          let base = zero_tls_config\<lparr>tl_certificate := cert\<rparr> in
          if caPath = [] then Inr (base\<lparr>tl_insecure_skip_verify := True\<rparr>)
          else
            (case tk_pool files caPath of
               Inl e \<Rightarrow> Inl e
             | Inr pool \<Rightarrow> Inr (base\<lparr>tl_root_cas := Some pool, tl_server_name := serverName,
                                     tl_insecure_skip_verify := False\<rparr>)))"

text \<open>A server verifies its clients, and a client its server, exactly when a CA file is configured.\<close>

lemma tls_verification:
  "new_server_tls_config files cert key ca = Inr t \<Longrightarrow> tl_client_cas t \<noteq> None \<longleftrightarrow> ca \<noteq> []"
  "new_client_tls_config files cert key ca' name = Inr t \<Longrightarrow> tl_insecure_skip_verify t \<longleftrightarrow> ca' = []"
  "new_client_tls_config files cert key ca' name = Inr t \<Longrightarrow> ca' \<noteq> [] \<Longrightarrow> tl_server_name t = name \<and> tl_root_cas t \<noteq> None"
  by (auto simp: new_server_tls_config_def new_client_tls_config_def zero_tls_config_def Let_def
      split: sum.split_asm if_split_asm)

section \<open>\<^verbatim>\<open>NewService\<close>\<close>

text \<open>
  The listeners that a server opens. \<open>MuxedHTTP\<close> and \<open>MuxedHTTPS\<close> are listeners of the multiplexer on the
  main port, which also recognises websocket and TLS connections.
\<close>

datatype frps_listener =
    ListenTCPMux string | ListenMain string | ListenKCP string | MuxedWebsocket | ListenHTTP string | MuxedHTTP
  | ListenHTTPS string | MuxedHTTPS | MuxedTLS | ListenNatHole string | ListenDashboard string

record setup_env =
  se_tls_ok :: "string \<Rightarrow> string \<Rightarrow> string \<Rightarrow> bool"
  se_listen_ok :: "frps_listener \<Rightarrow> bool"
  se_oidc_reachable :: bool
  se_assets_ok :: "string \<Rightarrow> bool"

datatype setup_error = SetupTLS | SetupListen frps_listener | SetupAssets

record frps =
  fs_verifier :: "auth_verifier option"
  fs_resources :: resources
  fs_plugins :: plugin_mgr
  fs_listeners :: "frps_listener list"
  fs_http_reverse_proxy :: bool
  fs_https_muxer :: bool
  fs_tcpmux_muxer :: bool
  fs_not_found_page :: string
  fs_mem_stats :: bool
  fs_prometheus :: bool

definition host_port :: "string \<Rightarrow> int \<Rightarrow> string" where
  "host_port addr port = addr @ '':'' @ int_str port"

text \<open>The listeners in the order they are opened, the first one that the system refuses ends the function.\<close>

definition http_mux_on :: "server_common_conf \<Rightarrow> bool" where
  "http_mux_on cfg \<longleftrightarrow> sc_bind_addr cfg = sc_proxy_bind_addr cfg \<and> sc_bind_port cfg = sc_vhost_http_port cfg"

definition https_mux_on :: "server_common_conf \<Rightarrow> bool" where
  "https_mux_on cfg \<longleftrightarrow> sc_bind_addr cfg = sc_proxy_bind_addr cfg \<and> sc_bind_port cfg = sc_vhost_https_port cfg"

definition setup_listeners :: "server_common_conf \<Rightarrow> frps_listener list" where
  "setup_listeners cfg =
     (if sc_tcpmux_httpconnect_port cfg > 0
      then [ListenTCPMux (host_port (sc_proxy_bind_addr cfg) (sc_tcpmux_httpconnect_port cfg))] else []) @
     [ListenMain (host_port (sc_bind_addr cfg) (sc_bind_port cfg))] @
     (if sc_kcp_bind_port cfg > 0 then [ListenKCP (host_port (sc_bind_addr cfg) (sc_kcp_bind_port cfg))] else []) @
     [MuxedWebsocket] @
     (if sc_vhost_http_port cfg > 0
      then [if http_mux_on cfg then MuxedHTTP else ListenHTTP (host_port (sc_proxy_bind_addr cfg) (sc_vhost_http_port cfg))]
      else []) @
     (if sc_vhost_https_port cfg > 0
      then [if https_mux_on cfg then MuxedHTTPS else ListenHTTPS (host_port (sc_proxy_bind_addr cfg) (sc_vhost_https_port cfg))]
      else []) @
     [MuxedTLS] @
     (if sc_bind_udp_port cfg > 0 then [ListenNatHole (host_port (sc_bind_addr cfg) (sc_bind_udp_port cfg))] else [])"

fun is_muxed :: "frps_listener \<Rightarrow> bool" where
  "is_muxed MuxedWebsocket = True" | "is_muxed MuxedHTTP = True" | "is_muxed MuxedHTTPS = True"
| "is_muxed MuxedTLS = True" | "is_muxed _ = False"

definition first_refused :: "setup_env \<Rightarrow> frps_listener list \<Rightarrow> frps_listener option" where
  "first_refused env ls = find (\<lambda>l. \<not> is_muxed l \<and> \<not> se_listen_ok env l) ls"

text \<open>\<open>names\<close> is the order of the range over the plugins, which are then sorted.\<close>

definition register_plugins :: "(string \<rightharpoonup> http_plugin_options) \<Rightarrow> string list \<Rightarrow> plugin_mgr" where
  "register_plugins plugins names =
     fold (\<lambda>name. pl_register (new_http_plugin_options (the (plugins name)))) (sort names) new_plugin_mgr"

definition setup_resources :: "server_common_conf \<Rightarrow> resources" where
  "setup_resources cfg =
     \<lparr>re_visitors = new_visitor_mgr, re_tcp_groups = new_tcp_group_ctl (new_port_manager (sc_allow_ports cfg)),
      re_http_groups = new_http_group_ctl new_routers, re_tcpmux_groups = new_tcpmux_group_ctl new_muxer,
      re_udp_ports = new_port_manager (sc_allow_ports cfg), re_https_muxer = new_muxer,
      re_nathole = (if sc_bind_udp_port cfg > 0 then Some new_nathole_ctl else None)\<rparr>"

definition new_service ::
    "setup_env \<Rightarrow> string list \<Rightarrow> server_common_conf \<Rightarrow> (unit, setup_error + frps) go" where
  "new_service env names cfg =
     (if \<not> se_tls_ok env (sc_tls_cert_file cfg) (sc_tls_key_file cfg) (sc_tls_trusted_ca_file cfg) then Ok (Inl SetupTLS)
      else
        go_then (new_auth_verifier (se_oidc_reachable env) (sc_auth cfg)) (\<lambda>verifier.
          Ok (case first_refused env (setup_listeners cfg) of
                Some l \<Rightarrow> Inl (SetupListen l)
              | None \<Rightarrow>
                  let svr = \<lparr>fs_verifier = verifier, fs_resources = setup_resources cfg,
                             fs_plugins = register_plugins (sc_http_plugins cfg) names,
                             fs_listeners = setup_listeners cfg,
                             fs_http_reverse_proxy = (sc_vhost_http_port cfg > 0),
                             fs_https_muxer = (sc_vhost_https_port cfg > 0),
                             fs_tcpmux_muxer = (sc_tcpmux_httpconnect_port cfg > 0),
                             fs_not_found_page = sc_custom_404_page cfg, fs_mem_stats = False, fs_prometheus = False\<rparr>;
                      dashboard = ListenDashboard (host_port (sc_dashboard_addr cfg) (sc_dashboard_port cfg))
                  in if sc_dashboard_port cfg \<le> 0 then Inr svr
                     else if \<not> se_assets_ok env (sc_assets_dir cfg) then Inl SetupAssets
                     else if \<not> se_listen_ok env dashboard then Inl (SetupListen dashboard)
                     else Inr (svr\<lparr>fs_listeners := fs_listeners svr @ [dashboard], fs_mem_stats := True,
                                   fs_prometheus := sc_enable_prometheus cfg\<rparr>))))"

text \<open>\<^verbatim>\<open>Run\<close>: the listeners whose connections \<open>handle_connection\<close> gets.\<close>

definition served_listeners :: "server_common_conf \<Rightarrow> frps_listener list" where
  "served_listeners cfg =
     (if sc_kcp_bind_port cfg > 0 then [ListenKCP (host_port (sc_bind_addr cfg) (sc_kcp_bind_port cfg))] else []) @
     [MuxedWebsocket, MuxedTLS, ListenMain (host_port (sc_bind_addr cfg) (sc_bind_port cfg))]"

text \<open>
  \<^verbatim>\<open>HandleListener\<close> on a new connection whose first bytes are \<open>bytes\<close>: closed, a session whose every
  stream is handled, or a connection that is handled, over TLS or not.
\<close>

datatype accepted = AcceptClosed | AcceptSession bool | AcceptConn bool

definition handle_accepted :: "server_common_conf \<Rightarrow> string \<Rightarrow> bool \<Rightarrow> accepted" where
  "handle_accepted cfg bytes session_ok =
     (case check_and_enable_tls_server_conn bytes (sc_tls_only cfg) of
        TLSReadError \<Rightarrow> AcceptClosed
      | TLSOnlyRefused \<Rightarrow> AcceptClosed
      | check \<Rightarrow>
          if sc_tcp_mux cfg then (if session_ok then AcceptSession (check = TLSServer) else AcceptClosed)
          else AcceptConn (check = TLSServer))"

lemma tls_only_refuses_plain: "sc_tls_only cfg \<Longrightarrow> handle_accepted cfg bytes ok \<notin> {AcceptSession False, AcceptConn False}"
  by (auto simp: handle_accepted_def check_and_enable_tls_server_conn_def split: list.split tls_check.split)

section \<open>What a server is set up with\<close>

text \<open>The chain of plugins does not depend on the order of the range over the configuration.\<close>

lemma register_plugins_order:
  assumes "range_of plugins names" and "range_of plugins names'"
  shows "register_plugins plugins names = register_plugins plugins names'"
proof -
  have "sort names = sort names'" using assms by (intro sorted_distinct_set_unique) (simp_all add: range_of_def)
  then show ?thesis by (simp add: register_plugins_def)
qed

lemma new_service_inr:
  assumes "new_service env names cfg = Ok (Inr svr)"
  shows "fs_resources svr = setup_resources cfg \<and> fs_plugins svr = register_plugins (sc_http_plugins cfg) names \<and>
    (fs_http_reverse_proxy svr \<longleftrightarrow> sc_vhost_http_port cfg > 0) \<and> (fs_https_muxer svr \<longleftrightarrow> sc_vhost_https_port cfg > 0) \<and>
    (fs_tcpmux_muxer svr \<longleftrightarrow> sc_tcpmux_httpconnect_port cfg > 0) \<and>
    (fs_mem_stats svr \<longleftrightarrow> sc_dashboard_port cfg > 0) \<and> first_refused env (setup_listeners cfg) = None"
  using assms by (auto simp: new_service_def go_then_eq_Ok Let_def split: if_split_asm option.split_asm)

text \<open>What a proxy of a type needs of the server, beside the port managers.\<close>

fun needs_met :: "frps \<Rightarrow> proxy_conf \<Rightarrow> bool" where
  "needs_met svr (HTTPConf c) = fs_http_reverse_proxy svr"
| "needs_met svr (HTTPSConf c) = fs_https_muxer svr"
| "needs_met svr (TCPMuxConf c) = fs_tcpmux_muxer svr"
| "needs_met svr _ = True"


text \<open>With a negative port the check accepts an HTTP proxy that finds no reverse proxy.\<close>

lemma negative_http_port:
  assumes "new_service env names cfg = Ok (Inr svr)" and "sc_vhost_http_port cfg < 0"
    and "domain_check_for_svr cfg (ht_domain c) = None"
  shows "check_for_svr cfg (HTTPConf c) = None \<and> \<not> needs_met svr (HTTPConf c)"
  using new_service_inr [OF assms(1)] assms(2,3) by (simp add: http_check_for_svr_def)


end
