(* ===== verification/Commands.thy ===== *)
theory Commands
  imports Client_Admin Udp_Forward Service_Setup
begin

text \<open>
  The command lines: \<^verbatim>\<open>frp/cmd/frpc/sub\<close> and \<^verbatim>\<open>frp/cmd/frps/root.go\<close>. The flags are records of what
  the flag library parsed; \<^verbatim>\<open>net.SplitHostPort\<close> is an argument. What a command starts is a
  configuration with its proxies and visitors, an error exits.
\<close>

section \<open>The flags of frpc\<close>

record frpc_flags =
  fl_server_addr :: string
  fl_user :: string
  fl_protocol :: string
  fl_token :: string
  fl_log_level :: string
  fl_log_file :: string
  fl_log_max_days :: int
  fl_disable_log_color :: bool
  fl_tls_enable :: bool
  fl_proxy_name :: string
  fl_local_ip :: string
  fl_local_port :: int
  fl_remote_port :: int
  fl_use_encryption :: bool
  fl_use_compression :: bool
  fl_custom_domains :: string
  fl_sub_domain :: string
  fl_http_user :: string
  fl_http_pwd :: string
  fl_locations :: string
  fl_host_header_rewrite :: string
  fl_role :: string
  fl_sk :: string
  fl_multiplexer :: string
  fl_server_name :: string
  fl_bind_addr :: string
  fl_bind_port :: int

datatype command_error = InvalidServerAddr | CommandConf conf_error | InvalidRoleFlag | ReadConf string

definition parse_client_common_cfg_from_cmd ::
    "(string \<Rightarrow> (string \<times> string) option) \<Rightarrow> string \<Rightarrow> frpc_flags \<Rightarrow> command_error + client_common_conf" where
  "parse_client_common_cfg_from_cmd split_host_port http_proxy fl =
     (case split_host_port (fl_server_addr fl) of
        None \<Rightarrow> Inl InvalidServerAddr
      | Some (ipStr, portStr) \<Rightarrow>
          (case parse_int portStr of
             (_, Some e) \<Rightarrow> Inl InvalidServerAddr
           | (port, None) \<Rightarrow>
               Inr ((get_default_client_conf http_proxy)\<lparr>
                 cc_server_addr := ipStr, cc_server_port := port, cc_user := fl_user fl, cc_protocol := fl_protocol fl,
                 cc_log_level := fl_log_level fl, cc_log_file := fl_log_file fl, cc_log_max_days := fl_log_max_days fl,
                 cc_log_way := (if fl_log_file fl = ''console'' then ''console'' else ''file''),
                 cc_disable_log_color := fl_disable_log_color fl,
                 cc_auth := default_auth_client_conf\<lparr>ac_token := (ac_token default_auth_client_conf)\<lparr>tk_token := fl_token fl\<rparr>\<rparr>,
                 cc_tls_enable := fl_tls_enable fl\<rparr>)))"

text \<open>\<^verbatim>\<open>parseClientCommonCfg\<close> on what the file or the flags gave.\<close>

definition check_client_common_cfg :: "command_error + client_common_conf \<Rightarrow> command_error + client_common_conf" where
  "check_client_common_cfg r =
     (case r of
        Inl e \<Rightarrow> Inl e
      | Inr cfg \<Rightarrow> (case snd (client_conf_check cfg) of Some e \<Rightarrow> Inl (CommandConf e) | None \<Rightarrow> Inr cfg))"

definition parse_client_common_cfg_cmd ::
    "(string \<Rightarrow> (string \<times> string) option) \<Rightarrow> string \<Rightarrow> frpc_flags \<Rightarrow> command_error + client_common_conf" where
  "parse_client_common_cfg_cmd split_host_port http_proxy fl =
     check_client_common_cfg (parse_client_common_cfg_from_cmd split_host_port http_proxy fl)"

section \<open>The commands that start a single proxy or visitor\<close>

definition cmd_base :: "string \<Rightarrow> frpc_flags \<Rightarrow> base_proxy_conf" where
  "cmd_base proxyType fl =
     zero_base_proxy_conf\<lparr>bp_proxy_name := user_prefix (fl_user fl) @ fl_proxy_name fl, bp_proxy_type := proxyType,
       bp_use_encryption := fl_use_encryption fl, bp_use_compression := fl_use_compression fl,
       bp_local_svr := zero_local_svr\<lparr>ls_local_ip := fl_local_ip fl, ls_local_port := fl_local_port fl\<rparr>\<rparr>"

definition cmd_domain :: "frpc_flags \<Rightarrow> domain_conf" where
  "cmd_domain fl = \<lparr>dc_custom_domains = Some (split_on CHR '','' (fl_custom_domains fl)), dc_subdomain = fl_sub_domain fl\<rparr>"

definition tcp_cmd :: "frpc_flags \<Rightarrow> proxy_conf" where
  "tcp_cmd fl = TCPConf \<lparr>tc_base = cmd_base TCPProxy fl, tc_remote_port = fl_remote_port fl\<rparr>"

definition udp_cmd :: "frpc_flags \<Rightarrow> proxy_conf" where
  "udp_cmd fl = UDPConf \<lparr>ud_base = cmd_base UDPProxy fl, ud_remote_port = fl_remote_port fl\<rparr>"

definition tcpmux_cmd :: "frpc_flags \<Rightarrow> proxy_conf" where
  "tcpmux_cmd fl =
     TCPMuxConf \<lparr>mx_base = cmd_base TCPMuxProxy fl, mx_domain = cmd_domain fl, mx_multiplexer = fl_multiplexer fl\<rparr>"

definition http_cmd :: "frpc_flags \<Rightarrow> proxy_conf" where
  "http_cmd fl =
     HTTPConf \<lparr>ht_base = cmd_base HTTPProxy fl, ht_domain = cmd_domain fl,
       ht_locations = Some (split_on CHR '','' (fl_locations fl)), ht_http_user = fl_http_user fl,
       ht_http_pwd = fl_http_pwd fl, ht_host_header_rewrite = fl_host_header_rewrite fl, ht_headers = None\<rparr>"

definition https_cmd :: "frpc_flags \<Rightarrow> proxy_conf" where
  "https_cmd fl = HTTPSConf \<lparr>hs_base = cmd_base HTTPSProxy fl, hs_domain = cmd_domain fl\<rparr>"

definition stcp_server_cmd :: "frpc_flags \<Rightarrow> proxy_conf" where
  "stcp_server_cmd fl = STCPConf \<lparr>st_base = cmd_base STCPProxy fl, st_role = fl_role fl, st_sk = fl_sk fl\<rparr>"

definition xtcp_server_cmd :: "frpc_flags \<Rightarrow> proxy_conf" where
  "xtcp_server_cmd fl = XTCPConf \<lparr>xt_base = cmd_base XTCPProxy fl, xt_role = fl_role fl, xt_sk = fl_sk fl\<rparr>"

definition sudp_server_cmd :: "frpc_flags \<Rightarrow> proxy_conf" where
  "sudp_server_cmd fl = SUDPConf \<lparr>su_base = cmd_base SUDPProxy fl, su_role = fl_role fl, su_sk = fl_sk fl\<rparr>"

definition cmd_visitor :: "string \<Rightarrow> frpc_flags \<Rightarrow> base_visitor_conf" where
  "cmd_visitor proxyType fl =
     \<lparr>bv_proxy_name = user_prefix (fl_user fl) @ fl_proxy_name fl, bv_proxy_type = proxyType,
      bv_use_encryption = fl_use_encryption fl, bv_use_compression = fl_use_compression fl, bv_role = fl_role fl,
      bv_sk = fl_sk fl, bv_server_name = fl_server_name fl, bv_bind_addr = fl_bind_addr fl, bv_bind_port = fl_bind_port fl\<rparr>"

text \<open>What is started with a proxy or a visitor that passed its check, under its name.\<close>

type_synonym started_conf = "client_common_conf \<times> confs"

definition start_proxy_cmd :: "client_common_conf \<Rightarrow> proxy_conf \<Rightarrow> command_error + started_conf" where
  "start_proxy_cmd clientCfg cfg =
     (case check_for_cli cfg of
        Some e \<Rightarrow> Inl (CommandConf e)
      | None \<Rightarrow> Inr (clientCfg, [bp_proxy_name (get_base_info cfg) \<mapsto> cfg], Map.empty))"

definition start_visitor_cmd :: "client_common_conf \<Rightarrow> visitor_conf \<Rightarrow> command_error + started_conf" where
  "start_visitor_cmd clientCfg cfg =
     (case visitor_check cfg of
        Some e \<Rightarrow> Inl (CommandConf e)
      | None \<Rightarrow> Inr (clientCfg, Map.empty, [bv_proxy_name (visitor_base_info cfg) \<mapsto> cfg]))"

definition role_cmd ::
    "client_common_conf \<Rightarrow> proxy_conf \<Rightarrow> visitor_conf \<Rightarrow> string \<Rightarrow> command_error + started_conf" where
  "role_cmd clientCfg server visitor role =
     (if role = ''server'' then start_proxy_cmd clientCfg server
      else if role = ''visitor'' then start_visitor_cmd clientCfg visitor
      else Inl InvalidRoleFlag)"

text \<open>Each command parses the common flags, builds its configuration, checks it and starts it.\<close>

definition with_common_cfg ::
    "(string \<Rightarrow> (string \<times> string) option) \<Rightarrow> string \<Rightarrow> frpc_flags \<Rightarrow>
     (client_common_conf \<Rightarrow> command_error + started_conf) \<Rightarrow> command_error + started_conf" where
  "with_common_cfg split_host_port http_proxy fl start =
     (case parse_client_common_cfg_cmd split_host_port http_proxy fl of Inl e \<Rightarrow> Inl e | Inr clientCfg \<Rightarrow> start clientCfg)"

definition run_tcp_cmd :: "(string \<Rightarrow> (string \<times> string) option) \<Rightarrow> string \<Rightarrow> frpc_flags \<Rightarrow> command_error + started_conf" where
  "run_tcp_cmd split_host_port http_proxy fl =
     with_common_cfg split_host_port http_proxy fl (\<lambda>clientCfg. start_proxy_cmd clientCfg (tcp_cmd fl))"

definition run_udp_cmd :: "(string \<Rightarrow> (string \<times> string) option) \<Rightarrow> string \<Rightarrow> frpc_flags \<Rightarrow> command_error + started_conf" where
  "run_udp_cmd split_host_port http_proxy fl =
     with_common_cfg split_host_port http_proxy fl (\<lambda>clientCfg. start_proxy_cmd clientCfg (udp_cmd fl))"

definition run_tcpmux_cmd :: "(string \<Rightarrow> (string \<times> string) option) \<Rightarrow> string \<Rightarrow> frpc_flags \<Rightarrow> command_error + started_conf" where
  "run_tcpmux_cmd split_host_port http_proxy fl =
     with_common_cfg split_host_port http_proxy fl (\<lambda>clientCfg. start_proxy_cmd clientCfg (tcpmux_cmd fl))"

definition run_http_cmd :: "(string \<Rightarrow> (string \<times> string) option) \<Rightarrow> string \<Rightarrow> frpc_flags \<Rightarrow> command_error + started_conf" where
  "run_http_cmd split_host_port http_proxy fl =
     with_common_cfg split_host_port http_proxy fl (\<lambda>clientCfg. start_proxy_cmd clientCfg (http_cmd fl))"

definition run_https_cmd :: "(string \<Rightarrow> (string \<times> string) option) \<Rightarrow> string \<Rightarrow> frpc_flags \<Rightarrow> command_error + started_conf" where
  "run_https_cmd split_host_port http_proxy fl =
     with_common_cfg split_host_port http_proxy fl (\<lambda>clientCfg. start_proxy_cmd clientCfg (https_cmd fl))"

definition run_stcp_cmd :: "(string \<Rightarrow> (string \<times> string) option) \<Rightarrow> string \<Rightarrow> frpc_flags \<Rightarrow> command_error + started_conf" where
  "run_stcp_cmd split_host_port http_proxy fl =
     with_common_cfg split_host_port http_proxy fl
       (\<lambda>clientCfg. role_cmd clientCfg (stcp_server_cmd fl) (STCPVisitor (cmd_visitor STCPProxy fl)) (fl_role fl))"

definition run_xtcp_cmd :: "(string \<Rightarrow> (string \<times> string) option) \<Rightarrow> string \<Rightarrow> frpc_flags \<Rightarrow> command_error + started_conf" where
  "run_xtcp_cmd split_host_port http_proxy fl =
     with_common_cfg split_host_port http_proxy fl
       (\<lambda>clientCfg. role_cmd clientCfg (xtcp_server_cmd fl) (XTCPVisitor (cmd_visitor XTCPProxy fl)) (fl_role fl))"

definition run_sudp_cmd :: "(string \<Rightarrow> (string \<times> string) option) \<Rightarrow> string \<Rightarrow> frpc_flags \<Rightarrow> command_error + started_conf" where
  "run_sudp_cmd split_host_port http_proxy fl =
     with_common_cfg split_host_port http_proxy fl
       (\<lambda>clientCfg. role_cmd clientCfg (sudp_server_cmd fl) (SUDPVisitor (cmd_visitor SUDPProxy fl)) (fl_role fl))"

lemmas run_cmd_defs = run_tcp_cmd_def run_udp_cmd_def run_tcpmux_cmd_def run_http_cmd_def run_https_cmd_def run_stcp_cmd_def run_xtcp_cmd_def run_sudp_cmd_def

text \<open>The subcommands by their name; \<open>None\<close> for a name that is not one of them.\<close>

definition run_command ::
    "(string \<Rightarrow> (string \<times> string) option) \<Rightarrow> string \<Rightarrow> string \<Rightarrow> frpc_flags \<Rightarrow> (command_error + started_conf) option" where
  "run_command split_host_port http_proxy cmd fl =
     (let run = (\<lambda>c. Some (c split_host_port http_proxy fl))
      in if cmd = ''tcp'' then run run_tcp_cmd
      else if cmd = ''udp'' then run run_udp_cmd
      else if cmd = ''tcpmux'' then run run_tcpmux_cmd
      else if cmd = ''http'' then run run_http_cmd
      else if cmd = ''https'' then run run_https_cmd
      else if cmd = ''stcp'' then run run_stcp_cmd
      else if cmd = ''xtcp'' then run run_xtcp_cmd
      else if cmd = ''sudp'' then run run_sudp_cmd
      else None)"

text \<open>\<^verbatim>\<open>RunClient\<close>: the configuration of a file.\<close>

definition run_client ::
    "admin_env \<Rightarrow> (string, 'f, 's) ini_file_api \<Rightarrow> ('s, 'h) loader_api \<Rightarrow>
     ('s \<Rightarrow> client_common_conf \<Rightarrow> string + client_common_conf) \<Rightarrow> string \<Rightarrow> string \<Rightarrow> (command_error + started_conf) option" where
  "run_client env fi la mapto http_proxy cfgFilePath =
     (case get_rendered_conf_from_file env cfgFilePath of
        Inl e \<Rightarrow> Some (Inl (ReadConf e))
      | Inr content \<Rightarrow>
     (case check_client_common_cfg
             (case unmarshal_client_conf_from_ini fi (la_ini la) mapto http_proxy content of
                Inl e \<Rightarrow> Inl (CommandConf e) | Inr cfg \<Rightarrow> Inr cfg) of
        Inl e \<Rightarrow> Some (Inl e)
      | Inr cfg \<Rightarrow>
     (case load_all_proxy_confs_from_ini fi la (cc_user cfg) content
             (case cc_start cfg of None \<Rightarrow> [] | Some start \<Rightarrow> start) of
        None \<Rightarrow> None
      | Some (Inl e) \<Rightarrow> Some (Inl (CommandConf e))
      | Some (Inr confs) \<Rightarrow> Some (Inr (cfg, confs)))))"

text \<open>\<^verbatim>\<open>startService\<close>: the DNS server that is set, when one is configured, and the new service.\<close>

definition dns_server :: "client_common_conf \<Rightarrow> string option" where
  "dns_server cfg =
     (let s = cc_dns_server cfg in
      if s = [] then None else Some (if CHR '':'' \<notin> set s then s @ '':53'' else s))"

definition start_service :: "started_conf \<Rightarrow> string \<Rightarrow> (unit, string option \<times> ('g, 'a, 'c) client_service) go" where
  "start_service confs cfgFile =
     (case confs of (cfg, pxyCfgs, visitorCfgs) \<Rightarrow>
        go_then (new_client_service cfg pxyCfgs visitorCfgs cfgFile) (\<lambda>svr. Ok (dns_server cfg, svr)))"

section \<open>The commands that ask a running client\<close>

text \<open>The URL and the \<^verbatim>\<open>Authorization\<close> header of \<^verbatim>\<open>reload\<close> and \<^verbatim>\<open>status\<close>; \<open>None\<close> without an admin port.\<close>

definition admin_request :: "string \<Rightarrow> client_common_conf \<Rightarrow> (string \<times> string) option" where
  "admin_request path clientCfg =
     (if cc_admin_port clientCfg = 0 then None
      else Some (''http://'' @ cc_admin_addr clientCfg @ '':'' @ int_str (cc_admin_port clientCfg) @ path,
                 ''Basic '' @ b64_encode (cc_admin_user clientCfg @ '':'' @ cc_admin_pwd clientCfg)))"

definition reload_request :: "client_common_conf \<Rightarrow> (string \<times> string) option" where
  "reload_request = admin_request ''/api/reload''"

definition status_request :: "client_common_conf \<Rightarrow> (string \<times> string) option" where
  "status_request = admin_request ''/api/status''"

text \<open>The result of \<^verbatim>\<open>reload\<close> for a response; \<open>body\<close> is \<open>None\<close> when it cannot be read.\<close>

definition reload_result :: "int \<Rightarrow> string option \<Rightarrow> string option" where
  "reload_result code body =
     (if code = 200 then None
      else (case body of
              None \<Rightarrow> Some ''read''
            | Some b \<Rightarrow> Some (''code ['' @ int_str code @ ''], '' @ trim_space b)))"

text \<open>The tables that \<^verbatim>\<open>status\<close> prints, in order, with the title of each; an empty list is not printed.\<close>

definition status_tables :: "status_resp \<Rightarrow> (string \<times> proxy_status_resp list) list" where
  "status_tables res =
     filter (\<lambda>(title, l). l \<noteq> [])
       [(''TCP'', st_tcp res), (''UDP'', st_udp res), (''HTTP'', st_http res), (''HTTPS'', st_https res),
        (''STCP'', st_stcp res), (''XTCP'', st_xtcp res)]"

text \<open>\<^verbatim>\<open>Request.BasicAuth\<close> of \<^verbatim>\<open>net/http\<close> on that header.\<close>

definition basic_auth :: "string \<Rightarrow> (string \<times> string) option" where
  "basic_auth header =
     (if \<not> prefix ''basic '' (to_lower (take 6 header)) then None
      else (case b64_decode (drop 6 header) of
              None \<Rightarrow> None
            | Some c \<Rightarrow> if CHR '':'' \<in> set c
                then Some (takeWhile (\<lambda>x. x \<noteq> CHR '':'') c, tl (dropWhile (\<lambda>x. x \<noteq> CHR '':'') c)) else None))"

section \<open>The flags of frps\<close>

record frps_flags =
  fs_bind_addr :: string
  fs_bind_port :: int
  fs_bind_udp_port :: int
  fs_kcp_bind_port :: int
  fs_proxy_bind_addr :: string
  fs_vhost_http_port :: int
  fs_vhost_https_port :: int
  fs_vhost_http_timeout :: int
  fs_dashboard_addr :: string
  fs_dashboard_port :: int
  fs_dashboard_user :: string
  fs_dashboard_pwd :: string
  fs_enable_prometheus :: bool
  fs_log_file :: string
  fs_log_level :: string
  fs_log_max_days :: int
  fs_disable_log_color :: bool
  fs_token :: string
  fs_sub_domain_host :: string
  fs_allow_ports :: string
  fs_max_ports_per_client :: int
  fs_tls_only :: bool

definition frps_flag_defaults :: frps_flags where
  "frps_flag_defaults =
     \<lparr>fs_bind_addr = ''0.0.0.0'', fs_bind_port = 7000, fs_bind_udp_port = 0, fs_kcp_bind_port = 0,
      fs_proxy_bind_addr = ''0.0.0.0'', fs_vhost_http_port = 0, fs_vhost_https_port = 0, fs_vhost_http_timeout = 60,
      fs_dashboard_addr = ''0.0.0.0'', fs_dashboard_port = 0, fs_dashboard_user = ''admin'', fs_dashboard_pwd = ''admin'',
      fs_enable_prometheus = False, fs_log_file = ''console'', fs_log_level = ''info'', fs_log_max_days = 3,
      fs_disable_log_color = False, fs_token = [], fs_sub_domain_host = [], fs_allow_ports = [],
      fs_max_ports_per_client = 0, fs_tls_only = False\<rparr>"

definition parse_server_common_cfg_from_cmd :: "frps_flags \<Rightarrow> (conf_error + server_common_conf) option" where
  "parse_server_common_cfg_from_cmd fl =
     (let cfg = get_default_server_conf\<lparr>
            sc_bind_addr := fs_bind_addr fl, sc_bind_port := fs_bind_port fl, sc_bind_udp_port := fs_bind_udp_port fl,
            sc_kcp_bind_port := fs_kcp_bind_port fl, sc_proxy_bind_addr := fs_proxy_bind_addr fl,
            sc_vhost_http_port := fs_vhost_http_port fl, sc_vhost_https_port := fs_vhost_https_port fl,
            sc_vhost_http_timeout := fs_vhost_http_timeout fl, sc_dashboard_addr := fs_dashboard_addr fl,
            sc_dashboard_port := fs_dashboard_port fl, sc_dashboard_user := fs_dashboard_user fl,
            sc_dashboard_pwd := fs_dashboard_pwd fl, sc_enable_prometheus := fs_enable_prometheus fl,
            sc_log_file := fs_log_file fl, sc_log_level := fs_log_level fl, sc_log_max_days := fs_log_max_days fl,
            sc_sub_domain_host := fs_sub_domain_host fl, sc_tls_only := fs_tls_only fl,
            sc_auth := default_auth_server_conf\<lparr>as_token := (as_token default_auth_server_conf)\<lparr>tk_token := fs_token fl\<rparr>\<rparr>\<rparr>;
          finish = (\<lambda>cfg. cfg\<lparr>sc_max_ports_per_client := fs_max_ports_per_client fl,
            sc_log_way := (if fs_log_file fl = ''console'' then ''console'' else ''file''),
            sc_disable_log_color := fs_disable_log_color fl\<rparr>)
      in if fs_allow_ports fl = [] then Some (Inr (finish cfg))
         else (case parse_range_numbers (fs_allow_ports fl) of
                 None \<Rightarrow> None
               | Some (Inl e) \<Rightarrow> Some (Inl (AllowPorts e))
               | Some (Inr ports) \<Rightarrow> Some (Inr (finish (cfg\<lparr>sc_allow_ports := sc_allow_ports cfg \<union> set ports\<rparr>)))))"

text \<open>\<^verbatim>\<open>parseServerCommonCfg\<close> on what the file or the flags gave.\<close>

definition check_server_common_cfg ::
    "(conf_error + server_common_conf) option \<Rightarrow> (conf_error + server_common_conf) option" where
  "check_server_common_cfg r =
     (case r of
        Some (Inr cfg) \<Rightarrow> (case server_conf_check cfg of Some e \<Rightarrow> Some (Inl e) | None \<Rightarrow> Some (Inr cfg))
      | r \<Rightarrow> r)"

text \<open>
  The command of frps, with \<^verbatim>\<open>runServer\<close>: the configuration comes from the file, when one is given, and
  from the flags otherwise. \<open>None\<close>: the expansion of a range of allowed ports does not end.
\<close>

datatype frps_error = FrpsRead string | FrpsConf conf_error | FrpsSetup setup_error

definition run_server :: "setup_env \<Rightarrow> string list \<Rightarrow> server_common_conf \<Rightarrow> (unit, frps_error + frps) go" where
  "run_server env names cfg =
     go_then (new_service env names cfg) (\<lambda>r. Ok (case r of Inl e \<Rightarrow> Inl (FrpsSetup e) | Inr svr \<Rightarrow> Inr svr))"

definition frps_command ::
    "admin_env \<Rightarrow> (string, 'f, 's) ini_file_api \<Rightarrow> 's ini_api \<Rightarrow> ('s \<Rightarrow> server_common_conf \<Rightarrow> string + server_common_conf) \<Rightarrow>
     ('s \<Rightarrow> http_plugin_options \<Rightarrow> string + http_plugin_options) \<Rightarrow> setup_env \<Rightarrow> (server_common_conf \<Rightarrow> string list) \<Rightarrow>
     string \<Rightarrow> frps_flags \<Rightarrow> (unit, frps_error + frps) go option" where
  "frps_command files fi ini mapto mapto_plugin env names cfgFile fl =
     (case (if cfgFile \<noteq> [] then
              (case get_rendered_conf_from_file files cfgFile of
                 Inl e \<Rightarrow> Some (Inl (FrpsRead e))
               | Inr content \<Rightarrow>
                   map_option (map_sum FrpsConf id)
                     (check_server_common_cfg (unmarshal_server_conf_from_ini fi ini mapto mapto_plugin content)))
            else map_option (map_sum FrpsConf id) (check_server_common_cfg (parse_server_common_cfg_from_cmd fl))) of
        None \<Rightarrow> None
      | Some (Inl e) \<Rightarrow> Some (Ok (Inl e))
      | Some (Inr cfg) \<Rightarrow> Some (run_server env (names cfg) cfg))"

text \<open>Without flags frps runs with the default configuration.\<close>

lemma frps_default_flags:
  "check_server_common_cfg (parse_server_common_cfg_from_cmd frps_flag_defaults) = Some (Inr get_default_server_conf)"
  by (simp add: check_server_common_cfg_def parse_server_common_cfg_from_cmd_def frps_flag_defaults_def server_conf_check_def
      get_default_server_conf_def default_auth_server_conf_def default_token_conf_def Let_def)

lemma frps_command_defaults:
  "frps_command files fi ini mapto mapto_plugin env names [] frps_flag_defaults =
     Some (run_server env (names get_default_server_conf) get_default_server_conf)"
  by (simp add: frps_command_def frps_default_flags)

section \<open>What is started\<close>

lemma start_proxy_cmd_checked:
  "start_proxy_cmd cfg conf = Inr (cfg', ps, vs) \<Longrightarrow> cfg' = cfg \<and> vs = Map.empty \<and>
     (\<forall>k c. ps k = Some c \<longrightarrow> check_for_cli c = None \<and> bp_proxy_name (get_base_info c) = k \<and> c = conf)"
  by (auto simp: start_proxy_cmd_def split: option.split_asm if_split_asm)

lemma start_visitor_cmd_checked:
  "start_visitor_cmd cfg conf = Inr (cfg', ps, vs) \<Longrightarrow> cfg' = cfg \<and> ps = Map.empty \<and>
     (\<forall>k v. vs k = Some v \<longrightarrow> visitor_check v = None \<and> bv_proxy_name (visitor_base_info v) = k \<and> v = conf)"
  by (auto simp: start_visitor_cmd_def split: option.split_asm if_split_asm)

lemma check_client_common_cfg_checked:
  "check_client_common_cfg r = Inr cfg \<Longrightarrow> r = Inr cfg \<and> snd (client_conf_check cfg) = None"
  by (auto simp: check_client_common_cfg_def split: sum.split_asm option.split_asm)

text \<open>Whatever a command or a file starts has been checked, and is stored under its own name.\<close>

definition start_checked :: "started_conf \<Rightarrow> bool" where
  "start_checked r \<longleftrightarrow> (case r of (cfg, ps, vs) \<Rightarrow>
     snd (client_conf_check cfg) = None \<and>
     (\<forall>k c. ps k = Some c \<longrightarrow> check_for_cli c = None \<and> bp_proxy_name (get_base_info c) = k) \<and>
     (\<forall>k v. vs k = Some v \<longrightarrow> visitor_check v = None \<and> bv_proxy_name (visitor_base_info v) = k))"

lemma role_cmd_checked:
  "role_cmd cfg conf vconf role = Inr r \<Longrightarrow> snd (client_conf_check cfg) = None \<Longrightarrow> start_checked r"
  using start_proxy_cmd_checked [of cfg conf] start_visitor_cmd_checked [of cfg vconf]
  by (cases r) (auto simp: role_cmd_def start_checked_def split: if_split_asm)

lemma start_proxy_cmd_start_checked:
  "start_proxy_cmd cfg conf = Inr r \<Longrightarrow> snd (client_conf_check cfg) = None \<Longrightarrow> start_checked r"
  using start_proxy_cmd_checked [of cfg conf] by (cases r) (auto simp: start_checked_def)

lemma with_common_cfg_checked:
  assumes "with_common_cfg split_host_port http_proxy fl start = Inr r"
    and "\<And>cfg. start cfg = Inr r \<Longrightarrow> snd (client_conf_check cfg) = None \<Longrightarrow> start_checked r"
  shows "start_checked r"
  using assms check_client_common_cfg_checked
  by (fastforce simp: with_common_cfg_def parse_client_common_cfg_cmd_def split: sum.split_asm)

lemma run_command_checked:
  assumes "run_command split_host_port http_proxy cmd fl = Some (Inr r)"
  shows "start_checked r"
  using assms
  by (auto simp: run_command_def run_cmd_defs Let_def split: if_split_asm
      intro: with_common_cfg_checked start_proxy_cmd_start_checked role_cmd_checked)

text \<open>
  An empty list of custom domains is split into one empty domain, so that the commands never refuse a
  proxy without domains. A visitor's flag for the server's name is used as it is, while a
  configuration file puts the user's prefix before it, as the proxy of the same user has in its name.
\<close>

lemma cmd_domain_never_refused: "domain_check_for_cli (cmd_domain fl) = None"
  by (simp add: domain_check_for_cli_def domain_check_def cmd_domain_def)

lemma cmd_visitor_server_name:
  "bv_server_name (cmd_visitor t fl) = fl_server_name fl \<and>
   bp_proxy_name (cmd_base t (fl\<lparr>fl_proxy_name := fl_server_name fl\<rparr>)) = user_prefix (fl_user fl) @ fl_server_name fl"
  by (simp add: cmd_visitor_def cmd_base_def)

lemma cmd_visitor_without_bind_addr:
  "fl_role fl = ''visitor'' \<Longrightarrow> fl_bind_addr fl = [] \<Longrightarrow> base_visitor_check (cmd_visitor t fl) = Some BindAddrEmpty"
  by (simp add: base_visitor_check_def cmd_visitor_def)

text \<open>SUDP proxies are in the answer of the status but never printed.\<close>

lemma sudp_status_not_printed: "status_tables (res\<lparr>st_sudp := l\<rparr>) = status_tables res"
  by (simp add: status_tables_def)

section \<open>Asking a running client\<close>

lemma takeWhile_before: "x \<notin> set xs \<Longrightarrow> takeWhile (\<lambda>y. y \<noteq> x) (xs @ x # ys) = xs"
  by (induction xs) auto

lemma dropWhile_before: "x \<notin> set xs \<Longrightarrow> dropWhile (\<lambda>y. y \<noteq> x) (xs @ x # ys) = x # ys"
  by (induction xs) auto

lemma basic_auth_header:
  assumes "CHR '':'' \<notin> set user"
  shows "basic_auth (''Basic '' @ b64_encode (user @ '':'' @ pwd)) = Some (user, pwd)"
proof -
  have "to_lower ''Basic '' = ''basic ''" by code_simp
  then show ?thesis
    using takeWhile_before [OF assms, of pwd] dropWhile_before [OF assms, of pwd]
    by (simp add: basic_auth_def b64_decode_encode)
qed

text \<open>The commands \<^verbatim>\<open>reload\<close> and \<^verbatim>\<open>status\<close> are let in: the header they make from a client's configuration
  decodes to the user and the password of the client's admin server, which serves the request, unless
  the user has a colon; with a colon it is refused.\<close>

theorem admin_commands_authorized:
  assumes "admin_request path cfg = Some (url, header)"
  shows "admin_serve cfg (Some h) (basic_auth header) =
    (if CHR '':'' \<in> set (cc_admin_user cfg) then AdminUnauthorized else AdminHandled h)"
proof (cases "CHR '':'' \<in> set (cc_admin_user cfg)")
  case False
  with assms basic_auth_header [OF False, of "cc_admin_pwd cfg"] show ?thesis
    by (auto simp: admin_request_def admin_serve_def middleware_serves_iff split: if_split_asm)
next
  case True
  have header: "header = ''Basic '' @ b64_encode (cc_admin_user cfg @ '':'' @ cc_admin_pwd cfg)"
    using assms by (auto simp: admin_request_def split: if_split_asm)
  have no_colon: "CHR '':'' \<notin> set (takeWhile (\<lambda>x. x \<noteq> CHR '':'') c)" for c by (auto dest: set_takeWhileD)
  have "CHR '':'' \<notin> set (fst a)" if "basic_auth header = Some a" for a
    using that no_colon by (auto simp: basic_auth_def split: if_split_asm option.split_asm)
  with True have "fst a \<noteq> cc_admin_user cfg" if "basic_auth header = Some a" for a using that by metis
  with True show ?thesis by (auto simp: admin_serve_def middleware_serves_iff)
qed

lemma admin_commands_authorized_witness:
  "\<forall>h. admin_serve ((get_default_client_conf [])\<lparr>cc_admin_port := 7400, cc_admin_user := ''admin'', cc_admin_pwd := ''x''\<rparr>) (Some h)
     (basic_auth (''Basic '' @ b64_encode ''admin:x'')) = AdminHandled h"
proof
  fix h
  let ?cfg = "(get_default_client_conf [])\<lparr>cc_admin_port := 7400, cc_admin_user := ''admin'', cc_admin_pwd := ''x''\<rparr>"
  have "admin_request ''/api/reload'' ?cfg =
      Some (''http://'' @ cc_admin_addr ?cfg @ '':'' @ int_str 7400 @ ''/api/reload'', ''Basic '' @ b64_encode ''admin:x'')"
    by (simp add: admin_request_def)
  from admin_commands_authorized [OF this, of h]
  show "admin_serve ?cfg (Some h) (basic_auth (''Basic '' @ b64_encode ''admin:x'')) = AdminHandled h" by simp
qed

end
