(* ===== verification/Http_Headers.thy ===== *)
theory Http_Headers
  imports Go_Strings
begin

text \<open>
  The headers of \<^verbatim>\<open>net/http\<close> as the code uses them: a map from keys to lists of values, with the
  canonical form of a key of \<^verbatim>\<open>net/textproto\<close>.
\<close>

type_synonym headers = "string \<rightharpoonup> string list"

section \<open>The canonical form of a key\<close>

definition to_upper_char :: "char \<Rightarrow> char" where
  "to_upper_char c =
     (if 97 \<le> (of_char c :: nat) \<and> (of_char c :: nat) \<le> 122 then char_of ((of_char c :: nat) - 32) else c)"

definition valid_header_byte :: "char \<Rightarrow> bool" where
  "valid_header_byte c \<longleftrightarrow>
     (let n = of_char c :: nat in (48 \<le> n \<and> n \<le> 57) \<or> (65 \<le> n \<and> n \<le> 90) \<or> (97 \<le> n \<and> n \<le> 122) \<or>
        c \<in> set ''!#$%&*+-.^_`|~'' \<or> n = 39)"

text \<open>The first letter and each after a hyphen is a capital; a key with another byte stays as it is.\<close>

fun canonical_loop :: "bool \<Rightarrow> string \<Rightarrow> string" where
  "canonical_loop upper [] = []"
| "canonical_loop upper (c # cs) =
     (if upper then to_upper_char c else to_lower_char c) # canonical_loop (c = CHR ''-'') cs"

definition canonical_key :: "string \<Rightarrow> string" where
  "canonical_key k = (if \<forall>c \<in> set k. valid_header_byte c then canonical_loop True k else k)"

lemma to_lower_to_upper [simp]: "to_lower_char (to_upper_char c) = to_lower_char c"
  and to_upper_to_lower [simp]: "to_upper_char (to_lower_char c) = to_upper_char c"
  and to_upper_idem [simp]: "to_upper_char (to_upper_char c) = to_upper_char c"
  by (auto simp: to_upper_char_def to_lower_char_def of_char_of take_bit_nat_eq_self)

lemma hyphen_case: "to_upper_char c = CHR ''-'' \<longleftrightarrow> c = CHR ''-''" "to_lower_char c = CHR ''-'' \<longleftrightarrow> c = CHR ''-''"
proof -
  have "c = CHR ''-''" if "to_upper_char c = CHR ''-''"
  proof (rule ccontr)
    assume c: "c \<noteq> CHR ''-''"
    with that have n: "97 \<le> (of_char c :: nat)" "(of_char c :: nat) \<le> 122" and e: "char_of (of_char c - 32 :: nat) = CHR ''-''"
      by (auto simp: to_upper_char_def split: if_split_asm)
    from e have "of_char (char_of (of_char c - 32 :: nat) :: char) = (45 :: nat)" by simp
    with n show False by (simp add: of_char_of take_bit_nat_eq_self)
  qed
  then show "to_upper_char c = CHR ''-'' \<longleftrightarrow> c = CHR ''-''" by (auto simp: to_upper_char_def)
  have "c = CHR ''-''" if "to_lower_char c = CHR ''-''"
  proof (rule ccontr)
    assume c: "c \<noteq> CHR ''-''"
    with that have n: "65 \<le> (of_char c :: nat)" "(of_char c :: nat) \<le> 90" and e: "char_of (of_char c + 32 :: nat) = CHR ''-''"
      by (auto simp: to_lower_char_def split: if_split_asm)
    from e have "of_char (char_of (of_char c + 32 :: nat) :: char) = (45 :: nat)" by simp
    with n show False by (simp add: of_char_of take_bit_nat_eq_self)
  qed
  then show "to_lower_char c = CHR ''-'' \<longleftrightarrow> c = CHR ''-''" by (auto simp: to_lower_char_def)
qed

lemma valid_header_byte_case:
  "valid_header_byte c \<Longrightarrow> valid_header_byte (to_upper_char c)" "valid_header_byte c \<Longrightarrow> valid_header_byte (to_lower_char c)"
  by (auto simp: valid_header_byte_def to_upper_char_def to_lower_char_def Let_def of_char_of take_bit_nat_eq_self)

lemma canonical_loop_idem [simp]: "canonical_loop u (canonical_loop u k) = canonical_loop u k"
  by (induction u k rule: canonical_loop.induct) (auto simp: hyphen_case)

lemma canonical_loop_valid: "\<forall>c \<in> set k. valid_header_byte c \<Longrightarrow> \<forall>c \<in> set (canonical_loop u k). valid_header_byte c"
  by (induction u k rule: canonical_loop.induct) (auto simp: valid_header_byte_case)

lemma canonical_key_idem [simp]: "canonical_key (canonical_key k) = canonical_key k"
  using canonical_loop_valid [of k True] by (simp add: canonical_key_def)

section \<open>Operations\<close>

definition header_get :: "headers \<Rightarrow> string \<Rightarrow> string" where
  "header_get h k = (case h (canonical_key k) of Some (v # vs) \<Rightarrow> v | _ \<Rightarrow> [])"

definition header_del :: "string \<Rightarrow> headers \<Rightarrow> headers" where
  "header_del k h = h(canonical_key k := None)"

definition header_set :: "string \<Rightarrow> string \<Rightarrow> headers \<Rightarrow> headers" where
  "header_set k v h = h(canonical_key k \<mapsto> [v])"

text \<open>Indexing with a key that is written in the code, as \<^verbatim>\<open>h["Connection"]\<close>.\<close>

definition header_values :: "headers \<Rightarrow> string \<Rightarrow> string list" where
  "header_values h k = (case h k of None \<Rightarrow> [] | Some vs \<Rightarrow> vs)"

definition header_add :: "string \<Rightarrow> string \<Rightarrow> headers \<Rightarrow> headers" where
  "header_add k v h = h(canonical_key k \<mapsto> header_values h (canonical_key k) @ [v])"

lemma fold_header_del: "fold header_del ks h k = (if k \<in> canonical_key ` set ks then None else h k)"
  by (induction ks arbitrary: h) (auto simp: header_del_def)

lemma fold_header_add:
  "header_values (fold (header_add k) vs h) k' = header_values h k' @ (if k' = canonical_key k then vs else [])"
  by (induction vs arbitrary: h) (auto simp: header_add_def header_values_def)

text \<open>
  The loop that adds all headers of one map to another: every key gets its values after those it
  had, when no two keys of the source have the same canonical form.
\<close>

definition copy_header :: "string list \<Rightarrow> headers \<Rightarrow> headers \<Rightarrow> headers" where
  "copy_header keys src dst = fold (\<lambda>k. fold (header_add k) (header_values src k)) keys dst"

lemma copy_header_values:
  assumes "distinct keys" and "inj_on canonical_key (set keys)" and "k \<in> set keys"
  shows "header_values (copy_header keys src dst) (canonical_key k) = header_values dst (canonical_key k) @ header_values src k"
proof -
  have skip: "header_values (copy_header ks src d) (canonical_key k) = header_values d (canonical_key k)"
    if "k \<notin> set ks" "inj_on canonical_key (insert k (set ks))" for ks d
    using that
  proof (induction ks arbitrary: d)
    case (Cons k0 ks)
    from Cons.prems have "canonical_key k \<noteq> canonical_key k0" by (auto simp: inj_on_def)
    moreover have "inj_on canonical_key (insert k (set ks))" by (rule inj_on_subset [OF Cons.prems(2)]) auto
    ultimately show ?case using Cons.IH Cons.prems(1) by (simp add: copy_header_def fold_header_add)
  qed (simp add: copy_header_def)
  from assms show ?thesis
  proof (induction keys arbitrary: dst)
    case (Cons k0 ks)
    have inj: "inj_on canonical_key (set ks)" using Cons.prems(2) by simp
    show ?case
    proof (cases "k = k0")
      case True
      with Cons.prems have "k \<notin> set ks" "inj_on canonical_key (insert k (set ks))" by auto
      from skip [OF this, of "fold (header_add k) (header_values src k) dst"] show ?thesis
        by (simp add: True copy_header_def fold_header_add)
    next
      case False
      with Cons.prems have k: "k \<in> set ks" "distinct ks" by auto
      from False Cons.prems k(1) have "canonical_key k \<noteq> canonical_key k0" by (auto simp: inj_on_def)
      with Cons.IH [OF k(2) inj k(1)] show ?thesis by (simp add: copy_header_def fold_header_add)
    qed
  qed simp
qed

end
