(* ===== verification/Client_Plugins.thy ===== *)
theory Client_Plugins
  imports Client_Proxy Net_Conns Basic_Auth Udp_Forward Http_Headers
begin

text \<open>
  The plugins of the client, which serve a work connection in place of a local service:
  \<^verbatim>\<open>http_proxy.go\<close>, \<^verbatim>\<open>static_file.go\<close>, \<^verbatim>\<open>unix_domain_socket.go\<close>, \<^verbatim>\<open>socks5.go\<close>,
  \<^verbatim>\<open>https2http.go\<close>, \<^verbatim>\<open>https2https.go\<close> and \<^verbatim>\<open>http2https.go\<close> in
  \<^verbatim>\<open>frp/pkg/plugin/client\<close>. A plugin with an HTTP server hands its connections to the server
  through a listener; the server, the SOCKS library, certificates and sockets are arguments.
\<close>

section \<open>What the plugins ask of the libraries\<close>

text \<open>
  \<open>pe_range\<close> is the order of a range over a map, \<open>pe_key_pair\<close> the error of \<^verbatim>\<open>tls.LoadX509KeyPair\<close>,
  \<open>pe_unix_addr\<close> is \<^verbatim>\<open>net.ResolveUnixAddr\<close>.
\<close>

record 'u plugin_env =
  pe_range :: "str_map \<Rightarrow> (string \<times> string) list"
  pe_key_pair :: "string \<Rightarrow> string \<Rightarrow> string option"
  pe_unix_addr :: "string \<Rightarrow> string + 'u"
  pe_dial_ok :: "string \<Rightarrow> bool"
  pe_dial_unix_ok :: "'u \<Rightarrow> bool"

definition param :: "str_map \<Rightarrow> string \<Rightarrow> string" where
  "param params k = (case map_lookup params k of None \<Rightarrow> [] | Some v \<Rightarrow> v)"

text \<open>\<^verbatim>\<open>strings.SplitN(s, c, 2)\<close> for a separator of one character, when it gives two parts.\<close>

definition split_two :: "char \<Rightarrow> string \<Rightarrow> (string \<times> string) option" where
  "split_two c s =
     (if c \<in> set s then Some (takeWhile (\<lambda>x. x \<noteq> c) s, tl (dropWhile (\<lambda>x. x \<noteq> c) s)) else None)"

lemma split_two_Some: "split_two c s = Some (a, b) \<longleftrightarrow> s = a @ c # b \<and> c \<notin> set a"
proof
  assume "split_two c s = Some (a, b)"
  then have c: "c \<in> set s" and a: "a = takeWhile (\<lambda>x. x \<noteq> c) s" and b: "b = tl (dropWhile (\<lambda>x. x \<noteq> c) s)"
    by (auto simp: split_two_def split: if_split_asm)
  from c obtain d where "dropWhile (\<lambda>x. x \<noteq> c) s = c # d"
    by (metis (mono_tags, lifting) dropWhile_eq_Nil_conv hd_dropWhile list.collapse)
  with a b have "s = a @ c # b" by (metis list.sel(3) takeWhile_dropWhile_id)
  moreover have "c \<notin> set a" unfolding a by (auto dest: set_takeWhileD)
  ultimately show "s = a @ c # b \<and> c \<notin> set a" by simp
next
  assume "s = a @ c # b \<and> c \<notin> set a"
  then have s: "s = a @ c # b" and c: "\<And>x. x \<in> set a \<Longrightarrow> x \<noteq> c" by auto
  from c have "takeWhile (\<lambda>x. x \<noteq> c) s = a" "dropWhile (\<lambda>x. x \<noteq> c) s = c # b"
    unfolding s by (induction a) auto
  with s show "split_two c s = Some (a, b)" by (simp add: split_two_def)
qed

section \<open>Requests and headers\<close>

record proxied_request =
  rp_method :: string
  rp_uri :: string
  rp_url_scheme :: string
  rp_url_host :: string
  rp_host :: string
  rp_headers :: headers

record proxied_response =
  rr_code :: int
  rr_headers :: headers
  rr_body :: string

section \<open>The HTTP proxy\<close>

record 'c http_proxy =
  px_l :: "'c plugin_listener"
  px_auth_user :: string
  px_auth_passwd :: string

definition new_http_proxy_plugin :: "str_map \<Rightarrow> 'c http_proxy" where
  "new_http_proxy_plugin params =
     \<lparr>px_l = new_proxy_listener, px_auth_user = param params ''plugin_http_user'',
      px_auth_passwd = param params ''plugin_http_passwd''\<rparr>"

definition px_auth :: "proxied_request \<Rightarrow> 'c http_proxy \<Rightarrow> bool" where
  "px_auth req hp =
     (if px_auth_user hp = [] \<and> px_auth_passwd hp = [] then True
      else (case split_two CHR '' '' (header_get (rp_headers req) ''Proxy-Authorization'') of
              None \<Rightarrow> False
            | Some (scheme, s) \<Rightarrow>
                (case b64_decode s of
                   None \<Rightarrow> False
                 | Some b \<Rightarrow>
                     (case split_two CHR '':'' b of
                        None \<Rightarrow> False
                      | Some (user, passwd) \<Rightarrow> \<not> (user \<noteq> px_auth_user hp \<or> passwd \<noteq> px_auth_passwd hp)))))"

definition hop_headers :: "string list" where
  "hop_headers = [''Proxy-Connection'', ''Connection'', ''Proxy-Authenticate'', ''Proxy-Authorization'', ''TE'',
     ''Trailers'', ''Transfer-Encoding'', ''Upgrade'']"

definition remove_proxy_headers :: "proxied_request \<Rightarrow> proxied_request" where
  "remove_proxy_headers req = req\<lparr>rp_uri := [], rp_headers := fold header_del hop_headers (rp_headers req)\<rparr>"

text \<open>\<^verbatim>\<open>copyHeaders\<close> with the order of the range over the source.\<close>

definition copy_headers :: "string list \<Rightarrow> headers \<Rightarrow> headers \<Rightarrow> headers" where
  "copy_headers keys src dst = copy_header keys src dst"

definition px_http_handler ::
    "string list \<Rightarrow> (proxied_request \<Rightarrow> string + proxied_response) \<Rightarrow> proxied_request \<Rightarrow> proxied_response" where
  "px_http_handler keys round_trip req =
     (case round_trip (remove_proxy_headers req) of
        Inl e \<Rightarrow> \<lparr>rr_code = 500, rr_headers = Map.empty, rr_body = e\<rparr>
      | Inr resp \<Rightarrow>
          \<lparr>rr_code = rr_code resp, rr_headers = copy_headers keys (rr_headers resp) Map.empty, rr_body = rr_body resp\<rparr>)"

text \<open>
  \<^verbatim>\<open>ServeHTTP\<close>. \<open>Answered\<close> is a plain request, with what was sent on when something was; \<open>Connected\<close> joins
  the client with the host it asked for. \<open>hijack\<close> says whether the connection can be taken from the server.
\<close>

datatype proxy_outcome =
    ProxyAuthRequired
  | ConnectNoHijack
  | ConnectFailed
  | Connected string
  | Answered proxied_request proxied_response

definition px_connect_handler :: "'u plugin_env \<Rightarrow> bool \<Rightarrow> proxied_request \<Rightarrow> proxy_outcome" where
  "px_connect_handler env hijack req =
     (if \<not> hijack then ConnectNoHijack
      else if \<not> pe_dial_ok env (rp_url_host req) then ConnectFailed
      else Connected (rp_url_host req))"

definition px_serve_http ::
    "'u plugin_env \<Rightarrow> bool \<Rightarrow> string list \<Rightarrow> (proxied_request \<Rightarrow> string + proxied_response) \<Rightarrow> proxied_request \<Rightarrow>
     'c http_proxy \<Rightarrow> proxy_outcome" where
  "px_serve_http env hijack keys round_trip req hp =
     (if \<not> px_auth req hp then ProxyAuthRequired
      else if rp_method req = ''CONNECT'' then px_connect_handler env hijack req
      else Answered (remove_proxy_headers req) (px_http_handler keys round_trip req))"

text \<open>\<^verbatim>\<open>handleConnectReq\<close>: the connection is closed at the end in every case.\<close>

definition px_handle_connect_req :: "'u plugin_env \<Rightarrow> proxied_request \<Rightarrow> 'c http_proxy \<Rightarrow> proxy_outcome" where
  "px_handle_connect_req env req hp =
     (if \<not> px_auth req hp then ProxyAuthRequired
      else if \<not> pe_dial_ok env (rp_url_host req) then ConnectFailed
      else Connected (rp_url_host req))"

text \<open>
  \<^verbatim>\<open>Handle\<close>, with the first bytes of the connection, at most seven, and the request read from it when they
  are \<^verbatim>\<open>CONNECT\<close>; \<open>None\<close> when reading fails. \<open>HandlePut\<close> says whether the listener took the connection,
  an error of \<^verbatim>\<open>PutConn\<close> is ignored, \<open>HandleWaits\<close> that it is full.
\<close>

datatype handle_outcome = HandleClosed | HandleServed proxy_outcome | HandlePut bool | HandleWaits

definition handle_put :: "'c \<Rightarrow> 'c plugin_listener \<Rightarrow> 'c plugin_listener \<times> handle_outcome" where
  "handle_put conn l = (case pl_put_conn conn l of None \<Rightarrow> (l, HandleWaits) | Some (l', ok) \<Rightarrow> (l', HandlePut ok))"

definition px_handle ::
    "'u plugin_env \<Rightarrow> string option \<Rightarrow> proxied_request option \<Rightarrow> 'c \<Rightarrow> 'c http_proxy \<Rightarrow> 'c http_proxy \<times> handle_outcome" where
  "px_handle env firstBytes request conn hp =
     (case firstBytes of
        None \<Rightarrow> (hp, HandleClosed)
      | Some b \<Rightarrow>
          if map to_upper_char b = ''CONNECT'' then
            (case request of
               None \<Rightarrow> (hp, HandleClosed)
             | Some req \<Rightarrow> (hp, HandleServed (px_handle_connect_req env req hp)))
          else (case handle_put conn (px_l hp) of (l, r) \<Rightarrow> (hp\<lparr>px_l := l\<rparr>, r)))"

text \<open>Closing the HTTP server closes its listener, the second time changes nothing.\<close>

definition px_close :: "'c http_proxy \<Rightarrow> (unit, 'c http_proxy) go" where
  "px_close hp =
     go_then (pl_close (px_l hp)) (\<lambda>l. go_then (pl_close l) (\<lambda>l'. Ok (hp\<lparr>px_l := l'\<rparr>)))"

section \<open>Static files\<close>

record 'c static_file =
  sf_local_path :: string
  sf_strip_prefix :: string
  sf_http_user :: string
  sf_http_passwd :: string
  sf_prefix :: string
  sf_l :: "'c plugin_listener"

definition new_static_file_plugin :: "str_map \<Rightarrow> 'c static_file" where
  "new_static_file_plugin params =
     (let stripPrefix = param params ''plugin_strip_prefix'' in
      \<lparr>sf_local_path = param params ''plugin_local_path'', sf_strip_prefix = stripPrefix,
       sf_http_user = param params ''plugin_http_user'', sf_http_passwd = param params ''plugin_http_passwd'',
       sf_prefix = (if stripPrefix \<noteq> [] then ''/'' @ stripPrefix @ ''/'' else ''/''),
       sf_l = new_proxy_listener\<rparr>)"

text \<open>
  The router's only route is for \<^verbatim>\<open>GET\<close> below the prefix, the path being clean (the router redirects
  to it otherwise), and the guard is asked for requests with a
  route. \<open>FileServed\<close> has the path below the directory.
\<close>

datatype file_outcome = FileNotRouted | FileUnauthorized | FileServed string

definition sf_serve :: "string \<Rightarrow> string \<Rightarrow> (string \<times> string) option \<Rightarrow> 'c static_file \<Rightarrow> file_outcome" where
  "sf_serve meth path basicAuth sp =
     (if \<not> (prefix (sf_prefix sp) path \<and> meth = ''GET'') then FileNotRouted
      else if \<not> http_auth_middleware_serves (sf_http_user sp) (sf_http_passwd sp) basicAuth then FileUnauthorized
      else FileServed (trim_prefix (sf_prefix sp) path))"

definition sf_handle :: "'c \<Rightarrow> 'c static_file \<Rightarrow> 'c static_file \<times> handle_outcome" where
  "sf_handle conn sp = (case handle_put conn (sf_l sp) of (l, r) \<Rightarrow> (sp\<lparr>sf_l := l\<rparr>, r))"

definition sf_close :: "'c static_file \<Rightarrow> (unit, 'c static_file) go" where
  "sf_close sp = go_then (pl_close (sf_l sp)) (\<lambda>l. go_then (pl_close l) (\<lambda>l'. Ok (sp\<lparr>sf_l := l'\<rparr>)))"

section \<open>Unix domain sockets\<close>

record 'u unix_plugin = un_addr :: 'u

definition new_unix_plugin :: "'u plugin_env \<Rightarrow> str_map \<Rightarrow> string + 'u unix_plugin" where
  "new_unix_plugin env params =
     (case map_lookup params ''plugin_unix_path'' of
        None \<Rightarrow> Inl ''plugin_unix_path not found''
      | Some unixPath \<Rightarrow> (case pe_unix_addr env unixPath of Inl e \<Rightarrow> Inl e | Inr a \<Rightarrow> Inr \<lparr>un_addr = a\<rparr>))"

text \<open>When dialling fails the work connection is left open.\<close>

datatype 'u unix_outcome = UnixLeftOpen | UnixJoined 'u string

definition un_handle :: "'u plugin_env \<Rightarrow> string \<Rightarrow> 'u unix_plugin \<Rightarrow> 'u unix_outcome" where
  "un_handle env extraBufToLocal uds =
     (if \<not> pe_dial_unix_ok env (un_addr uds) then UnixLeftOpen else UnixJoined (un_addr uds) extraBufToLocal)"

section \<open>SOCKS\<close>

record socks5_plugin = s5_credentials :: "(string \<times> string) option"

definition new_socks5_plugin :: "str_map \<Rightarrow> socks5_plugin" where
  "new_socks5_plugin params =
     (let user = param params ''plugin_user''; passwd = param params ''plugin_passwd'' in
      \<lparr>s5_credentials = (if user \<noteq> [] \<or> passwd \<noteq> [] then Some (user, passwd) else None)\<rparr>)"

section \<open>From HTTPS or HTTP to HTTP or HTTPS\<close>

text \<open>
  The three plugins have the same fields. \<open>hs_name\<close> is what \<^verbatim>\<open>Name\<close> answers, \<open>hs_scheme\<close> is the
  scheme of the requests they send, \<open>hs_tls\<close> says that connections are accepted over TLS.
\<close>

record 'c https_plugin =
  hs_name :: string
  hs_crt_path :: string
  hs_key_path :: string
  hs_host_header_rewrite :: string
  hs_local_addr :: string
  hs_headers :: "string \<rightharpoonup> string"
  hs_scheme :: string
  hs_tls :: bool
  hs_l :: "'c plugin_listener"

definition header_param :: string where "header_param = ''plugin_header_''"

definition plugin_headers :: "(string \<times> string) list \<Rightarrow> string \<rightharpoonup> string" where
  "plugin_headers params =
     fold (\<lambda>(k, v) headers.
         if \<not> prefix header_param k then headers
         else let k' = trim_prefix header_param k in if k' \<noteq> [] then headers(k' \<mapsto> v) else headers)
       params Map.empty"

definition new_https_plugin :: "string \<Rightarrow> string \<Rightarrow> 'u plugin_env \<Rightarrow> str_map \<Rightarrow> string + 'c https_plugin" where
  "new_https_plugin name scheme env params =
     (let crtPath = param params ''plugin_crt_path''; keyPath = param params ''plugin_key_path'';
          localAddr = param params ''plugin_local_addr''
      in if crtPath = [] then Inl ''plugin_crt_path is required''
         else if keyPath = [] then Inl ''plugin_key_path is required''
         else if localAddr = [] then Inl ''plugin_local_addr is required''
         else (case pe_key_pair env crtPath keyPath of
                 Some e \<Rightarrow> Inl (''gen TLS config error: '' @ e)
               | None \<Rightarrow>
                   Inr \<lparr>hs_name = name, hs_crt_path = crtPath, hs_key_path = keyPath,
                        hs_host_header_rewrite = param params ''plugin_host_header_rewrite'', hs_local_addr = localAddr,
                        hs_headers = plugin_headers (pe_range env params), hs_scheme = scheme, hs_tls = True,
                        hs_l = new_proxy_listener\<rparr>))"

definition new_https2http_plugin :: "'u plugin_env \<Rightarrow> str_map \<Rightarrow> string + 'c https_plugin" where
  "new_https2http_plugin = new_https_plugin ''https2http'' ''http''"

text \<open>\<^verbatim>\<open>Name\<close> of this plugin returns the constant of the other one.\<close>

definition new_https2https_plugin :: "'u plugin_env \<Rightarrow> str_map \<Rightarrow> string + 'c https_plugin" where
  "new_https2https_plugin = new_https_plugin ''https2http'' ''https''"

text \<open>\<^verbatim>\<open>NewHTTP2HTTPSPlugin\<close> makes a value of the type of \<^verbatim>\<open>https2http\<close>.\<close>

definition new_http2https_plugin :: "'u plugin_env \<Rightarrow> str_map \<Rightarrow> string + 'c https_plugin" where
  "new_http2https_plugin env params =
     (let localAddr = param params ''plugin_local_addr'' in
      if localAddr = [] then Inl ''plugin_local_addr is required''
      else Inr \<lparr>hs_name = ''https2http'', hs_crt_path = [], hs_key_path = [],
                hs_host_header_rewrite = param params ''plugin_host_header_rewrite'', hs_local_addr = localAddr,
                hs_headers = plugin_headers (pe_range env params), hs_scheme = ''https'', hs_tls = False,
                hs_l = new_proxy_listener\<rparr>)"

text \<open>The director of the reverse proxy; \<open>keys\<close> is the order of the range over the headers.\<close>

definition hs_director :: "string list \<Rightarrow> 'c https_plugin \<Rightarrow> proxied_request \<Rightarrow> proxied_request" where
  "hs_director keys p req =
     req\<lparr>rp_url_scheme := hs_scheme p, rp_url_host := hs_local_addr p,
         rp_host := (if hs_host_header_rewrite p \<noteq> [] then hs_host_header_rewrite p else rp_host req),
         rp_headers := fold (\<lambda>k. header_set k (the (hs_headers p k))) keys (rp_headers req)\<rparr>"

definition hs_handle :: "'c \<Rightarrow> 'c https_plugin \<Rightarrow> 'c https_plugin \<times> handle_outcome" where
  "hs_handle conn p = (case handle_put conn (hs_l p) of (l, r) \<Rightarrow> (p\<lparr>hs_l := l\<rparr>, r))"

definition hs_close :: "'c https_plugin \<Rightarrow> (unit, 'c https_plugin) go" where
  "hs_close p = go_then (pl_close (hs_l p)) (\<lambda>l. Ok (p\<lparr>hs_l := l\<rparr>))"

section \<open>The plugins together\<close>

datatype ('c, 'u) client_plugin =
    PluginHTTPProxy "'c http_proxy"
  | PluginStaticFile "'c static_file"
  | PluginUnix "'u unix_plugin"
  | PluginSocks5 socks5_plugin
  | PluginHTTPS "'c https_plugin"

fun plugin_name :: "('c, 'u) client_plugin \<Rightarrow> string" where
  "plugin_name (PluginHTTPProxy _) = ''http_proxy''"
| "plugin_name (PluginStaticFile _) = ''static_file''"
| "plugin_name (PluginUnix _) = ''unix_domain_socket''"
| "plugin_name (PluginSocks5 _) = ''socks5''"
| "plugin_name (PluginHTTPS p) = hs_name p"

text \<open>The two plugins without a server have nothing to close.\<close>

fun plugin_close :: "('c, 'u) client_plugin \<Rightarrow> (unit, ('c, 'u) client_plugin) go" where
  "plugin_close (PluginHTTPProxy hp) = go_then (px_close hp) (\<lambda>hp'. Ok (PluginHTTPProxy hp'))"
| "plugin_close (PluginStaticFile sp) = go_then (sf_close sp) (\<lambda>sp'. Ok (PluginStaticFile sp'))"
| "plugin_close (PluginHTTPS p) = go_then (hs_close p) (\<lambda>p'. Ok (PluginHTTPS p'))"
| "plugin_close p = Ok p"

definition created :: "('p \<Rightarrow> 'g) \<Rightarrow> string + 'p \<Rightarrow> 'g option \<times> string option" where
  "created c r = (case r of Inl e \<Rightarrow> (None, Some e) | Inr p \<Rightarrow> (Some (c p), None))"

text \<open>What the \<^verbatim>\<open>init\<close> functions register.\<close>

definition std_creators :: "'u plugin_env \<Rightarrow> ('c, 'u) client_plugin plugin_creators" where
  "std_creators env =
     fold (\<lambda>(name, fn). register_creator name fn)
       [(''http_proxy'', \<lambda>params. (Some (PluginHTTPProxy (new_http_proxy_plugin params)), None)),
        (''static_file'', \<lambda>params. (Some (PluginStaticFile (new_static_file_plugin params)), None)),
        (''unix_domain_socket'', \<lambda>params. created PluginUnix (new_unix_plugin env params)),
        (''socks5'', \<lambda>params. (Some (PluginSocks5 (new_socks5_plugin params)), None)),
        (''https2http'', \<lambda>params. created PluginHTTPS (new_https2http_plugin env params)),
        (''https2https'', \<lambda>params. created PluginHTTPS (new_https2https_plugin env params)),
        (''http2https'', \<lambda>params. created PluginHTTPS (new_http2https_plugin env params))]
       Map.empty"

section \<open>Creating and closing\<close>

text \<open>A plugin answers to the name it was configured by, except that \<^verbatim>\<open>http2https\<close> and \<^verbatim>\<open>https2https\<close>
  answer \<^verbatim>\<open>https2http\<close>.\<close>

lemma created_Some [simp]: "created c r = (Some g, e) \<longleftrightarrow> (\<exists>p. r = Inr p \<and> g = c p \<and> e = None)"
  by (cases r) (auto simp: created_def)

lemma std_creators_dom:
  "std_creators env name \<noteq> None \<longleftrightarrow> name \<in> {''http_proxy'', ''static_file'', ''unix_domain_socket'', ''socks5'',
     ''https2http'', ''https2https'', ''http2https''}"
  by (simp add: std_creators_def register_creator_def)

lemma https_plugin_name:
  "new_https_plugin name scheme env params = Inr p \<Longrightarrow> hs_name p = name \<and> hs_scheme p = scheme"
  by (auto simp: new_https_plugin_def Let_def split: if_split_asm option.split_asm)

lemma http2https_plugin_name:
  "new_http2https_plugin env params = Inr p \<Longrightarrow> hs_name p = ''https2http'' \<and> hs_scheme p = ''https''"
  by (auto simp: new_http2https_plugin_def Let_def split: if_split_asm)

lemma https2https_plugin_name:
  "new_https2https_plugin env params = Inr p \<Longrightarrow> hs_name p = ''https2http'' \<and> hs_scheme p = ''https''"
  by (simp add: new_https2https_plugin_def https_plugin_name)

lemma created_plugin_name:
  assumes "plugin_create (std_creators env) name params = (Some p, e)"
  shows "plugin_name p = (if name = ''http2https'' \<or> name = ''https2https'' then ''https2http'' else name)"
  using assms
  by (auto simp: plugin_create_def std_creators_def register_creator_def new_https2http_plugin_def
      dest: https_plugin_name http2https_plugin_name https2https_plugin_name split: if_split_asm)

text \<open>The headers of a plugin do not depend on the order of the range over its parameters.\<close>

lemma plugin_headers_lookup:
  "distinct (map fst kvs) \<Longrightarrow> plugin_headers kvs k =
     (if k = [] then None else map_of kvs (header_param @ k))"
proof -
  let ?step = "\<lambda>(k, v) headers. if \<not> prefix header_param k then headers
         else let k' = trim_prefix header_param k in if k' \<noteq> [] then headers(k' \<mapsto> v) else headers"
  have "distinct (map fst kvs) \<Longrightarrow> fold ?step kvs h k =
     (if k = [] then h k else case map_of kvs (header_param @ k) of None \<Rightarrow> h k | Some v \<Rightarrow> Some v)" for h
  proof (induction kvs arbitrary: h)
    case (Cons kv kvs)
    obtain k0 v0 where kv: "kv = (k0, v0)" by (cases kv)
    have dist: "distinct (map fst kvs)" using Cons.prems by simp
    show ?case
    proof (cases "prefix header_param k0")
      case True
      then obtain k' where k0: "k0 = header_param @ k'" by (auto simp: prefix_def)
      have trim: "trim_prefix header_param k0 = k'" by (simp add: k0)
      have trim0: "trim_prefix header_param header_param = []" by (simp add: trim_prefix_def)
      have fresh: "map_of kvs k0 = None" using Cons.prems by (simp add: kv map_of_eq_None_iff)
      show ?thesis
        using Cons.IH [OF dist, of "?step kv h"] fresh trim
        by (cases "k = k'") (auto simp: kv k0 trim0 Let_def split: option.split)
    next
      case False
      then have "k0 \<noteq> header_param @ k" by (auto simp: prefix_def)
      with False show ?thesis using Cons.IH [OF dist, of h] by (auto simp: kv)
    qed
  qed simp
  then show "distinct (map fst kvs) \<Longrightarrow> plugin_headers kvs k = (if k = [] then None else map_of kvs (header_param @ k))"
    by (auto simp: plugin_headers_def split: option.split)
qed

text \<open>A new connection for a plugin that was closed is neither served nor closed.\<close>

lemma handle_after_close_leaks:
  "plugin_listener_ok l \<Longrightarrow> pl_closed l \<Longrightarrow> handle_put conn l = (l, HandlePut False)"
  by (simp add: handle_put_def pl_put_after_close)

section \<open>The guard of the HTTP proxy\<close>

text \<open>A request that carries the credentials in its header, whatever scheme it names.\<close>

definition carries_credentials :: "string \<Rightarrow> string \<Rightarrow> proxied_request \<Rightarrow> bool" where
  "carries_credentials user passwd req \<longleftrightarrow> CHR '':'' \<notin> set user \<and>
     (\<exists>scheme s. header_get (rp_headers req) ''Proxy-Authorization'' = scheme @ CHR '' '' # s \<and> CHR '' '' \<notin> set scheme \<and>
        b64_decode s = Some (user @ CHR '':'' # passwd))"

lemma carries_credentials_split:
  "carries_credentials user passwd req \<longleftrightarrow>
     (\<exists>scheme s b. split_two CHR '' '' (header_get (rp_headers req) ''Proxy-Authorization'') = Some (scheme, s) \<and>
        b64_decode s = Some b \<and> split_two CHR '':'' b = Some (user, passwd))"
  by (auto simp: carries_credentials_def split_two_Some)

lemma px_auth_iff:
  "px_auth req hp \<longleftrightarrow> px_auth_user hp = [] \<and> px_auth_passwd hp = [] \<or>
     carries_credentials (px_auth_user hp) (px_auth_passwd hp) req"
  by (auto simp: px_auth_def carries_credentials_split split: option.split)



end
