(* ===== verification/Metrics_Sinks.thy ===== *)
theory Metrics_Sinks
  imports Metrics
begin

text \<open>
  Where the server's metrics go: the fan-out of \<^verbatim>\<open>frp/pkg/metrics/aggregate/server.go\<close> to the
  collector in memory and to the gauges and counters of \<^verbatim>\<open>frp/pkg/metrics/prometheus/server.go\<close>.
  The Prometheus library is an argument: the values of a gauge and of a counter and what its methods
  make of them. A family with labels is a function of the labels, zero before its first use.
\<close>

section \<open>Prometheus\<close>

record ('g, 'c) prom_api =
  pr_gauge_zero :: 'g
  pr_inc :: "'g \<Rightarrow> 'g"
  pr_dec :: "'g \<Rightarrow> 'g"
  pr_counter_zero :: 'c
  pr_add :: "64 word \<Rightarrow> 'c \<Rightarrow> 'c"

record ('g, 'c) prom_metrics =
  pm_client_count :: 'g
  pm_proxy_count :: "string \<Rightarrow> 'g"
  pm_connection_count :: "string \<times> string \<Rightarrow> 'g"
  pm_traffic_in :: "string \<times> string \<Rightarrow> 'c"
  pm_traffic_out :: "string \<times> string \<Rightarrow> 'c"

definition new_prom_metrics :: "('g, 'c) prom_api \<Rightarrow> ('g, 'c) prom_metrics" where
  "new_prom_metrics api =
     \<lparr>pm_client_count = pr_gauge_zero api, pm_proxy_count = (\<lambda>_. pr_gauge_zero api),
      pm_connection_count = (\<lambda>_. pr_gauge_zero api), pm_traffic_in = (\<lambda>_. pr_counter_zero api),
      pm_traffic_out = (\<lambda>_. pr_counter_zero api)\<rparr>"

definition update :: "'k \<Rightarrow> ('v \<Rightarrow> 'v) \<Rightarrow> ('k \<Rightarrow> 'v) \<Rightarrow> 'k \<Rightarrow> 'v" where
  "update k f m = m(k := f (m k))"

definition prom_new_client :: "('g, 'c) prom_api \<Rightarrow> ('g, 'c) prom_metrics \<Rightarrow> ('g, 'c) prom_metrics" where
  "prom_new_client api m = m\<lparr>pm_client_count := pr_inc api (pm_client_count m)\<rparr>"

definition prom_close_client :: "('g, 'c) prom_api \<Rightarrow> ('g, 'c) prom_metrics \<Rightarrow> ('g, 'c) prom_metrics" where
  "prom_close_client api m = m\<lparr>pm_client_count := pr_dec api (pm_client_count m)\<rparr>"

definition prom_new_proxy :: "('g, 'c) prom_api \<Rightarrow> string \<Rightarrow> string \<Rightarrow> ('g, 'c) prom_metrics \<Rightarrow> ('g, 'c) prom_metrics" where
  "prom_new_proxy api name proxyType m = m\<lparr>pm_proxy_count := update proxyType (pr_inc api) (pm_proxy_count m)\<rparr>"

definition prom_close_proxy :: "('g, 'c) prom_api \<Rightarrow> string \<Rightarrow> string \<Rightarrow> ('g, 'c) prom_metrics \<Rightarrow> ('g, 'c) prom_metrics" where
  "prom_close_proxy api name proxyType m = m\<lparr>pm_proxy_count := update proxyType (pr_dec api) (pm_proxy_count m)\<rparr>"

definition prom_open_connection :: "('g, 'c) prom_api \<Rightarrow> string \<Rightarrow> string \<Rightarrow> ('g, 'c) prom_metrics \<Rightarrow> ('g, 'c) prom_metrics" where
  "prom_open_connection api name proxyType m =
     m\<lparr>pm_connection_count := update (name, proxyType) (pr_inc api) (pm_connection_count m)\<rparr>"

definition prom_close_connection :: "('g, 'c) prom_api \<Rightarrow> string \<Rightarrow> string \<Rightarrow> ('g, 'c) prom_metrics \<Rightarrow> ('g, 'c) prom_metrics" where
  "prom_close_connection api name proxyType m =
     m\<lparr>pm_connection_count := update (name, proxyType) (pr_dec api) (pm_connection_count m)\<rparr>"

definition prom_add_traffic_in ::
    "('g, 'c) prom_api \<Rightarrow> string \<Rightarrow> string \<Rightarrow> 64 word \<Rightarrow> ('g, 'c) prom_metrics \<Rightarrow> ('g, 'c) prom_metrics" where
  "prom_add_traffic_in api name proxyType trafficBytes m =
     m\<lparr>pm_traffic_in := update (name, proxyType) (pr_add api trafficBytes) (pm_traffic_in m)\<rparr>"

definition prom_add_traffic_out ::
    "('g, 'c) prom_api \<Rightarrow> string \<Rightarrow> string \<Rightarrow> 64 word \<Rightarrow> ('g, 'c) prom_metrics \<Rightarrow> ('g, 'c) prom_metrics" where
  "prom_add_traffic_out api name proxyType trafficBytes m =
     m\<lparr>pm_traffic_out := update (name, proxyType) (pr_add api trafficBytes) (pm_traffic_out m)\<rparr>"

fun prom_apply :: "('g, 'c) prom_api \<Rightarrow> metric_event \<Rightarrow> ('g, 'c) prom_metrics \<Rightarrow> ('g, 'c) prom_metrics" where
  "prom_apply api NewClient m = prom_new_client api m"
| "prom_apply api CloseClient m = prom_close_client api m"
| "prom_apply api (NewProxy n k) m = prom_new_proxy api n k m"
| "prom_apply api (CloseProxy n k) m = prom_close_proxy api n k m"
| "prom_apply api (OpenConnection n k) m = prom_open_connection api n k m"
| "prom_apply api (CloseConnection n k) m = prom_close_connection api n k m"
| "prom_apply api (AddTrafficIn n k b) m = prom_add_traffic_in api n k b m"
| "prom_apply api (AddTrafficOut n k b) m = prom_add_traffic_out api n k b m"

lemmas prom_defs = prom_new_client_def prom_close_client_def prom_new_proxy_def prom_close_proxy_def
  prom_open_connection_def prom_close_connection_def prom_add_traffic_in_def prom_add_traffic_out_def update_def

section \<open>The fan-out\<close>

text \<open>The sinks are the two global values, added in the order of the calls; adding one again makes it count twice.\<close>

datatype sink = MemSink | PromSink

record ('g, 'c) aggregate =
  ag_ms :: "sink list"
  ag_mem :: server_statistics
  ag_prom :: "('g, 'c) prom_metrics"

definition ag_add :: "sink \<Rightarrow> ('g, 'c) aggregate \<Rightarrow> ('g, 'c) aggregate" where
  "ag_add sm m = m\<lparr>ag_ms := ag_ms m @ [sm]\<rparr>"

definition enable_mem :: "('g, 'c) aggregate \<Rightarrow> ('g, 'c) aggregate" where
  "enable_mem = ag_add MemSink"

definition enable_prometheus :: "('g, 'c) aggregate \<Rightarrow> ('g, 'c) aggregate" where
  "enable_prometheus = ag_add PromSink"

definition for_sinks ::
    "(server_statistics \<Rightarrow> server_statistics) \<Rightarrow> (('g, 'c) prom_metrics \<Rightarrow> ('g, 'c) prom_metrics) \<Rightarrow>
     ('g, 'c) aggregate \<Rightarrow> ('g, 'c) aggregate" where
  "for_sinks f g m =
     fold (\<lambda>v s. case v of MemSink \<Rightarrow> s\<lparr>ag_mem := f (ag_mem s)\<rparr> | PromSink \<Rightarrow> s\<lparr>ag_prom := g (ag_prom s)\<rparr>) (ag_ms m) m"

definition ag_new_client :: "('g, 'c) prom_api \<Rightarrow> ('g, 'c) aggregate \<Rightarrow> ('g, 'c) aggregate" where
  "ag_new_client api = for_sinks sm_new_client (prom_new_client api)"

definition ag_close_client :: "('g, 'c) prom_api \<Rightarrow> ('g, 'c) aggregate \<Rightarrow> ('g, 'c) aggregate" where
  "ag_close_client api = for_sinks sm_close_client (prom_close_client api)"

definition ag_new_proxy :: "('g, 'c) prom_api \<Rightarrow> (int \<Rightarrow> int) \<Rightarrow> int \<Rightarrow> string \<Rightarrow> string \<Rightarrow> ('g, 'c) aggregate \<Rightarrow> ('g, 'c) aggregate" where
  "ag_new_proxy api midnight now name proxyType =
     for_sinks (sm_new_proxy midnight now name proxyType) (prom_new_proxy api name proxyType)"

definition ag_close_proxy :: "('g, 'c) prom_api \<Rightarrow> int \<Rightarrow> string \<Rightarrow> string \<Rightarrow> ('g, 'c) aggregate \<Rightarrow> ('g, 'c) aggregate" where
  "ag_close_proxy api now name proxyType =
     for_sinks (sm_close_proxy now name proxyType) (prom_close_proxy api name proxyType)"

definition ag_open_connection :: "('g, 'c) prom_api \<Rightarrow> string \<Rightarrow> string \<Rightarrow> ('g, 'c) aggregate \<Rightarrow> ('g, 'c) aggregate" where
  "ag_open_connection api name proxyType =
     for_sinks (sm_open_connection name proxyType) (prom_open_connection api name proxyType)"

definition ag_close_connection :: "('g, 'c) prom_api \<Rightarrow> string \<Rightarrow> string \<Rightarrow> ('g, 'c) aggregate \<Rightarrow> ('g, 'c) aggregate" where
  "ag_close_connection api name proxyType =
     for_sinks (sm_close_connection name proxyType) (prom_close_connection api name proxyType)"

definition ag_add_traffic_in ::
    "('g, 'c) prom_api \<Rightarrow> (int \<Rightarrow> int) \<Rightarrow> int \<Rightarrow> string \<Rightarrow> string \<Rightarrow> 64 word \<Rightarrow> ('g, 'c) aggregate \<Rightarrow> ('g, 'c) aggregate" where
  "ag_add_traffic_in api midnight now name proxyType trafficBytes =
     for_sinks (sm_add_traffic_in midnight now name proxyType trafficBytes) (prom_add_traffic_in api name proxyType trafficBytes)"

definition ag_add_traffic_out ::
    "('g, 'c) prom_api \<Rightarrow> (int \<Rightarrow> int) \<Rightarrow> int \<Rightarrow> string \<Rightarrow> string \<Rightarrow> 64 word \<Rightarrow> ('g, 'c) aggregate \<Rightarrow> ('g, 'c) aggregate" where
  "ag_add_traffic_out api midnight now name proxyType trafficBytes =
     for_sinks (sm_add_traffic_out midnight now name proxyType trafficBytes) (prom_add_traffic_out api name proxyType trafficBytes)"

fun ag_apply :: "('g, 'c) prom_api \<Rightarrow> (int \<Rightarrow> int) \<Rightarrow> int \<times> metric_event \<Rightarrow> ('g, 'c) aggregate \<Rightarrow> ('g, 'c) aggregate" where
  "ag_apply api midnight (now, NewClient) m = ag_new_client api m"
| "ag_apply api midnight (now, CloseClient) m = ag_close_client api m"
| "ag_apply api midnight (now, NewProxy n k) m = ag_new_proxy api midnight now n k m"
| "ag_apply api midnight (now, CloseProxy n k) m = ag_close_proxy api now n k m"
| "ag_apply api midnight (now, OpenConnection n k) m = ag_open_connection api n k m"
| "ag_apply api midnight (now, CloseConnection n k) m = ag_close_connection api n k m"
| "ag_apply api midnight (now, AddTrafficIn n k b) m = ag_add_traffic_in api midnight now n k b m"
| "ag_apply api midnight (now, AddTrafficOut n k b) m = ag_add_traffic_out api midnight now n k b m"

lemmas ag_defs = ag_new_client_def ag_close_client_def ag_new_proxy_def ag_close_proxy_def ag_open_connection_def
  ag_close_connection_def ag_add_traffic_in_def ag_add_traffic_out_def

section \<open>Each sink counts the events as if it were alone\<close>

text \<open>A sink that was added \<open>n\<close> times sees every event \<open>n\<close> times in a row, the others' presence changes nothing.\<close>

definition times :: "sink \<Rightarrow> ('g, 'c) aggregate \<Rightarrow> nat" where
  "times v m = count_list (ag_ms m) v"

lemma funpow_mem:
  "fold (\<lambda>v s. case v of MemSink \<Rightarrow> s\<lparr>ag_mem := f (ag_mem s)\<rparr> | PromSink \<Rightarrow> s\<lparr>ag_prom := g (ag_prom s)\<rparr>) vs m =
   m\<lparr>ag_mem := (f ^^ count_list vs MemSink) (ag_mem m), ag_prom := (g ^^ count_list vs PromSink) (ag_prom m)\<rparr>"
proof (induction vs arbitrary: m)
  case (Cons v vs)
  show ?case by (cases v) (simp_all add: Cons.IH funpow_swap1)
qed simp

lemma apply_funs:
  "sm_apply midnight (now, NewClient) = sm_new_client" "sm_apply midnight (now, CloseClient) = sm_close_client"
  "sm_apply midnight (now, NewProxy n k) = sm_new_proxy midnight now n k"
  "sm_apply midnight (now, CloseProxy n k) = sm_close_proxy now n k"
  "sm_apply midnight (now, OpenConnection n k) = sm_open_connection n k"
  "sm_apply midnight (now, CloseConnection n k) = sm_close_connection n k"
  "sm_apply midnight (now, AddTrafficIn n k b) = sm_add_traffic_in midnight now n k b"
  "sm_apply midnight (now, AddTrafficOut n k b) = sm_add_traffic_out midnight now n k b"
  "prom_apply api NewClient = prom_new_client api" "prom_apply api CloseClient = prom_close_client api"
  "prom_apply api (NewProxy n k) = prom_new_proxy api n k" "prom_apply api (CloseProxy n k) = prom_close_proxy api n k"
  "prom_apply api (OpenConnection n k) = prom_open_connection api n k"
  "prom_apply api (CloseConnection n k) = prom_close_connection api n k"
  "prom_apply api (AddTrafficIn n k b) = prom_add_traffic_in api n k b"
  "prom_apply api (AddTrafficOut n k b) = prom_add_traffic_out api n k b"
  by (simp_all add: fun_eq_iff)

lemma fold_skip: "fold (\<lambda>_. id) xs s = s"
  by (induction xs) simp_all

lemma ag_apply_sinks:
  "ag_apply api midnight ev m =
   m\<lparr>ag_mem := (sm_apply midnight ev ^^ times MemSink m) (ag_mem m),
     ag_prom := (prom_apply api (snd ev) ^^ times PromSink m) (ag_prom m)\<rparr>"
  by (cases ev; cases "snd ev") (simp_all add: ag_defs for_sinks_def funpow_mem times_def apply_funs)

lemma ag_apply_times [simp]: "times v (ag_apply api midnight ev m) = times v m"
  by (simp add: ag_apply_sinks) (simp add: times_def)

lemma ag_events_sinks:
  "fold (ag_apply api midnight) evs m =
   m\<lparr>ag_mem := fold (\<lambda>ev. sm_apply midnight ev ^^ times MemSink m) evs (ag_mem m),
     ag_prom := fold (\<lambda>ev. prom_apply api (snd ev) ^^ times PromSink m) evs (ag_prom m)\<rparr>"
  by (induction evs arbitrary: m) (simp_all, simp add: ag_apply_sinks)

text \<open>
  With the dashboard and Prometheus switched on once, as \<^verbatim>\<open>NewService\<close> does, the statistics in memory
  are those of the events and so are the gauges; without the dashboard nothing is counted.
\<close>

lemma sinks_as_enabled:
  assumes "ag_ms m = []"
  shows "fold (ag_apply api midnight) evs m = m"
    and "ag_mem (fold (ag_apply api midnight) evs (enable_mem m)) = fold (sm_apply midnight) evs (ag_mem m)"
    and "ag_mem (fold (ag_apply api midnight) evs (enable_prometheus (enable_mem m))) = fold (sm_apply midnight) evs (ag_mem m)"
    and "ag_prom (fold (ag_apply api midnight) evs (enable_prometheus (enable_mem m))) =
      fold (prom_apply api) (map snd evs) (ag_prom m)"
  using assms
  by (simp_all add: ag_events_sinks times_def enable_mem_def enable_prometheus_def ag_add_def fold_map comp_def fold_skip)

text \<open>
  With a library whose gauges go up and down by one, a gauge of connections is the openings of its
  proxy minus the closings.
\<close>

lemma connection_gauge:
  fixes val :: "'g \<Rightarrow> int"
  assumes "\<And>g. val (pr_inc api g) = val g + 1" and "\<And>g. val (pr_dec api g) = val g - 1"
  shows "val (pm_connection_count (fold (prom_apply api) evs m) (n, k)) =
    val (pm_connection_count m (n, k)) + int (count_list evs (OpenConnection n k)) - int (count_list evs (CloseConnection n k))"
proof (induction evs arbitrary: m)
  case (Cons ev evs)
  then show ?case by (cases ev) (auto simp: prom_defs assms)
qed simp

end
