(* ===== verification/Reverse_Proxy.thy ===== *)
theory Reverse_Proxy
  imports Vhost Http_Headers
begin

text \<open>
  The reverse proxy of the HTTP virtual hosts, \<^verbatim>\<open>frp/pkg/util/vhost/reverseproxy.go\<close>, frp's copy of
  \<^verbatim>\<open>net/http/httputil\<close>: what is sent to the backend for a request, what goes back for its answer,
  the copying of the body and its flushing. The transport, the response writer, \<^verbatim>\<open>net.SplitHostPort\<close>
  and the token search of \<^verbatim>\<open>httpguts\<close> are arguments. A list of values is empty for nil.
\<close>

section \<open>Paths\<close>

definition slash :: char where "slash = CHR 0x2F"

definition single_joining_slash :: "string \<Rightarrow> string \<Rightarrow> string" where
  "single_joining_slash a b =
     (let aslash = suffix [slash] a; bslash = prefix [slash] b in
      if aslash \<and> bslash then a @ drop 1 b
      else if \<not> aslash \<and> \<not> bslash then a @ slash # b
      else a @ b)"

text \<open>A URL's path, its raw path and what \<^verbatim>\<open>EscapedPath\<close> gives.\<close>

record url_path =
  up_path :: string
  up_raw_path :: string
  up_escaped :: string

definition join_url_path :: "url_path \<Rightarrow> url_path \<Rightarrow> (unit, string \<times> string) go" where
  "join_url_path a b =
     (if up_raw_path a = [] \<and> up_raw_path b = [] then Ok (single_joining_slash (up_path a) (up_path b), [])
      else
        let apath = up_escaped a; bpath = up_escaped b; aslash = suffix [slash] apath; bslash = prefix [slash] bpath in
        if aslash \<and> bslash then
          go_then (slice_from 1 (up_path b)) (\<lambda>b1. Ok (up_path a @ b1, apath @ drop 1 bpath))
        else if \<not> aslash \<and> \<not> bslash then Ok (up_path a @ slash # up_path b, apath @ slash # bpath)
        else Ok (up_path a @ up_path b, apath @ bpath))"

section \<open>The request to the backend\<close>

definition hop_header_keys :: "string list" where
  "hop_header_keys = [''Connection'', ''Proxy-Connection'', ''Keep-Alive'', ''Proxy-Authenticate'', ''Proxy-Authorization'',
     ''Te'', ''Trailer'', ''Transfer-Encoding'', ''Upgrade'']"

definition trim_ascii :: "string \<Rightarrow> string" where
  "trim_ascii s =
     (let sp = (\<lambda>c. c \<in> {CHR 0x20, CHR 0x09, CHR 0x0A, CHR 0x0D}) in rev (dropWhile sp (rev (dropWhile sp s))))"

text \<open>The keys listed in the \<^verbatim>\<open>Connection\<close> header, in order.\<close>

definition connection_keys :: "headers \<Rightarrow> string list" where
  "connection_keys h =
     filter (\<lambda>sf. sf \<noteq> []) (map trim_ascii (concat (map (split_on CHR '','') (header_values h ''Connection''))))"

definition remove_connection_headers :: "headers \<Rightarrow> headers" where
  "remove_connection_headers h = fold header_del (connection_keys h) h"

definition upgrade_type :: "(string list \<Rightarrow> string \<Rightarrow> bool) \<Rightarrow> headers \<Rightarrow> string" where
  "upgrade_type contains_token h =
     (if \<not> contains_token (header_values h ''Connection'') ''Upgrade'' then [] else to_lower (header_get h ''Upgrade''))"

definition strip_hop :: "string \<Rightarrow> headers \<Rightarrow> headers" where
  "strip_hop k h =
     (let hv = header_get h k in
      if hv = [] then h else if k = ''Te'' \<and> hv = ''trailers'' then h else header_del k h)"

definition forwarded_for :: "(string \<Rightarrow> (string \<times> string) option) \<Rightarrow> string \<Rightarrow> headers \<Rightarrow> headers" where
  "forwarded_for split_host_port remoteAddr h =
     (case split_host_port remoteAddr of
        None \<Rightarrow> h
      | Some (clientIP, _) \<Rightarrow>
          let prior = h ''X-Forwarded-For''; omit = (prior = Some []);
              ip = (case prior of Some (v # vs) \<Rightarrow> join '', '' (v # vs) @ '', '' @ clientIP | _ \<Rightarrow> clientIP)
          in if omit then h else header_set ''X-Forwarded-For'' ip h)"

record rp_env =
  re_contains_token :: "string list \<Rightarrow> string \<Rightarrow> bool"
  re_split_host_port :: "string \<Rightarrow> (string \<times> string) option"

text \<open>The headers of the request to the backend, from those that the director left.\<close>

definition backend_headers :: "rp_env \<Rightarrow> string \<Rightarrow> headers \<Rightarrow> headers" where
  "backend_headers env remoteAddr h =
     (let reqUpType = upgrade_type (re_contains_token env) h;
          h1 = fold strip_hop hop_header_keys (remove_connection_headers h);
          h2 = (if reqUpType \<noteq> [] then header_set ''Upgrade'' reqUpType (header_set ''Connection'' ''Upgrade'' h1) else h1)
      in forwarded_for (re_split_host_port env) remoteAddr h2)"

definition out_request :: "rp_env \<Rightarrow> (http_request \<Rightarrow> http_request) \<Rightarrow> http_request \<Rightarrow> http_request" where
  "out_request env dir req =
     (let outreq = dir req in outreq\<lparr>rq_headers := backend_headers env (rq_remote_addr req) (rq_headers outreq)\<rparr>)"

section \<open>Copying the body\<close>

text \<open>
  \<^verbatim>\<open>copyBuffer\<close> over what the reads of the body give and what the writes answer; \<open>None\<close> while there is
  no further read, otherwise the bytes that were written and the error.
\<close>

datatype read_end = ReadMore | ReadEOF | ReadErr string
datatype copy_error = CopyRead string | CopyWrite string | CopyShortWrite

fun copy_buffer :: "(string \<Rightarrow> nat \<times> string option) \<Rightarrow> (string \<times> read_end) list \<Rightarrow> nat \<Rightarrow> (nat \<times> copy_error option) option" where
  "copy_buffer write [] written = None"
| "copy_buffer write ((chunk, rerr) # reads) written =
     (let finish = (\<lambda>written. case rerr of
             ReadMore \<Rightarrow> copy_buffer write reads written
           | ReadEOF \<Rightarrow> Some (written, None)
           | ReadErr e \<Rightarrow> Some (written, Some (CopyRead e)))
      in if chunk \<noteq> [] then
           (case write chunk of
              (nw, Some e) \<Rightarrow> Some (written + nw, Some (CopyWrite e))
            | (nw, None) \<Rightarrow> if length chunk \<noteq> nw then Some (written + nw, Some CopyShortWrite) else finish (written + nw))
         else finish written)"

definition flush_interval :: "int \<Rightarrow> headers \<Rightarrow> int \<Rightarrow> int" where
  "flush_interval flushInterval h contentLength =
     (if header_get h ''Content-Type'' = ''text/event-stream'' then - 1
      else if contentLength = - 1 then - 1
      else flushInterval)"

subsection \<open>The writer with a maximal latency\<close>

text \<open>
  \<open>mw_waiting\<close> is what was written since the last flush, \<open>mw_armed\<close> says that the timer runs. The timer
  fires as \<open>mw_delayed_flush\<close>, after which it does not run.
\<close>

record latency_writer =
  mw_latency :: int
  mw_flush_pending :: bool
  mw_has_timer :: bool
  mw_armed :: bool
  mw_waiting :: string
  mw_flushed :: string

definition mw_new :: "int \<Rightarrow> latency_writer" where
  "mw_new latency =
     \<lparr>mw_latency = latency, mw_flush_pending = True, mw_has_timer = True, mw_armed = True, mw_waiting = [], mw_flushed = []\<rparr>"

definition mw_flush :: "latency_writer \<Rightarrow> latency_writer" where
  "mw_flush m = m\<lparr>mw_flushed := mw_flushed m @ mw_waiting m, mw_waiting := []\<rparr>"

definition mw_write :: "string \<Rightarrow> latency_writer \<Rightarrow> latency_writer" where
  "mw_write p m0 =
     (let m = m0\<lparr>mw_waiting := mw_waiting m0 @ p\<rparr> in
      if mw_latency m < 0 then mw_flush m
      else if mw_flush_pending m then m
      else m\<lparr>mw_has_timer := True, mw_armed := True, mw_flush_pending := True\<rparr>)"

definition mw_delayed_flush :: "latency_writer \<Rightarrow> latency_writer" where
  "mw_delayed_flush m0 =
     (let m = m0\<lparr>mw_armed := False\<rparr> in
      if \<not> mw_flush_pending m then m else (mw_flush m)\<lparr>mw_flush_pending := False\<rparr>)"

definition mw_stop :: "latency_writer \<Rightarrow> latency_writer" where
  "mw_stop m = m\<lparr>mw_flush_pending := False, mw_armed := (if mw_has_timer m then False else mw_armed m)\<rparr>"

text \<open>The operations between the start and \<^verbatim>\<open>stop\<close>: writes, and the timer when it runs.\<close>

inductive mw_run :: "int \<Rightarrow> string \<Rightarrow> latency_writer \<Rightarrow> bool" for latency where
  mw_start: "mw_run latency [] (mw_new latency)"
| mw_wrote: "mw_run latency s m \<Longrightarrow> mw_run latency (s @ p) (mw_write p m)"
| mw_fired: "mw_run latency s m \<Longrightarrow> mw_armed m \<Longrightarrow> mw_run latency s (mw_delayed_flush m)"

lemma mw_run_inv:
  "mw_run latency s m \<Longrightarrow> mw_latency m = latency \<and> mw_flushed m @ mw_waiting m = s \<and> mw_has_timer m \<and>
     (latency < 0 \<longrightarrow> mw_waiting m = []) \<and> (mw_waiting m \<noteq> [] \<longrightarrow> mw_flush_pending m) \<and> (mw_flush_pending m \<longrightarrow> mw_armed m)"
  by (induction rule: mw_run.induct)
    (auto simp: mw_new_def mw_write_def mw_delayed_flush_def mw_flush_def Let_def)

text \<open>
  No written byte waits without a timer that will flush it, none waits at all with a negative latency,
  and when the timer fires everything written so far is flushed.
\<close>

lemma latency_writer_flushes:
  assumes "mw_run latency s m"
  shows "mw_waiting m \<noteq> [] \<Longrightarrow> mw_armed m" and "latency < 0 \<Longrightarrow> mw_flushed m = s"
    and "mw_armed m \<Longrightarrow> mw_flushed (mw_delayed_flush m) = s"
  using mw_run_inv [OF assms] by (auto simp: mw_delayed_flush_def mw_flush_def Let_def)

section \<open>The answer\<close>

text \<open>The trailers are those known before the body was read.\<close>

record http_response =
  hr_status :: int
  hr_headers :: headers
  hr_content_length :: int

definition out_headers :: "headers \<Rightarrow> headers" where
  "out_headers h = fold header_del hop_header_keys (remove_connection_headers h)"

text \<open>After the body: the trailers, under their own keys when only the announced ones came.\<close>

definition trailer_prefix :: string where "trailer_prefix = ''Trailer:''"

definition rp_trailers :: "nat \<Rightarrow> string list \<Rightarrow> headers \<Rightarrow> headers \<Rightarrow> headers" where
  "rp_trailers announcedTrailers keys trailer h =
     (if length keys = announcedTrailers then copy_header keys trailer h
      else fold (\<lambda>k. fold (header_add (trailer_prefix @ k)) (header_values trailer k)) keys h)"

section \<open>What reaches the backend and the client\<close>

lemma hop_canonical: "k \<in> set hop_header_keys \<Longrightarrow> canonical_key k = k"
proof -
  have "list_all (\<lambda>k. canonical_key k = k) hop_header_keys" by code_simp
  then show "k \<in> set hop_header_keys \<Longrightarrow> canonical_key k = k" by (simp add: list_all_iff)
qed

lemma forwarded_for_canonical: "canonical_key ''X-Forwarded-For'' = ''X-Forwarded-For''"
  by code_simp

lemma remove_connection_headers_at:
  "remove_connection_headers h k = (if k \<in> canonical_key ` set (connection_keys h) then None else h k)"
  by (simp add: remove_connection_headers_def fold_header_del)

definition stripped :: "headers \<Rightarrow> string \<Rightarrow> bool" where
  "stripped h k \<longleftrightarrow> header_get h k \<noteq> [] \<and> \<not> (k = ''Te'' \<and> header_get h k = ''trailers'')"

lemma strip_hop_at:
  "canonical_key k' = k' \<Longrightarrow> strip_hop k' h k = (if k = k' \<and> stripped h k then None else h k)"
  by (auto simp: strip_hop_def header_del_def stripped_def Let_def)

lemma stripped_strip_hop:
  assumes "canonical_key k' = k'" and "canonical_key k = k"
  shows "stripped (strip_hop k' h) k \<longleftrightarrow> stripped h k \<and> k \<noteq> k'"
  using assms by (auto simp: stripped_def [of "strip_hop k' h"] header_get_def [of "strip_hop k' h"] strip_hop_at
      stripped_def [of h] header_get_def [of h])

lemma fold_strip_hop:
  assumes "\<forall>k \<in> set ks. canonical_key k = k"
  shows "fold strip_hop ks h k = (if k \<in> set ks \<and> stripped h k then None else h k)"
  using assms
proof (induction ks arbitrary: h)
  case (Cons k' ks)
  then show ?case by (cases "k \<in> set ks") (auto simp: strip_hop_at stripped_strip_hop)
qed simp

lemma forwarded_for_other: "k \<noteq> ''X-Forwarded-For'' \<Longrightarrow> forwarded_for split remoteAddr h k = h k"
  by (auto simp: forwarded_for_def header_set_def forwarded_for_canonical Let_def split: option.split list.split)

lemma join_snoc: "vs \<noteq> [] \<Longrightarrow> join sep (vs @ [v]) = join sep vs @ sep @ v"
proof (induction vs)
  case (Cons w ws)
  then show ?case by (cases "ws = []") (simp_all add: join_Cons)
qed simp

lemma forwarded_for_get:
  assumes "split remoteAddr = Some (ip, port)" and "h ''X-Forwarded-For'' \<noteq> Some []"
  shows "header_get (forwarded_for split remoteAddr h) ''X-Forwarded-For'' = join '', '' (header_values h ''X-Forwarded-For'' @ [ip])"
proof (cases "h ''X-Forwarded-For''")
  case None
  with assms(1) show ?thesis
    by (simp add: forwarded_for_def header_get_def header_set_def header_values_def forwarded_for_canonical)
next
  case (Some vs)
  with assms(2) obtain w ws where vs: "vs = w # ws" by (cases vs) auto
  have "join '', '' ((w # ws) @ [ip]) = join '', '' (w # ws) @ '', '' @ ip" by (rule join_snoc) simp
  with assms(1) Some vs show ?thesis
    by (simp add: forwarded_for_def header_get_def header_set_def header_values_def forwarded_for_canonical)
qed

text \<open>The headers before \<^verbatim>\<open>X-Forwarded-For\<close> is set, one key at a time.\<close>

definition listed :: "headers \<Rightarrow> string set" where
  "listed h = canonical_key ` set (connection_keys h)"

lemma stripped_headers_at:
  "fold strip_hop hop_header_keys (remove_connection_headers h) k =
     (if k \<in> listed h \<or> k \<in> set hop_header_keys \<and> stripped h k then None else h k)"
proof -
  have "stripped (remove_connection_headers h) k \<longleftrightarrow> stripped h k" if "k \<notin> listed h" "k \<in> set hop_header_keys"
    using that hop_canonical [OF that(2)]
    by (simp add: stripped_def header_get_def remove_connection_headers_at listed_def)
  then show ?thesis
    using hop_canonical by (auto simp: fold_strip_hop remove_connection_headers_at listed_def)
qed

lemma backend_headers_at:
  assumes "k \<noteq> ''X-Forwarded-For''"
  shows "backend_headers env remoteAddr h k =
    (let up = upgrade_type (re_contains_token env) h in
     if up \<noteq> [] \<and> k = ''Upgrade'' then Some [up] else if up \<noteq> [] \<and> k = ''Connection'' then Some [''Upgrade'']
     else if k \<in> listed h \<or> k \<in> set hop_header_keys \<and> stripped h k then None else h k)"
proof -
  have "canonical_key ''Upgrade'' = ''Upgrade''" "canonical_key ''Connection'' = ''Connection''"
    by (rule hop_canonical, simp add: hop_header_keys_def)+
  with assms show ?thesis
    by (simp add: backend_headers_def forwarded_for_other header_set_def stripped_headers_at Let_def)
qed

lemma backend_hop_get:
  assumes k: "k \<in> set hop_header_keys"
  shows "header_get (backend_headers env remoteAddr h) k =
    (let up = upgrade_type (re_contains_token env) h in
     if up \<noteq> [] \<and> k = ''Connection'' then ''Upgrade'' else if up \<noteq> [] \<and> k = ''Upgrade'' then up
     else if k = ''Te'' \<and> k \<notin> listed h \<and> header_get h k = ''trailers'' then ''trailers'' else [])"
proof -
  from k have "k \<noteq> ''X-Forwarded-For''" by (auto simp: hop_header_keys_def)
  note at = backend_headers_at [OF this, of env remoteAddr h]
  have get: "header_get g k = (case g k of Some (v # vs) \<Rightarrow> v | _ \<Rightarrow> [])" for g
    by (simp add: header_get_def hop_canonical [OF k])
  show ?thesis unfolding get [of "backend_headers env remoteAddr h"] at Let_def
    using k get [of h] by (auto simp: stripped_def)
qed

lemma backend_other:
  assumes "k \<notin> set hop_header_keys" and "k \<noteq> ''X-Forwarded-For''"
  shows "backend_headers env remoteAddr h k = (if k \<in> listed h then None else h k)"
proof -
  from assms(1) have "k \<noteq> ''Upgrade''" "k \<noteq> ''Connection''" by (auto simp: hop_header_keys_def)
  with backend_headers_at [OF assms(2), of env remoteAddr h] assms(1) show ?thesis by (simp add: Let_def)
qed

lemma backend_forwarded:
  assumes "re_split_host_port env remoteAddr = Some (ip, port)" and "h ''X-Forwarded-For'' \<noteq> Some []"
  shows "header_get (backend_headers env remoteAddr h) ''X-Forwarded-For'' =
    join '', '' ((if ''X-Forwarded-For'' \<in> listed h then [] else header_values h ''X-Forwarded-For'') @ [ip])"
proof -
  let ?up = "upgrade_type (re_contains_token env) h" and ?h1 = "fold strip_hop hop_header_keys (remove_connection_headers h)"
  define h2 where "h2 = (if ?up \<noteq> [] then header_set ''Upgrade'' ?up (header_set ''Connection'' ''Upgrade'' ?h1) else ?h1)"
  have "''X-Forwarded-For'' \<notin> set hop_header_keys" by (simp add: hop_header_keys_def)
  moreover have "canonical_key ''Upgrade'' = ''Upgrade''" "canonical_key ''Connection'' = ''Connection''"
    by (rule hop_canonical, simp add: hop_header_keys_def)+
  ultimately have at: "h2 ''X-Forwarded-For'' = (if ''X-Forwarded-For'' \<in> listed h then None else h ''X-Forwarded-For'')"
    by (simp add: h2_def header_set_def stripped_headers_at)
  with assms(2) have "h2 ''X-Forwarded-For'' \<noteq> Some []" by simp
  from forwarded_for_get [of "re_split_host_port env" remoteAddr ip port h2, OF assms(1) this] at show ?thesis
    by (simp add: backend_headers_def Let_def h2_def [symmetric] header_values_def)
qed

lemma answer_without_hop: "k \<in> set hop_header_keys \<Longrightarrow> out_headers answer k = None"
  using hop_canonical [of k] by (force simp: out_headers_def fold_header_del)



text \<open>
  A header whose first value is empty is not removed: with an empty \<^verbatim>\<open>Connection\<close> header before
  another one, what the second lists is removed while the headers themselves reach the backend.
\<close>

lemma empty_connection_header_forwarded:
  assumes "h ''Connection'' = Some ([] # vs)" and "''Connection'' \<notin> listed h"
    and "upgrade_type (re_contains_token env) h = []"
  shows "backend_headers env remoteAddr h ''Connection'' = Some ([] # vs)"
proof -
  have "canonical_key ''Connection'' = ''Connection''" by (rule hop_canonical) (simp add: hop_header_keys_def)
  with assms show ?thesis by (simp add: backend_headers_at Let_def stripped_def header_get_def)
qed

section \<open>The body\<close>

text \<open>When every write takes all of its bytes, the whole body up to its end is copied, without an error.\<close>

lemma copy_buffer_exact:
  assumes "\<And>chunk. write chunk = (length chunk, None)"
  shows "copy_buffer write (map (\<lambda>c. (c, ReadMore)) chunks @ (final, ReadEOF) # rest) n =
    Some (n + length (concat chunks) + length final, None)"
  by (induction chunks arbitrary: n) (simp_all add: assms Let_def)

text \<open>An error of a read or a write, and a write that stops short, end the copying with that error.\<close>

lemma copy_buffer_result:
  "copy_buffer write reads n = Some (m, e) \<Longrightarrow> e = None \<Longrightarrow>
   \<exists>chunks final rest. reads = map (\<lambda>c. (c, ReadMore)) chunks @ (final, ReadEOF) # rest \<and> m = n + length (concat chunks) + length final"
proof (induction reads arbitrary: n)
  case (Cons r reads)
  obtain chunk rerr where r: "r = (chunk, rerr)" by (cases r)
  show ?case
  proof (cases rerr)
    case ReadMore
    from Cons.prems r ReadMore have "copy_buffer write reads (n + length chunk) = Some (m, e)"
      by (auto simp: Let_def split: if_split_asm prod.split_asm option.split_asm)
    from Cons.IH [OF this Cons.prems(2)] obtain chunks final rest where
      "reads = map (\<lambda>c. (c, ReadMore)) chunks @ (final, ReadEOF) # rest" "m = n + length chunk + length (concat chunks) + length final"
      by blast
    with r ReadMore show ?thesis by (intro exI [of _ "chunk # chunks"] exI) auto
  next
    case ReadEOF
    from Cons.prems r ReadEOF have "m = n + length chunk"
      by (auto simp: Let_def split: if_split_asm prod.split_asm option.split_asm)
    with r ReadEOF show ?thesis by (intro exI [of _ "[]"] exI) auto
  next
    case (ReadErr err)
    with Cons.prems r show ?thesis by (auto simp: Let_def split: if_split_asm prod.split_asm option.split_asm)
  qed
qed simp

section \<open>Joined paths\<close>

text \<open>Between two paths there is exactly one slash at the seam.\<close>

lemma single_joining_slash_seam:
  "single_joining_slash (a @ [slash]) (slash # b) = a @ slash # b"
  "single_joining_slash (a @ [slash]) b = a @ slash # (if prefix [slash] b then tl b else b)"
  "\<not> suffix [slash] a \<Longrightarrow> \<not> prefix [slash] b \<Longrightarrow> single_joining_slash a b = a @ slash # b"
  by (auto simp: single_joining_slash_def Let_def drop_Suc prefix_def)

end
