(* ===== verification/Vhost_Pages.thy ===== *)
theory Vhost_Pages
  imports Http_Headers Util
begin

text \<open>
  The canned answers of the virtual hosts, \<^verbatim>\<open>frp/pkg/util/vhost/resource.go\<close> and \<^verbatim>\<open>OkResponse\<close> of
  \<^verbatim>\<open>frp/pkg/util/util/http.go\<close>, and the canonical host names of the latter. Reading a file and
  \<^verbatim>\<open>net.SplitHostPort\<close> are arguments.
\<close>

section \<open>Answers\<close>

record canned_response =
  cr_status :: string
  cr_status_code :: int
  cr_proto :: "string \<times> int \<times> int"
  cr_headers :: headers
  cr_body :: string

definition not_found_page :: string where
  "not_found_page = join [CHR 0x0A]
    [''<!DOCTYPE html>'',
     ''<html>'',
     ''<head>'',
     ''<title>Not Found</title>'',
     ''<style>'',
     ''    body {'',
     ''        width: 35em;'',
     ''        margin: 0 auto;'',
     ''        font-family: Tahoma, Verdana, Arial, sans-serif;'',
     ''    }'',
     ''</style>'',
     ''</head>'',
     ''<body>'',
     ''<h1>The page you requested was not found.</h1>'',
     ''<p>Sorry, the page you are looking for is currently unavailable.<br/>'',
     ''Please try again later.</p>'',
     ''<p>The server is powered by <a href=\"https://github.com/fatedier/frp\">frp</a>.</p>'',
     ''<p><em>Faithfully yours, frp.</em></p>'',
     ''</body>'',
     ''</html>'',
     []]"

definition get_not_found_page_content :: "(string \<Rightarrow> string option) \<Rightarrow> string \<Rightarrow> string" where
  "get_not_found_page_content read notFoundPagePath =
     (if notFoundPagePath \<noteq> [] then (case read notFoundPagePath of None \<Rightarrow> not_found_page | Some buf \<Rightarrow> buf)
      else not_found_page)"

definition not_found_response :: "(string \<Rightarrow> string option) \<Rightarrow> string \<Rightarrow> canned_response" where
  "not_found_response read notFoundPagePath =
     \<lparr>cr_status = ''Not Found'', cr_status_code = 404, cr_proto = (''HTTP/1.0'', 1, 0),
      cr_headers = header_set ''Content-Type'' ''text/html'' (header_set ''server'' (''frp/'' @ version_full) Map.empty),
      cr_body = get_not_found_page_content read notFoundPagePath\<rparr>"

definition no_auth_response :: canned_response where
  "no_auth_response =
     \<lparr>cr_status = ''401 Not authorized'', cr_status_code = 401, cr_proto = (''HTTP/1.1'', 1, 1),
      cr_headers = [''WWW-Authenticate'' \<mapsto> [''Basic realm=\"Restricted\"'']], cr_body = []\<rparr>"

definition ok_response :: canned_response where
  "ok_response =
     \<lparr>cr_status = ''OK'', cr_status_code = 200, cr_proto = (''HTTP/1.1'', 1, 1), cr_headers = Map.empty, cr_body = []\<rparr>"

text \<open>A custom page that cannot be read falls back to the page of the program.\<close>

lemma not_found_page_falls_back:
  "(\<forall>page. notFoundPagePath \<noteq> [] \<longrightarrow> read notFoundPagePath \<noteq> Some page) \<Longrightarrow>
   cr_body (not_found_response read notFoundPagePath) = not_found_page"
  by (auto simp: not_found_response_def get_not_found_page_content_def split: option.split)

lemma not_found_server_header:
  "header_get (cr_headers (not_found_response read p)) ''Server'' = ''frp/0.35.1''"
  by code_simp

section \<open>Canonical host names\<close>

definition has_port :: "string \<Rightarrow> bool" where
  "has_port host =
     (let colons = count_list host CHR '':'' in
      if colons = 0 then False
      else if colons = 1 then True
      else hd host = CHR ''['' \<and> sublist '']:'' host)"

definition canonical_host :: "(string \<Rightarrow> string + string \<times> string) \<Rightarrow> string \<Rightarrow> string + string" where
  "canonical_host split_host_port host0 =
     (let host = to_lower host0 in
      case (if has_port host then (case split_host_port host of Inl e \<Rightarrow> Inl e | Inr (h, _) \<Rightarrow> Inr h) else Inr host) of
        Inl e \<Rightarrow> Inl e
      | Inr h \<Rightarrow> Inr (trim_suffix ''.'' h))"

text \<open>Without a port the canonical name only loses its case and a final dot.\<close>

lemma canonical_host_plain:
  "CHR '':'' \<notin> set (to_lower host) \<Longrightarrow> canonical_host split_host_port host = Inr (trim_suffix ''.'' (to_lower host))"
  by (simp add: canonical_host_def has_port_def Let_def count_list_0_iff)

text \<open>\<^verbatim>\<open>GetHostFromAddr\<close>, which the program uses instead, makes a bracket of an IPv6 address.\<close>

lemma host_of_ipv6: "get_host_from_addr ''[::1]:80'' = ''[''"
  by code_simp

end
