(* ===== verification/Group_Workers.thy ===== *)
theory Group_Workers
  imports Load_Groups
begin

text \<open>
  How connections get from the real listener of a group to its members: the goroutines \<^verbatim>\<open>worker\<close> of
  \<^verbatim>\<open>frp/server/group/tcp.go\<close> and \<^verbatim>\<open>tcpmux.go\<close>, which are the same, with the channel \<^verbatim>\<open>acceptCh\<close>, which has
  no buffer: a connection that the worker offers waits until a member receives it or the channel is closed.
\<close>

section \<open>The worker\<close>

text \<open>
  \<open>gw_offer\<close> is the connection that the worker is sending; \<open>gw_ended\<close> says that it has returned. A send on
  a closed channel panics, which \<^verbatim>\<open>PanicToError\<close> turns into the error that ends the worker.
\<close>

record 'c group_worker =
  gw_offer :: "'c option"
  gw_closed :: bool
  gw_ended :: bool

definition new_group_worker :: "'c group_worker" where
  "new_group_worker = \<lparr>gw_offer = None, gw_closed = False, gw_ended = False\<rparr>"

text \<open>A turn of the worker that is not sending, with what \<^verbatim>\<open>Accept\<close> of the real listener gives.\<close>

definition tg_worker_turn :: "'c option \<Rightarrow> 'c group_worker \<Rightarrow> 'c group_worker" where
  "tg_worker_turn got w =
     (case got of
        None \<Rightarrow> w\<lparr>gw_ended := True\<rparr>
      | Some c \<Rightarrow> if gw_closed w then w\<lparr>gw_ended := True\<rparr> else w\<lparr>gw_offer := Some c\<rparr>)"

definition mg_worker_turn :: "'c option \<Rightarrow> 'c group_worker \<Rightarrow> 'c group_worker" where
  "mg_worker_turn got w =
     (case got of
        None \<Rightarrow> w\<lparr>gw_ended := True\<rparr>
      | Some c \<Rightarrow> if gw_closed w then w\<lparr>gw_ended := True\<rparr> else w\<lparr>gw_offer := Some c\<rparr>)"

text \<open>A member's receive: \<open>None\<close> while it waits; a closed channel gives no connection.\<close>

definition group_receive :: "'c group_worker \<Rightarrow> ('c group_worker \<times> 'c option) option" where
  "group_receive w =
     (if gw_closed w then Some (w, None)
      else case gw_offer w of None \<Rightarrow> None | Some c \<Rightarrow> Some (w\<lparr>gw_offer := None\<rparr>, Some c))"

text \<open>Closing \<^verbatim>\<open>acceptCh\<close> when the last member leaves: a waiting send panics, and the worker ends.\<close>

definition close_accept_ch :: "'c group_worker \<Rightarrow> (unit, 'c group_worker) go" where
  "close_accept_ch w =
     (if gw_closed w then Panic
      else Ok (w\<lparr>gw_closed := True, gw_offer := None, gw_ended := gw_ended w \<or> gw_offer w \<noteq> None\<rparr>))"

section \<open>Every connection goes to one member\<close>

text \<open>
  The histories of a group between its first and its last member: \<open>acc\<close> are the connections the real
  listener accepted, \<open>dlv\<close> those received, with the member. Both workers do the same.
\<close>

lemma mg_worker_turn_eq: "mg_worker_turn = tg_worker_turn"
  by (intro ext) (simp add: mg_worker_turn_def tg_worker_turn_def)

inductive group_conns :: "'c list \<Rightarrow> ('m \<times> 'c) list \<Rightarrow> 'c group_worker \<Rightarrow> bool" where
  gc_start: "group_conns [] [] new_group_worker"
| gc_turn: "group_conns acc dlv w \<Longrightarrow> \<not> gw_ended w \<Longrightarrow> gw_offer w = None \<Longrightarrow>
     group_conns (case got of None \<Rightarrow> acc | Some c \<Rightarrow> acc @ [c]) dlv (tg_worker_turn got w)"
| gc_receive: "group_conns acc dlv w \<Longrightarrow> group_receive w = Some (w', Some c) \<Longrightarrow> group_conns acc (dlv @ [(m, c)]) w'"
| gc_close: "group_conns acc dlv w \<Longrightarrow> close_accept_ch w = Ok w' \<Longrightarrow> group_conns acc dlv w'"

lemma group_conns_inv:
  "group_conns acc dlv w \<Longrightarrow>
     (gw_offer w \<noteq> None \<longrightarrow> acc = map snd dlv @ [the (gw_offer w)] \<and> \<not> gw_closed w \<and> \<not> gw_ended w) \<and>
     (gw_offer w = None \<and> \<not> gw_closed w \<longrightarrow> acc = map snd dlv) \<and>
     (gw_closed w \<and> \<not> gw_ended w \<longrightarrow> acc = map snd dlv) \<and>
     (gw_ended w \<longrightarrow> acc = map snd dlv \<or> (\<exists>c. acc = map snd dlv @ [c] \<and> gw_closed w))"
proof (induction rule: group_conns.induct)
  case (gc_turn acc dlv w got)
  then show ?case by (cases got) (auto simp: tg_worker_turn_def)
next
  case (gc_receive acc dlv w w' c m)
  then show ?case by (auto simp: group_receive_def split: if_split_asm option.split_asm)
next
  case (gc_close acc dlv w w')
  then show ?case by (cases "gw_offer w") (auto simp: close_accept_ch_def split: if_split_asm)
qed (simp add: new_group_worker_def)

text \<open>
  The connections are received once each, by one member, in the order they were accepted; only the last
  one can be missing: while it is offered, or when the group was closed before a member took it. Nothing
  closes that connection.
\<close>

lemma group_conns_delivered:
  assumes "group_conns acc dlv w"
  shows "acc = map snd dlv \<or> (\<exists>c. acc = map snd dlv @ [c] \<and> (gw_offer w = Some c \<or> gw_closed w \<and> gw_ended w))"
  using group_conns_inv [OF assms] by (cases "gw_offer w"; cases "gw_ended w"; cases "gw_closed w") auto

lemma group_conn_lost:
  "\<exists>w. group_conns [c] ([] :: ('m \<times> 'c) list) w \<and> gw_closed w \<and> gw_ended w"
proof -
  have "group_conns (case Some c of None \<Rightarrow> [] | Some c \<Rightarrow> [] @ [c]) ([] :: ('m \<times> 'c) list) (tg_worker_turn (Some c) new_group_worker)"
    by (rule gc_turn [OF gc_start]) (simp_all add: new_group_worker_def)
  then have "group_conns [c] ([] :: ('m \<times> 'c) list) \<lparr>gw_offer = Some c, gw_closed = False, gw_ended = False\<rparr>"
    by (simp add: tg_worker_turn_def new_group_worker_def)
  from gc_close [OF this, of "\<lparr>gw_offer = None, gw_closed = True, gw_ended = True\<rparr>"]
  show ?thesis by (intro exI [of _ "\<lparr>gw_offer = None, gw_closed = True, gw_ended = True\<rparr>"]) (simp add: close_accept_ch_def)
qed

end
