(* ===== verification/Control_Lines.thy ===== *)
theory Control_Lines
  imports Server_Control Channels
begin

text \<open>
  The control connection between frps and frpc with the channels at its ends: the goroutines \<^verbatim>\<open>writer\<close>,
  \<^verbatim>\<open>reader\<close>, \<^verbatim>\<open>manager\<close> and \<^verbatim>\<open>stoper\<close> of \<^verbatim>\<open>frp/server/control.go\<close>, and \<^verbatim>\<open>writer\<close>, \<^verbatim>\<open>reader\<close>, \<^verbatim>\<open>msgHandler\<close>
  and \<^verbatim>\<open>worker\<close> of \<^verbatim>\<open>frp/client/control.go\<close>, each a turn at a time, on channels with their capacities.
  What a handler makes of a message is an argument here (theories Server_Control and Client_Control
  have it); this theory is about what arrives, in which order, and about who waits for whom.

  A turn gives \<open>Ok\<close> of the new state, \<open>Fail ()\<close> when the goroutine has to wait (or has ended), and
  \<open>Panic\<close> when nothing recovers the panic.
\<close>

section \<open>The stream\<close>

text \<open>
  \<^verbatim>\<open>crypto.NewWriter\<close> and \<^verbatim>\<open>NewReader\<close> over the connection, with \<^verbatim>\<open>msg.WriteMsg\<close> and \<^verbatim>\<open>ReadMsg\<close> over them.
  \<open>lo_write\<close> gives the bytes of a message; \<open>lo_read\<close> reads from the bytes that have arrived.
\<close>

datatype ('a, 'r, 'b) read_result = ReadMsg "'a message" 'r "'b list" | ReadWaits | ReadFails

record ('a, 'w, 'r, 'b) line_ops =
  lo_new_writer :: "string \<Rightarrow> 'w option"
  lo_write :: "'w \<Rightarrow> 'a message \<Rightarrow> 'w \<times> 'b list"
  lo_new_reader :: "string \<Rightarrow> 'r"
  lo_read :: "'r \<Rightarrow> 'b list \<Rightarrow> ('a, 'r, 'b) read_result"

datatype 'w writer = WriterNew | Writing 'w | WriterEnd

datatype ('a, 'r) reader = Reading 'r | Handing 'r "'a message" | ReaderEnd

text \<open>A handler that is sending goes on afterwards, or returns.\<close>

datatype 'a handler = Handling | Sending "'a message" bool | HandlerEnd

section \<open>The server's end\<close>

datatype stoper = StopWaits | StopManager | StopWriter | StopReader | Stopped

text \<open>
  \<open>sl_to_request\<close> counts the requests that \<^verbatim>\<open>Start\<close> has still to send before it starts the other
  goroutines. \<open>sl_sent\<close> and \<open>sl_got\<close> record what was put into \<^verbatim>\<open>sendCh\<close> and taken from \<^verbatim>\<open>readCh\<close>.
\<close>

record ('a, 'w, 'r) svr_lines =
  sl_token :: string
  sl_send :: "'a message chan"
  sl_read :: "'a message chan"
  sl_to_request :: nat
  sl_started :: bool
  sl_writer :: "'w writer"
  sl_reader :: "('a, 'r) reader"
  sl_manager :: "'a handler"
  sl_stoper :: stoper
  sl_all_started :: bool
  sl_conn_open :: bool
  sl_sent :: "'a message list"
  sl_got :: "'a message list"

definition new_svr_lines :: "('a, 'w, 'r, 'b) line_ops \<Rightarrow> string \<Rightarrow> int \<Rightarrow> ('a, 'w, 'r) svr_lines" where
  "new_svr_lines ops token poolCount =
     \<lparr>sl_token = token, sl_send = make_chan 10, sl_read = make_chan 10, sl_to_request = nat poolCount,
      sl_started = False, sl_writer = WriterNew, sl_reader = Reading (lo_new_reader ops token),
      sl_manager = Handling, sl_stoper = StopWaits, sl_all_started = False, sl_conn_open = True,
      sl_sent = [], sl_got = []\<rparr>"

text \<open>\<^verbatim>\<open>Start\<close> after it started the writer.\<close>

definition svr_start_turn :: "('a, 'w, 'r) svr_lines \<Rightarrow> (unit, ('a, 'w, 'r) svr_lines) go" where
  "svr_start_turn sl =
     (if sl_started sl then Fail ()
      else if sl_to_request sl = 0 then Ok (sl\<lparr>sl_started := True\<rparr>)
      else case chan_send MReqWorkConn (sl_send sl) of
             Sent ch \<Rightarrow> Ok (sl\<lparr>sl_send := ch, sl_to_request := sl_to_request sl - 1, sl_sent := sl_sent sl @ [MReqWorkConn]\<rparr>)
           | SendBlocks \<Rightarrow> Fail ()
           | SendPanics \<Rightarrow> Panic)"

definition svr_writer_end :: "('a, 'w, 'r) svr_lines \<Rightarrow> ('a, 'w, 'r) svr_lines" where
  "svr_writer_end sl = sl\<lparr>sl_writer := WriterEnd, sl_all_started := True\<rparr>"

text \<open>
  \<open>net\<close> is what the network does with a write: \<open>None\<close> when it takes all, \<open>Some n\<close> when it fails after \<open>n\<close>
  bytes. Writes to a closed connection fail at once. The second result are the bytes written.
\<close>

definition svr_writer_turn ::
    "('a, 'w, 'r, 'b) line_ops \<Rightarrow> nat option \<Rightarrow> ('a, 'w, 'r) svr_lines \<Rightarrow> (unit, ('a, 'w, 'r) svr_lines \<times> 'b list) go" where
  "svr_writer_turn ops net sl =
     (case sl_writer sl of
        WriterNew \<Rightarrow>
          (case lo_new_writer ops (sl_token sl) of
             None \<Rightarrow> Ok (svr_writer_end sl, [])
           | Some w \<Rightarrow> Ok (sl\<lparr>sl_writer := Writing w\<rparr>, []))
      | Writing w \<Rightarrow>
          (case chan_recv (sl_send sl) of
             RecvBlocks \<Rightarrow> Fail ()
           | RecvClosed \<Rightarrow> Ok (svr_writer_end sl, [])
           | Received m ch \<Rightarrow>
               let (w', bs) = lo_write ops w m; sl = sl\<lparr>sl_send := ch\<rparr> in
               (case (if sl_conn_open sl then net else Some 0) of
                  None \<Rightarrow> Ok (sl\<lparr>sl_writer := Writing w'\<rparr>, bs)
                | Some n \<Rightarrow> Ok (svr_writer_end sl, take n bs)))
      | WriterEnd \<Rightarrow> Fail ())"

definition svr_reader_end :: "('a, 'w, 'r) svr_lines \<Rightarrow> ('a, 'w, 'r) svr_lines" where
  "svr_reader_end sl = sl\<lparr>sl_reader := ReaderEnd, sl_all_started := True\<rparr>"

text \<open>
  \<open>net\<close> says whether the connection has ended, with \<^verbatim>\<open>io.EOF\<close> or with another error. \<open>buf\<close> are the bytes
  that have arrived; the second result is what is left of them. Handing a message over on a closed
  channel panics, which is recovered.
\<close>

definition svr_reader_turn ::
    "('a, 'w, 'r, 'b) line_ops \<Rightarrow> bool option \<Rightarrow> 'b list \<Rightarrow> ('a, 'w, 'r) svr_lines \<Rightarrow>
     (unit, ('a, 'w, 'r) svr_lines \<times> 'b list) go" where
  "svr_reader_turn ops net buf sl =
     (if \<not> sl_started sl then Fail () else
      case sl_reader sl of
        Reading r \<Rightarrow>
          (case (if sl_conn_open sl then net else Some False) of
             Some True \<Rightarrow> Ok (svr_reader_end sl, buf)
           | Some False \<Rightarrow> Ok (svr_reader_end (sl\<lparr>sl_conn_open := False\<rparr>), buf)
           | None \<Rightarrow>
               (case lo_read ops r buf of
                  ReadMsg m r' rest \<Rightarrow> Ok (sl\<lparr>sl_reader := Handing r' m\<rparr>, rest)
                | ReadWaits \<Rightarrow> Fail ()
                | ReadFails \<Rightarrow> Ok (svr_reader_end (sl\<lparr>sl_conn_open := False\<rparr>), buf)))
      | Handing r m \<Rightarrow>
          (case chan_send m (sl_read sl) of
             Sent ch \<Rightarrow> Ok (sl\<lparr>sl_reader := Reading r, sl_read := ch\<rparr>, buf)
           | SendBlocks \<Rightarrow> Fail ()
           | SendPanics \<Rightarrow> Ok (svr_reader_end sl, buf))
      | ReaderEnd \<Rightarrow> Fail ())"

definition svr_manager_end :: "('a, 'w, 'r) svr_lines \<Rightarrow> ('a, 'w, 'r) svr_lines" where
  "svr_manager_end sl = sl\<lparr>sl_manager := HandlerEnd, sl_all_started := True\<rparr>"

text \<open>
  The select of \<^verbatim>\<open>manager\<close>: the heartbeat has timed out, or a message is taken. \<open>answer\<close> is what comes
  of a message: \<open>None\<close> for a panic, or the message to send, if any, and whether the loop goes on.
\<close>

datatype 'a manager_choice = ManagerTimeout | ManagerTakes "'a message \<Rightarrow> ('a message option \<times> bool) option"

definition svr_manager_turn ::
    "'a manager_choice \<Rightarrow> ('a, 'w, 'r) svr_lines \<Rightarrow> (unit, ('a, 'w, 'r) svr_lines) go" where
  "svr_manager_turn choice sl =
     (if \<not> sl_started sl then Fail () else
      case sl_manager sl of
        Handling \<Rightarrow>
          (case choice of
             ManagerTimeout \<Rightarrow> Ok (svr_manager_end sl)
           | ManagerTakes answer \<Rightarrow>
               (case chan_recv (sl_read sl) of
                  RecvBlocks \<Rightarrow> Fail ()
                | RecvClosed \<Rightarrow> Ok (svr_manager_end sl)
                | Received m ch \<Rightarrow>
                    let sl = sl\<lparr>sl_read := ch, sl_got := sl_got sl @ [m]\<rparr> in
                    (case answer m of
                       None \<Rightarrow> Ok (svr_manager_end sl)
                     | Some (None, True) \<Rightarrow> Ok sl
                     | Some (None, False) \<Rightarrow> Ok (svr_manager_end sl)
                     | Some (Some out, go_on) \<Rightarrow> Ok (sl\<lparr>sl_manager := Sending out go_on\<rparr>))))
      | Sending out go_on \<Rightarrow>
          (case chan_send out (sl_send sl) of
             Sent ch \<Rightarrow>
               let sl = sl\<lparr>sl_send := ch, sl_sent := sl_sent sl @ [out]\<rparr> in
               Ok (if go_on then sl\<lparr>sl_manager := Handling\<rparr> else svr_manager_end sl)
           | SendBlocks \<Rightarrow> Fail ()
           | SendPanics \<Rightarrow> Ok (svr_manager_end sl))
      | HandlerEnd \<Rightarrow> Fail ())"

text \<open>The sends of \<^verbatim>\<open>GetWorkConn\<close>, whose panic \<^verbatim>\<open>PanicToError\<close> turns into an error.\<close>

definition svr_request_turn :: "('a, 'w, 'r) svr_lines \<Rightarrow> (unit, ('a, 'w, 'r) svr_lines) go" where
  "svr_request_turn sl =
     (case chan_send MReqWorkConn (sl_send sl) of
        Sent ch \<Rightarrow> Ok (sl\<lparr>sl_send := ch, sl_sent := sl_sent sl @ [MReqWorkConn]\<rparr>)
      | SendBlocks \<Rightarrow> Fail ()
      | SendPanics \<Rightarrow> Ok sl)"

text \<open>\<^verbatim>\<open>Replaced\<close>, as far as the goroutines see it.\<close>

definition svr_replaced :: "('a, 'w, 'r) svr_lines \<Rightarrow> ('a, 'w, 'r) svr_lines" where
  "svr_replaced sl = sl\<lparr>sl_all_started := True\<rparr>"

text \<open>\<^verbatim>\<open>stoper\<close>, from one wait to the next; what it does at its end is in theory Service.\<close>

definition svr_stoper_turn :: "('a, 'w, 'r) svr_lines \<Rightarrow> (unit, ('a, 'w, 'r) svr_lines) go" where
  "svr_stoper_turn sl =
     (if \<not> sl_started sl then Fail () else
      case sl_stoper sl of
        StopWaits \<Rightarrow>
          if \<not> sl_all_started sl then Fail ()
          else (case chan_close (sl_read sl) of
                  None \<Rightarrow> Panic
                | Some ch \<Rightarrow> Ok (sl\<lparr>sl_read := ch, sl_stoper := StopManager\<rparr>))
      | StopManager \<Rightarrow>
          if sl_manager sl \<noteq> HandlerEnd then Fail ()
          else (case chan_close (sl_send sl) of
                  None \<Rightarrow> Panic
                | Some ch \<Rightarrow> Ok (sl\<lparr>sl_send := ch, sl_stoper := StopWriter\<rparr>))
      | StopWriter \<Rightarrow>
          if sl_writer sl \<noteq> WriterEnd then Fail () else Ok (sl\<lparr>sl_conn_open := False, sl_stoper := StopReader\<rparr>)
      | StopReader \<Rightarrow> if sl_reader sl \<noteq> ReaderEnd then Fail () else Ok (sl\<lparr>sl_stoper := Stopped\<rparr>)
      | Stopped \<Rightarrow> Fail ())"

section \<open>The client's end\<close>

datatype worker = WorkerWaits | WorkerReader | WorkerHandler | WorkerWriter | WorkerEnd

record ('a, 'w, 'r) cli_lines =
  cl_token :: string
  cl_send :: "'a message chan"
  cl_read :: "'a message chan"
  cl_writer :: "'w writer"
  cl_reader :: "('a, 'r) reader"
  cl_handler :: "'a handler"
  cl_worker :: worker
  cl_closed :: bool
  cl_conn_open :: bool
  cl_sent :: "'a message list"
  cl_got :: "'a message list"

definition new_cli_lines :: "('a, 'w, 'r, 'b) line_ops \<Rightarrow> string \<Rightarrow> ('a, 'w, 'r) cli_lines" where
  "new_cli_lines ops token =
     \<lparr>cl_token = token, cl_send = make_chan 100, cl_read = make_chan 100, cl_writer = WriterNew,
      cl_reader = Reading (lo_new_reader ops token), cl_handler = Handling, cl_worker = WorkerWaits,
      cl_closed = False, cl_conn_open = True, cl_sent = [], cl_got = []\<rparr>"

text \<open>The writer closes the connection when the stream cannot be made, and not when a write fails.\<close>

definition cli_writer_turn ::
    "('a, 'w, 'r, 'b) line_ops \<Rightarrow> nat option \<Rightarrow> ('a, 'w, 'r) cli_lines \<Rightarrow> (unit, ('a, 'w, 'r) cli_lines \<times> 'b list) go" where
  "cli_writer_turn ops net cl =
     (case cl_writer cl of
        WriterNew \<Rightarrow>
          (case lo_new_writer ops (cl_token cl) of
             None \<Rightarrow> Ok (cl\<lparr>cl_conn_open := False, cl_writer := WriterEnd\<rparr>, [])
           | Some w \<Rightarrow> Ok (cl\<lparr>cl_writer := Writing w\<rparr>, []))
      | Writing w \<Rightarrow>
          (case chan_recv (cl_send cl) of
             RecvBlocks \<Rightarrow> Fail ()
           | RecvClosed \<Rightarrow> Ok (cl\<lparr>cl_writer := WriterEnd\<rparr>, [])
           | Received m ch \<Rightarrow>
               let (w', bs) = lo_write ops w m; cl = cl\<lparr>cl_send := ch\<rparr> in
               (case (if cl_conn_open cl then net else Some 0) of
                  None \<Rightarrow> Ok (cl\<lparr>cl_writer := Writing w'\<rparr>, bs)
                | Some n \<Rightarrow> Ok (cl\<lparr>cl_writer := WriterEnd\<rparr>, take n bs)))
      | WriterEnd \<Rightarrow> Fail ())"

text \<open>The end of \<^verbatim>\<open>reader\<close> closes \<^verbatim>\<open>closedCh\<close>, for which \<^verbatim>\<open>worker\<close> waits.\<close>

definition cli_reader_end :: "('a, 'w, 'r) cli_lines \<Rightarrow> ('a, 'w, 'r) cli_lines" where
  "cli_reader_end cl = cl\<lparr>cl_reader := ReaderEnd, cl_closed := True\<rparr>"

definition cli_reader_turn ::
    "('a, 'w, 'r, 'b) line_ops \<Rightarrow> bool option \<Rightarrow> 'b list \<Rightarrow> ('a, 'w, 'r) cli_lines \<Rightarrow>
     (unit, ('a, 'w, 'r) cli_lines \<times> 'b list) go" where
  "cli_reader_turn ops net buf cl =
     (case cl_reader cl of
        Reading r \<Rightarrow>
          (case (if cl_conn_open cl then net else Some False) of
             Some True \<Rightarrow> Ok (cli_reader_end cl, buf)
           | Some False \<Rightarrow> Ok (cli_reader_end (cl\<lparr>cl_conn_open := False\<rparr>), buf)
           | None \<Rightarrow>
               (case lo_read ops r buf of
                  ReadMsg m r' rest \<Rightarrow> Ok (cl\<lparr>cl_reader := Handing r' m\<rparr>, rest)
                | ReadWaits \<Rightarrow> Fail ()
                | ReadFails \<Rightarrow> Ok (cli_reader_end (cl\<lparr>cl_conn_open := False\<rparr>), buf)))
      | Handing r m \<Rightarrow>
          (case chan_send m (cl_read cl) of
             Sent ch \<Rightarrow> Ok (cl\<lparr>cl_reader := Reading r, cl_read := ch\<rparr>, buf)
           | SendBlocks \<Rightarrow> Fail ()
           | SendPanics \<Rightarrow> Ok (cli_reader_end cl, buf))
      | ReaderEnd \<Rightarrow> Fail ())"

text \<open>
  The select of \<^verbatim>\<open>msgHandler\<close>: a ping is to be sent (\<open>None\<close> when it cannot be signed), no answer came in
  time, or a message is taken. Messages are handled without sending; the flag says whether the handler
  goes on, and otherwise it has closed the connection (a \<^verbatim>\<open>Pong\<close> with an error).
\<close>

datatype 'a handler_choice = HandlerPing "'a message option" | HandlerTimeout | HandlerTakes "'a message \<Rightarrow> bool"

definition cli_handler_turn ::
    "'a handler_choice \<Rightarrow> ('a, 'w, 'r) cli_lines \<Rightarrow> (unit, ('a, 'w, 'r) cli_lines) go" where
  "cli_handler_turn choice cl =
     (case cl_handler cl of
        Handling \<Rightarrow>
          (case choice of
             HandlerPing None \<Rightarrow> Ok (cl\<lparr>cl_handler := HandlerEnd\<rparr>)
           | HandlerPing (Some m) \<Rightarrow> Ok (cl\<lparr>cl_handler := Sending m True\<rparr>)
           | HandlerTimeout \<Rightarrow> Ok (cl\<lparr>cl_conn_open := False, cl_handler := HandlerEnd\<rparr>)
           | HandlerTakes go_on \<Rightarrow>
               (case chan_recv (cl_read cl) of
                  RecvBlocks \<Rightarrow> Fail ()
                | RecvClosed \<Rightarrow> Ok (cl\<lparr>cl_handler := HandlerEnd\<rparr>)
                | Received m ch \<Rightarrow>
                    let cl = cl\<lparr>cl_read := ch, cl_got := cl_got cl @ [m]\<rparr> in
                    Ok (if go_on m then cl else cl\<lparr>cl_conn_open := False, cl_handler := HandlerEnd\<rparr>)))
      | Sending m go_on \<Rightarrow>
          (case chan_send m (cl_send cl) of
             Sent ch \<Rightarrow> Ok (cl\<lparr>cl_send := ch, cl_sent := cl_sent cl @ [m], cl_handler := Handling\<rparr>)
           | SendBlocks \<Rightarrow> Fail ()
           | SendPanics \<Rightarrow> Ok (cl\<lparr>cl_handler := HandlerEnd\<rparr>))
      | HandlerEnd \<Rightarrow> Fail ())"

text \<open>The sends of the proxy manager, \<^verbatim>\<open>HandleEvent\<close>, whose panic becomes an error.\<close>

definition cli_event_turn :: "'a message \<Rightarrow> ('a, 'w, 'r) cli_lines \<Rightarrow> (unit, ('a, 'w, 'r) cli_lines) go" where
  "cli_event_turn m cl =
     (case chan_send m (cl_send cl) of
        Sent ch \<Rightarrow> Ok (cl\<lparr>cl_send := ch, cl_sent := cl_sent cl @ [m]\<rparr>)
      | SendBlocks \<Rightarrow> Fail ()
      | SendPanics \<Rightarrow> Ok cl)"

definition cli_lines_close :: "('a, 'w, 'r) cli_lines \<Rightarrow> ('a, 'w, 'r) cli_lines" where
  "cli_lines_close cl = cl\<lparr>cl_conn_open := False\<rparr>"

definition cli_worker_turn :: "('a, 'w, 'r) cli_lines \<Rightarrow> (unit, ('a, 'w, 'r) cli_lines) go" where
  "cli_worker_turn cl =
     (case cl_worker cl of
        WorkerWaits \<Rightarrow>
          if \<not> cl_closed cl then Fail ()
          else (case chan_close (cl_read cl) of
                  None \<Rightarrow> Panic
                | Some ch \<Rightarrow> Ok (cl\<lparr>cl_read := ch, cl_worker := WorkerReader\<rparr>))
      | WorkerReader \<Rightarrow> if cl_reader cl \<noteq> ReaderEnd then Fail () else Ok (cl\<lparr>cl_worker := WorkerHandler\<rparr>)
      | WorkerHandler \<Rightarrow>
          if cl_handler cl \<noteq> HandlerEnd then Fail ()
          else (case chan_close (cl_send cl) of
                  None \<Rightarrow> Panic
                | Some ch \<Rightarrow> Ok (cl\<lparr>cl_send := ch, cl_worker := WorkerWriter\<rparr>))
      | WorkerWriter \<Rightarrow> if cl_writer cl \<noteq> WriterEnd then Fail () else Ok (cl\<lparr>cl_worker := WorkerEnd\<rparr>)
      | WorkerEnd \<Rightarrow> Fail ())"

end
