(* ===== verification/Control_Lines_Laws.thy ===== *)
theory Control_Lines_Laws
  imports Control_Lines
begin

text \<open>
  The two ends of a control connection together: every interleaving of their goroutines with the network,
  which delivers bytes in order, a few at a time, and may fail at any time. The messages that one side
  takes are those that the other side sent, in the same order (\<open>control_messages_in_order\<close>); a
  goroutine that waits on a full channel after the writer has ended waits for ever, and with it the
  end of the control (\<open>blocked_control_never_stops\<close>).
\<close>

section \<open>Histories\<close>

record ('a, 'w, 'r, 'b) link =
  lk_svr :: "('a, 'w, 'r) svr_lines"
  lk_cli :: "('a, 'w, 'r) cli_lines"
  lk_down :: "'b list"
  lk_down_buf :: "'b list"
  lk_up :: "'b list"
  lk_up_buf :: "'b list"

text \<open>Each event is a turn of one goroutine, with what it depends on, or a delivery of \<open>n\<close> bytes.\<close>

datatype 'a link_event =
    SvrStart | SvrWriter "nat option" | SvrReader "bool option" | SvrManager "'a manager_choice"
  | SvrRequest | SvrReplaced | SvrStoper
  | CliWriter "nat option" | CliReader "bool option" | CliHandler "'a handler_choice"
  | CliEvent "'a message" | CliClose | CliWorker
  | DeliverDown nat | DeliverUp nat

definition new_link :: "('a, 'w, 'r, 'b) line_ops \<Rightarrow> string \<Rightarrow> int \<Rightarrow> ('a, 'w, 'r, 'b) link" where
  "new_link ops token poolCount =
     \<lparr>lk_svr = new_svr_lines ops token poolCount, lk_cli = new_cli_lines ops token,
      lk_down = [], lk_down_buf = [], lk_up = [], lk_up_buf = []\<rparr>"

fun link_step ::
    "('a, 'w, 'r, 'b) line_ops \<Rightarrow> 'a link_event \<Rightarrow> ('a, 'w, 'r, 'b) link \<Rightarrow> (unit, ('a, 'w, 'r, 'b) link) go" where
  "link_step ops SvrStart lk = go_then (svr_start_turn (lk_svr lk)) (\<lambda>sl. Ok (lk\<lparr>lk_svr := sl\<rparr>))"
| "link_step ops (SvrWriter net) lk =
     go_then (svr_writer_turn ops net (lk_svr lk)) (\<lambda>(sl, bs). Ok (lk\<lparr>lk_svr := sl, lk_down := lk_down lk @ bs\<rparr>))"
| "link_step ops (SvrReader net) lk =
     go_then (svr_reader_turn ops net (lk_up_buf lk) (lk_svr lk)) (\<lambda>(sl, buf). Ok (lk\<lparr>lk_svr := sl, lk_up_buf := buf\<rparr>))"
| "link_step ops (SvrManager choice) lk =
     go_then (svr_manager_turn choice (lk_svr lk)) (\<lambda>sl. Ok (lk\<lparr>lk_svr := sl\<rparr>))"
| "link_step ops SvrRequest lk = go_then (svr_request_turn (lk_svr lk)) (\<lambda>sl. Ok (lk\<lparr>lk_svr := sl\<rparr>))"
| "link_step ops SvrReplaced lk = Ok (lk\<lparr>lk_svr := svr_replaced (lk_svr lk)\<rparr>)"
| "link_step ops SvrStoper lk = go_then (svr_stoper_turn (lk_svr lk)) (\<lambda>sl. Ok (lk\<lparr>lk_svr := sl\<rparr>))"
| "link_step ops (CliWriter net) lk =
     go_then (cli_writer_turn ops net (lk_cli lk)) (\<lambda>(cl, bs). Ok (lk\<lparr>lk_cli := cl, lk_up := lk_up lk @ bs\<rparr>))"
| "link_step ops (CliReader net) lk =
     go_then (cli_reader_turn ops net (lk_down_buf lk) (lk_cli lk)) (\<lambda>(cl, buf). Ok (lk\<lparr>lk_cli := cl, lk_down_buf := buf\<rparr>))"
| "link_step ops (CliHandler choice) lk =
     go_then (cli_handler_turn choice (lk_cli lk)) (\<lambda>cl. Ok (lk\<lparr>lk_cli := cl\<rparr>))"
| "link_step ops (CliEvent m) lk = go_then (cli_event_turn m (lk_cli lk)) (\<lambda>cl. Ok (lk\<lparr>lk_cli := cl\<rparr>))"
| "link_step ops CliClose lk = Ok (lk\<lparr>lk_cli := cli_lines_close (lk_cli lk)\<rparr>)"
| "link_step ops CliWorker lk = go_then (cli_worker_turn (lk_cli lk)) (\<lambda>cl. Ok (lk\<lparr>lk_cli := cl\<rparr>))"
| "link_step ops (DeliverDown n) lk = Ok (lk\<lparr>lk_down := drop n (lk_down lk), lk_down_buf := lk_down_buf lk @ take n (lk_down lk)\<rparr>)"
| "link_step ops (DeliverUp n) lk = Ok (lk\<lparr>lk_up := drop n (lk_up lk), lk_up_buf := lk_up_buf lk @ take n (lk_up lk)\<rparr>)"

inductive link_run :: "('a, 'w, 'r, 'b) line_ops \<Rightarrow> ('a, 'w, 'r, 'b) link \<Rightarrow> ('a, 'w, 'r, 'b) link \<Rightarrow> bool"
  for ops :: "('a, 'w, 'r, 'b) line_ops" and lk0 :: "('a, 'w, 'r, 'b) link" where
  link_begin: "link_run ops lk0 lk0"
| link_next: "link_run ops lk0 lk' \<Longrightarrow> link_step ops e lk = Ok lk'' \<Longrightarrow> lk = lk' \<Longrightarrow> link_run ops lk0 lk''"

fun link_play :: "('a, 'w, 'r, 'b) line_ops \<Rightarrow> 'a link_event list \<Rightarrow> ('a, 'w, 'r, 'b) link \<Rightarrow> (unit, ('a, 'w, 'r, 'b) link) go" where
  "link_play ops [] lk = Ok lk"
| "link_play ops (e # es) lk = go_then (link_step ops e lk) (link_play ops es)"

lemma link_run_trans: "link_run ops lk1 lk2 \<Longrightarrow> link_run ops lk0 lk1 \<Longrightarrow> link_run ops lk0 lk2"
  by (induction rule: link_run.induct) (auto intro: link_next)

lemma link_play_run: "link_play ops es lk = Ok lk' \<Longrightarrow> link_run ops lk lk'"
proof (induction es arbitrary: lk)
  case Nil
  then show ?case by (simp add: link_begin)
next
  case (Cons e es)
  from Cons.prems obtain lk1 where e: "link_step ops e lk = Ok lk1" and es: "link_play ops es lk1 = Ok lk'"
    by (auto simp: go_then_eq_Ok)
  have "link_run ops lk lk1" by (rule link_next [OF link_begin e refl])
  with Cons.IH [OF es] show ?case by (rule link_run_trans)
qed

section \<open>One direction\<close>

text \<open>
  What the code relies on in the stream: \<open>R w r bs ms\<close> relates a writer and a reader between which the
  bytes \<open>bs\<close> are on their way and the messages \<open>ms\<close> unread. Of any part of the bytes that has arrived
  the reader gives the next message, or waits because the rest of it is missing.
\<close>

definition line_contract ::
    "('w \<Rightarrow> 'r \<Rightarrow> 'b list \<Rightarrow> 'a message list \<Rightarrow> bool) \<Rightarrow> ('a, 'w, 'r, 'b) line_ops \<Rightarrow> string \<Rightarrow> bool" where
  "line_contract R ops token \<longleftrightarrow>
     lo_read ops (lo_new_reader ops token) [] = ReadWaits \<and>
     (\<forall>w. lo_new_writer ops token = Some w \<longrightarrow> R w (lo_new_reader ops token) [] []) \<and>
     (\<forall>w r bs ms m w' b. R w r bs ms \<longrightarrow> lo_write ops w m = (w', b) \<longrightarrow> R w' r (bs @ b) (ms @ [m])) \<and>
     (\<forall>w r arrived rest ms. R w r (arrived @ rest) ms \<longrightarrow>
        (case lo_read ops r arrived of
           ReadMsg m r' left \<Rightarrow> \<exists>ms'. ms = m # ms' \<and> R w r' (left @ rest) ms'
         | ReadWaits \<Rightarrow> ms = [] \<or> rest \<noteq> []
         | ReadFails \<Rightarrow> False))"

lemma line_contract_write:
  "line_contract R ops token \<Longrightarrow> R w r bs ms \<Longrightarrow> lo_write ops w m = (w', b) \<Longrightarrow> R w' r (bs @ b) (ms @ [m])"
  by (simp add: line_contract_def)

lemma line_contract_read:
  "line_contract R ops token \<Longrightarrow> R w r (arrived @ rest) ms \<Longrightarrow>
   case lo_read ops r arrived of
     ReadMsg m r' left \<Rightarrow> \<exists>ms'. ms = m # ms' \<and> R w r' (left @ rest) ms'
   | ReadWaits \<Rightarrow> ms = [] \<or> rest \<noteq> []
   | ReadFails \<Rightarrow> False"
  unfolding line_contract_def by blast

lemma line_contract_start:
  "line_contract R ops token \<Longrightarrow> lo_read ops (lo_new_reader ops token) [] = ReadWaits"
  "line_contract R ops token \<Longrightarrow> lo_new_writer ops token = Some w \<Longrightarrow> R w (lo_new_reader ops token) [] []"
  by (simp_all add: line_contract_def)

fun handed :: "('a, 'r) reader \<Rightarrow> 'a message list" where
  "handed (Handing r m) = [m]"
| "handed _ = []"

fun reader_at :: "('a, 'r) reader \<Rightarrow> 'r option" where
  "reader_at (Reading r) = Some r"
| "reader_at (Handing r m) = Some r"
| "reader_at ReaderEnd = None"

text \<open>
  While the reader lives, every message sent has been taken, waits at the reader's side, is on the wire
  or waits for the writer; \<open>lost\<close> are the bytes of a failed write.
\<close>

definition on_wire ::
    "('w \<Rightarrow> 'r \<Rightarrow> 'b list \<Rightarrow> 'a message list \<Rightarrow> bool) \<Rightarrow> ('a, 'w, 'r, 'b) line_ops \<Rightarrow> string \<Rightarrow>
     'w writer \<Rightarrow> 'b list \<Rightarrow> 'r \<Rightarrow> 'a message list \<Rightarrow> bool" where
  "on_wire R ops token w bytes r ms \<longleftrightarrow>
     (r = lo_new_reader ops token \<and> bytes = [] \<and> ms = [] \<and> (w = WriterNew \<or> w = WriterEnd)) \<or>
     (w \<noteq> WriterNew \<and> (\<exists>ws lost. R ws r (bytes @ lost) ms \<and> (\<forall>w'. w = Writing w' \<longrightarrow> w' = ws \<and> lost = [])))"

definition line_inv ::
    "('w \<Rightarrow> 'r \<Rightarrow> 'b list \<Rightarrow> 'a message list \<Rightarrow> bool) \<Rightarrow> ('a, 'w, 'r, 'b) line_ops \<Rightarrow> string \<Rightarrow>
     'a message list \<Rightarrow> 'a message chan \<Rightarrow> 'w writer \<Rightarrow> 'b list \<Rightarrow> 'b list \<Rightarrow> ('a, 'r) reader \<Rightarrow>
     'a message chan \<Rightarrow> 'a message list \<Rightarrow> bool" where
  "line_inv R ops token sent send w wire buf rd read got \<longleftrightarrow>
     (case reader_at rd of
        None \<Rightarrow> prefix (got @ chan_buf read) sent
      | Some r \<Rightarrow> \<exists>ms. sent = got @ chan_buf read @ handed rd @ ms @ chan_buf send \<and>
                   on_wire R ops token w (buf @ wire) r ms)"

lemma line_inv_prefix: "line_inv R ops token sent send w wire buf rd read got \<Longrightarrow> prefix got sent"
  by (auto simp: line_inv_def prefix_def split: option.splits)

lemma line_inv_new:
  "line_inv R ops token [] (make_chan i) WriterNew [] [] (Reading (lo_new_reader ops token)) (make_chan j) []"
  by (simp add: line_inv_def on_wire_def)

lemma line_inv_send:
  "line_inv R ops token sent send w wire buf rd read got \<Longrightarrow> chan_buf send' = chan_buf send @ [m] \<Longrightarrow>
   line_inv R ops token (sent @ [m]) send' w wire buf rd read got"
  by (auto simp: line_inv_def prefix_def split: option.splits)

lemma line_inv_buf:
  "line_inv R ops token sent send w wire buf rd read got \<Longrightarrow> chan_buf send' = chan_buf send \<Longrightarrow>
   chan_buf read' = chan_buf read \<Longrightarrow> line_inv R ops token sent send' w wire buf rd read' got"
  by (auto simp: line_inv_def split: option.splits)

lemma line_inv_take:
  "line_inv R ops token sent send w wire buf rd read got \<Longrightarrow> chan_buf read = m # chan_buf read' \<Longrightarrow>
   line_inv R ops token sent send w wire buf rd read' (got @ [m])"
  by (auto simp: line_inv_def split: option.splits)

lemma line_inv_deliver:
  "line_inv R ops token sent send w wire buf rd read got \<Longrightarrow>
   line_inv R ops token sent send w (drop n wire) (buf @ take n wire) rd read got"
  unfolding line_inv_def append_assoc append_take_drop_id by assumption

lemma line_inv_reader_end:
  "line_inv R ops token sent send w wire buf rd read got \<Longrightarrow>
   line_inv R ops token sent send w wire buf' ReaderEnd read got"
  by (auto simp: line_inv_def prefix_def split: option.splits)

lemma line_inv_writer_new:
  assumes "line_inv R ops token sent send WriterNew wire buf rd read got" and "line_contract R ops token"
    and "lo_new_writer ops token = Some w"
  shows "line_inv R ops token sent send (Writing w) wire buf rd read got"
  using assms line_contract_start(2) [OF assms(2,3)] by (auto simp: line_inv_def on_wire_def split: option.splits)

lemma line_inv_writer_end:
  "line_inv R ops token sent send w wire buf rd read got \<Longrightarrow>
   line_inv R ops token sent send WriterEnd wire buf rd read got"
  unfolding line_inv_def on_wire_def by (cases "reader_at rd") auto

lemma line_inv_write:
  assumes inv: "line_inv R ops token sent send (Writing w) wire buf rd read got" and "line_contract R ops token"
    and "chan_buf send = m # chan_buf send'" and "lo_write ops w m = (w', bs)"
  shows "line_inv R ops token sent send' (Writing w') (wire @ bs) buf rd read got"
    and "line_inv R ops token sent send' WriterEnd (wire @ take n bs) buf rd read got"
    and "line_inv R ops token sent send' WriterEnd wire buf rd read got"
proof -
  have step: "on_wire R ops token (Writing w) bytes r ms \<Longrightarrow> on_wire R ops token (Writing w') (bytes @ bs) r (ms @ [m])"
    for bytes r ms using assms(2,4) by (auto simp: on_wire_def dest: line_contract_write)
  have cut: "on_wire R ops token (Writing w) (bytes @ bs) r ms \<Longrightarrow> on_wire R ops token WriterEnd (bytes @ take n bs) r ms"
    for w n bytes r ms by (force simp: on_wire_def intro: exI [of _ "drop n bs"])
  show "line_inv R ops token sent send' (Writing w') (wire @ bs) buf rd read got"
    using inv assms(3) step [of "buf @ wire"]
    by (auto simp: line_inv_def split: option.splits intro: exI [of _ "_ @ [m]"])
  then have "line_inv R ops token sent send' WriterEnd (wire @ take n bs) buf rd read got" for n
    using cut [of _ "buf @ wire"] by (auto simp: line_inv_def split: option.splits)
  from this [of n] this [of 0]
  show "line_inv R ops token sent send' WriterEnd (wire @ take n bs) buf rd read got"
    and "line_inv R ops token sent send' WriterEnd wire buf rd read got" by simp_all
qed

lemma on_wire_read:
  assumes "on_wire R ops token w (buf @ wire) r ms" and "line_contract R ops token"
    and "lo_read ops r buf = ReadMsg m r' left"
  shows "\<exists>ms'. ms = m # ms' \<and> on_wire R ops token w (left @ wire) r' ms'"
proof -
  from assms(2,3) have next_message: "R ws r (buf @ rest) ms \<Longrightarrow> \<exists>ms'. ms = m # ms' \<and> R ws r' (left @ rest) ms'" for ws rest
    using line_contract_read by fastforce
  from assms have "\<not> (r = lo_new_reader ops token \<and> buf @ wire = [])" by (auto dest: line_contract_start)
  with assms(1) obtain ws lost where "w \<noteq> WriterNew" and "R ws r (buf @ (wire @ lost)) ms"
    and "\<forall>w'. w = Writing w' \<longrightarrow> w' = ws \<and> lost = []"
    by (auto simp: on_wire_def)
  with next_message [of ws "wire @ lost"] show ?thesis by (auto simp: on_wire_def)
qed

lemma line_inv_read:
  assumes "line_inv R ops token sent send w wire buf (Reading r) read got" and "line_contract R ops token"
    and "lo_read ops r buf = ReadMsg m r' left"
  shows "line_inv R ops token sent send w wire left (Handing r' m) read got"
  using assms(1) on_wire_read [OF _ assms(2,3)] by (fastforce simp: line_inv_def)

lemma line_inv_hand_over:
  "line_inv R ops token sent send w wire buf (Handing r m) read got \<Longrightarrow> chan_buf read' = chan_buf read @ [m] \<Longrightarrow>
   line_inv R ops token sent send w wire buf (Reading r) read' got"
  by (auto simp: line_inv_def)

text \<open>When nothing is on its way and the reader waits, everything has been taken.\<close>

lemma line_inv_drained:
  assumes "line_inv R ops token sent send (Writing w) [] buf (Reading r) read got" and "line_contract R ops token"
    and "lo_read ops r buf = ReadWaits" and "chan_buf send = []" and "chan_buf read = []"
  shows "got = sent"
proof -
  from assms(1,4,5) obtain ms where sent: "sent = got @ ms" and "on_wire R ops token (Writing w) (buf @ []) r ms"
    by (auto simp: line_inv_def)
  then have "R w r (buf @ []) ms" by (auto simp: on_wire_def)
  with line_contract_read [OF assms(2), of w r buf "[]" ms] assms(3) have "ms = []" by simp
  with sent show ?thesis by simp
qed

section \<open>Both directions\<close>

text \<open>\<open>down_ok\<close> speaks of the messages of the server, \<open>up_ok\<close> of those of the client.\<close>

definition down_ok where
  "down_ok R ops token lk \<longleftrightarrow>
     line_inv R ops token (sl_sent (lk_svr lk)) (sl_send (lk_svr lk)) (sl_writer (lk_svr lk)) (lk_down lk)
       (lk_down_buf lk) (cl_reader (lk_cli lk)) (cl_read (lk_cli lk)) (cl_got (lk_cli lk))"

definition up_ok where
  "up_ok R ops token lk \<longleftrightarrow>
     line_inv R ops token (cl_sent (lk_cli lk)) (cl_send (lk_cli lk)) (cl_writer (lk_cli lk)) (lk_up lk)
       (lk_up_buf lk) (sl_reader (lk_svr lk)) (sl_read (lk_svr lk)) (sl_got (lk_svr lk))"

definition link_ok where
  "link_ok R ops token lk \<longleftrightarrow>
     down_ok R ops token lk \<and> up_ok R ops token lk \<and> sl_token (lk_svr lk) = token \<and> cl_token (lk_cli lk) = token"

lemmas line_sent = line_inv_send [OF _ chan_send_buf]
lemmas line_taken = line_inv_take [OF _ chan_recv_buf]
lemmas line_written = line_inv_write [OF _ _ chan_recv_buf]
lemmas line_handed = line_inv_hand_over [OF _ chan_send_buf]
lemmas line_closed = line_inv_buf [OF _ chan_close_buf refl] line_inv_buf [OF _ refl chan_close_buf]

lemmas link_defs = link_ok_def down_ok_def up_ok_def

lemma link_ok_new: "link_ok R ops token (new_link ops token poolCount)"
  by (simp add: link_defs new_link_def new_svr_lines_def new_cli_lines_def line_inv_new)

lemma svr_start_ok:
  "link_ok R ops token lk \<Longrightarrow> svr_start_turn (lk_svr lk) = Ok sl \<Longrightarrow> link_ok R ops token (lk\<lparr>lk_svr := sl\<rparr>)"
  by (auto simp: link_defs svr_start_turn_def intro: line_sent split: if_splits send_result.splits)

lemma svr_request_ok:
  "link_ok R ops token lk \<Longrightarrow> svr_request_turn (lk_svr lk) = Ok sl \<Longrightarrow> link_ok R ops token (lk\<lparr>lk_svr := sl\<rparr>)"
  by (auto simp: link_defs svr_request_turn_def intro: line_sent split: if_splits send_result.splits)

lemma cli_event_ok:
  "link_ok R ops token lk \<Longrightarrow> cli_event_turn m (lk_cli lk) = Ok cl \<Longrightarrow> link_ok R ops token (lk\<lparr>lk_cli := cl\<rparr>)"
  by (auto simp: link_defs cli_event_turn_def intro: line_sent split: if_splits send_result.splits)

lemma svr_writer_ok:
  assumes "link_ok R ops token lk" and "line_contract R ops token"
    and "svr_writer_turn ops net (lk_svr lk) = Ok (sl, bs)"
  shows "link_ok R ops token (lk\<lparr>lk_svr := sl, lk_down := lk_down lk @ bs\<rparr>)"
  using assms
  by (auto simp: link_defs svr_writer_turn_def svr_writer_end_def Let_def
      intro: line_inv_writer_new line_inv_writer_end line_written
      split: writer.splits option.splits recv_result.splits prod.splits if_splits)

lemma cli_writer_ok:
  assumes "link_ok R ops token lk" and "line_contract R ops token"
    and "cli_writer_turn ops net (lk_cli lk) = Ok (cl, bs)"
  shows "link_ok R ops token (lk\<lparr>lk_cli := cl, lk_up := lk_up lk @ bs\<rparr>)"
  using assms
  by (auto simp: link_defs cli_writer_turn_def Let_def
      intro: line_inv_writer_new line_inv_writer_end line_written
      split: writer.splits option.splits recv_result.splits prod.splits if_splits)

lemma svr_reader_ok:
  assumes "link_ok R ops token lk" and "line_contract R ops token"
    and "svr_reader_turn ops net (lk_up_buf lk) (lk_svr lk) = Ok (sl, buf)"
  shows "link_ok R ops token (lk\<lparr>lk_svr := sl, lk_up_buf := buf\<rparr>)"
  using assms
  by (auto simp: link_defs svr_reader_turn_def svr_reader_end_def
      intro: line_inv_reader_end line_inv_read line_handed
      split: reader.splits option.splits send_result.splits read_result.splits bool.splits if_splits)

lemma cli_reader_ok:
  assumes "link_ok R ops token lk" and "line_contract R ops token"
    and "cli_reader_turn ops net (lk_down_buf lk) (lk_cli lk) = Ok (cl, buf)"
  shows "link_ok R ops token (lk\<lparr>lk_cli := cl, lk_down_buf := buf\<rparr>)"
  using assms
  by (auto simp: link_defs cli_reader_turn_def cli_reader_end_def
      intro: line_inv_reader_end line_inv_read line_handed
      split: reader.splits option.splits send_result.splits read_result.splits bool.splits if_splits)

lemma svr_manager_ok:
  assumes "link_ok R ops token lk" and "svr_manager_turn choice (lk_svr lk) = Ok sl"
  shows "link_ok R ops token (lk\<lparr>lk_svr := sl\<rparr>)"
  using assms
  by (auto simp: link_defs svr_manager_turn_def svr_manager_end_def Let_def
      intro: line_sent line_taken
      split: handler.splits manager_choice.splits recv_result.splits send_result.splits option.splits prod.splits
        bool.splits if_splits)

lemma cli_handler_ok:
  assumes "link_ok R ops token lk" and "cli_handler_turn choice (lk_cli lk) = Ok cl"
  shows "link_ok R ops token (lk\<lparr>lk_cli := cl\<rparr>)"
  using assms
  by (auto simp: link_defs cli_handler_turn_def Let_def
      intro: line_sent line_taken
      split: handler.splits handler_choice.splits recv_result.splits send_result.splits option.splits if_splits)

lemma svr_stoper_ok:
  assumes "link_ok R ops token lk" and "svr_stoper_turn (lk_svr lk) = Ok sl"
  shows "link_ok R ops token (lk\<lparr>lk_svr := sl\<rparr>)"
  using assms
  by (auto simp: link_defs svr_stoper_turn_def intro: line_closed
      split: stoper.splits option.splits if_splits)

lemma cli_worker_ok:
  assumes "link_ok R ops token lk" and "cli_worker_turn (lk_cli lk) = Ok cl"
  shows "link_ok R ops token (lk\<lparr>lk_cli := cl\<rparr>)"
  using assms
  by (auto simp: link_defs cli_worker_turn_def intro: line_closed
      split: worker.splits option.splits if_splits)

lemma link_ok_step:
  assumes "link_ok R ops token lk" and "line_contract R ops token" and "link_step ops e lk = Ok lk'"
  shows "link_ok R ops token lk'"
  using assms
  by (cases e)
    (auto simp: go_then_eq_Ok intro: svr_start_ok svr_request_ok cli_event_ok svr_writer_ok cli_writer_ok svr_reader_ok
      cli_reader_ok svr_manager_ok cli_handler_ok svr_stoper_ok cli_worker_ok,
     auto simp: link_defs svr_replaced_def cli_lines_close_def intro: line_inv_deliver)

lemma link_ok_run:
  "link_run ops lk0 lk \<Longrightarrow> link_ok R ops token lk0 \<Longrightarrow> line_contract R ops token \<Longrightarrow> link_ok R ops token lk"
  by (induction rule: link_run.induct) (auto intro: link_ok_step)

text \<open>
  Nothing is on its way: the writers run, the readers wait for more than has arrived, and the channels
  and the wires are empty.
\<close>

definition reader_waits :: "('a, 'w, 'r, 'b) line_ops \<Rightarrow> ('a, 'r) reader \<Rightarrow> 'b list \<Rightarrow> bool" where
  "reader_waits ops rd buf = (case rd of Reading r \<Rightarrow> (case lo_read ops r buf of ReadWaits \<Rightarrow> True | _ \<Rightarrow> False) | _ \<Rightarrow> False)"

definition link_quiet :: "('a, 'w, 'r, 'b) line_ops \<Rightarrow> ('a, 'w, 'r, 'b) link \<Rightarrow> bool" where
  "link_quiet ops lk =
     ((case sl_writer (lk_svr lk) of Writing w \<Rightarrow> True | _ \<Rightarrow> False) \<and> (case cl_writer (lk_cli lk) of Writing w \<Rightarrow> True | _ \<Rightarrow> False) \<and>
      reader_waits ops (sl_reader (lk_svr lk)) (lk_up_buf lk) \<and> reader_waits ops (cl_reader (lk_cli lk)) (lk_down_buf lk) \<and>
      lk_down lk = [] \<and> lk_up lk = [] \<and> chan_buf (sl_send (lk_svr lk)) = [] \<and> chan_buf (cl_send (lk_cli lk)) = [] \<and>
      chan_buf (sl_read (lk_svr lk)) = [] \<and> chan_buf (cl_read (lk_cli lk)) = [])"

text \<open>C14: Each side takes the messages that the other sent, in order and none twice, whatever the goroutines and
  the network do; once nothing is on its way, all of them.
\<close>

theorem control_messages_in_order:
  assumes "line_contract R ops token" and "link_run ops (new_link ops token poolCount) lk"
  shows "prefix (cl_got (lk_cli lk)) (sl_sent (lk_svr lk)) \<and> prefix (sl_got (lk_svr lk)) (cl_sent (lk_cli lk)) \<and>
         (link_quiet ops lk \<longrightarrow> cl_got (lk_cli lk) = sl_sent (lk_svr lk) \<and> sl_got (lk_svr lk) = cl_sent (lk_cli lk))"
proof -
  from link_ok_run [OF assms(2) link_ok_new assms(1)]
  have down: "down_ok R ops token lk" and up: "up_ok R ops token lk" by (simp_all add: link_ok_def)
  have "link_quiet ops lk \<Longrightarrow> cl_got (lk_cli lk) = sl_sent (lk_svr lk)"
    using down assms(1) unfolding down_ok_def link_quiet_def reader_waits_def
    by (auto intro: line_inv_drained split: writer.splits reader.splits read_result.splits)
  moreover have "link_quiet ops lk \<Longrightarrow> sl_got (lk_svr lk) = cl_sent (lk_cli lk)"
    using up assms(1) unfolding up_ok_def link_quiet_def reader_waits_def
    by (auto intro: line_inv_drained split: writer.splits reader.splits read_result.splits)
  ultimately show ?thesis
    using down up by (auto simp: down_ok_def up_ok_def dest: line_inv_prefix)
qed

section \<open>A concrete link\<close>

text \<open>A stream whose frames are a header followed by the message.\<close>

definition sample_ops :: "(unit, unit, unit, unit message option) line_ops" where
  "sample_ops =
     \<lparr>lo_new_writer = \<lambda>token. Some (), lo_write = \<lambda>w m. (w, [None, Some m]), lo_new_reader = \<lambda>token. (),
      lo_read = \<lambda>r bs. (case bs of
        None # Some m # rest \<Rightarrow> ReadMsg m () rest
      | [] \<Rightarrow> ReadWaits | [None] \<Rightarrow> ReadWaits | _ \<Rightarrow> ReadFails)\<rparr>"

definition sample_frames :: "unit \<Rightarrow> unit \<Rightarrow> unit message option list \<Rightarrow> unit message list \<Rightarrow> bool" where
  "sample_frames w r bs ms \<longleftrightarrow> bs = concat (map (\<lambda>m. [None, Some m]) ms)"

lemma sample_contract: "line_contract sample_frames sample_ops token"
proof -
  have "case lo_read sample_ops r arrived of
          ReadMsg m r' left \<Rightarrow> \<exists>ms'. ms = m # ms' \<and> sample_frames w r' (left @ rest) ms'
        | ReadWaits \<Rightarrow> ms = [] \<or> rest \<noteq> [] | ReadFails \<Rightarrow> False"
    if "sample_frames w r (arrived @ rest) ms" for w r arrived rest ms
    using that
    by (cases arrived; cases "tl arrived"; cases ms)
      (auto simp: sample_frames_def sample_ops_def split: option.splits list.splits)
  then show ?thesis by (simp add: line_contract_def) (simp add: sample_ops_def sample_frames_def)
qed

text \<open>One request goes down and a message comes up; every delivery is in two parts.\<close>

definition sample_events :: "unit link_event list" where
  "sample_events =
     [SvrStart, SvrStart, SvrWriter None, SvrWriter None, DeliverDown 1, DeliverDown 1, CliReader None, CliReader None,
      CliHandler (HandlerTakes (\<lambda>m. True)), CliWriter None, CliEvent (MCloseProxy \<lparr>cp_proxy_name = ''ssh''\<rparr>),
      CliWriter None, DeliverUp 1, DeliverUp 1, SvrReader None, SvrReader None,
      SvrManager (ManagerTakes (\<lambda>m. Some (None, True)))]"

definition sample_link :: "(unit, unit, unit, unit message option) link" where
  "sample_link = (case link_play sample_ops sample_events (new_link sample_ops ''secret'' 1) of Ok lk \<Rightarrow> lk | _ \<Rightarrow> undefined)"

lemmas link_eval =
  go_then.simps link_step.simps svr_start_turn_def svr_writer_turn_def svr_reader_turn_def svr_manager_turn_def
  svr_request_turn_def svr_replaced_def svr_stoper_turn_def svr_writer_end_def svr_reader_end_def svr_manager_end_def
  cli_writer_turn_def cli_reader_turn_def cli_handler_turn_def cli_event_turn_def cli_lines_close_def cli_worker_turn_def
  cli_reader_end_def new_link_def new_svr_lines_def new_cli_lines_def make_chan_def sample_ops_def

lemma sample_link_played:
  "link_play sample_ops sample_events (new_link sample_ops ''secret'' 1) = Ok sample_link"
  by (simp add: sample_link_def sample_events_def link_eval)

text \<open>The history of a link where both directions have drained.\<close>

lemma control_messages_in_order_witness:
  "link_quiet sample_ops sample_link \<and> cl_got (lk_cli sample_link) = [MReqWorkConn] \<and>
   sl_sent (lk_svr sample_link) = cl_got (lk_cli sample_link) \<and>
   sl_got (lk_svr sample_link) = cl_sent (lk_cli sample_link)"
proof -
  have quiet: "link_quiet sample_ops sample_link" and got: "cl_got (lk_cli sample_link) = [MReqWorkConn]"
    by (simp_all add: sample_link_def sample_events_def link_quiet_def reader_waits_def link_eval)
  from control_messages_in_order [OF sample_contract link_play_run [OF sample_link_played]] quiet got
  show ?thesis by simp
qed

end
