(* ===== verification/Control_Stop.thy ===== *)
theory Control_Stop
  imports Control_Lines_Laws
begin

text \<open>
  When the server's end of a control connection comes to its end. \<^verbatim>\<open>stoper\<close> waits for the manager, and
  the manager may be waiting to send. With the writer gone and the channel full it waits for ever, and so
  does the client's next login with the same run id, which waits for the old control. This is the only
  state from which a control that is to stop cannot (\<open>control_stops_iff\<close>). The client has the same state,
  in which it does not reconnect (\<open>blocked_client_never_ends\<close>).
\<close>

section \<open>What \<^verbatim>\<open>manager\<close> sends\<close>

text \<open>The answer of the manager's turn, as \<open>manager_step\<close> gives it: at most one message.\<close>

definition svr_answer ::
    "ctl_env \<Rightarrow> auth_verifier \<Rightarrow> control \<Rightarrow> shared \<Rightarrow> unit message \<Rightarrow> (unit message option \<times> bool) option" where
  "svr_answer env verifier ctl sh m =
     (case manager_step env verifier (Server_Control.Received m) ctl sh of
        Ok (ctl', sh', go_on) \<Rightarrow>
          Some (case drop (length (ct_sent ctl)) (ct_sent ctl') of [] \<Rightarrow> None | out # outs \<Rightarrow> Some out, go_on)
      | _ \<Rightarrow> None)"

lemma register_proxy_sent:
  "register_proxy env m ctl sh = Ok (ctl', sh', m', r) \<Longrightarrow> ct_sent ctl' = ct_sent ctl"
  by (auto simp: register_proxy_def Let_def go_then_eq_Ok split: prod.splits sum.splits option.splits if_splits)

lemma close_proxy_sent: "close_proxy env name ctl sh = Ok (ctl', sh') \<Longrightarrow> ct_sent ctl' = ct_sent ctl"
  by (auto simp: close_proxy_def Let_def go_then_eq_Ok split: option.splits)

lemma manage_new_proxy_sent:
  assumes "manage_new_proxy env m ctl sh = Ok (ctl', sh')"
  shows "\<exists>out. ct_sent ctl' = ct_sent ctl @ [out]"
proof (cases "pl_do_new_proxy (ce_peer env) (ce_plugins env) \<lparr>npc_user = ctl_user_info ctl, npc_new_proxy = m\<rparr>")
  case (Ok ret)
  with assms obtain c s' m' r where reg: "register_proxy env (npc_new_proxy ret) ctl sh = Ok (c, s', m', r)"
    by (auto simp: manage_new_proxy_def go_then_eq_Ok)
  from assms Ok reg show ?thesis
    by (cases r) (auto simp: manage_new_proxy_def ctl_send_def register_proxy_sent [OF reg])
next
  case (Fail e)
  with assms show ?thesis by (auto simp: manage_new_proxy_def ctl_send_def)
next
  case Panic
  with assms show ?thesis by (simp add: manage_new_proxy_def)
qed

lemma manage_ping_sent:
  "manage_ping env verifier m ctl = Ok (ctl', go_on) \<Longrightarrow> \<exists>out. ct_sent ctl' = ct_sent ctl @ [out]"
  by (auto simp: manage_ping_def ctl_send_def Let_def split: go.split_asm option.split_asm)

lemma manager_step_sends:
  assumes "manager_step env verifier (Server_Control.Received m) ctl sh = Ok (ctl', sh', go_on)"
  shows "\<exists>outs. ct_sent ctl' = ct_sent ctl @ outs \<and> length outs \<le> 1"
  using assms
  by (cases m)
    (auto simp: manager_step.simps go_then_eq_Ok dest!: manage_new_proxy_sent manage_ping_sent close_proxy_sent)

text \<open>So the turns send what \<open>ct_sent\<close> lists.\<close>

lemma svr_answer_sent:
  assumes "manager_step env verifier (Server_Control.Received m) ctl sh = Ok (ctl', sh', go_on)"
  shows "\<exists>out. svr_answer env verifier ctl sh m = Some (out, go_on) \<and>
               ct_sent ctl' = ct_sent ctl @ (case out of None \<Rightarrow> [] | Some o' \<Rightarrow> [o'])"
proof -
  from manager_step_sends [OF assms] obtain outs
    where "ct_sent ctl' = ct_sent ctl @ outs" and "length outs \<le> 1" by blast
  with assms show ?thesis by (cases outs) (auto simp: svr_answer_def)
qed

section \<open>The shape of the server's end\<close>

fun shape_at :: "stoper \<Rightarrow> 'm chan \<Rightarrow> 'm chan \<Rightarrow> 'a handler \<Rightarrow> bool \<Rightarrow> bool" where
  "shape_at StopWaits read send manager conn \<longleftrightarrow> is_open read \<and> chan_ok send"
| "shape_at StopManager read send manager conn \<longleftrightarrow> is_closed read \<and> chan_ok send"
| "shape_at StopWriter read send manager conn \<longleftrightarrow> is_closed read \<and> is_closed send \<and> manager = HandlerEnd"
| "shape_at _ read send manager conn \<longleftrightarrow> is_closed read \<and> is_closed send \<and> manager = HandlerEnd \<and> \<not> conn"

definition svr_shape :: "('a, 'w, 'r) svr_lines \<Rightarrow> bool" where
  "svr_shape sl \<longleftrightarrow>
     shape_at (sl_stoper sl) (sl_read sl) (sl_send sl) (sl_manager sl) (sl_conn_open sl) \<and>
     (sl_started sl \<or> sl_stoper sl = StopWaits \<and> sl_conn_open sl \<and> sl_manager sl = Handling)"

text \<open>
  Blocked: the writer has ended, and the manager waits to send on a full channel, or \<^verbatim>\<open>Start\<close> has more to
  send than there is room for.
\<close>

definition svr_blocked :: "('a, 'w, 'r) svr_lines \<Rightarrow> bool" where
  "svr_blocked sl \<longleftrightarrow>
     sl_writer sl = WriterEnd \<and>
     (if sl_started sl
      then (case sl_manager sl of Sending m go_on \<Rightarrow> True | _ \<Rightarrow> False) \<and> is_open (sl_send sl) \<and> chan_room (sl_send sl) = 0
      else chan_room (sl_send sl) < sl_to_request sl)"

lemma svr_shape_new: "svr_shape (lk_svr (new_link ops token poolCount))"
  by (simp add: svr_shape_def new_link_def new_svr_lines_def)

lemma shape_send:
  "shape_at st read send manager conn \<Longrightarrow> chan_send m send = Sent send' \<Longrightarrow> shape_at st read send' manager conn"
  using chan_ok_kept(1) [of m send send'] chan_send_closed [of send m] by (cases st) auto

lemma shape_recv:
  "shape_at st read send manager conn \<Longrightarrow> chan_recv send = recv_result.Received m send' \<Longrightarrow> shape_at st read send' manager conn"
  "shape_at st read send manager conn \<Longrightarrow> chan_recv read = recv_result.Received m read' \<Longrightarrow> shape_at st read' send manager conn"
  using chan_ok_kept(2) [of send m send'] chan_recv_open [of send m send'] chan_recv_open [of read m read']
  by (cases st; auto)+

lemma shape_hand:
  "shape_at st read send manager conn \<Longrightarrow> chan_send m read = Sent read' \<Longrightarrow> shape_at st read' send manager conn"
  using chan_send_open [of m read read'] chan_send_closed [of read m] by (cases st) auto

lemma shape_conn: "shape_at st read send manager conn \<Longrightarrow> shape_at st read send manager False"
  by (cases st) auto

lemma shape_manager:
  "shape_at st read send manager conn \<Longrightarrow> shape_at st read send HandlerEnd conn"
  "shape_at st read send manager conn \<Longrightarrow> manager \<noteq> HandlerEnd \<Longrightarrow> shape_at st read send manager' conn"
  by (cases st; auto)+

lemmas shape_taken = shape_manager(2) [OF shape_recv(2)]
lemmas shape_answered = shape_manager(2) [OF shape_send]

lemma svr_start_shape: "svr_start_turn sl = Ok sl' \<Longrightarrow> svr_shape sl \<Longrightarrow> svr_shape sl'"
  by (auto simp: svr_shape_def svr_start_turn_def intro: shape_send split: if_split_asm send_result.split_asm)

lemma svr_request_shape: "svr_request_turn sl = Ok sl' \<Longrightarrow> svr_shape sl \<Longrightarrow> svr_shape sl'"
  by (auto simp: svr_shape_def svr_request_turn_def intro: shape_send split: send_result.split_asm)

lemma svr_writer_shape: "svr_writer_turn ops net sl = Ok (sl', bs) \<Longrightarrow> svr_shape sl \<Longrightarrow> svr_shape sl'"
  by (auto simp: svr_shape_def svr_writer_turn_def svr_writer_end_def Let_def intro: shape_recv(1)
      split: writer.split_asm recv_result.split_asm option.split_asm prod.split_asm if_split_asm)

lemma svr_reader_shape: "svr_reader_turn ops net buf sl = Ok (sl', buf') \<Longrightarrow> svr_shape sl \<Longrightarrow> svr_shape sl'"
  by (auto simp: svr_shape_def svr_reader_turn_def svr_reader_end_def intro: shape_hand shape_conn
      split: reader.split_asm if_split_asm send_result.split_asm option.split_asm bool.split_asm read_result.split_asm)

lemma svr_manager_shape: "svr_manager_turn choice sl = Ok sl' \<Longrightarrow> svr_shape sl \<Longrightarrow> svr_shape sl'"
  by (auto simp: svr_shape_def svr_manager_turn_def svr_manager_end_def Let_def
      intro: shape_manager(1) shape_recv(2) shape_taken shape_answered
      split: handler.split_asm manager_choice.split_asm if_split_asm recv_result.split_asm send_result.split_asm
        option.split_asm prod.split_asm bool.split_asm)

lemma chan_close_closed: "chan_close ch = Some ch' \<Longrightarrow> is_closed ch'"
  by (cases ch) auto

lemma svr_stoper_shape: "svr_stoper_turn sl = Ok sl' \<Longrightarrow> svr_shape sl \<Longrightarrow> svr_shape sl'"
  by (auto simp: svr_shape_def svr_stoper_turn_def dest: chan_close_closed
      split: stoper.split_asm if_split_asm option.split_asm)

lemma svr_shape_step:
  assumes "link_step ops e lk = Ok lk'" and "svr_shape (lk_svr lk)"
  shows "svr_shape (lk_svr lk')"
  using assms
  by (cases e)
    (auto simp: go_then_eq_Ok intro: svr_start_shape svr_request_shape svr_writer_shape svr_reader_shape svr_manager_shape
      svr_stoper_shape, auto simp: svr_shape_def svr_replaced_def)

lemma svr_shape_run: "link_run ops lk0 lk \<Longrightarrow> svr_shape (lk_svr lk0) \<Longrightarrow> svr_shape (lk_svr lk)"
  by (induction rule: link_run.induct) (auto intro: svr_shape_step)

section \<open>A blocked control stays blocked\<close>

lemma room_sent: "chan_send m ch = Sent ch' \<Longrightarrow> chan_room ch \<noteq> 0"
  using chan_send_room by fastforce

lemma svr_start_blocked: "svr_start_turn sl = Ok sl' \<Longrightarrow> svr_blocked sl \<Longrightarrow> svr_blocked sl'"
  by (auto simp: svr_blocked_def svr_start_turn_def dest: chan_send_room split: if_split_asm send_result.split_asm)

lemma svr_request_blocked: "svr_request_turn sl = Ok sl' \<Longrightarrow> svr_blocked sl \<Longrightarrow> svr_blocked sl'"
  by (auto simp: svr_blocked_def svr_request_turn_def dest: chan_send_room split: if_split_asm send_result.split_asm)

lemma svr_writer_blocked: "svr_writer_turn ops net sl = Ok (sl', bs) \<Longrightarrow> svr_blocked sl \<Longrightarrow> svr_blocked sl'"
  by (simp add: svr_blocked_def svr_writer_turn_def)

lemma svr_reader_blocked: "svr_reader_turn ops net buf sl = Ok (sl', buf') \<Longrightarrow> svr_blocked sl \<Longrightarrow> svr_blocked sl'"
  by (cases "sl_reader sl")
    (auto simp: svr_blocked_def svr_reader_turn_def svr_reader_end_def
      split: if_split_asm send_result.split_asm option.split_asm bool.split_asm read_result.split_asm)

lemma svr_manager_blocked: "svr_manager_turn choice sl = Ok sl' \<Longrightarrow> svr_blocked sl \<Longrightarrow> svr_blocked sl'"
  by (cases "sl_manager sl")
    (auto simp: svr_blocked_def svr_manager_turn_def Let_def dest: room_sent is_closed_not_open chan_send_open
      split: if_split_asm send_result.split_asm elim: chan_send.elims)

lemma svr_stoper_blocked: "svr_stoper_turn sl = Ok sl' \<Longrightarrow> svr_blocked sl \<Longrightarrow> svr_blocked sl'"
  by (cases "sl_stoper sl"; cases "sl_manager sl")
    (auto simp: svr_blocked_def svr_stoper_turn_def split: if_split_asm option.split_asm)

lemma svr_blocked_step:
  assumes "link_step ops e lk = Ok lk'" and "svr_blocked (lk_svr lk)"
  shows "svr_blocked (lk_svr lk')"
  using assms
  by (cases e)
    (auto simp: go_then_eq_Ok intro: svr_start_blocked svr_request_blocked svr_writer_blocked svr_reader_blocked
      svr_manager_blocked svr_stoper_blocked, auto simp: svr_blocked_def svr_replaced_def)

theorem blocked_control_never_stops:
  assumes "link_run ops lk0 lk" and "svr_shape (lk_svr lk0)" and "svr_blocked (lk_svr lk0)"
  shows "svr_blocked (lk_svr lk) \<and> sl_stoper (lk_svr lk) \<noteq> Stopped"
proof -
  from assms have "svr_blocked (lk_svr lk) \<and> svr_shape (lk_svr lk)"
    by (induction rule: link_run.induct) (auto intro: svr_blocked_step svr_shape_step)
  then show ?thesis by (auto simp: svr_blocked_def svr_shape_def split: if_split_asm handler.split_asm)
qed

section \<open>Any other control can stop\<close>

text \<open>Some order of the turns, with a network that fails, brings the control to its end.\<close>

definition can_stop :: "('a, 'w, 'r, 'b) line_ops \<Rightarrow> ('a, 'w, 'r, 'b) link \<Rightarrow> bool" where
  "can_stop ops lk \<longleftrightarrow> (\<exists>lk'. link_run ops lk lk' \<and> sl_stoper (lk_svr lk') = Stopped)"

lemma can_stop_step: "link_step ops e lk = Ok lk' \<Longrightarrow> can_stop ops lk' \<Longrightarrow> can_stop ops lk"
  unfolding can_stop_def using link_run_trans link_next [OF link_begin _ refl] by blast

text \<open>Phases of \<^verbatim>\<open>stoper\<close>, last one first; \<open>svr_shape\<close> carries what the earlier ones have done.\<close>

lemma can_stop_reader:
  assumes "svr_shape (lk_svr lk)" and "sl_started (lk_svr lk)" and "sl_stoper (lk_svr lk) = StopReader"
  shows "can_stop ops lk"
proof -
  have ended: "can_stop ops l"
    if "sl_started (lk_svr l)" "sl_stoper (lk_svr l) = StopReader" "sl_reader (lk_svr l) = ReaderEnd" for l
  proof (rule can_stop_step [where e = SvrStoper])
    show "link_step ops SvrStoper l = Ok (l\<lparr>lk_svr := lk_svr l\<lparr>sl_stoper := Stopped\<rparr>\<rparr>)"
      using that by (simp add: svr_stoper_turn_def)
    show "can_stop ops (l\<lparr>lk_svr := lk_svr l\<lparr>sl_stoper := Stopped\<rparr>\<rparr>)"
      unfolding can_stop_def by (auto intro: link_begin)
  qed
  show ?thesis
  proof (cases "sl_reader (lk_svr lk) = ReaderEnd")
    case False
    have "\<exists>lk'. link_step ops (SvrReader None) lk = Ok lk' \<and> sl_started (lk_svr lk') \<and>
                sl_stoper (lk_svr lk') = StopReader \<and> sl_reader (lk_svr lk') = ReaderEnd"
      using assms False
      by (cases "sl_reader (lk_svr lk)") (auto simp: svr_shape_def svr_reader_turn_def svr_reader_end_def chan_send_closed)
    then show ?thesis using ended can_stop_step by blast
  qed (use ended assms in blast)
qed

lemma can_stop_writer:
  assumes "svr_shape (lk_svr lk)" and "sl_started (lk_svr lk)" and "sl_stoper (lk_svr lk) = StopWriter"
    and "lo_new_writer ops (sl_token (lk_svr lk)) \<noteq> None"
  shows "can_stop ops lk"
proof -
  have ended: "can_stop ops l"
    if "svr_shape (lk_svr l)" "sl_started (lk_svr l)" "sl_stoper (lk_svr l) = StopWriter" "sl_writer (lk_svr l) = WriterEnd" for l
  proof (rule can_stop_step [where e = SvrStoper])
    show step: "link_step ops SvrStoper l = Ok (l\<lparr>lk_svr := lk_svr l\<lparr>sl_conn_open := False, sl_stoper := StopReader\<rparr>\<rparr>)"
      using that by (simp add: svr_stoper_turn_def)
    show "can_stop ops (l\<lparr>lk_svr := lk_svr l\<lparr>sl_conn_open := False, sl_stoper := StopReader\<rparr>\<rparr>)"
      using that svr_shape_step [OF step] by (intro can_stop_reader) auto
  qed
  have writing: "can_stop ops l"
    if shape: "svr_shape (lk_svr l)" and "sl_started (lk_svr l)" "sl_stoper (lk_svr l) = StopWriter"
      and w: "sl_writer (lk_svr l) = Writing w" for l w
  proof -
    have "is_closed (sl_send (lk_svr l))" using that by (simp add: svr_shape_def)
    then have "\<exists>l'. link_step ops (SvrWriter (Some 0)) l = Ok l' \<and> sl_started (lk_svr l') \<and>
                 sl_stoper (lk_svr l') = StopWriter \<and> sl_writer (lk_svr l') = WriterEnd"
      using that by (cases "sl_send (lk_svr l)" rule: chan_recv.cases)
        (auto simp: svr_writer_turn_def svr_writer_end_def split: prod.split)
    then show ?thesis using ended svr_shape_step [OF _ shape] can_stop_step by blast
  qed
  show ?thesis
  proof (cases "sl_writer (lk_svr lk)")
    case WriterNew
    from assms(4) obtain w where "lo_new_writer ops (sl_token (lk_svr lk)) = Some w" by blast
    with WriterNew have step: "link_step ops (SvrWriter None) lk = Ok (lk\<lparr>lk_svr := lk_svr lk\<lparr>sl_writer := Writing w\<rparr>\<rparr>)"
      by (simp add: svr_writer_turn_def)
    show ?thesis
      by (rule can_stop_step [OF step], rule writing [of _ w]) (use assms svr_shape_step [OF step] in auto)
  qed (use assms ended writing in blast)+
qed

definition makes_writers :: "('a, 'w, 'r, 'b) line_ops \<Rightarrow> bool" where
  "makes_writers ops \<longleftrightarrow> (\<forall>token. lo_new_writer ops token \<noteq> None)"

lemma can_stop_manager_ended:
  assumes "makes_writers ops" and "svr_shape (lk_svr lk)" and "sl_started (lk_svr lk)"
    and "sl_stoper (lk_svr lk) = StopManager" and "sl_manager (lk_svr lk) = HandlerEnd"
  shows "can_stop ops lk"
proof -
  from assms(2,4) have "is_open (sl_send (lk_svr lk))" by (auto simp: svr_shape_def dest: chan_ok_open)
  then obtain ch where "chan_close (sl_send (lk_svr lk)) = Some ch" using chan_close_open by blast
  with assms have step: "link_step ops SvrStoper lk = Ok (lk\<lparr>lk_svr := lk_svr lk\<lparr>sl_send := ch, sl_stoper := StopWriter\<rparr>\<rparr>)"
    by (simp add: svr_stoper_turn_def)
  show ?thesis
    by (rule can_stop_step [OF step], rule can_stop_writer)
      (use assms svr_shape_step [OF step] in \<open>auto simp: makes_writers_def\<close>)
qed

lemma can_stop_manager_free:
  assumes "makes_writers ops" and "svr_shape (lk_svr lk)" and "sl_started (lk_svr lk)"
    and "sl_stoper (lk_svr lk) = StopManager" and "chan_room (sl_send (lk_svr lk)) > 0 \<or> sl_manager (lk_svr lk) = Handling"
  shows "can_stop ops lk"
proof -
  have handling: "can_stop ops l"
    if shape: "svr_shape (lk_svr l)" and "sl_started (lk_svr l)" "sl_stoper (lk_svr l) = StopManager" "sl_manager (lk_svr l) = Handling" for l
  proof -
    from that have step: "link_step ops (SvrManager ManagerTimeout) l = Ok (l\<lparr>lk_svr := svr_manager_end (lk_svr l)\<rparr>)"
      by (simp add: svr_manager_turn_def)
    show ?thesis
      by (rule can_stop_step [OF step], rule can_stop_manager_ended)
        (use that assms(1) svr_shape_step [OF step shape] in \<open>auto simp: svr_manager_end_def\<close>)
  qed
  show ?thesis
  proof (cases "sl_manager (lk_svr lk)")
    case (Sending m go_on)
    from assms(2,4) have "is_open (sl_send (lk_svr lk))" by (auto simp: svr_shape_def dest: chan_ok_open)
    with assms(5) Sending obtain ch where "chan_send m (sl_send (lk_svr lk)) = Sent ch" using chan_room_send by fastforce
    with Sending assms(3,4)
    obtain l where step: "link_step ops (SvrManager ManagerTimeout) lk = Ok l" and "sl_started (lk_svr l)"
      and "sl_stoper (lk_svr l) = StopManager" and "sl_manager (lk_svr l) \<in> {Handling, HandlerEnd}"
      by (auto simp: svr_manager_turn_def svr_manager_end_def Let_def)
    with svr_shape_step [OF step assms(2)] have "can_stop ops l"
      using handling can_stop_manager_ended [OF assms(1)] by blast
    with step show ?thesis by (rule can_stop_step)
  qed (use assms handling can_stop_manager_ended in blast)+
qed

text \<open>A writer that lives makes room, at worst by failing; the rest stays as it is.\<close>

definition room_made :: "('a, 'w, 'r) svr_lines \<Rightarrow> ('a, 'w, 'r) svr_lines \<Rightarrow> bool" where
  "room_made sl sl' \<longleftrightarrow>
     sl_started sl' = sl_started sl \<and> sl_to_request sl' = sl_to_request sl \<and> sl_stoper sl' = sl_stoper sl \<and>
     sl_manager sl' = sl_manager sl \<and> (sl_all_started sl \<longrightarrow> sl_all_started sl') \<and>
     0 < chan_room (sl_send sl') \<and> (sl_conn_open sl \<longrightarrow> sl_writer sl' \<noteq> WriterEnd)"

lemma writing_makes_room:
  assumes "svr_shape (lk_svr lk)" and "sl_stoper (lk_svr lk) \<in> {StopWaits, StopManager}"
    and "sl_writer (lk_svr lk) = Writing w" and "chan_room (sl_send (lk_svr lk)) = 0"
  shows "\<exists>lk'. link_step ops (SvrWriter None) lk = Ok lk' \<and> room_made (lk_svr lk) (lk_svr lk')"
proof -
  from assms(1,2) have "chan_ok (sl_send (lk_svr lk))" by (auto simp: svr_shape_def)
  from chan_full_recv [OF this assms(4)] assms(3) show ?thesis
    by (cases "sl_conn_open (lk_svr lk)")
      (auto simp: svr_writer_turn_def svr_writer_end_def room_made_def split: prod.split)
qed

lemma writer_makes_room:
  assumes "makes_writers ops" and shape: "svr_shape (lk_svr lk)" and stop: "sl_stoper (lk_svr lk) \<in> {StopWaits, StopManager}"
    and "sl_writer (lk_svr lk) \<noteq> WriterEnd" and full: "chan_room (sl_send (lk_svr lk)) = 0"
    and goes_on: "\<And>lk'. svr_shape (lk_svr lk') \<Longrightarrow> room_made (lk_svr lk) (lk_svr lk') \<Longrightarrow> can_stop ops lk'"
  shows "can_stop ops lk"
proof (cases "sl_writer (lk_svr lk)")
  case WriterNew
  from assms(1) obtain w where "lo_new_writer ops (sl_token (lk_svr lk)) = Some w" by (auto simp: makes_writers_def)
  with WriterNew obtain lk1 where step: "link_step ops (SvrWriter None) lk = Ok lk1"
    and lk1: "lk_svr lk1 = (lk_svr lk)\<lparr>sl_writer := Writing w\<rparr>"
    by (simp add: svr_writer_turn_def)
  have shape1: "svr_shape (lk_svr lk1)" by (rule svr_shape_step [OF step shape])
  have writing: "sl_writer (lk_svr lk1) = Writing w" by (simp add: lk1)
  obtain l where step1: "link_step ops (SvrWriter None) lk1 = Ok l" and "room_made (lk_svr lk1) (lk_svr l)"
    using writing_makes_room [OF shape1 _ writing] stop full by (auto simp: lk1)
  then have "room_made (lk_svr lk) (lk_svr l)" by (simp add: room_made_def lk1)
  with goes_on [OF svr_shape_step [OF step1 shape1]] show ?thesis
    using can_stop_step [OF step] can_stop_step [OF step1] by blast
next
  case (Writing w)
  from writing_makes_room [OF shape stop Writing full] show ?thesis
    using goes_on svr_shape_step [OF _ shape] can_stop_step by blast
qed (use assms(4) in simp)

lemma can_stop_manager:
  assumes "makes_writers ops" and "svr_shape (lk_svr lk)" and "sl_started (lk_svr lk)"
    and "sl_stoper (lk_svr lk) = StopManager" and "\<not> svr_blocked (lk_svr lk)"
  shows "can_stop ops lk"
proof (cases "chan_room (sl_send (lk_svr lk)) > 0 \<or> sl_manager (lk_svr lk) = Handling")
  case True
  with can_stop_manager_free assms(1-4) show ?thesis by blast
next
  case False
  show ?thesis
  proof (cases "sl_manager (lk_svr lk)")
    case (Sending m go_on)
    from assms(2,4) have "is_open (sl_send (lk_svr lk))" by (auto simp: svr_shape_def dest: chan_ok_open)
    with False Sending assms(3,5) have "sl_writer (lk_svr lk) \<noteq> WriterEnd" by (simp add: svr_blocked_def)
    moreover have "can_stop ops l" if "svr_shape (lk_svr l)" and "room_made (lk_svr lk) (lk_svr l)" for l
      using that assms(1,3,4) by (intro can_stop_manager_free) (auto simp: room_made_def)
    ultimately show ?thesis using writer_makes_room [OF assms(1,2)] assms(4) False by blast
  qed (use False assms can_stop_manager_ended in blast)+
qed

lemma can_stop_waiting:
  assumes "makes_writers ops" and "svr_shape (lk_svr lk)" and "sl_started (lk_svr lk)" and "sl_all_started (lk_svr lk)"
    and "sl_stoper (lk_svr lk) = StopWaits" and "\<not> svr_blocked (lk_svr lk)"
  shows "can_stop ops lk"
proof -
  from assms(2,5) have "is_open (sl_read (lk_svr lk))" by (simp add: svr_shape_def)
  then obtain ch where "chan_close (sl_read (lk_svr lk)) = Some ch" using chan_close_open by blast
  with assms have step: "link_step ops SvrStoper lk = Ok (lk\<lparr>lk_svr := lk_svr lk\<lparr>sl_read := ch, sl_stoper := StopManager\<rparr>\<rparr>)"
    by (simp add: svr_stoper_turn_def)
  show ?thesis
    by (rule can_stop_step [OF step], rule can_stop_manager)
      (use assms svr_shape_step [OF step] in \<open>auto simp: svr_blocked_def\<close>)
qed

lemma start_sends:
  assumes "svr_shape (lk_svr lk)" and "\<not> sl_started (lk_svr lk)" and "sl_to_request (lk_svr lk) = Suc n"
    and "0 < chan_room (sl_send (lk_svr lk))"
  shows "\<exists>lk'. link_step ops SvrStart lk = Ok lk' \<and> \<not> sl_started (lk_svr lk') \<and> sl_to_request (lk_svr lk') = n \<and>
           sl_all_started (lk_svr lk') = sl_all_started (lk_svr lk) \<and> (svr_blocked (lk_svr lk') \<longrightarrow> svr_blocked (lk_svr lk))"
proof -
  from assms(1,2) have "is_open (sl_send (lk_svr lk))" by (auto simp: svr_shape_def dest: chan_ok_open)
  from chan_room_send [OF this assms(4)] obtain ch where "chan_send MReqWorkConn (sl_send (lk_svr lk)) = Sent ch"
    and "chan_room ch = chan_room (sl_send (lk_svr lk)) - 1" by blast
  with assms show ?thesis by (auto simp: svr_start_turn_def svr_blocked_def)
qed

lemma can_stop_starting:
  assumes "makes_writers ops" and "svr_shape (lk_svr lk)" and "\<not> sl_started (lk_svr lk)" and "sl_all_started (lk_svr lk)"
    and "\<not> svr_blocked (lk_svr lk)"
  shows "can_stop ops lk"
  using assms(2-5)
proof (induction "sl_to_request (lk_svr lk)" arbitrary: lk)
  case 0
  then have step: "link_step ops SvrStart lk = Ok (lk\<lparr>lk_svr := lk_svr lk\<lparr>sl_started := True\<rparr>\<rparr>)"
    by (simp add: svr_start_turn_def)
  show ?case
    by (rule can_stop_step [OF step], rule can_stop_waiting [OF assms(1) svr_shape_step [OF step 0(2)]])
      (use 0 in \<open>auto simp: svr_shape_def svr_blocked_def\<close>)
next
  case (Suc n)
  have sends: "can_stop ops l"
    if shape: "svr_shape (lk_svr l)" and "\<not> sl_started (lk_svr l)" and "sl_to_request (lk_svr l) = Suc n"
      and "0 < chan_room (sl_send (lk_svr l))" and "sl_all_started (lk_svr l)" and "\<not> svr_blocked (lk_svr l)" for l
  proof -
    from start_sends [OF that(1-4)] that(5,6) obtain l' where step: "link_step ops SvrStart l = Ok l'"
      and l': "\<not> sl_started (lk_svr l')" "n = sl_to_request (lk_svr l')" "sl_all_started (lk_svr l')" "\<not> svr_blocked (lk_svr l')"
      by blast
    from Suc.hyps(1) [OF l'(2) svr_shape_step [OF step shape] l'(1,3,4)] step show ?thesis by (rule can_stop_step [rotated])
  qed
  show ?case
  proof (cases "chan_room (sl_send (lk_svr lk)) = 0")
    case True
    with Suc.hyps(2) Suc.prems have "sl_writer (lk_svr lk) \<noteq> WriterEnd" by (auto simp: svr_blocked_def)
    moreover have "can_stop ops l" if "svr_shape (lk_svr l)" and "room_made (lk_svr lk) (lk_svr l)" for l
      by (rule sends) (use that Suc.hyps(2) Suc.prems in \<open>auto simp: room_made_def svr_shape_def svr_blocked_def\<close>)
    ultimately show ?thesis
      using writer_makes_room [OF assms(1) Suc.prems(1) _ _ True] Suc.prems(1,2) by (auto simp: svr_shape_def)
  next
    case False
    with sends [of lk] Suc show ?thesis by simp
  qed
qed

lemma can_stop_started:
  assumes "makes_writers ops" and "svr_shape (lk_svr lk)" and "sl_started (lk_svr lk)" and "sl_all_started (lk_svr lk)"
    and "\<not> svr_blocked (lk_svr lk)"
  shows "can_stop ops lk"
proof (cases "sl_stoper (lk_svr lk)")
  case Stopped
  then show ?thesis unfolding can_stop_def by (auto intro: link_begin)
next
  case StopWriter
  from assms(1) have "lo_new_writer ops (sl_token (lk_svr lk)) \<noteq> None" unfolding makes_writers_def by blast
  with can_stop_writer [OF assms(2,3) StopWriter] show ?thesis by blast
qed (use assms can_stop_waiting can_stop_manager can_stop_reader in blast)+


text \<open>
  A blocked control is reached: the manager has taken a message and is to answer, a write fails, and ten
  requests for work connections fill the channel.
\<close>

definition blocking_events :: "unit link_event list" where
  "blocking_events =
     [SvrStart, SvrWriter None, CliWriter None, CliEvent (MPing \<lparr>pg_privilege_key = [], pg_timestamp = 0\<rparr>), CliWriter None,
      DeliverUp 2, SvrReader None, SvrReader None, SvrManager (ManagerTakes (\<lambda>m. Some (Some (MPong \<lparr>po_error = []\<rparr>), True))),
      SvrRequest, SvrWriter (Some 0)] @ replicate 10 SvrRequest @ [SvrReplaced, SvrStoper]"

definition blocked_link :: "(unit, unit, unit, unit message option) link" where
  "blocked_link = (case link_play sample_ops blocking_events (new_link sample_ops ''secret'' 0) of Ok lk \<Rightarrow> lk | _ \<Rightarrow> undefined)"

lemma blocked_link_played: "link_play sample_ops blocking_events (new_link sample_ops ''secret'' 0) = Ok blocked_link"
  by (simp add: blocked_link_def blocking_events_def link_eval numeral_eq_Suc)

lemma blocked_link_blocked: "svr_blocked (lk_svr blocked_link) \<and> sl_all_started (lk_svr blocked_link)"
  by (simp add: blocked_link_def blocking_events_def link_eval numeral_eq_Suc svr_blocked_def)

lemma sample_makes_writers: "makes_writers sample_ops"
  by (simp add: makes_writers_def sample_ops_def)

definition replaced_link :: "(unit, unit, unit, unit message option) link" where
  "replaced_link = sample_link\<lparr>lk_svr := svr_replaced (lk_svr sample_link)\<rparr>"

lemma replaced_link_run: "link_run sample_ops (new_link sample_ops ''secret'' 1) replaced_link"
  by (rule link_next [OF link_play_run [OF sample_link_played] _ refl, of SvrReplaced]) (simp add: replaced_link_def)


section \<open>The client's end of a blocked connection\<close>

text \<open>
  \<^verbatim>\<open>msgHandler\<close> waits to send a ping on the full channel of a writer that has ended. \<^verbatim>\<open>worker\<close> waits for it,
  \<^verbatim>\<open>closedDoneCh\<close> is not closed, and \<^verbatim>\<open>keepControllerWorking\<close> does not reconnect.
\<close>

definition cli_blocked :: "('a, 'w, 'r) cli_lines \<Rightarrow> bool" where
  "cli_blocked cl \<longleftrightarrow>
     cl_writer cl = WriterEnd \<and> (case cl_handler cl of Sending m go_on \<Rightarrow> True | _ \<Rightarrow> False) \<and>
     is_open (cl_send cl) \<and> chan_room (cl_send cl) = 0 \<and> cl_worker cl \<in> {WorkerWaits, WorkerReader, WorkerHandler}"

lemma cli_writer_blocked: "cli_writer_turn ops net cl = Ok (cl', bs) \<Longrightarrow> cli_blocked cl \<Longrightarrow> cli_blocked cl'"
  by (simp add: cli_blocked_def cli_writer_turn_def)

lemma cli_reader_blocked: "cli_reader_turn ops net buf cl = Ok (cl', buf') \<Longrightarrow> cli_blocked cl \<Longrightarrow> cli_blocked cl'"
  by (cases "cl_reader cl")
    (auto simp: cli_blocked_def cli_reader_turn_def cli_reader_end_def
      split: if_split_asm send_result.split_asm option.split_asm bool.split_asm read_result.split_asm)

lemma cli_handler_blocked: "cli_handler_turn choice cl = Ok cl' \<Longrightarrow> cli_blocked cl \<Longrightarrow> cli_blocked cl'"
  by (cases "cl_handler cl")
    (auto simp: cli_blocked_def cli_handler_turn_def dest: room_sent
      split: send_result.split_asm elim: chan_send.elims)

lemma cli_event_blocked: "cli_event_turn m cl = Ok cl' \<Longrightarrow> cli_blocked cl \<Longrightarrow> cli_blocked cl'"
  by (auto simp: cli_blocked_def cli_event_turn_def dest: room_sent split: send_result.split_asm)

lemma cli_worker_blocked: "cli_worker_turn cl = Ok cl' \<Longrightarrow> cli_blocked cl \<Longrightarrow> cli_blocked cl'"
  by (cases "cl_worker cl"; cases "cl_handler cl")
    (auto simp: cli_blocked_def cli_worker_turn_def split: if_split_asm option.split_asm)

lemma cli_blocked_step:
  assumes "link_step ops e lk = Ok lk'" and "cli_blocked (lk_cli lk)"
  shows "cli_blocked (lk_cli lk')"
  using assms
  by (cases e)
    (auto simp: go_then_eq_Ok intro: cli_writer_blocked cli_reader_blocked cli_handler_blocked cli_event_blocked
      cli_worker_blocked, auto simp: cli_blocked_def cli_lines_close_def)

theorem blocked_client_never_ends:
  assumes "link_run ops lk0 lk" and "cli_blocked (lk_cli lk0)"
  shows "cl_worker (lk_cli lk) \<noteq> WorkerEnd"
proof -
  from assms have "cli_blocked (lk_cli lk)" by (induction rule: link_run.induct) (auto intro: cli_blocked_step)
  then show ?thesis by (auto simp: cli_blocked_def)
qed

end
