(* ===== verification/Http_Serving.thy ===== *)
theory Http_Serving
  imports Reverse_Proxy Vhost_Pages
begin

text \<open>
  A request to an HTTP virtual host from its arrival to the end of the answer: \<^verbatim>\<open>frp/pkg/util/vhost/http.go\<close>
  with the end of \<^verbatim>\<open>ServeHTTP\<close> of \<^verbatim>\<open>reverseproxy.go\<close>. It puts together the guard and the routes of theory
  Vhost, the headers and the body of Reverse_Proxy and the pages of Vhost_Pages. The transport, what the
  reads of the body give and what the writes to the client answer are arguments.
\<close>

section \<open>The proxy of the virtual hosts\<close>

text \<open>\<^verbatim>\<open>NewHTTPReverseProxy\<close>: the timeouts of its transport, in nanoseconds, and its buffers.\<close>

record 'h http_reverse_proxy =
  hp_routers :: "'h http_routers"
  hp_response_header_timeout :: int
  hp_idle_conn_timeout :: int
  hp_flush_interval :: int

definition wrap_pool_size :: nat where "wrap_pool_size = 32 * 1024"

definition new_http_reverse_proxy :: "int \<Rightarrow> 'h http_routers \<Rightarrow> 'h http_reverse_proxy" where
  "new_http_reverse_proxy responseHeaderTimeoutS r =
     (let t = (if responseHeaderTimeoutS \<le> 0 then 60 else responseHeaderTimeoutS) in
      \<lparr>hp_routers = r, hp_response_header_timeout = sint (word_of_int (t * 1000000000) :: 64 word),
       hp_idle_conn_timeout = 60 * 1000000000, hp_flush_interval = 0\<rparr>)"

text \<open>
  The writer of the proxy's logger cuts the line breaks off and claims to have written everything.
\<close>

definition wrap_logger_write :: "string \<Rightarrow> string \<times> nat" where
  "wrap_logger_write p = (rev (dropWhile (\<lambda>c. c = CHR 0x0A) (rev p)), length p)"

text \<open>
  The dialer of the transport: the values of the request's context are the host and the path that the
  request had before the director; and the handler of errors.
\<close>

definition dial_context :: "'h http_reverse_proxy \<Rightarrow> http_request \<Rightarrow> 'h option" where
  "dial_context rp req = create_connection (hp_routers rp) (get_host_from_addr (rq_host req)) (rq_url_path req)"

definition vhost_error_handler :: "string \<Rightarrow> int \<times> string" where
  "vhost_error_handler page = (404, page)"

text \<open>\<^verbatim>\<open>NewSingleHostReverseProxy\<close>, which frp does not use: its director, with the URL of the target.\<close>

record proxied_url =
  pu_scheme :: string
  pu_host :: string
  pu_path :: url_path
  pu_raw_query :: string

definition single_host_director ::
    "proxied_url \<Rightarrow> proxied_url \<Rightarrow> headers \<Rightarrow> (unit, proxied_url \<times> headers) go" where
  "single_host_director target url h =
     go_then (join_url_path (pu_path target) (pu_path url)) (\<lambda>(path, rawpath).
       Ok (\<lparr>pu_scheme = pu_scheme target, pu_host = pu_host target,
             pu_path = (pu_path url)\<lparr>up_path := path, up_raw_path := rawpath\<rparr>,
             pu_raw_query =
               (if pu_raw_query target = [] \<or> pu_raw_query url = [] then pu_raw_query target @ pu_raw_query url
                else pu_raw_query target @ ''&'' @ pu_raw_query url)\<rparr>,
           if h ''User-Agent'' = None then header_set ''User-Agent'' [] h else h))"

section \<open>The parts of \<^verbatim>\<open>ServeHTTP\<close> after the backend's answer\<close>

text \<open>\<^verbatim>\<open>getErrorHandler\<close>: the handler that was set, or the answer \<^verbatim>\<open>502\<close> without a body.\<close>

definition default_error_handler :: "int \<times> string" where
  "default_error_handler = (502, [])"

definition get_error_handler :: "(int \<times> string) option \<Rightarrow> int \<times> string" where
  "get_error_handler handler = (case handler of Some h \<Rightarrow> h | None \<Rightarrow> default_error_handler)"

text \<open>
  \<^verbatim>\<open>modifyResponse\<close>: \<open>None\<close> when the answer goes on, otherwise what the error handler answers; the body
  has been closed then.
\<close>

definition modify_response ::
    "(http_response \<Rightarrow> string option) option \<Rightarrow> (int \<times> string) option \<Rightarrow> http_response \<Rightarrow> (int \<times> string) option" where
  "modify_response hook handler res =
     (case hook of
        None \<Rightarrow> None
      | Some f \<Rightarrow> (case f res of None \<Rightarrow> None | Some err \<Rightarrow> Some (get_error_handler handler)))"

text \<open>
  \<^verbatim>\<open>copyResponse\<close>: the copying, and the writer with a maximal latency when there is an interval and
  the client's writer can flush; it is stopped at the end.
\<close>

definition copy_response ::
    "(string \<Rightarrow> nat \<times> string option) \<Rightarrow> bool \<Rightarrow> (string \<times> read_end) list \<Rightarrow> int \<Rightarrow>
     (copy_error option \<times> nat) option \<times> latency_writer option" where
  "copy_response write flusher reads flushInterval =
     (let mlw = (if flushInterval \<noteq> 0 \<and> flusher then Some (mw_new flushInterval) else None) in
      case copy_buffer write reads 0 of
        None \<Rightarrow> (None, mlw)
      | Some (n, err) \<Rightarrow> (Some (err, n), map_option mw_stop mlw))"

definition should_panic_on_copy_error :: "bool \<Rightarrow> bool \<Rightarrow> bool" where
  "should_panic_on_copy_error inOurTests serverContext \<longleftrightarrow> inOurTests \<or> serverContext"

section \<open>A request from end to end\<close>

text \<open>
  What the client gets. \<open>Answered\<close>: status, headers, body and the headers that follow the body as
  trailers. \<open>Streaming\<close>: status, headers and the bytes of the body so far. \<open>Aborted\<close>: the connection is
  cut after part of the body (\<^verbatim>\<open>http.ErrAbortHandler\<close>). \<open>Dropped\<close>: the connection is closed without an answer.
\<close>

datatype http_served =
    Answered int headers string headers
  | Streaming int headers
  | Aborted int headers string
  | Switched headers
  | Dropped

record body_env =
  be_reads :: "(string \<times> read_end) list"
  be_write :: "string \<Rightarrow> nat \<times> string option"
  be_flusher :: bool
  be_server_context :: bool
  be_trailer_keys :: "string list"
  be_trailers :: headers

text \<open>The body, up to the read that ends it.\<close>

fun body_of :: "(string \<times> read_end) list \<Rightarrow> string" where
  "body_of [] = []"
| "body_of ((chunk, ReadMore) # reads) = chunk @ body_of reads"
| "body_of ((chunk, rerr) # reads) = chunk"

text \<open>\<^verbatim>\<open>http.Error\<close> of the library.\<close>

definition http_error :: "string \<Rightarrow> int \<Rightarrow> headers \<Rightarrow> http_served" where
  "http_error text code h =
     Answered code
       (header_set ''X-Content-Type-Options'' ''nosniff'' (header_set ''Content-Type'' ''text/plain; charset=utf-8'' h))
       (text @ [CHR 0x0A]) Map.empty"

definition rp_finish :: "int \<Rightarrow> body_env \<Rightarrow> nat \<Rightarrow> http_response \<Rightarrow> int \<Rightarrow> headers \<Rightarrow> http_served" where
  "rp_finish flushInterval be announcedTrailers res status h =
     (case fst (copy_response (be_write be) (be_flusher be) (be_reads be)
                 (flush_interval flushInterval (hr_headers res) (hr_content_length res))) of
        None \<Rightarrow> Streaming status h
      | Some (None, n) \<Rightarrow>
          Answered status h (take n (body_of (be_reads be)))
            (rp_trailers announcedTrailers (be_trailer_keys be) (be_trailers be) Map.empty)
      | Some (Some err, n) \<Rightarrow>
          if should_panic_on_copy_error False (be_server_context be) then Aborted status h (take n (body_of (be_reads be)))
          else Answered status h (take n (body_of (be_reads be))) Map.empty)"

text \<open>
  \<^verbatim>\<open>handleUpgradeResponse\<close>, with what can fail on the way: the writer is no \<^verbatim>\<open>Hijacker\<close>, the body cannot
  be written to, the connection is not handed over, the answer is not written or flushed. Once the
  client's connection has been handed over an error can no longer be answered, and it is closed.
\<close>

record switch_env =
  sw_hijacker :: bool
  sw_body_writable :: bool
  sw_hijack_ok :: bool
  sw_write_ok :: bool
  sw_flush_ok :: bool

definition handle_upgrade_response ::
    "rp_env \<Rightarrow> switch_env \<Rightarrow> http_served \<Rightarrow> string list \<Rightarrow> http_request \<Rightarrow> http_response \<Rightarrow> http_served" where
  "handle_upgrade_response env sw failed keys req res =
     (if upgrade_type (re_contains_token env) (rq_headers req) \<noteq> upgrade_type (re_contains_token env) (hr_headers res)
      then failed
      else if \<not> sw_hijacker sw then failed
      else if \<not> sw_body_writable sw then failed
      else if \<not> sw_hijack_ok sw then failed
      else if \<not> sw_write_ok sw then Dropped
      else if \<not> sw_flush_ok sw then Dropped
      else Switched (copy_header keys (hr_headers res) Map.empty))"

text \<open>
  \<^verbatim>\<open>ReverseProxy.ServeHTTP\<close> from the answer of the transport on. \<open>keys\<close> and \<open>trailerKeys\<close> are the orders of
  the ranges over the answer's headers and announced trailers.
\<close>

definition rp_answer ::
    "rp_env \<Rightarrow> switch_env \<Rightarrow> (int \<times> string) option \<Rightarrow> (http_response \<Rightarrow> string option) option \<Rightarrow> int \<Rightarrow>
     string list \<Rightarrow> string list \<Rightarrow> body_env \<Rightarrow> http_request \<Rightarrow> string + http_response \<Rightarrow> http_served" where
  "rp_answer env sw handler hook flushInterval keys trailerKeys be outreq answer =
     (let failed = (case get_error_handler handler of (code, page) \<Rightarrow> Answered code Map.empty page Map.empty) in
      case answer of
        Inl err \<Rightarrow> failed
      | Inr res \<Rightarrow>
          if hr_status res = 101
          then (if modify_response hook handler res \<noteq> None then failed else handle_upgrade_response env sw failed keys outreq res)
          else
            let res1 = res\<lparr>hr_headers := out_headers (hr_headers res)\<rparr> in
            if modify_response hook handler res1 \<noteq> None then failed
            else
              let h = copy_header keys (hr_headers res1) Map.empty;
                  h1 = (if trailerKeys \<noteq> [] then header_add ''Trailer'' (join '', '' trailerKeys) h else h)
              in rp_finish flushInterval be (length trailerKeys) res1 (hr_status res1) h1)"

text \<open>
  \<^verbatim>\<open>HTTPReverseProxy.ServeHTTP\<close>. The transport sends the request over a connection that it dials with the
  function of the route of the request's own host and path, \<open>None\<close> when there is none; \<open>page\<close> is the
  content of the page not found.
\<close>

definition http_serve ::
    "http_env \<Rightarrow> rp_env \<Rightarrow> switch_env \<Rightarrow> string \<Rightarrow> ('h option \<Rightarrow> http_request \<Rightarrow> string + http_response) \<Rightarrow>
     string list \<Rightarrow> string list \<Rightarrow> body_env \<Rightarrow> 'h http_reverse_proxy \<Rightarrow> http_request \<Rightarrow> http_served" where
  "http_serve he env sw page round_trip keys trailerKeys be rp req =
     (let domain = get_host_from_addr (rq_host req); location = rq_url_path req; r = hp_routers rp in
      if \<not> check_auth r domain location (fst (rq_basic_auth req)) (snd (rq_basic_auth req))
      then http_error ''Unauthorized'' 401 (header_set ''WWW-Authenticate'' ''Basic realm=\"Restricted\"'' Map.empty)
      else
        let outreq = out_request env (director he r) req in
        rp_answer env sw (Some (vhost_error_handler page)) None (hp_flush_interval rp) keys trailerKeys be outreq
          (round_trip (dial_context rp req) outreq))"

section \<open>What a client gets\<close>

lemma body_of_chunks: "body_of (map (\<lambda>c. (c, ReadMore)) chunks @ (final, ReadEOF) # rest) = concat chunks @ final"
  by (induction chunks) auto

lemma rp_finish_body:
  assumes "be_server_context be"
  shows "rp_finish interval be announced res status h = Answered s h' body tr \<Longrightarrow>
           s = status \<and> h' = h \<and> body = body_of (be_reads be)"
    and "rp_finish interval be announced res status h = Aborted s h' body \<Longrightarrow>
           s = status \<and> h' = h \<and> prefix body (body_of (be_reads be))"
proof -
  assume fin: "rp_finish interval be announced res status h = Answered s h' body tr"
  with assms obtain n where copied: "copy_buffer (be_write be) (be_reads be) 0 = Some (n, None)"
    and body: "body = take n (body_of (be_reads be))" and rest: "s = status" "h' = h"
    by (auto simp: rp_finish_def copy_response_def should_panic_on_copy_error_def Let_def
        split: option.split_asm prod.split_asm)
  from copy_buffer_result [OF copied refl] obtain chunks final reads
    where "be_reads be = map (\<lambda>c. (c, ReadMore)) chunks @ (final, ReadEOF) # reads"
      and "n = length (concat chunks) + length final" by auto
  with body rest show "s = status \<and> h' = h \<and> body = body_of (be_reads be)" by (simp add: body_of_chunks)
next
  assume "rp_finish interval be announced res status h = Aborted s h' body"
  then show "s = status \<and> h' = h \<and> prefix body (body_of (be_reads be))"
    by (auto simp: rp_finish_def copy_response_def take_is_prefix Let_def split: option.split_asm prod.split_asm if_split_asm)
qed

lemma fold_header_add_other: "canonical_key k0 \<noteq> k \<or> vs = [] \<Longrightarrow> fold (header_add k0) vs h k = h k"
  by (induction vs arbitrary: h) (auto simp: header_add_def)

lemma copy_header_none:
  assumes "\<forall>k0 \<in> set keys. canonical_key k0 = k \<longrightarrow> src k0 = None" and "dst k = None"
  shows "copy_header keys src dst k = None"
proof -
  have "fold (\<lambda>k0. fold (header_add k0) (header_values src k0)) keys dst k = dst k"
    using assms(1)
  proof (induction keys arbitrary: dst)
    case (Cons k0 ks)
    then have "canonical_key k0 \<noteq> k \<or> header_values src k0 = []" by (auto simp: header_values_def)
    then show ?case using Cons.IH Cons.prems by (simp add: fold_header_add_other)
  qed simp
  with assms(2) show ?thesis by (simp add: copy_header_def)
qed

text \<open>The headers of an answer that is passed on.\<close>

definition passed_headers :: "string list \<Rightarrow> string list \<Rightarrow> headers \<Rightarrow> headers" where
  "passed_headers keys trailerKeys h =
     (let h1 = copy_header keys (out_headers h) Map.empty
      in if trailerKeys \<noteq> [] then header_add ''Trailer'' (join '', '' trailerKeys) h1 else h1)"

lemma passed_headers_hop:
  assumes "\<forall>k \<in> set keys. canonical_key k = k" and "k \<in> set hop_header_keys" and "k \<noteq> ''Trailer''"
  shows "passed_headers keys trailerKeys h k = None"
proof -
  have "copy_header keys (out_headers h) Map.empty k = None"
    by (rule copy_header_none) (use assms answer_without_hop in auto)
  moreover have "canonical_key ''Trailer'' \<noteq> k"
    using assms(3) hop_canonical [of "''Trailer''"] by (simp add: hop_header_keys_def)
  ultimately show ?thesis by (simp add: passed_headers_def header_add_def Let_def)
qed

lemma rp_answer_passed:
  "hr_status res \<noteq> 101 \<Longrightarrow>
   rp_answer env sw handler None interval keys trailerKeys be out (Inr res) =
   rp_finish interval be (length trailerKeys) (res\<lparr>hr_headers := out_headers (hr_headers res)\<rparr>) (hr_status res)
     (passed_headers keys trailerKeys (hr_headers res))"
  by (simp add: rp_answer_def modify_response_def passed_headers_def Let_def)

lemma rp_answer_failed:
  "rp_answer env sw (Some (code, page)) hook interval keys trailerKeys be out (Inl err) = Answered code Map.empty page Map.empty"
  by (simp add: rp_answer_def get_error_handler_def Let_def)

lemma rp_answer_clean:
  assumes "be_server_context be" and "\<forall>k \<in> set keys. canonical_key k = k"
  shows "hr_status res \<noteq> 101 \<longrightarrow>
    (\<forall>status h body tr. rp_answer env sw handler None interval keys trailerKeys be out (Inr res) = Answered status h body tr \<longrightarrow>
       status = hr_status res \<and> (\<forall>k \<in> set hop_header_keys. k \<noteq> ''Trailer'' \<longrightarrow> h k = None) \<and> body = body_of (be_reads be)) \<and>
    (\<forall>status h body. rp_answer env sw handler None interval keys trailerKeys be out (Inr res) = Aborted status h body \<longrightarrow>
       status = hr_status res \<and> (\<forall>k \<in> set hop_header_keys. k \<noteq> ''Trailer'' \<longrightarrow> h k = None) \<and> prefix body (body_of (be_reads be)))"
  using passed_headers_hop [OF assms(2)] by (auto simp: rp_answer_passed dest: rp_finish_body [OF assms(1)])


text \<open>A route with credentials, and a body in two reads.\<close>

definition sample_guarded_route :: "nat route_config" where
  "sample_guarded_route =
     \<lparr>rc_domain = ''a.com'', rc_location = [], rc_rewrite_host = [], rc_username = ''u'', rc_password = ''p'', rc_headers = None,
      rc_create_conn = Some 7\<rparr>"

definition sample_vhosts :: "nat http_reverse_proxy" where
  "sample_vhosts = new_http_reverse_proxy 0 (the (http_register sample_guarded_route new_routers))"

definition sample_body :: body_env where
  "sample_body =
     \<lparr>be_reads = [(''hel'', ReadMore), (''lo'', ReadEOF)], be_write = (\<lambda>p. (length p, None)), be_flusher = True,
      be_server_context = True, be_trailer_keys = [], be_trailers = Map.empty\<rparr>"

definition sample_round_trip :: "nat option \<Rightarrow> http_request \<Rightarrow> string + http_response" where
  "sample_round_trip conn req =
     (if conn = Some 7
      then Inr \<lparr>hr_status = 200, hr_headers = [''Upgrade'' \<mapsto> [''h2c''], ''Server'' \<mapsto> [''x'']], hr_content_length = 5\<rparr>
      else Inl ''no such domain'')"

definition sample_request :: http_request where
  "sample_request =
     \<lparr>rq_host = ''a.com'', rq_url_scheme = [], rq_url_host = [], rq_url_path = ''/'', rq_headers = Map.empty,
      rq_remote_addr = ''1.2.3.4:5'', rq_basic_auth = (''u'', ''p'')\<rparr>"

definition sample_http_env :: http_env where
  "sample_http_env = \<lparr>he_base64 = (\<lambda>s. s), he_canonical_key = canonical_key, he_range = (\<lambda>m. [])\<rparr>"

definition sample_rp_env :: rp_env where
  "sample_rp_env = \<lparr>re_contains_token = (\<lambda>vs t. t \<in> set vs), re_split_host_port = (\<lambda>a. Some (''1.2.3.4'', ''5''))\<rparr>"

definition sample_switch :: switch_env where
  "sample_switch =
     \<lparr>sw_hijacker = True, sw_body_writable = True, sw_hijack_ok = True, sw_write_ok = True, sw_flush_ok = True\<rparr>"

definition sample_served :: http_served where
  "sample_served =
     http_serve sample_http_env sample_rp_env sample_switch ''page'' sample_round_trip [''Upgrade'', ''Server''] [] sample_body sample_vhosts sample_request"

lemma sample_route_found: "get_vhost (hp_routers sample_vhosts) ''a.com'' ''/'' = Some \<lparr>rt_domain = ''a.com'', rt_location = [], rt_payload = sample_guarded_route\<rparr>"
  by code_simp


end
