(* ===== verification/Logging.thy ===== *)
theory Logging
  imports Util
begin

text \<open>
  What surrounds the program's messages and pages: the logger's set-up (\<^verbatim>\<open>frp/pkg/util/log/log.go\<close>), the
  prefixes of a logger and the contexts that carry it and the request id of the plugins
  (\<^verbatim>\<open>frp/pkg/util/xlog\<close>, \<^verbatim>\<open>frp/pkg/plugin/server/tracer.go\<close>), and the choice between embedded files and a
  directory (\<^verbatim>\<open>frp/assets/assets.go\<close>). The logging library, \<^verbatim>\<open>fmt\<close> and the file systems are arguments.
\<close>

section \<open>The logger of the program\<close>

text \<open>The level of the beego logger for a configured name; every other name is \<^verbatim>\<open>warn\<close>.\<close>

definition set_log_level :: "string \<Rightarrow> nat" where
  "set_log_level logLevel =
     (if logLevel = ''error'' then 3
      else if logLevel = ''warn'' then 4
      else if logLevel = ''info'' then 6
      else if logLevel = ''debug'' then 7
      else if logLevel = ''trace'' then 8
      else 4)"

text \<open>The adapter and its parameters, a JSON text.\<close>

definition set_log_file :: "string \<Rightarrow> string \<Rightarrow> int \<Rightarrow> bool \<Rightarrow> string \<times> string" where
  "set_log_file logWay logFile maxdays disableLogColor =
     (if logWay = ''console''
      then (''console'', if disableLogColor then ''{\"color\": false}'' else [])
      else (''file'', ''{\"filename\": \"'' @ logFile @ ''\", \"maxdays\": '' @ int_str maxdays @ ''}''))"

definition init_log :: "string \<Rightarrow> string \<Rightarrow> string \<Rightarrow> int \<Rightarrow> bool \<Rightarrow> (string \<times> string) \<times> nat" where
  "init_log logWay logFile logLevel maxdays disableLogColor =
     (set_log_file logWay logFile maxdays disableLogColor, set_log_level logLevel)"

text \<open>A more verbose name never hides what a less verbose one shows.\<close>

lemma log_levels_ordered:
  "set_log_level ''error'' < set_log_level ''warn''" "set_log_level ''warn'' < set_log_level ''info''"
  "set_log_level ''info'' < set_log_level ''debug''" "set_log_level ''debug'' < set_log_level ''trace''"
  by (simp_all add: set_log_level_def)

text \<open>
  The file's name is not escaped: with a quotation mark in it the parameters no longer depend on it alone, and a
  name can set the number of days.
\<close>

lemma log_file_name_not_escaped:
  "snd (set_log_file ''file'' (f @ ''\", \"maxdays\": '' @ int_str m @ ''}'' @ rest) n c) =
   snd (set_log_file ''file'' f m c) @ rest @ ''\", \"maxdays\": '' @ int_str n @ ''}''"
  by (simp add: set_log_file_def)

section \<open>Loggers with prefixes\<close>

record logger =
  lo_prefixes :: "string list"
  lo_prefix_string :: string

definition new_logger :: logger where
  "new_logger = \<lparr>lo_prefixes = [], lo_prefix_string = []\<rparr>"

definition reset_prefixes :: "logger \<Rightarrow> logger \<times> string list" where
  "reset_prefixes l = (l\<lparr>lo_prefixes := [], lo_prefix_string := []\<rparr>, lo_prefixes l)"

definition append_prefix :: "string \<Rightarrow> logger \<Rightarrow> logger" where
  "append_prefix pfx l =
     l\<lparr>lo_prefixes := lo_prefixes l @ [pfx], lo_prefix_string := lo_prefix_string l @ ''['' @ pfx @ ''] ''\<rparr>"

definition spawn :: "logger \<Rightarrow> logger" where
  "spawn l = fold append_prefix (lo_prefixes l) new_logger"

text \<open>What \<^verbatim>\<open>Error\<close>, \<^verbatim>\<open>Warn\<close>, \<^verbatim>\<open>Info\<close>, \<^verbatim>\<open>Debug\<close> and \<^verbatim>\<open>Trace\<close> hand to the library's \<^verbatim>\<open>printf\<close>.\<close>

definition log_message :: "(string \<Rightarrow> 'v list \<Rightarrow> string) \<Rightarrow> logger \<Rightarrow> string \<Rightarrow> 'v list \<Rightarrow> string" where
  "log_message printf l fmt vs = printf (lo_prefix_string l @ fmt) vs"

inductive logger_state :: "logger \<Rightarrow> bool" where
  logger_new: "logger_state new_logger"
| logger_append: "logger_state l \<Longrightarrow> logger_state (append_prefix pfx l)"
| logger_reset: "logger_state l \<Longrightarrow> logger_state (fst (reset_prefixes l))"

definition prefix_text :: "string list \<Rightarrow> string" where
  "prefix_text ps = concat (map (\<lambda>p. ''['' @ p @ ''] '') ps)"

lemma logger_state_text: "logger_state l \<Longrightarrow> lo_prefix_string l = prefix_text (lo_prefixes l)"
  by (induction rule: logger_state.induct)
    (simp_all add: new_logger_def append_prefix_def reset_prefixes_def prefix_text_def)

lemma fold_append_prefix:
  "fold append_prefix ps l =
     l\<lparr>lo_prefixes := lo_prefixes l @ ps, lo_prefix_string := lo_prefix_string l @ prefix_text ps\<rparr>"
  by (induction ps arbitrary: l) (simp_all add: append_prefix_def prefix_text_def)

text \<open>A spawned logger starts with the same prefixes; what is appended to it later does not reach the first.\<close>

lemma spawn_same: "logger_state l \<Longrightarrow> spawn l = l"
  using logger_state_text [of l] by (simp add: spawn_def fold_append_prefix new_logger_def)

text \<open>
  The prefix is part of the format: a run id from a client with a verb in it takes the arguments of the
  message, whatever the verbs mean.
\<close>

lemma prefix_is_format:
  "log_message printf (append_prefix pfx new_logger) fmt vs = printf (''['' @ pfx @ ''] '' @ fmt) vs"
  by (simp add: log_message_def append_prefix_def new_logger_def)

section \<open>Contexts\<close>

text \<open>A context as far as the program puts values into it; the keys are types of their packages.\<close>

record go_context =
  gc_xlog :: "logger option"
  gc_reqid :: "string option"

definition new_context :: "go_context \<Rightarrow> logger \<Rightarrow> go_context" where
  "new_context ctx xl = ctx\<lparr>gc_xlog := Some xl\<rparr>"

definition from_context :: "go_context \<Rightarrow> logger option" where
  "from_context ctx = gc_xlog ctx"

definition from_context_safe :: "go_context \<Rightarrow> logger" where
  "from_context_safe ctx = (case from_context ctx of Some xl \<Rightarrow> xl | None \<Rightarrow> new_logger)"

definition new_reqid_context :: "go_context \<Rightarrow> string \<Rightarrow> go_context" where
  "new_reqid_context ctx reqid = ctx\<lparr>gc_reqid := Some reqid\<rparr>"

definition get_reqid_from_context :: "go_context \<Rightarrow> string" where
  "get_reqid_from_context ctx = (case gc_reqid ctx of Some reqid \<Rightarrow> reqid | None \<Rightarrow> [])"

lemma context_values:
  "from_context_safe (new_reqid_context (new_context ctx xl) reqid) = xl"
  "get_reqid_from_context (new_context (new_reqid_context ctx reqid) xl) = reqid"
  by (simp_all add: from_context_safe_def from_context_def new_context_def new_reqid_context_def get_reqid_from_context_def)

section \<open>Files of the web pages\<close>

text \<open>\<^verbatim>\<open>Load\<close>: the directory, or the embedded files, which may fail to open.\<close>

datatype ('fs) file_system = DirFiles string | EmbeddedFiles 'fs

definition load_assets :: "'e + 'fs \<Rightarrow> string \<Rightarrow> 'e + 'fs file_system" where
  "load_assets embedded path =
     (if path \<noteq> [] then Inr (DirFiles path)
      else case embedded of Inl err \<Rightarrow> Inl err | Inr fs \<Rightarrow> Inr (EmbeddedFiles fs))"

text \<open>\<^verbatim>\<open>ReadFile\<close>, with \<^verbatim>\<open>path.Join\<close> and the reads of both kinds of files.\<close>

definition read_asset ::
    "(string \<Rightarrow> string \<Rightarrow> string) \<Rightarrow> ('fs \<Rightarrow> string \<Rightarrow> 'e + string) \<Rightarrow> (string \<Rightarrow> 'e + string) \<Rightarrow> 'fs file_system \<Rightarrow> string \<Rightarrow>
     'e + string" where
  "read_asset path_join read_embedded read_os files file =
     (case files of
        EmbeddedFiles fs \<Rightarrow> read_embedded fs (path_join ''/'' file)
      | DirFiles dir \<Rightarrow> read_os (path_join dir file))"

end
