(* ===== verification/Conn_Wrappers.thy ===== *)
theory Conn_Wrappers
  imports Net_Conns Basic_Auth Http_Headers Logging
begin

text \<open>
  The wrappers of \<^verbatim>\<open>frp/pkg/util/net\<close> that only add to a connection: a context and the deadlines and addresses
  of a stream over a connection (\<^verbatim>\<open>conn.go\<close>); the websocket listener over the HTTP server (\<^verbatim>\<open>websocket.go\<close>); and
  the compressing writer of the HTTP servers (\<^verbatim>\<open>http.go\<close>). The HTTP server, the websocket handshake
  and gzip are the library's and arguments.
\<close>

section \<open>Contexts\<close>

text \<open>
  A connection is looked at through what it implements: \<open>nv_context\<close> is the result of \<^verbatim>\<open>Context\<close> of a
  \<^verbatim>\<open>ContextGetter\<close>, \<open>None\<close> for another connection.
\<close>

record ('c, 'x) net_conn =
  nv_conn :: 'c
  nv_context :: "'x option"

definition new_context_conn :: "'x \<Rightarrow> 'c \<Rightarrow> ('c, 'x) net_conn" where
  "new_context_conn ctx c = \<lparr>nv_conn = c, nv_context = Some ctx\<rparr>"

definition with_context :: "'x \<Rightarrow> ('c, 'x) net_conn \<Rightarrow> ('c, 'x) net_conn" where
  "with_context ctx c = c\<lparr>nv_context := Some ctx\<rparr>"

definition new_context_from_conn :: "'x \<Rightarrow> ('c, 'x) net_conn \<Rightarrow> 'x" where
  "new_context_from_conn background c = (case nv_context c of Some ctx \<Rightarrow> ctx | None \<Rightarrow> background)"

definition new_log_from_conn :: "('c, go_context) net_conn \<Rightarrow> logger" where
  "new_log_from_conn c = (case nv_context c of Some ctx \<Rightarrow> from_context_safe ctx | None \<Rightarrow> new_logger)"

text \<open>What the service puts into the context of a connection is found in it later.\<close>

lemma log_of_context_conn: "new_log_from_conn (new_context_conn (new_context ctx xl) c) = xl"
  by (simp add: new_log_from_conn_def new_context_conn_def from_context_safe_def from_context_def new_context_def)

section \<open>A stream with the addresses and deadlines of a connection\<close>

text \<open>Reads, writes and \<^verbatim>\<open>Close\<close> are those of the stream; the rest asks the connection below, when there is one.\<close>

record ('s, 'c) wrapped_conn =
  wc_rwc :: 's
  wc_under :: "'c option"

definition wrap_read_write_closer_to_conn :: "'s \<Rightarrow> 'c option \<Rightarrow> ('s, 'c) wrapped_conn" where
  "wrap_read_write_closer_to_conn rwc underConn = \<lparr>wc_rwc = rwc, wc_under = underConn\<rparr>"

datatype ('c, 'e) deadline_result = DeadlineSet 'c | DeadlineFailed 'e | DeadlineNotSupported

definition wc_local_addr :: "('c \<Rightarrow> 'addr) \<Rightarrow> ('s, 'c) wrapped_conn \<Rightarrow> 'addr option" where
  "wc_local_addr addr_of conn = map_option addr_of (wc_under conn)"

definition wc_remote_addr :: "('c \<Rightarrow> 'addr) \<Rightarrow> ('s, 'c) wrapped_conn \<Rightarrow> 'addr option" where
  "wc_remote_addr addr_of conn = map_option addr_of (wc_under conn)"

definition wc_set_deadline ::
    "('t \<Rightarrow> 'c \<Rightarrow> 'e + 'c) \<Rightarrow> 't \<Rightarrow> ('s, 'c) wrapped_conn \<Rightarrow> (('s, 'c) wrapped_conn, 'e) deadline_result" where
  "wc_set_deadline set_deadline t conn =
     (case wc_under conn of
        None \<Rightarrow> DeadlineNotSupported
      | Some c \<Rightarrow> (case set_deadline t c of Inl e \<Rightarrow> DeadlineFailed e | Inr c' \<Rightarrow> DeadlineSet (conn\<lparr>wc_under := Some c'\<rparr>)))"

definition wc_set_read_deadline where "wc_set_read_deadline = wc_set_deadline"

definition wc_set_write_deadline where "wc_set_write_deadline = wc_set_deadline"

text \<open>A stream with deadlines over a stream with deadlines sets those of the connection below both.\<close>

lemma nested_deadline:
  assumes "set_deadline t c = Inr c'"
  shows "wc_set_deadline (\<lambda>t w. case wc_set_deadline set_deadline t w of DeadlineSet w' \<Rightarrow> Inr w' | _ \<Rightarrow> Inl ()) t
           (wrap_read_write_closer_to_conn outer (Some (wrap_read_write_closer_to_conn inner (Some c)))) =
         DeadlineSet (wrap_read_write_closer_to_conn outer (Some (wrap_read_write_closer_to_conn inner (Some c'))))"
  by (simp add: wc_set_deadline_def wrap_read_write_closer_to_conn_def assms)

section \<open>The websocket listener\<close>

text \<open>
  The handler of a websocket connection offers it on \<^verbatim>\<open>acceptCh\<close>, which has no buffer and which nobody closes,
  and waits until the connection is closed; then it returns, and the HTTP server closes the
  connection below (\<open>ws_done\<close>). \<open>ws_conns\<close> has the closing state of the connections that were accepted.
\<close>

record ws_listener =
  ws_has_ln :: bool
  ws_server_open :: bool
  ws_offers :: "nat list"
  ws_conns :: "nat \<rightharpoonup> close_notify_conn"
  ws_done :: "nat set"

definition new_websocket_listener :: ws_listener where
  "new_websocket_listener =
     \<lparr>ws_has_ln = False, ws_server_open = True, ws_offers = [], ws_conns = Map.empty, ws_done = {}\<rparr>"

text \<open>\<^verbatim>\<open>ListenWebsocket\<close>: \<open>tcp\<close> says whether the address can be listened on.\<close>

definition listen_websocket :: "bool \<Rightarrow> ws_listener option" where
  "listen_websocket tcp = (if tcp then Some new_websocket_listener else None)"

definition ws_handle :: "nat \<Rightarrow> ws_listener \<Rightarrow> ws_listener" where
  "ws_handle c wl = (if ws_server_open wl then wl\<lparr>ws_offers := ws_offers wl @ [c]\<rparr> else wl)"

text \<open>\<^verbatim>\<open>Accept\<close> takes the connection of any handler that is sending, and waits (\<open>None\<close>) when there is none.\<close>

definition ws_accept :: "nat \<Rightarrow> ws_listener \<Rightarrow> (ws_listener \<times> nat) option" where
  "ws_accept i wl =
     (if i < length (ws_offers wl)
      then let c = ws_offers wl ! i in
           Some (wl\<lparr>ws_offers := take i (ws_offers wl) @ drop (Suc i) (ws_offers wl),
                    ws_conns := (ws_conns wl)(c \<mapsto> wrap_close_notify_conn True)\<rparr>, c)
      else None)"

text \<open>Closing an accepted connection: \<^verbatim>\<open>closeFn\<close> closes \<^verbatim>\<open>notifyCh\<close>, and a second time would panic.\<close>

definition ws_conn_close :: "nat \<Rightarrow> ws_listener \<Rightarrow> (unit, ws_listener) go" where
  "ws_conn_close c wl =
     (case ws_conns wl c of
        None \<Rightarrow> Ok wl
      | Some cc \<Rightarrow>
          let cc' = cn_close cc; wl' = wl\<lparr>ws_conns := (ws_conns wl)(c \<mapsto> cc')\<rparr> in
          if cn_notified cc' = cn_notified cc then Ok wl'
          else if c \<in> ws_done wl then Panic
          else Ok (wl'\<lparr>ws_done := insert c (ws_done wl)\<rparr>))"

definition ws_close :: "ws_listener \<Rightarrow> ws_listener" where
  "ws_close wl = wl\<lparr>ws_server_open := False\<rparr>"

definition ws_addr :: "ws_listener \<Rightarrow> (unit, unit) go" where
  "ws_addr wl = (if ws_has_ln wl then Ok () else Panic)"

text \<open>The states of a listener; every connection has its own number.\<close>

inductive ws_state :: "nat set \<Rightarrow> ws_listener \<Rightarrow> bool" where
  ws_new: "ws_state {} new_websocket_listener"
| ws_handled: "ws_state used wl \<Longrightarrow> c \<notin> used \<Longrightarrow> ws_state (insert c used) (ws_handle c wl)"
| ws_accepted: "ws_state used wl \<Longrightarrow> ws_accept i wl = Some (wl', c) \<Longrightarrow> ws_state used wl'"
| ws_conn_closed: "ws_state used wl \<Longrightarrow> ws_conn_close c wl = Ok wl' \<Longrightarrow> ws_state used wl'"
| ws_closed: "ws_state used wl \<Longrightarrow> ws_state used (ws_close wl)"

text \<open>An accepted connection is done exactly when it was closed, and no connection is both offered and accepted.\<close>

definition ws_ok :: "nat set \<Rightarrow> ws_listener \<Rightarrow> bool" where
  "ws_ok used wl \<longleftrightarrow>
     \<not> ws_has_ln wl \<and> distinct (ws_offers wl) \<and> set (ws_offers wl) \<subseteq> used \<and> dom (ws_conns wl) \<subseteq> used \<and>
     set (ws_offers wl) \<inter> dom (ws_conns wl) = {} \<and>
     ws_done wl = {c. \<exists>cc. ws_conns wl c = Some cc \<and> cn_close_flag cc}"

lemma set_remove_nth:
  "distinct xs \<Longrightarrow> i < length xs \<Longrightarrow> set (take i xs @ drop (Suc i) xs) = set xs - {xs ! i}"
  "distinct xs \<Longrightarrow> distinct (take i xs @ drop (Suc i) xs)"
proof -
  have split: "xs = take i xs @ xs ! i # drop (Suc i) xs" if "i < length xs" using that by (rule id_take_nth_drop)
  show "distinct xs \<Longrightarrow> i < length xs \<Longrightarrow> set (take i xs @ drop (Suc i) xs) = set xs - {xs ! i}"
  proof -
    assume d: "distinct xs" and i: "i < length xs"
    then have "distinct (take i xs @ xs ! i # drop (Suc i) xs)" using split by metis
    moreover have "set xs = insert (xs ! i) (set (take i xs) \<union> set (drop (Suc i) xs))"
      using arg_cong [OF split [OF i], of set] by simp
    ultimately show ?thesis by auto
  qed
  show "distinct xs \<Longrightarrow> distinct (take i xs @ drop (Suc i) xs)"
  proof (cases "i < length xs")
    case True
    assume "distinct xs"
    then have "distinct (take i xs @ xs ! i # drop (Suc i) xs)" using split [OF True] by metis
    then show ?thesis by auto
  qed simp
qed

lemma cn_close_flagged: "cn_close_flag (cn_close cc)"
  by (cases "cn_close_flag cc") (simp_all add: cn_close_closed cn_close_first)

lemma ws_state_ok: "ws_state used wl \<Longrightarrow> ws_ok used wl"
proof (induction rule: ws_state.induct)
  case (ws_accepted used wl i wl' c)
  then have ok: "ws_ok used wl" and i: "i < length (ws_offers wl)" and c: "c = ws_offers wl ! i"
    and wl': "wl' = wl\<lparr>ws_offers := take i (ws_offers wl) @ drop (Suc i) (ws_offers wl),
                ws_conns := (ws_conns wl)(c \<mapsto> wrap_close_notify_conn True)\<rparr>"
    by (auto simp: ws_accept_def Let_def split: if_split_asm)
  from ok have d: "distinct (ws_offers wl)" by (simp add: ws_ok_def)
  have "c \<in> set (ws_offers wl)" using i c by simp
  moreover from this ok have "ws_conns wl c = None" by (auto simp: ws_ok_def)
  ultimately show ?case using ok set_remove_nth [OF d] i c
    by (auto simp: ws_ok_def wl' wrap_close_notify_conn_def)
next
  case (ws_conn_closed used wl c wl')
  then show ?case
    by (cases "ws_conns wl c"; cases "cn_close_flag (the (ws_conns wl c))")
      (auto simp: ws_ok_def ws_conn_close_def Let_def cn_close_closed cn_close_first cn_close_flagged split: if_split_asm)
qed (auto simp: ws_ok_def new_websocket_listener_def ws_handle_def ws_close_def)

text \<open>
  Closing never panics, however often: the connection below is closed by the server because the handler returns,
  although \<^verbatim>\<open>CloseNotifyConn.Close\<close> does not close it (\<open>close_notify_leaks\<close>).
\<close>

lemma ws_conn_close_ends:
  assumes "ws_state used wl" and "ws_conns wl c = Some cc"
  shows "\<exists>wl'. ws_conn_close c wl = Ok wl' \<and> c \<in> ws_done wl'"
  using ws_state_ok [OF assms(1)] assms(2)
  by (cases "cn_close_flag cc") (auto simp: ws_ok_def ws_conn_close_def Let_def cn_close_closed cn_close_first)

text \<open>
  \<^verbatim>\<open>Addr\<close> always panics, because \<^verbatim>\<open>ln\<close> is never set. \<^verbatim>\<open>Accept\<close> of a closed listener with no handler left waits
  for ever; the error that the code has for it is never returned.
\<close>

lemma ws_addr_panics: "ws_state used wl \<Longrightarrow> ws_addr wl = Panic"
  using ws_state_ok by (simp add: ws_ok_def ws_addr_def)

inductive ws_later :: "ws_listener \<Rightarrow> ws_listener \<Rightarrow> bool" for wl0 where
  ws_now: "ws_later wl0 wl0"
| ws_later_handle: "ws_later wl0 wl \<Longrightarrow> ws_later wl0 (ws_handle c wl)"
| ws_later_accept: "ws_later wl0 wl \<Longrightarrow> ws_accept i wl = Some (wl', c) \<Longrightarrow> ws_later wl0 wl'"
| ws_later_conn: "ws_later wl0 wl \<Longrightarrow> ws_conn_close c wl = Ok wl' \<Longrightarrow> ws_later wl0 wl'"
| ws_later_close: "ws_later wl0 wl \<Longrightarrow> ws_later wl0 (ws_close wl)"

lemma ws_accept_after_close_waits:
  assumes "ws_later (ws_close wl0) wl" and "ws_offers wl0 = []"
  shows "ws_accept i wl = None"
proof -
  from assms have "ws_offers wl = [] \<and> \<not> ws_server_open wl"
    by (induction rule: ws_later.induct)
      (auto simp: ws_close_def ws_handle_def ws_accept_def ws_conn_close_def Let_def
        split: option.split_asm if_split_asm)
  then show ?thesis by (simp add: ws_accept_def)
qed

section \<open>Compressed answers\<close>

text \<open>
  \<^verbatim>\<open>HTTPGzipWraper.ServeHTTP\<close>: the handler writes its pieces into a gzip writer, closed at the end, or into the
  response itself. \<open>gzip\<close> gives what a gzip writer emits for the pieces and the close.
\<close>

definition gzip_serve ::
    "(string list \<Rightarrow> string) \<Rightarrow> string \<Rightarrow> headers \<Rightarrow> (headers \<Rightarrow> headers \<times> string list) \<Rightarrow> headers \<times> string" where
  "gzip_serve gzip acceptEncoding h handler =
     (if http_gzip_wraper_compresses acceptEncoding
      then (let (h', pieces) = handler (header_set ''Content-Encoding'' ''gzip'' h) in (h', gzip pieces))
      else (let (h', pieces) = handler h in (h', concat pieces)))"

text \<open>What the client decodes is what the handler wrote, and the header says how to decode it.\<close>

lemma gzip_transparent:
  assumes "\<And>pieces. gunzip (gzip pieces) = concat pieces"
    and "handler = (\<lambda>h. (h, pieces))" and "h ''Content-Encoding'' = None"
  shows "let (h', body) = gzip_serve gzip acceptEncoding h handler
         in (if header_get h' ''Content-Encoding'' = ''gzip'' then gunzip body else body) = concat pieces"
proof -
  have "canonical_key ''Content-Encoding'' = ''Content-Encoding''" by code_simp
  with assms show ?thesis
    by (simp add: gzip_serve_def header_get_def header_set_def)
qed

end
