(* ===== verification/Startup.thy ===== *)
theory Startup
  imports Commands Logging "HOL-Library.Multiset"
begin

text \<open>
  What starts and ends the programs: the constructors of the OIDC methods (\<^verbatim>\<open>frp/pkg/auth/oidc.go\<close>), keys
  and certificate pools (\<^verbatim>\<open>frp/pkg/transport/tls.go\<close>), the flags of \<^verbatim>\<open>frpc\<close> with their defaults, the commands
  \<^verbatim>\<open>reload\<close> and \<^verbatim>\<open>status\<close>, and the process of \<^verbatim>\<open>frpc\<close>, \<^verbatim>\<open>startService\<close> with \<^verbatim>\<open>Run\<close> and \<^verbatim>\<open>handleSignal\<close>. The
  libraries of OIDC, RSA and X.509, the files and the HTTP client are arguments.
\<close>

section \<open>The constructors of OIDC\<close>

record client_credentials =
  cr_client_id :: string
  cr_client_secret :: string
  cr_scopes :: "string list"
  cr_token_url :: string

definition new_oidc_auth_setter :: "auth_base_config \<Rightarrow> oidc_client_config \<Rightarrow> auth_base_config \<times> client_credentials" where
  "new_oidc_auth_setter baseCfg cfg =
     (baseCfg, \<lparr>cr_client_id = oc_client_id cfg, cr_client_secret = oc_client_secret cfg,
                cr_scopes = [oc_audience cfg], cr_token_url = oc_token_endpoint_url cfg\<rparr>)"

record oidc_verifier_config =
  ov_client_id :: string
  ov_skip_client_id_check :: bool
  ov_skip_expiry_check :: bool
  ov_skip_issuer_check :: bool

text \<open>\<open>new_provider\<close> asks the issuer for its keys; when it cannot, the program panics.\<close>

definition new_oidc_auth_verifier ::
    "(string \<Rightarrow> 'p option) \<Rightarrow> auth_base_config \<Rightarrow> oidc_server_config \<Rightarrow>
     (unit, auth_base_config \<times> 'p \<times> oidc_verifier_config) go" where
  "new_oidc_auth_verifier new_provider baseCfg cfg =
     (case new_provider (os_issuer cfg) of
        None \<Rightarrow> Panic
      | Some provider \<Rightarrow>
          Ok (baseCfg, provider,
              \<lparr>ov_client_id = os_audience cfg, ov_skip_client_id_check = (os_audience cfg = []),
               ov_skip_expiry_check = os_skip_expiry_check cfg, ov_skip_issuer_check = os_skip_issuer_check cfg\<rparr>))"

text \<open>The audience of the client is asked for as a scope; that of the server is compared unless it is empty.\<close>

lemma oidc_audience_is_a_scope: "cr_scopes (snd (new_oidc_auth_setter b c)) = [oc_audience c]"
  by (simp add: new_oidc_auth_setter_def)

lemma oidc_default_checks:
  "new_oidc_auth_verifier p b default_oidc_server_conf = Ok (b', provider, v) \<Longrightarrow>
     ov_skip_client_id_check v \<and> \<not> ov_skip_expiry_check v \<and> \<not> ov_skip_issuer_check v"
  by (auto simp: new_oidc_auth_verifier_def default_oidc_server_conf_def split: option.split_asm)

section \<open>Keys and certificates\<close>

text \<open>The libraries: RSA keys, self-signed certificates, PEM texts and pairs of them; pools of a PEM text.\<close>

record ('key, 'k, 'c) tls_lib =
  tb_load_pair :: "string \<Rightarrow> string \<Rightarrow> string + 'k"
  tb_generate_key :: "'key option"
  tb_self_sign :: "'key \<Rightarrow> string option"
  tb_key_pem :: "'key \<Rightarrow> string"
  tb_cert_pem :: "string \<Rightarrow> string"
  tb_pair :: "string \<Rightarrow> string \<Rightarrow> string + 'k"
  tb_read_file :: "string \<Rightarrow> string + string"
  tb_certs :: "string \<Rightarrow> 'c list"

definition new_custom_tls_key_pair :: "('key, 'k, 'c) tls_lib \<Rightarrow> string \<Rightarrow> string \<Rightarrow> string + 'k" where
  "new_custom_tls_key_pair lib certfile keyfile =
     (case tb_load_pair lib certfile keyfile of Inl err \<Rightarrow> Inl err | Inr tlsCert \<Rightarrow> Inr tlsCert)"

definition new_random_tls_key_pair :: "('key, 'k, 'c) tls_lib \<Rightarrow> (unit, 'k) go" where
  "new_random_tls_key_pair lib =
     (case tb_generate_key lib of
        None \<Rightarrow> Panic
      | Some key \<Rightarrow>
     (case tb_self_sign lib key of
        None \<Rightarrow> Panic
      | Some certDER \<Rightarrow>
     (case tb_pair lib (tb_cert_pem lib certDER) (tb_key_pem lib key) of
        Inl err \<Rightarrow> Panic
      | Inr tlsCert \<Rightarrow> Ok tlsCert)))"

text \<open>The result of \<^verbatim>\<open>AppendCertsFromPEM\<close>, whether there was a certificate, is not looked at.\<close>

definition new_cert_pool :: "('key, 'k, 'c) tls_lib \<Rightarrow> string \<Rightarrow> string + 'c list" where
  "new_cert_pool lib caPath =
     (case tb_read_file lib caPath of Inl err \<Rightarrow> Inl err | Inr caCrt \<Rightarrow> Inr (tb_certs lib caCrt))"

text \<open>The files that the configurations of \<open>Service_Setup\<close> are made of.\<close>

definition tls_files_of :: "('key, 'k, 'c) tls_lib \<Rightarrow> (unit, ('k, 'c list) tls_files) go" where
  "tls_files_of lib =
     go_then (new_random_tls_key_pair lib) (\<lambda>cert.
       Ok \<lparr>tk_pair = new_custom_tls_key_pair lib, tk_random = cert, tk_pool = new_cert_pool lib\<rparr>)"

text \<open>A CA file without a certificate gives a configuration that trusts nobody, and no error.\<close>

lemma ca_file_without_certificates:
  assumes "tls_files_of lib = Ok files" and "tb_read_file lib ca = Inr content" and "tb_certs lib content = []"
    and "ca \<noteq> []" and "new_server_tls_config files cert key ca = Inr t"
  shows "tl_client_cas t = Some []"
proof -
  have "tk_pool files = new_cert_pool lib"
    using assms(1) by (auto simp: tls_files_of_def go_then_eq_Ok)
  with assms(2-) show ?thesis
    by (auto simp: new_server_tls_config_def new_cert_pool_def Let_def split: sum.split_asm)
qed

section \<open>The flags of frpc\<close>

text \<open>
  The variables of the flags are shared by the commands; registering a flag sets its variable to the default.
  The functions are \<^verbatim>\<open>RegisterCommonFlags\<close> and the \<^verbatim>\<open>init\<close> of every command.
\<close>

definition register_common_flags :: "frpc_flags \<Rightarrow> frpc_flags" where
  "register_common_flags fl =
     fl\<lparr>fl_server_addr := ''127.0.0.1:7000'', fl_user := [], fl_protocol := ''tcp'', fl_token := [],
        fl_log_level := ''info'', fl_log_file := ''console'', fl_log_max_days := 3, fl_disable_log_color := False,
        fl_tls_enable := False\<rparr>"

definition tcp_init :: "frpc_flags \<Rightarrow> frpc_flags" where
  "tcp_init fl =
     (register_common_flags fl)\<lparr>fl_proxy_name := [], fl_local_ip := ''127.0.0.1'', fl_local_port := 0,
        fl_remote_port := 0, fl_use_encryption := False, fl_use_compression := False\<rparr>"

definition udp_init :: "frpc_flags \<Rightarrow> frpc_flags" where
  "udp_init fl =
     (register_common_flags fl)\<lparr>fl_proxy_name := [], fl_local_ip := ''127.0.0.1'', fl_local_port := 0,
        fl_remote_port := 0, fl_use_encryption := False, fl_use_compression := False\<rparr>"

definition tcpmux_init :: "frpc_flags \<Rightarrow> frpc_flags" where
  "tcpmux_init fl =
     (register_common_flags fl)\<lparr>fl_proxy_name := [], fl_local_ip := ''127.0.0.1'', fl_local_port := 0,
        fl_custom_domains := [], fl_sub_domain := [], fl_multiplexer := [], fl_use_encryption := False,
        fl_use_compression := False\<rparr>"

definition http_init :: "frpc_flags \<Rightarrow> frpc_flags" where
  "http_init fl =
     (register_common_flags fl)\<lparr>fl_proxy_name := [], fl_local_ip := ''127.0.0.1'', fl_local_port := 0,
        fl_custom_domains := [], fl_sub_domain := [], fl_locations := [], fl_http_user := [], fl_http_pwd := [],
        fl_host_header_rewrite := [], fl_use_encryption := False, fl_use_compression := False\<rparr>"

definition https_init :: "frpc_flags \<Rightarrow> frpc_flags" where
  "https_init fl =
     (register_common_flags fl)\<lparr>fl_proxy_name := [], fl_local_ip := ''127.0.0.1'', fl_local_port := 0,
        fl_custom_domains := [], fl_sub_domain := [], fl_use_encryption := False, fl_use_compression := False\<rparr>"

definition stcp_init :: "frpc_flags \<Rightarrow> frpc_flags" where
  "stcp_init fl =
     (register_common_flags fl)\<lparr>fl_proxy_name := [], fl_role := ''server'', fl_sk := [], fl_server_name := [],
        fl_local_ip := ''127.0.0.1'', fl_local_port := 0, fl_bind_addr := [], fl_bind_port := 0,
        fl_use_encryption := False, fl_use_compression := False\<rparr>"

definition xtcp_init :: "frpc_flags \<Rightarrow> frpc_flags" where
  "xtcp_init fl =
     (register_common_flags fl)\<lparr>fl_proxy_name := [], fl_role := ''server'', fl_sk := [], fl_server_name := [],
        fl_local_ip := ''127.0.0.1'', fl_local_port := 0, fl_bind_addr := [], fl_bind_port := 0,
        fl_use_encryption := False, fl_use_compression := False\<rparr>"

definition sudp_init :: "frpc_flags \<Rightarrow> frpc_flags" where
  "sudp_init fl =
     (register_common_flags fl)\<lparr>fl_proxy_name := [], fl_role := ''server'', fl_sk := [], fl_server_name := [],
        fl_local_ip := ''127.0.0.1'', fl_local_port := 0, fl_bind_addr := [], fl_bind_port := 0,
        fl_use_encryption := False, fl_use_compression := False\<rparr>"

lemmas init_defs = register_common_flags_def tcp_init_def udp_init_def tcpmux_init_def http_init_def https_init_def
  stcp_init_def xtcp_init_def sudp_init_def

text \<open>
  The commands agree on the defaults of the variables they share: in whatever order the files are initialised, the
  flags are the same, since any two of the functions commute.
\<close>

definition frpc_inits :: "(frpc_flags \<Rightarrow> frpc_flags) list" where
  "frpc_inits = [http_init, https_init, stcp_init, sudp_init, tcp_init, tcpmux_init, udp_init, xtcp_init]"

definition frpc_flag_defaults :: frpc_flags where
  "frpc_flag_defaults =
     \<lparr>fl_server_addr = ''127.0.0.1:7000'', fl_user = [], fl_protocol = ''tcp'', fl_token = [], fl_log_level = ''info'',
      fl_log_file = ''console'', fl_log_max_days = 3, fl_disable_log_color = False, fl_tls_enable = False,
      fl_proxy_name = [], fl_local_ip = ''127.0.0.1'', fl_local_port = 0, fl_remote_port = 0, fl_use_encryption = False,
      fl_use_compression = False, fl_custom_domains = [], fl_sub_domain = [], fl_http_user = [], fl_http_pwd = [],
      fl_locations = [], fl_host_header_rewrite = [], fl_role = ''server'', fl_sk = [], fl_multiplexer = [],
      fl_server_name = [], fl_bind_addr = [], fl_bind_port = 0\<rparr>"

lemma frpc_inits_defaults: "fold id frpc_inits fl = frpc_flag_defaults"
  by (cases fl) (simp add: frpc_inits_def init_defs frpc_flag_defaults_def)

lemma frpc_inits_commute: "f \<in> set frpc_inits \<Longrightarrow> g \<in> set frpc_inits \<Longrightarrow> f (g fl) = g (f fl)"
  by (cases fl) (auto simp: frpc_inits_def init_defs)

lemma frpc_inits_order:
  assumes "mset inits = mset frpc_inits"
  shows "fold id inits fl = frpc_flag_defaults"
proof -
  have "fold id frpc_inits = fold id inits"
    by (rule fold_multiset_equiv) (auto simp: fun_eq_iff frpc_inits_commute assms)
  then show ?thesis using frpc_inits_defaults by metis
qed

text \<open>The defaults of the command line and of a configuration file are the same but for the server's address.\<close>

lemma frpc_default_flags:
  assumes "split_host_port ''127.0.0.1:7000'' = Some (''127.0.0.1'', ''7000'')"
  shows "parse_client_common_cfg_cmd split_host_port http_proxy frpc_flag_defaults =
    Inr ((get_default_client_conf http_proxy)\<lparr>cc_server_addr := ''127.0.0.1''\<rparr>)"
proof -
  have port: "parse_int ''7000'' = (7000, None)" proof -
    have "digit_char 0 = CHR ''0''" "digit_char 7 = CHR ''7''" by code_simp+
    then have "nat_str 7000 = ''7000''" by (simp add: nat_str.simps)
    with parse_int_nat_str [of 7000] show ?thesis by simp
  qed
  have flags: "fl_server_addr frpc_flag_defaults = ''127.0.0.1:7000''" "fl_user frpc_flag_defaults = []"
    "fl_protocol frpc_flag_defaults = ''tcp''" "fl_log_level frpc_flag_defaults = ''info''"
    "fl_log_file frpc_flag_defaults = ''console''" "fl_log_max_days frpc_flag_defaults = 3"
    "fl_disable_log_color frpc_flag_defaults = False" "fl_token frpc_flag_defaults = []"
    "fl_tls_enable frpc_flag_defaults = False"
    by (simp_all add: frpc_flag_defaults_def)
  have "parse_client_common_cfg_from_cmd split_host_port http_proxy frpc_flag_defaults =
      Inr ((get_default_client_conf http_proxy)\<lparr>cc_server_addr := ''127.0.0.1''\<rparr>)" (is "_ = Inr ?cfg")
    unfolding parse_client_common_cfg_from_cmd_def flags assms option.case prod.case port
    by (simp only: get_default_client_conf_def default_auth_client_conf_def default_token_conf_def
        client_common_conf.simps auth_client_config.simps token_config.simps if_True simp_thms)
  moreover have "snd (client_conf_check ?cfg) = None"
    by (simp add: client_conf_check_def get_default_client_conf_def)
  ultimately show ?thesis by (simp add: parse_client_common_cfg_cmd_def check_client_common_cfg_def)
qed

section \<open>Asking a running client\<close>

text \<open>
  The commands \<^verbatim>\<open>reload\<close> and \<^verbatim>\<open>status\<close>, with the file they read and the outcome. \<open>ask\<close> sends the request: an error, or
  the code of the answer and its body, \<open>None\<close> when that cannot be read. Errors and the configuration's end the
  process with code 1.
\<close>

type_synonym ask = "string \<times> string \<Rightarrow> string + int \<times> string option"

datatype 'r command_outcome = ConfFailed command_error | CommandFailed string | CommandDone 'r

definition conf_of_file ::
    "admin_env \<Rightarrow> (string, 'f, 's) ini_file_api \<Rightarrow> 's ini_api \<Rightarrow>
     ('s \<Rightarrow> client_common_conf \<Rightarrow> string + client_common_conf) \<Rightarrow> string \<Rightarrow> string \<Rightarrow> command_error + client_common_conf" where
  "conf_of_file env fi ini mapto http_proxy cfgFile =
     (case get_rendered_conf_from_file env cfgFile of
        Inl e \<Rightarrow> Inl (ReadConf e)
      | Inr content \<Rightarrow>
          check_client_common_cfg
            (case unmarshal_client_conf_from_ini fi ini mapto http_proxy content of
               Inl e \<Rightarrow> Inl (CommandConf e) | Inr cfg \<Rightarrow> Inr cfg))"

definition reload_client :: "ask \<Rightarrow> client_common_conf \<Rightarrow> string option" where
  "reload_client ask clientCfg =
     (case reload_request clientCfg of
        None \<Rightarrow> Some ''admin_port shoud be set if you want to use reload feature''
      | Some req \<Rightarrow> (case ask req of Inl err \<Rightarrow> Some err | Inr (code, body) \<Rightarrow> reload_result code body))"

definition status_client ::
    "ask \<Rightarrow> (string \<Rightarrow> status_resp option) \<Rightarrow> client_common_conf \<Rightarrow> string + (string \<times> proxy_status_resp list) list" where
  "status_client ask parse_json clientCfg =
     (case status_request clientCfg of
        None \<Rightarrow> Inl ''admin_port shoud be set if you want to get proxy status''
      | Some req \<Rightarrow>
     (case ask req of
        Inl err \<Rightarrow> Inl err
      | Inr (code, body) \<Rightarrow>
          if code \<noteq> 200 then Inl (''admin api status code ['' @ int_str code @ '']'')
          else (case body of
                  None \<Rightarrow> Inl ''read''
                | Some b \<Rightarrow>
                    (case parse_json b of
                       None \<Rightarrow> Inl (''unmarshal http response error: '' @ trim_space b)
                     | Some res \<Rightarrow> Inr (status_tables res)))))"

definition reload_cmd ::
    "ask \<Rightarrow> command_error + client_common_conf \<Rightarrow> unit command_outcome" where
  "reload_cmd ask conf =
     (case conf of
        Inl e \<Rightarrow> ConfFailed e
      | Inr clientCfg \<Rightarrow>
          (case reload_client ask clientCfg of
             Some err \<Rightarrow> CommandFailed (''frpc reload error: '' @ err)
           | None \<Rightarrow> CommandDone ()))"

definition status_cmd ::
    "ask \<Rightarrow> (string \<Rightarrow> status_resp option) \<Rightarrow> command_error + client_common_conf \<Rightarrow>
     (string \<times> proxy_status_resp list) list command_outcome" where
  "status_cmd ask parse_json conf =
     (case conf of
        Inl e \<Rightarrow> ConfFailed e
      | Inr clientCfg \<Rightarrow>
          (case status_client ask parse_json clientCfg of
             Inl err \<Rightarrow> CommandFailed (''frpc get status error: '' @ err)
           | Inr tables \<Rightarrow> CommandDone tables))"

text \<open>\<^verbatim>\<open>reload\<close> succeeds exactly when the running client answered with 200.\<close>

lemma reload_cmd_done_iff:
  "reload_cmd ask conf = CommandDone () \<longleftrightarrow>
     (\<exists>cfg req body. conf = Inr cfg \<and> reload_request cfg = Some req \<and> ask req = Inr (200, body))"
  by (auto simp: reload_cmd_def reload_client_def reload_result_def split: sum.split option.split)

section \<open>The process of frpc\<close>

text \<open>
  The main goroutine from \<^verbatim>\<open>svr.Run\<close> in \<^verbatim>\<open>startService\<close> to its return, and the goroutine of \<^verbatim>\<open>handleSignal\<close>,
  which only exists with the protocol \<^verbatim>\<open>kcp\<close>; without it the system ends the process on a signal.
  \<open>fp_cancelled\<close> is the service's context, \<open>fp_kcp_done\<close> whether \<^verbatim>\<open>kcpDoneCh\<close> is closed.
\<close>

datatype frpc_error = RunLoginError login_error | RunAssetsError string

datatype frpc_main =
    MainLogin
  | MainAdmin
  | MainServing
  | MainAwaitKcp "frpc_error option"
  | MainReturned "frpc_error option"
  | MainPanic
  | MainKilled

datatype frpc_signal = NoHandler | AwaitSignal | SignalClosed | SignalDone

record ('g, 'a, 'c) frpc_process =
  fp_svr :: "('g, 'a, 'c) client_service"
  fp_main :: frpc_main
  fp_signal :: frpc_signal
  fp_cancelled :: bool
  fp_kcp_done :: bool

definition frpc_uses_kcp :: "('g, 'a, 'c) frpc_process \<Rightarrow> bool" where
  "frpc_uses_kcp p \<longleftrightarrow> cc_protocol (ks_cfg (fp_svr p)) = ''kcp''"

definition frpc_start :: "('g, 'a, 'c) client_service \<Rightarrow> ('g, 'a, 'c) frpc_process" where
  "frpc_start svr =
     \<lparr>fp_svr = svr, fp_main = MainLogin,
      fp_signal = (if cc_protocol (ks_cfg svr) = ''kcp'' then AwaitSignal else NoHandler),
      fp_cancelled = False, fp_kcp_done = False\<rparr>"

text \<open>What follows when \<^verbatim>\<open>Run\<close> returns.\<close>

definition after_run :: "frpc_error option \<Rightarrow> ('g, 'a, 'c) frpc_process \<Rightarrow> ('g, 'a, 'c) frpc_process" where
  "after_run err p = p\<lparr>fp_main := (if frpc_uses_kcp p then MainAwaitKcp err else MainReturned err)\<rparr>"

text \<open>An attempt of the first loop of \<^verbatim>\<open>Run\<close>; it does not look at the context.\<close>

definition main_attempt ::
    "login_env \<Rightarrow> listen_env \<Rightarrow> connected_orders \<Rightarrow> int \<Rightarrow> ('g, 'a, 'c) frpc_process \<Rightarrow> ('g, 'a, 'c) frpc_process" where
  "main_attempt le li od now p =
     (case run_attempt le li od now (fp_svr p) of
        Ok (RunFailed e) \<Rightarrow> after_run (Some (RunLoginError e)) p
      | Ok (RunAgain pause) \<Rightarrow> p
      | Ok (RunConnected svr) \<Rightarrow>
          p\<lparr>fp_svr := svr, fp_main := (if cc_admin_port (ks_cfg svr) \<noteq> 0 then MainAdmin else MainServing)\<rparr>
      | _ \<Rightarrow> p\<lparr>fp_main := MainPanic\<rparr>)"

text \<open>The admin server: only an error of its files ends \<^verbatim>\<open>Run\<close>.\<close>

definition main_admin :: "string option \<Rightarrow> ('g, 'a, 'c) frpc_process \<Rightarrow> ('g, 'a, 'c) frpc_process" where
  "main_admin assets_err p =
     (case assets_err of
        Some err \<Rightarrow> after_run (Some (RunAssetsError err)) p
      | None \<Rightarrow> p\<lparr>fp_main := MainServing\<rparr>)"

text \<open>\<^verbatim>\<open>handleSignal\<close> when a signal arrives, and after its sleep.\<close>

definition signal_close ::
    "string list \<Rightarrow> string list \<Rightarrow> ('g, 'a, 'c) frpc_process \<Rightarrow> ('g, 'a, 'c) frpc_process" where
  "signal_close pxys visitors p =
     (case client_service_close pxys visitors (fp_svr p) of
        Ok svr \<Rightarrow> p\<lparr>fp_svr := svr, fp_cancelled := True, fp_signal := SignalClosed\<rparr>
      | _ \<Rightarrow> p\<lparr>fp_main := MainPanic\<rparr>)"

text \<open>
  A turn. \<open>Keeper svr\<close> is whatever \<^verbatim>\<open>keepControllerWorking\<close>, which runs once there was a control, made of the
  service meanwhile; it keeps the configuration.
\<close>

datatype ('g, 'a, 'c) frpc_event =
    Attempt login_env listen_env connected_orders int
  | AdminTurn "string option"
  | ContextDone
  | KcpDone
  | Interrupt "string list" "string list"
  | SignalSlept
  | Keeper "('g, 'a, 'c) client_service"

definition frpc_alive :: "frpc_main \<Rightarrow> bool" where
  "frpc_alive m = (case m of MainReturned _ \<Rightarrow> False | MainPanic \<Rightarrow> False | MainKilled \<Rightarrow> False | _ \<Rightarrow> True)"

fun frpc_turn :: "('g, 'a, 'c) frpc_event \<Rightarrow> ('g, 'a, 'c) frpc_process \<Rightarrow> ('g, 'a, 'c) frpc_process option" where
  "frpc_turn (Attempt le li od now) p = (if fp_main p = MainLogin then Some (main_attempt le li od now p) else None)"
| "frpc_turn (AdminTurn assets_err) p = (if fp_main p = MainAdmin then Some (main_admin assets_err p) else None)"
| "frpc_turn ContextDone p = (if fp_main p = MainServing \<and> fp_cancelled p then Some (after_run None p) else None)"
| "frpc_turn KcpDone p =
     (case fp_main p of
        MainAwaitKcp err \<Rightarrow> if fp_kcp_done p then Some (p\<lparr>fp_main := MainReturned err\<rparr>) else None
      | _ \<Rightarrow> None)"
| "frpc_turn (Interrupt pxys visitors) p =
     (if \<not> frpc_alive (fp_main p) then None
      else case fp_signal p of
        NoHandler \<Rightarrow> Some (p\<lparr>fp_main := MainKilled\<rparr>)
      | AwaitSignal \<Rightarrow> Some (signal_close pxys visitors p)
      | _ \<Rightarrow> Some p)"
| "frpc_turn SignalSlept p =
     (if frpc_alive (fp_main p) \<and> fp_signal p = SignalClosed
      then Some (p\<lparr>fp_signal := SignalDone, fp_kcp_done := True\<rparr>) else None)"
| "frpc_turn (Keeper svr) p =
     (if frpc_alive (fp_main p) \<and> fp_main p \<noteq> MainLogin \<and> ks_ctl (fp_svr p) \<noteq> None \<and> ks_cfg svr = ks_cfg (fp_svr p)
      then Some (p\<lparr>fp_svr := svr\<rparr>) else None)"

fun frpc_turns :: "('g, 'a, 'c) frpc_event list \<Rightarrow> ('g, 'a, 'c) frpc_process \<Rightarrow> ('g, 'a, 'c) frpc_process option" where
  "frpc_turns [] p = Some p"
| "frpc_turns (ev # evs) p = (case frpc_turn ev p of None \<Rightarrow> None | Some p' \<Rightarrow> frpc_turns evs p')"

subsection \<open>The configuration stays\<close>

lemma login_cfg: "login le svr = Inr svr' \<Longrightarrow> ks_cfg svr' = ks_cfg svr"
  by (auto simp: login_def Let_def split: if_split_asm option.split_asm prod.split_asm)

lemma connected_cfg: "connected li od now svr = Ok svr' \<Longrightarrow> ks_cfg svr' = ks_cfg svr"
  by (auto simp: connected_def go_then_eq_Ok)

lemma run_attempt_cfg: "run_attempt le li od now svr = Ok (RunConnected svr') \<Longrightarrow> ks_cfg svr' = ks_cfg svr"
  by (auto simp: run_attempt_def go_then_eq_Ok split: sum.split_asm if_split_asm dest!: login_cfg connected_cfg)

lemma client_service_close_cfg: "client_service_close ps vs svr = Ok svr' \<Longrightarrow> ks_cfg svr' = ks_cfg svr"
  by (auto simp: client_service_close_def go_then_eq_Ok split: option.split_asm)

lemmas main_turn_defs = main_attempt_def main_admin_def after_run_def signal_close_def

lemma frpc_turn_cfg: "frpc_turn ev p = Some p' \<Longrightarrow> ks_cfg (fp_svr p') = ks_cfg (fp_svr p)"
  by (cases ev)
    (auto simp: main_turn_defs dest: run_attempt_cfg client_service_close_cfg
      split: if_split_asm go.split_asm run_result.split_asm option.split_asm frpc_main.split_asm frpc_signal.split_asm)

subsection \<open>With kcp\<close>

text \<open>The handler exists, and \<^verbatim>\<open>startService\<close> only returns after it is done.\<close>

definition kcp_process :: "('g, 'a, 'c) frpc_process \<Rightarrow> bool" where
  "kcp_process p \<longleftrightarrow> frpc_uses_kcp p \<and> fp_signal p \<noteq> NoHandler \<and> (fp_kcp_done p \<longrightarrow> fp_signal p = SignalDone) \<and>
     (\<forall>e. fp_main p = MainReturned e \<longrightarrow> fp_kcp_done p)"

lemma kcp_process_start: "cc_protocol (ks_cfg svr) = ''kcp'' \<Longrightarrow> kcp_process (frpc_start svr)"
  by (simp add: kcp_process_def frpc_start_def frpc_uses_kcp_def)

lemma kcp_process_turn:
  assumes "frpc_turn ev p = Some p'" and "kcp_process p"
  shows "kcp_process p'"
proof -
  have "frpc_uses_kcp p'" using assms frpc_turn_cfg [OF assms(1)] by (simp add: kcp_process_def frpc_uses_kcp_def)
  with assms show ?thesis
    by (cases ev)
      (auto simp: kcp_process_def main_turn_defs frpc_alive_def
        split: if_split_asm go.split_asm run_result.split_asm option.split_asm frpc_main.split_asm frpc_signal.split_asm)
qed

lemma kcp_returns_after_signal:
  assumes "frpc_turns evs (frpc_start svr) = Some p" and "cc_protocol (ks_cfg svr) = ''kcp''"
    and "fp_main p = MainReturned err"
  shows "fp_signal p = SignalDone"
proof -
  have "kcp_process p" if "frpc_turns evs q = Some p" "kcp_process q" for q
    using that by (induction evs arbitrary: q) (auto split: option.split_asm dest: kcp_process_turn)
  from this [OF assms(1) kcp_process_start [OF assms(2)]] assms(3) show ?thesis by (auto simp: kcp_process_def)
qed

text \<open>
  So a first login that fails, which is meant to end the program, does not end it: until a signal comes it waits, whatever
  else happens.
\<close>

fun is_interrupt :: "('g, 'a, 'c) frpc_event \<Rightarrow> bool" where
  "is_interrupt (Interrupt _ _) = True" | "is_interrupt _ = False"

lemma kcp_failed_login_waits:
  assumes "run_attempt le li od now svr = Ok (RunFailed e)" and "cc_protocol (ks_cfg svr) = ''kcp''"
    and "frpc_turns (Attempt le li od now # evs) (frpc_start svr) = Some p" and "list_all (\<lambda>ev. \<not> is_interrupt ev) evs"
  shows "fp_main p = MainAwaitKcp (Some (RunLoginError e))"
proof -
  let ?waits = "\<lambda>p. fp_main p = MainAwaitKcp (Some (RunLoginError e)) \<and> fp_signal p = AwaitSignal \<and> \<not> fp_kcp_done p"
  have turn: "?waits q'" if "frpc_turn ev q = Some q'" "\<not> is_interrupt ev" "?waits q" for ev and q q' :: "('a, 'b, 'c) frpc_process"
    using that by (cases ev) (auto split: if_split_asm)
  have "?waits p" if "frpc_turns evs q = Some p" "?waits q" for q
    using that assms(4) by (induction evs arbitrary: q) (auto split: option.split_asm dest: turn)
  moreover have "?waits (main_attempt le li od now (frpc_start svr))"
    using assms(1,2) by (simp add: main_attempt_def frpc_start_def after_run_def frpc_uses_kcp_def)
  ultimately show ?thesis using assms(3) by (auto simp: frpc_start_def)
qed

text \<open>
  With \<^verbatim>\<open>login_fail_exit\<close> off and a server that cannot be reached, signals do not end the process either: the loop
  of logins does not look at the context.
\<close>

fun unreachable :: "('g, 'a, 'c) frpc_event \<Rightarrow> bool" where
  "unreachable (Attempt le _ _ _) = (\<forall>proxy protocol addr tls. le_dial le proxy protocol addr tls \<noteq> None)"
| "unreachable _ = True"

lemma run_attempt_unreachable:
  assumes "unreachable (Attempt le li od now)" and "\<not> cc_login_fail_exit (ks_cfg svr)"
  shows "run_attempt le li od now svr = Ok (RunAgain (10 * second))"
proof -
  obtain dial where "le_dial le (cc_http_proxy (ks_cfg svr)) (cc_protocol (ks_cfg svr))
      (join_host_port (cc_server_addr (ks_cfg svr)) (cc_server_port (ks_cfg svr))) (cc_tls_enable (ks_cfg svr)) = Some dial"
    using assms(1) unfolding unreachable.simps by blast
  then have "\<exists>e. login le svr = Inl e" by (simp add: login_def Let_def)
  with assms(2) show ?thesis by (auto simp: run_attempt_def)
qed

lemma signal_does_not_end_login:
  assumes "frpc_turns evs (frpc_start svr) = Some p" and "cc_protocol (ks_cfg svr) = ''kcp''"
    and "\<not> cc_login_fail_exit (ks_cfg svr)" and "ks_ctl svr = None" and "list_all unreachable evs"
  shows "fp_main p = MainLogin"
proof -
  let ?logs_in = "\<lambda>p. fp_main p = MainLogin \<and> kcp_process p \<and> ks_ctl (fp_svr p) = None \<and>
    \<not> cc_login_fail_exit (ks_cfg (fp_svr p))"
  have turn: "?logs_in q'" if "frpc_turn ev q = Some q'" "unreachable ev" "?logs_in q" for ev and q q' :: "('a, 'b, 'c) frpc_process"
  proof -
    have "fp_main q' = MainLogin \<and> ks_ctl (fp_svr q') = None"
      using that
      by (cases ev)
        (auto simp: main_attempt_def run_attempt_unreachable signal_close_def client_service_close_def frpc_alive_def
          kcp_process_def split: if_split_asm frpc_signal.split_asm)
    with that kcp_process_turn [OF that(1)] frpc_turn_cfg [OF that(1)] show ?thesis by simp
  qed
  have "?logs_in p" if "frpc_turns evs q = Some p" "?logs_in q" for q
    using that assms(5) by (induction evs arbitrary: q) (auto split: option.split_asm dest: turn)
  moreover have "?logs_in (frpc_start svr)" using assms(2-4) kcp_process_start [of svr] by (simp add: frpc_start_def)
  ultimately show ?thesis using assms(1) by blast
qed

text \<open>A process that serves is stopped by one signal: the control is closed, then \<^verbatim>\<open>startService\<close> returns without an error.\<close>

lemma kcp_serving_stops:
  assumes "kcp_process p" and "fp_main p = MainServing" and "fp_signal p = AwaitSignal"
    and "client_service_close pxys visitors (fp_svr p) = Ok svr"
  shows "\<exists>p'. frpc_turns [Interrupt pxys visitors, SignalSlept, ContextDone, KcpDone] p = Some p' \<and>
    fp_main p' = MainReturned None \<and> fp_svr p' = svr"
  using assms client_service_close_cfg [OF assms(4)]
  by (simp add: frpc_alive_def signal_close_def after_run_def kcp_process_def frpc_uses_kcp_def)

text \<open>Without kcp there is no handler: the process ends at the signal and nothing is closed.\<close>

lemma signal_kills_without_kcp:
  "fp_signal p = NoHandler \<Longrightarrow> frpc_alive (fp_main p) \<Longrightarrow> frpc_turn (Interrupt pxys visitors) p = Some (p\<lparr>fp_main := MainKilled\<rparr>)"
  by simp

end
