(* ===== verification/Spec2Isabelle.thy ===== *)
theory Spec2Isabelle
  imports Prelude Go_Strings Util Messages Config_Base Auth Server_Conf Proxy_Conf Comparable
    Proxy_Conf_Laws Visitor_Conf Client_Conf Ports Vhost_Router Vhost Handshake Load_Groups
    Registries Server_Plugins Metrics Server_Proxies Server_Control Service Service_Laws Service_Ports
    Service_Witnesses Channels Udp_Forward Rate_Limit Client_Health Client_Proxy Reload Client_Wrapper
    Client_Wrapper_Laws Client_Visitor Client_Visitor_Laws Tunnel Client_Control Client_Control_Laws Client_Service
    Basic_Auth Client_Admin Dashboard Net_Conns Server_Conns Service_Setup Commands
    Client_Plugins Metrics_Sinks Http_Headers Reverse_Proxy Vhost_Pages Group_Workers
    Control_Lines Control_Lines_Laws Control_Stop Http_Serving
    Conn_Wrappers Logging Startup
begin

text \<open>
  A model of frp 0.35.1, a fast reverse proxy: the Go program under \<^verbatim>\<open>src/frp\<close>. A client, \<^verbatim>\<open>frpc\<close>, keeps a
  control connection to a server, \<^verbatim>\<open>frps\<close>, and registers proxies over it. The server opens a port, a host
  name or a name for each proxy; for every user who connects there it asks the client for a work connection,
  over which the user is joined with a service beside the client. Visitors are clients that reach another
  client's secret proxy through the server.

  \<^bold>\<open>How Go appears here.\<close> \<open>Prelude\<close> has the conventions: an error is an \<open>option\<close> or the left of a sum, a
  function that may panic returns \<open>('e, 'a) go\<close> with the value \<open>Panic\<close>, a slice or map that may be nil is an
  option, and a range over a map takes its order as an argument, so that what is proved holds for every order.
  \<open>Go_Strings\<close> has the string functions of the standard library, \<open>Http_Headers\<close> the headers of
  \<^verbatim>\<open>net/http\<close>, \<open>Channels\<close> channels as values. Goroutines are the turns of their loops; the order of
  turns is the order of a list or of the steps of an inductive relation, and theorems quantify over it.
  Pointers that are shared are indices into a heap (the contexts of \<open>Ports\<close>, the connections of
  \<open>Net_Conns\<close>). Counters are words of their width, ports and configured numbers are integers. What the
  program takes from third-party packages (the ini library, text/template, the JSON codec, yamux, KCP, OIDC,
  the rate limiter, Prometheus), from the operating system and from the network is an argument.

  \<^bold>\<open>Messages, configuration, authentication.\<close>
  \<^item> \<open>Util\<close>: \<^verbatim>\<open>pkg/consts\<close>, \<^verbatim>\<open>pkg/util/util\<close>, \<^verbatim>\<open>pkg/util/version\<close>. The loop of a port range runs on
    words of 64 bits; \<open>None\<close> is the loop that does not end.
  \<^item> \<open>Messages\<close>: \<^verbatim>\<open>pkg/msg\<close>, one record per message and the table of type bytes.
  \<^item> \<open>Auth\<close>: \<^verbatim>\<open>pkg/auth\<close>, both methods; the locale \<open>auth_pair\<close> states what a setter and a verifier owe each
    other and is interpreted on the token and OIDC methods.
  \<^item> \<open>Config_Base\<close>, \<open>Server_Conf\<close>, \<open>Proxy_Conf\<close>, \<open>Visitor_Conf\<close>, \<open>Client_Conf\<close>: \<^verbatim>\<open>pkg/config\<close>. The eight types
    of proxies and three of visitors with every method, the loaders of both programs, the expansion of range
    sections. \<open>Proxy_Conf_Laws\<close> shows that comparing decides equality (locale \<open>comparable\<close> of \<open>Comparable\<close>), that
    the server reads back what the client registered and which domains a check lets pass.

  \<^bold>\<open>The server.\<close>
  \<^item> \<open>Ports\<close>: \<^verbatim>\<open>server/ports\<close>. The locale \<open>port_pool\<close> is the contract of acquiring and releasing; ports are
    conserved, granted exclusively and sticky for a day.
  \<^item> \<open>Vhost_Router\<close>, \<open>Vhost\<close>, \<open>Handshake\<close>, \<open>Reverse_Proxy\<close>, \<open>Vhost_Pages\<close>: \<^verbatim>\<open>pkg/util/vhost\<close> and
    \<^verbatim>\<open>pkg/util/tcpmux\<close>. The routing table refines a map (locale \<open>route_table\<close>) and finds the longest
    location; the multiplexers, their listeners and the two readers of names; the reverse proxy with the
    headers it sends on, the copying of bodies and the writer with a maximal latency. \<open>Http_Serving\<close> puts them
    together: a request to a virtual host from its arrival to the end of its answer.
  \<^item> \<open>Load_Groups\<close>: \<^verbatim>\<open>server/group\<close>, with the locale \<open>member_group\<close> interpreted on TCP, multiplexed and HTTP groups.
    \<open>Group_Workers\<close>: the goroutines that hand accepted connections to the members.
  \<^item> \<open>Registries\<close>: the tables keyed by a name (locale \<open>keyed_registry\<close>): all proxies, the visitor
    listeners (\<^verbatim>\<open>server/visitor\<close>, \<^verbatim>\<open>pkg/util/net/listener.go\<close>), the NAT hole controller (\<^verbatim>\<open>pkg/nathole\<close>).
  \<^item> \<open>Server_Plugins\<close>: \<^verbatim>\<open>pkg/plugin/server\<close>. \<open>Metrics\<close>: \<^verbatim>\<open>pkg/util/metric\<close>, \<^verbatim>\<open>pkg/metrics/mem\<close>;
    \<open>Metrics_Sinks\<close>: \<^verbatim>\<open>pkg/metrics/aggregate\<close>, \<^verbatim>\<open>pkg/metrics/prometheus\<close>.
  \<^item> \<open>Server_Proxies\<close>, \<open>Server_Conns\<close>: \<^verbatim>\<open>server/proxy\<close>. Running and closing the eight types over the shared
    resources, the search for a work connection, the user's connections, the goroutines of UDP and XTCP.
  \<^item> \<open>Server_Control\<close>, \<open>Service\<close>: \<^verbatim>\<open>server/control.go\<close>, \<^verbatim>\<open>server/service.go\<close>. \<open>server_run\<close> is the inductive
    relation of a server's histories: connections of any kind, messages, closings, shutdowns, in any order.
    \<open>Service_Laws\<close> has their invariants (one active control per run id, unique proxy names, port limits),
    \<open>Service_Ports\<close> the accounting of ports, \<open>Service_Witnesses\<close> concrete histories for the witnesses.
  \<^item> \<open>Service_Setup\<close>: \<^verbatim>\<open>NewService\<close>, \<^verbatim>\<open>Run\<close>, \<^verbatim>\<open>HandleListener\<close> and \<^verbatim>\<open>pkg/transport\<close>.
    \<open>Dashboard\<close>: \<^verbatim>\<open>server/dashboard.go\<close>, \<^verbatim>\<open>server/dashboard_api.go\<close>.

  \<^bold>\<open>The client.\<close>
  \<^item> \<open>Client_Proxy\<close>: \<^verbatim>\<open>client/proxy/proxy.go\<close>, with the goroutines of UDP and SUDP. \<open>Client_Health\<close>:
    \<^verbatim>\<open>client/health\<close>. \<open>Client_Wrapper\<close>: \<^verbatim>\<open>proxy_wrapper.go\<close>, \<^verbatim>\<open>proxy_manager.go\<close>, \<^verbatim>\<open>client/event\<close>. \<open>Reload\<close> is the
    specification of a reload, the locale \<open>reloadable\<close> extends \<open>comparable\<close>; \<open>Client_Wrapper_Laws\<close> and
    \<open>Client_Visitor_Laws\<close> show that the manager of proxies and the one of visitors implement it.
  \<^item> \<open>Client_Visitor\<close>: \<^verbatim>\<open>client/visitor.go\<close>, \<^verbatim>\<open>visitor_manager.go\<close>. \<open>Client_Control\<close>: \<^verbatim>\<open>client/control.go\<close>, whose
    histories are those of \<open>Client_Control_Laws\<close>. \<open>Client_Service\<close>: \<^verbatim>\<open>client/service.go\<close>.
  \<^item> \<open>Client_Admin\<close>: \<^verbatim>\<open>client/admin.go\<close>, \<^verbatim>\<open>client/admin_api.go\<close>, \<^verbatim>\<open>pkg/config/value.go\<close>.
    \<open>Client_Plugins\<close>: \<^verbatim>\<open>pkg/plugin/client\<close>. \<open>Commands\<close>: \<^verbatim>\<open>cmd/frpc\<close> and \<^verbatim>\<open>cmd/frps\<close>.

  \<^bold>\<open>Both.\<close>
  \<^item> \<open>Tunnel\<close>: what the server and the client put around a work connection, and a visitor and the server
    around a visitor's connection, is the same; it composes \<open>Server_Proxies\<close> with \<open>Client_Proxy\<close> and
    \<open>Client_Visitor\<close> with \<open>Registries\<close>.
  \<^item> \<open>Control_Lines\<close>: the goroutines at both ends of a control connection over channels of their capacities, from
    \<^verbatim>\<open>server/control.go\<close> and \<^verbatim>\<open>client/control.go\<close>. \<open>Control_Lines_Laws\<close> has their interleavings with the network and
    shows that each direction is a queue, \<open>Control_Stop\<close> when a control comes to its end.
  \<^item> \<open>Udp_Forward\<close>: \<^verbatim>\<open>pkg/proto/udp\<close> with the base64 of the packets. \<open>Rate_Limit\<close>: \<^verbatim>\<open>pkg/util/limit\<close>.
    \<open>Basic_Auth\<close>, \<open>Net_Conns\<close>, \<open>Conn_Wrappers\<close>: \<^verbatim>\<open>pkg/util/net\<close>, with the locale \<open>conn_listener\<close> interpreted on the visitors'
    and the plugins' listeners.
  \<^item> \<open>Logging\<close>: the set-up of the logger, the loggers with their prefixes and the contexts that carry them
    (\<^verbatim>\<open>pkg/util/log\<close>, \<^verbatim>\<open>pkg/util/xlog\<close>), and the choice of the page files (\<^verbatim>\<open>assets\<close>).
  \<^item> \<open>Startup\<close>: the constructors of the OIDC methods, keys and certificate pools, the flags of frpc (in whatever
    order the files are initialised the defaults are the same), its commands \<^verbatim>\<open>reload\<close> and \<^verbatim>\<open>status\<close>, and its process, the
    main goroutine with the handler of signals: with kcp it returns only after a signal.

  \<^bold>\<open>Bounds.\<close> Loops that end are recursive functions with a measure or structural. Those that may not end
  give \<open>None\<close>: the expansion of a range up to the largest int64 and a write through a limit with an
  empty burst; the theorems say when they return. Channels have the capacities of the code. No theorem is
  restricted to histories of bounded length; \<open>server_stats_count\<close> asks for fewer than \<open>2 ^ 31\<close> events,
  because the counters are words.

  \<^bold>\<open>What the code does otherwise than meant\<close> is proved as a lemma next to the definition it is about, for
  example that a plugin subscribed to new work connections is never asked for them
  (\<open>new_work_conn_asks_ping_plugins\<close>), that the last of several dead work connections is returned without an
  error (\<open>dead_conn_returned\<close>), that a second close of a UDP proxy gives its port back again
  (\<open>udp_second_close_releases\<close>), that a connection that notifies of its closing does not close the one below (\<open>close_notify_leaks\<close>) and
  that an empty \<^verbatim>\<open>Connection\<close> header lets hop-by-hop headers pass (\<open>empty_connection_header_forwarded\<close>).

  \<^bold>\<open>Not modelled.\<close> The library that writes the log and the embedded pages of the dashboards (output and
  data), the bytes that travel through encryption and compression (the layers and their keys are,
  the ciphers are a library), reading and writing of connections by \<^verbatim>\<open>frpIo.Join\<close>, the JSON text of messages and
  pages, the handshake of websockets, the timeouts of HTTP servers, data races on fields that the code shares
  without a lock, and the Android application around the program, which is no Go code.
\<close>

end
